(* ===== verification/Prelude.thy ===== *)
theory Prelude
  imports Main "HOL-Library.AList" "HOL-Library.Word"
begin

text \<open>
  Shared vocabulary of the development: Go's time values, byte strings and the few functions of
  Go's \<^verbatim>\<open>strings\<close> package the sources call, slices and maps, and the lemma collections that the
  component theories feed and use.

  A Go \<^verbatim>\<open>time.Time\<close> is an \<open>int\<close> (nanoseconds on one monotonic axis), a \<^verbatim>\<open>time.Duration\<close> an
  \<open>int\<close> of nanoseconds. A clock read is an argument of the operation that makes it, so every
  theorem holds for every schedule of readings that satisfies its hypotheses. A Go string is a
  \<open>string\<close>, one \<open>char\<close> per byte. A Go map is a partial function where only lookups, stores and
  pointwise sweeps occur, and an association list with distinct keys where the source takes its
  length or ranges over it.
\<close>

named_theorems go_string \<open>evaluation of the modelled functions of Go's strings package\<close>
named_theorems window \<open>sliding-window facts\<close>
named_theorems step_inv \<open>operations keep the invariant of their component\<close>

type_synonym go_time = int
type_synonym duration = int

abbreviation (input) second_ns :: duration where
  "second_ns \<equiv> 1000000000"

abbreviation (input) minute_ns :: duration where
  "minute_ns \<equiv> 60000000000"

text \<open>A product of two 64-bit signed integers, as Go's \<^verbatim>\<open>int\<close> and \<^verbatim>\<open>time.Duration\<close> wrap it.\<close>

definition wrap64 :: "int \<Rightarrow> int" where
  "wrap64 n = (n + 2 ^ 63) mod 2 ^ 64 - 2 ^ 63"

lemma wrap64_id [simp]: "- (2 ^ 63) \<le> n \<Longrightarrow> n < 2 ^ 63 \<Longrightarrow> wrap64 n = n"
  by (simp add: wrap64_def)

section \<open>Go's strings package\<close>

text \<open>\<^verbatim>\<open>strings.Trim(s, "/")\<close> and its kin: cut the leading and trailing bytes that satisfy a predicate.\<close>

definition trim_by :: "(char \<Rightarrow> bool) \<Rightarrow> string \<Rightarrow> string" where
  [go_string]: "trim_by p s = rev (dropWhile p (rev (dropWhile p s)))"

lemma dropWhile_eq_prefix: "\<exists>m. replicate m c @ dropWhile (\<lambda>x. x = c) s = s"
proof (induction s)
  case (Cons x xs)
  then obtain m where "replicate m c @ dropWhile (\<lambda>x. x = c) xs = xs" by blast
  then have "x = c \<Longrightarrow> replicate (Suc m) c @ dropWhile (\<lambda>x. x = c) (x # xs) = x # xs" by simp
  moreover have "x \<noteq> c \<Longrightarrow> replicate 0 c @ dropWhile (\<lambda>x. x = c) (x # xs) = x # xs" by simp
  ultimately show ?case by blast
qed simp

lemma trim_by_decomp:
  "\<exists>m n. s = replicate m c @ trim_by (\<lambda>x. x = c) s @ replicate n c"
proof -
  let ?d = "dropWhile (\<lambda>x. x = c) s"
  from dropWhile_eq_prefix [of c s] obtain m where m: "replicate m c @ ?d = s" ..
  from dropWhile_eq_prefix [of c "rev ?d"]
  obtain n where n: "replicate n c @ dropWhile (\<lambda>x. x = c) (rev ?d) = rev ?d" ..
  have "trim_by (\<lambda>x. x = c) s @ replicate n c = rev (replicate n c @ dropWhile (\<lambda>x. x = c) (rev ?d))"
    by (simp add: trim_by_def)
  with m n show ?thesis by (metis rev_rev_ident)
qed

lemma dropWhile_replicate_append [simp]:
  "dropWhile (\<lambda>x. x = c) (replicate m c @ s) = dropWhile (\<lambda>x. x = c) s"
  by (induction m) auto

lemma trim_by_core:
  assumes "core \<noteq> []" "hd core \<noteq> c" "last core \<noteq> c"
  shows "trim_by (\<lambda>x. x = c) (replicate m c @ core @ replicate n c) = core"
proof -
  obtain a as where a: "core = a # as" using assms(1) by (cases core) auto
  obtain bs b where b: "core = bs @ [b]" using assms(1) by (cases core rule: rev_cases) auto
  have "dropWhile (\<lambda>x. x = c) (core @ replicate n c) = core @ replicate n c"
    using a assms(2) by simp
  moreover have "dropWhile (\<lambda>x. x = c) (rev core) = rev core"
    using b assms(3) by simp
  ultimately show ?thesis by (simp add: trim_by_def)
qed

text \<open>\<^verbatim>\<open>strings.Split(s, sep)\<close> for a separator of one byte: never empty, \<open>[s]\<close> when it is absent.\<close>

fun split_on :: "char \<Rightarrow> string \<Rightarrow> string list" where
  "split_on c [] = [[]]"
| "split_on c (x # xs) =
     (if x = c then [] # split_on c xs
      else (case split_on c xs of [] \<Rightarrow> [[x]] | f # fs \<Rightarrow> (x # f) # fs))"

lemma split_on_ne [simp]: "split_on c s \<noteq> []"
  by (cases s) (auto split: list.splits)

lemma split_on_no_sep: "f \<in> set (split_on c s) \<Longrightarrow> c \<notin> set f"
proof (induction s arbitrary: f)
  case Nil
  then show ?case by simp
next
  case (Cons x xs)
  obtain g gs where g: "split_on c xs = g # gs" by (cases "split_on c xs") auto
  show ?case
  proof (cases "x = c")
    case True
    with Cons show ?thesis by auto
  next
    case False
    with Cons.prems g consider "f = x # g" | "f \<in> set gs" by auto
    then show ?thesis
    proof cases
      case 1
      with Cons.IH [of g] g False show ?thesis by auto
    next
      case 2
      with Cons.IH [of f] g show ?thesis by auto
    qed
  qed
qed

text \<open>Joining with the separator undoes the split.\<close>

fun join_with :: "char \<Rightarrow> string list \<Rightarrow> string" where
  "join_with c [] = []"
| "join_with c [f] = f"
| "join_with c (f # fs) = f @ c # join_with c fs"

lemma join_with_Cons: "fs \<noteq> [] \<Longrightarrow> join_with c (f # fs) = f @ c # join_with c fs"
  by (cases fs) auto

lemma join_split: "join_with c (split_on c s) = s"
proof (induction s)
  case Nil
  then show ?case by simp
next
  case (Cons x xs)
  obtain g gs where g: "split_on c xs = g # gs" by (cases "split_on c xs") auto
  with Cons show ?case by (cases gs) auto
qed

lemma split_on_append_sep: "c \<notin> set f \<Longrightarrow> split_on c (f @ c # s) = f # split_on c s"
  by (induction f) auto

lemma split_on_no_occ: "c \<notin> set f \<Longrightarrow> split_on c f = [f]"
  by (induction f) auto

lemma split_join:
  "fs \<noteq> [] \<Longrightarrow> \<forall>f \<in> set fs. c \<notin> set f \<Longrightarrow> split_on c (join_with c fs) = fs"
proof (induction fs rule: list_nonempty_induct)
  case (single f)
  then show ?case by (simp add: split_on_no_occ)
next
  case (cons f fs)
  then show ?case by (simp add: join_with_Cons split_on_append_sep)
qed

text \<open>\<^verbatim>\<open>strings.IndexByte\<close>, \<^verbatim>\<open>strings.LastIndexByte\<close>: \<open>None\<close> for Go's \<open>-1\<close>.\<close>

fun index_of :: "char \<Rightarrow> string \<Rightarrow> nat option" where
  "index_of c [] = None"
| "index_of c (x # xs) = (if x = c then Some 0 else map_option Suc (index_of c xs))"

definition last_index_of :: "char \<Rightarrow> string \<Rightarrow> nat option" where
  [go_string]: "last_index_of c s = map_option (\<lambda>i. length s - 1 - i) (index_of c (rev s))"

lemma index_of_None [simp]: "index_of c s = None \<longleftrightarrow> c \<notin> set s"
  by (induction s) auto

lemma index_of_bound: "index_of c s = Some i \<Longrightarrow> i < length s \<and> s ! i = c"
  by (induction s arbitrary: i) (auto split: if_splits)

text \<open>\<^verbatim>\<open>strings.HasPrefix\<close>, \<^verbatim>\<open>strings.HasSuffix\<close>, \<^verbatim>\<open>strings.Contains\<close>.\<close>

fun has_prefix :: "string \<Rightarrow> string \<Rightarrow> bool" where
  "has_prefix s [] = True"
| "has_prefix [] (p # ps) = False"
| "has_prefix (x # xs) (p # ps) = (x = p \<and> has_prefix xs ps)"

definition has_suffix :: "string \<Rightarrow> string \<Rightarrow> bool" where
  [go_string]: "has_suffix s t = has_prefix (rev s) (rev t)"

fun str_contains :: "string \<Rightarrow> string \<Rightarrow> bool" where
  "str_contains [] t = (t = [])"
| "str_contains (x # xs) t = (has_prefix (x # xs) t \<or> str_contains xs t)"

lemma has_prefix_iff: "has_prefix s t \<longleftrightarrow> (\<exists>r. s = t @ r)"
  by (induction s t rule: has_prefix.induct) auto

lemma has_suffix_iff: "has_suffix s t \<longleftrightarrow> (\<exists>r. s = r @ t)"
proof -
  have "(\<exists>r. rev s = rev t @ r) \<longleftrightarrow> (\<exists>r. s = r @ t)"
    by (metis rev_append rev_rev_ident)
  then show ?thesis by (simp add: has_suffix_def has_prefix_iff)
qed

lemma str_contains_iff: "str_contains s t \<longleftrightarrow> (\<exists>a b. s = a @ t @ b)"
proof (induction s)
  case Nil
  then show ?case by auto
next
  case (Cons x xs)
  show ?case
  proof
    assume "str_contains (x # xs) t"
    then consider "has_prefix (x # xs) t" | "str_contains xs t" by auto
    then show "\<exists>a b. x # xs = a @ t @ b"
    proof cases
      case 1
      then show ?thesis by (metis append_Nil has_prefix_iff)
    next
      case 2
      with Cons.IH show ?thesis by (metis append_Cons)
    qed
  next
    assume "\<exists>a b. x # xs = a @ t @ b"
    then obtain a b where ab: "x # xs = a @ t @ b" by blast
    show "str_contains (x # xs) t"
    proof (cases a)
      case Nil
      with ab have "has_prefix (x # xs) t" by (simp add: has_prefix_iff)
      then show ?thesis by simp
    next
      case (Cons y ys)
      with ab have "xs = ys @ t @ b" by simp
      with Cons.IH show ?thesis by auto
    qed
  qed
qed

text \<open>ASCII lower-casing, what \<^verbatim>\<open>strings.ToLower\<close> does to a string of ASCII bytes.\<close>

definition ascii_lower :: "char \<Rightarrow> char" where
  "ascii_lower c = (if 65 \<le> (of_char c :: nat) \<and> (of_char c :: nat) \<le> 90
     then char_of ((of_char c :: nat) + 32) else c)"

abbreviation to_lower :: "string \<Rightarrow> string" where
  "to_lower s \<equiv> map ascii_lower s"

lemma ascii_lower_idem [simp]: "ascii_lower (ascii_lower c) = ascii_lower c"
proof -
  have "(of_char (ascii_lower c) :: nat) < 65 \<or> 90 < (of_char (ascii_lower c) :: nat)"
    by (auto simp: ascii_lower_def)
  then show ?thesis unfolding ascii_lower_def [of "ascii_lower c"] by (auto split: if_splits)
qed

lemma to_lower_idem [simp]: "to_lower (to_lower s) = to_lower s"
  by (simp add: comp_def)

section \<open>Slices and maps\<close>

text \<open>A Go slice expression \<open>xs[n:]\<close> is \<open>drop n xs\<close>; dropping a prefix keeps membership.\<close>

lemma set_dropWhile_subset: "x \<in> set (dropWhile P xs) \<Longrightarrow> x \<in> set xs"
  by (simp add: set_dropWhileD)

text \<open>On a list sorted by a key, dropping the old front and filtering the old entries agree.\<close>

lemma dropWhile_eq_filter_sorted [window]:
  fixes f :: "'a \<Rightarrow> 'b::linorder"
  assumes "sorted (map f xs)"
  shows "dropWhile (\<lambda>x. f x < c) xs = filter (\<lambda>x. c \<le> f x) xs"
  using assms
proof (induction xs)
  case Nil
  then show ?case by simp
next
  case (Cons x xs)
  show ?case
  proof (cases "f x < c")
    case True
    with Cons show ?thesis by auto
  next
    case False
    with Cons.prems have "\<forall>y \<in> set xs. c \<le> f y" by auto
    with False show ?thesis by (simp add: filter_id_conv)
  qed
qed

lemma sorted_map_filter: "sorted (map f xs) \<Longrightarrow> sorted (map f (filter P xs))"
  by (induction xs) auto

lemma sorted_map_drop: "sorted (map f xs) \<Longrightarrow> sorted (map f (drop n xs))"
  by (simp add: drop_map [symmetric] sorted_wrt_drop)

lemma sorted_map_snoc:
  "sorted (map f xs) \<Longrightarrow> \<forall>x \<in> set xs. f x \<le> f y \<Longrightarrow> sorted (map f (xs @ [y]))"
  by (auto simp: sorted_append)

text \<open>A keyed sweep of an association list that may delete entries.\<close>

definition sweep :: "('v \<Rightarrow> 'v option) \<Rightarrow> ('k \<times> 'v) list \<Rightarrow> ('k \<times> 'v) list" where
  "sweep f m = List.map_filter (\<lambda>(k, v). map_option (Pair k) (f v)) m"

lemma sweep_simps [simp]:
  "sweep f [] = []"
  "sweep f ((k, v) # m) = (case f v of None \<Rightarrow> sweep f m | Some w \<Rightarrow> (k, w) # sweep f m)"
  by (auto simp: sweep_def List.map_filter_def split: option.splits)

lemma keys_sweep: "fst ` set (sweep f m) \<subseteq> fst ` set m"
proof (induction m)
  case (Cons kv m)
  then show ?case by (cases kv) (auto split: option.splits simp del: image_subset_iff)
qed simp

lemma distinct_keys_sweep [simp]: "distinct (map fst m) \<Longrightarrow> distinct (map fst (sweep f m))"
proof (induction m)
  case Nil
  then show ?case by simp
next
  case (Cons kv m)
  obtain k v where "kv = (k, v)" by fastforce
  with Cons keys_sweep [of f m] show ?case by (auto split: option.splits)
qed

lemma length_sweep_le: "length (sweep f m) \<le> length m"
  by (induction m) (auto split: option.splits)

lemma map_of_sweep:
  "distinct (map fst m) \<Longrightarrow> map_of (sweep f m) k = Option.bind (map_of m k) f"
proof (induction m)
  case Nil
  then show ?case by simp
next
  case (Cons kv m)
  obtain k' v where kv: "kv = (k', v)" by fastforce
  have "k' \<notin> fst ` set m \<Longrightarrow> map_of (sweep f m) k' = None"
    using keys_sweep [of f m] by (auto simp: map_of_eq_None_iff)
  with Cons kv show ?case by (auto split: option.splits)
qed

lemma length_update_new: "map_of m k = None \<Longrightarrow> length (AList.update k v m) = Suc (length m)"
  by (induction m) (auto split: if_splits)

lemma length_update_old: "map_of m k = Some w \<Longrightarrow> length (AList.update k v m) = length m"
  by (induction m) (auto split: if_splits)

lemma length_delete_le: "length (AList.delete k m) \<le> length m"
  by (simp add: AList.delete_eq)

lemma map_of_delete: "map_of (AList.delete k m) = (map_of m)(k := None)"
  by (simp add: AList.delete_conv')

lemma map_of_update: "map_of (AList.update k v m) = (map_of m)(k \<mapsto> v)"
  by (simp add: AList.update_conv')

lemmas alist_simps = map_of_delete map_of_update map_of_sweep AList.distinct_update
  AList.distinct_delete

section \<open>Results\<close>

text \<open>Chained checks over error values: the first failing one decides.\<close>

definition and_then :: "'e + 'a \<Rightarrow> ('a \<Rightarrow> 'e + 'b) \<Rightarrow> 'e + 'b" where
  "and_then x f = (case x of Inl e \<Rightarrow> Inl e | Inr a \<Rightarrow> f a)"

definition require :: "'e \<Rightarrow> 'a option \<Rightarrow> 'e + 'a" where
  "require e x = (case x of None \<Rightarrow> Inl e | Some a \<Rightarrow> Inr a)"

definition guard :: "bool \<Rightarrow> 'e \<Rightarrow> 'e + unit" where
  "guard b e = (if b then Inr () else Inl e)"

lemma and_then_Inr [simp]: "and_then x f = Inr y \<longleftrightarrow> (\<exists>a. x = Inr a \<and> f a = Inr y)"
  by (auto simp: and_then_def split: sum.splits)

lemma require_Inr [simp]: "require e x = Inr a \<longleftrightarrow> x = Some a"
  by (auto simp: require_def split: option.splits)

lemma guard_Inr [simp]: "guard b e = Inr u \<longleftrightarrow> b"
  by (auto simp: guard_def)

lemma case_sum_Inr [simp]: "(case x of Inl _ \<Rightarrow> Inl e | Inr a \<Rightarrow> Inr a) = Inr b \<longleftrightarrow> x = Inr b"
  by (auto split: sum.splits)

end
