(* ===== verification/GoNet.thy ===== *)
theory GoNet
  imports Prelude
begin

unbundle bit_operations_syntax

text \<open>
  The part of Go's \<^verbatim>\<open>net\<close> and \<^verbatim>\<open>net/netip\<close> packages that the sources call: \<^verbatim>\<open>ParseIP\<close>, \<^verbatim>\<open>ParseCIDR\<close>,
  \<^verbatim>\<open>CIDRMask\<close>, \<^verbatim>\<open>IP.To4\<close>, \<^verbatim>\<open>IP.Mask\<close>, \<^verbatim>\<open>IPNet.Contains\<close> and \<^verbatim>\<open>SplitHostPort\<close>. An IP is the byte
  slice Go uses, four or sixteen bytes; a parse error is \<open>None\<close>. The lemmas give the shape of the
  results the components rely on.
\<close>

type_synonym byte = "8 word"
type_synonym ip = "byte list"

record ipnet =
  net_ip :: ip
  net_mask :: "byte list"

section \<open>Parsing addresses\<close>

definition dec_val :: "char \<Rightarrow> nat option" where
  "dec_val c = (let n = of_char c in if 48 \<le> n \<and> n \<le> 57 then Some (n - 48) else None)"

definition hex_val :: "char \<Rightarrow> nat option" where
  "hex_val c = (let n = of_char c in
     if 48 \<le> n \<and> n \<le> 57 then Some (n - 48)
     else if 97 \<le> n \<and> n \<le> 102 then Some (n - 87)
     else if 65 \<le> n \<and> n \<le> 70 then Some (n - 55)
     else None)"

text \<open>
  \<^verbatim>\<open>parseIPv4Fields\<close>: the value and digit count of the current octet, the finished octets in
  reverse. A leading zero, an octet above 255, an empty octet and a fifth octet are refused.
\<close>

fun v4_fields :: "string \<Rightarrow> nat \<Rightarrow> nat \<Rightarrow> nat list \<Rightarrow> nat list option" where
  "v4_fields [] val dig acc = (if length acc < 3 then None else Some (rev (val # acc)))"
| "v4_fields (c # cs) val dig acc =
     (case dec_val c of
        Some d \<Rightarrow>
          (if dig = 1 \<and> val = 0 then None
           else let v = val * 10 + d in
             if v > 255 then None else v4_fields cs v (Suc dig) acc)
      | None \<Rightarrow>
          (if c = CHR ''.'' then
             (if dig = 0 \<or> cs = [] then None
              else if length acc = 3 then None
              else v4_fields cs 0 0 (val # acc))
           else None))"

lemma v4_fields_length: "v4_fields s v d acc = Some fs \<Longrightarrow> length acc \<le> 3 \<Longrightarrow> length fs = 4"
  by (induction s v d acc rule: v4_fields.induct)
    (auto simp: Let_def split: option.splits if_splits)

definition hex_number :: "string \<Rightarrow> nat" where
  "hex_number ds = foldl (\<lambda>a c. 16 * a + (case hex_val c of Some d \<Rightarrow> d | None \<Rightarrow> 0)) 0 ds"

text \<open>
  One round of the loop of \<^verbatim>\<open>parseIPv6\<close>: the bytes read so far, the position of the ellipsis and
  the rest of the text. A round fails, leaves the loop with the text used up, or goes on.
\<close>

datatype v6_round = Fail | Done "byte list" "nat option" | More "byte list" "nat option" string

definition v6_step :: "byte list \<Rightarrow> nat option \<Rightarrow> string \<Rightarrow> v6_round" where
  "v6_step bs ell s =
     (let ds = takeWhile (\<lambda>c. hex_val c \<noteq> None) s; rest = drop (length ds) s in
      if length ds > 4 \<or> ds = [] then Fail
      else if rest \<noteq> [] \<and> hd rest = CHR ''.'' then
        (if ell = None \<and> length bs \<noteq> 12 then Fail
         else if length bs + 4 > 16 then Fail
         else (case v4_fields s 0 0 [] of
             None \<Rightarrow> Fail
           | Some fs \<Rightarrow> Done (bs @ map of_nat fs) ell))
      else
        let n = hex_number ds; bs' = bs @ [of_nat (n div 256), of_nat n] in
        if rest = [] then Done bs' ell
        else if hd rest \<noteq> CHR '':'' \<or> length rest = 1 then Fail
        else let s' = tl rest in
          if hd s' = CHR '':'' then
            (if ell \<noteq> None then Fail
             else if tl s' = [] then Done bs' (Some (length bs'))
             else More bs' (Some (length bs')) (tl s'))
          else More bs' ell s')"

lemma v6_step_More:
  "v6_step bs ell s = More bs' ell' s' \<Longrightarrow>
    length bs' = length bs + 2 \<and> (ell' = ell \<or> ell' = Some (length bs'))"
  by (auto simp: v6_step_def Let_def split: if_splits option.splits)

lemma v6_step_Done:
  "v6_step bs ell s = Done bs' ell' \<Longrightarrow>
    (length bs' = length bs + 2 \<or> length bs' = length bs + 4 \<and> length bs + 4 \<le> 16) \<and>
    (ell' = ell \<or> ell' = Some (length bs'))"
  using v4_fields_length [of s 0 0 "[]"]
  by (auto simp: v6_step_def Let_def split: if_splits option.splits)

function v6_loop :: "byte list \<Rightarrow> nat option \<Rightarrow> string \<Rightarrow> (byte list \<times> nat option \<times> string) option" where
  "v6_loop bs ell s =
     (if length bs \<ge> 16 then Some (bs, ell, s)
      else (case v6_step bs ell s of
          Fail \<Rightarrow> None
        | Done bs' ell' \<Rightarrow> Some (bs', ell', [])
        | More bs' ell' s' \<Rightarrow> v6_loop bs' ell' s'))"
  by pat_completeness auto
termination
  by (relation "measure (\<lambda>(bs, ell, s). 16 - length bs)") (auto dest: v6_step_More)

declare v6_loop.simps [simp del]

datatype addr = V4 ip | V6 ip string

definition parse_v6 :: "string \<Rightarrow> addr option" where
  "parse_v6 text =
     (let s0 = takeWhile (\<lambda>c. c \<noteq> CHR ''%'') text;
          zone = drop (Suc (length s0)) text;
          zoned = (length s0 < length text) in
      if zoned \<and> zone = [] then None
      else
        let lead = has_prefix s0 ''::''; s1 = (if lead then drop 2 s0 else s0) in
        if lead \<and> s1 = [] then Some (V6 (replicate 16 0) zone)
        else
          (case v6_loop [] (if lead then Some 0 else None) s1 of
             None \<Rightarrow> None
           | Some (bs, ell, s) \<Rightarrow>
               if s \<noteq> [] then None
               else if length bs < 16 then
                 (case ell of
                    None \<Rightarrow> None
                  | Some e \<Rightarrow> Some (V6 (take e bs @ replicate (16 - length bs) 0 @ drop e bs) zone))
               else if ell \<noteq> None then None
               else Some (V6 bs zone)))"

text \<open>\<^verbatim>\<open>netip.ParseAddr\<close>: the first dot, colon or percent sign chooses the parser.\<close>

definition parse_addr :: "string \<Rightarrow> addr option" where
  "parse_addr s =
     (case find (\<lambda>c. c \<in> {CHR ''.'', CHR '':'', CHR ''%''}) s of
        None \<Rightarrow> None
      | Some c \<Rightarrow>
          if c = CHR ''.'' then map_option (\<lambda>fs. V4 (map of_nat fs)) (v4_fields s 0 0 [])
          else if c = CHR '':'' then parse_v6 s
          else None)"

definition v4_in_v6_prefix :: "byte list" where
  "v4_in_v6_prefix = replicate 10 0 @ [255, 255]"

fun as16 :: "addr \<Rightarrow> ip" where
  "as16 (V4 b) = v4_in_v6_prefix @ b"
| "as16 (V6 b z) = b"

fun bit_len :: "addr \<Rightarrow> nat" where
  "bit_len (V4 b) = 32"
| "bit_len (V6 b z) = 128"

fun zone_of :: "addr \<Rightarrow> string" where
  "zone_of (V4 b) = []"
| "zone_of (V6 b z) = z"

text \<open>\<^verbatim>\<open>net.ParseIP\<close>: sixteen bytes, \<open>None\<close> for Go's nil.\<close>

definition ParseIP :: "string \<Rightarrow> ip option" where
  "ParseIP s = (case parse_addr s of
     None \<Rightarrow> None
   | Some a \<Rightarrow> if zone_of a \<noteq> [] then None else Some (as16 a))"

definition To4 :: "ip \<Rightarrow> ip option" where
  "To4 a = (if length a = 4 then Some a
     else if length a = 16 \<and> take 12 a = v4_in_v6_prefix then Some (drop 12 a)
     else None)"

section \<open>Networks\<close>

definition mask_byte :: "nat \<Rightarrow> byte" where
  "mask_byte n = (if n \<ge> 8 then 255 else NOT (drop_bit n 255))"

definition CIDRMask :: "nat \<Rightarrow> nat \<Rightarrow> byte list" where
  "CIDRMask ones bits = map (\<lambda>i. mask_byte (ones - 8 * i)) [0..<bits div 8]"

definition and_bytes :: "byte list \<Rightarrow> byte list \<Rightarrow> byte list" where
  "and_bytes xs ys = map2 (AND) xs ys"

text \<open>\<^verbatim>\<open>dtoi\<close>: a decimal below \<open>0xFFFFFF\<close>, the whole text.\<close>

fun dtoi_loop :: "int \<Rightarrow> string \<Rightarrow> int option" where
  "dtoi_loop n [] = Some n"
| "dtoi_loop n (c # cs) =
     (case dec_val c of
        None \<Rightarrow> None
      | Some d \<Rightarrow> let m = n * 10 + int d in if m \<ge> 0xFFFFFF then None else dtoi_loop m cs)"

definition dtoi :: "string \<Rightarrow> nat option" where
  "dtoi s = (if s = [] then None else map_option nat (dtoi_loop 0 s))"

text \<open>\<^verbatim>\<open>net.ParseCIDR\<close>, its second result: the network of the prefix.\<close>

definition ParseCIDR :: "string \<Rightarrow> ipnet option" where
  "ParseCIDR s =
     (case index_of (CHR ''/'') s of
        None \<Rightarrow> None
      | Some i \<Rightarrow>
          (case parse_addr (take i s) of
             None \<Rightarrow> None
           | Some a \<Rightarrow>
               if zone_of a \<noteq> [] then None
               else (case dtoi (drop (Suc i) s) of
                   None \<Rightarrow> None
                 | Some n \<Rightarrow>
                     if n > bit_len a then None
                     else
                       let m = CIDRMask n (bit_len a);
                           b = (case a of V4 b \<Rightarrow> b | V6 b z \<Rightarrow> b) in
                       Some \<lparr>net_ip = and_bytes b m, net_mask = m\<rparr>)))"

definition Contains :: "ipnet \<Rightarrow> ip \<Rightarrow> bool" where
  "Contains n a =
     (let nn = (case To4 (net_ip n) of Some b \<Rightarrow> b | None \<Rightarrow> net_ip n);
          m = (if length (net_mask n) = 16 \<and> length nn = 4 then drop 12 (net_mask n) else net_mask n);
          x = (case To4 a of Some b \<Rightarrow> b | None \<Rightarrow> a) in
      length nn \<in> {4, 16} \<and> length m = length nn \<and> length x = length nn \<and>
      and_bytes nn m = and_bytes x m)"

section \<open>Host and port\<close>

text \<open>\<^verbatim>\<open>net.SplitHostPort\<close>: the host and the port, \<open>None\<close> where Go returns an error.\<close>

definition SplitHostPort :: "string \<Rightarrow> (string \<times> string) option" where
  "SplitHostPort hp =
     (case last_index_of (CHR '':'') hp of
        None \<Rightarrow> None
      | Some i \<Rightarrow>
          if hd hp = CHR ''['' then
            (case index_of (CHR '']'') hp of
               None \<Rightarrow> None
             | Some e \<Rightarrow>
                 if e + 1 \<noteq> i then None
                 else if CHR ''['' \<in> set (drop 1 hp) \<or> CHR '']'' \<in> set (drop (e + 1) hp) then None
                 else Some (drop 1 (take e hp), drop (i + 1) hp))
          else if CHR '':'' \<in> set (take i hp) then None
          else if CHR ''['' \<in> set hp \<or> CHR '']'' \<in> set hp then None
          else Some (take i hp, drop (i + 1) hp))"

section \<open>Shapes of the results\<close>

definition v6_wf :: "byte list \<Rightarrow> nat option \<Rightarrow> bool" where
  "v6_wf bs ell \<longleftrightarrow> length bs \<le> 16 \<and> even (length bs) \<and> (\<forall>e. ell = Some e \<longrightarrow> e \<le> length bs)"

lemma v6_loop_wf: "v6_loop bs ell s = Some (bs', ell', s') \<Longrightarrow> v6_wf bs ell \<Longrightarrow> v6_wf bs' ell'"
proof (induction bs ell s rule: v6_loop.induct)
  case (1 bs ell s)
  show ?case
  proof (cases "length bs \<ge> 16")
    case True
    with "1.prems" show ?thesis by (simp add: v6_loop.simps [of bs ell s])
  next
    case False
    have room: "length bs + 2 \<le> 16"
      using False "1.prems"(2) by (auto simp: v6_wf_def elim!: evenE)
    show ?thesis
    proof (cases "v6_step bs ell s")
      case Fail
      with False "1.prems"(1) show ?thesis by (simp add: v6_loop.simps [of bs ell s])
    next
      case (Done b e)
      with False "1.prems" room v6_step_Done [OF Done] show ?thesis
        by (auto simp: v6_loop.simps [of bs ell s] v6_wf_def)
    next
      case (More b e r)
      from v6_step_More [OF More] "1.prems"(2) room have "v6_wf b e"
        by (auto simp: v6_wf_def)
      with "1.IH" [OF False More] "1.prems"(1) False More show ?thesis
        by (simp add: v6_loop.simps [of bs ell s])
    qed
  qed
qed

lemma parse_v6_length: "parse_v6 s = Some a \<Longrightarrow> \<exists>b z. a = V6 b z \<and> length b = 16"
  by (auto simp: parse_v6_def Let_def v6_wf_def split: if_splits option.splits
      dest!: v6_loop_wf)

lemma parse_addr_length:
  "parse_addr s = Some a \<Longrightarrow> (\<exists>b. a = V4 b \<and> length b = 4) \<or> (\<exists>b z. a = V6 b z \<and> length b = 16)"
  unfolding parse_addr_def
  by (auto split: option.splits if_splits dest: parse_v6_length v4_fields_length)

lemma ParseIP_length: "ParseIP s = Some a \<Longrightarrow> length a = 16"
  unfolding ParseIP_def
  by (auto simp: v4_in_v6_prefix_def split: option.splits if_splits dest!: parse_addr_length)

lemma length_CIDRMask [simp]: "length (CIDRMask n b) = b div 8"
  by (simp add: CIDRMask_def)

lemma and_bytes_idem: "and_bytes (and_bytes xs m) m = and_bytes xs m"
  unfolding and_bytes_def
  by (rule nth_equalityI) (auto simp: and.assoc)

lemma length_and_bytes [simp]: "length (and_bytes xs ys) = min (length xs) (length ys)"
  by (simp add: and_bytes_def)

end
