(* ===== verification/Interfaces.thy ===== *)
theory Interfaces
  imports Prelude
begin

text \<open>
  The contracts that several components share, as locales whose lemmas are proved once and reach
  the components by interpretation on their own definitions:
  \<^item> \<open>kept_invariant\<close>: every operation of a component keeps its invariant;
  \<^item> \<open>sticky_flag\<close>: a deny source stays set until an operation that clears it;
  \<^item> \<open>windowed_log\<close>: per-key logs whose opportunistic cleanup drops expired entries only;
  \<^item> \<open>strictest_choice\<close>: a scan that keeps the strictest candidate seen so far;
  \<^item> \<open>hash_chain\<close>: records that name the hash of their predecessor.
\<close>

section \<open>Operations that keep an invariant\<close>

locale kept_invariant =
  fixes step :: "'op \<Rightarrow> 's \<Rightarrow> 's"
    and inv :: "'s \<Rightarrow> bool"
  assumes step_keeps: "inv s \<Longrightarrow> inv (step x s)"
begin

lemma run_keeps: "inv s \<Longrightarrow> inv (fold step xs s)"
  by (induction xs arbitrary: s) (auto intro: step_keeps)

end

section \<open>Flags that only some operations clear\<close>

locale sticky_flag =
  fixes step :: "'op \<Rightarrow> 's \<Rightarrow> 's"
    and flag :: "'s \<Rightarrow> bool"
    and clears :: "'op \<Rightarrow> bool"
  assumes step_sticks: "flag s \<Longrightarrow> \<not> clears x \<Longrightarrow> flag (step x s)"
begin

lemma run_sticks: "flag s \<Longrightarrow> list_all (\<lambda>x. \<not> clears x) xs \<Longrightarrow> flag (fold step xs s)"
  by (induction xs arbitrary: s) (auto intro: step_sticks)

text \<open>A flag that is lost was cleared by an operation of the run.\<close>

lemma lost_was_cleared: "flag s \<Longrightarrow> \<not> flag (fold step xs s) \<Longrightarrow> \<exists>x \<in> set xs. clears x"
  using run_sticks [of s xs] by (auto simp: list_all_iff)

end

section \<open>Runs that answer\<close>

text \<open>
  A component whose calls answer a boolean, run over a list of timed calls, and the simulation
  argument for such runs: a relation between the two states that survives the passing of time and
  makes each answer equal gives equal answers on every run with a nondecreasing clock.
\<close>

fun answers :: "('c \<Rightarrow> 's \<Rightarrow> 'b \<times> 's) \<Rightarrow> 'c list \<Rightarrow> 's \<Rightarrow> 'b list" where
  "answers f [] s = []"
| "answers f (x # xs) s = (let (b, s') = f x s in b # answers f xs s')"

lemma timed_simulation:
  assumes step: "\<And>now x s h. R now s h \<Longrightarrow>
      fst (f (now, x) s) = fst (g (now, x) h) \<and> R now (snd (f (now, x) s)) (snd (g (now, x) h))"
    and later: "\<And>t t' s h. R t s h \<Longrightarrow> t \<le> t' \<Longrightarrow> R t' s h"
  shows "R t s h \<Longrightarrow> sorted (t # map fst xs) \<Longrightarrow> answers f xs s = answers g xs h"
proof (induction xs arbitrary: t s h)
  case Nil
  then show ?case by simp
next
  case (Cons x xs)
  obtain now call where x: "x = (now, call)" by fastforce
  from Cons.prems x have "R now s h" by (auto intro: later)
  note st = step [OF this, of call]
  obtain b s' where s': "f x s = (b, s')" by fastforce
  obtain h' where h': "g x h = (b, h')" using st x s' by (cases "g x h") simp
  have "answers f xs s' = answers g xs h'"
    using Cons.IH [of now s' h'] Cons.prems st s' h' x by simp
  with s' h' show ?case by simp
qed

section \<open>Logs with a sliding window\<close>

text \<open>
  The provider keeps one log per key. Sweeping at a cutoff drops the entries that are not after
  it, on every key; appending adds one entry to one key. The specification a client sees is a
  log that never forgets: the two agree on every window that starts at or after the last cutoff.
\<close>

locale windowed_log =
  fixes entries :: "'s \<Rightarrow> 'k \<Rightarrow> 'e list"
    and stamp :: "'e \<Rightarrow> go_time"
    and sweep_old :: "go_time \<Rightarrow> 's \<Rightarrow> 's"
    and add :: "'k \<Rightarrow> 'e \<Rightarrow> 's \<Rightarrow> 's"
  assumes entries_sweep: "entries (sweep_old c s) k = filter (\<lambda>e. c < stamp e) (entries s k)"
    and entries_add: "entries (add k e s) = (entries s)(k := entries s k @ [e])"
begin

definition tracks :: "go_time \<Rightarrow> 's \<Rightarrow> ('k \<Rightarrow> 'e list) \<Rightarrow> bool" where
  "tracks c s h \<longleftrightarrow>
     (\<forall>k. filter (\<lambda>e. c < stamp e) (entries s k) = filter (\<lambda>e. c < stamp e) (h k))"

lemma tracksD: "tracks c s h \<Longrightarrow> filter (\<lambda>e. c < stamp e) (entries s k) = filter (\<lambda>e. c < stamp e) (h k)"
  by (simp add: tracks_def)

lemma filter_later:
  assumes "c \<le> c'"
  shows "filter (\<lambda>e. c' < stamp e) xs = filter (\<lambda>e. c' < stamp e) (filter (\<lambda>e. c < stamp e) xs)"
  using assms by (auto intro!: filter_cong)

lemma tracks_later: "tracks c s h \<Longrightarrow> c \<le> c' \<Longrightarrow> tracks c' s h"
  unfolding tracks_def by (metis filter_later)

lemma tracks_sweep: "tracks c s h \<Longrightarrow> tracks c (sweep_old c s) h"
  by (simp add: tracks_def entries_sweep)

lemma tracks_add: "tracks c s h \<Longrightarrow> tracks c (add k e s) (h(k := h k @ [e]))"
  by (simp add: tracks_def entries_add)

lemma tracks_same_entries: "tracks c s h \<Longrightarrow> entries s' = entries s \<Longrightarrow> tracks c s' h"
  by (simp add: tracks_def)

end

section \<open>The strictest of the candidates\<close>

locale strictest_choice =
  fixes better :: "'a \<Rightarrow> 'a \<Rightarrow> bool"
    and rank :: "'a \<Rightarrow> nat"
  assumes better_rank: "better x y \<longleftrightarrow> rank y < rank x"
begin

definition pick :: "'a option \<Rightarrow> 'a \<Rightarrow> 'a option" where
  "pick best x = (case best of None \<Rightarrow> Some x | Some b \<Rightarrow> if better x b then Some x else Some b)"

abbreviation pick_all :: "'a option \<Rightarrow> 'a list \<Rightarrow> 'a option" where
  "pick_all best xs \<equiv> foldl pick best xs"

lemma pick_all_None: "pick_all best xs = None \<longleftrightarrow> best = None \<and> xs = []"
  by (induction xs arbitrary: best) (auto simp: pick_def split: option.splits)

lemma pick_from: "pick best x = Some r \<Longrightarrow> best = Some r \<or> r = x"
  by (auto simp: pick_def split: option.splits if_splits)

lemma pick_all_from: "pick_all best xs = Some r \<Longrightarrow> best = Some r \<or> r \<in> set xs"
proof (induction xs arbitrary: best)
  case (Cons x xs)
  then consider "pick best x = Some r" | "r \<in> set xs" by auto
  then show ?case using pick_from [of best x r] by cases auto
qed simp

lemma pick_all_ge_start: "pick_all (Some b) xs = Some r \<Longrightarrow> rank b \<le> rank r"
proof (induction xs arbitrary: b)
  case (Cons x xs)
  have "\<exists>b'. pick (Some b) x = Some b' \<and> rank b \<le> rank b'" by (simp add: pick_def better_rank)
  with Cons show ?case by fastforce
qed simp

lemma pick_all_max: "pick_all best xs = Some r \<Longrightarrow> x \<in> set xs \<Longrightarrow> rank x \<le> rank r"
proof (induction xs arbitrary: best)
  case Nil
  then show ?case by simp
next
  case (Cons y ys)
  have "\<exists>b. pick best y = Some b \<and> rank y \<le> rank b"
    by (cases best) (auto simp: pick_def better_rank)
  then obtain b where b: "pick best y = Some b" "rank y \<le> rank b" by blast
  with Cons.prems(1) have r: "pick_all (Some b) ys = Some r" by simp
  show ?case
  proof (cases "x = y")
    case True
    with b(2) pick_all_ge_start [OF r] show ?thesis by simp
  next
    case False
    with Cons.prems(2) Cons.IH [OF r] show ?thesis by simp
  qed
qed

end

section \<open>Hash chains\<close>

text \<open>
  Records that name the hash of their predecessor, the first one a genesis value. Where the encoding of
  a record determines the hash it names and no hash is a genesis value, the hash of the last record
  commits to the encodings of all of them, as long as the digest has no collision among them.
\<close>

definition chained :: "('r \<Rightarrow> 'h) \<Rightarrow> ('r \<Rightarrow> 'h) \<Rightarrow> ('h \<Rightarrow> bool) \<Rightarrow> 'r list \<Rightarrow> bool" where
  "chained prev hash genesis rs \<longleftrightarrow> rs \<noteq> [] \<and> genesis (prev (hd rs)) \<and> successively (\<lambda>r r'. prev r' = hash r) rs"

lemma chained_snoc:
  "chained prev hash genesis (rs @ [r]) \<longleftrightarrow>
     (if rs = [] then genesis (prev r) else chained prev hash genesis rs \<and> prev r = hash (last rs))"
  by (auto simp: chained_def successively_append_iff)

locale hash_chain =
  fixes ok :: "'r \<Rightarrow> bool"
    and enc :: "'r \<Rightarrow> 'b"
    and digest :: "'b \<Rightarrow> 'h"
    and prev :: "'r \<Rightarrow> 'h"
    and genesis :: "'h \<Rightarrow> bool"
  assumes enc_prev: "ok r \<Longrightarrow> ok r' \<Longrightarrow> enc r = enc r' \<Longrightarrow> prev r = prev r'"
    and digest_fresh: "ok r \<Longrightarrow> \<not> genesis (digest (enc r))"
begin

lemma commits:
  assumes "chained prev (\<lambda>r. digest (enc r)) genesis rs" "chained prev (\<lambda>r. digest (enc r)) genesis rs'"
    and "list_all ok rs" "list_all ok rs'"
    and "inj_on digest (enc ` (set rs \<union> set rs'))" "digest (enc (last rs)) = digest (enc (last rs'))"
  shows "map enc rs = map enc rs'"
  using assms
proof (induction rs arbitrary: rs' rule: rev_induct)
  case Nil
  then show ?case by (simp add: chained_def)
next
  case (snoc x xs)
  obtain ys y where ys: "rs' = ys @ [y]" using snoc.prems(2) by (cases rs' rule: rev_cases) (auto simp: chained_def)
  have enc: "enc x = enc y"
    by (rule inj_onD [OF snoc.prems(5)]) (use snoc.prems(6) in \<open>simp_all add: ys\<close>)
  have prev: "prev x = prev y" using enc_prev [OF _ _ enc] snoc.prems(3,4) by (simp add: ys)
  have fresh: "\<not> genesis (digest (enc (last zs)))" if "zs \<noteq> []" "list_all ok zs" for zs
    using that digest_fresh by (simp add: list_all_iff)
  show ?case
  proof (cases "xs = [] \<or> ys = []")
    case True
    then have "xs = [] \<and> ys = []"
      using snoc.prems(1-4) prev fresh [of xs] fresh [of ys] by (auto simp: ys chained_snoc split: if_splits)
    with enc show ?thesis by (simp add: ys)
  next
    case False
    then have "map enc xs = map enc ys"
      using snoc.prems prev by (intro snoc.IH) (auto simp: ys chained_snoc elim: inj_on_subset)
    with enc show ?thesis by (simp add: ys)
  qed
qed

end

end
