(* ===== verification/KillSwitch.thy ===== *)
theory KillSwitch
  imports GoNet Interfaces
begin

text \<open>
  \<^verbatim>\<open>internal/killswitch\<close>: the emergency deny-all controller and its HTTP API. The controller's
  atomics are the fields of one record; every method that stores to them is a function from
  controller to controller, every check a function to a \<open>decision\<close>. The file system is the
  argument \<open>stat\<close> (the outcome of \<^verbatim>\<open>os.Stat\<close> on a path), the clock reading of the API handler is the
  argument \<open>now\<close>, and the JSON decoders of the request body and of an MCP message are arguments,
  since \<^verbatim>\<open>encoding/json\<close> is not modelled.
\<close>

section \<open>State\<close>

datatype stat_result = StatOk | StatNotExist | StatError

record decision =
  dec_active :: bool
  dec_message :: string
  dec_source :: string
  dec_isNotification :: bool

definition no_decision :: decision where
  "no_decision = \<lparr>dec_active = False, dec_message = [], dec_source = [], dec_isNotification = False\<rparr>"

record kill_switch_config =
  ks_enabled :: bool
  ks_sentinelFile :: string
  ks_message :: string
  ks_healthExempt :: "bool option"
  ks_metricsExempt :: "bool option"
  ks_apiExempt :: "bool option"
  ks_effectiveToken :: string
  ks_allowlistIPs :: "string list"

record runtime =
  cfgEnabled :: bool
  sentinelFile :: string
  rt_message :: string
  healthExempt :: bool
  metricsExempt :: bool
  apiExempt :: bool
  apiToken :: string
  allowlistNets :: "ipnet list"

record controller =
  ctl_cfg :: runtime
  ctl_api :: bool
  ctl_sigusr1 :: bool
  ctl_conductor :: bool
  ctl_conductorMsg :: string
  ctl_conductorStale :: bool
  ctl_conductorStaleMsg :: string
  ctl_separatePort :: bool

section \<open>Construction and the stores\<close>

text \<open>A nil pointer in the configuration means the default, \<open>True\<close>; an invalid CIDR is skipped.\<close>

definition default_true :: "bool option \<Rightarrow> bool" where
  "default_true b = (case b of None \<Rightarrow> True | Some x \<Rightarrow> x)"

definition buildRuntime :: "kill_switch_config \<Rightarrow> runtime" where
  "buildRuntime cfg =
     \<lparr>cfgEnabled = ks_enabled cfg,
      sentinelFile = ks_sentinelFile cfg,
      rt_message = ks_message cfg,
      healthExempt = default_true (ks_healthExempt cfg),
      metricsExempt = default_true (ks_metricsExempt cfg),
      apiExempt = default_true (ks_apiExempt cfg),
      apiToken = ks_effectiveToken cfg,
      allowlistNets = List.map_filter ParseCIDR (ks_allowlistIPs cfg)\<rparr>"

definition New :: "kill_switch_config \<Rightarrow> controller" where
  "New cfg = \<lparr>ctl_cfg = buildRuntime cfg, ctl_api = False, ctl_sigusr1 = False,
     ctl_conductor = False, ctl_conductorMsg = [], ctl_conductorStale = False,
     ctl_conductorStaleMsg = [], ctl_separatePort = False\<rparr>"

definition Reload :: "kill_switch_config \<Rightarrow> controller \<Rightarrow> controller" where
  "Reload cfg c = c\<lparr>ctl_cfg := buildRuntime cfg\<rparr>"

definition SetAPI :: "bool \<Rightarrow> controller \<Rightarrow> controller" where
  "SetAPI active c = c\<lparr>ctl_api := active\<rparr>"

definition SetConductorRemote :: "bool \<Rightarrow> string \<Rightarrow> controller \<Rightarrow> controller" where
  "SetConductorRemote active msg c = c\<lparr>ctl_conductorMsg := msg, ctl_conductor := active\<rparr>"

definition SetConductorStale :: "bool \<Rightarrow> string \<Rightarrow> controller \<Rightarrow> controller" where
  "SetConductorStale active msg c = c\<lparr>ctl_conductorStaleMsg := msg, ctl_conductorStale := active\<rparr>"

definition SetSeparateAPIPort :: "bool \<Rightarrow> controller \<Rightarrow> controller" where
  "SetSeparateAPIPort sep c = c\<lparr>ctl_separatePort := sep\<rparr>"

text \<open>\<^verbatim>\<open>ToggleSignal\<close> returns the new state; its compare-and-swap loop ends at the first success.\<close>

definition ToggleSignal :: "controller \<Rightarrow> bool \<times> controller" where
  "ToggleSignal c = (let v = \<not> ctl_sigusr1 c in (v, c\<lparr>ctl_sigusr1 := v\<rparr>))"

section \<open>Decisions\<close>

definition active_from :: "string \<Rightarrow> string \<Rightarrow> decision" where
  "active_from src msg =
     \<lparr>dec_active = True, dec_message = msg, dec_source = src, dec_isNotification = False\<rparr>"

definition computeDecision :: "(string \<Rightarrow> stat_result) \<Rightarrow> controller \<Rightarrow> runtime \<Rightarrow> decision" where
  "computeDecision stat c rt =
     (if cfgEnabled rt then active_from ''config'' (rt_message rt)
      else if ctl_api c then active_from ''api'' (rt_message rt)
      else if ctl_conductor c then
        active_from ''conductor_remote''
          (if ctl_conductorMsg c = [] then rt_message rt else ctl_conductorMsg c)
      else if ctl_conductorStale c then
        active_from ''conductor_stale''
          (if ctl_conductorStaleMsg c = [] then rt_message rt else ctl_conductorStaleMsg c)
      else if ctl_sigusr1 c then active_from ''signal'' (rt_message rt)
      else if sentinelFile rt \<noteq> [] then
        (case stat (sentinelFile rt) of
           StatOk \<Rightarrow> active_from ''sentinel'' (rt_message rt)
         | StatError \<Rightarrow> active_from ''sentinel'' (rt_message rt)
         | StatNotExist \<Rightarrow> no_decision)
      else no_decision)"

definition IsActive :: "(string \<Rightarrow> stat_result) \<Rightarrow> controller \<Rightarrow> bool" where
  "IsActive stat c = dec_active (computeDecision stat c (ctl_cfg c))"

text \<open>The allowlist loop the two request checks share.\<close>

definition allowlisted :: "runtime \<Rightarrow> string \<Rightarrow> bool" where
  "allowlisted rt clientIP =
     (allowlistNets rt \<noteq> [] \<and>
      (case ParseIP clientIP of
         None \<Rightarrow> False
       | Some a \<Rightarrow> list_ex (\<lambda>n. Contains n a) (allowlistNets rt)))"

definition IsActiveForIP :: "(string \<Rightarrow> stat_result) \<Rightarrow> controller \<Rightarrow> string \<Rightarrow> decision" where
  "IsActiveForIP stat c clientIP =
     (let rt = ctl_cfg c in
      if allowlisted rt clientIP then no_decision else computeDecision stat c rt)"

definition path_segs :: "string \<Rightarrow> string list" where
  "path_segs path = split_on (CHR ''/'') (trim_by (\<lambda>x. x = CHR ''/'') path)"

definition IsSessionActionPath :: "string \<Rightarrow> string \<Rightarrow> bool" where
  "IsSessionActionPath path action =
     (let segs = path_segs path in
      if length segs \<noteq> 5 then False
      else segs ! 0 = ''api'' \<and> segs ! 1 = ''v1'' \<and> segs ! 2 = ''sessions'' \<and>
        segs ! 3 \<noteq> [] \<and> CHR 0x00 \<notin> set (segs ! 3) \<and> segs ! 4 = action)"

definition IsSessionKeyPath :: "string \<Rightarrow> bool" where
  "IsSessionKeyPath path =
     (let segs = path_segs path in
      if length segs \<noteq> 4 then False
      else segs ! 0 = ''api'' \<and> segs ! 1 = ''v1'' \<and> segs ! 2 = ''sessions'' \<and>
        segs ! 3 \<noteq> [] \<and> CHR 0x00 \<notin> set (segs ! 3))"

definition apiExemptPath :: "string \<Rightarrow> bool" where
  "apiExemptPath path =
     (path = ''/api/v1/killswitch'' \<or> path = ''/api/v1/killswitch/status'' \<or>
      path = ''/api/v1/sessions'' \<or> IsSessionKeyPath path \<or>
      IsSessionActionPath path ''reset'' \<or> IsSessionActionPath path ''airlock'' \<or>
      IsSessionActionPath path ''task'' \<or> IsSessionActionPath path ''trust'' \<or>
      IsSessionActionPath path ''explain'' \<or> IsSessionActionPath path ''terminate'')"

record http_request =
  req_method :: string
  req_path :: string
  req_remoteAddr :: string
  req_authorization :: string
  req_body :: string

definition IsActiveHTTP :: "(string \<Rightarrow> stat_result) \<Rightarrow> controller \<Rightarrow> http_request \<Rightarrow> decision" where
  "IsActiveHTTP stat c r =
     (let rt = ctl_cfg c; path = req_path r in
      if healthExempt rt \<and> path = ''/health'' then no_decision
      else if metricsExempt rt \<and> path = ''/metrics'' then no_decision
      else
        let host = (case SplitHostPort (req_remoteAddr r) of
              Some (h, p) \<Rightarrow> h | None \<Rightarrow> req_remoteAddr r) in
        if allowlisted rt host then no_decision
        else if apiExempt rt \<and> \<not> ctl_separatePort c \<and> apiExemptPath path then no_decision
        else computeDecision stat c rt)"

text \<open>\<open>unmarshal_id\<close> is \<^verbatim>\<open>json.Unmarshal\<close> into the envelope: \<open>None\<close> on error, else the raw id field.\<close>

definition hasID :: "(string \<Rightarrow> string option) \<Rightarrow> string \<Rightarrow> bool" where
  "hasID unmarshal_id msg =
     (case unmarshal_id msg of
        None \<Rightarrow> False
      | Some raw \<Rightarrow> length raw > 0 \<and> raw \<noteq> ''null'')"

definition IsActiveMCP ::
  "(string \<Rightarrow> stat_result) \<Rightarrow> (string \<Rightarrow> string option) \<Rightarrow> controller \<Rightarrow> string \<Rightarrow> decision" where
  "IsActiveMCP stat unmarshal_id c msg =
     (let d = computeDecision stat c (ctl_cfg c) in
      if dec_active d then d\<lparr>dec_isNotification := \<not> hasID unmarshal_id msg\<rparr> else d)"

definition Sources :: "(string \<Rightarrow> stat_result) \<Rightarrow> controller \<Rightarrow> (string \<times> bool) list" where
  "Sources stat c =
     (let rt = ctl_cfg c in
      [(''config'', cfgEnabled rt), (''api'', ctl_api c), (''signal'', ctl_sigusr1 c),
       (''conductor_remote'', ctl_conductor c), (''conductor_stale'', ctl_conductorStale c),
       (''sentinel'', sentinelFile rt \<noteq> [] \<and> stat (sentinelFile rt) \<noteq> StatNotExist)])"

section \<open>The HTTP API\<close>

definition apiRateLimitWindow :: duration where
  "apiRateLimitWindow = minute_ns"

definition apiRateLimitMax :: int where
  "apiRateLimitMax = 10"

record api_handler =
  ctrl :: controller
  reqCount :: int
  windowStart :: go_time

definition NewAPIHandler :: "controller \<Rightarrow> go_time \<Rightarrow> api_handler" where
  "NewAPIHandler c now = \<lparr>ctrl = c, reqCount = 0, windowStart = now\<rparr>"

definition checkRateLimit :: "go_time \<Rightarrow> api_handler \<Rightarrow> bool \<times> api_handler" where
  "checkRateLimit now h =
     (let h1 = (if now - windowStart h > apiRateLimitWindow
                then h\<lparr>reqCount := 0, windowStart := now\<rparr> else h);
          h2 = h1\<lparr>reqCount := reqCount h1 + 1\<rparr> in
      (reqCount h2 \<le> apiRateLimitMax, h2))"

definition extractBearerToken :: "http_request \<Rightarrow> string" where
  "extractBearerToken r =
     (let auth = req_authorization r in
      if length auth > 7 \<and> take 7 auth = ''Bearer '' then drop 7 auth else [])"

text \<open>
  The decoders the handler calls on the body, each an argument: \<open>dup_keys\<close> is an error of
  \<^verbatim>\<open>jsonscan.RejectDuplicateKeys\<close>, \<open>decode_active\<close> the strict decode into the request struct
  (\<open>None\<close> on error, else its \<^verbatim>\<open>Active\<close> field) and \<open>at_eof\<close> that nothing follows the first value.
\<close>

record body_decoders =
  dup_keys :: "string \<Rightarrow> bool"
  decode_active :: "string \<Rightarrow> bool option option"
  at_eof :: "string \<Rightarrow> bool"

datatype api_response =
    HttpError nat
  | ToggleOk bool string
  | StatusReport bool "(string \<times> bool) list" string

definition authorized :: "runtime \<Rightarrow> http_request \<Rightarrow> bool" where
  "authorized rt r =
     (let token = extractBearerToken r in token \<noteq> [] \<and> token = apiToken rt)"

definition HandleToggle ::
  "body_decoders \<Rightarrow> go_time \<Rightarrow> http_request \<Rightarrow> api_handler \<Rightarrow> api_response \<times> api_handler" where
  "HandleToggle dc now r h =
     (let rt = ctl_cfg (ctrl h) in
      if req_method r \<noteq> ''POST'' then (HttpError 405, h)
      else if apiToken rt = [] then (HttpError 503, h)
      else if \<not> authorized rt r then (HttpError 401, h)
      else
        let (ok, h1) = checkRateLimit now h in
        if \<not> ok then (HttpError 429, h1)
        else if length (req_body r) > 1024 then (HttpError 400, h1)
        else if dup_keys dc (req_body r) then (HttpError 400, h1)
        else (case decode_active dc (req_body r) of
            None \<Rightarrow> (HttpError 400, h1)
          | Some act \<Rightarrow>
              if \<not> at_eof dc (req_body r) then (HttpError 400, h1)
              else (case act of
                  None \<Rightarrow> (HttpError 400, h1)
                | Some b \<Rightarrow>
                    (ToggleOk b (if b then rt_message rt else []),
                     h1\<lparr>ctrl := SetAPI b (ctrl h1)\<rparr>))))"

definition HandleStatus ::
  "(string \<Rightarrow> stat_result) \<Rightarrow> http_request \<Rightarrow> api_handler \<Rightarrow> api_response" where
  "HandleStatus stat r h =
     (let rt = ctl_cfg (ctrl h) in
      if req_method r \<noteq> ''GET'' then HttpError 405
      else if apiToken rt = [] then HttpError 503
      else if \<not> authorized rt r then HttpError 401
      else
        let sources = Sources stat (ctrl h); anyActive = list_ex snd sources in
        StatusReport anyActive sources (if anyActive then rt_message rt else []))"

section \<open>Runs of the controller\<close>

text \<open>Everything that can change the controller, with arbitrary requests to the API among it.\<close>

datatype ks_op =
    OpReload kill_switch_config
  | OpSetAPI bool
  | OpSetConductorRemote bool string
  | OpSetConductorStale bool string
  | OpToggleSignal
  | OpSetSeparateAPIPort bool
  | OpToggleRequest body_decoders go_time http_request

fun ks_step :: "ks_op \<Rightarrow> api_handler \<Rightarrow> api_handler" where
  "ks_step (OpReload cfg) h = h\<lparr>ctrl := Reload cfg (ctrl h)\<rparr>"
| "ks_step (OpSetAPI b) h = h\<lparr>ctrl := SetAPI b (ctrl h)\<rparr>"
| "ks_step (OpSetConductorRemote b m) h = h\<lparr>ctrl := SetConductorRemote b m (ctrl h)\<rparr>"
| "ks_step (OpSetConductorStale b m) h = h\<lparr>ctrl := SetConductorStale b m (ctrl h)\<rparr>"
| "ks_step OpToggleSignal h = h\<lparr>ctrl := snd (ToggleSignal (ctrl h))\<rparr>"
| "ks_step (OpSetSeparateAPIPort b) h = h\<lparr>ctrl := SetSeparateAPIPort b (ctrl h)\<rparr>"
| "ks_step (OpToggleRequest dc now r) h = snd (HandleToggle dc now r h)"

lemmas store_defs = Reload_def SetAPI_def SetConductorRemote_def SetConductorStale_def
  SetSeparateAPIPort_def ToggleSignal_def

lemma checkRateLimit_ctrl [simp]: "ctrl (snd (checkRateLimit now h)) = ctrl h"
  by (simp add: checkRateLimit_def Let_def)

text \<open>A toggle request leaves the controller alone or stores one bit in its API source.\<close>

lemma HandleToggle_result:
  "(\<exists>code. fst (HandleToggle dc now r h) = HttpError code) \<and>
     ctrl (snd (HandleToggle dc now r h)) = ctrl h \<or>
   (\<exists>b. fst (HandleToggle dc now r h) =
        ToggleOk b (if b then rt_message (ctl_cfg (ctrl h)) else []) \<and>
      ctrl (snd (HandleToggle dc now r h)) = SetAPI b (ctrl h) \<and>
      req_method r = ''POST'' \<and> authorized (ctl_cfg (ctrl h)) r \<and>
      fst (checkRateLimit now h))"
proof -
  obtain ok h1 where rl: "checkRateLimit now h = (ok, h1)" by fastforce
  with checkRateLimit_ctrl [of now h] have c: "ctrl h1 = ctrl h" by simp
  show ?thesis
    unfolding HandleToggle_def Let_def rl by (auto simp: c split: option.splits)
qed

lemma HandleToggle_ctrl:
  "\<exists>b. ctrl (snd (HandleToggle dc now r h)) = (ctrl h)\<lparr>ctl_api := b\<rparr>"
proof -
  have "ctrl h = (ctrl h)\<lparr>ctl_api := ctl_api (ctrl h)\<rparr>" by simp
  with HandleToggle_result [of dc now r h] show ?thesis
    by (metis SetAPI_def)
qed

lemma active_from_simps [simp]:
  "dec_active (active_from s m)" "dec_source (active_from s m) = s"
  "dec_message (active_from s m) = m" "\<not> dec_active no_decision" "dec_source no_decision = []"
  by (simp_all add: active_from_def no_decision_def)

lemma computeDecision_active:
  "dec_active (computeDecision stat c (ctl_cfg c)) \<longleftrightarrow>
    cfgEnabled (ctl_cfg c) \<or> ctl_api c \<or> ctl_conductor c \<or> ctl_conductorStale c \<or> ctl_sigusr1 c \<or>
    sentinelFile (ctl_cfg c) \<noteq> [] \<and> stat (sentinelFile (ctl_cfg c)) \<noteq> StatNotExist"
  by (auto simp: computeDecision_def split: stat_result.splits)

lemma ks_step_conductor:
  "ctl_conductor (ctrl h) \<Longrightarrow> \<not> (\<exists>m. x = OpSetConductorRemote False m) \<Longrightarrow>
    ctl_conductor (ctrl (ks_step x h))"
proof (cases x)
  case (OpToggleRequest dc now r)
  assume "ctl_conductor (ctrl h)"
  with OpToggleRequest HandleToggle_ctrl [of dc now r h] show ?thesis by auto
qed (auto simp: store_defs Let_def)

lemma ks_step_conductorStale:
  "ctl_conductorStale (ctrl h) \<Longrightarrow> \<not> (\<exists>m. x = OpSetConductorStale False m) \<Longrightarrow>
    ctl_conductorStale (ctrl (ks_step x h))"
proof (cases x)
  case (OpToggleRequest dc now r)
  assume "ctl_conductorStale (ctrl h)"
  with OpToggleRequest HandleToggle_ctrl [of dc now r h] show ?thesis by auto
qed (auto simp: store_defs Let_def)

interpretation remote_kill: sticky_flag ks_step "\<lambda>h. ctl_conductor (ctrl h)"
  "\<lambda>x. \<exists>m. x = OpSetConductorRemote False m"
  by unfold_locales (rule ks_step_conductor)

interpretation stale_kill: sticky_flag ks_step "\<lambda>h. ctl_conductorStale (ctrl h)"
  "\<lambda>x. \<exists>m. x = OpSetConductorStale False m"
  by unfold_locales (rule ks_step_conductorStale)

section \<open>What the kill switch promises\<close>

text \<open>The sources in the priority order of \<^verbatim>\<open>computeDecision\<close>'s comment.\<close>

definition priority_order :: "(string \<Rightarrow> stat_result) \<Rightarrow> controller \<Rightarrow> (string \<times> bool) list" where
  "priority_order stat c =
     map (\<lambda>s. (s, map_of (Sources stat c) s = Some True))
       [''config'', ''api'', ''conductor_remote'', ''conductor_stale'', ''signal'', ''sentinel'']"

text \<open>
  C1. The six sources are OR-composed and consistent across the interfaces: the switch is active
  exactly when \<^verbatim>\<open>Sources\<close> reports some source as true, and the decision names the first true source in
  the order config, api, conductor_remote, conductor_stale, signal, sentinel. A sentinel whose
  \<^verbatim>\<open>stat\<close> fails for another reason than not-found counts as active.
\<close>

theorem decision_is_first_active_source:
  "dec_active (computeDecision stat c (ctl_cfg c)) = list_ex snd (Sources stat c) \<and>
   dec_source (computeDecision stat c (ctl_cfg c)) =
     (case find snd (priority_order stat c) of None \<Rightarrow> [] | Some (s, _) \<Rightarrow> s)"
  by (auto simp: computeDecision_def priority_order_def Sources_def Let_def
      split: stat_result.splits)

text \<open>
  C5. A Conductor remote kill or a stale-bundle kill, once set, survives every sequence of later
  operations (reloads, API toggles by any request, signals, the other Conductor source, the port
  flag) that does not clear that very source: the switch is still active for the scan API, for
  MCP messages and for every non-allowlisted client of an intercepted tunnel.
\<close>

theorem conductor_kill_holds:
  assumes "ctl_conductor (ctrl h) \<and> list_all (\<lambda>x. \<not> (\<exists>m. x = OpSetConductorRemote False m)) ops \<or>
     ctl_conductorStale (ctrl h) \<and> list_all (\<lambda>x. \<not> (\<exists>m. x = OpSetConductorStale False m)) ops"
  defines "c \<equiv> ctrl (fold ks_step ops h)"
  shows "IsActive stat c \<and> dec_active (IsActiveMCP stat um c msg) \<and>
    (dec_active (IsActiveForIP stat c ip) \<longleftrightarrow> \<not> allowlisted (ctl_cfg c) ip)"
proof -
  from assms(1) remote_kill.run_sticks [of h ops] stale_kill.run_sticks [of h ops]
  have "ctl_conductor c \<or> ctl_conductorStale c" unfolding c_def by blast
  then have "dec_active (computeDecision stat c (ctl_cfg c))" by (auto simp: computeDecision_active)
  then show ?thesis by (simp add: IsActive_def IsActiveMCP_def IsActiveForIP_def Let_def)
qed

definition sample_config :: kill_switch_config where
  "sample_config = \<lparr>ks_enabled = False, ks_sentinelFile = [], ks_message = ''halt'',
     ks_healthExempt = None, ks_metricsExempt = None, ks_apiExempt = None,
     ks_effectiveToken = ''tok'', ks_allowlistIPs = [''10.0.0.0/8'']\<rparr>"

theorem conductor_kill_holds_witness:
  "let h = NewAPIHandler (SetConductorRemote True ''x'' (New sample_config)) 0;
       c = ctrl (fold ks_step [OpSetAPI False, OpReload sample_config, OpToggleSignal] h) in
   ctl_conductor (ctrl h) \<and> IsActive (\<lambda>_. StatNotExist) c"
proof -
  let ?h = "NewAPIHandler (SetConductorRemote True ''x'' (New sample_config)) 0"
  have h: "ctl_conductor (ctrl ?h)" by (simp add: NewAPIHandler_def SetConductorRemote_def)
  have "list_all (\<lambda>x. \<not> (\<exists>m. x = OpSetConductorRemote False m))
    [OpSetAPI False, OpReload sample_config, OpToggleSignal]" by simp
  with h show ?thesis
    using conductor_kill_holds [of ?h "[OpSetAPI False, OpReload sample_config, OpToggleSignal]"]
    unfolding Let_def by blast
qed

text \<open>
  An HTTP request is let through an active kill switch exactly when it is exempt: the health or
  metrics endpoint with its exemption on, a client in the allowlist, or, only while the API shares
  the main port, one of the listed admin routes. With the API on its own port no admin route of the
  main port is exempt, so an agent cannot reach the API to lift its own kill switch.
\<close>

lemma http_denied_iff_not_exempt:
  assumes "IsActive stat c"
  defines "rt \<equiv> ctl_cfg c"
    and "host \<equiv> \<lambda>r. case SplitHostPort (req_remoteAddr r) of Some (h, p) \<Rightarrow> h | None \<Rightarrow> req_remoteAddr r"
  shows "dec_active (IsActiveHTTP stat c r) \<longleftrightarrow>
    \<not> (healthExempt rt \<and> req_path r = ''/health'' \<or> metricsExempt rt \<and> req_path r = ''/metrics'' \<or>
       allowlisted rt (host r) \<or>
       \<not> ctl_separatePort c \<and> apiExempt rt \<and> apiExemptPath (req_path r))"
  using assms by (auto simp: IsActiveHTTP_def IsActive_def Let_def)

lemma http_denied_iff_not_exempt_witness:
  "let c = SetSeparateAPIPort True (SetAPI True (New sample_config));
       r = \<lparr>req_method = ''POST'', req_path = ''/api/v1/killswitch'',
            req_remoteAddr = ''192.0.2.1:5000'', req_authorization = [], req_body = []\<rparr> in
   IsActive (\<lambda>_. StatNotExist) c \<and> dec_active (IsActiveHTTP (\<lambda>_. StatNotExist) c r)"
proof -
  let ?c = "SetSeparateAPIPort True (SetAPI True (New sample_config))"
  let ?r = "\<lparr>req_method = ''POST'', req_path = ''/api/v1/killswitch'',
            req_remoteAddr = ''192.0.2.1:5000'', req_authorization = [], req_body = []\<rparr>"
  have a: "IsActive (\<lambda>_. StatNotExist) ?c"
    by (simp add: IsActive_def computeDecision_def SetSeparateAPIPort_def SetAPI_def)
  have sep: "ctl_separatePort ?c" by (simp add: SetSeparateAPIPort_def)
  have host: "SplitHostPort ''192.0.2.1:5000'' = Some (''192.0.2.1'', ''5000'')" by code_simp
  have nal: "\<not> allowlisted (ctl_cfg ?c) ''192.0.2.1''" by code_simp
  from http_denied_iff_not_exempt [OF a, of ?r] a sep host nal show ?thesis by simp
qed

text \<open>
  The controller changes through the API only for a POST that carries the configured bearer
  token and is within the rate limit, and then only in its API source; with no token configured
  the API is off. So an operator kill by configuration, Conductor, signal or sentinel cannot be
  lifted through the API.
\<close>

theorem toggle_needs_token:
  assumes "ctrl (snd (HandleToggle dc now r h)) \<noteq> ctrl h"
  shows "req_method r = ''POST'' \<and> apiToken (ctl_cfg (ctrl h)) \<noteq> [] \<and>
    req_authorization r = ''Bearer '' @ apiToken (ctl_cfg (ctrl h)) \<and>
    fst (checkRateLimit now h) \<and>
    (\<exists>b. ctrl (snd (HandleToggle dc now r h)) = (ctrl h)\<lparr>ctl_api := b\<rparr>)"
proof -
  from assms HandleToggle_result [of dc now r h]
  have *: "req_method r = ''POST''" "authorized (ctl_cfg (ctrl h)) r" "fst (checkRateLimit now h)"
    by auto
  from *(2) have tok: "take 7 (req_authorization r) = ''Bearer ''"
    "drop 7 (req_authorization r) = apiToken (ctl_cfg (ctrl h))" "apiToken (ctl_cfg (ctrl h)) \<noteq> []"
    by (auto simp: authorized_def extractBearerToken_def Let_def split: if_splits)
  have "req_authorization r = ''Bearer '' @ apiToken (ctl_cfg (ctrl h))"
    by (metis append_take_drop_id tok(1,2))
  with * tok(3) HandleToggle_ctrl [of dc now r h] show ?thesis by blast
qed

definition plain_decoders :: body_decoders where
  "plain_decoders = \<lparr>dup_keys = (\<lambda>_. False),
     decode_active = (\<lambda>s. if s = ''{\"active\":true}'' then Some (Some True) else None),
     at_eof = (\<lambda>_. True)\<rparr>"

theorem toggle_needs_token_witness:
  "let h = NewAPIHandler (New sample_config) 0;
       r = \<lparr>req_method = ''POST'', req_path = ''/api/v1/killswitch'', req_remoteAddr = ''10.0.0.1:1'',
            req_authorization = ''Bearer tok'', req_body = ''{\"active\":true}''\<rparr> in
   ctrl (snd (HandleToggle plain_decoders 5 r h)) \<noteq> ctrl h \<and>
   req_authorization r = ''Bearer '' @ apiToken (ctl_cfg (ctrl h))"
proof -
  let ?h = "NewAPIHandler (New sample_config) 0"
  let ?r = "\<lparr>req_method = ''POST'', req_path = ''/api/v1/killswitch'', req_remoteAddr = ''10.0.0.1:1'',
            req_authorization = ''Bearer tok'', req_body = ''{\"active\":true}''\<rparr>"
  have "ctl_api (ctrl (snd (HandleToggle plain_decoders 5 ?r ?h))) \<noteq> ctl_api (ctrl ?h)"
    by (simp add: HandleToggle_def NewAPIHandler_def New_def buildRuntime_def sample_config_def
        authorized_def extractBearerToken_def checkRateLimit_def apiRateLimitMax_def
        apiRateLimitWindow_def plain_decoders_def SetAPI_def)
  then have "ctrl (snd (HandleToggle plain_decoders 5 ?r ?h)) \<noteq> ctrl ?h" by (rule contrapos_nn) simp
  from this toggle_needs_token [OF this] show ?thesis by (simp add: Let_def)
qed

text \<open>The recognised admin paths, spelled out.\<close>

definition session_path :: "string list \<Rightarrow> string" where
  "session_path segs = join_with (CHR ''/'') ([''api'', ''v1'', ''sessions''] @ segs)"

lemma path_segs_iff:
  assumes "segs \<noteq> []" "last segs \<noteq> []" "\<forall>g \<in> set segs. CHR ''/'' \<notin> set g"
  shows "path_segs path = [''api'', ''v1'', ''sessions''] @ segs \<longleftrightarrow>
    (\<exists>m n. path = replicate m (CHR ''/'') @ session_path segs @ replicate n (CHR ''/''))"
    (is "?l \<longleftrightarrow> ?r")
proof
  assume ?l
  then have "trim_by (\<lambda>x. x = CHR ''/'') path = session_path segs"
    unfolding path_segs_def session_path_def by (metis join_split)
  then show ?r using trim_by_decomp [of path "CHR ''/''"] by simp
next
  assume ?r
  then obtain m n where p: "path = replicate m (CHR ''/'') @ session_path segs @ replicate n (CHR ''/'')"
    by blast
  obtain bs b where b: "segs = bs @ [b]" using assms(1) by (cases segs rule: rev_cases) auto
  have lst: "join_with c (fs @ [g]) \<noteq> [] \<and> last (join_with c (fs @ [g])) = last g"
    if "g \<noteq> []" for c fs g
    using that by (induction fs) (auto simp: join_with_Cons)
  have ne: "session_path segs \<noteq> [] \<and> hd (session_path segs) \<noteq> CHR ''/''"
    unfolding session_path_def by (simp add: join_with_Cons)
  have "last (session_path segs) = last b"
    using lst [of b "CHR ''/''" "[''api'', ''v1'', ''sessions''] @ bs"] assms(2) b
    by (simp add: session_path_def)
  moreover have "last b \<in> set b" "b \<in> set segs" using assms(2) b by simp_all
  ultimately have "last (session_path segs) \<noteq> CHR ''/''" using assms(3) by auto
  with ne have "trim_by (\<lambda>x. x = CHR ''/'') path = session_path segs"
    using p trim_by_core [of "session_path segs" "CHR ''/''" m n] by simp
  moreover have "split_on (CHR ''/'') (session_path segs) = [''api'', ''v1'', ''sessions''] @ segs"
    unfolding session_path_def by (rule split_join) (use assms(3) in auto)
  ultimately show ?l by (simp add: path_segs_def)
qed

lemma path_segs_no_slash: "g \<in> set (path_segs path) \<Longrightarrow> CHR ''/'' \<notin> set g"
  by (simp add: path_segs_def split_on_no_sep)

text \<open>
  The admin-route recogniser accepts exactly \<^verbatim>\<open>/api/v1/sessions/{key}/{action}\<close> with a non-empty
  key without slash or NUL, up to any number of slashes (none included) before and after the path.
\<close>

lemma session_action_path_iff:
  assumes "action \<noteq> []" "CHR ''/'' \<notin> set action"
  shows "IsSessionActionPath path action \<longleftrightarrow>
    (\<exists>m n key. key \<noteq> [] \<and> CHR ''/'' \<notin> set key \<and> CHR 0x00 \<notin> set key \<and>
       path = replicate m (CHR ''/'') @ session_path [key, action] @ replicate n (CHR ''/''))"
proof -
  have "IsSessionActionPath path action \<longleftrightarrow>
    (\<exists>key. key \<noteq> [] \<and> CHR ''/'' \<notin> set key \<and> CHR 0x00 \<notin> set key \<and>
       path_segs path = [''api'', ''v1'', ''sessions''] @ [key, action])"
    (is "_ = (\<exists>key. ?P key)")
  proof
    assume "IsSessionActionPath path action"
    then have *: "length (path_segs path) = 5" "path_segs path ! 0 = ''api''"
      "path_segs path ! 1 = ''v1''" "path_segs path ! 2 = ''sessions''"
      "path_segs path ! 3 \<noteq> []" "CHR 0x00 \<notin> set (path_segs path ! 3)" "path_segs path ! 4 = action"
      by (auto simp: IsSessionActionPath_def Let_def split: if_splits)
    obtain a b c k e where segs: "path_segs path = [a, b, c, k, e]"
      using *(1) by (auto simp: numeral_eq_Suc length_Suc_conv)
    have "CHR ''/'' \<notin> set k" by (rule path_segs_no_slash [of _ path]) (simp add: segs)
    with * segs show "\<exists>key. ?P key" by simp
  qed (auto simp: IsSessionActionPath_def Let_def)
  moreover have "path_segs path = [''api'', ''v1'', ''sessions''] @ [key, action] \<longleftrightarrow>
      (\<exists>m n. path = replicate m (CHR ''/'') @ session_path [key, action] @ replicate n (CHR ''/''))"
    if "CHR ''/'' \<notin> set key" for key
    by (rule path_segs_iff) (use assms that in simp_all)
  ultimately show ?thesis by metis
qed

lemma session_action_path_iff_witness:
  "''reset'' \<noteq> [] \<and> IsSessionActionPath ''//api/v1/sessions/k/reset/'' ''reset''"
proof -
  have "''//api/v1/sessions/k/reset/'' =
    replicate 2 (CHR ''/'') @ session_path [''k'', ''reset''] @ replicate 1 (CHR ''/'')"
    by (simp add: session_path_def numeral_2_eq_2)
  moreover have "''k'' \<noteq> [] \<and> CHR ''/'' \<notin> set ''k'' \<and> CHR 0x00 \<notin> set ''k''" by simp
  ultimately have "\<exists>m n key. key \<noteq> [] \<and> CHR ''/'' \<notin> set key \<and> CHR 0x00 \<notin> set key \<and>
     ''//api/v1/sessions/k/reset/'' =
       replicate m (CHR ''/'') @ session_path [key, ''reset''] @ replicate n (CHR ''/'')"
    by blast
  then show ?thesis
    using session_action_path_iff [of "''reset''" "''//api/v1/sessions/k/reset/''"] by simp
qed

text \<open>Requests to the toggle endpoint in their order of arrival, and how many of them were applied.\<close>

fun toggle_run :: "(body_decoders \<times> go_time \<times> http_request) list \<Rightarrow> api_handler \<Rightarrow> api_response list" where
  "toggle_run [] h = []"
| "toggle_run ((dc, now, r) # xs) h =
     (let (res, h') = HandleToggle dc now r h in res # toggle_run xs h')"

definition applied :: "api_response list \<Rightarrow> nat" where
  "applied rs = length (filter (\<lambda>x. case x of ToggleOk b m \<Rightarrow> True | _ \<Rightarrow> False) rs)"

lemma HandleToggle_count:
  assumes "now - windowStart h \<le> apiRateLimitWindow"
  shows "windowStart (snd (HandleToggle dc now r h)) = windowStart h \<and>
    reqCount h \<le> reqCount (snd (HandleToggle dc now r h)) \<and>
    (case fst (HandleToggle dc now r h) of
       ToggleOk b m \<Rightarrow> reqCount (snd (HandleToggle dc now r h)) = reqCount h + 1 \<and> reqCount h < 10
     | _ \<Rightarrow> True)"
  using assms
  by (simp add: HandleToggle_def checkRateLimit_def apiRateLimitMax_def Let_def split: option.split)

text \<open>
  The API rate limit holds: of the requests that arrive within one window of the limiter, at
  most ten minus the requests already counted are applied, whatever else they contain.
\<close>

lemma toggle_rate_bounded:
  assumes "list_all (\<lambda>(dc, now, r). now - windowStart h \<le> apiRateLimitWindow) xs" "0 \<le> reqCount h"
  shows "int (applied (toggle_run xs h)) \<le> max 0 (10 - reqCount h)"
  using assms
proof (induction xs arbitrary: h)
  case Nil
  then show ?case by (simp add: applied_def)
next
  case (Cons x xs)
  obtain dc now r where x: "x = (dc, now, r)" by (cases x)
  obtain res h' where h': "HandleToggle dc now r h = (res, h')" by fastforce
  from Cons.prems x have now: "now - windowStart h \<le> apiRateLimitWindow" by simp
  note step = HandleToggle_count [OF now, of dc r, unfolded h']
  have rest: "int (applied (toggle_run xs h')) \<le> max 0 (10 - reqCount h')"
    using Cons.IH [of h'] Cons.prems step by simp
  have "int (applied (toggle_run (x # xs) h)) =
      (case res of ToggleOk b m \<Rightarrow> 1 | _ \<Rightarrow> 0) + int (applied (toggle_run xs h'))"
    by (simp add: x h' applied_def split: api_response.split)
  moreover have "int (applied (toggle_run xs h')) \<le> max 0 (10 - reqCount h)"
    using rest step by auto
  ultimately show ?case using rest step by (cases res) auto
qed

lemma toggle_rate_bounded_witness:
  "let h = NewAPIHandler (New sample_config) 0;
       r = \<lparr>req_method = ''POST'', req_path = ''/api/v1/killswitch'', req_remoteAddr = ''10.0.0.1:1'',
            req_authorization = ''Bearer tok'', req_body = ''{\"active\":true}''\<rparr> in
   0 \<le> reqCount h \<and>
   int (applied (toggle_run (replicate 12 (plain_decoders, 5, r)) h)) \<le> max 0 (10 - reqCount h)"
proof -
  let ?h = "NewAPIHandler (New sample_config) 0"
  let ?r = "\<lparr>req_method = ''POST'', req_path = ''/api/v1/killswitch'', req_remoteAddr = ''10.0.0.1:1'',
            req_authorization = ''Bearer tok'', req_body = ''{\"active\":true}''\<rparr>"
  have "list_all (\<lambda>(dc, now, r). now - windowStart ?h \<le> apiRateLimitWindow)
      (replicate 12 (plain_decoders, 5, ?r))" "0 \<le> reqCount ?h"
    by (simp_all add: NewAPIHandler_def apiRateLimitWindow_def list_all_iff)
  then show ?thesis using toggle_rate_bounded by (simp add: Let_def)
qed

end
