(* ===== verification/RateLimit.thy ===== *)
theory RateLimit
  imports Interfaces
begin

text \<open>
  \<^verbatim>\<open>internal/scanner/ratelimit.go\<close>: the per-domain sliding-window rate limiter. Each method reads the
  clock once under the mutex; the reading is its argument \<open>now\<close>. The main results say that the
  opportunistic cleanup and the in-place pruning cannot be observed (the limiter answers as one that
  remembers every request) and that no minute ever holds more admitted requests than the limit.
\<close>

record rate_limiter =
  maxPerMinute :: int
  requests :: "string \<rightharpoonup> go_time list"
  rl_lastCleanup :: go_time

definition NewRateLimiter :: "int \<Rightarrow> go_time \<Rightarrow> rate_limiter" where
  "NewRateLimiter limit now = \<lparr>maxPerMinute = limit, requests = Map.empty, rl_lastCleanup = now\<rparr>"

text \<open>A missing key reads as a nil slice.\<close>

definition stamps :: "rate_limiter \<Rightarrow> string \<Rightarrow> go_time list" where
  "stamps rl domain = (case requests rl domain of None \<Rightarrow> [] | Some ts \<Rightarrow> ts)"

definition cleanupLocked :: "go_time \<Rightarrow> rate_limiter \<Rightarrow> rate_limiter" where
  "cleanupLocked now rl =
     (let cutoff = now - minute_ns in
      rl\<lparr>requests := (\<lambda>domain. case requests rl domain of
          None \<Rightarrow> None
        | Some ts \<Rightarrow>
            let valid = filter (\<lambda>t. cutoff < t) ts in
            if length valid = 0 then None else Some valid)\<rparr>)"

definition maybeCleanupLocked :: "go_time \<Rightarrow> rate_limiter \<Rightarrow> rate_limiter" where
  "maybeCleanupLocked now rl =
     (if now - rl_lastCleanup rl < minute_ns then rl
      else (cleanupLocked now rl)\<lparr>rl_lastCleanup := now\<rparr>)"

definition IsAllowed :: "go_time \<Rightarrow> string \<Rightarrow> rate_limiter \<Rightarrow> bool \<times> rate_limiter" where
  "IsAllowed now domain rl0 =
     (let rl = maybeCleanupLocked now rl0;
          cutoff = now - minute_ns;
          valid = filter (\<lambda>t. cutoff < t) (stamps rl domain) in
      (int (length valid) < maxPerMinute rl, rl\<lparr>requests := (requests rl)(domain \<mapsto> valid)\<rparr>))"

definition Record :: "go_time \<Rightarrow> string \<Rightarrow> rate_limiter \<Rightarrow> rate_limiter" where
  "Record now domain rl0 =
     (let rl = maybeCleanupLocked now rl0 in
      rl\<lparr>requests := (requests rl)(domain \<mapsto> stamps rl domain @ [now])\<rparr>)"

definition CheckAndRecord :: "go_time \<Rightarrow> string \<Rightarrow> rate_limiter \<Rightarrow> bool \<times> rate_limiter" where
  "CheckAndRecord now domain rl0 =
     (let rl = maybeCleanupLocked now rl0;
          cutoff = now - minute_ns;
          valid = filter (\<lambda>t. cutoff < t) (stamps rl domain) in
      if int (length valid) \<ge> maxPerMinute rl
      then (False, rl\<lparr>requests := (requests rl)(domain \<mapsto> valid)\<rparr>)
      else (True, rl\<lparr>requests := (requests rl)(domain \<mapsto> valid @ [now])\<rparr>))"

definition cleanup :: "go_time \<Rightarrow> rate_limiter \<Rightarrow> rate_limiter" where
  "cleanup now rl = cleanupLocked now rl"

section \<open>The limiter as a windowed log\<close>

definition add_stamp :: "string \<Rightarrow> go_time \<Rightarrow> rate_limiter \<Rightarrow> rate_limiter" where
  "add_stamp domain t rl = rl\<lparr>requests := (requests rl)(domain \<mapsto> stamps rl domain @ [t])\<rparr>"

lemma stamps_cleanupLocked:
  "stamps (cleanupLocked now rl) d = filter (\<lambda>t. now - minute_ns < t) (stamps rl d)"
  by (auto simp: stamps_def cleanupLocked_def Let_def split: option.splits)

lemma stamps_upd [simp]:
  "stamps (rl\<lparr>requests := (requests rl)(d \<mapsto> ts)\<rparr>) = (stamps rl)(d := ts)"
  by (auto simp: stamps_def)

interpretation rate_log: windowed_log stamps "\<lambda>t. t" "\<lambda>c. cleanupLocked (c + minute_ns)" add_stamp
  by unfold_locales (simp_all add: stamps_cleanupLocked add_stamp_def)

section \<open>A specification that never forgets\<close>

text \<open>The operations a caller makes, and what a limiter that keeps the whole history answers.\<close>

datatype rl_call = CallIsAllowed string | CallRecord string | CallCheckAndRecord string | CallCleanup

type_synonym rl_history = "string \<Rightarrow> go_time list"

fun rl_step :: "go_time \<times> rl_call \<Rightarrow> rate_limiter \<Rightarrow> bool \<times> rate_limiter" where
  "rl_step (now, CallIsAllowed d) rl = IsAllowed now d rl"
| "rl_step (now, CallRecord d) rl = (True, Record now d rl)"
| "rl_step (now, CallCheckAndRecord d) rl = CheckAndRecord now d rl"
| "rl_step (now, CallCleanup) rl = (True, cleanup now rl)"

definition in_minute :: "go_time \<Rightarrow> go_time list \<Rightarrow> int" where
  "in_minute now ts = int (length (filter (\<lambda>t. now - minute_ns < t) ts))"

fun spec_step :: "int \<Rightarrow> go_time \<times> rl_call \<Rightarrow> rl_history \<Rightarrow> bool \<times> rl_history" where
  "spec_step limit (now, CallIsAllowed d) h = (in_minute now (h d) < limit, h)"
| "spec_step limit (now, CallRecord d) h = (True, h(d := h d @ [now]))"
| "spec_step limit (now, CallCheckAndRecord d) h =
     (if in_minute now (h d) < limit then (True, h(d := h d @ [now])) else (False, h))"
| "spec_step limit (now, CallCleanup) h = (True, h)"

lemma tracks_maybeCleanup:
  assumes "rate_log.tracks (now - minute_ns) rl h"
  shows "rate_log.tracks (now - minute_ns) (maybeCleanupLocked now rl) h"
proof -
  have "rate_log.tracks (now - minute_ns) (cleanupLocked now rl) h"
    using rate_log.tracks_sweep [OF assms] by simp
  then have "rate_log.tracks (now - minute_ns) ((cleanupLocked now rl)\<lparr>rl_lastCleanup := now\<rparr>) h"
    by (rule rate_log.tracks_same_entries) (simp add: stamps_def fun_eq_iff)
  with assms show ?thesis by (simp add: maybeCleanupLocked_def)
qed

lemma max_maybeCleanup [simp]: "maxPerMinute (maybeCleanupLocked now rl) = maxPerMinute rl"
  by (simp add: maybeCleanupLocked_def cleanupLocked_def Let_def)

lemma tracks_prune:
  assumes "rate_log.tracks c rl h"
  shows "rate_log.tracks c (rl\<lparr>requests := (requests rl)(d \<mapsto> filter (\<lambda>t. c < t) (stamps rl d))\<rparr>) h"
  using assms by (simp add: rate_log.tracks_def)

lemma tracks_prune_add:
  assumes "rate_log.tracks c rl h"
  shows "rate_log.tracks c
    (rl\<lparr>requests := (requests rl)(d \<mapsto> filter (\<lambda>t. c < t) (stamps rl d) @ [t])\<rparr>) (h(d := h d @ [t]))"
  using assms by (simp add: rate_log.tracks_def)

lemma rl_step_simulates:
  assumes tr: "rate_log.tracks (now - minute_ns) rl h" and max: "maxPerMinute rl = limit"
  shows "fst (rl_step (now, x) rl) = fst (spec_step limit (now, x) h) \<and>
    rate_log.tracks (now - minute_ns) (snd (rl_step (now, x) rl)) (snd (spec_step limit (now, x) h)) \<and>
    maxPerMinute (snd (rl_step (now, x) rl)) = limit"
proof -
  let ?rl = "maybeCleanupLocked now rl"
  have tr': "rate_log.tracks (now - minute_ns) ?rl h" using tr by (rule tracks_maybeCleanup)
  have cnt: "int (length (filter (\<lambda>t. now - minute_ns < t) (stamps ?rl d))) = in_minute now (h d)" for d
    using rate_log.tracksD [OF tr', of d] by (simp add: in_minute_def)
  show ?thesis
  proof (cases x)
    case (CallIsAllowed d)
    with tracks_prune [OF tr', of d] cnt [of d] max show ?thesis
      by (simp add: IsAllowed_def Let_def)
  next
    case (CallRecord d)
    with rate_log.tracks_add [OF tr', of d now] max show ?thesis
      by (simp add: Record_def add_stamp_def Let_def)
  next
    case (CallCheckAndRecord d)
    with tracks_prune [OF tr', of d] tracks_prune_add [OF tr', of d now] cnt [of d] max
    show ?thesis by (auto simp: CheckAndRecord_def Let_def)
  next
    case CallCleanup
    with rate_log.tracks_sweep [OF tr] max show ?thesis
      by (simp add: cleanup_def cleanupLocked_def Let_def)
  qed
qed

lemma answers_simulate:
  assumes "rate_log.tracks (t - minute_ns) rl h" "maxPerMinute rl = limit" "sorted (t # map fst xs)"
  shows "answers rl_step xs rl = answers (spec_step limit) xs h"
proof (rule timed_simulation [where R = "\<lambda>t rl h. rate_log.tracks (t - minute_ns) rl h \<and>
      maxPerMinute rl = limit" and t = t])
  fix now x s k
  assume "rate_log.tracks (now - minute_ns) s k \<and> maxPerMinute s = limit"
  then show "fst (rl_step (now, x) s) = fst (spec_step limit (now, x) k) \<and>
    rate_log.tracks (now - minute_ns) (snd (rl_step (now, x) s)) (snd (spec_step limit (now, x) k)) \<and>
    maxPerMinute (snd (rl_step (now, x) s)) = limit"
    using rl_step_simulates by blast
qed (use assms in \<open>auto intro: rate_log.tracks_later\<close>)

text \<open>
  C32. The rate limiter refines the limiter that keeps every timestamp forever: for every sequence
  of checks, records, atomic check-and-records and cleanups at nondecreasing times, all answers
  are the ones that counting the whole history of the last minute would give. The opportunistic
  cleanup and the in-place pruning are invisible.
\<close>

theorem limiter_refines_full_history:
  assumes "sorted (t0 # map fst xs)"
  shows "answers rl_step xs (NewRateLimiter limit t0) = answers (spec_step limit) xs (\<lambda>_. [])"
proof (rule answers_simulate [OF _ _ assms])
  show "rate_log.tracks (t0 - minute_ns) (NewRateLimiter limit t0) (\<lambda>_. [])"
    by (simp add: rate_log.tracks_def NewRateLimiter_def stamps_def)
qed (simp add: NewRateLimiter_def)

theorem limiter_refines_full_history_witness:
  "let xs = [(1, CallCheckAndRecord ''a''), (2, CallCheckAndRecord ''a''),
       (70000000000, CallCleanup), (70000000001, CallCheckAndRecord ''a'')] in
   sorted (0 # map fst xs) \<and> answers rl_step xs (NewRateLimiter 1 0) = [True, False, True, True]"
proof -
  let ?xs = "[(1::go_time, CallCheckAndRecord ''a''), (2, CallCheckAndRecord ''a''),
       (70000000000, CallCleanup), (70000000001, CallCheckAndRecord ''a'')]"
  have s: "sorted (0 # map fst ?xs)" by simp
  from limiter_refines_full_history [OF s, of 1] show ?thesis
    using s by (simp add: in_minute_def)
qed

section \<open>No minute holds more than the limit\<close>

text \<open>The times at which the atomic check admitted a request for a domain.\<close>

fun admitted :: "string \<Rightarrow> (go_time \<times> rl_call) list \<Rightarrow> bool list \<Rightarrow> go_time list" where
  "admitted d ((now, CallCheckAndRecord d') # xs) (b # bs) =
     (if b \<and> d' = d then now # admitted d xs bs else admitted d xs bs)"
| "admitted d (x # xs) (b # bs) = admitted d xs bs"
| "admitted d _ _ = []"

definition window_bounded :: "int \<Rightarrow> go_time list \<Rightarrow> bool" where
  "window_bounded limit ts \<longleftrightarrow>
     (\<forall>t. int (length (filter (\<lambda>u. t - minute_ns < u \<and> u \<le> t) ts)) \<le> limit)"

lemma window_bounded_snoc:
  assumes "window_bounded limit ts" "\<forall>u \<in> set ts. u \<le> now" "in_minute now ts < limit"
  shows "window_bounded limit (ts @ [now])"
  unfolding window_bounded_def
proof
  fix t
  show "int (length (filter (\<lambda>u. t - minute_ns < u \<and> u \<le> t) (ts @ [now]))) \<le> limit"
  proof (cases "t - minute_ns < now \<and> now \<le> t")
    case True
    have "length (filter (\<lambda>u. t - minute_ns < u \<and> u \<le> t) ts) \<le>
        length (filter (\<lambda>u. now - minute_ns < u) ts)"
      using True by (induction ts) auto
    with assms(3) True show ?thesis by (simp add: in_minute_def)
  next
    case False
    with assms(1) show ?thesis by (auto simp: window_bounded_def)
  qed
qed

lemma admitted_bounded:
  "window_bounded limit adm \<Longrightarrow> \<forall>u \<in> set adm. u \<le> t \<Longrightarrow>
    \<forall>now. in_minute now adm \<le> in_minute now (h d) \<Longrightarrow> sorted (t # map fst xs) \<Longrightarrow>
    window_bounded limit (adm @ admitted d xs (answers (spec_step limit) xs h))"
proof (induction xs arbitrary: adm t h)
  case Nil
  then show ?case by simp
next
  case (Cons x xs)
  obtain now call where x: "x = (now, call)" by fastforce
  let ?h' = "snd (spec_step limit x h)"
  from Cons.prems x have srt: "sorted (now # map fst xs)" and adm: "\<forall>u \<in> set adm. u \<le> now"
    by auto
  have sub: "\<forall>m. in_minute m adm \<le> in_minute m (?h' d)"
    using Cons.prems(3) by (cases call) (auto simp: x in_minute_def dest: spec intro: order_trans)
  show ?case
  proof (cases "call = CallCheckAndRecord d \<and> in_minute now (h d) < limit")
    case True
    then have h': "?h' = h(d := h d @ [now])" by (simp add: x)
    have "window_bounded limit (adm @ [now])"
      using Cons.prems(1,3) adm True by (auto intro!: window_bounded_snoc dest: spec [of _ now])
    moreover have "\<forall>m. in_minute m (adm @ [now]) \<le> in_minute m (?h' d)"
      using Cons.prems(3) h' by (simp add: in_minute_def)
    ultimately have "window_bounded limit ((adm @ [now]) @ admitted d xs (answers (spec_step limit) xs ?h'))"
      using Cons.IH [of "adm @ [now]" now ?h'] adm srt by auto
    with True show ?thesis by (simp add: x)
  next
    case False
    have "window_bounded limit (adm @ admitted d xs (answers (spec_step limit) xs ?h'))"
      using Cons.IH [of adm now ?h'] Cons.prems(1) adm sub srt by blast
    with False show ?thesis by (cases call) (auto simp: x)
  qed
qed

text \<open>
  C25. The limit is a true sliding-window bound: over every run of the limiter at nondecreasing times,
  and for every instant \<open>t\<close>, at most \<^verbatim>\<open>maxPerMinute\<close> requests for a domain were admitted by
  \<^verbatim>\<open>CheckAndRecord\<close> in the minute that ends at \<open>t\<close>, however the calls are interleaved.
\<close>

theorem no_minute_exceeds_limit:
  assumes "sorted (t0 # map fst xs)" "0 \<le> limit"
  shows "int (length (filter (\<lambda>u. t - minute_ns < u \<and> u \<le> t)
    (admitted d xs (answers rl_step xs (NewRateLimiter limit t0))))) \<le> limit"
proof -
  have "answers rl_step xs (NewRateLimiter limit t0) = answers (spec_step limit) xs (\<lambda>_. [])"
    by (rule answers_simulate [OF _ _ assms(1)])
      (simp_all add: rate_log.tracks_def NewRateLimiter_def stamps_def)
  moreover have "window_bounded limit ([] @ admitted d xs (answers (spec_step limit) xs (\<lambda>_. [])))"
    by (rule admitted_bounded [OF _ _ _ assms(1)]) (use assms(2) in \<open>simp_all add: window_bounded_def\<close>)
  ultimately show ?thesis by (simp add: window_bounded_def)
qed

theorem no_minute_exceeds_limit_witness:
  "let xs = [(1, CallCheckAndRecord ''a''), (2, CallCheckAndRecord ''a''), (3, CallCheckAndRecord ''b'')] in
   sorted (0 # map fst xs) \<and>
   int (length (filter (\<lambda>u. 10 - minute_ns < u \<and> u \<le> 10)
     (admitted ''a'' xs (answers rl_step xs (NewRateLimiter 1 0))))) \<le> 1"
proof -
  have "sorted (0 # map fst [(1::go_time, CallCheckAndRecord ''a''), (2, CallCheckAndRecord ''a''),
      (3, CallCheckAndRecord ''b'')])" by simp
  from this no_minute_exceeds_limit [OF this, of 1 10 "''a''"] show ?thesis by (simp only: Let_def)
qed

end
