(* ===== verification/DataBudget.thy ===== *)
theory DataBudget
  imports Interfaces
begin

text \<open>
  \<^verbatim>\<open>internal/scanner/databudget.go\<close>: the per-domain byte budget over a sliding minute. The state has
  the shape of the rate limiter's with an amount on every entry; the budget is an instance of the
  same windowed-log contract. Byte counts are \<open>int\<close>: Go's 64-bit \<^verbatim>\<open>int\<close> would wrap only past eight
  exbibytes within one minute.
\<close>

record dataEntry =
  de_bytes :: int
  de_timestamp :: go_time

record data_budget =
  maxBytesPerMin :: int
  records :: "string \<rightharpoonup> dataEntry list"
  db_lastCleanup :: go_time

definition NewDataBudget :: "int \<Rightarrow> go_time \<Rightarrow> data_budget" where
  "NewDataBudget limit now = \<lparr>maxBytesPerMin = limit, records = Map.empty, db_lastCleanup = now\<rparr>"

definition entries_of :: "data_budget \<Rightarrow> string \<Rightarrow> dataEntry list" where
  "entries_of db domain = (case records db domain of None \<Rightarrow> [] | Some es \<Rightarrow> es)"

definition db_cleanupLocked :: "go_time \<Rightarrow> data_budget \<Rightarrow> data_budget" where
  "db_cleanupLocked now db =
     (let cutoff = now - minute_ns in
      db\<lparr>records := (\<lambda>domain. case records db domain of
          None \<Rightarrow> None
        | Some es \<Rightarrow>
            let valid = filter (\<lambda>e. cutoff < de_timestamp e) es in
            if length valid = 0 then None else Some valid)\<rparr>)"

definition db_maybeCleanupLocked :: "go_time \<Rightarrow> data_budget \<Rightarrow> data_budget" where
  "db_maybeCleanupLocked now db =
     (if now - db_lastCleanup db < minute_ns then db
      else (db_cleanupLocked now db)\<lparr>db_lastCleanup := now\<rparr>)"

fun sum_window :: "go_time \<Rightarrow> dataEntry list \<Rightarrow> int \<Rightarrow> int" where
  "sum_window cutoff [] acc = acc"
| "sum_window cutoff (e # es) acc =
     sum_window cutoff es (if cutoff < de_timestamp e then acc + de_bytes e else acc)"

definition db_IsAllowed :: "go_time \<Rightarrow> string \<Rightarrow> data_budget \<Rightarrow> bool \<times> data_budget" where
  "db_IsAllowed now domain db0 =
     (let db = db_maybeCleanupLocked now db0; cutoff = now - minute_ns in
      (sum_window cutoff (entries_of db domain) 0 < maxBytesPerMin db, db))"

definition db_Record :: "go_time \<Rightarrow> string \<Rightarrow> int \<Rightarrow> data_budget \<Rightarrow> data_budget" where
  "db_Record now domain bytes db0 =
     (let db = db_maybeCleanupLocked now db0 in
      db\<lparr>records := (records db)(domain \<mapsto>
        entries_of db domain @ [\<lparr>de_bytes = bytes, de_timestamp = now\<rparr>])\<rparr>)"

definition db_cleanup :: "go_time \<Rightarrow> data_budget \<Rightarrow> data_budget" where
  "db_cleanup now db = db_cleanupLocked now db"

section \<open>The budget as a windowed log\<close>

definition add_entry :: "string \<Rightarrow> dataEntry \<Rightarrow> data_budget \<Rightarrow> data_budget" where
  "add_entry domain e db = db\<lparr>records := (records db)(domain \<mapsto> entries_of db domain @ [e])\<rparr>"

lemma entries_of_cleanup:
  "entries_of (db_cleanupLocked now db) d =
    filter (\<lambda>e. now - minute_ns < de_timestamp e) (entries_of db d)"
  by (auto simp: entries_of_def db_cleanupLocked_def Let_def split: option.splits)

lemma entries_of_add_entry:
  "entries_of (add_entry d e db) = (entries_of db)(d := entries_of db d @ [e])"
  by (auto simp: add_entry_def entries_of_def fun_eq_iff)

interpretation budget_log: windowed_log entries_of de_timestamp
  "\<lambda>c. db_cleanupLocked (c + minute_ns)" add_entry
  by unfold_locales (simp_all add: entries_of_cleanup entries_of_add_entry)

lemma sum_window_eq:
  "sum_window c es acc =
    acc + sum_list (map de_bytes (filter (\<lambda>e. c < de_timestamp e) es))"
  by (induction es arbitrary: acc) auto

lemma max_db_maybeCleanup [simp]:
  "maxBytesPerMin (db_maybeCleanupLocked now db) = maxBytesPerMin db"
  by (simp add: db_maybeCleanupLocked_def db_cleanupLocked_def Let_def)

lemma tracks_db_maybeCleanup:
  assumes "budget_log.tracks (now - minute_ns) db h"
  shows "budget_log.tracks (now - minute_ns) (db_maybeCleanupLocked now db) h"
proof -
  have "budget_log.tracks (now - minute_ns) (db_cleanupLocked now db) h"
    using budget_log.tracks_sweep [OF assms] by simp
  then have "budget_log.tracks (now - minute_ns) ((db_cleanupLocked now db)\<lparr>db_lastCleanup := now\<rparr>) h"
    by (rule budget_log.tracks_same_entries) (simp add: entries_of_def fun_eq_iff)
  with assms show ?thesis by (simp add: db_maybeCleanupLocked_def)
qed

section \<open>Refinement of the full transfer history\<close>

datatype db_call = DbIsAllowed string | DbRecord string int | DbCleanup

fun db_step :: "go_time \<times> db_call \<Rightarrow> data_budget \<Rightarrow> bool \<times> data_budget" where
  "db_step (now, DbIsAllowed d) db = db_IsAllowed now d db"
| "db_step (now, DbRecord d n) db = (True, db_Record now d n db)"
| "db_step (now, DbCleanup) db = (True, db_cleanup now db)"

text \<open>The specification keeps every transfer and sums the last minute on demand.\<close>

definition sent_last_minute :: "go_time \<Rightarrow> dataEntry list \<Rightarrow> int" where
  "sent_last_minute now es =
     sum_list (map de_bytes (filter (\<lambda>e. now - minute_ns < de_timestamp e) es))"

fun db_spec_step :: "int \<Rightarrow> go_time \<times> db_call \<Rightarrow> (string \<Rightarrow> dataEntry list) \<Rightarrow>
    bool \<times> (string \<Rightarrow> dataEntry list)" where
  "db_spec_step limit (now, DbIsAllowed d) h = (sent_last_minute now (h d) < limit, h)"
| "db_spec_step limit (now, DbRecord d n) h =
     (True, h(d := h d @ [\<lparr>de_bytes = n, de_timestamp = now\<rparr>]))"
| "db_spec_step limit (now, DbCleanup) h = (True, h)"

lemma db_step_simulates:
  assumes tr: "budget_log.tracks (now - minute_ns) db h" and max: "maxBytesPerMin db = limit"
  shows "fst (db_step (now, x) db) = fst (db_spec_step limit (now, x) h) \<and>
    budget_log.tracks (now - minute_ns) (snd (db_step (now, x) db)) (snd (db_spec_step limit (now, x) h)) \<and>
    maxBytesPerMin (snd (db_step (now, x) db)) = limit"
proof -
  let ?db = "db_maybeCleanupLocked now db"
  have tr': "budget_log.tracks (now - minute_ns) ?db h" using tr by (rule tracks_db_maybeCleanup)
  show ?thesis
  proof (cases x)
    case (DbIsAllowed d)
    with tr' budget_log.tracksD [OF tr', of d] max show ?thesis
      by (simp add: db_IsAllowed_def sum_window_eq sent_last_minute_def Let_def)
  next
    case (DbRecord d n)
    with budget_log.tracks_add [OF tr', of d] max show ?thesis
      by (simp add: db_Record_def add_entry_def Let_def)
  next
    case DbCleanup
    with budget_log.tracks_sweep [OF tr] max show ?thesis
      by (simp add: db_cleanup_def db_cleanupLocked_def Let_def)
  qed
qed

text \<open>
  The data budget answers as one that keeps every transfer forever: for every sequence of
  checks, records and cleanups at nondecreasing times, a domain is allowed exactly when the bytes
  recorded for it in the last minute are below the limit.
\<close>

lemma budget_refines_full_history:
  assumes "sorted (t0 # map fst xs)"
  shows "answers db_step xs (NewDataBudget limit t0) = answers (db_spec_step limit) xs (\<lambda>_. [])"
proof (rule timed_simulation [where R = "\<lambda>t db h. budget_log.tracks (t - minute_ns) db h \<and>
      maxBytesPerMin db = limit" and t = t0])
  show "budget_log.tracks (t0 - minute_ns) (NewDataBudget limit t0) (\<lambda>_. []) \<and>
      maxBytesPerMin (NewDataBudget limit t0) = limit"
    by (simp add: budget_log.tracks_def NewDataBudget_def entries_of_def)
  fix now x s k
  assume "budget_log.tracks (now - minute_ns) s k \<and> maxBytesPerMin s = limit"
  then show "fst (db_step (now, x) s) = fst (db_spec_step limit (now, x) k) \<and>
    budget_log.tracks (now - minute_ns) (snd (db_step (now, x) s)) (snd (db_spec_step limit (now, x) k)) \<and>
    maxBytesPerMin (snd (db_step (now, x) s)) = limit"
    using db_step_simulates by blast
qed (use assms in \<open>auto intro: budget_log.tracks_later\<close>)

lemma budget_refines_full_history_witness:
  "let xs = [(1, DbRecord ''a'' 90), (2, DbIsAllowed ''a''), (3, DbRecord ''a'' 20), (4, DbIsAllowed ''a''),
       (60000000002, DbIsAllowed ''a'')] in
   sorted (0 # map fst xs) \<and> answers db_step xs (NewDataBudget 100 0) = [True, True, True, False, True]"
proof -
  let ?xs = "[(1::go_time, DbRecord ''a'' 90), (2, DbIsAllowed ''a''), (3, DbRecord ''a'' 20),
     (4, DbIsAllowed ''a''), (60000000002, DbIsAllowed ''a'')]"
  have s: "sorted (0 # map fst ?xs)" by simp
  from budget_refines_full_history [OF s, of 100] show ?thesis
    using s by (simp add: sent_last_minute_def)
qed

end
