(* ===== verification/FragmentBuffer.thy ===== *)
theory FragmentBuffer
  imports Interfaces
begin

text \<open>
  \<^verbatim>\<open>internal/scanner/fragment_buffer.go\<close>: the per-session rolling buffers behind cross-request secret
  detection. The Go map of sessions is an association list with distinct keys, since the code takes
  its length and ranges over it. An operation that reads the clock more than once takes one argument
  per reading, in order. The scanner a scan runs on is an argument, as in the source.
\<close>

record fragment =
  frag_data :: string
  frag_at :: go_time

record sessionBuffer =
  sb_fragments :: "fragment list"
  sb_totalBytes :: int

record fragment_buffer =
  fb_maxBytes :: int
  fb_maxSessions :: int
  fb_windowSecs :: int
  fb_sessions :: "(string \<times> sessionBuffer) list"
  fb_lastCleanup :: go_time

definition NewFragmentBuffer :: "int \<Rightarrow> int \<Rightarrow> int \<Rightarrow> go_time \<Rightarrow> fragment_buffer" where
  "NewFragmentBuffer maxBytes maxSessions windowSecs now =
     \<lparr>fb_maxBytes = maxBytes, fb_maxSessions = maxSessions, fb_windowSecs = windowSecs,
      fb_sessions = [], fb_lastCleanup = now\<rparr>"

section \<open>Cleanup\<close>

definition fb_cleanupInterval :: "fragment_buffer \<Rightarrow> duration" where
  "fb_cleanupInterval fb =
     (let i0 = fb_windowSecs fb * second_ns;
          i1 = (if i0 > 60 * second_ns then 60 * second_ns else i0) in
      if i1 < second_ns then second_ns else i1)"

text \<open>The loop that pops expired fragments off the front and keeps the byte count in step.\<close>

fun pop_expired :: "go_time \<Rightarrow> fragment list \<Rightarrow> int \<Rightarrow> fragment list \<times> int" where
  "pop_expired cutoff [] n = ([], n)"
| "pop_expired cutoff (f # fs) n =
     (if frag_at f < cutoff then pop_expired cutoff fs (n - int (length (frag_data f))) else (f # fs, n))"

definition clean_session :: "go_time \<Rightarrow> sessionBuffer \<Rightarrow> sessionBuffer option" where
  "clean_session cutoff sb =
     (let (fs, n) = pop_expired cutoff (sb_fragments sb) (sb_totalBytes sb) in
      if length fs = 0 then None else Some \<lparr>sb_fragments = fs, sb_totalBytes = n\<rparr>)"

definition fb_cutoff :: "fragment_buffer \<Rightarrow> go_time \<Rightarrow> go_time" where
  "fb_cutoff fb now = now - fb_windowSecs fb * second_ns"

definition fb_cleanupLocked :: "go_time \<Rightarrow> fragment_buffer \<Rightarrow> fragment_buffer" where
  "fb_cleanupLocked now fb =
     fb\<lparr>fb_sessions := sweep (clean_session (fb_cutoff fb now)) (fb_sessions fb)\<rparr>"

definition fb_maybeCleanupLocked :: "go_time \<Rightarrow> fragment_buffer \<Rightarrow> fragment_buffer" where
  "fb_maybeCleanupLocked now fb =
     (if now - fb_lastCleanup fb < fb_cleanupInterval fb then fb
      else (fb_cleanupLocked now fb)\<lparr>fb_lastCleanup := now\<rparr>)"

section \<open>Appending\<close>

text \<open>Evict the oldest fragments while the cap is exceeded, then cut a single oversized one.\<close>

fun evict_oldest :: "int \<Rightarrow> fragment list \<Rightarrow> int \<Rightarrow> fragment list \<times> int" where
  "evict_oldest mx (f # g # fs) n =
     (if n > mx then evict_oldest mx (g # fs) (n - int (length (frag_data f))) else (f # g # fs, n))"
| "evict_oldest mx fs n = (fs, n)"

definition enforce_cap :: "int \<Rightarrow> sessionBuffer \<Rightarrow> sessionBuffer" where
  "enforce_cap mx sb =
     (let (fs, n) = evict_oldest mx (sb_fragments sb) (sb_totalBytes sb) in
      if n > mx \<and> length fs = 1 then
        let f = hd fs; d = frag_data f in
        \<lparr>sb_fragments = [f\<lparr>frag_data := drop (nat (int (length d) - mx)) d\<rparr>], sb_totalBytes = mx\<rparr>
      else \<lparr>sb_fragments = fs, sb_totalBytes = n\<rparr>)"

definition Append ::
  "go_time \<Rightarrow> go_time \<Rightarrow> string \<Rightarrow> string \<Rightarrow> fragment_buffer \<Rightarrow> bool \<times> fragment_buffer" where
  "Append t1 t2 sessionKey payload fb0 =
     (let fb = fb_maybeCleanupLocked t1 fb0 in
      if map_of (fb_sessions fb) sessionKey = None \<and>
         int (length (fb_sessions fb)) \<ge> fb_maxSessions fb
      then (True, fb)
      else
        let sb = (case map_of (fb_sessions fb) sessionKey of
              Some sb \<Rightarrow> sb | None \<Rightarrow> \<lparr>sb_fragments = [], sb_totalBytes = 0\<rparr>);
            grown = \<lparr>sb_fragments = sb_fragments sb @ [\<lparr>frag_data = payload, frag_at = t2\<rparr>],
                     sb_totalBytes = sb_totalBytes sb + int (length payload)\<rparr> in
        (False, fb\<lparr>fb_sessions :=
           AList.update sessionKey (enforce_cap (fb_maxBytes fb) grown) (fb_sessions fb)\<rparr>))"

section \<open>Scanning\<close>

definition concatenateFragments :: "fragment_buffer \<Rightarrow> go_time \<Rightarrow> sessionBuffer \<Rightarrow> string" where
  "concatenateFragments fb now sb =
     concat (map frag_data (filter (\<lambda>f. \<not> frag_at f < fb_cutoff fb now) (sb_fragments sb)))"

definition minFragmentsForMatch :: nat where
  "minFragmentsForMatch = 2"

record dlp_result =
  dlp_clean :: bool
  dlp_matches :: "string list"
  dlp_informational :: "string list"

text \<open>The scan returns pattern names; an empty list is Go's nil. \<open>sc\<close> is \<^verbatim>\<open>ScanTextForDLP\<close>.\<close>

definition ScanForSecrets ::
  "go_time \<Rightarrow> go_time \<Rightarrow> go_time \<Rightarrow> string \<Rightarrow> (string \<Rightarrow> dlp_result) \<Rightarrow> fragment_buffer \<Rightarrow>
    string list \<times> fragment_buffer" where
  "ScanForSecrets t1 t2 t3 sessionKey sc fb0 =
     (let fb = fb_maybeCleanupLocked t1 fb0 in
      case map_of (fb_sessions fb) sessionKey of
        None \<Rightarrow> ([], fb)
      | Some sb \<Rightarrow>
          if length (sb_fragments sb) = 0 then ([], fb)
          else
            let active = filter (\<lambda>f. \<not> frag_at f < fb_cutoff fb t2) (sb_fragments sb) in
            if length active < minFragmentsForMatch then ([], fb)
            else
              let result = sc (concatenateFragments fb t3 sb) in
              if dlp_clean result \<and> length (dlp_informational result) = 0 then ([], fb)
              else
                let single = concat (map (\<lambda>f. dlp_matches (sc (frag_data f)) @
                        dlp_informational (sc (frag_data f)))
                      (filter (\<lambda>f. length (frag_data f) > 0) active)) in
                (filter (\<lambda>p. p \<notin> set single) (dlp_matches result), fb))"

definition TotalBufferBytes :: "go_time \<Rightarrow> fragment_buffer \<Rightarrow> int \<times> fragment_buffer" where
  "TotalBufferBytes now fb0 =
     (let fb = fb_maybeCleanupLocked now fb0 in
      (foldl (\<lambda>a (k, sb). a + sb_totalBytes sb) 0 (fb_sessions fb), fb))"

section \<open>Reconfiguration and removal\<close>

definition UpdateConfig :: "int \<Rightarrow> int \<Rightarrow> go_time \<Rightarrow> fragment_buffer \<Rightarrow> fragment_buffer" where
  "UpdateConfig maxBytes0 windowSecs0 now fb =
     (let maxBytes = (if maxBytes0 \<le> 0 then 1 else maxBytes0);
          windowSecs = (if windowSecs0 \<le> 0 then 1 else windowSecs0);
          fb1 = fb_cleanupLocked now (fb\<lparr>fb_maxBytes := maxBytes, fb_windowSecs := windowSecs\<rparr>) in
      fb1\<lparr>fb_sessions := map (\<lambda>(k, sb). (k, enforce_cap (fb_maxBytes fb1) sb)) (fb_sessions fb1),
          fb_lastCleanup := now\<rparr>)"

definition Delete :: "string \<Rightarrow> fragment_buffer \<Rightarrow> fragment_buffer" where
  "Delete key fb = fb\<lparr>fb_sessions := AList.delete key (fb_sessions fb)\<rparr>"

definition Close :: "fragment_buffer \<Rightarrow> fragment_buffer" where
  "Close fb = fb\<lparr>fb_sessions := []\<rparr>"

definition fb_cleanup :: "go_time \<Rightarrow> fragment_buffer \<Rightarrow> fragment_buffer" where
  "fb_cleanup now fb = fb_cleanupLocked now fb"

section \<open>The invariant\<close>

abbreviation data_of :: "fragment list \<Rightarrow> string" where
  "data_of fs \<equiv> concat (map frag_data fs)"

definition sb_ok :: "int \<Rightarrow> sessionBuffer \<Rightarrow> bool" where
  "sb_ok mx sb \<longleftrightarrow> sb_fragments sb \<noteq> [] \<and> sb_totalBytes sb = int (length (data_of (sb_fragments sb))) \<and>
     sb_totalBytes sb \<le> mx"

definition fb_ok :: "fragment_buffer \<Rightarrow> bool" where
  "fb_ok fb \<longleftrightarrow> 0 \<le> fb_maxBytes fb \<and> distinct (map fst (fb_sessions fb)) \<and>
     int (length (fb_sessions fb)) \<le> fb_maxSessions fb \<and>
     list_all (\<lambda>(k, sb). sb_ok (fb_maxBytes fb) sb) (fb_sessions fb)"

lemma pop_expired_eq:
  "pop_expired c fs n =
    (dropWhile (\<lambda>f. frag_at f < c) fs,
     n - int (length (data_of (takeWhile (\<lambda>f. frag_at f < c) fs))))"
  by (induction fs arbitrary: n) auto

lemma data_of_split: "data_of fs = data_of (takeWhile P fs) @ data_of (dropWhile P fs)"
  by (metis concat_append map_append takeWhile_dropWhile_id)

lemma pop_expired_total:
  "n = int (length (data_of fs)) \<Longrightarrow>
    snd (pop_expired c fs n) = int (length (data_of (fst (pop_expired c fs n))))"
  using data_of_split [of fs "\<lambda>f. frag_at f < c"]
  by (simp add: pop_expired_eq del: map_append concat_append)

lemma clean_session_ok: "sb_ok mx sb \<Longrightarrow> clean_session c sb = Some sb' \<Longrightarrow> sb_ok mx sb'"
proof -
  assume ok: "sb_ok mx sb" and c: "clean_session c sb = Some sb'"
  let ?n = "sb_totalBytes sb" and ?fs = "sb_fragments sb"
  from c have sb': "sb' = \<lparr>sb_fragments = fst (pop_expired c ?fs ?n), sb_totalBytes = snd (pop_expired c ?fs ?n)\<rparr>"
    "fst (pop_expired c ?fs ?n) \<noteq> []"
    by (auto simp: clean_session_def Let_def split: prod.splits if_splits)
  have "snd (pop_expired c ?fs ?n) \<le> ?n" by (simp add: pop_expired_eq)
  with ok sb' pop_expired_total [of ?n ?fs c] show ?thesis by (simp add: sb_ok_def)
qed

text \<open>What eviction leaves is a suffix of what was there, and it fits unless one fragment is left.\<close>

lemma evict_oldest_spec:
  assumes "fs \<noteq> []" "n = int (length (data_of fs))"
  shows "\<exists>gone. fs = gone @ fst (evict_oldest mx fs n) \<and> fst (evict_oldest mx fs n) \<noteq> [] \<and>
    snd (evict_oldest mx fs n) = int (length (data_of (fst (evict_oldest mx fs n)))) \<and>
    (snd (evict_oldest mx fs n) \<le> mx \<or> length (fst (evict_oldest mx fs n)) = 1)"
  using assms
proof (induction mx fs n rule: evict_oldest.induct)
  case (1 mx f g fs n)
  show ?case
  proof (cases "n > mx")
    case True
    with 1 obtain gone where *: "g # fs = gone @ fst (evict_oldest mx (g # fs) (n - int (length (frag_data f))))"
      and **: "fst (evict_oldest mx (g # fs) (n - int (length (frag_data f)))) \<noteq> []"
        "snd (evict_oldest mx (g # fs) (n - int (length (frag_data f)))) =
          int (length (data_of (fst (evict_oldest mx (g # fs) (n - int (length (frag_data f)))))))"
        "snd (evict_oldest mx (g # fs) (n - int (length (frag_data f)))) \<le> mx \<or>
          length (fst (evict_oldest mx (g # fs) (n - int (length (frag_data f))))) = 1"
      by auto
    show ?thesis
      by (rule exI [of _ "f # gone"]) (use True * ** in simp)
  qed (use 1 in simp)
qed auto

text \<open>
  Enforcing the cap keeps a suffix of the session's bytes: all of them if they fit, and at least the
  newest fragment cut to the cap.
\<close>

lemma enforce_cap_fits:
  assumes "sb_totalBytes sb \<le> mx"
  shows "enforce_cap mx sb = sb"
proof -
  have "evict_oldest mx fs n = (fs, n)" if "n \<le> mx" for fs n
    using that by (cases "(mx, fs, n)" rule: evict_oldest.cases) auto
  with assms show ?thesis by (simp add: enforce_cap_def Let_def)
qed

lemma enforce_cap_spec:
  assumes "sb_fragments sb \<noteq> []" "sb_totalBytes sb = int (length (data_of (sb_fragments sb)))" "0 \<le> mx"
  shows "sb_ok mx (enforce_cap mx sb) \<and>
    (\<exists>gone. data_of (sb_fragments sb) = gone @ data_of (sb_fragments (enforce_cap mx sb))) \<and>
    min mx (int (length (frag_data (last (sb_fragments sb))))) \<le> sb_totalBytes (enforce_cap mx sb)"
proof -
  obtain fs n where ev: "evict_oldest mx (sb_fragments sb) (sb_totalBytes sb) = (fs, n)" by fastforce
  from evict_oldest_spec [OF assms(1,2), of mx] ev obtain gone where
    g: "sb_fragments sb = gone @ fs" "fs \<noteq> []" "n = int (length (data_of fs))" "n \<le> mx \<or> length fs = 1"
    by auto
  then have split: "data_of (sb_fragments sb) = data_of gone @ data_of fs" by simp
  have last: "last (sb_fragments sb) = last fs" using g by simp
  show ?thesis
  proof (cases "n > mx")
    case True
    with g obtain f where f: "fs = [f]" by (auto simp: length_Suc_conv)
    let ?d = "frag_data f" and ?k = "nat (int (length (frag_data f)) - mx)"
    have e: "enforce_cap mx sb = \<lparr>sb_fragments = [f\<lparr>frag_data := drop ?k ?d\<rparr>], sb_totalBytes = mx\<rparr>"
      using True f by (simp add: enforce_cap_def ev Let_def)
    have "int (length (drop ?k ?d)) = mx" using True g(3) f assms(3) by simp
    moreover have "data_of (sb_fragments sb) =
        (data_of gone @ take ?k ?d) @ data_of (sb_fragments (enforce_cap mx sb))"
      using split f e by simp
    then have "\<exists>gone. data_of (sb_fragments sb) = gone @ data_of (sb_fragments (enforce_cap mx sb))" ..
    ultimately show ?thesis using e by (simp add: sb_ok_def)
  next
    case False
    then have e: "enforce_cap mx sb = \<lparr>sb_fragments = fs, sb_totalBytes = n\<rparr>"
      by (simp add: enforce_cap_def ev Let_def)
    obtain as a where "fs = as @ [a]" using g(2) by (cases fs rule: rev_cases) auto
    with False e g split last show ?thesis by (auto simp: sb_ok_def)
  qed
qed

lemma sweep_list_all:
  "list_all (\<lambda>(k, v). P v) m \<Longrightarrow> (\<And>v w. P v \<Longrightarrow> f v = Some w \<Longrightarrow> P w) \<Longrightarrow>
    list_all (\<lambda>(k, v). P v) (sweep f m)"
  by (induction m) (auto split: option.splits)

lemma update_list_all:
  "list_all (\<lambda>(k, v). P v) m \<Longrightarrow> P w \<Longrightarrow> list_all (\<lambda>(k, v). P v) (AList.update x w m)"
  by (induction m) auto

lemma fb_ok_cleanupLocked [step_inv]: "fb_ok fb \<Longrightarrow> fb_ok (fb_cleanupLocked now fb)"
  using length_sweep_le [of "clean_session (fb_cutoff fb now)" "fb_sessions fb"]
  by (auto simp: fb_ok_def fb_cleanupLocked_def intro!: sweep_list_all intro: clean_session_ok)

lemma fb_ok_lastCleanup [simp]: "fb_ok (fb\<lparr>fb_lastCleanup := t\<rparr>) = fb_ok fb"
  by (simp add: fb_ok_def)

lemma fb_ok_maybeCleanupLocked [step_inv]: "fb_ok fb \<Longrightarrow> fb_ok (fb_maybeCleanupLocked now fb)"
  by (simp add: fb_maybeCleanupLocked_def fb_ok_cleanupLocked)

definition session_of :: "fragment_buffer \<Rightarrow> string \<Rightarrow> fragment list" where
  "session_of fb key = (case map_of (fb_sessions fb) key of None \<Rightarrow> [] | Some sb \<Rightarrow> sb_fragments sb)"

lemma fb_ok_session:
  "fb_ok fb \<Longrightarrow> map_of (fb_sessions fb) key = Some sb \<Longrightarrow> sb_ok (fb_maxBytes fb) sb"
  by (auto simp: fb_ok_def list_all_iff dest!: map_of_SomeD)

text \<open>The session a successful append leaves, from the session it found after the cleanup.\<close>

lemma Append_session:
  assumes ok: "fb_ok fb0" and app: "Append t1 t2 key payload fb0 = (False, fb')"
  defines "fb \<equiv> fb_maybeCleanupLocked t1 fb0"
  defines "new \<equiv> session_of fb key @ [\<lparr>frag_data = payload, frag_at = t2\<rparr>]"
  shows "fb' = fb\<lparr>fb_sessions := AList.update key
      (enforce_cap (fb_maxBytes fb) \<lparr>sb_fragments = new, sb_totalBytes = int (length (data_of new))\<rparr>)
      (fb_sessions fb)\<rparr>"
proof -
  have "fb_ok fb" using ok unfolding fb_def by (rule fb_ok_maybeCleanupLocked)
  then have "map_of (fb_sessions fb) key = Some sb \<Longrightarrow>
      sb_totalBytes sb = int (length (data_of (sb_fragments sb)))" for sb
    by (auto dest: fb_ok_session simp: sb_ok_def)
  with app show ?thesis
    unfolding new_def fb_def
    by (auto simp: Append_def Let_def session_of_def split: if_splits option.splits)
qed

lemma fb_ok_Append [step_inv]: "fb_ok fb \<Longrightarrow> fb_ok (snd (Append t1 t2 key payload fb))"
proof -
  assume ok: "fb_ok fb"
  obtain r fb' where app: "Append t1 t2 key payload fb = (r, fb')" by fastforce
  let ?fb = "fb_maybeCleanupLocked t1 fb"
  have ok': "fb_ok ?fb" using ok by (rule fb_ok_maybeCleanupLocked)
  show ?thesis
  proof (cases r)
    case True
    with app ok' show ?thesis by (auto simp: Append_def Let_def split: if_splits)
  next
    case False
    let ?new = "session_of ?fb key @ [\<lparr>frag_data = payload, frag_at = t2\<rparr>]"
    let ?sb = "enforce_cap (fb_maxBytes ?fb) \<lparr>sb_fragments = ?new, sb_totalBytes = int (length (data_of ?new))\<rparr>"
    from Append_session [OF ok] app False have fb': "fb' = ?fb\<lparr>fb_sessions := AList.update key ?sb (fb_sessions ?fb)\<rparr>"
      by simp
    have "sb_ok (fb_maxBytes ?fb) ?sb" using enforce_cap_spec [of "\<lparr>sb_fragments = ?new, sb_totalBytes = int (length (data_of ?new))\<rparr>" "fb_maxBytes ?fb"] ok'
      by (simp add: fb_ok_def)
    moreover have "int (length (AList.update key ?sb (fb_sessions ?fb))) \<le> fb_maxSessions ?fb"
      using app False ok' by (cases "map_of (fb_sessions ?fb) key")
        (auto simp: Append_def Let_def fb_ok_def length_update_new length_update_old split: if_splits)
    ultimately show ?thesis using ok' fb' app
      by (simp add: fb_ok_def AList.distinct_update update_list_all)
  qed
qed

lemma fb_ok_UpdateConfig [step_inv]:
  assumes "fb_ok fb"
  shows "fb_ok (UpdateConfig mb ws now fb)"
proof -
  let ?mb = "if mb \<le> 0 then 1 else mb"
  let ?cfg = "fb\<lparr>fb_maxBytes := ?mb, fb_windowSecs := if ws \<le> 0 then 1 else ws\<rparr>"
  let ?swept = "sweep (clean_session (fb_cutoff ?cfg now)) (fb_sessions fb)"
  have "list_all (\<lambda>(k, sb). sb_ok (fb_maxBytes fb) sb) ?swept"
    using assms by (intro sweep_list_all) (auto simp: fb_ok_def intro: clean_session_ok)
  then have "list_all (\<lambda>(k, sb). sb_ok ?mb (enforce_cap ?mb sb)) ?swept"
    using enforce_cap_spec [of _ ?mb] by (auto simp: list_all_iff sb_ok_def split: if_splits)
  then have "list_all (\<lambda>(k, sb). sb_ok ?mb sb) (map (\<lambda>(k, sb). (k, enforce_cap ?mb sb)) ?swept)"
    by (simp add: list_all_iff case_prod_beta)
  moreover have "map fst (map (\<lambda>(k, sb). (k, enforce_cap ?mb sb)) ?swept) = map fst ?swept"
    by (simp add: comp_def case_prod_beta)
  ultimately show ?thesis
    using assms length_sweep_le [of "clean_session (fb_cutoff ?cfg now)" "fb_sessions fb"]
    by (simp add: UpdateConfig_def fb_cleanupLocked_def fb_ok_def Let_def del: map_map)
qed

lemma delete_list_all: "list_all P m \<Longrightarrow> list_all P (AList.delete k m)"
  by (simp add: AList.delete_eq list_all_iff)

lemma fb_ok_Delete [step_inv]: "fb_ok fb \<Longrightarrow> fb_ok (Delete key fb)"
  using length_delete_le [of key "fb_sessions fb"]
  by (simp add: Delete_def fb_ok_def AList.distinct_delete delete_list_all)

lemma fb_ok_Close [step_inv]: "fb_ok fb \<Longrightarrow> fb_ok (Close fb)"
  by (simp add: Close_def fb_ok_def)

lemma fb_ok_ScanForSecrets [step_inv]: "fb_ok fb \<Longrightarrow> fb_ok (snd (ScanForSecrets t1 t2 t3 key sc fb))"
  using fb_ok_maybeCleanupLocked [of fb t1]
  by (auto simp: ScanForSecrets_def Let_def split: option.splits)

text \<open>Everything a caller can do to the buffer.\<close>

datatype fb_op =
    OpAppend go_time go_time string string
  | OpScan go_time go_time go_time string "string \<Rightarrow> dlp_result"
  | OpTotal go_time
  | OpUpdateConfig int int go_time
  | OpDelete string
  | OpClose
  | OpCleanup go_time

fun fb_step :: "fb_op \<Rightarrow> fragment_buffer \<Rightarrow> fragment_buffer" where
  "fb_step (OpAppend t1 t2 k p) fb = snd (Append t1 t2 k p fb)"
| "fb_step (OpScan t1 t2 t3 k sc) fb = snd (ScanForSecrets t1 t2 t3 k sc fb)"
| "fb_step (OpTotal now) fb = snd (TotalBufferBytes now fb)"
| "fb_step (OpUpdateConfig mb ws now) fb = UpdateConfig mb ws now fb"
| "fb_step (OpDelete k) fb = Delete k fb"
| "fb_step OpClose fb = Close fb"
| "fb_step (OpCleanup now) fb = fb_cleanup now fb"

interpretation buffer_inv: kept_invariant fb_step fb_ok
proof
  fix fb x
  assume "fb_ok fb"
  then show "fb_ok (fb_step x fb)"
    by (cases x) (auto simp: TotalBufferBytes_def fb_cleanup_def Let_def intro: step_inv)
qed

lemma total_bytes_le:
  "list_all (\<lambda>(k, sb). sb_ok mx sb) m \<Longrightarrow>
    foldl (\<lambda>a (k, sb). a + sb_totalBytes sb) a m \<le> a + int (length m) * mx"
proof (induction m arbitrary: a)
  case (Cons x m)
  obtain k sb where x: "x = (k, sb)" by fastforce
  from Cons.prems x have le: "sb_totalBytes sb \<le> mx" by (simp add: sb_ok_def)
  have "foldl (\<lambda>a (k, sb). a + sb_totalBytes sb) (a + sb_totalBytes sb) m
      \<le> a + sb_totalBytes sb + int (length m) * mx"
    using Cons by simp
  with le x show ?case by (simp add: algebra_simps)
qed simp

section \<open>What the buffer promises\<close>

text \<open>
  Memory is bounded in every reachable state: whatever sequence of appends, scans,
  reconfigurations, deletions and cleanups ran, the buffer holds at most \<^verbatim>\<open>maxSessions\<close> sessions,
  every session's byte counter equals the bytes it holds, and none exceeds the current \<^verbatim>\<open>maxBytes\<close>;
  so the total of \<^verbatim>\<open>TotalBufferBytes\<close> is at most their product.
\<close>

theorem buffer_memory_bounded:
  fixes ops :: "fb_op list" and windowSecs :: int and t0 :: go_time
  assumes "0 \<le> maxBytes" "0 \<le> maxSessions"
  defines "fb \<equiv> fold fb_step ops (NewFragmentBuffer maxBytes maxSessions windowSecs t0)"
  shows "int (length (fb_sessions fb)) \<le> fb_maxSessions fb \<and>
    (\<forall>(k, sb) \<in> set (fb_sessions fb). sb_totalBytes sb = int (length (data_of (sb_fragments sb))) \<and>
       sb_totalBytes sb \<le> fb_maxBytes fb) \<and>
    fst (TotalBufferBytes now fb) \<le> fb_maxSessions fb * fb_maxBytes fb"
proof -
  have "fb_ok (NewFragmentBuffer maxBytes maxSessions windowSecs t0)"
    using assms(1,2) by (simp add: NewFragmentBuffer_def fb_ok_def)
  then have ok: "fb_ok fb" unfolding fb_def by (rule buffer_inv.run_keeps)
  let ?fb = "fb_maybeCleanupLocked now fb"
  have ok': "fb_ok ?fb" using ok by (rule fb_ok_maybeCleanupLocked)
  have same: "fb_maxSessions ?fb = fb_maxSessions fb" "fb_maxBytes ?fb = fb_maxBytes fb"
    by (simp_all add: fb_maybeCleanupLocked_def fb_cleanupLocked_def)
  have "fst (TotalBufferBytes now fb) \<le> int (length (fb_sessions ?fb)) * fb_maxBytes ?fb"
    using total_bytes_le [of "fb_maxBytes ?fb" "fb_sessions ?fb" 0] ok' by (simp add: TotalBufferBytes_def fb_ok_def Let_def)
  also have "\<dots> \<le> fb_maxSessions ?fb * fb_maxBytes ?fb"
    using ok' by (intro mult_right_mono) (simp_all add: fb_ok_def)
  finally have "fst (TotalBufferBytes now fb) \<le> fb_maxSessions fb * fb_maxBytes fb" by (simp only: same)
  with ok show ?thesis by (auto simp: fb_ok_def sb_ok_def list_all_iff)
qed

theorem buffer_memory_bounded_witness:
  "let fb = fold fb_step [OpAppend 1 1 ''s'' ''abcdef'', OpAppend 2 2 ''s'' ''gh'', OpAppend 3 3 ''t'' ''x'']
       (NewFragmentBuffer 4 1 60 0) in
   (0::int) \<le> 4 \<and> fst (TotalBufferBytes 3 fb) \<le> fb_maxSessions fb * fb_maxBytes fb \<and>
   map fst (fb_sessions fb) = [''s'']"
proof -
  let ?ops = "[OpAppend 1 1 ''s'' ''abcdef'', OpAppend 2 2 ''s'' ''gh'', OpAppend 3 3 ''t'' ''x'']"
  have "map fst (fb_sessions (fold fb_step ?ops (NewFragmentBuffer 4 1 60 0))) = [''s'']"
    by (simp add: NewFragmentBuffer_def Append_def fb_maybeCleanupLocked_def fb_cleanupInterval_def
        enforce_cap_def Let_def)
  with buffer_memory_bounded [of 4 1 ?ops 60 0 3] show ?thesis by (simp add: Let_def)
qed

lemma map_of_maybeCleanup_mono:
  "fb_ok fb \<Longrightarrow> map_of (fb_sessions (fb_maybeCleanupLocked t fb)) k =
    (if t - fb_lastCleanup fb < fb_cleanupInterval fb then map_of (fb_sessions fb) k
     else Option.bind (map_of (fb_sessions fb) k) (clean_session (fb_cutoff fb t)))"
  by (simp add: fb_maybeCleanupLocked_def fb_cleanupLocked_def fb_ok_def map_of_sweep)

text \<open>
  No session's evidence is evicted to make room for another: an append of one session leaves
  every other session as the time-based cleanup alone would leave it, and a new session that finds
  the buffer full is refused and reported instead.
\<close>

lemma append_never_evicts_other_session:
  fixes t1 :: go_time
  assumes "fb_ok fb" "k \<noteq> sessionKey"
  defines "clean \<equiv> fb_maybeCleanupLocked t1 fb"
  shows "map_of (fb_sessions (snd (Append t1 t2 sessionKey payload fb))) k = map_of (fb_sessions clean) k \<and>
    (fst (Append t1 t2 sessionKey payload fb) \<longleftrightarrow>
       map_of (fb_sessions clean) sessionKey = None \<and> int (length (fb_sessions clean)) = fb_maxSessions clean)"
proof -
  have "fb_ok clean" using assms(1) unfolding clean_def by (rule fb_ok_maybeCleanupLocked)
  then have "int (length (fb_sessions clean)) \<le> fb_maxSessions clean" by (simp add: fb_ok_def)
  with assms(2) show ?thesis
    by (auto simp: Append_def clean_def [symmetric] Let_def map_of_update)
qed

definition two_sessions :: fragment_buffer where
  "two_sessions = \<lparr>fb_maxBytes = 8, fb_maxSessions = 2, fb_windowSecs = 60,
     fb_sessions = [(''a'', \<lparr>sb_fragments = [\<lparr>frag_data = ''sk-'', frag_at = 1\<rparr>], sb_totalBytes = 3\<rparr>),
       (''b'', \<lparr>sb_fragments = [\<lparr>frag_data = ''hello'', frag_at = 2\<rparr>], sb_totalBytes = 5\<rparr>)],
     fb_lastCleanup = 0\<rparr>"

lemma two_sessions_ok: "fb_ok two_sessions"
  by (simp add: two_sessions_def fb_ok_def sb_ok_def)

lemma append_never_evicts_other_session_witness:
  "fb_ok two_sessions \<and> ''a'' \<noteq> ''c'' \<and> fst (Append 5 6 ''c'' ''x'' two_sessions) \<and>
   map_of (fb_sessions (snd (Append 5 6 ''c'' ''x'' two_sessions))) ''a'' \<noteq> None"
proof -
  have clean: "fb_maybeCleanupLocked 5 two_sessions = two_sessions"
    by (simp add: fb_maybeCleanupLocked_def fb_cleanupInterval_def two_sessions_def Let_def)
  from append_never_evicts_other_session [OF two_sessions_ok, of "''a''" "''c''" 5 6 "''x''"]
  show ?thesis using two_sessions_ok unfolding clean by (simp add: two_sessions_def)
qed

text \<open>
  Appending keeps the newest bytes: a successful append leaves the session with a suffix of its
  earlier bytes followed by the payload, within the byte cap, holding at least the payload's last
  \<^verbatim>\<open>maxBytes\<close> bytes, and with nothing dropped at all when everything fits.
\<close>

lemma append_keeps_newest_bytes:
  assumes ok: "fb_ok fb" and app: "Append t1 t2 key payload fb = (False, fb')"
  defines "old \<equiv> data_of (session_of (fb_maybeCleanupLocked t1 fb) key)"
  shows "\<exists>gone. old @ payload = gone @ data_of (session_of fb' key) \<and>
    int (length (data_of (session_of fb' key))) \<le> fb_maxBytes fb' \<and>
    min (fb_maxBytes fb') (int (length payload)) \<le> int (length (data_of (session_of fb' key))) \<and>
    (int (length (old @ payload)) \<le> fb_maxBytes fb' \<longrightarrow> gone = [])"
proof -
  define fb1 where "fb1 = fb_maybeCleanupLocked t1 fb"
  define new where "new = session_of fb1 key @ [\<lparr>frag_data = payload, frag_at = t2\<rparr>]"
  define sb where "sb = \<lparr>sb_fragments = new, sb_totalBytes = int (length (data_of new))\<rparr>"
  define mx where "mx = fb_maxBytes fb1"
  have new: "data_of new = old @ payload" "frag_data (last new) = payload" "new \<noteq> []"
    by (simp_all add: new_def old_def fb1_def)
  have mx: "0 \<le> mx"
    using fb_ok_maybeCleanupLocked [OF ok, of t1] by (simp add: fb_ok_def mx_def fb1_def)
  have fb': "fb' = fb1\<lparr>fb_sessions := AList.update key (enforce_cap mx sb) (fb_sessions fb1)\<rparr>"
    unfolding sb_def new_def mx_def fb1_def by (rule Append_session [OF ok app])
  then have s: "session_of fb' key = sb_fragments (enforce_cap mx sb)" "fb_maxBytes fb' = mx"
    by (simp_all add: session_of_def map_of_update mx_def)
  have sb: "sb_fragments sb = new" "sb_totalBytes sb = int (length (data_of new))"
    by (simp_all add: sb_def)
  note spec = enforce_cap_spec [of sb mx, unfolded sb, OF new(3) refl mx, unfolded new]
  then obtain gone where g: "old @ payload = gone @ data_of (sb_fragments (enforce_cap mx sb))" by blast
  have "gone = []" if "int (length (old @ payload)) \<le> mx"
  proof -
    have "sb_fragments (enforce_cap mx sb) = new"
      using enforce_cap_fits [of sb mx] that by (simp add: sb new(1))
    then have "old @ payload = gone @ (old @ payload)" using g by (simp only: new(1))
    then show ?thesis by (metis append_self_conv2)
  qed
  moreover have "int (length (data_of (sb_fragments (enforce_cap mx sb)))) \<le> mx"
    "min mx (int (length payload)) \<le> int (length (data_of (sb_fragments (enforce_cap mx sb))))"
    using spec by (simp_all add: sb_ok_def)
  ultimately show ?thesis using g unfolding s by blast
qed

lemma append_keeps_newest_bytes_witness:
  "fb_ok two_sessions \<and>
   (\<exists>fb'. Append 5 6 ''a'' ''12345678'' two_sessions = (False, fb') \<and>
     (\<exists>gone. ''sk-12345678'' = gone @ data_of (session_of fb' ''a'')))"
proof -
  have clean: "fb_maybeCleanupLocked 5 two_sessions = two_sessions"
    by (simp add: fb_maybeCleanupLocked_def fb_cleanupInterval_def two_sessions_def Let_def)
  have old: "data_of (session_of two_sessions ''a'') = ''sk-''"
    by (simp add: session_of_def two_sessions_def)
  have app: "Append 5 6 ''a'' ''12345678'' two_sessions =
      (False, snd (Append 5 6 ''a'' ''12345678'' two_sessions))"
    using clean by (simp add: Append_def Let_def) (simp add: two_sessions_def)
  from append_keeps_newest_bytes [OF two_sessions_ok app] app two_sessions_ok show ?thesis
    unfolding clean old by (metis append_Cons append_Nil)
qed

text \<open>
  A scan reports exactly the cross-request secrets: a pattern is reported when the session has at
  least two in-window fragments, the pattern matches their concatenation, and it matches inside no
  single in-window fragment (which body scanning already covers).
\<close>

theorem scan_reports_cross_request_secrets:
  fixes t2 :: go_time
  assumes "map_of (fb_sessions (fb_maybeCleanupLocked t1 fb)) key = Some sb"
    and clean_means_none: "\<And>s. dlp_clean (sc s) \<Longrightarrow> dlp_matches (sc s) = []"
  defines "clean \<equiv> fb_maybeCleanupLocked t1 fb"
  defines "active \<equiv> filter (\<lambda>f. fb_cutoff clean t2 \<le> frag_at f) (sb_fragments sb)"
  shows "p \<in> set (fst (ScanForSecrets t1 t2 t3 key sc fb)) \<longleftrightarrow>
    2 \<le> length active \<and> p \<in> set (dlp_matches (sc (concatenateFragments clean t3 sb))) \<and>
    (\<forall>f \<in> set active. frag_data f \<noteq> [] \<longrightarrow>
       p \<notin> set (dlp_matches (sc (frag_data f))) \<and> p \<notin> set (dlp_informational (sc (frag_data f))))"
  using assms clean_means_none [of "concatenateFragments clean t3 sb"]
  by (auto simp: ScanForSecrets_def minFragmentsForMatch_def Let_def not_less)

definition split_key_scanner :: "string \<Rightarrow> dlp_result" where
  "split_key_scanner s = \<lparr>dlp_clean = \<not> str_contains s ''sk-42'',
     dlp_matches = (if str_contains s ''sk-42'' then [''key''] else []), dlp_informational = []\<rparr>"

definition split_session :: fragment_buffer where
  "split_session = two_sessions\<lparr>fb_sessions := [(''a'',
     \<lparr>sb_fragments = [\<lparr>frag_data = ''sk-'', frag_at = 1\<rparr>, \<lparr>frag_data = ''42'', frag_at = 6\<rparr>],
      sb_totalBytes = 5\<rparr>)]\<rparr>"

theorem scan_reports_cross_request_secrets_witness:
  "''key'' \<in> set (fst (ScanForSecrets 7 8 9 ''a'' split_key_scanner split_session))"
proof -
  have sc: "\<And>s. dlp_clean (split_key_scanner s) \<Longrightarrow> dlp_matches (split_key_scanner s) = []"
    by (simp add: split_key_scanner_def)
  have clean: "fb_maybeCleanupLocked 7 split_session = split_session"
    by (simp add: fb_maybeCleanupLocked_def fb_cleanupInterval_def split_session_def two_sessions_def Let_def)
  obtain sb where s: "map_of (fb_sessions (fb_maybeCleanupLocked 7 split_session)) ''a'' = Some sb"
    and sb: "sb_fragments sb = [\<lparr>frag_data = ''sk-'', frag_at = 1\<rparr>, \<lparr>frag_data = ''42'', frag_at = 6\<rparr>]"
    unfolding clean by (simp add: split_session_def)
  show ?thesis
    by (subst scan_reports_cross_request_secrets [OF s sc])
      (simp_all add: clean sb fb_cutoff_def concatenateFragments_def split_key_scanner_def,
       simp_all add: split_session_def two_sessions_def)
qed

end
