(* ===== verification/ToolClassify.thy ===== *)
theory ToolClassify
  imports Prelude
begin

text \<open>
  \<^verbatim>\<open>internal/mcp/chains/classify.go\<close>: the two labels of a tool call, its category and its
  sensitivity. Configuration maps are functions from a label to its pattern list. \<^verbatim>\<open>filepath.Match\<close>
  and the two compiled regular expressions are the fields of an environment argument. Lower-casing is
  that of ASCII tool names.
\<close>

record matchers =
  filepath_Match :: "string \<Rightarrow> string \<Rightarrow> bool"
  persistArgPattern :: "string \<Rightarrow> bool"
  persistWritePathPattern :: "string \<Rightarrow> bool"

record chain_pattern_config =
  cp_name :: string
  cp_sequence :: "string list"
  cp_severity :: string
  cp_action :: string

record tool_chain_config =
  tc_enabled :: bool
  tc_action :: string
  tc_windowSize :: int
  tc_windowSeconds :: int
  tc_maxGap :: "int option"
  tc_toolCategories :: "(string \<times> string list) list"
  tc_patternOverrides :: "string \<rightharpoonup> string"
  tc_customPatterns :: "chain_pattern_config list"
  tc_sensitivityLabels :: "(string \<times> string list) list"

definition categoryUnknown :: string where
  "categoryUnknown = ''unknown''"

definition categoryPersist :: string where
  "categoryPersist = ''persist''"

definition categoryKeywords :: "string \<Rightarrow> string list" where
  "categoryKeywords c =
     (if c = ''read'' then [''read'', ''get'', ''view'', ''cat'', ''head'', ''tail'', ''open'', ''load'', ''retrieve'', ''access'']
      else if c = ''write'' then [''write'', ''create'', ''save'', ''update'', ''edit'', ''modify'', ''put'', ''append'', ''insert'']
      else if c = ''exec'' then [''shell'', ''bash'', ''run'', ''execute'', ''cmd'', ''spawn'', ''eval'', ''sh'', ''zsh'', ''powershell'']
      else if c = ''network'' then [''fetch'', ''curl'', ''wget'', ''http'', ''request'', ''send'', ''post'', ''upload'', ''download'', ''api'']
      else if c = ''list'' then [''list'', ''ls'', ''dir'', ''find'', ''glob'', ''search'', ''scan'', ''enumerate'', ''walk'']
      else if c = ''env'' then [''env'', ''environ'', ''getenv'', ''secret'', ''credential'', ''config'', ''token'', ''key'', ''password'']
      else if c = categoryPersist then [''crontab'', ''cron'', ''systemctl'', ''systemd'', ''launchd'', ''launchctl'', ''autostart'']
      else [])"

definition categoryPriority :: "string list" where
  "categoryPriority = [''exec'', categoryPersist, ''env'', ''network'', ''write'', ''read'', ''list'']"

section \<open>Overrides\<close>

definition labels_of :: "(string \<times> string list) list \<Rightarrow> string \<Rightarrow> string list" where
  "labels_of m l = (case map_of m l of None \<Rightarrow> [] | Some ps \<Rightarrow> ps)"

fun first_label :: "(string \<Rightarrow> bool) \<Rightarrow> string list \<Rightarrow> (string \<times> string list) list \<Rightarrow> string option" where
  "first_label p [] m = None"
| "first_label p (l # ls) m = (if list_ex p (labels_of m l) then Some l else first_label p ls m)"

text \<open>The exact pass over every label comes before the glob pass; the empty string means no override.\<close>

definition matchOverrideWithPriority ::
  "matchers \<Rightarrow> string \<Rightarrow> string list \<Rightarrow> (string \<times> string list) list \<Rightarrow> string" where
  "matchOverrideWithPriority e toolName priority labels =
     (if length labels = 0 then []
      else (case first_label (\<lambda>pat. pat = toolName) priority labels of
          Some l \<Rightarrow> l
        | None \<Rightarrow>
            (case first_label (\<lambda>pat. filepath_Match e pat toolName) priority labels of
               Some l \<Rightarrow> l
             | None \<Rightarrow> [])))"

definition classifyByOverride :: "matchers \<Rightarrow> string \<Rightarrow> (string \<times> string list) list \<Rightarrow> string" where
  "classifyByOverride e toolName categories =
     matchOverrideWithPriority e toolName categoryPriority categories"

section \<open>Categories\<close>

definition is_delim :: "char \<Rightarrow> bool" where
  "is_delim c \<longleftrightarrow> c \<in> set ''_-.''"

text \<open>\<^verbatim>\<open>strings.ReplaceAll(name, "__", "_")\<close> and \<^verbatim>\<open>strings.FieldsFunc\<close>.\<close>

fun replace_dunder :: "string \<Rightarrow> string" where
  "replace_dunder (x # y # xs) =
     (if x = CHR ''_'' \<and> y = CHR ''_'' then CHR ''_'' # replace_dunder xs else x # replace_dunder (y # xs))"
| "replace_dunder xs = xs"

fun fields_func :: "(char \<Rightarrow> bool) \<Rightarrow> string \<Rightarrow> string \<Rightarrow> string list" where
  "fields_func p cur [] = (if cur = [] then [] else [cur])"
| "fields_func p cur (x # xs) =
     (if p x then (if cur = [] then fields_func p [] xs else cur # fields_func p [] xs)
      else fields_func p (cur @ [x]) xs)"

definition splitToolName :: "string \<Rightarrow> string list" where
  "splitToolName name = fields_func is_delim [] (replace_dunder name)"

definition readIndicatorSegments :: "string list" where
  "readIndicatorSegments = [''status'', ''list'', ''show'', ''info'', ''describe'', ''get'', ''view'', ''check'',
     ''inspect'', ''cat'', ''log'', ''logs'', ''read'', ''query'', ''monitor'']"

fun hasReadIndicator :: "string list \<Rightarrow> bool" where
  "hasReadIndicator [] = False"
| "hasReadIndicator (seg # segs) =
     (if to_lower seg \<in> set readIndicatorSegments then True else hasReadIndicator segs)"

text \<open>
  The two inner loops for one category over all segments: a keyword hit returns the category, except
  that a hit for persist on a name with a read indicator breaks out of the keyword loop and goes on.
\<close>

fun category_hit :: "string \<Rightarrow> string list \<Rightarrow> string list \<Rightarrow> bool" where
  "category_hit c segs [] = False"
| "category_hit c segs (seg # rest) =
     (if to_lower seg \<in> set (categoryKeywords c) then
        (if c = categoryPersist \<and> hasReadIndicator segs then category_hit c segs rest else True)
      else category_hit c segs rest)"

fun match_categories :: "string list \<Rightarrow> string list \<Rightarrow> string" where
  "match_categories segs [] = categoryUnknown"
| "match_categories segs (c # cs) = (if category_hit c segs segs then c else match_categories segs cs)"

definition matchByPriority :: "string list \<Rightarrow> string" where
  "matchByPriority segs = match_categories segs categoryPriority"

definition classifyTool :: "matchers \<Rightarrow> string \<Rightarrow> tool_chain_config \<Rightarrow> string" where
  "classifyTool e toolName cfg =
     (if toolName = [] then categoryUnknown
      else
        let cat = classifyByOverride e toolName (tc_toolCategories cfg) in
        if cat \<noteq> [] then cat else matchByPriority (splitToolName toolName))"

definition reclassifyByArgs :: "matchers \<Rightarrow> string \<Rightarrow> string \<Rightarrow> string" where
  "reclassifyByArgs e category argHint =
     (if argHint = [] then category
      else if category = ''exec'' then
        (if persistArgPattern e argHint then categoryPersist else category)
      else if category = ''write'' then
        (if persistWritePathPattern e argHint then categoryPersist else category)
      else category)"

definition empty_config :: tool_chain_config where
  "empty_config = \<lparr>tc_enabled = False, tc_action = [], tc_windowSize = 0, tc_windowSeconds = 0,
     tc_maxGap = None, tc_toolCategories = [], tc_patternOverrides = Map.empty,
     tc_customPatterns = [], tc_sensitivityLabels = []\<rparr>"

definition ClassifyTool :: "matchers \<Rightarrow> string \<Rightarrow> string \<Rightarrow> tool_chain_config option \<Rightarrow> string" where
  "ClassifyTool e toolName argHint cfg =
     reclassifyByArgs e (classifyTool e toolName (case cfg of None \<Rightarrow> empty_config | Some c \<Rightarrow> c)) argHint"

section \<open>Sensitivity\<close>

definition SensitivityUntrustedSource :: string where
  "SensitivityUntrustedSource = ''untrusted_source''"

definition SensitivitySensitiveSource :: string where
  "SensitivitySensitiveSource = ''sensitive_source''"

definition SensitivityExternalSink :: string where
  "SensitivityExternalSink = ''external_sink''"

definition SensitivityNeutral :: string where
  "SensitivityNeutral = ''neutral''"

lemmas sensitivity_defs = SensitivityUntrustedSource_def SensitivitySensitiveSource_def
  SensitivityExternalSink_def SensitivityNeutral_def

definition sensitivityKeywords :: "string \<Rightarrow> string list" where
  "sensitivityKeywords l =
     (if l = SensitivityUntrustedSource then
        [''issue'', ''issues'', ''comment'', ''comments'', ''review'', ''reviews'', ''webpage'', ''scrape'', ''browse'',
         ''chat'', ''chats'', ''message'', ''messages'', ''messaging'', ''dm'', ''dms'', ''email'', ''emails'', ''inbox'',
         ''ticket'', ''tickets'', ''feedback'', ''public'', ''external'', ''rss'', ''feed'', ''feeds'']
      else if l = SensitivitySensitiveSource then
        [''secret'', ''secrets'', ''credential'', ''credentials'', ''token'', ''tokens'', ''password'', ''passwords'',
         ''private'', ''ssh'', ''vault'', ''env'', ''environ'', ''getenv'', ''profile'', ''billing'', ''payroll'',
         ''salary'', ''wage'', ''phi'', ''pii'', ''patient'', ''ssn'']
      else if l = SensitivityExternalSink then
        [''send'', ''post'', ''publish'', ''upload'', ''share'', ''webhook'', ''notify'', ''alert'', ''tweet'',
         ''broadcast'', ''announce'']
      else [])"

definition sensitivitySubstrings :: "string \<Rightarrow> string list" where
  "sensitivitySubstrings l =
     (if l = SensitivityUntrustedSource then [''pull_request_review'', ''issue_comment'', ''pr_comment'']
      else if l = SensitivitySensitiveSource then
        [''private_repo'', ''private_repos'', ''private_repository'', ''ssh_key'', ''ssh_id_rsa'', ''api_key'',
         ''chat_history'', ''message_history'', ''conversation_history'']
      else if l = SensitivityExternalSink then
        [''pull_request'', ''create_pull'', ''create_issue'', ''create_comment'', ''post_webhook'',
         ''send_webhook'', ''share_link'', ''public_url'']
      else [])"

definition sensitivityPriority :: "string list" where
  "sensitivityPriority = [SensitivityExternalSink, SensitivitySensitiveSource, SensitivityUntrustedSource]"

definition classifySensitivityByOverride :: "matchers \<Rightarrow> string \<Rightarrow> (string \<times> string list) list \<Rightarrow> string" where
  "classifySensitivityByOverride e toolName labels =
     matchOverrideWithPriority e toolName sensitivityPriority labels"

fun match_labels :: "(string \<Rightarrow> bool) \<Rightarrow> string list \<Rightarrow> string" where
  "match_labels hit [] = SensitivityNeutral"
| "match_labels hit (l # ls) = (if hit l then l else match_labels hit ls)"

definition matchSensitivityByPriority :: "string list \<Rightarrow> string" where
  "matchSensitivityByPriority segs =
     match_labels (\<lambda>l. list_ex (\<lambda>seg. to_lower seg \<in> set (sensitivityKeywords l)) segs) sensitivityPriority"

definition ClassifySensitivity :: "matchers \<Rightarrow> string \<Rightarrow> string \<Rightarrow> tool_chain_config option \<Rightarrow> string" where
  "ClassifySensitivity e toolName argHint cfg0 =
     (if toolName = [] then SensitivityNeutral
      else
        let cfg = (case cfg0 of None \<Rightarrow> empty_config | Some c \<Rightarrow> c);
            lbl = classifySensitivityByOverride e toolName (tc_sensitivityLabels cfg) in
        if lbl \<noteq> [] then lbl
        else
          let segments = splitToolName toolName; lbl2 = matchSensitivityByPriority segments in
          if lbl2 \<noteq> SensitivityNeutral then lbl2
          else
            let lower = to_lower (join_with (CHR ''_'') (splitToolName toolName)) in
            match_labels (\<lambda>l. list_ex (\<lambda>needle. str_contains lower needle) (sensitivitySubstrings l))
              sensitivityPriority)"

section \<open>Priority\<close>

lemma hasReadIndicator_iff: "hasReadIndicator segs \<longleftrightarrow> (\<exists>s \<in> set segs. to_lower s \<in> set readIndicatorSegments)"
  by (induction segs) auto

lemma category_hit_iff:
  "category_hit c segs rest \<longleftrightarrow> \<not> (c = categoryPersist \<and> hasReadIndicator segs) \<and>
    (\<exists>s \<in> set rest. to_lower s \<in> set (categoryKeywords c))"
  by (induction rest) auto

lemma match_categories_eq:
  "match_categories segs cs = (case find (\<lambda>c. category_hit c segs segs) cs of
     None \<Rightarrow> categoryUnknown | Some c \<Rightarrow> c)"
  by (induction cs) auto

lemma find_split: "find P xs = Some x \<Longrightarrow> \<exists>as bs. xs = as @ x # bs \<and> P x \<and> (\<forall>a \<in> set as. \<not> P a)"
proof (induction xs)
  case (Cons y ys)
  show ?case
  proof (cases "P y")
    case True
    with Cons.prems have "y # ys = [] @ x # ys \<and> P x" by simp
    then show ?thesis by fastforce
  next
    case False
    with Cons obtain as bs where "ys = as @ x # bs" "P x" "\<forall>a \<in> set as. \<not> P a" by auto
    with False have "y # ys = (y # as) @ x # bs \<and> P x \<and> (\<forall>a \<in> set (y # as). \<not> P a)" by simp
    then show ?thesis by blast
  qed
qed simp

definition keyword_hit :: "string \<Rightarrow> string list \<Rightarrow> bool" where
  "keyword_hit c segs \<longleftrightarrow> (\<exists>s \<in> set segs. to_lower s \<in> set (categoryKeywords c)) \<and>
     \<not> (c = categoryPersist \<and> (\<exists>s \<in> set segs. to_lower s \<in> set readIndicatorSegments))"

text \<open>
  Keyword classification follows the documented priority: a tool gets a category exactly when one
  of its name segments is a keyword of that category and no category before it in
  exec, persist, env, network, write, read, list has a hit, where a persist hit does not count for a
  name with a read-only segment; a tool with no hit at all is unknown.
\<close>

lemma classification_by_priority:
  "(matchByPriority segs = c \<and> c \<noteq> categoryUnknown \<longleftrightarrow>
     (\<exists>as bs. categoryPriority = as @ c # bs \<and> keyword_hit c segs \<and> (\<forall>a \<in> set as. \<not> keyword_hit a segs))) \<and>
   (matchByPriority segs = categoryUnknown \<longleftrightarrow> (\<forall>a \<in> set categoryPriority. \<not> keyword_hit a segs))"
proof -
  have hit: "category_hit a segs segs = keyword_hit a segs" for a
    by (auto simp: category_hit_iff keyword_hit_def hasReadIndicator_iff)
  have unk: "categoryUnknown \<notin> set categoryPriority" "distinct categoryPriority"
    by (simp_all add: categoryUnknown_def categoryPriority_def categoryPersist_def)
  let ?f = "find (\<lambda>a. keyword_hit a segs) categoryPriority"
  have m: "matchByPriority segs = (case ?f of None \<Rightarrow> categoryUnknown | Some a \<Rightarrow> a)"
    by (simp add: matchByPriority_def match_categories_eq hit)
  have some: "?f = Some a \<longleftrightarrow>
      (\<exists>as bs. categoryPriority = as @ a # bs \<and> keyword_hit a segs \<and> (\<forall>x \<in> set as. \<not> keyword_hit x segs))" for a
  proof
    assume "\<exists>as bs. categoryPriority = as @ a # bs \<and> keyword_hit a segs \<and> (\<forall>x \<in> set as. \<not> keyword_hit x segs)"
    then obtain as bs where *: "categoryPriority = as @ a # bs" "keyword_hit a segs"
      "\<forall>x \<in> set as. \<not> keyword_hit x segs" by blast
    have "find P (as @ a # bs) = Some a" if "P a" "\<forall>x \<in> set as. \<not> P x" for P
      using that by (induction as) auto
    with * show "?f = Some a" by simp
  qed (use find_split in fastforce)
  have none: "?f = None \<longleftrightarrow> (\<forall>a \<in> set categoryPriority. \<not> keyword_hit a segs)"
    by (auto simp: find_None_iff)
  have pri: "?f = Some a \<Longrightarrow> a \<in> set categoryPriority" for a
    by (auto simp: find_Some_iff)
  show ?thesis
  proof (cases ?f)
    case None
    with m none some [of c] show ?thesis by auto
  next
    case (Some a)
    with pri unk have "a \<noteq> categoryUnknown" by blast
    with Some m none some [of c] show ?thesis by auto
  qed
qed

lemma classification_by_priority_witness:
  "keyword_hit ''exec'' [''run'', ''shell''] \<and> matchByPriority [''run'', ''shell''] = ''exec''"
proof -
  have hit: "keyword_hit ''exec'' [''run'', ''shell'']" by code_simp
  have "\<exists>as bs. categoryPriority = as @ ''exec'' # bs \<and> keyword_hit ''exec'' [''run'', ''shell''] \<and>
     (\<forall>a \<in> set as. \<not> keyword_hit a [''run'', ''shell''])"
    by (rule exI [of _ "[]"]) (simp add: hit categoryPriority_def)
  with classification_by_priority [of "[''run'', ''shell'']" "''exec''"] hit show ?thesis by blast
qed

end
