(* ===== verification/ChainMatcher.thy ===== *)
theory ChainMatcher
  imports ToolClassify Interfaces
begin

text \<open>
  \<^verbatim>\<open>internal/mcp/chains/matcher.go\<close>: per-session tool-call histories matched against attack-chain
  patterns. The matcher's \<^verbatim>\<open>sync.Map\<close> is an association list with distinct keys next to its counter,
  the metrics recorder is the list of detections it was told of. The counter and the map are modelled
  under one caller at a time.
\<close>

definition maxTrackedSessions :: int where
  "maxTrackedSessions = 4096"

definition maxSessionKeyBytes :: nat where
  "maxSessionKeyBytes = 256"

record verdict =
  v_matched :: bool
  v_patternName :: string
  v_severity :: string
  v_action :: string

definition no_verdict :: verdict where
  "no_verdict = \<lparr>v_matched = False, v_patternName = [], v_severity = [], v_action = []\<rparr>"

record pattern =
  pat_name :: string
  pat_sequence :: "string list"
  pat_severity :: string
  pat_action :: string

record toolCallRecord =
  tr_category :: string
  tr_name :: string
  tr_sensitivity :: string
  tr_timestamp :: go_time

type_synonym sessionHistory = "toolCallRecord list"

record matcher =
  m_cfg :: tool_chain_config
  m_patterns :: "pattern list"
  m_sessions :: "(string \<times> sessionHistory) list"
  m_metrics :: "(string \<times> string \<times> string) list option"
  m_sessionCount :: int

section \<open>Patterns\<close>

definition mk_pattern :: "string \<Rightarrow> string list \<Rightarrow> string \<Rightarrow> string \<Rightarrow> pattern" where
  "mk_pattern n s sev a = \<lparr>pat_name = n, pat_sequence = s, pat_severity = sev, pat_action = a\<rparr>"

definition builtInPatterns :: "pattern list" where
  "builtInPatterns =
     [mk_pattern ''read-then-exec'' [''read'', ''exec''] ''high'' ''warn'',
      mk_pattern ''read-write-send'' [''read'', ''write'', ''network''] ''critical'' ''warn'',
      mk_pattern ''env-then-network'' [''env'', ''network''] ''critical'' ''warn'',
      mk_pattern ''directory-scan'' [''list'', ''list'', ''read''] ''medium'' ''warn'',
      mk_pattern ''write-execute'' [''write'', ''exec''] ''high'' ''warn'',
      mk_pattern ''write-chmod-execute'' [''write'', ''exec'', ''exec''] ''critical'' ''warn'',
      mk_pattern ''read-sensitive-write'' [''read'', ''write''] ''medium'' ''warn'',
      mk_pattern ''shell-burst'' [''exec'', ''exec'', ''exec'', ''exec''] ''high'' ''warn'',
      mk_pattern ''write-persist'' [''write'', ''persist''] ''critical'' ''warn'',
      mk_pattern ''persist-callback'' [''persist'', ''network''] ''critical'' ''warn'']"

definition lethalTrifectaName :: string where
  "lethalTrifectaName = ''lethal-trifecta''"

definition lethalTrifectaSequence :: "string list" where
  "lethalTrifectaSequence =
     [SensitivityUntrustedSource, SensitivitySensitiveSource, SensitivityExternalSink]"

definition severityRank :: "string \<Rightarrow> nat" where
  "severityRank s = (if s = ''medium'' then 1 else if s = ''high'' then 2 else if s = ''critical'' then 3 else 0)"

definition actionRank :: "string \<Rightarrow> nat" where
  "actionRank a = (if a = ''warn'' then 1 else if a = ''block'' then 2 else 0)"

definition override_action :: "tool_chain_config \<Rightarrow> pattern \<Rightarrow> pattern" where
  "override_action cfg p =
     (case tc_patternOverrides cfg (pat_name p) of None \<Rightarrow> p | Some a \<Rightarrow> p\<lparr>pat_action := a\<rparr>)"

definition compilePatterns :: "tool_chain_config \<Rightarrow> pattern list" where
  "compilePatterns cfg =
     (if \<not> tc_enabled cfg then []
      else map (override_action cfg) builtInPatterns @
        map (\<lambda>cp. override_action cfg
            (mk_pattern (cp_name cp) (cp_sequence cp) (cp_severity cp)
              (if cp_action cp = [] then tc_action cfg else cp_action cp)))
          (tc_customPatterns cfg))"

definition NewMatcher :: "tool_chain_config option \<Rightarrow> matcher" where
  "NewMatcher cfg0 =
     (let cfg = (case cfg0 of None \<Rightarrow> empty_config | Some c \<Rightarrow> c) in
      \<lparr>m_cfg = cfg, m_patterns = compilePatterns cfg, m_sessions = [], m_metrics = None, m_sessionCount = 0\<rparr>)"

definition Reconfigure :: "tool_chain_config option \<Rightarrow> matcher \<Rightarrow> matcher" where
  "Reconfigure cfg0 m =
     (let cfg = (case cfg0 of None \<Rightarrow> empty_config | Some c \<Rightarrow> c) in
      m\<lparr>m_cfg := cfg, m_patterns := compilePatterns cfg\<rparr>)"

definition WithMetrics :: "matcher \<Rightarrow> matcher" where
  "WithMetrics m = m\<lparr>m_metrics := Some []\<rparr>"

section \<open>Subsequence matching\<close>

datatype axis = axisCategory | axisSensitivity

fun recordField :: "toolCallRecord \<Rightarrow> axis \<Rightarrow> string" where
  "recordField r axisSensitivity = tr_sensitivity r"
| "recordField r axisCategory = tr_category r"

text \<open>
  The loop of \<^verbatim>\<open>matchFromPositionOnAxis\<close> after the first step: the fields still to read, the steps
  still to match and the gap so far.
\<close>

fun match_rest :: "int \<Rightarrow> string list \<Rightarrow> string list \<Rightarrow> int \<Rightarrow> bool" where
  "match_rest maxGap fs [] gap = True"
| "match_rest maxGap [] (s # ss) gap = False"
| "match_rest maxGap (f # fs) (s # ss) gap =
     (if f = s then match_rest maxGap fs ss 0
      else if gap + 1 > maxGap then False
      else match_rest maxGap fs (s # ss) (gap + 1))"

definition matchFromPositionOnAxis :: "toolCallRecord list \<Rightarrow> string list \<Rightarrow> nat \<Rightarrow> int \<Rightarrow> axis \<Rightarrow> bool" where
  "matchFromPositionOnAxis records sequence startIdx maxGap a =
     match_rest maxGap (map (\<lambda>r. recordField r a) (drop (Suc startIdx) records)) (tl sequence) 0"

definition subsequenceMatchOnAxis :: "toolCallRecord list \<Rightarrow> string list \<Rightarrow> int \<Rightarrow> axis \<Rightarrow> bool" where
  "subsequenceMatchOnAxis records sequence maxGap a =
     (if length sequence = 0 \<or> length records = 0 then False
      else list_ex (\<lambda>startIdx. recordField (records ! startIdx) a = hd sequence \<and>
             matchFromPositionOnAxis records sequence startIdx maxGap a) [0..<length records])"

definition subsequenceMatch :: "toolCallRecord list \<Rightarrow> string list \<Rightarrow> int \<Rightarrow> bool" where
  "subsequenceMatch records sequence maxGap = subsequenceMatchOnAxis records sequence maxGap axisCategory"

definition sensitivitySubsequenceMatch :: "toolCallRecord list \<Rightarrow> string list \<Rightarrow> int \<Rightarrow> bool" where
  "sensitivitySubsequenceMatch records sequence maxGap =
     subsequenceMatchOnAxis records sequence maxGap axisSensitivity"

section \<open>Verdicts\<close>

definition isBetterMatch :: "pattern \<Rightarrow> verdict \<Rightarrow> bool" where
  "isBetterMatch p best =
     (let ps = severityRank (pat_severity p); bs = severityRank (v_severity best) in
      if ps \<noteq> bs then ps > bs else actionRank (pat_action p) > actionRank (v_action best))"

definition verdict_of :: "pattern \<Rightarrow> verdict" where
  "verdict_of p = \<lparr>v_matched = True, v_patternName = pat_name p, v_severity = pat_severity p,
     v_action = pat_action p\<rparr>"

definition consider_pattern :: "verdict \<Rightarrow> pattern \<Rightarrow> verdict" where
  "consider_pattern best p =
     (if \<not> v_matched best \<or> isBetterMatch p best then verdict_of p else best)"

definition DefaultMaxGap :: int where
  "DefaultMaxGap = 3"

definition trifecta_pattern :: "tool_chain_config \<Rightarrow> pattern" where
  "trifecta_pattern cfg =
     (let a0 = (if tc_action cfg = [] then ''warn'' else tc_action cfg);
          a1 = (case tc_patternOverrides cfg lethalTrifectaName of None \<Rightarrow> a0 | Some a \<Rightarrow> a) in
      mk_pattern lethalTrifectaName lethalTrifectaSequence ''critical'' a1)"

definition matchPatterns :: "toolCallRecord list \<Rightarrow> tool_chain_config \<Rightarrow> pattern list \<Rightarrow> verdict" where
  "matchPatterns records cfg patterns =
     (let maxGap = (case tc_maxGap cfg of None \<Rightarrow> DefaultMaxGap | Some g \<Rightarrow> g);
          best = foldl (\<lambda>best p. if subsequenceMatch records (pat_sequence p) maxGap
                   then consider_pattern best p else best) no_verdict patterns in
      if sensitivitySubsequenceMatch records lethalTrifectaSequence maxGap
      then consider_pattern best (trifecta_pattern cfg) else best)"

section \<open>Recording\<close>

definition chain_cutoff :: "tool_chain_config \<Rightarrow> go_time \<Rightarrow> go_time" where
  "chain_cutoff cfg now = now - wrap64 (tc_windowSeconds cfg * second_ns)"

text \<open>Time-based eviction drops the records before the first valid one, then the count bound applies.\<close>

definition evict :: "toolCallRecord list \<Rightarrow> go_time \<Rightarrow> tool_chain_config \<Rightarrow> toolCallRecord list" where
  "evict records now cfg =
     (let valid = dropWhile (\<lambda>r. tr_timestamp r < chain_cutoff cfg now) records in
      if int (length valid) > tc_windowSize cfg
      then drop (nat (int (length valid) - tc_windowSize cfg)) valid else valid)"

definition pruneExpiredSessionsWithConfig :: "go_time \<Rightarrow> tool_chain_config \<Rightarrow> matcher \<Rightarrow> matcher" where
  "pruneExpiredSessionsWithConfig now cfg m =
     (let kept = filter (\<lambda>(k, rs). \<not> (length rs > 0 \<and> tr_timestamp (last rs) < chain_cutoff cfg now))
                   (m_sessions m) in
      m\<lparr>m_sessions := kept,
        m_sessionCount := m_sessionCount m - int (length (m_sessions m) - length kept)\<rparr>)"

definition resourceLimitVerdict :: "string \<Rightarrow> verdict" where
  "resourceLimitVerdict p = \<lparr>v_matched = True, v_patternName = p, v_severity = ''critical'', v_action = ''block''\<rparr>"

definition note_metrics :: "verdict \<Rightarrow> matcher \<Rightarrow> matcher" where
  "note_metrics v m = (case m_metrics m of None \<Rightarrow> m
     | Some ds \<Rightarrow> m\<lparr>m_metrics := Some (ds @ [(v_patternName v, v_severity v, v_action v)])\<rparr>)"

definition recordResourceLimit :: "string \<Rightarrow> matcher \<Rightarrow> verdict \<times> matcher" where
  "recordResourceLimit p m = (let v = resourceLimitVerdict p in (v, note_metrics v m))"

definition delete_session :: "string \<Rightarrow> matcher \<Rightarrow> matcher" where
  "delete_session key m =
     (if map_of (m_sessions m) key = None then m
      else m\<lparr>m_sessions := AList.delete key (m_sessions m), m_sessionCount := m_sessionCount m - 1\<rparr>)"

definition ClearSession :: "string \<Rightarrow> matcher \<Rightarrow> matcher" where
  "ClearSession key m = delete_session key m"

text \<open>
  \<^verbatim>\<open>Record\<close>: \<open>args\<close> is the optional argument hint; \<open>t1\<close> is the clock reading of the prune, \<open>t2\<close> the one
  that stamps the record. The first function is the part up to the session lookup.
\<close>

definition classify_call :: "matchers \<Rightarrow> matcher \<Rightarrow> string \<Rightarrow> string option \<Rightarrow> string \<times> string" where
  "classify_call e m toolName args =
     (let c0 = classifyTool e toolName (m_cfg m);
          category = (case args of None \<Rightarrow> c0 | Some h \<Rightarrow> reclassifyByArgs e c0 h);
          hint = (case args of None \<Rightarrow> [] | Some h \<Rightarrow> h) in
      (category, ClassifySensitivity e toolName hint (Some (m_cfg m))))"

definition admit_session :: "go_time \<Rightarrow> string \<Rightarrow> matcher \<Rightarrow> bool \<times> matcher" where
  "admit_session t1 key m =
     (if map_of (m_sessions m) key \<noteq> None then (True, m)
      else
        let m1 = m\<lparr>m_sessions := AList.update key [] (m_sessions m), m_sessionCount := m_sessionCount m + 1\<rparr>;
            count = m_sessionCount m1;
            m2 = (if count mod 256 = 0 \<or> count > maxTrackedSessions
                  then pruneExpiredSessionsWithConfig t1 (m_cfg m) m1 else m1) in
        if m_sessionCount m2 > maxTrackedSessions then (False, delete_session key m2) else (True, m2))"

definition RecordCall ::
  "matchers \<Rightarrow> go_time \<Rightarrow> go_time \<Rightarrow> string \<Rightarrow> string \<Rightarrow> string option \<Rightarrow> matcher \<Rightarrow> verdict \<times> matcher" where
  "RecordCall e t1 t2 sessionKey toolName args m =
     (if \<not> tc_enabled (m_cfg m) \<or> length (m_patterns m) = 0 then (no_verdict, m)
      else
        let (category, sensitivity) = classify_call e m toolName args in
        if category = ''unknown'' \<and> sensitivity = SensitivityNeutral then (no_verdict, m)
        else if length sessionKey = 0 \<or> length sessionKey > maxSessionKeyBytes
        then recordResourceLimit ''session-key-invalid'' m
        else
          let (ok, m1) = admit_session t1 sessionKey m in
          if \<not> ok then recordResourceLimit ''session-capacity'' m1
          else
            let rs = (case map_of (m_sessions m1) sessionKey of None \<Rightarrow> [] | Some rs \<Rightarrow> rs);
                rec = \<lparr>tr_category = category, tr_name = toolName, tr_sensitivity = sensitivity,
                       tr_timestamp = t2\<rparr>;
                rs1 = evict (rs @ [rec]) t2 (m_cfg m1);
                v = matchPatterns rs1 (m_cfg m1) (m_patterns m1);
                m2 = m1\<lparr>m_sessions := AList.update sessionKey rs1 (m_sessions m1)\<rparr> in
            (v, if v_matched v then note_metrics v m2 else m2))"

section \<open>What a match means\<close>

text \<open>
  The documented meaning: the steps occur in order with at most \<open>maxGap\<close> other entries between
  consecutive steps. \<open>gapped maxGap g fs ss\<close> allows \<open>g\<close> entries less before the first step of \<open>ss\<close>.
\<close>

inductive gapped :: "int \<Rightarrow> int \<Rightarrow> string list \<Rightarrow> string list \<Rightarrow> bool" for maxGap where
  gapped_Nil: "gapped maxGap g fs []"
| gapped_Cons: "int (length pre) + g \<le> maxGap \<Longrightarrow> gapped maxGap 0 rest ss \<Longrightarrow>
    gapped maxGap g (pre @ s # rest) (s # ss)"

inductive_cases gapped_ConsE: "gapped maxGap g fs (s # ss)"

definition chain_occurs :: "int \<Rightarrow> string list \<Rightarrow> string list \<Rightarrow> bool" where
  "chain_occurs maxGap fs ss \<longleftrightarrow>
     (\<exists>pre rest. ss \<noteq> [] \<and> fs = pre @ hd ss # rest \<and> gapped maxGap 0 rest (tl ss))"

lemma match_rest_sound: "match_rest mg fs ss gap \<Longrightarrow> gap \<le> mg \<Longrightarrow> 0 \<le> mg \<Longrightarrow> gapped mg gap fs ss"
proof (induction mg fs ss gap rule: match_rest.induct)
  case (1 mg fs gap)
  then show ?case by (simp add: gapped_Nil)
next
  case (2 mg s ss gap)
  then show ?case by simp
next
  case (3 mg f fs s ss gap)
  show ?case
  proof (cases "f = s")
    case True
    with 3 have "gapped mg 0 fs ss" by simp
    with True "3.prems" gapped_Cons [of "[]" gap mg fs ss s] show ?thesis by simp
  next
    case False
    with "3.prems" have room: "gap + 1 \<le> mg" by (simp split: if_splits)
    with False 3 have "gapped mg (gap + 1) fs (s # ss)" by simp
    then obtain pre rest where *: "fs = pre @ s # rest" "int (length pre) + (gap + 1) \<le> mg" "gapped mg 0 rest ss"
      by (auto elim: gapped_ConsE)
    with gapped_Cons [of "f # pre" gap mg rest ss s] show ?thesis by simp
  qed
qed

lemma match_rest_single: "gapped mg gap fs [s] \<Longrightarrow> match_rest mg fs [s] gap"
proof -
  have "int (length pre) + gap \<le> mg \<Longrightarrow> match_rest mg (pre @ s # rest) [s] gap" for pre rest
    by (induction pre arbitrary: gap) auto
  then show "gapped mg gap fs [s] \<Longrightarrow> match_rest mg fs [s] gap" by (auto elim!: gapped_ConsE)
qed

lemma match_rest_contiguous: "match_rest mg (ss @ rest) ss gap"
  by (induction ss arbitrary: gap) auto

lemma subsequenceMatchOnAxis_iff:
  "subsequenceMatchOnAxis rs ss mg a \<longleftrightarrow>
    (\<exists>pre rest. ss \<noteq> [] \<and> map (\<lambda>r. recordField r a) rs = pre @ hd ss # rest \<and> match_rest mg rest (tl ss) 0)"
    (is "?l \<longleftrightarrow> ?r")
proof
  let ?fs = "map (\<lambda>r. recordField r a) rs"
  assume ?l
  then obtain i where i: "i < length rs" "ss \<noteq> []" "?fs ! i = hd ss" "match_rest mg (drop (Suc i) ?fs) (tl ss) 0"
    by (auto simp: subsequenceMatchOnAxis_def matchFromPositionOnAxis_def list_ex_iff drop_map split: if_splits)
  then have "?fs = take i ?fs @ hd ss # drop (Suc i) ?fs"
    by (metis id_take_nth_drop length_map)
  with i show ?r by metis
next
  let ?fs = "map (\<lambda>r. recordField r a) rs"
  assume ?r
  then obtain pre rest where *: "ss \<noteq> []" "?fs = pre @ hd ss # rest" "match_rest mg rest (tl ss) 0" by blast
  from *(2) have "length ?fs = length (pre @ hd ss # rest)" by simp
  then have len: "length pre < length rs" by simp
  then have "?fs ! length pre = recordField (rs ! length pre) a" by simp
  with *(2) have "recordField (rs ! length pre) a = hd ss" by (metis nth_append_length)
  moreover have "map (\<lambda>r. recordField r a) (drop (Suc (length pre)) rs) = rest"
    using *(2) by (metis append_eq_conv_conj drop_Suc_Cons drop_map length_append_singleton append_Cons append_Nil append_assoc)
  ultimately show ?l
    using * len by (auto simp: subsequenceMatchOnAxis_def matchFromPositionOnAxis_def list_ex_iff)
qed

text \<open>
  C30. Every chain the matcher reports is there: when the subsequence walker accepts, the steps occur
  in the session history in order with at most \<open>maxGap\<close> entries between consecutive steps, on the
  category axis and on the sensitivity axis alike.
\<close>

theorem chain_match_sound:
  assumes "subsequenceMatchOnAxis rs ss maxGap a" "0 \<le> maxGap"
  shows "chain_occurs maxGap (map (\<lambda>r. recordField r a) rs) ss"
  using assms match_rest_sound [of maxGap _ "tl ss" 0]
  by (auto simp: subsequenceMatchOnAxis_iff chain_occurs_def)

definition call :: "string \<Rightarrow> toolCallRecord" where
  "call c = \<lparr>tr_category = c, tr_name = c, tr_sensitivity = ''neutral'', tr_timestamp = 0\<rparr>"

theorem chain_match_sound_witness:
  "subsequenceMatchOnAxis (map call [''read'', ''list'', ''exec'']) [''read'', ''exec''] 1 axisCategory \<and>
   chain_occurs 1 [''read'', ''list'', ''exec''] [''read'', ''exec'']"
proof -
  have m: "subsequenceMatchOnAxis (map call [''read'', ''list'', ''exec'']) [''read'', ''exec''] 1 axisCategory"
    by (simp add: subsequenceMatchOnAxis_def matchFromPositionOnAxis_def call_def)
  from m chain_match_sound [OF m] show ?thesis by (simp add: call_def)
qed

text \<open>
  The matcher is exact where it has no choice: a two-step pattern is reported exactly when its
  steps occur within the gap, and a pattern of any length is reported whenever its steps occur
  directly one after the other, wherever that is in the history.
\<close>

theorem chain_match_complete:
  assumes "0 \<le> maxGap"
  shows "(subsequenceMatchOnAxis rs [s, t] maxGap a \<longleftrightarrow>
      chain_occurs maxGap (map (\<lambda>r. recordField r a) rs) [s, t]) \<and>
    (ss \<noteq> [] \<longrightarrow> map (\<lambda>r. recordField r a) rs = pre @ ss @ post \<longrightarrow> subsequenceMatchOnAxis rs ss maxGap a)"
proof
  show "subsequenceMatchOnAxis rs [s, t] maxGap a \<longleftrightarrow>
      chain_occurs maxGap (map (\<lambda>r. recordField r a) rs) [s, t]"
    using assms match_rest_sound [of maxGap _ "[t]" 0] match_rest_single [of maxGap 0 _ t]
    by (auto simp: subsequenceMatchOnAxis_iff chain_occurs_def)
next
  show "ss \<noteq> [] \<longrightarrow> map (\<lambda>r. recordField r a) rs = pre @ ss @ post \<longrightarrow> subsequenceMatchOnAxis rs ss maxGap a"
  proof (intro impI)
    assume ne: "ss \<noteq> []" and fs: "map (\<lambda>r. recordField r a) rs = pre @ ss @ post"
    then have "map (\<lambda>r. recordField r a) rs = pre @ hd ss # (tl ss @ post)" by (cases ss) auto
    with ne match_rest_contiguous [of maxGap "tl ss" post 0] show "subsequenceMatchOnAxis rs ss maxGap a"
      unfolding subsequenceMatchOnAxis_iff by blast
  qed
qed

theorem chain_match_complete_witness:
  "(0::int) \<le> 3 \<and> subsequenceMatchOnAxis (map call [''list'', ''write'', ''exec'', ''exec''])
     [''write'', ''exec'', ''exec''] 3 axisCategory"
proof -
  have "map (\<lambda>r. recordField r axisCategory) (map call [''list'', ''write'', ''exec'', ''exec'']) =
      [''list''] @ [''write'', ''exec'', ''exec''] @ []"
    by (simp add: call_def)
  with chain_match_complete [of 3 "map call [''list'', ''write'', ''exec'', ''exec'']" "[]" "[]" axisCategory
      "[''write'', ''exec'', ''exec'']" "[''list'']" "[]"]
  show ?thesis by simp
qed

text \<open>
  C31. The greedy walk is not exact for longer patterns: with the default gap of three, the history
  read, write, write, list, list, list, network contains the built-in read-write-send chain (the
  second write is within the gap of both neighbours), yet the matcher does not report it, because it
  commits to the first write and only ever retries from another first step.
\<close>

theorem greedy_walk_misses_chain:
  "chain_occurs DefaultMaxGap [''read'', ''write'', ''write'', ''list'', ''list'', ''list'', ''network'']
     [''read'', ''write'', ''network''] \<and>
   \<not> subsequenceMatch (map call [''read'', ''write'', ''write'', ''list'', ''list'', ''list'', ''network''])
     [''read'', ''write'', ''network''] DefaultMaxGap"
proof
  have "gapped 3 0 ([''list'', ''list'', ''list''] @ ''network'' # []) [''network'']"
    by (rule gapped_Cons) (simp_all add: gapped_Nil)
  then have "gapped 3 0 ([''write''] @ ''write'' # [''list'', ''list'', ''list'', ''network'']) [''write'', ''network'']"
    by (intro gapped_Cons) simp_all
  then show "chain_occurs DefaultMaxGap [''read'', ''write'', ''write'', ''list'', ''list'', ''list'', ''network'']
     [''read'', ''write'', ''network'']"
    unfolding chain_occurs_def DefaultMaxGap_def
    by (intro exI [of _ "[]"] exI [of _ "[''write'', ''write'', ''list'', ''list'', ''list'', ''network'']"]) simp
  show "\<not> subsequenceMatch (map call [''read'', ''write'', ''write'', ''list'', ''list'', ''list'', ''network''])
     [''read'', ''write'', ''network''] DefaultMaxGap"
    by (simp add: subsequenceMatch_def subsequenceMatchOnAxis_def matchFromPositionOnAxis_def call_def
        DefaultMaxGap_def upt_rec)
qed

section \<open>The strictest verdict\<close>

definition strictness :: "pattern \<Rightarrow> nat" where
  "strictness p = 3 * severityRank (pat_severity p) + actionRank (pat_action p)"

lemma actionRank_le: "actionRank a \<le> 2"
  by (simp add: actionRank_def)

lemma isBetterMatch_strictness: "isBetterMatch p (verdict_of q) \<longleftrightarrow> strictness q < strictness p"
  using actionRank_le [of "pat_action p"] actionRank_le [of "pat_action q"]
  by (auto simp: isBetterMatch_def verdict_of_def strictness_def Let_def)

interpretation pattern_choice: strictest_choice "\<lambda>p q. isBetterMatch p (verdict_of q)" strictness
  by unfold_locales (rule isBetterMatch_strictness)

definition as_verdict :: "pattern option \<Rightarrow> verdict" where
  "as_verdict p = (case p of None \<Rightarrow> no_verdict | Some q \<Rightarrow> verdict_of q)"

lemma v_matched_simps [simp]: "\<not> v_matched no_verdict" "v_matched (verdict_of p)"
  by (simp_all add: no_verdict_def verdict_of_def)

lemma consider_pattern_pick: "consider_pattern (as_verdict b) p = as_verdict (pattern_choice.pick b p)"
  by (cases b) (auto simp: consider_pattern_def pattern_choice.pick_def as_verdict_def)

lemma foldl_consider:
  "foldl (\<lambda>best p. if P p then consider_pattern best p else best) (as_verdict b) ps =
    as_verdict (foldl pattern_choice.pick b (filter P ps))"
  by (induction ps arbitrary: b) (auto simp: consider_pattern_pick)

definition candidates :: "toolCallRecord list \<Rightarrow> tool_chain_config \<Rightarrow> pattern list \<Rightarrow> pattern list" where
  "candidates rs cfg ps =
     (let g = (case tc_maxGap cfg of None \<Rightarrow> DefaultMaxGap | Some g \<Rightarrow> g) in
      filter (\<lambda>p. subsequenceMatch rs (pat_sequence p) g) ps @
      (if sensitivitySubsequenceMatch rs lethalTrifectaSequence g then [trifecta_pattern cfg] else []))"

lemma matchPatterns_pick:
  "matchPatterns rs cfg ps = as_verdict (foldl pattern_choice.pick None (candidates rs cfg ps))"
proof -
  have nv: "no_verdict = as_verdict None" by (simp add: as_verdict_def)
  show ?thesis
    unfolding matchPatterns_def candidates_def Let_def nv foldl_consider
    by (simp add: consider_pattern_pick)
qed

text \<open>
  The verdict on a session is the strictest there is: it is a match exactly when some configured
  pattern or the lethal trifecta matches the history, it is the verdict of one of them, and none of
  them has a higher severity, or the same severity and a stricter action.
\<close>

theorem verdict_is_strictest:
  "(v_matched (matchPatterns rs cfg ps) \<longleftrightarrow> candidates rs cfg ps \<noteq> []) \<and>
   (v_matched (matchPatterns rs cfg ps) \<longrightarrow>
     (\<exists>p \<in> set (candidates rs cfg ps). matchPatterns rs cfg ps = verdict_of p \<and>
       (\<forall>q \<in> set (candidates rs cfg ps).
          severityRank (pat_severity q) < severityRank (pat_severity p) \<or>
          severityRank (pat_severity q) = severityRank (pat_severity p) \<and>
          actionRank (pat_action q) \<le> actionRank (pat_action p))))"
proof (cases "foldl pattern_choice.pick None (candidates rs cfg ps)")
  case None
  then show ?thesis
    using pattern_choice.pick_all_None [of None "candidates rs cfg ps"]
    by (simp add: matchPatterns_pick as_verdict_def)
next
  case (Some p)
  have in_c: "p \<in> set (candidates rs cfg ps)"
    using pattern_choice.pick_all_from [OF Some] by simp
  have "severityRank (pat_severity q) < severityRank (pat_severity p) \<or>
      severityRank (pat_severity q) = severityRank (pat_severity p) \<and> actionRank (pat_action q) \<le> actionRank (pat_action p)"
    if "q \<in> set (candidates rs cfg ps)" for q
    using pattern_choice.pick_all_max [OF Some that] actionRank_le [of "pat_action p"] actionRank_le [of "pat_action q"]
    unfolding strictness_def by linarith
  moreover have "matchPatterns rs cfg ps = verdict_of p" "v_matched (verdict_of p)"
    by (simp_all add: matchPatterns_pick Some as_verdict_def)
  ultimately show ?thesis using in_c by force
qed

theorem verdict_is_strictest_witness:
  "let cfg = empty_config\<lparr>tc_enabled := True\<rparr>; rs = map call [''read'', ''write'', ''network''] in
   v_matched (matchPatterns rs cfg (compilePatterns cfg))"
proof -
  let ?cfg = "empty_config\<lparr>tc_enabled := True\<rparr>" and ?rs = "map call [''read'', ''write'', ''network'']"
  have "candidates ?rs ?cfg (compilePatterns ?cfg) \<noteq> []"
    by (simp add: candidates_def compilePatterns_def builtInPatterns_def override_action_def empty_config_def
        subsequenceMatch_def subsequenceMatchOnAxis_def matchFromPositionOnAxis_def call_def mk_pattern_def
        DefaultMaxGap_def upt_rec)
  with verdict_is_strictest [of ?rs ?cfg "compilePatterns ?cfg"] show ?thesis by (simp add: Let_def)
qed

section \<open>Bounded session tracking\<close>

definition matcher_ok :: "matcher \<Rightarrow> bool" where
  "matcher_ok m \<longleftrightarrow> distinct (map fst (m_sessions m)) \<and> m_sessionCount m = int (length (m_sessions m)) \<and>
     m_sessionCount m \<le> maxTrackedSessions"

lemma length_delete_present:
  assumes "distinct (map fst m)" and "map_of m k = Some v"
  shows "Suc (length (AList.delete k m)) = length m"
  using assms
proof (induction m)
  case (Cons x m)
  obtain a b where x: "x = (a, b)" by fastforce
  show ?case
  proof (cases "a = k")
    case True
    with Cons.prems x have "filter (\<lambda>(k', _). k \<noteq> k') m = m"
      by (force simp: filter_id_conv)
    with True x show ?thesis by (simp add: AList.delete_eq)
  next
    case False
    with Cons x show ?thesis by (simp add: AList.delete_eq)
  qed
qed simp

lemma prune_counts:
  assumes "distinct (map fst (m_sessions m))" "m_sessionCount m = int (length (m_sessions m))"
  shows "distinct (map fst (m_sessions (pruneExpiredSessionsWithConfig t cfg m))) \<and>
    m_sessionCount (pruneExpiredSessionsWithConfig t cfg m) =
      int (length (m_sessions (pruneExpiredSessionsWithConfig t cfg m)))"
proof -
  let ?P = "\<lambda>(k, rs). \<not> (length rs > 0 \<and> tr_timestamp (last rs) < chain_cutoff cfg t)"
  have "length (filter ?P (m_sessions m)) \<le> length (m_sessions m)" by simp
  moreover have "distinct (map fst (filter ?P (m_sessions m)))" using assms(1) by (rule distinct_map_filter)
  ultimately show ?thesis using assms(2)
    by (simp add: pruneExpiredSessionsWithConfig_def Let_def)
qed

lemma delete_session_counts:
  assumes "distinct (map fst (m_sessions m))" "m_sessionCount m = int (length (m_sessions m))"
  shows "distinct (map fst (m_sessions (delete_session k m))) \<and>
    m_sessionCount (delete_session k m) = int (length (m_sessions (delete_session k m)))"
  using assms length_delete_present [of "m_sessions m" k]
  by (cases "map_of (m_sessions m) k") (simp_all add: delete_session_def AList.distinct_delete)

lemma session_count_le:
  "m_sessionCount (pruneExpiredSessionsWithConfig t cfg m) \<le> m_sessionCount m"
  "m_sessionCount (delete_session k m) \<le> m_sessionCount m"
  by (simp_all add: pruneExpiredSessionsWithConfig_def delete_session_def Let_def)

lemma admit_session_ok:
  assumes ok: "matcher_ok m" and adm: "admit_session t k m = (b, m')"
  shows "matcher_ok m' \<and> m_cfg m' = m_cfg m \<and> m_patterns m' = m_patterns m \<and> (b \<longrightarrow> map_of (m_sessions m') k \<noteq> None)"
proof (cases "map_of (m_sessions m) k = None")
  case False
  with assms show ?thesis by (simp add: admit_session_def)
next
  case True
  define m1 where "m1 = m\<lparr>m_sessions := AList.update k [] (m_sessions m), m_sessionCount := m_sessionCount m + 1\<rparr>"
  define m2 where "m2 = (if m_sessionCount m1 mod 256 = 0 \<or> m_sessionCount m1 > maxTrackedSessions
     then pruneExpiredSessionsWithConfig t (m_cfg m) m1 else m1)"
  have res: "(b, m') = (if m_sessionCount m2 > maxTrackedSessions then (False, delete_session k m2) else (True, m2))"
    using adm True unfolding m2_def m1_def by (simp add: admit_session_def Let_def)
  have m1: "distinct (map fst (m_sessions m1))" "m_sessionCount m1 = int (length (m_sessions m1))"
    using ok True by (simp_all add: m1_def matcher_ok_def AList.distinct_update length_update_new)
  have m2: "distinct (map fst (m_sessions m2))" "m_sessionCount m2 = int (length (m_sessions m2))"
    using m1 prune_counts [OF m1] by (simp_all add: m2_def)
  have "(k, []) \<in> set (m_sessions m1)"
    by (rule map_of_SomeD) (simp add: m1_def map_of_update)
  then have "(k, []) \<in> set (m_sessions m2)"
    by (simp add: m2_def pruneExpiredSessionsWithConfig_def Let_def)
  with m2(1) have k: "map_of (m_sessions m2) k = Some []" by (rule map_of_is_SomeI)
  have le: "m_sessionCount m2 \<le> maxTrackedSessions + 1"
    using ok session_count_le(1) [of t "m_cfg m" m1] by (auto simp: m2_def m1_def matcher_ok_def)
  have same: "m_cfg m2 = m_cfg m" "m_patterns m2 = m_patterns m"
    by (simp_all add: m2_def m1_def pruneExpiredSessionsWithConfig_def Let_def)
  show ?thesis
  proof (cases "m_sessionCount m2 > maxTrackedSessions")
    case True
    with res have "b = False" "m' = delete_session k m2" by auto
    moreover have "m_sessionCount (delete_session k m2) \<le> maxTrackedSessions"
      using k le by (simp add: delete_session_def)
    ultimately show ?thesis
      using delete_session_counts [OF m2, of k] same by (simp add: matcher_ok_def delete_session_def)
  next
    case False
    with res m2 k same show ?thesis by (simp add: matcher_ok_def)
  qed
qed

lemma note_metrics_frame [simp]:
  "m_sessions (note_metrics v m) = m_sessions m" "m_sessionCount (note_metrics v m) = m_sessionCount m"
  "m_cfg (note_metrics v m) = m_cfg m"
  by (simp_all add: note_metrics_def split: option.splits)

lemma matcher_ok_frame:
  "m_sessions m' = m_sessions m \<Longrightarrow> m_sessionCount m' = m_sessionCount m \<Longrightarrow> matcher_ok m' = matcher_ok m"
  by (simp add: matcher_ok_def)

lemma matcher_ok_RecordCall [step_inv]:
  assumes "matcher_ok m"
  shows "matcher_ok (snd (RecordCall e t1 t2 key tool args m))"
proof -
  obtain b m1 where adm: "admit_session t1 key m = (b, m1)" by fastforce
  from admit_session_ok [OF assms adm] have ok: "matcher_ok m1" and pres: "b \<longrightarrow> map_of (m_sessions m1) key \<noteq> None"
    by auto
  have upd: "matcher_ok (m1\<lparr>m_sessions := AList.update key rs (m_sessions m1)\<rparr>)" if b for rs
    using ok pres that by (auto simp: matcher_ok_def AList.distinct_update length_update_old)
  have nm: "matcher_ok (note_metrics v x) = matcher_ok x" for v x
    by (rule matcher_ok_frame) simp_all
  show ?thesis
    using assms ok upd
    by (simp add: RecordCall_def adm recordResourceLimit_def nm Let_def case_prod_beta)
qed

lemma matcher_ok_others [step_inv]:
  assumes "matcher_ok m"
  shows "matcher_ok (ClearSession k m)" "matcher_ok (Reconfigure cfg m)"
    "matcher_ok (pruneExpiredSessionsWithConfig t (m_cfg m) m)"
proof -
  note counts = assms [unfolded matcher_ok_def]
  show "matcher_ok (ClearSession k m)"
    using counts delete_session_counts [of m k] session_count_le(2) [of k m]
    unfolding ClearSession_def matcher_ok_def by linarith
  show "matcher_ok (pruneExpiredSessionsWithConfig t (m_cfg m) m)"
    using counts prune_counts [of m t "m_cfg m"] session_count_le(1) [of t "m_cfg m" m]
    unfolding matcher_ok_def by linarith
  show "matcher_ok (Reconfigure cfg m)"
    using counts by (simp add: matcher_ok_def Reconfigure_def Let_def)
qed

datatype matcher_op =
    MRecord matchers go_time go_time string string "string option"
  | MClear string
  | MReconfigure "tool_chain_config option"
  | MPrune go_time

fun matcher_step :: "matcher_op \<Rightarrow> matcher \<Rightarrow> matcher" where
  "matcher_step (MRecord e t1 t2 k tool args) m = snd (RecordCall e t1 t2 k tool args m)"
| "matcher_step (MClear k) m = ClearSession k m"
| "matcher_step (MReconfigure cfg) m = Reconfigure cfg m"
| "matcher_step (MPrune t) m = pruneExpiredSessionsWithConfig t (m_cfg m) m"

interpretation matcher_inv: kept_invariant matcher_step matcher_ok
proof
  fix m x
  assume "matcher_ok m"
  then show "matcher_ok (matcher_step x m)" by (cases x) (auto intro: step_inv)
qed

lemma length_evict_le: "0 \<le> tc_windowSize cfg \<Longrightarrow> int (length (evict rs now cfg)) \<le> tc_windowSize cfg"
  by (auto simp: evict_def Let_def)

text \<open>
  Session tracking is bounded and cannot be flooded into forgetting: after any sequence of
  recorded calls, clears, reconfigurations and prunes the atomic counter equals the number of
  tracked sessions and is at most 4096; and a call whose session cannot be admitted, or whose key is
  empty or longer than 256 bytes, gets a critical block verdict rather than a silent pass.
\<close>

theorem session_tracking_bounded:
  fixes ops :: "matcher_op list" and cfg :: "tool_chain_config option"
  defines "m \<equiv> fold matcher_step ops (NewMatcher cfg)"
  shows "m_sessionCount m = int (length (m_sessions m)) \<and> m_sessionCount m \<le> 4096 \<and>
    (tc_enabled (m_cfg m) \<and> m_patterns m \<noteq> [] \<and>
       classify_call e m tool args \<noteq> (''unknown'', SensitivityNeutral) \<and>
       (key = [] \<or> 256 < length key \<or> \<not> fst (admit_session t1 key m)) \<longrightarrow>
     v_action (fst (RecordCall e t1 t2 key tool args m)) = ''block'' \<and>
     v_severity (fst (RecordCall e t1 t2 key tool args m)) = ''critical'')"
proof -
  have "matcher_ok (NewMatcher cfg)"
    by (simp add: NewMatcher_def matcher_ok_def maxTrackedSessions_def Let_def)
  then have "matcher_ok m" unfolding m_def by (rule matcher_inv.run_keeps)
  then show ?thesis
    by (auto simp: matcher_ok_def maxTrackedSessions_def maxSessionKeyBytes_def RecordCall_def Let_def
        recordResourceLimit_def resourceLimitVerdict_def case_prod_beta prod_eq_iff)
qed

definition plain_matchers :: matchers where
  "plain_matchers = \<lparr>filepath_Match = (=), persistArgPattern = (\<lambda>_. False), persistWritePathPattern = (\<lambda>_. False)\<rparr>"

theorem session_tracking_bounded_witness:
  "let m = fold matcher_step [MRecord plain_matchers 0 0 ''s'' ''bash'' None]
       (NewMatcher (Some (empty_config\<lparr>tc_enabled := True, tc_windowSize := 5\<rparr>))) in
   m_sessionCount m \<le> 4096 \<and>
   v_action (fst (RecordCall plain_matchers 1 1 [] ''bash'' None m)) = ''block''"
proof -
  let ?cfg = "Some (empty_config\<lparr>tc_enabled := True, tc_windowSize := 5\<rparr>)"
  let ?ops = "[MRecord plain_matchers 0 0 ''s'' ''bash'' None]"
  let ?m = "fold matcher_step ?ops (NewMatcher ?cfg)"
  have "tc_enabled (m_cfg ?m)" "m_patterns ?m \<noteq> []"
    "classify_call plain_matchers ?m ''bash'' None \<noteq> (''unknown'', SensitivityNeutral)"
    by code_simp+
  with session_tracking_bounded [of ?ops ?cfg plain_matchers "''bash''" None "[]" 1 1] show ?thesis
    by (simp add: Let_def)
qed

end
