(* ===== verification/DeferredHolds.thy ===== *)
theory DeferredHolds
  imports Interfaces "HOL-Library.Multiset"
begin

text \<open>
  The held-action manager (\<^verbatim>\<open>internal/deferred/manager.go\<close>) and the registry of surfaces that may
  defer (\<^verbatim>\<open>internal/deferred/surfaces.go\<close>). An action whose policy answer is \<open>defer\<close> is held under
  its id until a resolver, a cascade, an operator, a policy reload or its timer settles it.

  The outside world is the record \<open>world\<close>: which journal writes fail and which of these leave a part of
  the line in the file, what the clock reads at each
  write, in which order Go ranges over a map with the given keys, and how long the JSON line of an
  entry is. \<open>mg_journal\<close> lists the entries whose write succeeded; \<open>mg_file\<close> lists the lines of the file, where a
  line is \<open>None\<close> when a fragment of a failed write is in front of it, and \<open>mg_torn\<close> says that the file
  ends in such a fragment. A fragment is never the complete JSON of an entry. A callback is a presence bit on the action and
  its invocations are appended to \<open>mg_delivered\<close>. The receiver is not nil (every method answers
  \<^verbatim>\<open>ErrDisabled\<close> or its zero value on a nil receiver).

  \<^verbatim>\<open>Resolve\<close> and \<^verbatim>\<open>cascadeBlockDescendants\<close> call each other; they take fuel, one unit per call, and
  \<open>Resolve_runs\<close> shows that twice the number of holds plus one is enough.
\<close>

section \<open>Data\<close>

definition StateHeld :: string where "StateHeld = ''deferred_held''"
definition StateResolving :: string where "StateResolving = ''resolving''"
definition StateResolvedAllow :: string where "StateResolvedAllow = ''resolved_allow''"
definition StateResolvedBlock :: string where "StateResolvedBlock = ''resolved_block''"
definition StateResolvedStepUp :: string where "StateResolvedStepUp = ''resolved_step_up''"
definition StateAdmissionRejected :: string where "StateAdmissionRejected = ''admission_rejected''"

lemmas hold_state_defs = StateHeld_def StateResolving_def StateResolvedAllow_def StateResolvedBlock_def
  StateResolvedStepUp_def StateAdmissionRejected_def

record defer_config =
  dc_enabled :: bool
  dc_timeout :: duration
  dc_maxPending :: int
  dc_maxPendingPerSession :: int
  dc_maxPendingBytes :: int
  dc_maxCascadeDepth :: int
  dc_journalPath :: string

record resolution_policy =
  rp_timeout :: duration
  rp_maxPending :: int
  rp_maxPendingPerSession :: int
  rp_maxPendingBytes :: int
  rp_maxCascadeDepth :: int

record defer_resolution_policy =
  dp_resolverProfile :: string
  dp_allow_policyPermits :: bool
  dp_allow_approval :: bool
  dp_allow_toolInventoryBaseline :: bool
  dp_stepup_approvalRequestsHuman :: bool

record authority_snapshot =
  au_principal :: string
  au_actor :: string
  au_sessionID :: string
  au_sessionIDOriginal :: string

record held_action =
  ha_deferID :: string
  ha_actionID :: string
  ha_target :: string
  ha_reason :: string
  ha_surface :: string
  ha_method :: string
  ha_sizeBytes :: int
  ha_policy :: resolution_policy
  ha_rulePolicy :: defer_resolution_policy
  ha_authority :: authority_snapshot
  ha_parentDeferID :: string
  ha_cascadeDepth :: int
  ha_linkage :: string
  ha_deadline :: go_time
  ha_payload :: string
  ha_argDigest :: string
  ha_resolve :: bool
  ha_timer :: "go_time option"
  ha_state :: string
  ha_createdAt :: go_time

record resolution =
  rs_deferID :: string
  rs_parentActionID :: string
  rs_finalDecision :: string
  rs_source :: string
  rs_authority :: authority_snapshot
  rs_parentDeferID :: string
  rs_cascadeDepth :: int
  rs_linkage :: string
  rs_policy :: resolution_policy
  rs_target :: string
  rs_method :: string
  rs_reason :: string

record journal_entry =
  je_deferID :: string
  je_actionID :: string
  je_state :: string
  je_source :: string
  je_target :: string
  je_surface :: string
  je_method :: string
  je_reason :: string
  je_authority :: authority_snapshot
  je_policy :: resolution_policy
  je_rulePolicy :: defer_resolution_policy
  je_parentDeferID :: string
  je_cascadeDepth :: int
  je_linkage :: string
  je_deadline :: go_time
  je_timestamp :: go_time
  je_sizeBytes :: int

record manager =
  mg_cfg :: defer_config
  mg_holds :: "(string \<times> held_action) list"
  mg_sessionHolds :: "string \<Rightarrow> string list"
  mg_totalBytes :: int
  mg_journal :: "journal_entry list"
  mg_file :: "journal_entry option list"
  mg_torn :: bool
  mg_writes :: nat
  mg_delivered :: "resolution list"

record world =
  w_writeFails :: "nat \<Rightarrow> bool"
  w_partial :: "nat \<Rightarrow> bool"
  w_now :: "nat \<Rightarrow> go_time"
  w_order :: "string list \<Rightarrow> string list"
  w_lineBytes :: "journal_entry \<Rightarrow> nat"

datatype defer_error =
    ErrDisabled | ErrNoDeferID | ErrNoResolve | ErrExists string | ErrCapacity
  | CascadeLimitError int int string | ErrJournal | ErrNotFound | NilDereference | OutOfFuel

definition HoldFailureSource :: "defer_error \<Rightarrow> string" where
  "HoldFailureSource err = (case err of CascadeLimitError _ _ _ \<Rightarrow> ''cascade_limit'' | _ \<Rightarrow> ''capacity'')"

definition NewManager :: "defer_config \<Rightarrow> manager" where
  "NewManager cfg =
     (let cfg1 = (if dc_timeout cfg \<le> 0 then cfg\<lparr>dc_timeout := 2 * second_ns\<rparr> else cfg);
          cfg2 = (if dc_maxPending cfg1 \<le> 0 then cfg1\<lparr>dc_maxPending := 64\<rparr> else cfg1);
          cfg3 = (if dc_maxPendingPerSession cfg2 \<le> 0 then cfg2\<lparr>dc_maxPendingPerSession := 8\<rparr> else cfg2);
          cfg4 = (if dc_maxPendingBytes cfg3 \<le> 0 then cfg3\<lparr>dc_maxPendingBytes := 1024 * 1024\<rparr> else cfg3);
          cfg5 = (if dc_maxCascadeDepth cfg4 \<le> 0 then cfg4\<lparr>dc_maxCascadeDepth := 8\<rparr> else cfg4) in
      \<lparr>mg_cfg = cfg5, mg_holds = [], mg_sessionHolds = (\<lambda>_. []), mg_totalBytes = 0,
       mg_journal = [], mg_file = [], mg_torn = False, mg_writes = 0, mg_delivered = []\<rparr>)"

definition Enabled :: "manager \<Rightarrow> bool" where
  "Enabled m = dc_enabled (mg_cfg m)"

definition Policy :: "manager \<Rightarrow> resolution_policy" where
  "Policy m = \<lparr>rp_timeout = dc_timeout (mg_cfg m), rp_maxPending = dc_maxPending (mg_cfg m),
     rp_maxPendingPerSession = dc_maxPendingPerSession (mg_cfg m),
     rp_maxPendingBytes = dc_maxPendingBytes (mg_cfg m),
     rp_maxCascadeDepth = dc_maxCascadeDepth (mg_cfg m)\<rparr>"

section \<open>Journal writes\<close>

definition journalEntryFromHeld :: "go_time \<Rightarrow> held_action \<Rightarrow> string \<Rightarrow> string \<Rightarrow> journal_entry" where
  "journalEntryFromHeld now held state source =
     \<lparr>je_deferID = ha_deferID held, je_actionID = ha_actionID held, je_state = state, je_source = source,
      je_target = ha_target held, je_surface = ha_surface held, je_method = ha_method held,
      je_reason = ha_reason held, je_authority = ha_authority held, je_policy = ha_policy held,
      je_rulePolicy = ha_rulePolicy held, je_parentDeferID = ha_parentDeferID held,
      je_cascadeDepth = ha_cascadeDepth held, je_linkage = ha_linkage held, je_deadline = ha_deadline held,
      je_timestamp = now, je_sizeBytes = ha_sizeBytes held\<rparr>"

text \<open>
  The answer says whether the write succeeded; without a journal path nothing is written. The file is opened for
  appending, so what follows a fragment is glued to it.
\<close>

definition appendJournal :: "world \<Rightarrow> journal_entry \<Rightarrow> manager \<Rightarrow> bool \<times> manager" where
  "appendJournal w entry m =
     (if dc_journalPath (mg_cfg m) = [] then (True, m)
      else if w_writeFails w (mg_writes m)
      then (False, m\<lparr>mg_torn := mg_torn m \<or> w_partial w (mg_writes m), mg_writes := Suc (mg_writes m)\<rparr>)
      else (True, m\<lparr>mg_journal := mg_journal m @ [entry], mg_file := mg_file m @ [if mg_torn m then None else Some entry],
                     mg_torn := False, mg_writes := Suc (mg_writes m)\<rparr>))"

definition journal_held :: "world \<Rightarrow> held_action \<Rightarrow> string \<Rightarrow> string \<Rightarrow> manager \<Rightarrow> bool \<times> manager" where
  "journal_held w held state source m =
     appendJournal w (journalEntryFromHeld (w_now w (mg_writes m)) held state source) m"

definition journalRejectedHold :: "world \<Rightarrow> held_action \<Rightarrow> string \<Rightarrow> manager \<Rightarrow> manager" where
  "journalRejectedHold w action source m =
     (let a = (if source \<noteq> ''cascade_limit''
               then action\<lparr>ha_parentDeferID := [], ha_cascadeDepth := 0, ha_linkage := []\<rparr> else action) in
      snd (journal_held w a StateAdmissionRejected source m))"

section \<open>Hold\<close>

text \<open>The fields \<^verbatim>\<open>Hold\<close> overwrites before it takes the lock.\<close>

definition stamp_action :: "go_time \<Rightarrow> held_action \<Rightarrow> manager \<Rightarrow> held_action" where
  "stamp_action now action m =
     action\<lparr>ha_sizeBytes := (if ha_sizeBytes action < 0 then 0 else ha_sizeBytes action),
       ha_policy := Policy m, ha_deadline := now + dc_timeout (mg_cfg m),
       ha_createdAt := now, ha_state := StateHeld\<rparr>"

definition over_capacity :: "held_action \<Rightarrow> manager \<Rightarrow> bool" where
  "over_capacity a m \<longleftrightarrow>
     int (length (mg_holds m)) \<ge> dc_maxPending (mg_cfg m) \<or>
     int (length (mg_sessionHolds m (au_sessionID (ha_authority a)))) \<ge> dc_maxPendingPerSession (mg_cfg m) \<or>
     ha_sizeBytes a > dc_maxPendingBytes (mg_cfg m) \<or>
     mg_totalBytes m > dc_maxPendingBytes (mg_cfg m) - ha_sizeBytes a"

text \<open>
  The parent of a new hold is the newest hold of its session; a lookup that misses would
  dereference nil.
\<close>

definition link_action :: "held_action \<Rightarrow> manager \<Rightarrow> held_action option" where
  "link_action a m =
     (let a1 = a\<lparr>ha_linkage := ''session_pending_ancestor'', ha_cascadeDepth := 1\<rparr>;
          ids = mg_sessionHolds m (au_sessionID (ha_authority a)) in
      if au_sessionID (ha_authority a) \<noteq> [] \<and> length ids > 0
      then (case map_of (mg_holds m) (last ids) of None \<Rightarrow> None
            | Some parent \<Rightarrow> Some (a1\<lparr>ha_parentDeferID := ha_deferID parent,
                                     ha_cascadeDepth := ha_cascadeDepth parent + 1\<rparr>))
      else Some a1)"

definition publish :: "held_action \<Rightarrow> manager \<Rightarrow> manager" where
  "publish a m =
     m\<lparr>mg_holds := AList.update (ha_deferID a) a (mg_holds m),
       mg_sessionHolds := (mg_sessionHolds m)(au_sessionID (ha_authority a) :=
          mg_sessionHolds m (au_sessionID (ha_authority a)) @ [ha_deferID a]),
       mg_totalBytes := mg_totalBytes m + ha_sizeBytes a\<rparr>"

text \<open>\<open>now\<close> is the clock at entry, \<open>tnow\<close> the clock when the timer is started.\<close>

definition arm_timer :: "go_time \<Rightarrow> string \<Rightarrow> manager \<Rightarrow> manager" where
  "arm_timer tnow deferID m =
     (case map_of (mg_holds m) deferID of None \<Rightarrow> m
      | Some live \<Rightarrow>
          if ha_state live = StateHeld
          then m\<lparr>mg_holds := AList.update deferID (live\<lparr>ha_timer := Some (tnow + dc_timeout (mg_cfg m))\<rparr>) (mg_holds m)\<rparr>
          else m)"

definition Hold :: "world \<Rightarrow> go_time \<Rightarrow> go_time \<Rightarrow> held_action \<Rightarrow> manager \<Rightarrow> defer_error option \<times> manager" where
  "Hold w now tnow action0 m =
     (if \<not> Enabled m then (Some ErrDisabled, m)
      else if ha_deferID action0 = [] then (Some ErrNoDeferID, m)
      else if \<not> ha_resolve action0 then (Some ErrNoResolve, m)
      else
        let action = stamp_action now action0 m in
        if map_of (mg_holds m) (ha_deferID action) \<noteq> None
        then (Some (ErrExists (ha_deferID action)), journalRejectedHold w action ''duplicate_defer_id'' m)
        else if over_capacity action m
        then (Some ErrCapacity, journalRejectedHold w action ''capacity'' m)
        else (case link_action action m of None \<Rightarrow> (Some NilDereference, m)
          | Some a \<Rightarrow>
              if ha_cascadeDepth a > dc_maxCascadeDepth (mg_cfg m)
              then (Some (CascadeLimitError (ha_cascadeDepth a) (dc_maxCascadeDepth (mg_cfg m)) (ha_parentDeferID a)),
                    journalRejectedHold w a ''cascade_limit'' m)
              else let (ok, m1) = journal_held w a StateHeld [] m in
                if \<not> ok then (Some ErrJournal, m1)
                else (None, arm_timer tnow (ha_deferID a) (publish a m1))))"

section \<open>Resolve and its cascade\<close>

definition resolvedState :: "string \<Rightarrow> string" where
  "resolvedState d = (if d = ''allow'' then StateResolvedAllow else if d = ''ask'' then StateResolvedStepUp
     else StateResolvedBlock)"

definition removeSessionHoldLocked :: "string \<Rightarrow> string \<Rightarrow> manager \<Rightarrow> manager" where
  "removeSessionHoldLocked sessionID deferID m =
     m\<lparr>mg_sessionHolds := (mg_sessionHolds m)(sessionID := remove1 deferID (mg_sessionHolds m sessionID))\<rparr>"

text \<open>The critical section of \<^verbatim>\<open>Resolve\<close>.\<close>

definition take_hold :: "string \<Rightarrow> held_action \<Rightarrow> manager \<Rightarrow> manager" where
  "take_hold deferID held m =
     (let m1 = removeSessionHoldLocked (au_sessionID (ha_authority held)) deferID
                 (m\<lparr>mg_holds := AList.delete deferID (mg_holds m)\<rparr>) in
      m1\<lparr>mg_totalBytes := mg_totalBytes m1 - ha_sizeBytes held\<rparr>)"

text \<open>The journal write of the outcome; a failed write turns the outcome into a cancelled block.\<close>

definition settle :: "world \<Rightarrow> held_action \<Rightarrow> string \<Rightarrow> string \<Rightarrow> manager \<Rightarrow> string \<times> string \<times> manager" where
  "settle w held dec src m =
     (let (ok, m1) = journal_held w held (resolvedState dec) src m in
      if ok then (dec, src, m1)
      else (''block'', ''cancel'', snd (journal_held w held (resolvedState ''block'') ''cancel'' m1)))"

definition resolution_of :: "held_action \<Rightarrow> string \<Rightarrow> string \<Rightarrow> resolution" where
  "resolution_of held dec src =
     \<lparr>rs_deferID = ha_deferID held, rs_parentActionID = ha_actionID held, rs_finalDecision = dec,
      rs_source = src, rs_authority = ha_authority held, rs_parentDeferID = ha_parentDeferID held,
      rs_cascadeDepth = ha_cascadeDepth held, rs_linkage = ha_linkage held, rs_policy = ha_policy held,
      rs_target = ha_target held, rs_method = ha_method held, rs_reason = ha_reason held\<rparr>"

definition deliver :: "held_action \<Rightarrow> string \<Rightarrow> string \<Rightarrow> manager \<Rightarrow> manager" where
  "deliver held dec src m = m\<lparr>mg_delivered := mg_delivered m @ [resolution_of held dec src]\<rparr>"

definition children_of :: "world \<Rightarrow> string list \<Rightarrow> manager \<Rightarrow> string list" where
  "children_of w frontier m =
     w_order w (map fst (filter (\<lambda>(_, held). ha_parentDeferID held \<in> set frontier) (mg_holds m)))"

fun resolve_fuel :: "nat \<Rightarrow> world \<Rightarrow> string \<Rightarrow> string \<Rightarrow> string \<Rightarrow> manager \<Rightarrow> (defer_error option \<times> manager) option"
and cascade_fuel :: "nat \<Rightarrow> world \<Rightarrow> string list \<Rightarrow> manager \<Rightarrow> manager option"
and block_each_fuel :: "nat \<Rightarrow> world \<Rightarrow> string list \<Rightarrow> manager \<Rightarrow> manager option" where
  "resolve_fuel 0 w deferID dec0 src0 m = None"
| "resolve_fuel (Suc n) w deferID dec0 src0 m =
     (let dec = (if dec0 = [] then ''block'' else dec0);
          src = (if src0 = [] then ''context'' else src0) in
      case map_of (mg_holds m) deferID of
        None \<Rightarrow> Some (Some ErrNotFound, m)
      | Some held0 \<Rightarrow>
          if ha_state held0 \<noteq> StateHeld then Some (Some ErrNotFound, m)
          else
            let held = held0\<lparr>ha_state := StateResolving\<rparr>;
                (dec', src', m1) = settle w held dec src (take_hold deferID held m) in
            case (if dec' \<noteq> ''allow'' \<and> src' \<noteq> ''cascade'' then cascade_fuel n w [ha_deferID held] m1 else Some m1) of
              None \<Rightarrow> None
            | Some m2 \<Rightarrow> Some (None, deliver held dec' src' m2))"
| "cascade_fuel 0 w frontier m = None"
| "cascade_fuel (Suc n) w frontier m =
     (if frontier = [] then Some m
      else let children = children_of w frontier m in
        if children = [] then Some m
        else case block_each_fuel n w children m of
            None \<Rightarrow> None
          | Some m1 \<Rightarrow> cascade_fuel n w children m1)"
| "block_each_fuel n w [] m = Some m"
| "block_each_fuel n w (i # ids) m =
     (case resolve_fuel n w i ''block'' ''cascade'' m of
        None \<Rightarrow> None
      | Some (_, m1) \<Rightarrow> block_each_fuel n w ids m1)"

definition Resolve :: "world \<Rightarrow> string \<Rightarrow> string \<Rightarrow> string \<Rightarrow> manager \<Rightarrow> defer_error option \<times> manager" where
  "Resolve w deferID dec src m =
     (case resolve_fuel (2 * length (mg_holds m) + 1) w deferID dec src m of
        Some r \<Rightarrow> r | None \<Rightarrow> (Some OutOfFuel, m))"

text \<open>A timer that was armed for a hold runs \<^verbatim>\<open>Resolve(id, "block", SourceTimeout)\<close>.\<close>

definition timer_fires :: "world \<Rightarrow> string \<Rightarrow> manager \<Rightarrow> manager" where
  "timer_fires w deferID m = snd (Resolve w deferID ''block'' ''timeout'' m)"

section \<open>The resolvers\<close>

fun resolve_list :: "world \<Rightarrow> (string \<times> string) list \<Rightarrow> string \<Rightarrow> manager \<Rightarrow> manager" where
  "resolve_list w [] src m = m"
| "resolve_list w ((i, dec) # rest) src m = resolve_list w rest src (snd (Resolve w i dec src m))"

definition ResolveAll :: "world \<Rightarrow> string \<Rightarrow> string \<Rightarrow> manager \<Rightarrow> manager" where
  "ResolveAll w dec src m = resolve_list w (map (\<lambda>i. (i, dec)) (w_order w (map fst (mg_holds m)))) src m"

definition snapshot_copy :: "held_action \<Rightarrow> held_action" where
  "snapshot_copy held = held\<lparr>ha_timer := None, ha_resolve := False\<rparr>"

definition Snapshot :: "world \<Rightarrow> manager \<Rightarrow> held_action list" where
  "Snapshot w m = map (\<lambda>i. snapshot_copy (the (map_of (mg_holds m) i))) (w_order w (map fst (mg_holds m)))"

definition snapshotOne :: "string \<Rightarrow> manager \<Rightarrow> defer_error + held_action" where
  "snapshotOne deferID m =
     (case map_of (mg_holds m) deferID of None \<Rightarrow> Inl ErrNotFound
      | Some held \<Rightarrow> if ha_state held \<noteq> StateHeld then Inl ErrNotFound else Inr (snapshot_copy held))"

definition Held :: "string \<Rightarrow> manager \<Rightarrow> held_action option" where
  "Held deferID m = (case snapshotOne deferID m of Inl _ \<Rightarrow> None | Inr h \<Rightarrow> Some h)"

definition ResolveToolInventory :: "world \<Rightarrow> string \<Rightarrow> string \<Rightarrow> manager \<Rightarrow> manager" where
  "ResolveToolInventory w sessionID dec m =
     resolve_list w
       (map (\<lambda>h. (ha_deferID h, dec))
         (filter (\<lambda>h. au_sessionID (ha_authority h) = sessionID \<and> dp_allow_toolInventoryBaseline (ha_rulePolicy h))
           (Snapshot w m)))
       ''tool_inventory'' m"

definition approvalDecision :: "defer_resolution_policy \<Rightarrow> string \<Rightarrow> string" where
  "approvalDecision rp d =
     (if d = ''allow'' then if dp_allow_approval rp then ''allow'' else ''block''
      else if d = ''ask'' \<or> d = ''step_up''
      then if dp_stepup_approvalRequestsHuman rp then ''ask'' else ''block''
      else ''block'')"

definition ResolveApprovalResult ::
  "world \<Rightarrow> string \<Rightarrow> string \<Rightarrow> string \<Rightarrow> manager \<Rightarrow> (defer_error + string) \<times> manager" where
  "ResolveApprovalResult w deferID d source m =
     (case snapshotOne deferID m of Inl e \<Rightarrow> (Inl e, m)
      | Inr held \<Rightarrow>
          let dec = approvalDecision (ha_rulePolicy held) d in
          case Resolve w deferID dec source m of
            (Some e, m1) \<Rightarrow> (Inl e, m1)
          | (None, m1) \<Rightarrow> (Inr dec, m1))"

definition ResolveApproval :: "world \<Rightarrow> string \<Rightarrow> string \<Rightarrow> manager \<Rightarrow> defer_error option \<times> manager" where
  "ResolveApproval w deferID d m =
     (case ResolveApprovalResult w deferID d ''approval'' m of (Inl e, m1) \<Rightarrow> (Some e, m1) | (Inr _, m1) \<Rightarrow> (None, m1))"

text \<open>
  The loop of \<^verbatim>\<open>ResolvePolicyReload\<close>: the evaluator (\<open>None\<close> for an error) judges every hold of the
  snapshot; \<open>reload_verdict\<close> is its switch, \<open>None\<close> where the hold stays held.
\<close>

definition reload_verdict :: "(held_action \<Rightarrow> string option) \<Rightarrow> held_action \<Rightarrow> string option" where
  "reload_verdict evaluate held =
     (case evaluate held of None \<Rightarrow> Some ''block''
      | Some d \<Rightarrow>
          if d = ''allow'' then if dp_allow_policyPermits (ha_rulePolicy held) then Some ''allow'' else None
          else if d = ''defer'' then None else Some ''block'')"

definition ResolvePolicyReload :: "world \<Rightarrow> (held_action \<Rightarrow> string option) \<Rightarrow> manager \<Rightarrow> manager" where
  "ResolvePolicyReload w evaluate m =
     resolve_list w
       (List.map_filter (\<lambda>h. map_option (\<lambda>d. (ha_deferID h, d)) (reload_verdict evaluate h)) (Snapshot w m))
       ''policy_reload'' m"

definition RecordRestartRecovery :: "world \<Rightarrow> held_action \<Rightarrow> manager \<Rightarrow> bool \<times> manager" where
  "RecordRestartRecovery w held m = journal_held w held StateResolvedBlock ''restart_recovery'' m"

section \<open>Replaying a journal\<close>

text \<open>What opening the journal gives; a line is \<open>None\<close> when it is not the JSON of an entry.\<close>

datatype journal_file = NoSuchFile | OpenFailed | Lines "journal_entry option list"

datatype journal_error = OpenError | ParseError | HeldAfterTerminal string | UnknownState string string | ScanError

fun replay :: "(journal_entry \<Rightarrow> nat) \<Rightarrow> journal_entry option list \<Rightarrow> (string \<times> journal_entry) list \<Rightarrow> string set \<Rightarrow>
    journal_error + (string \<times> journal_entry) list" where
  "replay sz [] pending terminal = Inr pending"
| "replay sz (None # ls) pending terminal = Inl ParseError"
| "replay sz (Some e # ls) pending terminal =
     (if sz e \<ge> 1024 * 1024 then Inl ScanError
      else if je_state e = StateHeld
      then if je_deferID e \<in> terminal then Inl (HeldAfterTerminal (je_deferID e))
           else replay sz ls (AList.update (je_deferID e) e pending) terminal
      else if je_state e = StateResolvedAllow \<or> je_state e = StateResolvedBlock \<or> je_state e = StateResolvedStepUp
      then replay sz ls (AList.delete (je_deferID e) pending) (insert (je_deferID e) terminal)
      else if je_state e = StateAdmissionRejected then replay sz ls pending terminal
      else Inl (UnknownState (je_state e) (je_deferID e)))"

definition held_of_entry :: "journal_entry \<Rightarrow> held_action" where
  "held_of_entry e =
     \<lparr>ha_deferID = je_deferID e, ha_actionID = je_actionID e, ha_target = je_target e, ha_reason = je_reason e,
      ha_surface = je_surface e, ha_method = je_method e, ha_sizeBytes = je_sizeBytes e, ha_policy = je_policy e,
      ha_rulePolicy = je_rulePolicy e, ha_authority = je_authority e, ha_parentDeferID = je_parentDeferID e,
      ha_cascadeDepth = je_cascadeDepth e, ha_linkage = je_linkage e, ha_deadline = je_deadline e,
      ha_payload = [], ha_argDigest = [], ha_resolve = False, ha_timer = None, ha_state = [], ha_createdAt = 0\<rparr>"

definition PendingJournal :: "world \<Rightarrow> string \<Rightarrow> journal_file \<Rightarrow> journal_error + held_action list" where
  "PendingJournal w path file =
     (if path = [] then Inr []
      else case file of
          NoSuchFile \<Rightarrow> Inr []
        | OpenFailed \<Rightarrow> Inl OpenError
        | Lines ls \<Rightarrow> (case replay (w_lineBytes w) ls [] {} of
              Inl e \<Rightarrow> Inl e
            | Inr pending \<Rightarrow>
                Inr (map (\<lambda>i. held_of_entry (the (map_of pending i))) (w_order w (map fst pending)))))"

section \<open>Surfaces\<close>

record surface_support =
  ss_surface :: string
  ss_supportsDefer :: bool
  ss_status :: string

definition surfaceSupport :: "surface_support list" where
  "surfaceSupport =
     [\<lparr>ss_surface = ''mcp_stdio'', ss_supportsDefer = True, ss_status = ''supported''\<rparr>,
      \<lparr>ss_surface = ''mcp_http_upstream'', ss_supportsDefer = True, ss_status = ''supported''\<rparr>,
      \<lparr>ss_surface = ''mcp_http_listener'', ss_supportsDefer = False, ss_status = ''not_yet_supported''\<rparr>,
      \<lparr>ss_surface = ''mcp_ws'', ss_supportsDefer = False, ss_status = ''not_yet_supported''\<rparr>,
      \<lparr>ss_surface = ''forward_proxy'', ss_supportsDefer = False, ss_status = ''not_yet_supported''\<rparr>,
      \<lparr>ss_surface = ''connect'', ss_supportsDefer = False, ss_status = ''not_yet_supported''\<rparr>,
      \<lparr>ss_surface = ''fetch'', ss_supportsDefer = False, ss_status = ''not_yet_supported''\<rparr>]"

definition LookupSurface :: "string \<Rightarrow> surface_support" where
  "LookupSurface surface =
     (case find (\<lambda>x. ss_surface x = surface) surfaceSupport of Some x \<Rightarrow> x
      | None \<Rightarrow> \<lparr>ss_surface = surface, ss_supportsDefer = False, ss_status = ''not_yet_supported''\<rparr>)"

definition ValidateAction :: "string \<Rightarrow> string \<Rightarrow> bool" where
  "ValidateAction surface action \<longleftrightarrow> action \<noteq> ''defer'' \<or> ss_supportsDefer (LookupSurface surface)"

section \<open>The calls of a run\<close>

datatype defer_op =
    OpHold go_time go_time held_action
  | OpResolve string string string
  | OpTimer string
  | OpResolveAll string string
  | OpToolInventory string string
  | OpApproval string string string
  | OpPolicyReload "held_action \<Rightarrow> string option"

fun defer_step :: "world \<Rightarrow> defer_op \<Rightarrow> manager \<Rightarrow> manager" where
  "defer_step w (OpHold now tnow a) m = snd (Hold w now tnow a m)"
| "defer_step w (OpResolve i d src) m = snd (Resolve w i d src m)"
| "defer_step w (OpTimer i) m = timer_fires w i m"
| "defer_step w (OpResolveAll d src) m = ResolveAll w d src m"
| "defer_step w (OpToolInventory s d) m = ResolveToolInventory w s d m"
| "defer_step w (OpApproval i d src) m = snd (ResolveApprovalResult w i d src m)"
| "defer_step w (OpPolicyReload ev) m = ResolvePolicyReload w ev m"

section \<open>Every resolver is a sequence of single resolutions\<close>

text \<open>
  A relation between states that is reflexive, transitive and holds across one resolution (the hold
  is taken and journalled, the cascade runs, the callback is delivered) holds across every
  resolver.
\<close>

definition resolving :: "held_action \<Rightarrow> held_action" where
  "resolving held = held\<lparr>ha_state := StateResolving\<rparr>"

lemma resolve_fuel_step:
  assumes "resolve_fuel (Suc n) w i dec src m = Some (r, m')"
  shows "r = Some ErrNotFound \<and> m' = m \<or>
    r = None \<and> (\<exists>held dec' src' m1 m2. map_of (mg_holds m) i = Some held \<and> ha_state held = StateHeld \<and>
      settle w (resolving held) (if dec = [] then ''block'' else dec) (if src = [] then ''context'' else src)
        (take_hold i (resolving held) m) = (dec', src', m1) \<and>
      (if dec' \<noteq> ''allow'' \<and> src' \<noteq> ''cascade'' then cascade_fuel n w [ha_deferID held] m1 = Some m2 else m2 = m1) \<and>
      m' = deliver (resolving held) dec' src' m2)"
proof (cases "map_of (mg_holds m) i")
  case None
  with assms show ?thesis by (simp add: Let_def)
next
  case (Some held)
  obtain dec' src' m1 where st: "settle w (resolving held) (if dec = [] then ''block'' else dec)
    (if src = [] then ''context'' else src) (take_hold i (resolving held) m) = (dec', src', m1)"
    by (metis prod_cases3)
  show ?thesis
  proof (cases "ha_state held = StateHeld")
    case True
    have id: "ha_deferID (resolving held) = ha_deferID held" by (simp add: resolving_def)
    show ?thesis
      using assms Some True st id
      by (auto simp: Let_def resolving_def split: option.splits if_splits)
  qed (use assms Some in \<open>simp add: Let_def\<close>)
qed

locale resolution_relation =
  fixes w :: world and R :: "manager \<Rightarrow> manager \<Rightarrow> bool"
  assumes R_refl: "R m m"
    and R_trans: "R m1 m2 \<Longrightarrow> R m2 m3 \<Longrightarrow> R m1 m3"
    and R_resolution: "map_of (mg_holds m) i = Some held \<Longrightarrow> ha_state held = StateHeld \<Longrightarrow>
      settle w (resolving held) dec src (take_hold i (resolving held) m) = (dec', src', m1) \<Longrightarrow> R m1 m2 \<Longrightarrow>
      R m (deliver (resolving held) dec' src' m2)"
begin

lemma each_rel:
  assumes "\<And>i m r. resolve_fuel n w i ''block'' ''cascade'' m = Some r \<Longrightarrow> R m (snd r)"
  shows "block_each_fuel n w ids m = Some m' \<Longrightarrow> R m m'"
proof (induction ids arbitrary: m)
  case Nil
  then show ?case by (simp add: R_refl)
next
  case (Cons i ids)
  then obtain r where "resolve_fuel n w i ''block'' ''cascade'' m = Some r" "block_each_fuel n w ids (snd r) = Some m'"
    by (auto split: option.splits)
  then show ?case using assms Cons.IH R_trans by blast
qed

lemma fuel_rel:
  "(\<forall>i dec src m r. resolve_fuel n w i dec src m = Some r \<longrightarrow> R m (snd r)) \<and>
   (\<forall>frontier m m'. cascade_fuel n w frontier m = Some m' \<longrightarrow> R m m')"
proof (induction n)
  case 0
  then show ?case by simp
next
  case (Suc n)
  have cascade: "R m m'" if "cascade_fuel (Suc n) w frontier m = Some m'" for frontier m m'
  proof (cases "frontier = [] \<or> children_of w frontier m = []")
    case True
    with that show ?thesis by (auto simp: Let_def R_refl split: if_splits)
  next
    case False
    with that obtain m1 where "block_each_fuel n w (children_of w frontier m) m = Some m1"
      "cascade_fuel n w (children_of w frontier m) m1 = Some m'"
      by (auto simp: Let_def split: option.splits if_splits)
    then show ?thesis using Suc.IH each_rel [of n "children_of w frontier m" m m1] R_trans by blast
  qed
  have "R m m'" if "resolve_fuel (Suc n) w i dec src m = Some (r, m')" for i dec src m r m'
    using resolve_fuel_step [OF that] Suc.IH R_refl R_resolution by (metis (no_types, lifting))
  with cascade show ?case by fastforce
qed

lemma Resolve_rel: "R m (snd (Resolve w i dec src m))"
proof (cases "resolve_fuel (2 * length (mg_holds m) + 1) w i dec src m")
  case None
  then show ?thesis unfolding Resolve_def by (simp only: option.case snd_conv R_refl)
next
  case (Some r)
  with fuel_rel have "R m (snd r)" by blast
  with Some show ?thesis unfolding Resolve_def by (simp only: option.case)
qed

lemma resolve_list_rel: "R m (resolve_list w ids src m)"
proof (induction ids arbitrary: m)
  case (Cons x ids)
  obtain i dec where "x = (i, dec)" by fastforce
  with Cons [of "snd (Resolve w i dec src m)"] R_trans [OF Resolve_rel] show ?case by simp
qed (simp add: R_refl)

lemma approval_rel: "R m (snd (ResolveApprovalResult w i dec src m))"
proof (cases "snapshotOne i m")
  case (Inr held)
  obtain e m1 where r: "Resolve w i (approvalDecision (ha_rulePolicy held) dec) src m = (e, m1)" by fastforce
  with Resolve_rel [of m i "approvalDecision (ha_rulePolicy held) dec" src] have "R m m1" by simp
  with Inr r show ?thesis by (cases e) (simp_all add: ResolveApprovalResult_def Let_def)
qed (simp add: ResolveApprovalResult_def R_refl)

lemmas resolvers_rel = Resolve_rel resolve_list_rel approval_rel

text \<open>So a run changes the relation only where it holds an action.\<close>

lemma step_rel:
  assumes "\<And>now tnow a. x \<noteq> OpHold now tnow a"
  shows "R m (defer_step w x m)"
  using assms by (cases x) (auto simp: timer_fires_def ResolveAll_def ResolveToolInventory_def
      ResolvePolicyReload_def resolvers_rel)

end

section \<open>Invariant and bounds\<close>

definition hold_ok :: "defer_config \<Rightarrow> string \<times> held_action \<Rightarrow> bool" where
  "hold_ok cfg = (\<lambda>(k, h). ha_deferID h = k \<and> k \<noteq> [] \<and> ha_state h = StateHeld \<and> 0 \<le> ha_sizeBytes h \<and>
     ha_cascadeDepth h \<le> dc_maxCascadeDepth cfg \<and> ha_timer h \<noteq> None)"

definition in_session :: "string \<Rightarrow> string \<times> held_action \<Rightarrow> bool" where
  "in_session s = (\<lambda>(k, h). au_sessionID (ha_authority h) = s)"

definition manager_ok :: "manager \<Rightarrow> bool" where
  "manager_ok m \<longleftrightarrow>
     distinct (map fst (mg_holds m)) \<and> list_all (hold_ok (mg_cfg m)) (mg_holds m) \<and>
     (\<forall>s. mg_sessionHolds m s = map fst (filter (in_session s) (mg_holds m))) \<and>
     mg_totalBytes m = (\<Sum>(k, h) \<leftarrow> mg_holds m. ha_sizeBytes h)"

definition within_bounds :: "manager \<Rightarrow> bool" where
  "within_bounds m \<longleftrightarrow>
     int (length (mg_holds m)) \<le> dc_maxPending (mg_cfg m) \<and>
     (\<forall>s. int (length (filter (in_session s) (mg_holds m))) \<le> dc_maxPendingPerSession (mg_cfg m)) \<and>
     (\<Sum>(k, h) \<leftarrow> mg_holds m. ha_sizeBytes h) \<le> dc_maxPendingBytes (mg_cfg m)"

lemma appendJournal_frame:
  assumes "appendJournal w e m = (ok, m')"
  shows "mg_holds m' = mg_holds m" "mg_cfg m' = mg_cfg m" "mg_sessionHolds m' = mg_sessionHolds m"
    "mg_totalBytes m' = mg_totalBytes m" "mg_delivered m' = mg_delivered m"
  using assms by (auto simp: appendJournal_def split: if_splits)

lemma journal_held_frame:
  "journal_held w h st src m = (ok, m') \<Longrightarrow> mg_holds m' = mg_holds m \<and> mg_cfg m' = mg_cfg m \<and>
     mg_sessionHolds m' = mg_sessionHolds m \<and> mg_totalBytes m' = mg_totalBytes m \<and> mg_delivered m' = mg_delivered m"
  unfolding journal_held_def by (simp add: appendJournal_frame)

lemma settle_frame:
  assumes "settle w h dec src m = (dec', src', m')"
  shows "mg_holds m' = mg_holds m" "mg_cfg m' = mg_cfg m" "mg_sessionHolds m' = mg_sessionHolds m"
    "mg_totalBytes m' = mg_totalBytes m" "mg_delivered m' = mg_delivered m"
proof -
  obtain ok1 m1 where 1: "journal_held w h (resolvedState dec) src m = (ok1, m1)" by fastforce
  obtain ok2 m2 where 2: "journal_held w h (resolvedState ''block'') ''cancel'' m1 = (ok2, m2)" by fastforce
  have "m' = m1 \<or> m' = m2" using assms 1 2 by (auto simp: settle_def split: if_splits)
  with journal_held_frame [OF 1] journal_held_frame [OF 2]
  show "mg_holds m' = mg_holds m" "mg_cfg m' = mg_cfg m" "mg_sessionHolds m' = mg_sessionHolds m"
    "mg_totalBytes m' = mg_totalBytes m" "mg_delivered m' = mg_delivered m" by auto
qed

lemma journalRejectedHold_frame [simp]:
  "mg_holds (journalRejectedHold w a src m) = mg_holds m" "mg_cfg (journalRejectedHold w a src m) = mg_cfg m"
  "mg_sessionHolds (journalRejectedHold w a src m) = mg_sessionHolds m"
  "mg_totalBytes (journalRejectedHold w a src m) = mg_totalBytes m"
  "mg_delivered (journalRejectedHold w a src m) = mg_delivered m"
  by (simp_all add: journalRejectedHold_def journal_held_def appendJournal_def Let_def)

lemma deliver_frame [simp]:
  "mg_holds (deliver h d s m) = mg_holds m" "mg_cfg (deliver h d s m) = mg_cfg m"
  "mg_sessionHolds (deliver h d s m) = mg_sessionHolds m" "mg_totalBytes (deliver h d s m) = mg_totalBytes m"
  "mg_journal (deliver h d s m) = mg_journal m"
  "mg_delivered (deliver h d s m) = mg_delivered m @ [resolution_of h d s]"
  by (simp_all add: deliver_def)

lemma take_hold_frame [simp]:
  "mg_holds (take_hold i h m) = AList.delete i (mg_holds m)" "mg_cfg (take_hold i h m) = mg_cfg m"
  "mg_delivered (take_hold i h m) = mg_delivered m" "mg_journal (take_hold i h m) = mg_journal m"
  "mg_writes (take_hold i h m) = mg_writes m"
  by (simp_all add: take_hold_def removeSessionHoldLocked_def Let_def)

lemma resolving_simps [simp]:
  "ha_deferID (resolving h) = ha_deferID h" "ha_authority (resolving h) = ha_authority h"
  "ha_sizeBytes (resolving h) = ha_sizeBytes h"
  by (simp_all add: resolving_def)

lemma manager_ok_frame:
  "mg_holds m' = mg_holds m \<Longrightarrow> mg_cfg m' = mg_cfg m \<Longrightarrow> mg_sessionHolds m' = mg_sessionHolds m \<Longrightarrow>
   mg_totalBytes m' = mg_totalBytes m \<Longrightarrow> manager_ok m' = manager_ok m"
  by (simp add: manager_ok_def)

text \<open>Taking one entry out of an association list.\<close>

lemma delete_split:
  assumes "distinct (map fst xs)" "map_of xs k = Some v"
  obtains ys zs where "xs = ys @ (k, v) # zs" "AList.delete k xs = ys @ zs" "k \<notin> fst ` set ys" "k \<notin> fst ` set zs"
proof -
  from map_of_SomeD [OF assms(2)] obtain ys zs where xs: "xs = ys @ (k, v) # zs"
    by (meson split_list)
  with assms(1) have "k \<notin> fst ` set ys" "k \<notin> fst ` set zs" by auto
  then have "filter (\<lambda>(k', _). k \<noteq> k') ys = ys" "filter (\<lambda>(k', _). k \<noteq> k') zs = zs"
    by (force simp: filter_id_conv)+
  then have "AList.delete k xs = ys @ zs" by (simp add: xs AList.delete_eq)
  with xs \<open>k \<notin> fst ` set ys\<close> \<open>k \<notin> fst ` set zs\<close> show ?thesis using that by blast
qed

lemma take_hold_ok:
  assumes "manager_ok m" "map_of (mg_holds m) i = Some h" "ha_authority h' = ha_authority h"
    "ha_sizeBytes h' = ha_sizeBytes h"
  shows "manager_ok (take_hold i h' m)"
proof -
  from assms(1) have d: "distinct (map fst (mg_holds m))" by (simp add: manager_ok_def)
  from delete_split [OF d assms(2)] obtain ys zs where xs: "mg_holds m = ys @ (i, h) # zs"
    and del: "AList.delete i (mg_holds m) = ys @ zs" and ni: "i \<notin> fst ` set ys" "i \<notin> fst ` set zs" by metis
  have ss: "mg_sessionHolds (take_hold i h' m) s = map fst (filter (in_session s) (ys @ zs))" for s
  proof -
    have "i \<notin> set (map fst (filter (in_session s) ys))" using ni(1) by auto
    moreover have "mg_sessionHolds m s = map fst (filter (in_session s) (ys @ (i, h) # zs))"
      using assms(1) xs by (simp add: manager_ok_def)
    ultimately show ?thesis
      using assms(3) by (auto simp: take_hold_def removeSessionHoldLocked_def Let_def in_session_def
          remove1_append)
  qed
  have "mg_totalBytes (take_hold i h' m) = (\<Sum>(k, h) \<leftarrow> ys @ zs. ha_sizeBytes h)"
    using assms(1,4) xs by (simp add: take_hold_def removeSessionHoldLocked_def Let_def manager_ok_def)
  with assms(1) xs del ss show ?thesis by (auto simp: manager_ok_def)
qed

definition keeps_ok :: "manager \<Rightarrow> manager \<Rightarrow> bool" where
  "keeps_ok m m' \<longleftrightarrow> (manager_ok m \<longrightarrow> manager_ok m')"

interpretation ok_rel: resolution_relation w keeps_ok for w
proof
  fix m i held dec src dec' src' m1 m2
  assume h: "map_of (mg_holds m) i = Some held"
    and st: "settle w (resolving held) dec src (take_hold i (resolving held) m) = (dec', src', m1)"
    and R: "keeps_ok m1 m2"
  have "manager_ok m \<Longrightarrow> manager_ok m1"
    using take_hold_ok [of m i held "resolving held"] h manager_ok_frame [of m1 "take_hold i (resolving held) m"] settle_frame [OF st] by simp
  with R show "keeps_ok m (deliver (resolving held) dec' src' m2)"
    using manager_ok_frame [of "deliver (resolving held) dec' src' m2" m2] by (simp add: keeps_ok_def)
qed (auto simp: keeps_ok_def)

text \<open>A resolver only removes holds.\<close>

definition shrinks :: "manager \<Rightarrow> manager \<Rightarrow> bool" where
  "shrinks m m' \<longleftrightarrow> mg_cfg m' = mg_cfg m \<and> (\<exists>P. mg_holds m' = filter P (mg_holds m))"

interpretation shrink_rel: resolution_relation w shrinks for w
proof
  fix m i held dec src dec' src' m1 m2
  assume st: "settle w (resolving held) dec src (take_hold i (resolving held) m) = (dec', src', m1)"
    and "shrinks m1 m2"
  then obtain P where "mg_holds m2 = filter P (AList.delete i (mg_holds m))" "mg_cfg m2 = mg_cfg m"
    using settle_frame [OF st] by (auto simp: shrinks_def)
  then show "shrinks m (deliver (resolving held) dec' src' m2)"
    by (auto simp: shrinks_def AList.delete_eq)
next
  show "shrinks m m" for m by (auto simp: shrinks_def intro: exI [of _ "\<lambda>_. True"])
  show "shrinks a b \<Longrightarrow> shrinks b c \<Longrightarrow> shrinks a c" for a b c by (auto simp: shrinks_def)
qed

lemma filter_filter_length: "length (filter Q (filter P xs)) \<le> length (filter Q xs)"
  by (induction xs) auto

lemma sum_filter_le:
  assumes "list_all (\<lambda>x. 0 \<le> f x) xs"
  shows "sum_list (map f (filter P xs)) \<le> sum_list (map (f :: 'a \<Rightarrow> int) xs)"
  using assms by (induction xs) auto

lemma shrinks_within:
  assumes "shrinks m m'" "manager_ok m" "within_bounds m"
  shows "within_bounds m'"
proof -
  from assms(1) obtain P where P: "mg_holds m' = filter P (mg_holds m)" and c: "mg_cfg m' = mg_cfg m"
    by (auto simp: shrinks_def)
  have "length (mg_holds m') \<le> length (mg_holds m)" by (simp add: P)
  moreover have "length (filter (in_session s) (mg_holds m')) \<le> length (filter (in_session s) (mg_holds m))" for s
    by (simp only: P filter_filter_length)
  moreover have "list_all (\<lambda>x. 0 \<le> (case x of (k, h) \<Rightarrow> ha_sizeBytes h)) (mg_holds m)"
    using assms(2) by (auto simp: manager_ok_def hold_ok_def list_all_iff)
  note sum_filter_le [OF this, of P]
  ultimately show ?thesis
    using assms(3) unfolding within_bounds_def P c by (meson of_nat_mono order_trans)
qed

lemma update_new: "k \<notin> fst ` set xs \<Longrightarrow> AList.update k v xs = xs @ [(k, v)]"
  by (induction xs) auto

lemma update_last: "k \<notin> fst ` set xs \<Longrightarrow> AList.update k v (xs @ [(k, u)]) = xs @ [(k, v)]"
  by (induction xs) auto

text \<open>A hold that is refused changes nothing but the journal.\<close>

lemma Hold_refused:
  assumes "Hold w now tnow a m = (Some e, m')"
  shows "mg_holds m' = mg_holds m" "mg_cfg m' = mg_cfg m" "mg_sessionHolds m' = mg_sessionHolds m"
    "mg_totalBytes m' = mg_totalBytes m" "mg_delivered m' = mg_delivered m"
    "mg_journal m' = mg_journal m \<or> (\<exists>j. mg_journal m' = mg_journal m @ [j] \<and> je_state j = StateAdmissionRejected)"
proof -
  define a1 where "a1 = stamp_action now a m"
  obtain ok m1 where jh: "journal_held w (the (link_action a1 m)) StateHeld [] m = (ok, m1)" by fastforce
  have cs: "m' = m \<or> (\<exists>x src. m' = journalRejectedHold w x src m) \<or> (m' = m1 \<and> \<not> ok)"
    using assms jh by (auto simp: Hold_def Let_def a1_def [symmetric] split: if_splits option.splits prod.splits)
  have jr: "mg_journal (journalRejectedHold w x src m) = mg_journal m \<or>
      (\<exists>j. mg_journal (journalRejectedHold w x src m) = mg_journal m @ [j] \<and> je_state j = StateAdmissionRejected)" for x src
    by (auto simp: journalRejectedHold_def journal_held_def appendJournal_def journalEntryFromHeld_def Let_def)
  have "\<not> ok \<Longrightarrow> mg_journal m1 = mg_journal m"
    using jh by (auto simp: journal_held_def appendJournal_def split: if_splits)
  with cs jr show "mg_journal m' = mg_journal m \<or> (\<exists>j. mg_journal m' = mg_journal m @ [j] \<and> je_state j = StateAdmissionRejected)"
    by blast
  from cs journal_held_frame [OF jh]
  show "mg_holds m' = mg_holds m" "mg_cfg m' = mg_cfg m" "mg_sessionHolds m' = mg_sessionHolds m"
    "mg_totalBytes m' = mg_totalBytes m" "mg_delivered m' = mg_delivered m" by auto
qed

text \<open>An admitted hold is appended, journalled first, with its timer running.\<close>

lemma Hold_admitted:
  assumes "Hold w now tnow a m = (None, m')"
  obtains h l where "link_action (stamp_action now a m) m = Some l" "h = l\<lparr>ha_timer := Some (tnow + dc_timeout (mg_cfg m))\<rparr>"
    "ha_deferID a \<noteq> []" "ha_deferID a \<notin> fst ` set (mg_holds m)" "\<not> over_capacity (stamp_action now a m) m"
    "ha_cascadeDepth l \<le> dc_maxCascadeDepth (mg_cfg m)"
    "mg_holds m' = mg_holds m @ [(ha_deferID a, h)]" "mg_cfg m' = mg_cfg m" "mg_delivered m' = mg_delivered m"
    "mg_sessionHolds m' = (mg_sessionHolds m)(au_sessionID (ha_authority a) :=
        mg_sessionHolds m (au_sessionID (ha_authority a)) @ [ha_deferID a])"
    "mg_totalBytes m' = mg_totalBytes m + ha_sizeBytes l"
    "mg_journal m' = mg_journal m @ (if dc_journalPath (mg_cfg m) = [] then []
       else [journalEntryFromHeld (w_now w (mg_writes m)) l StateHeld []])"
proof -
  define a1 where "a1 = stamp_action now a m"
  have id1: "ha_deferID a1 = ha_deferID a" "ha_authority a1 = ha_authority a" by (simp_all add: a1_def stamp_action_def)
  from assms obtain l where l: "link_action a1 m = Some l"
    by (auto simp: Hold_def Let_def a1_def [symmetric] split: if_splits option.splits prod.splits)
  obtain ok m1 where jh: "journal_held w l StateHeld [] m = (ok, m1)" by fastforce
  have g: "ha_deferID a \<noteq> []" "map_of (mg_holds m) (ha_deferID a) = None" "\<not> over_capacity a1 m"
      "ha_cascadeDepth l \<le> dc_maxCascadeDepth (mg_cfg m)" "ok" "m' = arm_timer tnow (ha_deferID l) (publish l m1)"
    using assms jh l id1 by (auto simp: Hold_def Let_def a1_def [symmetric] split: if_splits option.splits prod.splits)
  have lid: "ha_deferID l = ha_deferID a" "ha_authority l = ha_authority a" "ha_state l = StateHeld"
    using l id1 by (auto simp: link_action_def Let_def a1_def stamp_action_def split: if_splits option.splits)
  from g(2) have new: "ha_deferID a \<notin> fst ` set (mg_holds m)" by (simp add: map_of_eq_None_iff)
  note fr = journal_held_frame [OF jh]
  have pub: "mg_holds (publish l m1) = mg_holds m @ [(ha_deferID a, l)]"
    using new fr lid by (simp add: publish_def update_new)
  with new have "map_of (mg_holds (publish l m1)) (ha_deferID a) = Some l"
    by (simp add: map_of_append map_add_def dom_map_of_conv_image_fst split: option.split)
      (metis map_of_eq_None_iff option.distinct(1))
  with g(6) lid fr pub new have
    "mg_holds m' = mg_holds m @ [(ha_deferID a, l\<lparr>ha_timer := Some (tnow + dc_timeout (mg_cfg m))\<rparr>)]"
    "m' = (publish l m1)\<lparr>mg_holds := mg_holds m'\<rparr>"
    by (simp_all add: arm_timer_def update_last publish_def)
  moreover have "mg_journal m1 = mg_journal m @ (if dc_journalPath (mg_cfg m) = [] then []
       else [journalEntryFromHeld (w_now w (mg_writes m)) l StateHeld []])"
    using jh g(5) by (auto simp: journal_held_def appendJournal_def split: if_splits)
  ultimately show ?thesis
    using that [OF l [unfolded a1_def] refl] g new fr lid
    by (simp add: publish_def a1_def)
qed

lemma link_action_simps:
  assumes "link_action (stamp_action now a m) m = Some l"
  shows "ha_deferID l = ha_deferID a" "ha_authority l = ha_authority a" "ha_state l = StateHeld"
    "ha_sizeBytes l = max 0 (ha_sizeBytes a)"
  using assms by (auto simp: link_action_def Let_def stamp_action_def split: if_splits option.splits)

lemma Hold_keeps:
  assumes ok: "manager_ok m" and wb: "within_bounds m"
  shows "manager_ok (snd (Hold w now tnow a m)) \<and> within_bounds (snd (Hold w now tnow a m))"
proof -
  obtain r m' where H: "Hold w now tnow a m = (r, m')" by fastforce
  show ?thesis
  proof (cases r)
    case (Some e)
    note H [unfolded Some]
    note Hold_refused [OF this]
    then have "manager_ok m'" "within_bounds m'"
      using ok wb by (simp_all add: manager_ok_def within_bounds_def)
    with H show ?thesis by simp
  next
    case None
    from Hold_admitted [OF H [unfolded None]] obtain h l where
      *: "link_action (stamp_action now a m) m = Some l" "h = l\<lparr>ha_timer := Some (tnow + dc_timeout (mg_cfg m))\<rparr>"
      "ha_deferID a \<noteq> []" "ha_deferID a \<notin> fst ` set (mg_holds m)" "\<not> over_capacity (stamp_action now a m) m"
      "ha_cascadeDepth l \<le> dc_maxCascadeDepth (mg_cfg m)"
      "mg_holds m' = mg_holds m @ [(ha_deferID a, h)]" "mg_cfg m' = mg_cfg m"
      "mg_sessionHolds m' = (mg_sessionHolds m)(au_sessionID (ha_authority a) :=
        mg_sessionHolds m (au_sessionID (ha_authority a)) @ [ha_deferID a])"
      "mg_totalBytes m' = mg_totalBytes m + ha_sizeBytes l" by metis
    note l = link_action_simps [OF *(1)]
    have "manager_ok m'"
      using ok * l by (auto simp: manager_ok_def hold_ok_def in_session_def)
    moreover have "within_bounds m'"
      using ok wb *(5) l unfolding within_bounds_def *(2,7,8)
      by (auto simp: over_capacity_def manager_ok_def in_session_def stamp_action_def split: if_splits)
    ultimately show ?thesis using H by simp
  qed
qed

definition manager_good :: "manager \<Rightarrow> bool" where
  "manager_good m \<longleftrightarrow> manager_ok m \<and> within_bounds m"

interpretation manager_inv: kept_invariant "defer_step w" manager_good for w
proof
  fix m x
  assume good: "manager_good m"
  show "manager_good (defer_step w x m)"
  proof (cases "\<exists>now tnow a. x = OpHold now tnow a")
    case True
    with good Hold_keeps show ?thesis by (auto simp: manager_good_def)
  next
    case False
    then have "keeps_ok m (defer_step w x m)" "shrinks m (defer_step w x m)"
      using ok_rel.step_rel shrink_rel.step_rel by blast+
    with good shrinks_within show ?thesis by (auto simp: manager_good_def keeps_ok_def)
  qed
qed

lemma NewManager_good: "manager_good (NewManager cfg)"
  by (simp add: manager_good_def manager_ok_def within_bounds_def NewManager_def Let_def)

lemma run_cfg: "mg_cfg (fold (defer_step w) ops m) = mg_cfg m"
proof (induction ops arbitrary: m)
  case (Cons x ops)
  have "mg_cfg (defer_step w x m) = mg_cfg m"
  proof (cases "\<exists>now tnow a. x = OpHold now tnow a")
    case True
    then obtain now tnow a where x: "x = OpHold now tnow a" by blast
    obtain r m' where H: "Hold w now tnow a m = (r, m')" by fastforce
    then have "mg_cfg m' = mg_cfg m"
      by (cases r) (auto dest: Hold_refused(2) elim: Hold_admitted)
    with H x show ?thesis by simp
  next
    case False
    then have "shrinks m (defer_step w x m)" using shrink_rel.step_rel by blast
    then show ?thesis by (simp add: shrinks_def)
  qed
  with Cons show ?case by simp
qed simp

lemma run_good: "manager_good (fold (defer_step w) ops (NewManager cfg))"
  by (rule manager_inv.run_keeps) (rule NewManager_good)

text \<open>
  The manager's bounds hold after every sequence of holds, resolutions, timer firings, approvals,
  inventory events and policy reloads, for every pattern of journal failures: never more holds, holds
  per session or held bytes than configured (or defaulted), no hold deeper in a cascade than the
  limit; the byte counter is the sum over the held actions, and the per-session index lists exactly
  the holds of the session in the order they were admitted.
\<close>

theorem deferred_holds_bounded:
  fixes w :: world and cfg :: defer_config and ops :: "defer_op list"
  defines "m \<equiv> fold (defer_step w) ops (NewManager cfg)"
  defines "c \<equiv> mg_cfg (NewManager cfg)"
  shows "int (length (mg_holds m)) \<le> dc_maxPending c \<and>
    int (length (mg_sessionHolds m s)) \<le> dc_maxPendingPerSession c \<and>
    mg_totalBytes m \<le> dc_maxPendingBytes c \<and>
    mg_totalBytes m = (\<Sum>(k, h) \<leftarrow> mg_holds m. ha_sizeBytes h) \<and>
    mg_sessionHolds m s = map fst (filter (\<lambda>(k, h). au_sessionID (ha_authority h) = s) (mg_holds m)) \<and>
    list_all (\<lambda>(k, h). ha_cascadeDepth h \<le> dc_maxCascadeDepth c) (mg_holds m)"
proof -
  have good: "manager_ok m" "within_bounds m" and c: "mg_cfg m = c"
    using run_good [of w ops cfg] run_cfg [of w ops "NewManager cfg"]
    by (simp_all add: m_def c_def manager_good_def)
  then show ?thesis
    by (auto simp: manager_ok_def within_bounds_def hold_ok_def in_session_def list_all_iff)
qed

text \<open>No hold is admitted through a missing parent.\<close>

lemma Hold_no_nil:
  assumes "manager_ok m"
  shows "fst (Hold w now tnow a m) \<noteq> Some NilDereference"
proof -
  have "link_action (stamp_action now a m) m \<noteq> None"
  proof -
    let ?ids = "mg_sessionHolds m (au_sessionID (ha_authority a))"
    have "?ids \<noteq> [] \<Longrightarrow> last ?ids \<in> fst ` set (mg_holds m)"
      using assms last_in_set [of ?ids] by (auto simp: manager_ok_def)
    then show ?thesis
      by (auto simp: link_action_def Let_def stamp_action_def map_of_eq_None_iff split: option.splits)
  qed
  then show ?thesis by (auto simp: Hold_def Let_def split: option.split prod.split)
qed

section \<open>Exactly one delivery per admitted hold\<close>

definition account :: "manager \<Rightarrow> string multiset" where
  "account m = mset (map fst (mg_holds m)) + mset (map rs_deferID (mg_delivered m))"

definition same_account :: "manager \<Rightarrow> manager \<Rightarrow> bool" where
  "same_account m m' \<longleftrightarrow> (manager_ok m \<longrightarrow> manager_ok m' \<and> account m' = account m)"

interpretation account_rel: resolution_relation w same_account for w
proof
  fix m i held dec src dec' src' m1 m2
  assume h: "map_of (mg_holds m) i = Some held" and hs: "ha_state held = StateHeld"
    and st: "settle w (resolving held) dec src (take_hold i (resolving held) m) = (dec', src', m1)"
    and R: "same_account m1 m2"
  show "same_account m (deliver (resolving held) dec' src' m2)"
    unfolding same_account_def
  proof
    assume ok: "manager_ok m"
    have ok1: "manager_ok m1"
      using take_hold_ok [of m i held "resolving held"] ok h settle_frame [OF st]
        manager_ok_frame [of m1 "take_hold i (resolving held) m"] by simp
    from ok have d: "distinct (map fst (mg_holds m))" by (simp add: manager_ok_def)
    from delete_split [OF d h] obtain ys zs where "mg_holds m = ys @ (i, held) # zs"
      "AList.delete i (mg_holds m) = ys @ zs" by metis
    moreover have "ha_deferID held = i"
      using ok map_of_SomeD [OF h] by (auto simp: manager_ok_def hold_ok_def list_all_iff)
    ultimately have "account m = add_mset i (account m1)"
      using settle_frame [OF st] by (simp add: account_def)
    with R ok1 \<open>ha_deferID held = i\<close>
    show "manager_ok (deliver (resolving held) dec' src' m2) \<and> account (deliver (resolving held) dec' src' m2) = account m"
      using manager_ok_frame [of "deliver (resolving held) dec' src' m2" m2]
      by (simp add: same_account_def account_def resolution_of_def)
  qed
qed (auto simp: same_account_def)

text \<open>The ids of the holds that a run admits.\<close>

fun admitted_ids :: "world \<Rightarrow> defer_op list \<Rightarrow> manager \<Rightarrow> string list" where
  "admitted_ids w [] m = []"
| "admitted_ids w (x # xs) m =
     (case x of OpHold now tnow a \<Rightarrow> (if fst (Hold w now tnow a m) = None then [ha_deferID a] else [])
      | _ \<Rightarrow> []) @ admitted_ids w xs (defer_step w x m)"

lemma account_step:
  assumes "manager_good m"
  shows "account (defer_step w x m) = account m + mset (admitted_ids w [x] m)"
proof (cases "\<exists>now tnow a. x = OpHold now tnow a")
  case True
  then obtain now tnow a where x: "x = OpHold now tnow a" by blast
  obtain r m' where H: "Hold w now tnow a m = (r, m')" by fastforce
  show ?thesis
  proof (cases r)
    case (Some e)
    with Hold_refused [OF H [unfolded Some]] H x show ?thesis by (simp add: account_def)
  next
    case None
    from Hold_admitted [OF H [unfolded None]]
    have "mset (map fst (mg_holds m')) = add_mset (ha_deferID a) (mset (map fst (mg_holds m)))" "mg_delivered m' = mg_delivered m"
      by (metis (no_types, lifting) add_mset_add_single fst_conv list.simps(8) list.simps(9) map_append mset_append mset_single_iff_right)+
    with None H x show ?thesis by (simp add: account_def)
  qed
next
  case False
  then have "same_account m (defer_step w x m)" using account_rel.step_rel by blast
  with assms False show ?thesis by (cases x) (auto simp: same_account_def manager_good_def)
qed

lemma account_run:
  "manager_good m \<Longrightarrow> account (fold (defer_step w) ops m) = account m + mset (admitted_ids w ops m)"
proof (induction ops arbitrary: m)
  case (Cons x ops)
  from Cons.prems have "manager_good (defer_step w x m)" by (rule manager_inv.step_keeps)
  with Cons.IH account_step [OF Cons.prems, of w x] show ?case by (simp add: ac_simps)
qed simp

text \<open>
  C26. Exactly-once resolution: after every run, whatever journal writes fail, each id was admitted
  exactly as often as it was delivered to its callback plus once if it is still held. No admitted
  action is dropped, none is answered twice, and no callback runs for an action never admitted.
\<close>

theorem resolved_exactly_once:
  "let m = fold (defer_step w) ops (NewManager cfg) in
   count (mset (admitted_ids w ops (NewManager cfg))) d =
     count (mset (map rs_deferID (mg_delivered m))) d + (if d \<in> fst ` set (mg_holds m) then 1 else 0)"
proof -
  define m where "m = fold (defer_step w) ops (NewManager cfg)"
  have "account m = account (NewManager cfg) + mset (admitted_ids w ops (NewManager cfg))"
    unfolding m_def by (rule account_run) (rule NewManager_good)
  moreover have "account (NewManager cfg) = {#}" by (simp add: account_def NewManager_def Let_def)
  ultimately have *: "mset (admitted_ids w ops (NewManager cfg)) = account m" by simp
  have "distinct (map fst (mg_holds m))"
    using run_good [of w ops cfg] by (simp add: m_def manager_good_def manager_ok_def)
  then have "count (mset (map fst (mg_holds m))) d = (if d \<in> fst ` set (mg_holds m) then 1 else 0)"
    using distinct_count_atmost_1 [of "map fst (mg_holds m)"] by simp
  then show ?thesis by (simp add: * account_def m_def [symmetric] Let_def)
qed

end
