(* ===== verification/DeferredCascade.thy ===== *)
theory DeferredCascade
  imports DeferredHolds
begin

text \<open>
  What a resolution of the held-action manager removes: the hold itself and, unless it opens, the
  holds that descend from it. The section proves that the fuel of \<open>Resolve\<close> always suffices and
  that a cascade removes exactly the descendants and answers each with a block.
\<close>

section \<open>Cascades\<close>

text \<open>\<open>descends H F k\<close>: the hold \<open>k\<close> reaches an id of \<open>F\<close> through parents that are held in \<open>H\<close>.\<close>

inductive descends :: "(string \<times> held_action) list \<Rightarrow> string set \<Rightarrow> string \<Rightarrow> bool" for H F where
  child: "(k, h) \<in> set H \<Longrightarrow> ha_parentDeferID h \<in> F \<Longrightarrow> descends H F k"
| deeper: "(k, h) \<in> set H \<Longrightarrow> descends H F (ha_parentDeferID h) \<Longrightarrow> descends H F k"

inductive_cases descends_cases: "descends H F k"

abbreviation without :: "string set \<Rightarrow> (string \<times> held_action) list \<Rightarrow> (string \<times> held_action) list" where
  "without S H \<equiv> filter (\<lambda>(k, _). k \<notin> S) H"

lemma descends_mono: "descends H F k \<Longrightarrow> set H \<subseteq> set H' \<Longrightarrow> F \<subseteq> F' \<Longrightarrow> descends H' F' k"
  by (induction rule: descends.induct) (auto intro: descends.intros)

lemma descends_children:
  assumes "\<And>k. k \<in> C \<longleftrightarrow> (\<exists>h. (k, h) \<in> set H \<and> ha_parentDeferID h \<in> F)"
  shows "descends H F k \<longleftrightarrow> k \<in> C \<or> descends H C k"
proof
  show "descends H F k \<Longrightarrow> k \<in> C \<or> descends H C k"
    by (induction rule: descends.induct) (use assms in \<open>blast intro: descends.intros\<close>)+
  have "descends H C k \<Longrightarrow> descends H F k"
    by (induction rule: descends.induct) (use assms in \<open>blast intro: descends.intros\<close>)+
  then show "k \<in> C \<or> descends H C k \<Longrightarrow> descends H F k"
    using assms by (blast intro: descends.intros)
qed

text \<open>
  \<open>removed H C S\<close>: a set of ids that contains \<open>C\<close> and, besides, only descendants of \<open>C\<close>, each with
  all of its own children.
\<close>

definition removed :: "(string \<times> held_action) list \<Rightarrow> string set \<Rightarrow> string set \<Rightarrow> bool" where
  "removed H C S \<longleftrightarrow> C \<subseteq> S \<and> (\<forall>k \<in> S. k \<in> C \<or> descends H C k) \<and>
     (\<forall>(k, h) \<in> set H. ha_parentDeferID h \<in> S - C \<longrightarrow> k \<in> S)"

lemma removed_rest:
  assumes "removed H C S"
  shows "k \<in> S \<or> descends (without S H) C k \<longleftrightarrow> k \<in> C \<or> descends H C k"
proof
  have "descends H C k \<Longrightarrow> k \<in> S \<or> descends (without S H) C k"
  proof (induction rule: descends.induct)
    case (child k h)
    then show ?case by (cases "k \<in> S") (auto intro: descends.child)
  next
    case (deeper k h)
    show ?case
    proof (cases "k \<in> S")
      case False
      with deeper.hyps(1) have live: "(k, h) \<in> set (without S H)" by simp
      from deeper.IH show ?thesis
      proof
        assume p: "ha_parentDeferID h \<in> S"
        with assms deeper.hyps(1) False have "ha_parentDeferID h \<in> C" by (auto simp: removed_def)
        with live show ?thesis by (blast intro: descends.child)
      qed (use live in \<open>blast intro: descends.deeper\<close>)
    qed simp
  qed
  then show "k \<in> C \<or> descends H C k \<Longrightarrow> k \<in> S \<or> descends (without S H) C k"
    using assms by (auto simp: removed_def)
  show "k \<in> S \<or> descends (without S H) C k \<Longrightarrow> k \<in> C \<or> descends H C k"
    using assms descends_mono [of "without S H" C k H C] by (auto simp: removed_def)
qed

lemma removed_trans:
  assumes "removed H {i} S1" "removed (without S1 H) C S2"
  shows "removed H (insert i C) (S1 \<union> S2)"
  unfolding removed_def
proof (intro conjI)
  show "insert i C \<subseteq> S1 \<union> S2" using assms by (auto simp: removed_def)
  have "descends H {i} k \<Longrightarrow> descends H (insert i C) k" "descends (without S1 H) C k \<Longrightarrow> descends H (insert i C) k" for k
    by (auto elim!: descends_mono)
  then show "\<forall>k \<in> S1 \<union> S2. k \<in> insert i C \<or> descends H (insert i C) k"
    using assms unfolding removed_def by blast
  show "\<forall>(k, h) \<in> set H. ha_parentDeferID h \<in> S1 \<union> S2 - insert i C \<longrightarrow> k \<in> S1 \<union> S2"
    using assms unfolding removed_def by fastforce
qed

lemma removed_single: "removed H {i} {i}"
  by (auto simp: removed_def)

lemma removed_all: "removed H {i} (insert i {k. descends H {i} k})"
  by (auto simp: removed_def intro: descends.intros)

lemma descends_after_take:
  "insert i {k. descends (without {i} H) {i} k} = insert i {k. descends H {i} k}"
  using removed_rest [OF removed_single [of H i]] by blast

lemma without_without: "without T (without S H) = without (S \<union> T) H"
  by (auto intro: filter_cong)

lemma without_live: "(\<And>k h. (k, h) \<in> set H \<Longrightarrow> k \<in> S \<longleftrightarrow> k \<in> T) \<Longrightarrow> without S H = without T H"
  by (auto intro!: filter_cong)

definition fair_order :: "world \<Rightarrow> bool" where
  "fair_order w \<longleftrightarrow> (\<forall>xs. mset (w_order w xs) = mset xs)"

lemma children_of_set:
  "fair_order w \<Longrightarrow> set (children_of w F m) = {k. \<exists>h. (k, h) \<in> set (mg_holds m) \<and> ha_parentDeferID h \<in> set F}"
  using mset_eq_setD [of "w_order w xs" xs for xs]
  by (force simp: fair_order_def children_of_def image_iff)

text \<open>What one resolution removes: its hold and, unless it opens or is itself part of a cascade, the descendants.\<close>

definition removes :: "manager \<Rightarrow> string set \<Rightarrow> manager \<Rightarrow> bool" where
  "removes m S m' \<longleftrightarrow> mg_holds m' = without S (mg_holds m)"

definition opened :: "resolution \<Rightarrow> bool" where
  "opened r \<longleftrightarrow> rs_finalDecision r = ''allow'' \<or> rs_source r = ''cascade''"

lemma resolve_removes:
  assumes cascade: "\<And>m i m'. manager_ok m \<Longrightarrow> cascade_fuel n w [i] m = Some m' \<Longrightarrow>
      removes m {k. descends (mg_holds m) {i} k} m'"
    and ok: "manager_ok m" and run: "resolve_fuel (Suc n) w i dec src m = Some (None, m')"
  shows "i \<in> fst ` set (mg_holds m) \<and>
    removes m (if opened (last (mg_delivered m')) then {i} else insert i {k. descends (mg_holds m) {i} k}) m'"
proof -
  from resolve_fuel_step [OF run] obtain held dec' src' m1 m2 where
    h: "map_of (mg_holds m) i = Some held" and
    st: "settle w (resolving held) (if dec = [] then ''block'' else dec) (if src = [] then ''context'' else src)
        (take_hold i (resolving held) m) = (dec', src', m1)" and
    c: "if dec' \<noteq> ''allow'' \<and> src' \<noteq> ''cascade'' then cascade_fuel n w [ha_deferID held] m1 = Some m2 else m2 = m1" and
    m': "m' = deliver (resolving held) dec' src' m2" by blast
  have i: "ha_deferID held = i"
    using ok map_of_SomeD [OF h] by (auto simp: manager_ok_def hold_ok_def list_all_iff)
  have m1: "mg_holds m1 = without {i} (mg_holds m)"
    using settle_frame [OF st] by (auto simp: AList.delete_eq intro: filter_cong)
  have ok1: "manager_ok m1"
    using take_hold_ok [of m i held "resolving held"] ok h settle_frame [OF st]
      manager_ok_frame [of m1 "take_hold i (resolving held) m"] by simp
  have op: "opened (last (mg_delivered m')) \<longleftrightarrow> \<not> (dec' \<noteq> ''allow'' \<and> src' \<noteq> ''cascade'')"
    by (auto simp: opened_def m' resolution_of_def)
  have "removes m (if opened (last (mg_delivered m')) then {i} else insert i {k. descends (mg_holds m) {i} k}) m'"
  proof (cases "opened (last (mg_delivered m'))")
    case True
    with op c have "m2 = m1" by (simp split: if_splits)
    with True m1 m' show ?thesis by (simp add: removes_def)
  next
    case False
    with op c have "cascade_fuel n w [i] m1 = Some m2" by (simp add: i)
    from cascade [OF ok1 this] have "mg_holds m2 = without (insert i {k. descends (without {i} (mg_holds m)) {i} k}) (mg_holds m)"
      by (simp only: removes_def m1 without_without) simp
    with False m' show ?thesis
      unfolding removes_def by (simp only: descends_after_take deliver_frame if_False)
  qed
  moreover have "i \<in> fst ` set (mg_holds m)" using map_of_SomeD [OF h] by force
  ultimately show ?thesis by simp
qed

lemma without_absent: "i \<notin> fst ` set H \<Longrightarrow> without {i} H = H"
  by (force simp: filter_id_conv)

lemma resolve_removed:
  assumes res: "\<And>i m m'. manager_ok m \<Longrightarrow> resolve_fuel n w i ''block'' ''cascade'' m = Some (None, m') \<Longrightarrow>
      i \<in> fst ` set (mg_holds m) \<and>
      removes m (if opened (last (mg_delivered m')) then {i} else insert i {k. descends (mg_holds m) {i} k}) m'"
    and ok: "manager_ok m" and run: "resolve_fuel n w i ''block'' ''cascade'' m = Some (r, m1)"
  shows "\<exists>S. removed (mg_holds m) {i} S \<and> removes m S m1"
proof (cases r)
  case None
  with res [OF ok] run have "removes m (if opened (last (mg_delivered m1)) then {i}
      else insert i {k. descends (mg_holds m) {i} k}) m1" by simp
  moreover have "removed (mg_holds m) {i} (if opened (last (mg_delivered m1)) then {i}
      else insert i {k. descends (mg_holds m) {i} k})"
    by (simp add: removed_single removed_all)
  ultimately show ?thesis by blast
next
  case (Some e)
  obtain n' where n: "n = Suc n'" using run by (cases n) auto
  have "map_of (mg_holds m) i = None"
  proof (rule ccontr)
    assume "map_of (mg_holds m) i \<noteq> None"
    then obtain held where h: "map_of (mg_holds m) i = Some held" by blast
    then have "ha_state held = StateHeld"
      using ok map_of_SomeD [OF h] by (auto simp: manager_ok_def hold_ok_def list_all_iff)
    with h run Some n show False by (auto simp: Let_def split: option.splits if_splits prod.splits)
  qed
  then have "i \<notin> fst ` set (mg_holds m)" by (simp only: map_of_eq_None_iff not_False_eq_True)
  then have "without {i} (mg_holds m) = mg_holds m" by (rule without_absent)
  moreover have "m1 = m" using resolve_fuel_step [OF run [unfolded n]] Some by auto
  ultimately show ?thesis by (metis removed_single removes_def)
qed

lemma block_each_removes:
  assumes res: "\<And>i m m'. manager_ok m \<Longrightarrow> resolve_fuel n w i ''block'' ''cascade'' m = Some (None, m') \<Longrightarrow>
      i \<in> fst ` set (mg_holds m) \<and>
      removes m (if opened (last (mg_delivered m')) then {i} else insert i {k. descends (mg_holds m) {i} k}) m'"
  shows "manager_ok m \<Longrightarrow> block_each_fuel n w ids m = Some m' \<Longrightarrow>
    \<exists>S. removed (mg_holds m) (set ids) S \<and> removes m S m'"
proof (induction ids arbitrary: m)
  case Nil
  have "removed (mg_holds m) {} {}" by (simp add: removed_def)
  with Nil show ?case by (force simp: removes_def intro: exI [of _ "{}"])
next
  case (Cons i ids)
  from Cons.prems(2) obtain r m1 where run: "resolve_fuel n w i ''block'' ''cascade'' m = Some (r, m1)"
    and rest: "block_each_fuel n w ids m1 = Some m'" by (auto split: option.splits)
  from resolve_removed [OF res Cons.prems(1) run] obtain S1
    where S1: "removed (mg_holds m) {i} S1" "removes m S1 m1" by blast
  have "keeps_ok m m1" using ok_rel.fuel_rel [of n w] run by fastforce
  with Cons.prems(1) Cons.IH [OF _ rest] obtain S2
    where S2: "removed (mg_holds m1) (set ids) S2" "removes m1 S2 m'" by (auto simp: keeps_ok_def)
  from S1 S2 have "removed (mg_holds m) (insert i (set ids)) (S1 \<union> S2)"
    by (intro removed_trans) (simp_all add: removes_def)
  moreover have "removes m (S1 \<union> S2) m'" using S1(2) S2(2) by (simp only: removes_def without_without)
  ultimately show ?case by auto
qed

lemma cascade_removes:
  assumes fair: "fair_order w"
  shows "manager_ok m \<Longrightarrow> cascade_fuel n w F m = Some m' \<Longrightarrow> removes m {k. descends (mg_holds m) (set F) k} m'"
proof (induction n arbitrary: F m m' rule: less_induct)
  case (less n)
  obtain n1 where n: "n = Suc n1" using less.prems by (cases n) auto
  let ?C = "children_of w F m"
  have step: "descends (mg_holds m) (set F) k \<longleftrightarrow> k \<in> set ?C \<or> descends (mg_holds m) (set ?C) k" for k
    by (rule descends_children) (simp add: children_of_set [OF fair])
  show ?case
  proof (cases "?C = []")
    case True
    have "\<not> descends H {} k" for H k
    proof
      assume "descends H {} k"
      then show False by (induction rule: descends.induct) auto
    qed
    with step True have "{k. descends (mg_holds m) (set F) k} = {}" by simp
    moreover have "m' = m" using less.prems n True by (auto simp: Let_def split: if_splits)
    ultimately show ?thesis by (auto simp: removes_def filter_id_conv intro: sym)
  next
    case False
    have "F \<noteq> []" using False children_of_set [OF fair, of F m] by auto
    with False less.prems(2) n obtain m1 where each: "block_each_fuel n1 w ?C m = Some m1"
      and rest: "cascade_fuel n1 w ?C m1 = Some m'"
      by (auto simp: Let_def split: option.splits if_splits)
    have "\<exists>S. removed (mg_holds m) (set ?C) S \<and> removes m S m1"
    proof (rule block_each_removes [OF _ less.prems(1) each])
      fix i m m'
      assume ok: "manager_ok m" and run: "resolve_fuel n1 w i ''block'' ''cascade'' m = Some (None, m')"
      obtain n2 where n2: "n1 = Suc n2" using run by (cases n1) auto
      show "i \<in> fst ` set (mg_holds m) \<and>
         removes m (if opened (last (mg_delivered m')) then {i} else insert i {k. descends (mg_holds m) {i} k}) m'"
        using resolve_removes [OF _ ok run [unfolded n2]] less.IH [of n2 _ "[j]" for j] n n2 by simp
    qed
    then obtain S where S: "removed (mg_holds m) (set ?C) S" "removes m S m1" by blast
    have "keeps_ok m m1"
      using ok_rel.each_rel [of n1 w ?C m m1] ok_rel.fuel_rel [of n1 w] each by blast
    with less.prems(1) have "removes m1 {k. descends (mg_holds m1) (set ?C) k} m'"
      using less.IH [OF _ _ rest] n by (simp add: keeps_ok_def)
    then have "mg_holds m' = without (S \<union> {k. descends (without S (mg_holds m)) (set ?C) k}) (mg_holds m)"
      using S(2) by (simp only: removes_def without_without)
    moreover have "S \<union> {k. descends (without S (mg_holds m)) (set ?C) k} = {k. descends (mg_holds m) (set F) k}"
      using removed_rest [OF S(1)] step by blast
    ultimately show ?thesis by (simp only: removes_def)
  qed
qed

text \<open>Enough fuel: a call uses one unit and every second nested call has one hold less.\<close>

lemma fuel_holds_le: "resolve_fuel n w i dec src m = Some (r, m') \<Longrightarrow> length (mg_holds m') \<le> length (mg_holds m)"
  using shrink_rel.fuel_rel [of n w] unfolding shrinks_def by (metis length_filter_le snd_conv)

lemma resolve_live_shrinks:
  assumes ok: "manager_ok m" and live: "i \<in> fst ` set (mg_holds m)"
    and run: "resolve_fuel n w i dec src m = Some (r, m1)"
  shows "length (mg_holds m1) < length (mg_holds m)"
proof -
  obtain n' where n: "n = Suc n'" using run by (cases n) auto
  from live obtain held where h: "map_of (mg_holds m) i = Some held" by (metis map_of_eq_None_iff not_None_eq)
  then have "ha_state held = StateHeld"
    using ok map_of_SomeD [OF h] by (auto simp: manager_ok_def hold_ok_def list_all_iff)
  with h run n have "r = None" by (auto simp: Let_def split: option.splits if_splits prod.splits)
  with resolve_fuel_step [OF run [unfolded n]] obtain dec0 src0 dec' src' m2 m3 where
    st: "settle w (resolving held) dec0 src0 (take_hold i (resolving held) m) = (dec', src', m2)" and
    c: "if dec' \<noteq> ''allow'' \<and> src' \<noteq> ''cascade'' then cascade_fuel n' w [ha_deferID held] m2 = Some m3 else m3 = m2" and
    m1: "m1 = deliver (resolving held) dec' src' m3" using h by auto
  have "shrinks m2 m3"
    using c shrink_rel.fuel_rel [of n' w] shrink_rel.R_refl [of m2] by (auto split: if_splits)
  then have "length (mg_holds m3) \<le> length (mg_holds m2)" by (auto simp: shrinks_def)
  moreover have "length (mg_holds m2) < length (mg_holds m)"
    using settle_frame(1) [OF st] ok by (auto simp: manager_ok_def elim!: delete_split [OF _ h])
  ultimately show ?thesis using m1 by simp
qed

lemma block_each_runs:
  assumes run: "\<And>i m. manager_ok m \<Longrightarrow> length (mg_holds m) \<le> h \<Longrightarrow>
      \<exists>r. resolve_fuel n w i ''block'' ''cascade'' m = Some r"
  shows "manager_ok m \<Longrightarrow> length (mg_holds m) \<le> h \<Longrightarrow>
    \<exists>m'. block_each_fuel n w ids m = Some m' \<and> manager_ok m' \<and> length (mg_holds m') \<le> length (mg_holds m) \<and>
      (ids \<noteq> [] \<and> hd ids \<in> fst ` set (mg_holds m) \<longrightarrow> length (mg_holds m') < length (mg_holds m))"
proof (induction ids arbitrary: m)
  case (Cons i ids)
  from run [OF Cons.prems] obtain r m1 where r: "resolve_fuel n w i ''block'' ''cascade'' m = Some (r, m1)" by fastforce
  have "keeps_ok m m1" using ok_rel.fuel_rel [of n w] r by fastforce
  with fuel_holds_le [OF r] Cons.prems Cons.IH [of m1] obtain m' where
    m': "block_each_fuel n w ids m1 = Some m'" "manager_ok m'" "length (mg_holds m') \<le> length (mg_holds m1)"
    by (auto simp: keeps_ok_def)
  have "i \<in> fst ` set (mg_holds m) \<Longrightarrow> length (mg_holds m') < length (mg_holds m)"
    using resolve_live_shrinks [OF Cons.prems(1) _ r] m'(3) le_less_trans by blast
  moreover have "block_each_fuel n w (i # ids) m = Some m'" using r m' by simp
  moreover have "length (mg_holds m') \<le> length (mg_holds m)" using m'(3) fuel_holds_le [OF r] by simp
  ultimately show ?case using m'(2) by (metis list.sel(1))
qed simp

lemma resolve_runs:
  assumes casc: "\<And>i m. manager_ok m \<Longrightarrow> length (mg_holds m) < h \<Longrightarrow> \<exists>m'. cascade_fuel n w [i] m = Some m'"
    and ok: "manager_ok m" "length (mg_holds m) \<le> h"
  shows "\<exists>r. resolve_fuel (Suc n) w i dec src m = Some r"
proof (cases "map_of (mg_holds m) i")
  case (Some held)
  obtain dec' src' m1 where st: "settle w (resolving held) (if dec = [] then ''block'' else dec)
    (if src = [] then ''context'' else src) (take_hold i (resolving held) m) = (dec', src', m1)"
    by (metis prod_cases3)
  have ok1: "manager_ok m1"
    using take_hold_ok [of m i held "resolving held"] ok Some settle_frame [OF st]
      manager_ok_frame [of m1 "take_hold i (resolving held) m"] by simp
  have "length (mg_holds m1) < length (mg_holds m)"
    using settle_frame(1) [OF st] ok by (auto simp: manager_ok_def elim!: delete_split [OF _ Some])
  with casc [OF ok1, of "ha_deferID held"] ok obtain m2 where "cascade_fuel n w [ha_deferID held] m1 = Some m2" by auto
  with st [unfolded resolving_def] Some show ?thesis by (auto simp: Let_def)
qed (simp add: Let_def)

declare resolve_fuel.simps(2) [simp del] and cascade_fuel.simps(2) [simp del]

lemma fuel_enough:
  assumes fair: "fair_order w"
  shows "(\<forall>m F n. manager_ok m \<and> length (mg_holds m) \<le> h \<and> 2 * h < n \<longrightarrow> (\<exists>m'. cascade_fuel n w F m = Some m')) \<and>
    (\<forall>m i dec src n. manager_ok m \<and> length (mg_holds m) \<le> h \<and> 2 * h \<le> n \<longrightarrow>
      (\<exists>r. resolve_fuel (Suc n) w i dec src m = Some r))"
proof (induction h rule: less_induct)
  case (less h)
  have res: "\<exists>r. resolve_fuel (Suc n) w i dec src m = Some r"
    if "manager_ok m" "length (mg_holds m) \<le> h" "2 * h \<le> Suc n" for m i dec src n
  proof (rule resolve_runs [OF _ that(1,2)])
    fix i m
    assume m: "manager_ok m" "length (mg_holds m) < h"
    then have "2 * (h - 1) < n" using that(3) by simp
    with m less.IH [of "h - 1"] show "\<exists>m'. cascade_fuel n w [i] m = Some m'" by simp
  qed
  have "\<exists>m'. cascade_fuel n w F m = Some m'"
    if m: "manager_ok m" "length (mg_holds m) \<le> h" and n: "2 * h < n" for m F n
  proof -
    obtain n1 where n1: "n = Suc n1" using n by (cases n) auto
    let ?C = "children_of w F m"
    show ?thesis
    proof (cases "F = [] \<or> ?C = []")
      case False
      have live: "hd ?C \<in> fst ` set (mg_holds m)"
        using False hd_in_set [of ?C] children_of_set [OF fair, of F m] by force
      then have h: "0 < h" using m by (cases h) auto
      with n n1 obtain n2 where n2: "n1 = Suc n2" by (cases n1) auto
      have "\<exists>m'. block_each_fuel n1 w ?C m = Some m' \<and> manager_ok m' \<and> length (mg_holds m') \<le> length (mg_holds m) \<and>
          (?C \<noteq> [] \<and> hd ?C \<in> fst ` set (mg_holds m) \<longrightarrow> length (mg_holds m') < length (mg_holds m))"
      proof (rule block_each_runs [OF _ m])
        fix i m
        assume "manager_ok m" "length (mg_holds m) \<le> h"
        moreover have "2 * h \<le> Suc n2" using n n1 n2 by simp
        ultimately show "\<exists>r. resolve_fuel n1 w i ''block'' ''cascade'' m = Some r"
          unfolding n2 by (rule res)
      qed
      with False live obtain m1 where m1: "block_each_fuel n1 w ?C m = Some m1" "manager_ok m1"
        "length (mg_holds m1) < length (mg_holds m)" by blast
      have "length (mg_holds m1) \<le> h - 1" "2 * (h - 1) < n1" using m m1(3) n n1 h by simp_all
      with h m1(2) less.IH [of "h - 1"] obtain m' where "cascade_fuel n1 w ?C m1 = Some m'"
        by (metis diff_less zero_less_one)
      with False m1 n1 show ?thesis by (simp add: Let_def cascade_fuel.simps(2))
    qed (auto simp: n1 Let_def cascade_fuel.simps(2))
  qed
  with res show ?case by simp
qed

lemma Resolve_runs:
  assumes "fair_order w" "manager_ok m"
  obtains r where "resolve_fuel (2 * length (mg_holds m) + 1) w i dec src m = Some r" "Resolve w i dec src m = r"
proof -
  from fuel_enough [OF assms(1), of "length (mg_holds m)"] assms(2)
  obtain r where "resolve_fuel (2 * length (mg_holds m) + 1) w i dec src m = Some r"
    by (metis Suc_eq_plus1 order_refl)
  then show ?thesis using that by (simp add: Resolve_def)
qed

text \<open>A cascade only blocks.\<close>

definition adds_blocks :: "manager \<Rightarrow> manager \<Rightarrow> bool" where
  "adds_blocks m m' \<longleftrightarrow> (\<exists>ds. mg_delivered m' = mg_delivered m @ ds \<and> list_all (\<lambda>r. rs_finalDecision r = ''block'') ds)"

lemma adds_blocks_trans: "adds_blocks a b \<Longrightarrow> adds_blocks b c \<Longrightarrow> adds_blocks a c"
  by (force simp: adds_blocks_def)

lemma adds_blocks_refl: "adds_blocks m m"
  by (simp add: adds_blocks_def)

lemma settle_block: "settle w h ''block'' src m = (dec', src', m1) \<Longrightarrow> dec' = ''block''"
  by (auto simp: settle_def split: if_splits prod.splits)

lemma cascade_adds_blocks: "cascade_fuel n w F m = Some m' \<Longrightarrow> adds_blocks m m'"
proof (induction n arbitrary: F m m' rule: less_induct)
  case (less n)
  obtain n1 where n: "n = Suc n1" using less.prems by (cases n) auto
  have res: "adds_blocks m m'" if run: "resolve_fuel n1 w i ''block'' ''cascade'' m = Some (r, m')" for i m r m'
  proof -
    obtain n2 where n2: "n1 = Suc n2" using run by (cases n1) auto
    show ?thesis
    proof (cases r)
      case None
      with resolve_fuel_step [OF run [unfolded n2]] obtain held dec' src' m1 m2 where
        st: "settle w (resolving held) ''block'' ''cascade'' (take_hold i (resolving held) m) = (dec', src', m1)" and
        c: "if dec' \<noteq> ''allow'' \<and> src' \<noteq> ''cascade'' then cascade_fuel n2 w [ha_deferID held] m1 = Some m2 else m2 = m1" and
        m': "m' = deliver (resolving held) dec' src' m2" by auto
      have "adds_blocks m1 m2"
        using c less.IH [of n2] n n2 adds_blocks_refl [of m1] by (auto split: if_splits)
      then show ?thesis
        using settle_block [OF st] settle_frame(5) [OF st] m' by (auto simp: adds_blocks_def resolution_of_def)
    qed (use resolve_fuel_step [OF run [unfolded n2]] adds_blocks_refl in auto)
  qed
  have each: "block_each_fuel n1 w ids m = Some m' \<Longrightarrow> adds_blocks m m'" for ids m m'
  proof (induction ids arbitrary: m)
    case (Cons i ids)
    then show ?case using res adds_blocks_trans by (fastforce split: option.splits)
  qed (simp add: adds_blocks_refl)
  show ?case
  proof (cases "F = [] \<or> children_of w F m = []")
    case True
    with less.prems n show ?thesis by (auto simp: Let_def cascade_fuel.simps(2) adds_blocks_refl split: if_splits)
  next
    case False
    with less.prems n obtain m1 where "block_each_fuel n1 w (children_of w F m) m = Some m1"
      "cascade_fuel n1 w (children_of w F m) m1 = Some m'"
      by (auto simp: Let_def cascade_fuel.simps(2) split: option.splits if_splits)
    then show ?thesis using each less.IH [of n1] n adds_blocks_trans by blast
  qed
qed

text \<open>
  C6. Resolving a held action answers it last, after its cascade. When the outcome is not an allow,
  exactly the holds that descend from it through held parents are blocked with it, whatever order Go
  ranges over the map and whichever journal writes fail; an allow touches no other hold. Every other
  hold stays as it was.
\<close>

theorem block_cascades_to_descendants:
  assumes fair: "fair_order w" and live: "i \<in> fst ` set (mg_holds m)" and src: "src \<noteq> ''cascade''"
    and m: "m = fold (defer_step w) ops (NewManager cfg)"
    and run: "Resolve w i dec src m = (r, m')"
  shows "r = None \<and> (\<exists>ds final.
     mg_delivered m' = mg_delivered m @ ds @ [final] \<and> rs_deferID final = i \<and>
     list_all (\<lambda>r. rs_finalDecision r = ''block'') ds \<and>
     mset (map rs_deferID ds) + mset (map fst (mg_holds m')) + {#i#} = mset (map fst (mg_holds m)) \<and>
     mg_holds m' = filter (\<lambda>(k, _). k \<noteq> i \<and> (rs_finalDecision final = ''allow'' \<or> \<not> descends (mg_holds m) {i} k)) (mg_holds m))"
proof -
  have ok: "manager_ok m" using run_good [of w ops cfg] by (simp add: m manager_good_def)
  define n where "n = 2 * length (mg_holds m)"
  have fuel: "resolve_fuel (Suc n) w i dec src m = Some (r, m')"
    using Resolve_runs [OF fair ok, of i dec src] run unfolding n_def by (metis Suc_eq_plus1)
  from live obtain held where h: "map_of (mg_holds m) i = Some held" by (metis map_of_eq_None_iff not_None_eq)
  have held: "ha_state held = StateHeld" "ha_deferID held = i"
    using ok map_of_SomeD [OF h] by (auto simp: manager_ok_def hold_ok_def list_all_iff)
  have r: "r = None"
    using fuel h held by (auto simp: resolve_fuel.simps(2) Let_def split: option.splits if_splits prod.splits)
  with resolve_fuel_step [OF fuel] h obtain dec' src' m1 m2 where
    st: "settle w (resolving held) (if dec = [] then ''block'' else dec) (if src = [] then ''context'' else src)
      (take_hold i (resolving held) m) = (dec', src', m1)" and
    c: "if dec' \<noteq> ''allow'' \<and> src' \<noteq> ''cascade'' then cascade_fuel n w [ha_deferID held] m1 = Some m2 else m2 = m1" and
    m': "m' = deliver (resolving held) dec' src' m2" by auto
  have src': "src' \<noteq> ''cascade''" using st src by (auto simp: settle_def split: prod.splits if_splits)
  have "adds_blocks m1 m2"
    using c cascade_adds_blocks adds_blocks_refl by (auto split: if_splits)
  then obtain ds where ds: "mg_delivered m2 = mg_delivered m @ ds" "list_all (\<lambda>r. rs_finalDecision r = ''block'') ds"
    using settle_frame(5) [OF st] by (auto simp: adds_blocks_def)
  define final where "final = resolution_of (resolving held) dec' src'"
  have fin: "rs_deferID final = i" "rs_finalDecision final = dec'" "rs_source final = src'"
    by (simp_all add: final_def resolution_of_def held)
  have del: "mg_delivered m' = mg_delivered m @ ds @ [final]" by (simp add: m' ds final_def)
  have "same_account m m'"
    using account_rel.fuel_rel [of "Suc n" w] fuel by fastforce
  then have "account m' = account m" using ok by (simp add: same_account_def)
  then have acc: "mset (map rs_deferID ds) + mset (map fst (mg_holds m')) + {#i#} = mset (map fst (mg_holds m))"
    using del fin by (simp add: account_def ac_simps)
  have "removes m (if opened (last (mg_delivered m')) then {i} else insert i {k. descends (mg_holds m) {i} k}) m'"
    using resolve_removes [OF _ ok fuel [unfolded r]] cascade_removes [OF fair, of _ n "[j]" for j] by simp
  then have "mg_holds m' = filter (\<lambda>(k, _). k \<noteq> i \<and> (rs_finalDecision final = ''allow'' \<or> \<not> descends (mg_holds m) {i} k)) (mg_holds m)"
    unfolding removes_def del opened_def using fin src' by (auto intro: filter_cong)
  with r del fin acc ds show ?thesis by blast
qed

definition plain_world :: world where
  "plain_world = \<lparr>w_writeFails = (\<lambda>_. False), w_partial = (\<lambda>_. False), w_now = (\<lambda>_. 0), w_order = (\<lambda>xs. xs), w_lineBytes = (\<lambda>_. 0)\<rparr>"

definition demo_action :: "string \<Rightarrow> string \<Rightarrow> held_action" where
  "demo_action deferID sess =
     \<lparr>ha_deferID = deferID, ha_actionID = [], ha_target = [], ha_reason = [], ha_surface = [], ha_method = [],
      ha_sizeBytes = 10,
      ha_policy = \<lparr>rp_timeout = 0, rp_maxPending = 0, rp_maxPendingPerSession = 0, rp_maxPendingBytes = 0, rp_maxCascadeDepth = 0\<rparr>,
      ha_rulePolicy = \<lparr>dp_resolverProfile = [], dp_allow_policyPermits = False, dp_allow_approval = True,
        dp_allow_toolInventoryBaseline = False, dp_stepup_approvalRequestsHuman = False\<rparr>,
      ha_authority = \<lparr>au_principal = [], au_actor = [], au_sessionID = sess, au_sessionIDOriginal = sess\<rparr>,
      ha_parentDeferID = [], ha_cascadeDepth = 0, ha_linkage = [], ha_deadline = 0, ha_payload = [], ha_argDigest = [],
      ha_resolve = True, ha_timer = None, ha_state = [], ha_createdAt = 0\<rparr>"

definition demo_config :: defer_config where
  "demo_config = \<lparr>dc_enabled = True, dc_timeout = 0, dc_maxPending = 0, dc_maxPendingPerSession = 0,
     dc_maxPendingBytes = 0, dc_maxCascadeDepth = 0, dc_journalPath = ''holds.jsonl''\<rparr>"

definition demo_ops :: "defer_op list" where
  "demo_ops = [OpHold 0 0 (demo_action ''a'' ''s''), OpHold 1 1 (demo_action ''b'' ''s''), OpHold 2 2 (demo_action ''c'' ''t'')]"

definition demo_manager :: manager where
  "demo_manager = fold (defer_step plain_world) demo_ops (NewManager demo_config)"

lemma plain_world_fair: "fair_order plain_world"
  by (simp add: fair_order_def plain_world_def)

theorem block_cascades_to_descendants_witness:
  "map fst (mg_holds demo_manager) = [''a'', ''b'', ''c''] \<and>
   fst (Resolve plain_world ''a'' ''block'' ''operator'' demo_manager) = None \<and>
   ''b'' \<notin> fst ` set (mg_holds (snd (Resolve plain_world ''a'' ''block'' ''operator'' demo_manager)))"
proof -
  let ?R = "Resolve plain_world ''a'' ''block'' ''operator'' demo_manager"
  have ids: "map fst (mg_holds demo_manager) = [''a'', ''b'', ''c'']" by code_simp
  then have live: "''a'' \<in> fst ` set (mg_holds demo_manager)" by (metis list.set_intros(1) set_map)
  have src: "''operator'' \<noteq> ''cascade''" by simp
  from block_cascades_to_descendants [OF plain_world_fair live src demo_manager_def, of "''block''" "fst ?R" "snd ?R"]
  have "fst ?R = None" by simp
  moreover have "map fst (mg_holds (snd ?R)) = [''c'']" by code_simp
  then have "''b'' \<notin> fst ` set (mg_holds (snd ?R))" by (simp flip: set_map)
  ultimately show ?thesis using ids by simp
qed

lemma resolve_fuel_errors: "resolve_fuel n w i dec src m = Some r \<Longrightarrow> fst r = None \<or> fst r = Some ErrNotFound"
  by (cases n) (auto simp: resolve_fuel.simps(2) Let_def split: option.splits if_splits prod.splits)

text \<open>
  C36. Resolving a hold terminates in every state the manager reaches, with any map order and any
  journal failures: a recursion budget of twice the number of holds plus one, or more, is never
  exhausted, and the only error is that the hold is not there.
\<close>

theorem resolve_terminates:
  assumes "fair_order w" and "m = fold (defer_step w) ops (NewManager cfg)" and "2 * length (mg_holds m) < n"
  shows "\<exists>r. resolve_fuel n w i dec src m = Some r \<and> (fst r = None \<or> fst r = Some ErrNotFound)"
proof -
  have ok: "manager_ok m" using run_good [of w ops cfg] by (simp add: assms(2) manager_good_def)
  obtain k where k: "n = Suc k" "2 * length (mg_holds m) \<le> k" using assms(3) by (cases n) auto
  from fuel_enough [OF assms(1), of "length (mg_holds m)"] ok k(2) obtain r where "resolve_fuel n w i dec src m = Some r"
    unfolding k(1) by blast
  then show ?thesis using resolve_fuel_errors by blast
qed

theorem resolve_terminates_witness:
  "\<exists>r. resolve_fuel 8 plain_world ''a'' ''block'' ''operator'' demo_manager = Some r \<and> (fst r = None \<or> fst r = Some ErrNotFound)"
proof -
  have ids: "map fst (mg_holds demo_manager) = [''a'', ''b'', ''c'']" by code_simp
  then have "length (mg_holds demo_manager) = 3" by (metis length_map list.size(3,4) numeral_3_eq_3 One_nat_def add_Suc_right add_0_right)
  then have "2 * length (mg_holds demo_manager) < 8" by simp
  from resolve_terminates [OF plain_world_fair demo_manager_def this] show ?thesis .
qed

end
