(* ===== verification/DeferredJournal.thy ===== *)
theory DeferredJournal
  imports DeferredCascade
begin

text \<open>
  The journal of the held-action manager: no allow is delivered without its entry, and replaying
  the journal after a stop recovers every action that was held.
\<close>

section \<open>The journal backs every opening and every live hold\<close>

text \<open>A settled outcome: journalled as decided, or turned into a block.\<close>

lemma settle_journal:
  assumes "settle w h dec src m = (dec', src', m1)"
  obtains "dec' = dec" "dc_journalPath (mg_cfg m) = []" "mg_journal m1 = mg_journal m"
  | t where "dec' = dec" "mg_journal m1 = mg_journal m @ [journalEntryFromHeld t h (resolvedState dec) src]"
  | t where "dec' = ''block''" "mg_journal m1 = mg_journal m @ [journalEntryFromHeld t h (resolvedState ''block'') ''cancel'']"
  | "dec' = ''block''" "dc_journalPath (mg_cfg m) \<noteq> []" "mg_journal m1 = mg_journal m"
  using assms by (auto simp: settle_def journal_held_def appendJournal_def split: if_splits)

definition allow_recorded :: "manager \<Rightarrow> resolution \<Rightarrow> bool" where
  "allow_recorded m r \<longleftrightarrow> (\<exists>e \<in> set (mg_journal m). je_deferID e = rs_deferID r \<and> je_state e = StateResolvedAllow)"

definition records_allows :: "manager \<Rightarrow> manager \<Rightarrow> bool" where
  "records_allows m m' \<longleftrightarrow> mg_cfg m' = mg_cfg m \<and> set (mg_journal m) \<subseteq> set (mg_journal m') \<and>
     (dc_journalPath (mg_cfg m) \<noteq> [] \<longrightarrow>
       (\<forall>r \<in> set (mg_delivered m'). rs_finalDecision r = ''allow'' \<longrightarrow> r \<in> set (mg_delivered m) \<or> allow_recorded m' r))"

interpretation allow_rel: resolution_relation w records_allows for w
proof
  fix m i held dec src dec' src' m1 m2
  assume st: "settle w (resolving held) dec src (take_hold i (resolving held) m) = (dec', src', m1)"
    and R: "records_allows m1 m2"
  let ?r = "resolution_of (resolving held) dec' src'"
  have sub: "set (mg_journal m) \<subseteq> set (mg_journal m1)" using st by (rule settle_journal) auto
  have rec: "allow_recorded m1 ?r" if "dc_journalPath (mg_cfg m) \<noteq> []" "dec' = ''allow''"
    using st by (rule settle_journal) (use that in \<open>auto simp: allow_recorded_def journalEntryFromHeld_def
        resolvedState_def resolution_of_def\<close>)
  have "dc_journalPath (mg_cfg m) \<noteq> [] \<Longrightarrow> dec' = ''allow'' \<Longrightarrow> allow_recorded m2 ?r"
    using rec R by (auto simp: allow_recorded_def records_allows_def)
  with sub R show "records_allows m (deliver (resolving held) dec' src' m2)"
    using settle_frame [OF st]
    by (auto simp: records_allows_def allow_recorded_def resolution_of_def)
next
  show "records_allows a b \<Longrightarrow> records_allows b c \<Longrightarrow> records_allows a c" for a b c
    by (fastforce simp: records_allows_def allow_recorded_def)
qed (auto simp: records_allows_def)

lemma run_records_allows: "records_allows m (fold (defer_step w) ops m)"
proof (induction ops arbitrary: m)
  case (Cons x ops)
  have "records_allows m (defer_step w x m)"
  proof (cases "\<exists>now tnow a. x = OpHold now tnow a")
    case True
    then obtain now tnow a where x: "x = OpHold now tnow a" by blast
    obtain r m' where H: "Hold w now tnow a m = (r, m')" by fastforce
    have "mg_cfg m' = mg_cfg m \<and> set (mg_journal m) \<subseteq> set (mg_journal m') \<and> mg_delivered m' = mg_delivered m"
    proof (cases r)
      case None
      from Hold_admitted [OF H [unfolded None]] show ?thesis by (metis Un_upper1 set_append)
    next
      case (Some e)
      from Hold_refused [OF H [unfolded Some]] show ?thesis by auto
    qed
    with x H show ?thesis by (auto simp: records_allows_def)
  qed (use allow_rel.step_rel in blast)
  with Cons allow_rel.R_trans show ?case by simp
qed (simp add: allow_rel.R_refl)

text \<open>
  C29. No unrecorded opening: with a journal configured, every allow that a run delivers to a callback
  has its \<open>resolved_allow\<close> entry in the journal. A journal that cannot record the allow turns it into
  a block.
\<close>

theorem allow_is_journalled:
  assumes "dc_journalPath cfg \<noteq> []"
    and "r \<in> set (mg_delivered (fold (defer_step w) ops (NewManager cfg)))"
    and "rs_finalDecision r = ''allow''"
  shows "\<exists>e \<in> set (mg_journal (fold (defer_step w) ops (NewManager cfg))).
    je_deferID e = rs_deferID r \<and> je_state e = StateResolvedAllow"
proof -
  have "dc_journalPath (mg_cfg (NewManager cfg)) \<noteq> []" "mg_delivered (NewManager cfg) = []"
    using assms(1) by (simp_all add: NewManager_def Let_def)
  with run_records_allows [of "NewManager cfg" w ops] assms(2,3) show ?thesis
    by (auto simp: records_allows_def allow_recorded_def)
qed

theorem allow_is_journalled_witness:
  "\<exists>r. r \<in> set (mg_delivered (fold (defer_step plain_world) (demo_ops @ [OpApproval ''a'' ''allow'' ''operator'']) (NewManager demo_config))) \<and>
   (\<exists>e \<in> set (mg_journal (fold (defer_step plain_world) (demo_ops @ [OpApproval ''a'' ''allow'' ''operator'']) (NewManager demo_config))).
      je_deferID e = rs_deferID r \<and> je_state e = StateResolvedAllow)"
proof -
  let ?ops = "demo_ops @ [OpApproval ''a'' ''allow'' ''operator'']"
  let ?m = "fold (defer_step plain_world) ?ops (NewManager demo_config)"
  have "length (mg_delivered ?m) = 1" "map rs_finalDecision (mg_delivered ?m) = [''allow'']" by code_simp+
  then obtain r where r: "mg_delivered ?m = [r]" "rs_finalDecision r = ''allow''"
    by (cases "mg_delivered ?m") auto
  have "dc_journalPath demo_config \<noteq> []" by (simp add: demo_config_def)
  from allow_is_journalled [OF this, of r plain_world ?ops] r show ?thesis by (metis list.set_intros(1))
qed

section \<open>Restart recovery\<close>

definition is_terminal :: "journal_entry \<Rightarrow> bool" where
  "is_terminal e \<longleftrightarrow> je_state e = StateResolvedAllow \<or> je_state e = StateResolvedBlock \<or> je_state e = StateResolvedStepUp"

definition terminals :: "journal_entry list \<Rightarrow> string set" where
  "terminals es = je_deferID ` set (filter is_terminal es)"

lemma replay_append:
  "replay sz (map Some es) p t = Inr p' \<Longrightarrow>
   replay sz (map Some es @ ls) p t = replay sz ls p' (t \<union> terminals es)"
proof (induction es arbitrary: p t)
  case (Cons e es)
  then show ?case
    by (auto simp: terminals_def is_terminal_def hold_state_defs split: if_splits)
qed (simp add: terminals_def)

definition recovered :: "held_action \<Rightarrow> held_action" where
  "recovered h = h\<lparr>ha_payload := [], ha_argDigest := [], ha_resolve := False, ha_timer := None, ha_state := [], ha_createdAt := 0\<rparr>"

lemma held_of_journalled: "held_of_entry (journalEntryFromHeld t h st src) = recovered h"
  by (simp add: held_of_entry_def journalEntryFromHeld_def recovered_def)

definition blocked_ids :: "manager \<Rightarrow> string set" where
  "blocked_ids m = rs_deferID ` {r \<in> set (mg_delivered m). rs_finalDecision r = ''block''}"

text \<open>
  What the pending entries \<open>p\<close> of a replay have to do with the live manager: every live hold is
  pending with its fields and is not terminal.
\<close>

definition covers :: "manager \<Rightarrow> (string \<times> journal_entry) list \<Rightarrow> bool" where
  "covers m p \<longleftrightarrow> (\<forall>(k, h) \<in> set (mg_holds m).
      k \<notin> terminals (mg_journal m) \<and> (\<exists>e. map_of p k = Some e \<and> held_of_entry e = recovered h))"

definition stale :: "manager \<Rightarrow> (string \<times> journal_entry) list \<Rightarrow> string set" where
  "stale m p = dom (map_of p) - fst ` set (mg_holds m) - blocked_ids m"

definition replays :: "world \<Rightarrow> manager \<Rightarrow> (string \<times> journal_entry) list \<Rightarrow> bool" where
  "replays w m p \<longleftrightarrow> replay (w_lineBytes w) (map Some (mg_journal m)) [] {} = Inr p \<and> covers m p"

definition known :: "manager \<Rightarrow> (string \<times> journal_entry) list \<Rightarrow> string set" where
  "known m p = terminals (mg_journal m) \<union> dom (map_of p)"

definition keeps_replay :: "world \<Rightarrow> manager \<Rightarrow> manager \<Rightarrow> bool" where
  "keeps_replay w m m' \<longleftrightarrow> (\<forall>p. (\<forall>e. w_lineBytes w e < 1024 * 1024) \<and> manager_ok m \<and>
      dc_journalPath (mg_cfg m) \<noteq> [] \<and> replays w m p \<longrightarrow>
      manager_ok m' \<and> mg_cfg m' = mg_cfg m \<and>
      (\<exists>p'. replays w m' p' \<and> known m' p' \<subseteq> known m p \<and> stale m' p' \<subseteq> stale m p))"

lemma replays_terminal:
  assumes rep: "replays w m p" and sz: "\<forall>e. w_lineBytes w e < 1024 * 1024" and e: "is_terminal e" "je_deferID e = i"
    and j: "mg_journal m1 = mg_journal m @ [e]" and holds: "mg_holds m1 = AList.delete i (mg_holds m)"
  shows "replays w m1 (AList.delete i p)"
proof -
  have "replay (w_lineBytes w) (map Some (mg_journal m1)) [] {} = Inr (AList.delete i p)"
    using replay_append [of "w_lineBytes w" "mg_journal m" "[]" "{}" p "[Some e]"] rep sz e
    by (auto simp: replays_def j is_terminal_def hold_state_defs not_le)
  moreover have "covers m1 (AList.delete i p)"
    using rep e by (auto simp: covers_def replays_def holds j terminals_def AList.delete_eq
        AList.delete_conv' [unfolded AList.delete_eq])
  ultimately show ?thesis by (simp add: replays_def)
qed

lemma dom_delete: "dom (map_of (AList.delete k xs)) = dom (map_of xs) - {k}"
  by (simp add: delete_conv')

lemma blocked_ids_deliver:
  "blocked_ids (deliver h d s m) = blocked_ids m \<union> (if d = ''block'' then {ha_deferID h} else {})"
proof -
  have "set (mg_delivered (deliver h d s m)) = insert (resolution_of h d s) (set (mg_delivered m))" by simp
  moreover have "rs_deferID (resolution_of h d s) = ha_deferID h" "rs_finalDecision (resolution_of h d s) = d"
    by (simp_all add: resolution_of_def)
  ultimately show ?thesis unfolding blocked_ids_def by (force intro: rev_image_eqI)
qed

lemma settle_replays:
  assumes st: "settle w (resolving held) dec src (take_hold i (resolving held) m) = (dec', src', m1)"
    and sz: "\<forall>e. w_lineBytes w e < 1024 * 1024" and path: "dc_journalPath (mg_cfg m) \<noteq> []"
    and rep: "replays w m p" and live: "(i, held) \<in> set (mg_holds m)" and i: "ha_deferID held = i"
  obtains p1 where "replays w m1 p1" "known m1 p1 \<subseteq> known m p"
    "stale m1 p1 \<subseteq> stale m p \<union> (if dec' = ''block'' then {i} else {})"
proof -
  note fr = settle_frame [OF st, simplified]
  have pend: "i \<in> dom (map_of p)" using rep live by (auto simp: replays_def covers_def)
  have live1: "fst ` set (mg_holds m1) = fst ` set (mg_holds m) - {i}"
    by (force simp: fr AList.delete_eq)
  have same: "blocked_ids m1 = blocked_ids m" by (simp add: blocked_ids_def fr)
  note result = that
  have settled: thesis if e: "is_terminal e" "je_deferID e = i" and j: "mg_journal m1 = mg_journal m @ [e]" for e
  proof (rule result)
    show "replays w m1 (AList.delete i p)"
      by (rule replays_terminal [OF rep sz e j]) (simp add: fr)
    show "known m1 (AList.delete i p) \<subseteq> known m p"
      using pend e by (auto simp: known_def j terminals_def dom_delete)
    show "stale m1 (AList.delete i p) \<subseteq> stale m p \<union> (if dec' = ''block'' then {i} else {})"
      by (auto simp: stale_def dom_delete live1 same)
  qed
  have tm: "is_terminal (journalEntryFromHeld t (resolving held) (resolvedState d) s)"
    "je_deferID (journalEntryFromHeld t (resolving held) (resolvedState d) s) = i" for t d s
    by (simp_all add: is_terminal_def journalEntryFromHeld_def resolvedState_def i)
  from st show thesis
  proof (cases rule: settle_journal)
    case 1
    with path show thesis by simp
  next
    case (2 t)
    show thesis by (rule settled [OF tm]) (use 2 in simp)
  next
    case (3 t)
    show thesis by (rule settled [OF tm]) (use 3 in simp)
  next
    case 4
    show thesis
    proof (rule result)
      show "replays w m1 p"
        using rep 4 by (auto simp: replays_def covers_def fr AList.delete_eq)
      show "known m1 p \<subseteq> known m p" using 4 by (simp add: known_def)
      show "stale m1 p \<subseteq> stale m p \<union> (if dec' = ''block'' then {i} else {})"
        using 4 by (auto simp: stale_def live1 same)
    qed
  qed
qed

lemma keeps_replayI:
  assumes "\<And>p. \<forall>e. w_lineBytes w e < 1024 * 1024 \<Longrightarrow> manager_ok m \<Longrightarrow> dc_journalPath (mg_cfg m) \<noteq> [] \<Longrightarrow>
      replays w m p \<Longrightarrow> manager_ok m' \<and> mg_cfg m' = mg_cfg m \<and>
      (\<exists>p'. replays w m' p' \<and> known m' p' \<subseteq> known m p \<and> stale m' p' \<subseteq> stale m p)"
  shows "keeps_replay w m m'"
  using assms unfolding keeps_replay_def by blast

lemma keeps_replayE:
  assumes "keeps_replay w m m'" "\<forall>e. w_lineBytes w e < 1024 * 1024" "manager_ok m" "dc_journalPath (mg_cfg m) \<noteq> []"
    "replays w m p"
  obtains p' where "manager_ok m'" "mg_cfg m' = mg_cfg m" "replays w m' p'" "known m' p' \<subseteq> known m p"
    "stale m' p' \<subseteq> stale m p"
  using assms unfolding keeps_replay_def by blast

interpretation replay_rel: resolution_relation w "keeps_replay w" for w
proof
  fix m i held dec src dec' src' m1 m2
  assume h: "map_of (mg_holds m) i = Some held"
    and st: "settle w (resolving held) dec src (take_hold i (resolving held) m) = (dec', src', m1)"
    and R: "keeps_replay w m1 m2"
  let ?m' = "deliver (resolving held) dec' src' m2"
  show "keeps_replay w m ?m'"
  proof (rule keeps_replayI)
    fix p
    assume sz: "\<forall>e. w_lineBytes w e < 1024 * 1024" and ok: "manager_ok m"
      and path: "dc_journalPath (mg_cfg m) \<noteq> []" and rep: "replays w m p"
    have i: "ha_deferID held = i"
      using ok map_of_SomeD [OF h] by (auto simp: manager_ok_def hold_ok_def list_all_iff)
    from settle_replays [OF st sz path rep map_of_SomeD [OF h] i] obtain p1 where
      p1: "replays w m1 p1" "known m1 p1 \<subseteq> known m p"
      "stale m1 p1 \<subseteq> stale m p \<union> (if dec' = ''block'' then {i} else {})" .
    have ok1: "manager_ok m1"
      using take_hold_ok [of m i held "resolving held"] ok h settle_frame [OF st]
        manager_ok_frame [of m1 "take_hold i (resolving held) m"] by simp
    have "dc_journalPath (mg_cfg m1) \<noteq> []" using path settle_frame(2) [OF st] by simp
    from keeps_replayE [OF R sz ok1 this p1(1)] obtain p2 where
      p2: "manager_ok m2" "mg_cfg m2 = mg_cfg m1" "replays w m2 p2" "known m2 p2 \<subseteq> known m1 p1"
      "stale m2 p2 \<subseteq> stale m1 p1" .
    have "replays w ?m' p2" "known ?m' p2 = known m2 p2"
      using p2(3) by (simp_all add: replays_def covers_def known_def)
    moreover have "stale ?m' p2 = stale m2 p2 - (if dec' = ''block'' then {i} else {})"
      by (auto simp: stale_def blocked_ids_deliver i)
    then have "stale ?m' p2 \<subseteq> stale m p" using p1(3) p2(5) by blast
    ultimately show "manager_ok ?m' \<and> mg_cfg ?m' = mg_cfg m \<and>
        (\<exists>p'. replays w ?m' p' \<and> known ?m' p' \<subseteq> known m p \<and> stale ?m' p' \<subseteq> stale m p)"
      using p1(2) p2 manager_ok_frame [of ?m' m2] settle_frame(2) [OF st]
      by (intro conjI exI [of _ p2]) auto
  qed
next
  show "keeps_replay w m m" for m by (rule keeps_replayI) auto
  show "keeps_replay w a c" if ab: "keeps_replay w a b" and bc: "keeps_replay w b c" for a b c
  proof (rule keeps_replayI)
    fix p
    assume sz: "\<forall>e. w_lineBytes w e < 1024 * 1024" and a: "manager_ok a" "dc_journalPath (mg_cfg a) \<noteq> []" "replays w a p"
    from keeps_replayE [OF ab sz a] obtain p1 where 1: "manager_ok b" "mg_cfg b = mg_cfg a" "replays w b p1"
      "known b p1 \<subseteq> known a p" "stale b p1 \<subseteq> stale a p" .
    have "dc_journalPath (mg_cfg b) \<noteq> []" using a(2) 1(2) by simp
    from keeps_replayE [OF bc sz 1(1) this 1(3)] obtain p2 where "manager_ok c" "mg_cfg c = mg_cfg b" "replays w c p2"
      "known c p2 \<subseteq> known b p1" "stale c p2 \<subseteq> stale b p1" .
    with 1 show "manager_ok c \<and> mg_cfg c = mg_cfg a \<and>
        (\<exists>p'. replays w c p' \<and> known c p' \<subseteq> known a p \<and> stale c p' \<subseteq> stale a p)"
      by (intro conjI exI [of _ p2]) auto
  qed
qed

text \<open>Pending entries are filed under their own id.\<close>

lemma replay_keys_gen:
  "replay sz ls p t = Inr p' \<Longrightarrow> list_all (\<lambda>(k, e). je_deferID e = k) p \<Longrightarrow> list_all (\<lambda>(k, e). je_deferID e = k) p'"
proof (induction sz ls p t rule: replay.induct)
  case (3 sz e ls p t)
  have "list_all (\<lambda>(k, e). je_deferID e = k) (AList.update (je_deferID e) e p)"
    using 3(5) by (induction p) auto
  moreover have "list_all (\<lambda>(k, e). je_deferID e = k) (AList.delete (je_deferID e) p)"
    using 3(5) by (auto simp: list_all_iff AList.delete_eq)
  ultimately show ?case using 3 by (simp split: if_splits)
qed auto

lemma replay_keys: "replay sz ls [] t = Inr p \<Longrightarrow> map_of p k = Some e \<Longrightarrow> je_deferID e = k"
  using replay_keys_gen [of sz ls "[]" t p] map_of_SomeD [of p k e] by (auto simp: list_all_iff)

text \<open>The ids a run tries to hold.\<close>

fun hold_ids :: "defer_op list \<Rightarrow> string list" where
  "hold_ids [] = []"
| "hold_ids (OpHold now tnow a # xs) = ha_deferID a # hold_ids xs"
| "hold_ids (_ # xs) = hold_ids xs"

lemma Hold_replays:
  assumes sz: "\<forall>e. w_lineBytes w e < 1024 * 1024" and path: "dc_journalPath (mg_cfg m) \<noteq> []"
    and rep: "replays w m p" and fresh: "ha_deferID a \<notin> known m p" and H: "Hold w now tnow a m = (r, m')"
  shows "\<exists>p'. replays w m' p' \<and> known m' p' \<subseteq> insert (ha_deferID a) (known m p) \<and> stale m' p' \<subseteq> stale m p"
proof (cases r)
  case (Some e)
  note R = Hold_refused [OF H [unfolded Some]]
  have "replay (w_lineBytes w) (map Some (mg_journal m')) [] {} = Inr p \<and> terminals (mg_journal m') = terminals (mg_journal m)"
    using R(6)
  proof
    assume "\<exists>j. mg_journal m' = mg_journal m @ [j] \<and> je_state j = StateAdmissionRejected"
    then obtain j where j: "mg_journal m' = mg_journal m @ [j]" "je_state j = StateAdmissionRejected" by blast
    with replay_append [of "w_lineBytes w" "mg_journal m" "[]" "{}" p "[Some j]"] rep sz show ?thesis
      by (auto simp: replays_def terminals_def is_terminal_def hold_state_defs not_le)
  qed (use rep in \<open>simp add: replays_def\<close>)
  with rep R show ?thesis
    by (intro exI [of _ p]) (auto simp: replays_def covers_def known_def stale_def blocked_ids_def)
next
  case None
  from Hold_admitted [OF H [unfolded None]] obtain h l where
    l: "link_action (stamp_action now a m) m = Some l" "h = l\<lparr>ha_timer := Some (tnow + dc_timeout (mg_cfg m))\<rparr>"
    "mg_holds m' = mg_holds m @ [(ha_deferID a, h)]" "mg_delivered m' = mg_delivered m"
    "mg_journal m' = mg_journal m @ (if dc_journalPath (mg_cfg m) = [] then []
       else [journalEntryFromHeld (w_now w (mg_writes m)) l StateHeld []])" by metis
  define j where "j = journalEntryFromHeld (w_now w (mg_writes m)) l StateHeld []"
  have j: "je_deferID j = ha_deferID a" "je_state j = StateHeld" "held_of_entry j = recovered h" "\<not> is_terminal j"
    using link_action_simps [OF l(1)]
    by (simp_all add: j_def held_of_journalled l(2))
      (simp_all add: recovered_def journalEntryFromHeld_def is_terminal_def hold_state_defs)
  have mj: "mg_journal m' = mg_journal m @ [j]" using l(5) path by (simp add: j_def)
  have "replay (w_lineBytes w) (map Some (mg_journal m')) [] {} = Inr (AList.update (ha_deferID a) j p)"
    using replay_append [of "w_lineBytes w" "mg_journal m" "[]" "{}" p "[Some j]"] rep sz fresh j
    by (auto simp: replays_def mj not_le known_def)
  moreover have "covers m' (AList.update (ha_deferID a) j p)"
  proof -
    have "k \<noteq> ha_deferID a \<and> k \<notin> terminals (mg_journal m) \<and> (\<exists>e. map_of p k = Some e \<and> held_of_entry e = recovered x)"
      if "(k, x) \<in> set (mg_holds m)" for k x
      using rep fresh that unfolding covers_def replays_def known_def by blast
    moreover have "terminals (mg_journal m') = terminals (mg_journal m)" using j by (simp add: mj terminals_def)
    ultimately show ?thesis
      using j fresh by (fastforce simp: covers_def l(3) update_conv' known_def)
  qed
  ultimately have "replays w m' (AList.update (ha_deferID a) j p)" by (simp add: replays_def)
  moreover have "known m' (AList.update (ha_deferID a) j p) \<subseteq> insert (ha_deferID a) (known m p)"
    using j by (auto simp: known_def mj terminals_def update_conv')
  moreover have "stale m' (AList.update (ha_deferID a) j p) \<subseteq> stale m p"
    by (auto simp: stale_def l(3,4) update_conv' blocked_ids_def)
  ultimately show ?thesis by blast
qed

lemma run_replays:
  assumes sz: "\<forall>e. w_lineBytes w e < 1024 * 1024"
  shows "manager_good m \<Longrightarrow> dc_journalPath (mg_cfg m) \<noteq> [] \<Longrightarrow> replays w m p \<Longrightarrow>
    distinct (hold_ids ops) \<Longrightarrow> set (hold_ids ops) \<inter> known m p = {} \<Longrightarrow>
    \<exists>p'. replays w (fold (defer_step w) ops m) p' \<and> stale (fold (defer_step w) ops m) p' \<subseteq> stale m p"
proof (induction ops arbitrary: m p)
  case (Cons x ops)
  let ?m1 = "defer_step w x m"
  have good: "manager_good ?m1" using Cons.prems(1) by (rule manager_inv.step_keeps)
  have path: "dc_journalPath (mg_cfg ?m1) \<noteq> []"
    using Cons.prems(2) run_cfg [of w "[x]" m] by simp
  have "\<exists>p1. replays w ?m1 p1 \<and> set (hold_ids ops) \<inter> known ?m1 p1 = {} \<and> stale ?m1 p1 \<subseteq> stale m p"
  proof (cases "\<exists>now tnow a. x = OpHold now tnow a")
    case True
    then obtain now tnow a where x: "x = OpHold now tnow a" by blast
    from Hold_replays [OF sz Cons.prems(2,3), of a now tnow "fst (Hold w now tnow a m)" ?m1] Cons.prems(4,5) x
    obtain p1 where "replays w ?m1 p1" "known ?m1 p1 \<subseteq> insert (ha_deferID a) (known m p)" "stale ?m1 p1 \<subseteq> stale m p"
      by auto
    with Cons.prems(4,5) x show ?thesis by (intro exI [of _ p1]) auto
  next
    case False
    then have ids: "hold_ids (x # ops) = hold_ids ops" by (cases x) auto
    from False have "keeps_replay w m ?m1" using replay_rel.step_rel by blast
    with sz Cons.prems obtain p1 where "replays w ?m1 p1" "known ?m1 p1 \<subseteq> known m p" "stale ?m1 p1 \<subseteq> stale m p"
      unfolding keeps_replay_def manager_good_def by blast
    with Cons.prems(5) ids show ?thesis by (intro exI [of _ p1]) auto
  qed
  then obtain p1 where p1: "replays w ?m1 p1" "set (hold_ids ops) \<inter> known ?m1 p1 = {}" "stale ?m1 p1 \<subseteq> stale m p" by blast
  have "distinct (hold_ids ops)" using Cons.prems(4) by (cases x) auto
  from Cons.IH [OF good path p1(1) this p1(2)] p1(3) show ?case by auto
qed auto

text \<open>What a reader finds in the journal file, and that it is what was written unless a write was torn.\<close>

definition journal_lines :: "manager \<Rightarrow> journal_entry option list" where
  "journal_lines m = mg_file m @ (if mg_torn m then [None] else [])"

definition file_ok :: "manager \<Rightarrow> bool" where
  "file_ok m \<longleftrightarrow> None \<in> set (journal_lines m) \<or> mg_file m = map Some (mg_journal m)"

lemma file_ok_fields:
  "mg_file m' = mg_file m \<Longrightarrow> mg_torn m' = mg_torn m \<Longrightarrow> mg_journal m' = mg_journal m \<Longrightarrow> file_ok m' = file_ok m"
  by (simp add: file_ok_def journal_lines_def)

lemma journal_held_file: "file_ok m \<Longrightarrow> file_ok (snd (journal_held w h st src m))"
  by (auto simp: journal_held_def appendJournal_def file_ok_def journal_lines_def split: if_splits)

lemma Hold_file: "file_ok m \<Longrightarrow> file_ok (snd (Hold w now tnow a m))"
proof -
  assume ok: "file_ok m"
  have "file_ok (arm_timer tnow i (publish h m1))" if "file_ok m1" for i h m1
    using that file_ok_fields [of "arm_timer tnow i (publish h m1)" m1] by (auto simp: arm_timer_def publish_def split: option.splits)
  moreover have "file_ok m1" if "journal_held w h StateHeld [] m = (b, m1)" for h b m1
    using journal_held_file [OF ok, of w h StateHeld "[]"] that by simp
  ultimately show ?thesis
    using ok journal_held_file [OF ok] by (auto simp: Hold_def journalRejectedHold_def Let_def split: option.splits prod.splits)
qed

interpretation file_rel: resolution_relation w "\<lambda>m m'. file_ok m \<longrightarrow> file_ok m'" for w
proof (unfold_locales, goal_cases)
  case (3 m i held dec src dec' src' m1 m2)
  have "file_ok m1" if "file_ok m"
  proof -
    have "file_ok (take_hold i (resolving held) m)"
      using that file_ok_fields [of "take_hold i (resolving held) m" m] by (simp add: take_hold_def removeSessionHoldLocked_def Let_def)
    from journal_held_file [OF this] journal_held_file [OF journal_held_file [OF this]] show ?thesis
      using 3(3) by (auto simp: settle_def Let_def split: prod.splits if_splits) (metis snd_conv)+
  qed
  with 3(4) show ?case using file_ok_fields [of "deliver (resolving held) dec' src' m2" m2] by (simp add: deliver_def)
qed auto

lemma run_file: "file_ok m \<Longrightarrow> file_ok (fold (defer_step w) ops m)"
proof (induction ops arbitrary: m)
  case (Cons x ops)
  have "file_ok (defer_step w x m)"
  proof (cases "\<exists>now tnow a. x = OpHold now tnow a")
    case True
    then show ?thesis using Hold_file [OF Cons.prems] by auto
  qed (use file_rel.step_rel [of x] Cons.prems in blast)
  with Cons.IH show ?case by simp
qed simp

lemma replay_torn: "None \<in> set ls \<Longrightarrow> \<exists>e. replay sz ls p t = Inl e"
  by (induction sz ls p t rule: replay.induct) (auto split: if_splits)

lemma torn_unreadable:
  assumes "None \<in> set ls" "path \<noteq> []"
  shows "\<exists>e. PendingJournal w path (Lines ls) = Inl e"
proof -
  obtain e where "replay (w_lineBytes w) ls [] {} = Inl e" using replay_torn [OF assms(1)] by blast
  then show ?thesis using assms(2) by (simp add: PendingJournal_def)
qed

lemma replay_entries:
  assumes "replay sz ls p t = Inr p'" "e \<in> snd ` set p'"
  shows "e \<in> snd ` set p \<or> Some e \<in> set ls"
  using assms
proof (induction sz ls p t rule: replay.induct)
  case (3 sz x ls p t)
  have upd: "snd ` set (AList.update (je_deferID x) x p) \<subseteq> insert x (snd ` set p)" by (induction p) auto
  have del: "snd ` set (AList.delete (je_deferID x) p) \<subseteq> snd ` set p" by (auto simp: AList.delete_eq)
  from 3(4) consider
      (held) "replay sz ls (AList.update (je_deferID x) x p) t = Inr p'" "\<not> 1024 * 1024 \<le> sz x" "je_state x = StateHeld" "je_deferID x \<notin> t"
    | (terminal) "replay sz ls (AList.delete (je_deferID x) p) (insert (je_deferID x) t) = Inr p'" "\<not> 1024 * 1024 \<le> sz x" "je_state x \<noteq> StateHeld"
        "je_state x = StateResolvedAllow \<or> je_state x = StateResolvedBlock \<or> je_state x = StateResolvedStepUp"
    | (rejected) "replay sz ls p t = Inr p'" "\<not> 1024 * 1024 \<le> sz x" "je_state x \<noteq> StateHeld"
        "\<not> (je_state x = StateResolvedAllow \<or> je_state x = StateResolvedBlock \<or> je_state x = StateResolvedStepUp)" "je_state x = StateAdmissionRejected"
    by (simp split: if_splits)
  then show ?case
  proof cases
    case held
    from 3(1) [OF held(2-4,1) 3(5)] upd show ?thesis by auto
  next
    case terminal
    from 3(2) [OF terminal(2-4,1) 3(5)] del show ?thesis by auto
  next
    case rejected
    from 3(3) [OF rejected(2-5,1) 3(5)] show ?thesis by auto
  qed
qed auto

lemma pending_known:
  assumes p: "replay sz (map Some js) [] {} = Inr p" and k: "map_of p k = Some e"
  shows "k \<in> je_deferID ` set js" "ha_deferID (held_of_entry e) = k"
proof -
  have "e \<in> snd ` set p" using map_of_SomeD [OF k] by force
  from replay_entries [OF p this] have "e \<in> set js" by auto
  then show "k \<in> je_deferID ` set js" "ha_deferID (held_of_entry e) = k" using replay_keys [OF p k] by (auto simp: held_of_entry_def)
qed

text \<open>A manager on the journal file that an earlier process left.\<close>

definition reopened :: "defer_config \<Rightarrow> journal_entry list \<Rightarrow> manager" where
  "reopened cfg js = (NewManager cfg)\<lparr>mg_journal := js, mg_file := map Some js\<rparr>"

text \<open>
  C27. Restart recovery. A process starts on a readable journal file, holds actions under ids that it does not reuse
  and that the file does not have, and stops at any point; any of its writes may fail, and a failed one may leave
  a part of its line behind. If none did, replaying the file succeeds and returns every
  action that was still held, with the fields it was held with; whatever else it returns was
  delivered as a block (its terminal entry could not be written) or was already pending in the file at the start,
  so blocking the recovered actions again never contradicts an answer already given. If one did, replaying reports
  an error and returns nothing, also for the actions held before. A journal line stays
  below the scanner's 1 MiB limit.
\<close>

theorem restart_recovers_live_holds:
  assumes "fair_order w" and "\<forall>e. w_lineBytes w e < 1024 * 1024" and "dc_journalPath cfg \<noteq> []"
    and start: "PendingJournal w (dc_journalPath cfg) (Lines (map Some js)) = Inr out0"
    and ids: "distinct (hold_ids ops)" "set (hold_ids ops) \<inter> je_deferID ` set js = {}"
    and m: "m = fold (defer_step w) ops (reopened cfg js)"
  shows "if None \<in> set (journal_lines m) then \<exists>e. PendingJournal w (dc_journalPath cfg) (Lines (journal_lines m)) = Inl e
    else \<exists>out. PendingJournal w (dc_journalPath cfg) (Lines (journal_lines m)) = Inr out \<and>
      (\<forall>(k, h) \<in> set (mg_holds m). recovered h \<in> set out) \<and>
      (\<forall>h \<in> set out. ha_deferID h \<in> fst ` set (mg_holds m) \<or> ha_deferID h \<in> ha_deferID ` set out0 \<or>
         (\<exists>r \<in> set (mg_delivered m). rs_deferID r = ha_deferID h \<and> rs_finalDecision r = ''block''))"
proof (cases "None \<in> set (journal_lines m)")
  case True
  then show ?thesis using torn_unreadable assms(3) by simp
next
  case False
  let ?m0 = "reopened cfg js"
  have ord: "set (w_order w xs) = set xs" for xs
    using assms(1) by (metis fair_order_def set_mset_mset)
  from start assms(3) obtain p0 where p0: "replay (w_lineBytes w) (map Some js) [] {} = Inr p0"
    and out0: "out0 = map (\<lambda>i. held_of_entry (the (map_of p0 i))) (w_order w (map fst p0))"
    by (auto simp: PendingJournal_def split: sum.splits)
  have stale0: "ha_deferID ` set out0 = dom (map_of p0)"
  proof -
    have "ha_deferID (held_of_entry (the (map_of p0 k))) = k" if "k \<in> fst ` set p0" for k
      using that pending_known(2) [OF p0] by (metis map_of_eq_None_iff option.collapse)
    then show ?thesis by (simp add: out0 ord image_image dom_map_of_conv_image_fst)
  qed
  have "replays w ?m0 p0" "dc_journalPath (mg_cfg ?m0) \<noteq> []" "manager_good ?m0"
    using assms(3) p0 NewManager_good [of cfg]
    by (auto simp: replays_def covers_def reopened_def manager_good_def manager_ok_def within_bounds_def NewManager_def Let_def)
  moreover have "known ?m0 p0 \<subseteq> je_deferID ` set js"
    using pending_known(1) [OF p0] by (auto simp: known_def terminals_def reopened_def)
  moreover have "stale ?m0 p0 \<subseteq> ha_deferID ` set out0" by (auto simp: stale0 stale_def)
  ultimately obtain p where p: "replays w m p" "stale m p \<subseteq> ha_deferID ` set out0"
    using run_replays [OF assms(2), of ?m0 p0 ops] ids m by blast
  have lines: "journal_lines m = map Some (mg_journal m)"
    using False run_file [of ?m0 w ops] by (simp add: m file_ok_def journal_lines_def reopened_def split: if_splits)
  define out where "out = map (\<lambda>i. held_of_entry (the (map_of p i))) (w_order w (map fst p))"
  have out: "PendingJournal w (dc_journalPath cfg) (Lines (journal_lines m)) = Inr out"
    using p(1) assms(3) by (simp add: PendingJournal_def replays_def out_def lines)
  have "recovered h \<in> set out" if kh: "(k, h) \<in> set (mg_holds m)" for k h
  proof -
    from kh p(1) obtain e where e: "map_of p k = Some e" "held_of_entry e = recovered h"
      unfolding replays_def covers_def by blast
    then have "k \<in> set (map fst p)" by (metis list.set_map map_of_eq_None_iff option.distinct(1))
    with e show ?thesis by (auto simp: out_def ord intro!: rev_image_eqI [of k])
  qed
  moreover have "ha_deferID h \<in> fst ` set (mg_holds m) \<or> ha_deferID h \<in> ha_deferID ` set out0 \<or>
       (\<exists>r \<in> set (mg_delivered m). rs_deferID r = ha_deferID h \<and> rs_finalDecision r = ''block'')" if "h \<in> set out" for h
  proof -
    from that obtain k where k: "k \<in> set (map fst p)" "h = held_of_entry (the (map_of p k))"
      by (auto simp: out_def ord)
    then obtain e where e: "map_of p k = Some e" by (metis list.set_map map_of_eq_None_iff not_None_eq)
    have "je_deferID e = k" using p(1) e by (auto simp: replays_def dest: replay_keys)
    with k e p(2) show ?thesis by (auto simp: stale_def blocked_ids_def held_of_entry_def)
  qed
  ultimately show ?thesis using out False by auto
qed

theorem restart_recovers_live_holds_witness:
  "\<exists>out. PendingJournal plain_world ''holds.jsonl'' (Lines (journal_lines demo_manager)) = Inr out \<and>
     list_all (\<lambda>(k, h). recovered h \<in> set out) (mg_holds demo_manager)"
proof -
  have new: "reopened demo_config [] = NewManager demo_config" by (simp add: reopened_def NewManager_def Let_def)
  have a: "distinct (hold_ids demo_ops)" "set (hold_ids demo_ops) \<inter> je_deferID ` set [] = {}" "dc_journalPath demo_config = ''holds.jsonl''"
    "\<forall>e. w_lineBytes plain_world e < 1024 * 1024" "PendingJournal plain_world ''holds.jsonl'' (Lines (map Some [])) = Inr []"
    by (simp_all add: demo_ops_def demo_action_def demo_config_def plain_world_def PendingJournal_def)
  have "None \<notin> set (journal_lines demo_manager)" unfolding demo_manager_def by code_simp
  with restart_recovers_live_holds [OF plain_world_fair a(4), of demo_config "[]" "[]" demo_ops demo_manager] a new show ?thesis
    by (auto simp: demo_manager_def list_all_iff)
qed

end
