(* ===== verification/Airlock.thy ===== *)
theory Airlock
  imports Interfaces "HOL-Library.Multiset" "HOL-Library.List_Lexorder" "HOL-Library.Char_ord"
begin

text \<open>
  The per-session airlock and the frozen tool registry (\<^verbatim>\<open>internal/proxy/airlock.go\<close>): graduated
  quarantine tiers between adaptive enforcement and the kill switch. A cancel function is the number
  of the connection it tears down; calling it appends the number to \<open>al_cancelled\<close>. The clock is an
  argument of the operations that read it. Go's zero time is \<open>None\<close>, and the time since it saturates
  at the largest duration. Durations are 64-bit: the products of the configured minutes and seconds
  wrap (\<open>wrap64\<close>).
\<close>

section \<open>Tiers\<close>

definition AirlockTierOrder :: "string \<Rightarrow> nat option" where
  "AirlockTierOrder = [''none'' \<mapsto> 0, ''soft'' \<mapsto> 1, ''hard'' \<mapsto> 2, ''drain'' \<mapsto> 3]"

record airlock_timers =
  at_softMinutes :: int
  at_hardMinutes :: int
  at_drainMinutes :: int
  at_drainTimeoutSeconds :: int

record airlock =
  al_tier :: string
  al_enteredAt :: "go_time option"
  al_trigger :: string
  al_source :: string
  al_cancelFuncs :: "nat list"
  al_inFlight :: "64 word"
  al_cancelled :: "nat list"

definition NewAirlockState :: airlock where
  "NewAirlockState = \<lparr>al_tier = ''none'', al_enteredAt = None, al_trigger = [], al_source = [],
     al_cancelFuncs = [], al_inFlight = 0, al_cancelled = []\<rparr>"

definition Tier :: "airlock \<Rightarrow> string" where
  "Tier a = al_tier a"

definition EnteredAt :: "airlock \<Rightarrow> go_time option" where
  "EnteredAt a = al_enteredAt a"

definition EntryProvenance :: "airlock \<Rightarrow> string \<times> string" where
  "EntryProvenance a = (al_trigger a, al_source a)"

definition setEntryMetadataLocked :: "go_time \<Rightarrow> string \<Rightarrow> string \<Rightarrow> string \<Rightarrow> airlock \<Rightarrow> airlock" where
  "setEntryMetadataLocked now tier trigger source a =
     (if tier = ''none'' then a\<lparr>al_enteredAt := None, al_trigger := [], al_source := []\<rparr>
      else a\<lparr>al_enteredAt := Some now, al_trigger := trigger, al_source := source\<rparr>)"

definition callCancelFuncsLocked :: "airlock \<Rightarrow> airlock" where
  "callCancelFuncsLocked a = a\<lparr>al_cancelled := al_cancelled a @ al_cancelFuncs a, al_cancelFuncs := []\<rparr>"

definition SetTierWithProvenance ::
  "go_time \<Rightarrow> string \<Rightarrow> string \<Rightarrow> string \<Rightarrow> airlock \<Rightarrow> (bool \<times> string \<times> string) \<times> airlock" where
  "SetTierWithProvenance now newTier trigger source a =
     (case (AirlockTierOrder (al_tier a), AirlockTierOrder newTier) of
        (Some oldOrder, Some newOrder) \<Rightarrow>
          if newOrder \<le> oldOrder then ((False, al_tier a, al_tier a), a)
          else
            let a1 = setEntryMetadataLocked now newTier trigger source (a\<lparr>al_tier := newTier\<rparr>);
                a2 = (if newTier = ''hard'' then callCancelFuncsLocked a1 else a1);
                a3 = (if newTier = ''drain'' then callCancelFuncsLocked a2 else a2) in
            ((True, al_tier a, newTier), a3)
      | _ \<Rightarrow> ((False, al_tier a, al_tier a), a))"

definition SetTier :: "go_time \<Rightarrow> string \<Rightarrow> airlock \<Rightarrow> (bool \<times> string \<times> string) \<times> airlock" where
  "SetTier now newTier a = SetTierWithProvenance now newTier [] [] a"

definition since :: "go_time \<Rightarrow> go_time option \<Rightarrow> duration" where
  "since now t = (case t of None \<Rightarrow> 2 ^ 63 - 1 | Some t \<Rightarrow> now - t)"

text \<open>The switch of \<^verbatim>\<open>TryDeescalate\<close>: the timer of the tier and the tier below, \<open>None\<close> where it returns.\<close>

definition deescalation :: "airlock_timers \<Rightarrow> string \<Rightarrow> (duration \<times> string) option" where
  "deescalation timers tier =
     (if tier = ''soft'' then
        if at_softMinutes timers \<le> 0 then None
        else Some (wrap64 (at_softMinutes timers * minute_ns), ''none'')
      else if tier = ''hard'' then
        if at_hardMinutes timers \<le> 0 then None
        else Some (wrap64 (at_hardMinutes timers * minute_ns), ''soft'')
      else if tier = ''drain'' then
        if at_drainMinutes timers \<le> 0 \<and> at_drainTimeoutSeconds timers \<le> 0 then None
        else
          let d0 = wrap64 (at_drainMinutes timers * minute_ns);
              dt = wrap64 (at_drainTimeoutSeconds timers * second_ns);
              d = (if at_drainTimeoutSeconds timers > 0 \<and> (d0 \<le> 0 \<or> dt < d0) then dt else d0) in
          Some (d, ''hard'')
      else None)"

definition TryDeescalate ::
  "go_time \<Rightarrow> airlock_timers \<Rightarrow> airlock \<Rightarrow> (bool \<times> string \<times> string) \<times> airlock" where
  "TryDeescalate now timers a =
     (if al_tier a = ''none'' then ((False, al_tier a, al_tier a), a)
      else (case deescalation timers (al_tier a) of
          None \<Rightarrow> ((False, al_tier a, al_tier a), a)
        | Some (d, nextTier) \<Rightarrow>
            if since now (al_enteredAt a) < d then ((False, al_tier a, al_tier a), a)
            else ((True, al_tier a, nextTier),
                  setEntryMetadataLocked now nextTier ''timer'' ''airlock_timers'' (a\<lparr>al_tier := nextTier\<rparr>))))"

definition RegisterCancel :: "nat \<Rightarrow> airlock \<Rightarrow> airlock" where
  "RegisterCancel c a =
     (if al_tier a = ''hard'' \<or> al_tier a = ''drain'' then a\<lparr>al_cancelled := al_cancelled a @ [c]\<rparr>
      else a\<lparr>al_cancelFuncs := al_cancelFuncs a @ [c]\<rparr>)"

definition HalfClose :: "airlock \<Rightarrow> airlock" where
  "HalfClose a = callCancelFuncsLocked a"

definition FullClose :: "airlock \<Rightarrow> airlock" where
  "FullClose a = callCancelFuncsLocked a"

definition IncrementInFlight :: "airlock \<Rightarrow> airlock" where
  "IncrementInFlight a = a\<lparr>al_inFlight := al_inFlight a + 1\<rparr>"

definition DecrementInFlight :: "airlock \<Rightarrow> airlock" where
  "DecrementInFlight a = a\<lparr>al_inFlight := al_inFlight a - 1\<rparr>"

definition InFlight :: "airlock \<Rightarrow> int" where
  "InFlight a = sint (al_inFlight a)"

definition ForceSetTierWithProvenance ::
  "go_time \<Rightarrow> string \<Rightarrow> string \<Rightarrow> string \<Rightarrow> airlock \<Rightarrow> (bool \<times> string \<times> string) \<times> airlock" where
  "ForceSetTierWithProvenance now newTier trigger source a =
     (if AirlockTierOrder newTier = None then ((False, al_tier a, al_tier a), a)
      else if al_tier a = newTier then ((False, al_tier a, al_tier a), a)
      else
        let a1 = setEntryMetadataLocked now newTier trigger source (a\<lparr>al_tier := newTier\<rparr>);
            a2 = (if newTier = ''hard'' \<or> newTier = ''drain'' then callCancelFuncsLocked a1 else a1);
            a3 = (if newTier = ''none'' then a2\<lparr>al_cancelFuncs := []\<rparr> else a2) in
        ((True, al_tier a, newTier), a3))"

definition ForceSetTier :: "go_time \<Rightarrow> string \<Rightarrow> airlock \<Rightarrow> (bool \<times> string \<times> string) \<times> airlock" where
  "ForceSetTier now newTier a = ForceSetTierWithProvenance now newTier ''manual'' ''admin_api'' a"

section \<open>What a tier lets through\<close>

definition readOnlyMethods :: "string set" where
  "readOnlyMethods = {''GET'', ''HEAD'', ''OPTIONS''}"

definition classifyHard :: "string \<Rightarrow> string \<Rightarrow> bool \<Rightarrow> bool \<times> string" where
  "classifyHard method transport isTLSIntercepted =
     (if transport = ''fetch'' then (True, [])
      else if transport = ''scan_api'' then (True, [])
      else if transport = ''forward'' then
        if method \<in> readOnlyMethods then (True, [])
        else (False, ''airlock: hard tier blocks write methods on forward proxy'')
      else if transport = ''connect'' then
        if \<not> isTLSIntercepted
        then (False, ''airlock: hard tier blocks CONNECT without TLS interception (unclassifiable)'')
        else if method \<in> readOnlyMethods then (True, [])
        else (False, ''airlock: hard tier blocks write methods on CONNECT tunnel'')
      else if transport = ''websocket'' then
        if method = ''GET'' then (True, [])
        else (False, ''airlock: hard tier blocks client-to-server WebSocket writes'')
      else if transport = ''mcp'' then (True, [])
      else (False, ''airlock: hard tier blocks unknown transport''))"

definition ClassifyAction :: "string \<Rightarrow> string \<Rightarrow> string \<Rightarrow> bool \<Rightarrow> bool \<times> string" where
  "ClassifyAction tier method transport isTLSIntercepted =
     (if tier = ''none'' \<or> tier = ''soft'' then (True, [])
      else if tier = ''hard'' then classifyHard method transport isTLSIntercepted
      else if tier = ''drain'' then (False, ''airlock: drain tier blocks all traffic'')
      else (False, ''airlock: unknown tier''))"

section \<open>Frozen tool inventories\<close>

record frozenEntry =
  fe_tools :: "string set"
  fe_created :: go_time

type_synonym frozen_registry = "string \<rightharpoonup> frozenEntry"

definition NewFrozenToolRegistry :: frozen_registry where
  "NewFrozenToolRegistry = Map.empty"

definition Freeze :: "go_time \<Rightarrow> string \<Rightarrow> string list \<Rightarrow> frozen_registry \<Rightarrow> frozen_registry" where
  "Freeze now k tools r =
     (if r k \<noteq> None then r else r(k \<mapsto> \<lparr>fe_tools = set tools, fe_created = now\<rparr>))"

definition IsFrozen :: "string \<Rightarrow> frozen_registry \<Rightarrow> bool" where
  "IsFrozen k r \<longleftrightarrow> r k \<noteq> None"

definition IsToolAllowed :: "string \<Rightarrow> string \<Rightarrow> frozen_registry \<Rightarrow> bool" where
  "IsToolAllowed k tool r = (case r k of None \<Rightarrow> True | Some e \<Rightarrow> tool \<in> fe_tools e)"

definition Unfreeze :: "string \<Rightarrow> frozen_registry \<Rightarrow> frozen_registry" where
  "Unfreeze k r = r(k := None)"

definition ToolNames :: "string \<Rightarrow> frozen_registry \<Rightarrow> string list option" where
  "ToolNames k r = (case r k of None \<Rightarrow> None | Some e \<Rightarrow> Some (sorted_list_of_set (fe_tools e)))"

section \<open>Runs\<close>

datatype airlock_op =
    ASetTier string string string
  | ATryDeescalate airlock_timers
  | ARegister nat
  | AHalfClose
  | AFullClose
  | AInc
  | ADec
  | AForce string string string

fun airlock_step :: "go_time \<times> airlock_op \<Rightarrow> airlock \<Rightarrow> airlock" where
  "airlock_step (now, ASetTier t tr src) a = snd (SetTierWithProvenance now t tr src a)"
| "airlock_step (now, ATryDeescalate tm) a = snd (TryDeescalate now tm a)"
| "airlock_step (now, ARegister c) a = RegisterCancel c a"
| "airlock_step (now, AHalfClose) a = HalfClose a"
| "airlock_step (now, AFullClose) a = FullClose a"
| "airlock_step (now, AInc) a = IncrementInFlight a"
| "airlock_step (now, ADec) a = DecrementInFlight a"
| "airlock_step (now, AForce t tr src) a = snd (ForceSetTierWithProvenance now t tr src a)"

fun registered :: "(go_time \<times> airlock_op) list \<Rightarrow> nat list" where
  "registered [] = []"
| "registered ((now, ARegister c) # xs) = c # registered xs"
| "registered (_ # xs) = registered xs"

section \<open>Quarantine tears down every connection\<close>

lemmas airlock_defs = SetTierWithProvenance_def TryDeescalate_def RegisterCancel_def HalfClose_def FullClose_def
  IncrementInFlight_def DecrementInFlight_def ForceSetTierWithProvenance_def callCancelFuncsLocked_def
  setEntryMetadataLocked_def deescalation_def AirlockTierOrder_def

definition severed :: "airlock \<Rightarrow> bool" where
  "severed a \<longleftrightarrow> (al_tier a \<in> {''hard'', ''drain''} \<longrightarrow> al_cancelFuncs a = [])"

interpretation severed_inv: kept_invariant airlock_step severed
proof
  fix a and x :: "go_time \<times> airlock_op"
  assume "severed a"
  obtain now y where x: "x = (now, y)" by fastforce
  show "severed (airlock_step x a)"
    using \<open>severed a\<close> unfolding x
    by (cases y) (auto simp: severed_def airlock_defs Let_def split: option.splits if_splits)
qed

definition releases :: "go_time \<times> airlock_op \<Rightarrow> bool" where
  "releases = (\<lambda>(now, x). case x of AForce t tr src \<Rightarrow> t = ''none'' | _ \<Rightarrow> False)"

lemma connection_account:
  assumes "\<not> releases x"
  shows "mset (al_cancelled (airlock_step x a)) + mset (al_cancelFuncs (airlock_step x a)) =
    mset (registered [x]) + (mset (al_cancelled a) + mset (al_cancelFuncs a))"
proof -
  obtain now y where x: "x = (now, y)" by fastforce
  show ?thesis
    using assms unfolding x
    by (cases y) (auto simp: releases_def airlock_defs Let_def split: option.splits if_splits)
qed

lemma registered_Cons: "registered (x # xs) = registered [x] @ registered xs"
  by (cases x; cases "snd x") auto

lemma connection_account_run:
  "list_all (\<lambda>x. \<not> releases x) ops \<Longrightarrow>
   mset (al_cancelled (fold airlock_step ops a)) + mset (al_cancelFuncs (fold airlock_step ops a)) =
     mset (registered ops) + (mset (al_cancelled a) + mset (al_cancelFuncs a))"
proof (induction ops arbitrary: a)
  case (Cons x ops)
  then show ?case
    using connection_account [of x a] by (simp add: registered_Cons [of x ops] ac_simps)
qed simp

text \<open>
  C28. Whenever a session is in the hard or drain tier, however it got there (automatic escalation,
  the admin API, a timer stepping down from drain), every connection it registered has been torn
  down exactly once and none is left, unless an operator released the session to the none tier in
  between.
\<close>

theorem quarantine_severs_connections:
  assumes "list_all (\<lambda>x. \<not> releases x) ops"
    and "al_tier (fold airlock_step ops NewAirlockState) \<in> {''hard'', ''drain''}"
  shows "mset (al_cancelled (fold airlock_step ops NewAirlockState)) = mset (registered ops) \<and>
    al_cancelFuncs (fold airlock_step ops NewAirlockState) = []"
proof -
  have "severed NewAirlockState" by (simp add: severed_def NewAirlockState_def)
  then have "severed (fold airlock_step ops NewAirlockState)" by (rule severed_inv.run_keeps)
  with assms(2) have "al_cancelFuncs (fold airlock_step ops NewAirlockState) = []" by (simp add: severed_def)
  with connection_account_run [OF assms(1), of NewAirlockState] show ?thesis
    by (simp add: NewAirlockState_def)
qed

theorem quarantine_severs_connections_witness:
  "mset (al_cancelled (fold airlock_step [(0, ARegister 7), (1, ASetTier ''hard'' [] []), (2, ARegister 8)] NewAirlockState)) =
     {#7, 8#}"
proof -
  let ?ops = "[(0, ARegister 7), (1, ASetTier ''hard'' [] []), (2, ARegister 8)]"
  have "list_all (\<lambda>x. \<not> releases x) ?ops" "al_tier (fold airlock_step ?ops NewAirlockState) \<in> {''hard'', ''drain''}"
    by (simp_all add: releases_def airlock_defs NewAirlockState_def Let_def)
  from quarantine_severs_connections [OF this] show ?thesis by simp
qed

text \<open>
  The exception is real: a connection registered before an operator's release to the none tier
  is forgotten, and a later escalation to hard leaves it open.
\<close>

theorem release_forgets_open_connection:
  "let a = fold airlock_step
       [(0, ARegister 7), (1, ASetTier ''soft'' [] []), (2, AForce ''none'' ''manual'' ''admin_api''), (3, ASetTier ''hard'' [] [])]
       NewAirlockState in
   al_tier a = ''hard'' \<and> al_cancelled a = [] \<and> al_cancelFuncs a = []"
  by (simp add: airlock_defs NewAirlockState_def Let_def)

section \<open>The hard tier holds until its timer\<close>

definition quarantined :: "go_time \<Rightarrow> airlock \<Rightarrow> bool" where
  "quarantined t0 a \<longleftrightarrow> al_tier a = ''drain'' \<or> al_tier a = ''hard'' \<and> (\<exists>t \<ge> t0. al_enteredAt a = Some t)"

text \<open>The steps that may end a quarantine that began at \<open>t0\<close>: an operator's, and one outside the time of its timer.\<close>

definition may_end :: "go_time \<Rightarrow> int \<Rightarrow> go_time \<times> airlock_op \<Rightarrow> bool" where
  "may_end t0 minutes = (\<lambda>(now, x). now < t0 \<or> t0 + minutes * minute_ns \<le> now \<or>
     (case x of AForce t tr src \<Rightarrow> True | ATryDeescalate tm \<Rightarrow> at_hardMinutes tm \<noteq> minutes | _ \<Rightarrow> False))"

lemma wrap_minutes: "0 < n \<Longrightarrow> n \<le> 153722867 \<Longrightarrow> wrap64 (n * minute_ns) = n * minute_ns"
  by (rule wrap64_id) simp_all

interpretation quarantine: sticky_flag airlock_step
  "\<lambda>a. 0 < minutes \<and> minutes \<le> 153722867 \<and> quarantined t0 a" "may_end t0 minutes" for minutes t0
proof
  fix a x
  assume q: "0 < minutes \<and> minutes \<le> 153722867 \<and> quarantined t0 a" and no: "\<not> may_end t0 minutes x"
  obtain now y where x: "x = (now, y)" by fastforce
  have t: "t0 \<le> now" "now < t0 + minutes * minute_ns" using no by (auto simp: x may_end_def)
  have "quarantined t0 (airlock_step x a)"
  proof (cases "\<exists>tm. y = ATryDeescalate tm")
    case True
    then obtain tm where y: "y = ATryDeescalate tm" and tm: "at_hardMinutes tm = minutes"
      using no by (auto simp: x may_end_def)
    have d: "deescalation tm ''hard'' = Some (minutes * minute_ns, ''soft'')"
      using q wrap_minutes [of minutes] by (simp add: deescalation_def tm)
    show ?thesis
    proof (cases "al_tier a = ''hard''")
      case True
      with q obtain e where "al_enteredAt a = Some e" "t0 \<le> e" by (auto simp: quarantined_def)
      with True t d show ?thesis by (simp add: x y TryDeescalate_def quarantined_def since_def)
    next
      case False
      with q have "al_tier a = ''drain''" by (simp add: quarantined_def)
      with t show ?thesis
        by (auto simp: x y TryDeescalate_def quarantined_def deescalation_def setEntryMetadataLocked_def Let_def
            split: if_splits option.splits)
    qed
  next
    case False
    with q no t show ?thesis
      by (cases y) (auto simp: x may_end_def quarantined_def airlock_defs Let_def split: option.splits if_splits)
  qed
  with q show "0 < minutes \<and> minutes \<le> 153722867 \<and> quarantined t0 (airlock_step x a)" by simp
qed

text \<open>
  A session that entered the hard tier at \<open>t0\<close> stays in hard or drain for the configured
  minutes: no sequence of escalation requests to any tier, timer checks, connection and request
  events lowers it before \<open>t0\<close> plus the timer; only an operator's forced transition does.
\<close>

theorem hard_tier_holds:
  assumes "al_tier a = ''hard''" "al_enteredAt a = Some t0" "0 < minutes" "minutes \<le> 153722867"
    and "list_all (\<lambda>x. \<not> may_end t0 minutes x) ops"
  shows "al_tier (fold airlock_step ops a) \<in> {''hard'', ''drain''} \<and>
    (\<forall>method transport tls. transport \<notin> {''fetch'', ''scan_api'', ''mcp''} \<and> method \<notin> {''GET'', ''HEAD'', ''OPTIONS''} \<longrightarrow>
       \<not> fst (ClassifyAction (al_tier (fold airlock_step ops a)) method transport tls))"
proof -
  have "quarantined t0 a" using assms by (simp add: quarantined_def)
  with assms quarantine.run_sticks [of minutes t0 a ops] have "quarantined t0 (fold airlock_step ops a)" by simp
  then have "al_tier (fold airlock_step ops a) \<in> {''hard'', ''drain''}" by (auto simp: quarantined_def)
  then show ?thesis by (auto simp: ClassifyAction_def classifyHard_def readOnlyMethods_def split: if_splits)
qed

definition demo_timers :: airlock_timers where
  "demo_timers = \<lparr>at_softMinutes = 5, at_hardMinutes = 10, at_drainMinutes = 0, at_drainTimeoutSeconds = 30\<rparr>"

theorem hard_tier_holds_witness:
  "al_tier (fold airlock_step [(60000000000, ASetTier ''soft'' [] []), (540000000000, ATryDeescalate demo_timers)]
     (snd (SetTier 0 ''hard'' NewAirlockState))) \<in> {''hard'', ''drain''}"
proof -
  let ?ops = "[(60000000000, ASetTier ''soft'' [] []), (540000000000, ATryDeescalate demo_timers)]"
  let ?a = "snd (SetTier 0 ''hard'' NewAirlockState)"
  have "al_tier ?a = ''hard''" "al_enteredAt ?a = Some 0"
    by (simp_all add: SetTier_def airlock_defs NewAirlockState_def Let_def)
  moreover have "list_all (\<lambda>x. \<not> may_end 0 10 x) ?ops"
    by (simp add: may_end_def demo_timers_def)
  ultimately show ?thesis using hard_tier_holds [of ?a 0 10 ?ops] by simp
qed

lemma tier_order_cases:
  assumes "AirlockTierOrder t = Some n"
  obtains "t = ''none''" "n = 0" | "t = ''soft''" "n = 1" | "t = ''hard''" "n = 2" | "t = ''drain''" "n = 3"
  using assms by (auto simp: AirlockTierOrder_def split: if_splits)

lemma ClassifyAction_simps [simp]:
  "ClassifyAction ''none'' method transport tls = (True, [])"
  "ClassifyAction ''soft'' method transport tls = (True, [])"
  "fst (ClassifyAction ''drain'' method transport tls) = False"
  by (simp_all add: ClassifyAction_def)

lemma ClassifyAction_unknown: "AirlockTierOrder t = None \<Longrightarrow> \<not> fst (ClassifyAction t method transport tls)"
  by (simp add: AirlockTierOrder_def ClassifyAction_def split: if_splits)

text \<open>
  Tiers are graduated: whatever a tier lets through, every lower tier lets through as well; the
  drain tier and every unknown tier let nothing through, and the hard tier lets a CONNECT through only
  where TLS interception makes the inner request visible.
\<close>

lemma stricter_tier_allows_less:
  "(AirlockTierOrder t1 = Some n1 \<and> AirlockTierOrder t2 = Some n2 \<and> n1 \<le> n2 \<and>
     fst (ClassifyAction t2 method transport tls) \<longrightarrow> fst (ClassifyAction t1 method transport tls)) \<and>
   (AirlockTierOrder t = None \<or> t = ''drain'' \<longrightarrow> \<not> fst (ClassifyAction t method transport tls)) \<and>
   (fst (ClassifyAction ''hard'' method ''connect'' tls) \<longrightarrow> tls)"
proof (intro conjI impI; (elim conjE)?)
  assume o: "AirlockTierOrder t1 = Some n1" "AirlockTierOrder t2 = Some n2" "n1 \<le> n2"
    and a: "fst (ClassifyAction t2 method transport tls)"
  show "fst (ClassifyAction t1 method transport tls)"
  proof (rule tier_order_cases [OF o(1)])
    assume "t1 = ''hard''" "n1 = 2"
    with o a show ?thesis by - (rule tier_order_cases [OF o(2)], simp_all)
  next
    assume "t1 = ''drain''" "n1 = 3"
    with o a show ?thesis by - (rule tier_order_cases [OF o(2)], simp_all)
  qed simp_all
next
  assume "AirlockTierOrder t = None \<or> t = ''drain''"
  then show "\<not> fst (ClassifyAction t method transport tls)" using ClassifyAction_unknown by auto
next
  show "fst (ClassifyAction ''hard'' method ''connect'' tls) \<Longrightarrow> tls"
    by (simp add: ClassifyAction_def classifyHard_def split: if_splits)
qed

lemma stricter_tier_allows_less_witness:
  "fst (ClassifyAction ''soft'' ''GET'' ''forward'' False) \<and> \<not> fst (ClassifyAction ''panic'' ''GET'' ''fetch'' True)"
  using stricter_tier_allows_less [of "''soft''" 1 "''hard''" 2 "''GET''" "''forward''" False "''none''"]
    stricter_tier_allows_less [of "''soft''" 1 "''hard''" 2 "''GET''" "''fetch''" True "''panic''"]
  by (simp add: AirlockTierOrder_def ClassifyAction_def classifyHard_def readOnlyMethods_def)

section \<open>Frozen inventories\<close>

datatype registry_op = RFreeze string "string list" | RUnfreeze string

fun registry_step :: "go_time \<times> registry_op \<Rightarrow> frozen_registry \<Rightarrow> frozen_registry" where
  "registry_step (now, RFreeze k tools) r = Freeze now k tools r"
| "registry_step (now, RUnfreeze k) r = Unfreeze k r"

definition unfreezes :: "string \<Rightarrow> go_time \<times> registry_op \<Rightarrow> bool" where
  "unfreezes k = (\<lambda>(now, x). x = RUnfreeze k)"

interpretation frozen: sticky_flag registry_step "\<lambda>r. map_option fe_tools (r k) = Some T" "unfreezes k" for k T
proof
  fix r :: frozen_registry and x :: "go_time \<times> registry_op"
  assume fr: "map_option fe_tools (r k) = Some T" and no: "\<not> unfreezes k x"
  obtain now y where x: "x = (now, y)" by fastforce
  show "map_option fe_tools (registry_step x r k) = Some T"
    using fr no unfolding x by (cases y) (auto simp: Freeze_def Unfreeze_def unfreezes_def)
qed

text \<open>
  The first freeze wins: once an identity's inventory is frozen, exactly the tools of that
  inventory stay callable through every later freeze of it and every operation on other identities,
  until it is unfrozen, and the preview lists them sorted without repetition.
\<close>

lemma first_freeze_wins:
  fixes now :: go_time and tools :: "string list"
  assumes "\<not> IsFrozen k r" and "list_all (\<lambda>x. \<not> unfreezes k x) ops"
  defines "r' \<equiv> fold registry_step ops (Freeze now k tools r)"
  shows "(IsToolAllowed k tool r' \<longleftrightarrow> tool \<in> set tools) \<and>
    (\<exists>names. ToolNames k r' = Some names \<and> set names = set tools \<and> sorted names \<and> distinct names)"
proof -
  have "map_option fe_tools (Freeze now k tools r k) = Some (set tools)"
    using assms(1) by (simp add: Freeze_def IsFrozen_def)
  from frozen.run_sticks [where s = "Freeze now k tools r", OF this assms(2)] obtain e where "r' k = Some e" "fe_tools e = set tools"
    by (auto simp: r'_def)
  then show ?thesis by (simp add: IsToolAllowed_def ToolNames_def)
qed

lemma first_freeze_wins_witness:
  "\<not> IsToolAllowed ''srv'' ''shell''
     (fold registry_step [(1, RFreeze ''srv'' [''shell'']), (2, RUnfreeze ''other'')]
       (Freeze 0 ''srv'' [''read_file''] NewFrozenToolRegistry))"
proof -
  have "\<not> IsFrozen ''srv'' NewFrozenToolRegistry"
    "list_all (\<lambda>x. \<not> unfreezes ''srv'' x) [(1, RFreeze ''srv'' [''shell'']), (2, RUnfreeze ''other'')]"
    by (simp_all add: IsFrozen_def NewFrozenToolRegistry_def unfreezes_def)
  from first_freeze_wins [OF this, of "''shell''" 0 "[''read_file'']"] show ?thesis by simp
qed

end
