(* ===== verification/DenialOfWallet.thy ===== *)
theory DenialOfWallet
  imports Interfaces
begin

text \<open>
  Denial-of-wallet budgets (\<^verbatim>\<open>internal/proxy/dow.go\<close>): a tracker counts and inspects the tool calls of
  one budget subject, the manager keeps one tracker per subject for a fixed window. The SHA-256
  prefix of the arguments is the argument \<open>hashArgs\<close>; every clock reading is an argument. The
  human-readable reason of a refusal is left out, its budget type is kept. A Go zero time is \<open>None\<close>.
  \<^verbatim>\<open>Check\<close> runs the tracker it found in one step with the lookup.
\<close>

section \<open>Trackers\<close>

record dow_config =
  dw_maxToolCalls :: int
  dw_maxConcurrent :: int
  dw_maxWallClockMinutes :: int
  dw_windowMinutes :: int
  dw_maxRetriesPerTool :: int
  dw_loopDetectionWindow :: int
  dw_action :: string

record dow_result =
  dr_allowed :: bool
  dr_budgetType :: string

abbreviation dow_allow :: dow_result where
  "dow_allow \<equiv> \<lparr>dr_allowed = True, dr_budgetType = []\<rparr>"

abbreviation dow_deny :: "string \<Rightarrow> dow_result" where
  "dow_deny b \<equiv> \<lparr>dr_allowed = False, dr_budgetType = b\<rparr>"

record toolCallEntry =
  tc_name :: string
  tc_argsHash :: string
  tc_argsLen :: int
  tc_at :: go_time

record dow_tracker =
  dt_cfg :: dow_config
  dt_start :: go_time
  dt_closed :: bool
  dt_toolCalls :: "toolCallEntry list"
  dt_totalToolCalls :: int
  dt_inflight :: "32 word"

definition newDoWTracker :: "dow_config \<Rightarrow> go_time \<Rightarrow> dow_tracker" where
  "newDoWTracker cfg now = \<lparr>dt_cfg = cfg, dt_start = now, dt_closed = False, dt_toolCalls = [],
     dt_totalToolCalls = 0, dt_inflight = 0\<rparr>"

definition historyWindow :: "dow_tracker \<Rightarrow> int" where
  "historyWindow t =
     (if dw_loopDetectionWindow (dt_cfg t) > 0 then dw_loopDetectionWindow (dt_cfg t)
      else if dw_maxRetriesPerTool (dt_cfg t) > 0 then dw_maxRetriesPerTool (dt_cfg t) + 1
      else 0)"

definition same_call :: "toolCallEntry \<Rightarrow> toolCallEntry \<Rightarrow> bool" where
  "same_call c x \<longleftrightarrow> tc_name x = tc_name c \<and> tc_argsHash x = tc_argsHash c"

definition checkLoop :: "toolCallEntry \<Rightarrow> dow_tracker \<Rightarrow> dow_result" where
  "checkLoop current t =
     (if dw_maxRetriesPerTool (dt_cfg t) \<le> 0 then dow_allow
      else if int (length (filter (same_call current) (dt_toolCalls t))) > dw_maxRetriesPerTool (dt_cfg t)
      then dow_deny ''loop_detected''
      else dow_allow)"

definition minRunawaySteps :: nat where "minRunawaySteps = 3"

fun increasing :: "int list \<Rightarrow> bool" where
  "increasing (x # y # zs) = (if y \<le> x then False else increasing (y # zs))"
| "increasing _ = True"

definition checkRunaway :: "toolCallEntry \<Rightarrow> dow_tracker \<Rightarrow> dow_result" where
  "checkRunaway current t =
     (let sizes = map tc_argsLen (filter (\<lambda>x. tc_name x = tc_name current) (dt_toolCalls t)) in
      if length sizes < minRunawaySteps + 1 then dow_allow
      else if increasing (drop (length sizes - minRunawaySteps - 1) sizes) then dow_deny ''runaway_expansion''
      else dow_allow)"

definition minCycleLength :: nat where "minCycleLength = 4"

definition checkCycle :: "dow_tracker \<Rightarrow> dow_result" where
  "checkCycle t =
     (let n = length (dt_toolCalls t) in
      if n < minCycleLength then dow_allow
      else
        let recent = map tc_name (drop (n - minCycleLength) (dt_toolCalls t));
            a = recent ! 0; b = recent ! 1 in
        if a = b then dow_allow
        else if recent ! 2 = a \<and> recent ! 3 = b then dow_deny ''cycle_detected''
        else dow_allow)"

definition append_call :: "toolCallEntry \<Rightarrow> dow_tracker \<Rightarrow> dow_tracker" where
  "append_call entry t =
     (let calls = dt_toolCalls t @ [entry]; window = historyWindow t in
      t\<lparr>dt_totalToolCalls := dt_totalToolCalls t + 1,
        dt_toolCalls := (if window \<le> 0 then [] else if int (length calls) > window
                         then drop (length calls - nat window) calls else calls)\<rparr>)"

definition judge_call :: "go_time \<Rightarrow> toolCallEntry \<Rightarrow> dow_tracker \<Rightarrow> dow_result" where
  "judge_call now entry t =
     (let cfg = dt_cfg t in
      if dw_maxToolCalls cfg > 0 \<and> dt_totalToolCalls t > dw_maxToolCalls cfg then dow_deny ''tool_call_limit''
      else if dw_maxWallClockMinutes cfg > 0 \<and> now - dt_start t > wrap64 (dw_maxWallClockMinutes cfg * minute_ns)
      then dow_deny ''wall_clock''
      else if dw_maxRetriesPerTool cfg > 0 \<and> \<not> dr_allowed (checkLoop entry t) then checkLoop entry t
      else if dw_loopDetectionWindow cfg \<le> 0 then dow_allow
      else if \<not> dr_allowed (checkRunaway entry t) then checkRunaway entry t
      else if \<not> dr_allowed (checkCycle t) then checkCycle t
      else dow_allow)"

definition call_entry :: "(string \<Rightarrow> string) \<Rightarrow> go_time \<Rightarrow> string \<Rightarrow> string \<Rightarrow> toolCallEntry" where
  "call_entry hashArgs now toolName argsJSON =
     \<lparr>tc_name = toolName, tc_argsHash = hashArgs argsJSON, tc_argsLen = int (length argsJSON), tc_at = now\<rparr>"

definition RecordToolCall ::
  "(string \<Rightarrow> string) \<Rightarrow> go_time \<Rightarrow> string \<Rightarrow> string \<Rightarrow> dow_tracker \<Rightarrow> dow_result \<times> dow_tracker" where
  "RecordToolCall hashArgs now toolName argsJSON t =
     (if dt_closed t then (dow_deny ''wall_clock'', t)
      else
        let entry = call_entry hashArgs now toolName argsJSON;
            t1 = append_call entry t in
        (judge_call now entry t1, t1))"

definition tracker_UpdateConfig :: "dow_config \<Rightarrow> dow_tracker \<Rightarrow> dow_tracker" where
  "tracker_UpdateConfig cfg t = t\<lparr>dt_cfg := cfg\<rparr>"

definition TotalToolCalls :: "dow_tracker \<Rightarrow> int" where
  "TotalToolCalls t = dt_totalToolCalls t"

definition tracker_Close :: "dow_tracker \<Rightarrow> dow_tracker" where
  "tracker_Close t = t\<lparr>dt_closed := True\<rparr>"

section \<open>Concurrent calls\<close>

definition concurrent_limit :: "dow_tracker \<Rightarrow> int" where
  "concurrent_limit t =
     (let l = dw_maxConcurrent (dt_cfg t); l1 = (if l \<le> 0 then 10 else l) in min l1 (2 ^ 30))"

text \<open>
  \<^verbatim>\<open>AcquireConcurrent\<close> adds one to the counter under the lock (\<open>acquire_begin\<close>) and, when it went over
  the limit, takes it back after the lock (\<open>acquire_rollback\<close>); other goroutines run in between.
\<close>

definition acquire_begin :: "dow_tracker \<Rightarrow> (bool \<times> bool) \<times> dow_tracker" where
  "acquire_begin t =
     (if dt_closed t then ((False, False), t)
      else let current = dt_inflight t + 1 in
        ((sint current \<le> concurrent_limit t, sint current > concurrent_limit t), t\<lparr>dt_inflight := current\<rparr>))"

definition acquire_rollback :: "dow_tracker \<Rightarrow> dow_tracker" where
  "acquire_rollback t = t\<lparr>dt_inflight := dt_inflight t - 1\<rparr>"

definition AcquireConcurrent :: "dow_tracker \<Rightarrow> dow_result \<times> dow_tracker" where
  "AcquireConcurrent t =
     (case acquire_begin t of ((granted, over), t1) \<Rightarrow>
        if over then (dow_deny ''concurrent_limit'', acquire_rollback t1)
        else if granted then (dow_allow, t1)
        else (dow_deny ''concurrent_limit'', t1))"

text \<open>The compare-and-swap loop of \<^verbatim>\<open>ReleaseConcurrent\<close>, from the read that its swap confirms.\<close>

definition ReleaseConcurrent :: "dow_tracker \<Rightarrow> dow_tracker" where
  "ReleaseConcurrent t = (if sint (dt_inflight t) \<le> 0 then t else t\<lparr>dt_inflight := dt_inflight t - 1\<rparr>)"

definition Inflight :: "dow_tracker \<Rightarrow> int" where
  "Inflight t = sint (dt_inflight t)"

section \<open>The subject manager\<close>

record dowSubjectEntry =
  se_tracker :: dow_tracker
  se_windowStart :: go_time
  se_expiresAt :: go_time

record dow_manager =
  dm_cfg :: dow_config
  dm_window :: duration
  dm_idleTTL :: duration
  dm_maxSubjects :: int
  dm_subjects :: "(string \<times> dowSubjectEntry) list"
  dm_nextExpiry :: "go_time option"

definition normalizeDoWSubjectWindow :: "dow_config \<Rightarrow> duration \<Rightarrow> duration" where
  "normalizeDoWSubjectWindow cfg idleTTL =
     (let w0 = wrap64 (dw_windowMinutes cfg * minute_ns);
          w1 = (if w0 \<le> 0 then idleTTL else w0) in
      if w1 \<le> 0 then 30 * minute_ns else w1)"

definition NewDoWSubjectManager :: "dow_config \<Rightarrow> duration \<Rightarrow> int \<Rightarrow> dow_manager" where
  "NewDoWSubjectManager cfg idleTTL maxSubjects =
     \<lparr>dm_cfg = cfg, dm_window = normalizeDoWSubjectWindow cfg idleTTL, dm_idleTTL = idleTTL,
      dm_maxSubjects = (if maxSubjects \<le> 0 then 10000 else maxSubjects), dm_subjects = [], dm_nextExpiry = None\<rparr>"

definition earliest_of :: "go_time option \<Rightarrow> go_time \<Rightarrow> go_time option" where
  "earliest_of e x = (case e of None \<Rightarrow> Some x | Some y \<Rightarrow> if x < y then Some x else Some y)"

definition reapExpiredLocked :: "go_time \<Rightarrow> dow_manager \<Rightarrow> dow_manager" where
  "reapExpiredLocked now m =
     (if (case dm_nextExpiry m of None \<Rightarrow> False | Some x \<Rightarrow> now < x) then m
      else
        let kept = filter (\<lambda>(k, e). now < se_expiresAt e) (dm_subjects m) in
        m\<lparr>dm_subjects := kept,
          dm_nextExpiry := foldl (\<lambda>e (k, s). earliest_of e (se_expiresAt s)) None kept\<rparr>)"

text \<open>\<open>t1\<close> is the manager's clock, \<open>t2\<close> the clock of a new tracker.\<close>

definition trackerFor :: "go_time \<Rightarrow> go_time \<Rightarrow> string \<Rightarrow> dow_manager \<Rightarrow> bool \<times> dow_manager" where
  "trackerFor t1 t2 subjectKey m0 =
     (let m = reapExpiredLocked t1 m0 in
      if map_of (dm_subjects m) subjectKey \<noteq> None then (True, m)
      else if int (length (dm_subjects m)) \<ge> dm_maxSubjects m then (False, m)
      else
        let expiry = t1 + dm_window m in
        (True, m\<lparr>dm_subjects := AList.update subjectKey
                   \<lparr>se_tracker = newDoWTracker (dm_cfg m) t2, se_windowStart = t1, se_expiresAt = expiry\<rparr> (dm_subjects m),
                 dm_nextExpiry := earliest_of (dm_nextExpiry m) expiry\<rparr>))"

definition subject_key :: "string \<Rightarrow> string" where
  "subject_key k = (if k = [] then ''_default'' else k)"

definition Check ::
  "(string \<Rightarrow> string) \<Rightarrow> go_time \<Rightarrow> go_time \<Rightarrow> go_time \<Rightarrow> string \<Rightarrow> string \<Rightarrow> string \<Rightarrow> dow_manager \<Rightarrow> dow_result \<times> dow_manager" where
  "Check hashArgs t1 t2 t3 key toolName argsJSON m0 =
     (let k = subject_key key; (ok, m) = trackerFor t1 t2 k m0 in
      if \<not> ok then (dow_deny ''subject_cap'', m)
      else case map_of (dm_subjects m) k of None \<Rightarrow> (dow_deny ''subject_cap'', m)
        | Some e \<Rightarrow>
            let (r, tr) = RecordToolCall hashArgs t3 toolName argsJSON (se_tracker e) in
            (r, m\<lparr>dm_subjects := AList.update k (e\<lparr>se_tracker := tr\<rparr>) (dm_subjects m)\<rparr>))"

definition SubjectCount :: "go_time \<Rightarrow> dow_manager \<Rightarrow> int \<times> dow_manager" where
  "SubjectCount now m0 = (let m = reapExpiredLocked now m0 in (int (length (dm_subjects m)), m))"

definition extend_entry :: "bool \<Rightarrow> duration \<Rightarrow> dow_config \<Rightarrow> dowSubjectEntry \<Rightarrow> dowSubjectEntry" where
  "extend_entry ext newWindow cfg e =
     (let e1 = (if ext \<and> se_windowStart e + newWindow > se_expiresAt e
                then e\<lparr>se_expiresAt := se_windowStart e + newWindow\<rparr> else e) in
      e1\<lparr>se_tracker := tracker_UpdateConfig cfg (se_tracker e1)\<rparr>)"

definition dow_UpdateConfig :: "go_time \<Rightarrow> dow_config \<Rightarrow> dow_manager \<Rightarrow> dow_manager" where
  "dow_UpdateConfig now cfg m0 =
     (let m = reapExpiredLocked now m0;
          newWindow = normalizeDoWSubjectWindow cfg (dm_idleTTL m);
          ext = newWindow > dm_window m;
          subjects = map (\<lambda>(k, e). (k, extend_entry ext newWindow cfg e)) (dm_subjects m) in
      m\<lparr>dm_cfg := cfg, dm_window := newWindow, dm_subjects := subjects,
        dm_nextExpiry := (if ext then foldl (\<lambda>e (k, s). earliest_of e (se_expiresAt s)) None subjects
                          else dm_nextExpiry m)\<rparr>)"

section \<open>Runs\<close>

datatype dow_op =
    DCheck go_time go_time go_time string string string
  | DCount go_time
  | DConfig go_time dow_config

fun dow_step :: "(string \<Rightarrow> string) \<Rightarrow> dow_op \<Rightarrow> dow_manager \<Rightarrow> dow_manager" where
  "dow_step h (DCheck t1 t2 t3 k tool args) m = snd (Check h t1 t2 t3 k tool args m)"
| "dow_step h (DCount now) m = snd (SubjectCount now m)"
| "dow_step h (DConfig now cfg) m = dow_UpdateConfig now cfg m"

section \<open>The skipped scan is exact\<close>

definition dow_ok :: "dow_manager \<Rightarrow> bool" where
  "dow_ok m \<longleftrightarrow>
     (case dm_nextExpiry m of None \<Rightarrow> dm_subjects m = []
      | Some x \<Rightarrow> list_all (\<lambda>(k, e). x \<le> se_expiresAt e) (dm_subjects m)) \<and>
     0 < dm_maxSubjects m \<and> int (length (dm_subjects m)) \<le> dm_maxSubjects m"

lemma foldl_earliest:
  "case foldl (\<lambda>e (k, s). earliest_of e (se_expiresAt s)) acc xs of
     None \<Rightarrow> acc = None \<and> xs = []
   | Some x \<Rightarrow> list_all (\<lambda>(k, e). x \<le> se_expiresAt e) xs \<and> (case acc of None \<Rightarrow> True | Some a \<Rightarrow> x \<le> a)"
proof (induction xs arbitrary: acc)
  case (Cons y ys)
  obtain k s where y: "y = (k, s)" by fastforce
  have "\<exists>z. earliest_of acc (se_expiresAt s) = Some z \<and> z \<le> se_expiresAt s \<and> (case acc of None \<Rightarrow> True | Some a \<Rightarrow> z \<le> a)"
    by (auto simp: earliest_of_def split: option.splits)
  then obtain z where z: "earliest_of acc (se_expiresAt s) = Some z" "z \<le> se_expiresAt s"
    "case acc of None \<Rightarrow> True | Some a \<Rightarrow> z \<le> a" by blast
  from Cons [of "Some z"] z y show ?case by (auto split: option.splits)
qed (simp split: option.splits)

lemma reap_ok: "dow_ok m \<Longrightarrow> dow_ok (reapExpiredLocked now m)"
proof (cases "case dm_nextExpiry m of None \<Rightarrow> False | Some x \<Rightarrow> now < x")
  case False
  assume ok: "dow_ok m"
  let ?kept = "filter (\<lambda>(k, e). now < se_expiresAt e) (dm_subjects m)"
  have "length ?kept \<le> length (dm_subjects m)" by simp
  then have "int (length ?kept) \<le> dm_maxSubjects m" using ok unfolding dow_ok_def by linarith
  with ok False foldl_earliest [of None ?kept] show ?thesis
    by (auto simp: dow_ok_def reapExpiredLocked_def Let_def split: option.splits)
qed (simp add: reapExpiredLocked_def)

lemma reap_exact:
  assumes "dow_ok m"
  shows "dm_subjects (reapExpiredLocked now m) = filter (\<lambda>(k, e). now < se_expiresAt e) (dm_subjects m)"
proof (cases "case dm_nextExpiry m of None \<Rightarrow> False | Some x \<Rightarrow> now < x")
  case True
  with assms have "list_all (\<lambda>(k, e). now < se_expiresAt e) (dm_subjects m)"
    by (auto simp: dow_ok_def list_all_iff split: option.splits)
  then have "filter (\<lambda>(k, e). now < se_expiresAt e) (dm_subjects m) = dm_subjects m"
    by (simp add: filter_id_conv list_all_iff)
  with True show ?thesis by (simp add: reapExpiredLocked_def)
next
  case False
  then show ?thesis by (simp add: reapExpiredLocked_def Let_def)
qed

lemma list_all_update:
  "list_all P xs \<Longrightarrow> P (k, v) \<Longrightarrow> list_all P (AList.update k v xs)"
  by (induction xs) auto

lemma length_alist_update: "length (AList.update k v xs) = (if map_of xs k = None then Suc (length xs) else length xs)"
  by (induction xs) auto

lemma trackerFor_ok:
  assumes "dow_ok m"
  shows "dow_ok (snd (trackerFor t1 t2 k m))"
proof -
  define m1 where "m1 = reapExpiredLocked t1 m"
  have ok: "dow_ok m1" unfolding m1_def using assms by (rule reap_ok)
  define e where "e = \<lparr>se_tracker = newDoWTracker (dm_cfg m1) t2, se_windowStart = t1, se_expiresAt = t1 + dm_window m1\<rparr>"
  define x where "x = (case dm_nextExpiry m1 of None \<Rightarrow> t1 + dm_window m1
     | Some y \<Rightarrow> if t1 + dm_window m1 < y then t1 + dm_window m1 else y)"
  have x: "earliest_of (dm_nextExpiry m1) (t1 + dm_window m1) = Some x" "x \<le> se_expiresAt e"
    "list_all (\<lambda>(k, e). x \<le> se_expiresAt e) (dm_subjects m1)"
    using ok by (auto simp: earliest_of_def x_def e_def dow_ok_def list_all_iff split: option.splits)
  from x(3) x(2) have "list_all (\<lambda>(k, e). x \<le> se_expiresAt e) (AList.update k e (dm_subjects m1))"
    by (intro list_all_update) auto
  with ok x show ?thesis
    by (simp add: trackerFor_def Let_def m1_def [symmetric] e_def [symmetric] dow_ok_def length_alist_update
        split: option.splits)
qed

lemma Check_subjects:
  "\<exists>m1. m1 = snd (trackerFor t1 t2 (subject_key k) m) \<and> (snd (Check h t1 t2 t3 k tool args m) = m1 \<or>
    (\<exists>e. map_of (dm_subjects m1) (subject_key k) = Some e \<and> snd (Check h t1 t2 t3 k tool args m) =
       m1\<lparr>dm_subjects := AList.update (subject_key k)
          (e\<lparr>se_tracker := snd (RecordToolCall h t3 tool args (se_tracker e))\<rparr>) (dm_subjects m1)\<rparr>))"
  by (auto simp: Check_def Let_def split: prod.splits option.splits)

lemma Check_ok:
  assumes "dow_ok m"
  shows "dow_ok (snd (Check h t1 t2 t3 k tool args m))"
proof -
  from Check_subjects [of t1 t2 k m h t3 tool args] obtain m1 where
    m1: "m1 = snd (trackerFor t1 t2 (subject_key k) m)" and
    cases: "snd (Check h t1 t2 t3 k tool args m) = m1 \<or> (\<exists>e. map_of (dm_subjects m1) (subject_key k) = Some e \<and>
      snd (Check h t1 t2 t3 k tool args m) = m1\<lparr>dm_subjects := AList.update (subject_key k)
          (e\<lparr>se_tracker := snd (RecordToolCall h t3 tool args (se_tracker e))\<rparr>) (dm_subjects m1)\<rparr>)" by blast
  have ok: "dow_ok m1" unfolding m1 using assms by (rule trackerFor_ok)
  from cases show ?thesis
  proof (elim disjE exE conjE)
    fix e
    assume e: "map_of (dm_subjects m1) (subject_key k) = Some e"
      and s: "snd (Check h t1 t2 t3 k tool args m) = m1\<lparr>dm_subjects := AList.update (subject_key k)
          (e\<lparr>se_tracker := snd (RecordToolCall h t3 tool args (se_tracker e))\<rparr>) (dm_subjects m1)\<rparr>"
    from ok map_of_SomeD [OF e] have "x \<le> se_expiresAt e" if "dm_nextExpiry m1 = Some x" for x
      using that by (auto simp: dow_ok_def list_all_iff)
    with ok e show ?thesis unfolding s
      by (auto simp: dow_ok_def length_alist_update intro!: list_all_update split: option.splits)
  qed (use ok in simp)
qed

lemma UpdateConfig_ok:
  assumes "dow_ok m"
  shows "dow_ok (dow_UpdateConfig now cfg m)"
proof -
  define m1 where "m1 = reapExpiredLocked now m"
  have ok: "dow_ok m1" unfolding m1_def using assms by (rule reap_ok)
  define ext where "ext = (dm_window m1 < normalizeDoWSubjectWindow cfg (dm_idleTTL m1))"
  define xs where "xs = map (\<lambda>(k, e). (k, extend_entry ext (normalizeDoWSubjectWindow cfg (dm_idleTTL m1)) cfg e)) (dm_subjects m1)"
  have later: "se_expiresAt e \<le> se_expiresAt (extend_entry ext n cfg e)" for e n
    by (simp add: extend_entry_def Let_def)
  have "case dm_nextExpiry m1 of None \<Rightarrow> xs = [] | Some x \<Rightarrow> list_all (\<lambda>(k, e). x \<le> se_expiresAt e) xs"
    using ok later by (auto simp: xs_def dow_ok_def list_all_iff split: option.splits intro: order_trans)
  with ok foldl_earliest [of None xs] have "dow_ok (m1\<lparr>dm_cfg := cfg, dm_window := n, dm_subjects := xs,
      dm_nextExpiry := (if ext then foldl (\<lambda>e (k, s). earliest_of e (se_expiresAt s)) None xs else dm_nextExpiry m1)\<rparr>)" for n
    by (auto simp: dow_ok_def xs_def split: option.splits)
  then show ?thesis
    by (simp only: dow_UpdateConfig_def Let_def m1_def [symmetric] ext_def [symmetric] xs_def [symmetric])
qed

interpretation dow_inv: kept_invariant "dow_step h" dow_ok for h
proof
  show "dow_ok (dow_step h x m)" if "dow_ok m" for m x
    using that by (cases x) (auto simp: Check_ok UpdateConfig_ok SubjectCount_def Let_def reap_ok)
qed

text \<open>
  The scan that \<^verbatim>\<open>reapExpiredLocked\<close> skips would have found nothing: after every sequence of checks,
  counts and hot reloads, reaping leaves exactly the subjects whose window has not ended, and there
  are never more subjects than the cap.
\<close>

lemma reap_skip_is_exact:
  fixes h :: "string \<Rightarrow> string" and ops :: "dow_op list" and cfg :: dow_config and idleTTL :: duration and maxSubjects :: int
  defines "m \<equiv> fold (dow_step h) ops (NewDoWSubjectManager cfg idleTTL maxSubjects)"
  shows "dm_subjects (reapExpiredLocked now m) = filter (\<lambda>(k, e). now < se_expiresAt e) (dm_subjects m) \<and>
    int (length (dm_subjects m)) \<le> dm_maxSubjects m"
proof -
  have "dow_ok (NewDoWSubjectManager cfg idleTTL maxSubjects)"
    by (simp add: dow_ok_def NewDoWSubjectManager_def)
  then have "dow_ok m" unfolding m_def by (rule dow_inv.run_keeps)
  then show ?thesis using reap_exact by (auto simp: dow_ok_def)
qed

section \<open>A spent budget stays spent\<close>

text \<open>Subject \<open>k\<close> has used up \<open>L\<close> calls or more in a window that lasts at least until \<open>X\<close>.\<close>

definition exhausted :: "int \<Rightarrow> go_time \<Rightarrow> string \<Rightarrow> dow_manager \<Rightarrow> bool" where
  "exhausted L X k m \<longleftrightarrow> (\<exists>e. map_of (dm_subjects m) k = Some e \<and> X \<le> se_expiresAt e \<and>
     L \<le> dt_totalToolCalls (se_tracker e) \<and> 0 < dw_maxToolCalls (dt_cfg (se_tracker e)) \<and>
     dw_maxToolCalls (dt_cfg (se_tracker e)) \<le> L)"

text \<open>The steps that may restore its budget: those after the window, and a reload that lifts the limit.\<close>

definition restores :: "int \<Rightarrow> go_time \<Rightarrow> dow_op \<Rightarrow> bool" where
  "restores L X x = (case x of DCheck t1 t2 t3 k tool args \<Rightarrow> X \<le> t1 | DCount now \<Rightarrow> X \<le> now
     | DConfig now cfg \<Rightarrow> X \<le> now \<or> \<not> (0 < dw_maxToolCalls cfg \<and> dw_maxToolCalls cfg \<le> L))"

lemma map_of_filter_keep: "map_of xs k = Some e \<Longrightarrow> P (k, e) \<Longrightarrow> map_of (filter P xs) k = Some e"
  by (induction xs) (auto split: if_splits)

lemma reap_exhausted:
  assumes "exhausted L X k m" "now < X"
  shows "exhausted L X k (reapExpiredLocked now m)"
proof -
  from assms obtain e where e: "map_of (dm_subjects m) k = Some e" "X \<le> se_expiresAt e"
     "L \<le> dt_totalToolCalls (se_tracker e)" "0 < dw_maxToolCalls (dt_cfg (se_tracker e))"
     "dw_maxToolCalls (dt_cfg (se_tracker e)) \<le> L" by (auto simp: exhausted_def)
  have "map_of (filter (\<lambda>(k, e). now < se_expiresAt e) (dm_subjects m)) k = Some e"
    using e assms(2) by (intro map_of_filter_keep) auto
  with e show ?thesis by (auto simp: exhausted_def reapExpiredLocked_def Let_def)
qed

lemma trackerFor_exhausted:
  assumes "exhausted L X k m" "t1 < X"
  shows "exhausted L X k (snd (trackerFor t1 t2 k' m)) \<and> (k' = k \<longrightarrow> fst (trackerFor t1 t2 k' m))"
  using reap_exhausted [OF assms] by (auto simp: trackerFor_def Let_def exhausted_def update_conv')

lemma RecordToolCall_simps:
  "dt_cfg (snd (RecordToolCall h now tool args t)) = dt_cfg t"
  "dt_closed (snd (RecordToolCall h now tool args t)) = dt_closed t"
  "dt_totalToolCalls (snd (RecordToolCall h now tool args t)) = dt_totalToolCalls t + (if dt_closed t then 0 else 1)"
  by (simp_all add: RecordToolCall_def append_call_def Let_def)

lemma RecordToolCall_exhausted:
  assumes "L \<le> dt_totalToolCalls t" "0 < dw_maxToolCalls (dt_cfg t)" "dw_maxToolCalls (dt_cfg t) \<le> L"
  shows "\<not> dr_allowed (fst (RecordToolCall h now tool args t))"
  using assms by (simp add: RecordToolCall_def Let_def judge_call_def append_call_def)

lemma Check_exhausted:
  assumes "exhausted L X k m" "t1 < X"
  shows "exhausted L X k (snd (Check h t1 t2 t3 key tool args m)) \<and>
    (subject_key key = k \<longrightarrow> \<not> dr_allowed (fst (Check h t1 t2 t3 key tool args m)))"
proof -
  define k' where "k' = subject_key key"
  obtain ok m1 where tf: "trackerFor t1 t2 k' m = (ok, m1)" by fastforce
  from trackerFor_exhausted [OF assms, of t2 k'] tf have ex: "exhausted L X k m1" and ok: "k' = k \<longrightarrow> ok" by auto
  from ex obtain e where e: "map_of (dm_subjects m1) k = Some e" "X \<le> se_expiresAt e"
     "L \<le> dt_totalToolCalls (se_tracker e)" "0 < dw_maxToolCalls (dt_cfg (se_tracker e))"
     "dw_maxToolCalls (dt_cfg (se_tracker e)) \<le> L" by (auto simp: exhausted_def)
  obtain r tr where R: "RecordToolCall h t3 tool args (se_tracker e) = (r, tr)" by fastforce
  have tr: "dt_cfg tr = dt_cfg (se_tracker e)" "dt_totalToolCalls (se_tracker e) \<le> dt_totalToolCalls tr"
    using RecordToolCall_simps [of h t3 tool args "se_tracker e"] R by auto
  have deny: "\<not> dr_allowed r" using RecordToolCall_exhausted [OF e(3-5), of h t3 tool args] R by simp
  show ?thesis
  proof (cases "k' = k")
    case True
    with ok tf e R have "Check h t1 t2 t3 key tool args m =
        (r, m1\<lparr>dm_subjects := AList.update k (e\<lparr>se_tracker := tr\<rparr>) (dm_subjects m1)\<rparr>)"
      by (simp add: Check_def k'_def Let_def)
    with e tr deny show ?thesis by (auto simp: exhausted_def update_conv')
  next
    case False
    with ex tf show ?thesis
      by (auto simp: Check_def k'_def [symmetric] Let_def exhausted_def update_conv' split: option.splits prod.splits)
  qed
qed

lemma UpdateConfig_exhausted:
  assumes "exhausted L X k m" "now < X" "0 < dw_maxToolCalls cfg" "dw_maxToolCalls cfg \<le> L"
  shows "exhausted L X k (dow_UpdateConfig now cfg m)"
proof -
  define m1 where "m1 = reapExpiredLocked now m"
  from reap_exhausted [OF assms(1,2)] obtain e where e: "map_of (dm_subjects m1) k = Some e" "X \<le> se_expiresAt e"
     "L \<le> dt_totalToolCalls (se_tracker e)" by (auto simp: exhausted_def m1_def)
  have "map_of (map (\<lambda>(k, e). (k, extend_entry b n cfg e)) (dm_subjects m1)) k = Some (extend_entry b n cfg e)" for b n
    using e(1) by (simp add: map_of_map)
  moreover have "X \<le> se_expiresAt (extend_entry b n cfg e)"
    "dt_totalToolCalls (se_tracker (extend_entry b n cfg e)) = dt_totalToolCalls (se_tracker e)"
    "dt_cfg (se_tracker (extend_entry b n cfg e)) = cfg" for b n
    using e(2) by (auto simp: extend_entry_def tracker_UpdateConfig_def Let_def)
  ultimately show ?thesis
    using e(3) assms(3,4) by (simp add: exhausted_def dow_UpdateConfig_def Let_def m1_def [symmetric])
qed

interpretation spent: sticky_flag "dow_step h" "exhausted L X k" "restores L X" for h L X k
proof
  show "exhausted L X k (dow_step h x m)" if "exhausted L X k m" "\<not> restores L X x" for m x
    using that Check_exhausted reap_exhausted UpdateConfig_exhausted
    by (cases x) (auto simp: restores_def SubjectCount_def Let_def not_le)
qed

text \<open>
  A subject that has used up its tool-call budget is refused for the rest of its window: no
  sequence of calls by it or by others, counts, and hot reloads that keep a limit at or below what it
  has spent gives it another call before the window ends.
\<close>

theorem spent_budget_stays_spent:
  assumes "exhausted L X (subject_key key) m" and "list_all (\<lambda>x. \<not> restores L X x) ops" and "t1 < X"
  shows "\<not> dr_allowed (fst (Check h t1 t2 t3 key tool args (fold (dow_step h) ops m)))"
  using Check_exhausted [OF spent.run_sticks [OF assms(1,2)] assms(3)] by blast

definition one_call_config :: dow_config where
  "one_call_config = \<lparr>dw_maxToolCalls = 1, dw_maxConcurrent = 0, dw_maxWallClockMinutes = 0, dw_windowMinutes = 10,
     dw_maxRetriesPerTool = 0, dw_loopDetectionWindow = 0, dw_action = ''block''\<rparr>"

theorem spent_budget_stays_spent_witness:
  "\<not> dr_allowed (fst (Check (\<lambda>x. x) 300000000000 0 0 [] ''shell'' [] (fold (dow_step (\<lambda>x. x))
     [DConfig 200000000000 (one_call_config\<lparr>dw_windowMinutes := 20\<rparr>), DCheck 250000000000 0 0 ''other'' ''ls'' []]
     (snd (Check (\<lambda>x. x) 0 0 0 [] ''shell'' [] (NewDoWSubjectManager one_call_config 0 5))))))"
proof -
  let ?m = "snd (Check (\<lambda>x. x) 0 0 0 [] ''shell'' [] (NewDoWSubjectManager one_call_config 0 5))"
  let ?ops = "[DConfig 200000000000 (one_call_config\<lparr>dw_windowMinutes := 20\<rparr>), DCheck 250000000000 0 0 ''other'' ''ls'' []]"
  have "exhausted 1 600000000000 (subject_key []) ?m"
    by (simp add: exhausted_def Check_def trackerFor_def reapExpiredLocked_def NewDoWSubjectManager_def one_call_config_def
        subject_key_def RecordToolCall_def append_call_def newDoWTracker_def normalizeDoWSubjectWindow_def historyWindow_def Let_def)
  moreover have "list_all (\<lambda>x. \<not> restores 1 600000000000 x) ?ops"
    by (simp add: restores_def one_call_config_def)
  ultimately show ?thesis by (rule spent_budget_stays_spent) simp
qed

section \<open>Repeated calls\<close>

definition tracker_after :: "(string \<Rightarrow> string) \<Rightarrow> dow_config \<Rightarrow> go_time \<Rightarrow> (go_time \<times> string \<times> string) list \<Rightarrow> dow_tracker" where
  "tracker_after h cfg start calls =
     fold (\<lambda>(now, tool, args) t. snd (RecordToolCall h now tool args t)) calls (newDoWTracker cfg start)"

definition log_of :: "(string \<Rightarrow> string) \<Rightarrow> (go_time \<times> string \<times> string) list \<Rightarrow> toolCallEntry list" where
  "log_of h calls = map (\<lambda>(now, tool, args). call_entry h now tool args) calls"

lemma drop_last_snoc:
  assumes "0 < w"
  shows "drop (length (drop (length xs - w) xs @ [e]) - w) (drop (length xs - w) xs @ [e]) = drop (Suc (length xs) - w) (xs @ [e])"
proof (cases "length xs < w")
  case False
  then have "Suc (length xs) - w = Suc (length xs - w)" by simp
  moreover have "length (drop (length xs - w) xs @ [e]) - w = 1" using False by simp
  ultimately show ?thesis using False assms by (simp add: drop_Suc drop_tl)
qed simp

text \<open>The trimmed history is the end of the full log of calls.\<close>

lemma tracker_history:
  "dt_cfg (tracker_after h cfg start calls) = cfg \<and> \<not> dt_closed (tracker_after h cfg start calls) \<and>
   dt_totalToolCalls (tracker_after h cfg start calls) = int (length calls) \<and>
   dt_toolCalls (tracker_after h cfg start calls) =
     (let w = nat (historyWindow (newDoWTracker cfg start)) in
      if w = 0 then [] else drop (length calls - w) (log_of h calls))"
proof (induction calls rule: rev_induct)
  case Nil
  then show ?case by (simp add: tracker_after_def newDoWTracker_def log_of_def)
next
  case (snoc c calls)
  obtain now tool args where c: "c = (now, tool, args)" by (metis prod_cases3)
  define t where "t = tracker_after h cfg start calls"
  define w where "w = nat (historyWindow (newDoWTracker cfg start))"
  have hw: "historyWindow t = historyWindow (newDoWTracker cfg start)"
    using snoc by (simp add: historyWindow_def t_def newDoWTracker_def)
  have len: "length (log_of h calls) = length calls" by (simp add: log_of_def)
  have step: "tracker_after h cfg start (calls @ [c]) = append_call (call_entry h now tool args) t"
    using snoc by (simp add: tracker_after_def t_def c RecordToolCall_def Let_def)
  have log: "log_of h (calls @ [c]) = log_of h calls @ [call_entry h now tool args]" by (simp add: log_of_def c)
  have calls: "dt_toolCalls (append_call (call_entry h now tool args) t) =
      (if w = 0 then [] else drop (Suc (length calls) - w) (log_of h calls @ [call_entry h now tool args]))"
  proof (cases "w = 0")
    case False
    then have tc: "dt_toolCalls t = drop (length calls - w) (log_of h calls)"
      using snoc by (simp add: t_def w_def Let_def)
    have "dt_toolCalls (append_call (call_entry h now tool args) t) =
        drop (length (dt_toolCalls t @ [call_entry h now tool args]) - w) (dt_toolCalls t @ [call_entry h now tool args])"
      using False by (auto simp: append_call_def Let_def hw w_def)
    with False drop_last_snoc [of w "log_of h calls"] show ?thesis by (simp only: tc len if_False)
  qed (simp add: append_call_def Let_def hw w_def)
  from snoc show ?case
    by (simp add: step calls log Let_def w_def [symmetric]) (simp add: append_call_def t_def Let_def)
qed

text \<open>
  With a retry limit and no other budget, the trimmed history is enough: a call is refused exactly
  when it and the calls just before it, one more than the limit in all, are identical in tool and
  argument hash, however long the session has run.
\<close>

theorem retry_limit_on_full_log:
  assumes "0 < dw_maxRetriesPerTool cfg" "dw_maxToolCalls cfg \<le> 0" "dw_maxWallClockMinutes cfg \<le> 0" "dw_loopDetectionWindow cfg \<le> 0"
  defines "n \<equiv> nat (dw_maxRetriesPerTool cfg) + 1"
  shows "dr_allowed (fst (RecordToolCall h now tool args (tracker_after h cfg start calls))) \<longleftrightarrow>
    \<not> (n \<le> length calls + 1 \<and>
       list_all (same_call (call_entry h now tool args))
         (drop (length calls + 1 - n) (log_of h calls @ [call_entry h now tool args])))"
proof -
  define c where "c = call_entry h now tool args"
  define xs where "xs = log_of h (calls @ [(now, tool, args)])"
  define t where "t = tracker_after h cfg start calls"
  define recent where "recent = drop (length calls + 1 - n) xs"
  have xs: "xs = log_of h calls @ [c]" "length xs = length calls + 1" by (simp_all add: xs_def log_of_def c_def)
  have t: "dt_cfg t = cfg" "\<not> dt_closed t" using tracker_history [of h cfg start calls] by (auto simp: t_def)
  have step: "append_call c t = tracker_after h cfg start (calls @ [(now, tool, args)])"
    using t by (simp add: tracker_after_def t_def c_def RecordToolCall_def Let_def)
  have "nat (historyWindow (newDoWTracker cfg start)) = n"
    using assms(1,4) by (simp add: historyWindow_def newDoWTracker_def n_def nat_add_distrib)
  then have tc: "dt_toolCalls (append_call c t) = recent" "dt_cfg (append_call c t) = cfg"
    using tracker_history [of h cfg start "calls @ [(now, tool, args)]"]
    by (simp_all add: step recent_def xs_def n_def Let_def)
  have "dr_allowed (fst (RecordToolCall h now tool args t)) \<longleftrightarrow> dr_allowed (checkLoop c (append_call c t))"
    using assms(1-4) t tc(2) by (simp add: RecordToolCall_def Let_def judge_call_def c_def [symmetric])
  also have "\<dots> \<longleftrightarrow> \<not> n \<le> length (filter (same_call c) recent)"
    using assms(1) by (auto simp: checkLoop_def tc n_def)
  also have "\<dots> \<longleftrightarrow> \<not> (n \<le> length recent \<and> list_all (same_call c) recent)"
  proof -
    have "length recent \<le> n" by (simp add: recent_def xs(2))
    moreover have "length (filter (same_call c) recent) \<le> length recent" by simp
    moreover have "length (filter (same_call c) recent) = length recent \<longleftrightarrow> list_all (same_call c) recent"
      by (metis filter_id_conv length_filter_less list_all_iff nat_less_le)
    ultimately show ?thesis by linarith
  qed
  also have "\<dots> \<longleftrightarrow> \<not> (n \<le> length calls + 1 \<and> list_all (same_call c) recent)"
    using xs(2) by (auto simp: recent_def)
  finally show ?thesis by (simp only: recent_def xs(1) t_def c_def)
qed

theorem retry_limit_on_full_log_witness:
  "\<not> dr_allowed (fst (RecordToolCall (\<lambda>x. x) 3 ''ls'' ''a''
       (tracker_after (\<lambda>x. x) (one_call_config\<lparr>dw_maxToolCalls := 0, dw_maxRetriesPerTool := 2\<rparr>) 0
         [(0, ''cat'', []), (1, ''ls'', ''a''), (2, ''ls'', ''a'')])))"
  using retry_limit_on_full_log [of "one_call_config\<lparr>dw_maxToolCalls := 0, dw_maxRetriesPerTool := 2\<rparr>" "\<lambda>x. x" 3 "''ls''" "''a''" 0
      "[(0, ''cat'', []), (1, ''ls'', ''a''), (2, ''ls'', ''a'')]"]
  by (simp add: one_call_config_def same_call_def log_of_def call_entry_def)

section \<open>The concurrency limit under interleaving\<close>

text \<open>
  Goroutines that acquire and release slots of one tracker, one atomic step at a time: the tracker,
  the number of slots granted and not yet released, and the number of goroutines between the
  increment that went over the limit and its rollback (fewer than \<open>2 ^ 30 - 1\<close> at once). A slot is
  released by its holder.
\<close>

inductive slot_step :: "dow_tracker \<times> nat \<times> nat \<Rightarrow> dow_tracker \<times> nat \<times> nat \<Rightarrow> bool" where
  grant: "acquire_begin t = ((True, over), t') \<Longrightarrow> slot_step (t, g, p) (t', Suc g, p)"
| overshoot: "acquire_begin t = ((False, True), t') \<Longrightarrow> Suc p < 2 ^ 30 - 1 \<Longrightarrow> slot_step (t, g, p) (t', g, Suc p)"
| refused: "acquire_begin t = ((False, False), t') \<Longrightarrow> slot_step (t, g, p) (t', g, p)"
| rollback: "slot_step (t, g, Suc p) (acquire_rollback t, g, p)"
| release: "slot_step (t, Suc g, p) (ReleaseConcurrent t, g, p)"
| close: "slot_step (t, g, p) (tracker_Close t, g, p)"

definition slots_ok :: "dow_tracker \<times> nat \<times> nat \<Rightarrow> bool" where
  "slots_ok = (\<lambda>(t, g, p). sint (dt_inflight t) = int g + int p \<and> int g \<le> concurrent_limit t \<and> p < 2 ^ 30 - 1)"

lemma concurrent_limit_bounds: "0 < concurrent_limit t" "concurrent_limit t \<le> 2 ^ 30"
  by (auto simp: concurrent_limit_def Let_def)

lemma concurrent_limit_cong: "dt_cfg t' = dt_cfg t \<Longrightarrow> concurrent_limit t' = concurrent_limit t"
  by (simp add: concurrent_limit_def)

lemma sint_add_1: "0 \<le> sint x \<Longrightarrow> sint (x :: 32 word) < 2 ^ 31 - 1 \<Longrightarrow> sint (x + 1) = sint x + 1"
  by (simp add: sint_word_ariths signed_take_bit_int_eq_self)

lemma sint_sub_1: "0 < sint x \<Longrightarrow> sint (x - 1 :: 32 word) = sint x - 1"
  using sint_lt [of x] by (simp add: sint_word_ariths signed_take_bit_int_eq_self)

lemma slot_step_ok: "slot_step s s' \<Longrightarrow> slots_ok s \<Longrightarrow> slots_ok s'"
proof (induction rule: slot_step.induct)
  case (grant t over t' g p)
  then have "sint (dt_inflight t + 1) \<le> concurrent_limit t" "t' = t\<lparr>dt_inflight := dt_inflight t + 1\<rparr>"
    by (auto simp: acquire_begin_def Let_def split: if_splits)
  moreover have "sint (dt_inflight t + 1) = sint (dt_inflight t) + 1"
    using grant.prems concurrent_limit_bounds(2) [of t] by (intro sint_add_1) (auto simp: slots_ok_def)
  moreover have "concurrent_limit t' = concurrent_limit t" using calculation(2) by (intro concurrent_limit_cong) simp
  ultimately show ?case using grant.prems by (auto simp: slots_ok_def)
next
  case (overshoot t t' p g)
  then have "t' = t\<lparr>dt_inflight := dt_inflight t + 1\<rparr>"
    by (auto simp: acquire_begin_def Let_def split: if_splits)
  moreover have "sint (dt_inflight t + 1) = sint (dt_inflight t) + 1"
    using overshoot.prems concurrent_limit_bounds(2) [of t] by (intro sint_add_1) (auto simp: slots_ok_def)
  moreover have "concurrent_limit t' = concurrent_limit t" using calculation(1) by (intro concurrent_limit_cong) simp
  ultimately show ?case using overshoot by (auto simp: slots_ok_def)
next
  case (refused t t' g p)
  then have "t' = t" by (auto simp: acquire_begin_def Let_def split: if_splits)
  with refused show ?case by simp
next
  case (rollback t g p)
  then have "sint (dt_inflight t - 1) = sint (dt_inflight t) - 1" by (intro sint_sub_1) (auto simp: slots_ok_def)
  with rollback show ?case
    using concurrent_limit_cong [of "acquire_rollback t" t] by (auto simp: slots_ok_def acquire_rollback_def)
next
  case (release t g p)
  then have "sint (dt_inflight t - 1) = sint (dt_inflight t) - 1" by (intro sint_sub_1) (auto simp: slots_ok_def)
  with release show ?case
    using concurrent_limit_cong [of "ReleaseConcurrent t" t] by (auto simp: slots_ok_def ReleaseConcurrent_def)
next
  case (close t g p)
  then show ?case
    using concurrent_limit_cong [of "tracker_Close t" t] by (auto simp: slots_ok_def tracker_Close_def)
qed

text \<open>
  C35. However the goroutines of a session interleave their acquisitions, rollbacks, releases and the
  closing of the tracker, the slots in use never exceed the configured (or default) limit, and the
  32-bit counter never wraps: it is the slots in use plus the rollbacks still to come.
\<close>

theorem concurrency_limit_holds:
  assumes "slot_step\<^sup>*\<^sup>* (newDoWTracker cfg now, 0, 0) (t, inUse, rollbacks)"
  shows "int inUse \<le> (if dw_maxConcurrent cfg \<le> 0 then 10 else dw_maxConcurrent cfg) \<and>
    Inflight t = int inUse + int rollbacks"
proof -
  have "slots_ok (newDoWTracker cfg now, 0, 0)"
    using concurrent_limit_bounds(1) [of "newDoWTracker cfg now"] by (simp add: slots_ok_def newDoWTracker_def)
  moreover have "slots_ok s \<and> dt_cfg (fst s) = cfg \<Longrightarrow> slots_ok s' \<and> dt_cfg (fst s') = cfg" if "slot_step\<^sup>*\<^sup>* s s'" for s s'
    using that
  proof (induction rule: rtranclp_induct)
    case (step y z)
    have "dt_cfg (fst z) = dt_cfg (fst y)"
      using step.hyps(2) by (induction rule: slot_step.induct)
        (auto simp: acquire_begin_def acquire_rollback_def ReleaseConcurrent_def tracker_Close_def Let_def split: if_splits)
    with step slot_step_ok show ?case by simp
  qed simp
  ultimately have "slots_ok (t, inUse, rollbacks) \<and> dt_cfg t = cfg"
    using assms by (fastforce simp: newDoWTracker_def)
  then show ?thesis by (auto simp: slots_ok_def concurrent_limit_def Inflight_def Let_def)
qed

theorem concurrency_limit_holds_witness:
  "\<exists>t. slot_step\<^sup>*\<^sup>* (newDoWTracker one_call_config 0, 0, 0) (t, 1, 0) \<and> Inflight t = 1"
proof -
  define t where "t = (newDoWTracker one_call_config 0)\<lparr>dt_inflight := 1\<rparr>"
  have "acquire_begin (newDoWTracker one_call_config 0) = ((True, False), t)"
    by (simp add: acquire_begin_def t_def newDoWTracker_def concurrent_limit_def one_call_config_def Let_def)
  then have "slot_step\<^sup>*\<^sup>* (newDoWTracker one_call_config 0, 0, 0) (t, 1, 0)"
    using slot_step.grant [of "newDoWTracker one_call_config 0" False t 0 0] by auto
  moreover from concurrency_limit_holds [OF this] have "Inflight t = 1" by simp
  ultimately show ?thesis by blast
qed

end
