(* ===== verification/GoText.thy ===== *)
theory GoText
  imports GoNet
begin

unbundle bit_operations_syntax

text \<open>
  More of Go's standard library, on byte strings: \<^verbatim>\<open>strings.TrimSpace\<close>, \<^verbatim>\<open>TrimSuffix\<close> and \<^verbatim>\<open>ToLower\<close>,
  the decoding of runes, \<^verbatim>\<open>strconv.ParseUint\<close> and \<^verbatim>\<open>FormatUint\<close>, \<^verbatim>\<open>net.IP.String\<close> and the address classes of \<^verbatim>\<open>net.IP\<close>.

  \<^verbatim>\<open>ToLower\<close> takes the ASCII path exactly when every byte is ASCII, as Go does; on other strings it is
  the argument \<open>u\<close>, the Unicode lower-casing. The white space of Unicode beyond ASCII is the list of
  its UTF-8 encodings; UTF-8 is self-synchronising, so a byte string ends with (or contains) such a
  rune exactly when it ends with (or contains) its encoding.
\<close>

section \<open>Spaces and case\<close>

definition is_ascii :: "string \<Rightarrow> bool" where
  "is_ascii s = list_all (\<lambda>c. (of_char c :: nat) < 128) s"

definition ToLower :: "(string \<Rightarrow> string) \<Rightarrow> string \<Rightarrow> string" where
  "ToLower u s = (if is_ascii s then map ascii_lower s else u s)"

definition byte_string :: "nat list \<Rightarrow> string" where
  "byte_string ns = map char_of ns"

definition space_runes :: "string list" where
  "space_runes = map byte_string
     ([[9], [10], [11], [12], [13], [32], [194, 133], [194, 160], [225, 154, 128]] @
      map (\<lambda>n. [226, 128, n]) [128, 129, 130, 131, 132, 133, 134, 135, 136, 137, 138, 168, 169, 175] @
      [[226, 129, 159], [227, 128, 128]])"

definition strip_rune :: "(string \<Rightarrow> string \<Rightarrow> bool) \<Rightarrow> string \<Rightarrow> nat option" where
  "strip_rune at_end s = map_option length (find (\<lambda>r. at_end s r) space_runes)"

function trim_left :: "string \<Rightarrow> string" where
  "trim_left s = (case strip_rune has_prefix s of None \<Rightarrow> s
     | Some n \<Rightarrow> if s = [] \<or> n = 0 then s else trim_left (drop n s))"
  by pat_completeness auto
termination by (relation "measure length") auto

function trim_right :: "string \<Rightarrow> string" where
  "trim_right s = (case strip_rune has_suffix s of None \<Rightarrow> s
     | Some n \<Rightarrow> if s = [] \<or> n = 0 then s else trim_right (take (length s - n) s))"
  by pat_completeness auto
termination by (relation "measure length") auto

declare trim_left.simps [simp del] and trim_right.simps [simp del]

definition TrimSpace :: "string \<Rightarrow> string" where
  "TrimSpace s = trim_right (trim_left s)"

definition TrimSuffix :: "string \<Rightarrow> string \<Rightarrow> string" where
  "TrimSuffix s t = (if has_suffix s t then take (length s - length t) s else s)"

text \<open>A string that neither begins nor ends with a byte a space rune begins or ends with is its own trim.\<close>

definition plain_char :: "char \<Rightarrow> bool" where
  "plain_char c \<longleftrightarrow> 32 < (of_char c :: nat) \<and> (of_char c :: nat) < 128"

lemma space_runes_hd: "r \<in> set space_runes \<Longrightarrow> r \<noteq> [] \<and> \<not> plain_char (hd r)"
  by (auto simp: space_runes_def byte_string_def plain_char_def)

lemma space_runes_last: "r \<in> set space_runes \<Longrightarrow> r \<noteq> [] \<and> \<not> plain_char (last r)"
  by (auto simp: space_runes_def byte_string_def plain_char_def)

lemma TrimSpace_ends:
  assumes "s \<noteq> []" "plain_char (hd s)" "plain_char (last s)"
  shows "TrimSpace s = s"
proof -
  obtain x xs where x: "s = x # xs" using assms(1) by (cases s) auto
  obtain ys y where y: "s = ys @ [y]" using assms(1) by (cases s rule: rev_cases) auto
  have "find (\<lambda>r. has_prefix s r) space_runes = None"
    using assms(2) x by (auto simp: find_None_iff has_prefix_iff dest!: space_runes_hd) (metis hd_append2 list.sel(1))
  then have "trim_left s = s" by (simp add: trim_left.simps [of s] strip_rune_def)
  moreover have "find (\<lambda>r. has_suffix s r) space_runes = None"
    using assms(3) y by (auto simp: find_None_iff has_suffix_iff dest!: space_runes_last) (metis last_appendR last_snoc)
  then have "trim_right s = s" by (simp add: trim_right.simps [of s] strip_rune_def)
  ultimately show ?thesis by (simp add: TrimSpace_def)
qed

lemma TrimSpace_plain: "s \<noteq> [] \<Longrightarrow> list_all plain_char s \<Longrightarrow> TrimSpace s = s"
  by (rule TrimSpace_ends) (simp_all add: list_all_iff)

section \<open>Runes\<close>

text \<open>The number of bytes of the rune a non-empty string begins with; an invalid encoding counts one byte.\<close>

definition rune_width :: "string \<Rightarrow> nat" where
  "rune_width s =
     (let b = (\<lambda>i. if i < length s then of_char (s ! i) else 0 :: nat);
          cont = (\<lambda>i. 128 \<le> b i \<and> b i \<le> 191) in
      if 194 \<le> b 0 \<and> b 0 \<le> 223 \<and> cont 1 then 2
      else if 224 \<le> b 0 \<and> b 0 \<le> 239 \<and> cont 1 \<and> cont 2 \<and>
        (b 0 = 224 \<longrightarrow> 160 \<le> b 1) \<and> (b 0 = 237 \<longrightarrow> b 1 \<le> 159) then 3
      else if 240 \<le> b 0 \<and> b 0 \<le> 244 \<and> cont 1 \<and> cont 2 \<and> cont 3 \<and>
        (b 0 = 240 \<longrightarrow> 144 \<le> b 1) \<and> (b 0 = 244 \<longrightarrow> b 1 \<le> 143) then 4
      else 1)"

lemma rune_width_pos [simp]: "0 < rune_width s"
  by (simp add: rune_width_def Let_def)

lemma drop_rune: "length (drop (rune_width (r # s)) (r # s)) < length (r # s)"
  using rune_width_pos [of "r # s"] by (simp only: length_drop list.size)

text \<open>\<^verbatim>\<open>utf8.Valid\<close>.\<close>

function utf8_valid :: "string \<Rightarrow> bool" where
  "utf8_valid [] = True"
| "utf8_valid (c # s) =
     (if (of_char c :: nat) < 128 then utf8_valid s
      else 1 < rune_width (c # s) \<and> utf8_valid (drop (rune_width (c # s)) (c # s)))"
  by pat_completeness auto
termination by (relation "measure length") (simp_all only: wf_measure in_measure drop_rune, simp)

lemma ascii_utf8_valid: "is_ascii s \<Longrightarrow> utf8_valid s"
  by (induction s) (simp_all add: is_ascii_def)

section \<open>Numbers\<close>

definition digit_val :: "nat \<Rightarrow> char \<Rightarrow> nat option" where
  "digit_val base c =
     (let n = of_char c;
          d = (if 48 \<le> n \<and> n \<le> 57 then Some (n - 48)
               else if 97 \<le> n \<and> n \<le> 122 then Some (n - 87)
               else if 65 \<le> n \<and> n \<le> 90 then Some (n - 55) else None) in
      case d of None \<Rightarrow> None | Some v \<Rightarrow> if v < base then Some v else None)"

fun uint_loop :: "nat \<Rightarrow> nat \<Rightarrow> string \<Rightarrow> nat option" where
  "uint_loop base acc [] = Some acc"
| "uint_loop base acc (c # cs) =
     (case digit_val base c of None \<Rightarrow> None | Some d \<Rightarrow> uint_loop base (acc * base + d) cs)"

definition ParseUint :: "string \<Rightarrow> nat \<Rightarrow> nat \<Rightarrow> nat option" where
  "ParseUint s base bits =
     (if s = [] then None
      else case uint_loop base 0 s of None \<Rightarrow> None | Some v \<Rightarrow> if v < 2 ^ bits then Some v else None)"

definition digit_char :: "nat \<Rightarrow> char" where
  "digit_char d = (if d < 10 then char_of (48 + d) else char_of (87 + d))"

fun format_uint :: "nat \<Rightarrow> nat \<Rightarrow> string" where
  "format_uint base n =
     (if base < 2 \<or> n < base then [digit_char n]
      else format_uint base (n div base) @ [digit_char (n mod base)])"

declare format_uint.simps [simp del]

lemma digit_val_char: "d < base \<Longrightarrow> base \<le> 16 \<Longrightarrow> digit_val base (digit_char d) = Some d"
  by (auto simp: digit_val_def digit_char_def Let_def)

lemma uint_loop_append:
  "uint_loop base acc (s @ t) = (case uint_loop base acc s of None \<Rightarrow> None | Some a \<Rightarrow> uint_loop base a t)"
  by (induction s arbitrary: acc) (auto split: option.splits)

lemma uint_loop_format: "2 \<le> base \<Longrightarrow> base \<le> 16 \<Longrightarrow> uint_loop base 0 (format_uint base n) = Some n"
proof (induction base n rule: format_uint.induct)
  case (1 base n)
  show ?case
  proof (cases "n < base")
    case True
    with 1 show ?thesis by (simp add: format_uint.simps [of base n] digit_val_char)
  next
    case False
    with 1 have "uint_loop base 0 (format_uint base (n div base)) = Some (n div base)" by simp
    with False 1 show ?thesis
      by (simp add: format_uint.simps [of base n] uint_loop_append digit_val_char)
  qed
qed

lemma format_uint_ne [simp]: "format_uint base n \<noteq> []"
  by (simp add: format_uint.simps [of base n])

lemma ParseUint_format:
  "2 \<le> base \<Longrightarrow> base \<le> 16 \<Longrightarrow> n < 2 ^ bits \<Longrightarrow> ParseUint (format_uint base n) base bits = Some n"
  by (simp add: ParseUint_def uint_loop_format)

lemma format_uint_inj: "2 \<le> base \<Longrightarrow> base \<le> 16 \<Longrightarrow> format_uint base m = format_uint base n \<Longrightarrow> m = n"
  by (metis option.inject uint_loop_format)

definition digit_like :: "char \<Rightarrow> bool" where
  "digit_like c \<longleftrightarrow> (48 \<le> (of_char c :: nat) \<and> (of_char c :: nat) \<le> 57) \<or> (97 \<le> (of_char c :: nat) \<and> (of_char c :: nat) \<le> 102)"

lemma format_uint_digits: "2 \<le> base \<Longrightarrow> base \<le> 16 \<Longrightarrow> list_all digit_like (format_uint base n)"
proof (induction base n rule: format_uint.induct)
  case (1 base n)
  have "digit_like (digit_char d)" if "d < 16" for d
    using that by (auto simp: digit_like_def digit_char_def)
  moreover have "n mod base < 16" "n < base \<Longrightarrow> n < 16" using 1 by (auto intro: less_le_trans [of _ base])
  ultimately show ?case using 1 by (simp add: format_uint.simps [of base n])
qed

text \<open>A number above zero is printed without a leading zero.\<close>

lemma format_uint_hd: "2 \<le> base \<Longrightarrow> base \<le> 16 \<Longrightarrow> 0 < n \<Longrightarrow> hd (format_uint base n) \<noteq> CHR ''0''"
proof (induction base n rule: format_uint.induct)
  case (1 base n)
  show ?case
  proof (cases "n < base")
    case True
    with 1 have "digit_val base (digit_char n) = Some n" by (simp add: digit_val_char)
    moreover have "digit_val base (CHR ''0'') = Some 0" using 1 by (simp add: digit_val_def Let_def)
    ultimately have "digit_char n \<noteq> CHR ''0''" using 1 by auto
    with True show ?thesis by (simp add: format_uint.simps [of base n])
  next
    case False
    with 1 have "0 < n div base" by (simp add: div_greater_zero_iff)
    with False 1 show ?thesis by (simp add: format_uint.simps [of base n])
  qed
qed

section \<open>Addresses\<close>

definition v4_string :: "ip \<Rightarrow> string" where
  "v4_string b = join_with (CHR ''.'') (map (\<lambda>x. format_uint 10 (unat x)) b)"

fun words16 :: "byte list \<Rightarrow> nat list" where
  "words16 (a # b # r) = (256 * unat a + unat b) # words16 r"
| "words16 _ = []"

definition zero_run :: "nat list \<Rightarrow> nat \<Rightarrow> nat" where
  "zero_run ws i = length (takeWhile (\<lambda>w. w = 0) (drop i ws))"

text \<open>The first longest run of two or more zero words, as its start and end.\<close>

definition longest_zeros :: "nat list \<Rightarrow> (nat \<times> nat) option" where
  "longest_zeros ws = foldl (\<lambda>best i. let l = zero_run ws i in
       if 2 \<le> l \<and> (case best of None \<Rightarrow> True | Some (a, b) \<Rightarrow> b - a < l) then Some (i, i + l) else best)
     None [0..<length ws]"

definition hex_words :: "nat list \<Rightarrow> string" where
  "hex_words ws = join_with (CHR '':'') (map (format_uint 16) ws)"

definition v6_string :: "ip \<Rightarrow> string" where
  "v6_string b = (let ws = words16 b in
     case longest_zeros ws of None \<Rightarrow> hex_words ws
     | Some (i, j) \<Rightarrow> hex_words (take i ws) @ ''::'' @ hex_words (drop j ws))"

definition IP_String :: "ip \<Rightarrow> string" where
  "IP_String a = (case To4 a of Some b \<Rightarrow> v4_string b
     | None \<Rightarrow> if length a = 16 then v6_string a else if a = [] then ''<nil>'' else ''?'')"

definition IsLinkLocalUnicast :: "ip \<Rightarrow> bool" where
  "IsLinkLocalUnicast a = (case To4 a of Some b \<Rightarrow> b ! 0 = 169 \<and> b ! 1 = 254
     | None \<Rightarrow> length a = 16 \<and> a ! 0 = 0xfe \<and> a ! 1 AND 0xc0 = 0x80)"

definition IsLinkLocalMulticast :: "ip \<Rightarrow> bool" where
  "IsLinkLocalMulticast a = (case To4 a of Some b \<Rightarrow> b ! 0 = 224 \<and> b ! 1 = 0 \<and> b ! 2 = 0
     | None \<Rightarrow> length a = 16 \<and> a ! 0 = 0xff \<and> a ! 1 AND 0x0f = 0x02)"

definition IsInterfaceLocalMulticast :: "ip \<Rightarrow> bool" where
  "IsInterfaceLocalMulticast a \<longleftrightarrow> length a = 16 \<and> a ! 0 = 0xff \<and> a ! 1 AND 0x0f = 0x01"

definition IsMulticast :: "ip \<Rightarrow> bool" where
  "IsMulticast a = (case To4 a of Some b \<Rightarrow> b ! 0 AND 0xf0 = 0xe0 | None \<Rightarrow> length a = 16 \<and> a ! 0 = 0xff)"

definition IsUnspecified :: "ip \<Rightarrow> bool" where
  "IsUnspecified a \<longleftrightarrow> To4 a = Some [0, 0, 0, 0] \<or> a = replicate 16 0"

end
