(* ===== verification/Destination.thy ===== *)
theory Destination
  imports GoText
begin

text \<open>
  Network destinations, the immutable address floor and exact grants (\<^verbatim>\<open>internal/destination\<close>). The
  argument \<open>u\<close> is the Unicode part of \<^verbatim>\<open>strings.ToLower\<close>; every theorem holds for all of it. Error
  texts are left out, the error that wraps them is kept.
\<close>

section \<open>Decisions (match.go)\<close>

datatype dest_scope = ScopeNone | ScopeExact | ScopePortless
datatype dest_effect = EffectNoMatch | EffectAllow | EffectDeny
datatype dest_source = SourceNone | SourceImmutableFloor | SourceTrustedDomain | SourceIPAllowlist
  | SourceBlocklist | SourceStrictAllowlist | SourceGuardGrant

record dest_decision =
  dd_effect :: dest_effect
  dd_scope :: dest_scope
  dd_source :: dest_source
  dd_rule :: string

definition no_dest_decision :: dest_decision where
  "no_dest_decision = \<lparr>dd_effect = EffectNoMatch, dd_scope = ScopeNone, dd_source = SourceNone, dd_rule = []\<rparr>"

definition Matched :: "dest_decision \<Rightarrow> bool" where
  "Matched d \<longleftrightarrow> dd_effect d \<noteq> EffectNoMatch"

fun scope_String :: "dest_scope \<Rightarrow> string" where
  "scope_String ScopeExact = ''exact''"
| "scope_String ScopePortless = ''portless''"
| "scope_String ScopeNone = ''none''"

fun effect_String :: "dest_effect \<Rightarrow> string" where
  "effect_String EffectAllow = ''allow''"
| "effect_String EffectDeny = ''deny''"
| "effect_String EffectNoMatch = ''no-match''"

fun source_String :: "dest_source \<Rightarrow> string" where
  "source_String SourceImmutableFloor = ''immutable-floor''"
| "source_String SourceTrustedDomain = ''trusted-domain''"
| "source_String SourceIPAllowlist = ''ip-allowlist''"
| "source_String SourceBlocklist = ''blocklist''"
| "source_String SourceStrictAllowlist = ''strict-allowlist''"
| "source_String SourceGuardGrant = ''guard-grant''"
| "source_String SourceNone = ''unknown''"

section \<open>Address literals (ip.go, normalize.go)\<close>

definition NormalizeIP :: "ip option \<Rightarrow> ip option" where
  "NormalizeIP a = (case a of None \<Rightarrow> None | Some b \<Rightarrow> (case To4 b of Some v4 \<Rightarrow> Some v4 | None \<Rightarrow> Some b))"

definition stripIPv6Zone :: "string \<Rightarrow> string" where
  "stripIPv6Zone host = (case index_of (CHR ''%'') host of Some i \<Rightarrow> take i host | None \<Rightarrow> host)"

definition parseInetAtonComponent :: "string \<Rightarrow> nat \<Rightarrow> nat option" where
  "parseInetAtonComponent part bits =
     (if part = [] then None
      else
        let (base, digits) =
              (if has_prefix part ''0x'' \<or> has_prefix part ''0X'' then (16, drop 2 part)
               else if length part > 1 \<and> hd part = CHR ''0'' then (8, drop 1 part)
               else (10, part)) in
        if digits = [] then None
        else case ParseUint digits base 64 of None \<Rightarrow> None
          | Some v \<Rightarrow> if bits < 64 \<and> v \<ge> 2 ^ bits then None else Some v)"

text \<open>\<^verbatim>\<open>net.IPv4(a, b, c, d)\<close> of the four bytes of a packed address.\<close>

definition IPv4 :: "byte \<Rightarrow> byte \<Rightarrow> byte \<Rightarrow> byte \<Rightarrow> ip" where
  "IPv4 a b c d = v4_in_v6_prefix @ [a, b, c, d]"

definition packed_ipv4 :: "nat \<Rightarrow> ip" where
  "packed_ipv4 v = IPv4 (of_nat (v div 2 ^ 24)) (of_nat (v div 2 ^ 16)) (of_nat (v div 2 ^ 8)) (of_nat v)"

fun parse_components :: "string list \<Rightarrow> nat list \<Rightarrow> nat list option" where
  "parse_components [] ws = Some []"
| "parse_components (p # ps) [] = None"
| "parse_components (p # ps) (w # ws) =
     (case parseInetAtonComponent p w of None \<Rightarrow> None
      | Some v \<Rightarrow> map_option ((#) v) (parse_components ps ws))"

definition nonstandard_octet :: "string \<Rightarrow> bool" where
  "nonstandard_octet p \<longleftrightarrow> has_prefix p ''0x'' \<or> has_prefix p ''0X'' \<or> length p > 1 \<and> hd p = CHR ''0'' \<and> p \<noteq> ''0''"

definition parseDottedInetAton :: "string \<Rightarrow> ip option" where
  "parseDottedInetAton host =
     (let parts = split_on (CHR ''.'') host in
      if length parts < 2 \<or> length parts > 4 then None
      else if length parts < 4 then
        (case parse_components parts (if length parts = 3 then [8, 8, 16] else [8, 24]) of
           None \<Rightarrow> None
         | Some vs \<Rightarrow>
             Some (packed_ipv4 (if length vs = 2 then vs ! 0 * 2 ^ 24 + vs ! 1
                                else vs ! 0 * 2 ^ 24 + vs ! 1 * 2 ^ 16 + vs ! 2)))
      else
        (case parse_components parts [8, 8, 8, 8] of
           None \<Rightarrow> None
         | Some vs \<Rightarrow>
             if list_ex nonstandard_octet parts
             then Some (IPv4 (of_nat (vs ! 0)) (of_nat (vs ! 1)) (of_nat (vs ! 2)) (of_nat (vs ! 3)))
             else None))"

definition parseAlternativeIP :: "string \<Rightarrow> ip option" where
  "parseAlternativeIP host =
     (if host = [] then None
      else if CHR ''.'' \<in> set host then parseDottedInetAton host
      else map_option packed_ipv4 (parseInetAtonComponent host 32))"

definition ParseIPLiteral :: "string \<Rightarrow> ip option" where
  "ParseIPLiteral host0 =
     (let host = TrimSuffix (stripIPv6Zone (TrimSpace host0)) ''.'' in
      NormalizeIP (case ParseIP host of None \<Rightarrow> parseAlternativeIP host | Some a \<Rightarrow> Some a))"

section \<open>The floor (floor.go)\<close>

definition metadataIPv4s :: "string set" where
  "metadataIPv4s = {''169.254.169.254'', ''168.63.129.16'', ''100.100.100.200''}"

definition metadataIPv6 :: "string set" where
  "metadataIPv6 = {''fd00:ec2::254''}"

definition IsCloudMetadataIP :: "ip option \<Rightarrow> bool" where
  "IsCloudMetadataIP a = (case a of None \<Rightarrow> False
     | Some b \<Rightarrow> (case To4 b of Some v4 \<Rightarrow> IP_String v4 \<in> metadataIPv4s | None \<Rightarrow> IP_String b \<in> metadataIPv6))"

definition IsNonOverridableSSRFTarget :: "ip option \<Rightarrow> bool" where
  "IsNonOverridableSSRFTarget a = (case NormalizeIP a of None \<Rightarrow> False
     | Some b \<Rightarrow> IsCloudMetadataIP (Some b) \<or> IsLinkLocalUnicast b \<or> IsLinkLocalMulticast b \<or>
         IsInterfaceLocalMulticast b \<or> IsMulticast b \<or> IsUnspecified b)"

section \<open>Destinations (types.go, normalize.go)\<close>

definition network_Valid :: "string \<Rightarrow> bool" where
  "network_Valid n \<longleftrightarrow> n = ''tcp'' \<or> n = ''udp''"

record destination =
  ds_network :: string
  ds_host :: string
  ds_port :: "16 word"

definition IsLiteralIP :: "destination \<Rightarrow> bool" where
  "IsLiteralIP d \<longleftrightarrow> ParseIPLiteral (ds_host d) \<noteq> None"

definition dest_IP :: "destination \<Rightarrow> ip option" where
  "dest_IP d = ParseIPLiteral (ds_host d)"

definition dest_String :: "destination \<Rightarrow> string" where
  "dest_String d =
     (let host = (if CHR '':'' \<in> set (ds_host d) then ''['' @ ds_host d @ '']'' else ds_host d) in
      ds_network d @ ''://'' @ host @ '':'' @ format_uint 10 (unat (ds_port d)))"

definition dest_Equal :: "destination \<Rightarrow> destination \<Rightarrow> bool" where
  "dest_Equal d e \<longleftrightarrow> ds_network d = ds_network e \<and> ds_host d = ds_host e \<and> ds_port d = ds_port e"

datatype dest_error = ErrInvalidNetwork | ErrEmptyHost | ErrInvalidHost | ErrInvalidPort | ErrParse
  | ErrGrantFloorViolation | ErrInvalidGrant dest_error | ErrGrantSetEntry nat dest_error

definition hasUnsafeHostChars :: "string \<Rightarrow> bool" where
  "hasUnsafeHostChars host \<longleftrightarrow>
     list_ex (\<lambda>c. (of_char c :: nat) < 32 \<or> (of_char c :: nat) = 127) host \<or> list_ex (str_contains host) space_runes"

definition NormalizeHost :: "(string \<Rightarrow> string) \<Rightarrow> string \<Rightarrow> string" where
  "NormalizeHost u host = ToLower u (stripIPv6Zone (TrimSuffix (TrimSpace host) ''.''))"

definition rejectMalformedZone :: "string \<Rightarrow> bool" where
  "rejectMalformedZone raw \<longleftrightarrow> CHR ''%'' \<in> set raw \<and> ParseIP (stripIPv6Zone raw) = None"

definition ParsePort :: "string \<Rightarrow> dest_error + 16 word" where
  "ParsePort port0 =
     (let port = TrimSpace port0 in
      if port = [] then Inl ErrInvalidPort
      else case ParseUint port 10 32 of None \<Rightarrow> Inl ErrInvalidPort
        | Some n \<Rightarrow> if n = 0 \<or> n > 65535 then Inl ErrInvalidPort else Inr (of_nat n))"

definition NewDestination :: "(string \<Rightarrow> string) \<Rightarrow> string \<Rightarrow> string \<Rightarrow> 16 word \<Rightarrow> dest_error + destination" where
  "NewDestination u network host0 port =
     (if \<not> network_Valid network then Inl ErrInvalidNetwork
      else if rejectMalformedZone (TrimSpace host0) then Inl ErrEmptyHost
      else
        let host = NormalizeHost u host0 in
        if host = [] then Inl ErrEmptyHost
        else if hasUnsafeHostChars host then Inl ErrInvalidHost
        else if port = 0 then Inl ErrInvalidPort
        else
          let host1 = (case ParseIPLiteral host of Some a \<Rightarrow> IP_String a | None \<Rightarrow> host) in
          Inr \<lparr>ds_network = network, ds_host = host1, ds_port = port\<rparr>)"

definition ParseHostPort :: "(string \<Rightarrow> string) \<Rightarrow> string \<Rightarrow> string \<Rightarrow> dest_error + destination" where
  "ParseHostPort u network hostPort =
     (case SplitHostPort (TrimSpace hostPort) of None \<Rightarrow> Inl ErrParse
      | Some (host, port) \<Rightarrow>
          (case ParsePort port of Inl e \<Rightarrow> Inl e | Inr p \<Rightarrow> NewDestination u network host p))"

section \<open>Grants (grant.go)\<close>

record grant =
  gr_dest :: destination

definition isFloorHost :: "string \<Rightarrow> bool" where
  "isFloorHost host \<longleftrightarrow> ParseIPLiteral host \<noteq> None \<and> IsNonOverridableSSRFTarget (ParseIPLiteral host)"

definition NewGrant :: "(string \<Rightarrow> string) \<Rightarrow> string \<Rightarrow> string \<Rightarrow> 16 word \<Rightarrow> dest_error + grant" where
  "NewGrant u network host port =
     (case NewDestination u network host port of Inl e \<Rightarrow> Inl (ErrInvalidGrant e)
      | Inr d \<Rightarrow> if isFloorHost (ds_host d) then Inl ErrGrantFloorViolation else Inr \<lparr>gr_dest = d\<rparr>)"

type_synonym grant_set = "(string \<times> grant) list"

fun build_grants :: "(string \<Rightarrow> string) \<Rightarrow> nat \<Rightarrow> grant list \<Rightarrow> grant_set \<Rightarrow> dest_error + grant_set" where
  "build_grants u i [] m = Inr m"
| "build_grants u i (g # gs) m =
     (case NewGrant u (ds_network (gr_dest g)) (ds_host (gr_dest g)) (ds_port (gr_dest g)) of
        Inl e \<Rightarrow> Inl (ErrGrantSetEntry i e)
      | Inr v \<Rightarrow> build_grants u (Suc i) gs (AList.update (dest_String (gr_dest v)) v m))"

definition NewGrantSet :: "(string \<Rightarrow> string) \<Rightarrow> grant list \<Rightarrow> dest_error + grant_set" where
  "NewGrantSet u gs = (if gs = [] then Inr [] else build_grants u 0 gs [])"

definition gs_Len :: "grant_set \<Rightarrow> nat" where
  "gs_Len gs = length gs"

definition Evaluate :: "grant_set \<Rightarrow> destination \<Rightarrow> dest_decision" where
  "Evaluate gs d =
     (if isFloorHost (ds_host d)
      then \<lparr>dd_effect = EffectDeny, dd_scope = ScopeExact, dd_source = SourceImmutableFloor,
            dd_rule = ''non-overridable SSRF target''\<rparr>
      else case map_of gs (dest_String d) of
          Some g \<Rightarrow> \<lparr>dd_effect = EffectAllow, dd_scope = ScopeExact, dd_source = SourceGuardGrant,
                     dd_rule = dest_String (gr_dest g)\<rparr>
        | None \<Rightarrow> no_dest_decision)"

definition gs_Contains :: "grant_set \<Rightarrow> destination \<Rightarrow> bool" where
  "gs_Contains gs d \<longleftrightarrow> dd_effect (Evaluate gs d) = EffectAllow"

section \<open>Domain patterns (domain.go)\<close>

definition MatchDomain :: "(string \<Rightarrow> string) \<Rightarrow> string \<Rightarrow> string \<Rightarrow> bool" where
  "MatchDomain u hostname0 pattern0 =
     (let hostname = ToLower u (TrimSuffix hostname0 ''.'');
          pat = ToLower u (TrimSuffix pattern0 ''.'') in
      if ParseIP hostname \<noteq> None then hostname = pat
      else if has_prefix pat ''*.''
      then hostname = drop 2 pat \<or> has_suffix hostname (drop 1 pat)
      else hostname = pat)"

fun MatchesDomainList :: "(string \<Rightarrow> string) \<Rightarrow> string \<Rightarrow> string list \<Rightarrow> bool" where
  "MatchesDomainList u hostname [] = False"
| "MatchesDomainList u hostname (p # ps) = (MatchDomain u hostname p \<or> MatchesDomainList u hostname ps)"

section \<open>Resolved addresses (resolved.go)\<close>

record resolved_addr =
  ra_ip :: ip
  ra_display :: string

fun ParseResolved :: "string list \<Rightarrow> resolved_addr list" where
  "ParseResolved [] = []"
| "ParseResolved (raw # rest) =
     (case NormalizeIP (ParseIP (stripIPv6Zone raw)) of None \<Rightarrow> ParseResolved rest
      | Some a \<Rightarrow> \<lparr>ra_ip = a, ra_display = raw\<rparr> # ParseResolved rest)"

definition FirstFloorHit :: "resolved_addr list \<Rightarrow> resolved_addr option" where
  "FirstFloorHit addrs = find (\<lambda>a. IsNonOverridableSSRFTarget (Some (ra_ip a))) addrs"

text \<open>A nil CIDR of the slice is \<open>None\<close>, a nil callback is \<open>None\<close>.\<close>

definition FirstInternalHit ::
  "resolved_addr list \<Rightarrow> ipnet option list \<Rightarrow> (ip \<Rightarrow> bool) option \<Rightarrow> resolved_addr option" where
  "FirstInternalHit addrs cidrs allowlisted =
     find (\<lambda>a. list_ex (\<lambda>c. (case c of None \<Rightarrow> False | Some n \<Rightarrow> Contains n (ra_ip a)) \<and>
        \<not> (case allowlisted of None \<Rightarrow> False | Some f \<Rightarrow> f (ra_ip a))) cidrs) addrs"

section \<open>Grants are exact\<close>

lemma last_sep_inj:
  assumes "xs @ c # p = ys @ c # q" "c \<notin> set p" "c \<notin> set q"
  shows "xs = ys \<and> p = q"
proof -
  have "rev p @ c # rev xs = rev q @ c # rev ys"
    using arg_cong [OF assms(1), of rev] by simp
  moreover have "takeWhile (\<lambda>x. x \<noteq> c) (rev p @ c # rev xs) = rev p" "takeWhile (\<lambda>x. x \<noteq> c) (rev q @ c # rev ys) = rev q"
    using assms(2,3) by (simp_all add: takeWhile_append)
  ultimately have "rev p = rev q" by simp
  with assms(1) show ?thesis by simp
qed

lemma digits_no_colon: "CHR '':'' \<notin> set (format_uint 10 n)"
  using format_uint_digits [of 10 n] by (auto simp: list_all_iff digit_like_def)

lemma dest_String_inj:
  assumes valid: "network_Valid (ds_network d)" "network_Valid (ds_network e)" and eq: "dest_String d = dest_String e"
  shows "d = e"
proof -
  define br where "br h = (if CHR '':'' \<in> set h then ''['' @ h @ '']'' else h)" for h :: string
  have net: "ds_network d = ds_network e"
    using valid eq by (auto simp: network_Valid_def dest_String_def Let_def)
  then have "br (ds_host d) @ CHR '':'' # format_uint 10 (unat (ds_port d)) =
      br (ds_host e) @ CHR '':'' # format_uint 10 (unat (ds_port e))"
    using eq by (simp add: dest_String_def Let_def br_def)
  from last_sep_inj [OF this digits_no_colon digits_no_colon]
  have host: "br (ds_host d) = br (ds_host e)" and "format_uint 10 (unat (ds_port d)) = format_uint 10 (unat (ds_port e))"
    by auto
  then have port: "ds_port d = ds_port e" using format_uint_inj [of 10] by (auto simp: word_unat_eq_iff)
  have "CHR '':'' \<in> set (br h) \<longleftrightarrow> CHR '':'' \<in> set h" for h by (simp add: br_def)
  with host have "CHR '':'' \<in> set (ds_host d) \<longleftrightarrow> CHR '':'' \<in> set (ds_host e)" by metis
  with host have "ds_host d = ds_host e" by (auto simp: br_def split: if_splits)
  with net port show ?thesis by simp
qed

lemma NewDestination_valid: "NewDestination u n h p = Inr d \<Longrightarrow> network_Valid (ds_network d) \<and> ds_network d = n \<and> ds_port d = p"
  by (auto simp: NewDestination_def Let_def split: if_splits)

lemma NewGrant_Inr:
  "NewGrant u n h p = Inr v \<longleftrightarrow> NewDestination u n h p = Inr (gr_dest v) \<and> \<not> isFloorHost (ds_host (gr_dest v))"
  by (cases v) (auto simp: NewGrant_def split: sum.splits)

text \<open>The validated destination of a grant given to the constructor.\<close>

definition names :: "(string \<Rightarrow> string) \<Rightarrow> grant \<Rightarrow> destination \<Rightarrow> bool" where
  "names u g d \<longleftrightarrow> NewDestination u (ds_network (gr_dest g)) (ds_host (gr_dest g)) (ds_port (gr_dest g)) = Inr d"

lemma build_grants_entries:
  "build_grants u i gs m = Inr m' \<Longrightarrow>
   (\<forall>s v. map_of m' s = Some v \<longrightarrow> map_of m s = Some v \<or> (\<exists>g \<in> set gs. names u g (gr_dest v)) \<and> dest_String (gr_dest v) = s) \<and>
   (\<forall>g \<in> set gs. \<exists>d. names u g d \<and> \<not> isFloorHost (ds_host d) \<and> map_of m' (dest_String d) \<noteq> None) \<and>
   (\<forall>s. map_of m s \<noteq> None \<longrightarrow> map_of m' s \<noteq> None)"
proof (induction gs arbitrary: i m)
  case (Cons g gs)
  from Cons.prems obtain v where v: "NewGrant u (ds_network (gr_dest g)) (ds_host (gr_dest g)) (ds_port (gr_dest g)) = Inr v"
    and rest: "build_grants u (Suc i) gs (AList.update (dest_String (gr_dest v)) v m) = Inr m'"
    by (auto split: sum.splits)
  from v have n: "names u g (gr_dest v)" "\<not> isFloorHost (ds_host (gr_dest v))" by (simp_all add: NewGrant_Inr names_def)
  note IH = Cons.IH [OF rest]
  show ?case
  proof (intro conjI allI ballI impI)
    fix s x
    assume "map_of m' s = Some x"
    with IH have "map_of (AList.update (dest_String (gr_dest v)) v m) s = Some x \<or>
      (\<exists>g \<in> set gs. names u g (gr_dest x)) \<and> dest_String (gr_dest x) = s" by blast
    with n show "map_of m s = Some x \<or> (\<exists>g \<in> set (g # gs). names u g (gr_dest x)) \<and> dest_String (gr_dest x) = s"
      by (auto simp: update_conv' split: if_splits)
  next
    fix g'
    assume "g' \<in> set (g # gs)"
    moreover have "map_of m' (dest_String (gr_dest v)) \<noteq> None" using IH by (auto simp: update_conv')
    ultimately show "\<exists>d. names u g' d \<and> \<not> isFloorHost (ds_host d) \<and> map_of m' (dest_String d) \<noteq> None"
      using IH n by auto
  next
    fix s
    assume "map_of m s \<noteq> None"
    then show "map_of m' s \<noteq> None" using IH by (auto simp: update_conv')
  qed
qed simp

text \<open>
  C33. A grant set built by its constructor authorises exactly the destinations its grants name, with
  the network, the canonical host and the port all equal; nothing broader matches, two grants never
  shadow each other through their printed key, and no set whatsoever, not even a hand-built one,
  authorises an address literal of the immutable floor.
\<close>

theorem grants_are_exact:
  assumes "NewGrantSet u gs = Inr gset" and "network_Valid (ds_network d)"
  shows "(gs_Contains gset d \<longleftrightarrow> (\<exists>g \<in> set gs. names u g d)) \<and>
    (isFloorHost (ds_host d) \<longleftrightarrow> dd_effect (Evaluate anyset d) = EffectDeny) \<and>
    (isFloorHost (ds_host d) \<longrightarrow> \<not> gs_Contains anyset d)"
proof -
  from assms(1) have "build_grants u 0 gs [] = Inr gset"
    by (cases gs) (auto simp: NewGrantSet_def)
  note B = build_grants_entries [OF this]
  have "gs_Contains gset d \<longleftrightarrow> \<not> isFloorHost (ds_host d) \<and> map_of gset (dest_String d) \<noteq> None" for gset
    by (auto simp: gs_Contains_def Evaluate_def no_dest_decision_def split: option.splits)
  moreover have "(\<exists>g \<in> set gs. names u g d)" if "map_of gset (dest_String d) \<noteq> None"
  proof -
    from that obtain v where "map_of gset (dest_String d) = Some v" by blast
    with B obtain g where g: "g \<in> set gs" "names u g (gr_dest v)" "dest_String (gr_dest v) = dest_String d" by fastforce
    then have "network_Valid (ds_network (gr_dest v))" using NewDestination_valid unfolding names_def by blast
    with g assms(2) have "gr_dest v = d" by (intro dest_String_inj)
    with g show ?thesis by blast
  qed
  moreover have "\<not> isFloorHost (ds_host d) \<and> map_of gset (dest_String d) \<noteq> None" if "g \<in> set gs" "names u g d" for g
    using that B by (fastforce simp: names_def)
  ultimately show ?thesis
    by (auto simp: Evaluate_def no_dest_decision_def split: option.splits)
qed

text \<open>Evaluation of the string functions on hosts of printable ASCII characters.\<close>

lemma hasUnsafeHostChars_plain:
  assumes "list_all (\<lambda>c. plain_char c \<and> (of_char c :: nat) \<noteq> 127) h"
  shows "\<not> hasUnsafeHostChars h"
proof -
  have "\<not> str_contains h r" if "r \<in> set space_runes" for r
  proof
    assume "str_contains h r"
    then obtain a b where "h = a @ r @ b" by (auto simp: str_contains_iff)
    moreover have "r \<noteq> []" "\<not> plain_char (hd r)" using space_runes_hd [OF that] by auto
    ultimately show False using assms by (cases r) (auto simp: list_all_iff)
  qed
  with assms show ?thesis by (auto simp: hasUnsafeHostChars_def list_ex_iff list_all_iff plain_char_def)
qed

lemmas host_eval = TrimSuffix_def has_suffix_def stripIPv6Zone_def ToLower_def is_ascii_def ascii_lower_def
  ParseIP_def parse_addr_def dec_val_def parseAlternativeIP_def parseDottedInetAton_def
  parseInetAtonComponent_def ParseUint_def digit_val_def NormalizeIP_def Let_def

definition demo_grant :: "string \<Rightarrow> 16 word \<Rightarrow> grant" where
  "demo_grant h p = \<lparr>gr_dest = \<lparr>ds_network = ''tcp'', ds_host = h, ds_port = p\<rparr>\<rparr>"

theorem grants_are_exact_witness:
  "\<exists>gset. NewGrantSet (\<lambda>s. s) [demo_grant ''API.dev.example.'' 6443] = Inr gset \<and>
     gs_Contains gset \<lparr>ds_network = ''tcp'', ds_host = ''api.dev.example'', ds_port = 6443\<rparr> \<and>
     \<not> gs_Contains gset \<lparr>ds_network = ''tcp'', ds_host = ''api.dev.example'', ds_port = 443\<rparr>"
proof -
  let ?g = "demo_grant ''API.dev.example.'' 6443"
  let ?d = "\<lparr>ds_network = ''tcp'', ds_host = ''api.dev.example'', ds_port = 6443\<rparr>"
  have trim: "TrimSpace ''API.dev.example.'' = ''API.dev.example.''" "TrimSpace ''api.dev.example'' = ''api.dev.example''"
    by (intro TrimSpace_plain; simp add: plain_char_def)+
  have lit: "ParseIPLiteral ''api.dev.example'' = None"
    by (simp add: ParseIPLiteral_def trim host_eval)
  have host: "NormalizeHost (\<lambda>s. s) ''API.dev.example.'' = ''api.dev.example''"
    by (simp add: NormalizeHost_def trim host_eval) code_simp
  have safe: "\<not> hasUnsafeHostChars ''api.dev.example''"
    by (intro hasUnsafeHostChars_plain) (simp add: plain_char_def)
  have n: "names (\<lambda>s. s) ?g ?d"
    by (simp add: names_def demo_grant_def NewDestination_def network_Valid_def rejectMalformedZone_def trim host safe lit)
  have "\<not> isFloorHost (ds_host ?d)" by (simp add: isFloorHost_def lit)
  with n have "NewGrant (\<lambda>s. s) (ds_network (gr_dest ?g)) (ds_host (gr_dest ?g)) (ds_port (gr_dest ?g)) = Inr \<lparr>gr_dest = ?d\<rparr>"
    by (simp add: NewGrant_Inr names_def)
  then obtain gset where s: "NewGrantSet (\<lambda>s. s) [?g] = Inr gset" by (simp add: NewGrantSet_def)
  have "(6443 :: 16 word) \<noteq> 443" by simp
  with grants_are_exact [OF s, of ?d "[]"] grants_are_exact [OF s, of "?d\<lparr>ds_port := 443\<rparr>" "[]"] n s show ?thesis
    by (auto simp: network_Valid_def names_def)
qed

section \<open>Alternative spellings of an address\<close>

definition v4_bytes :: "nat \<Rightarrow> ip" where
  "v4_bytes n = [of_nat (n div 2 ^ 24), of_nat (n div 2 ^ 16), of_nat (n div 2 ^ 8), of_nat n]"

lemma To4_packed: "To4 (packed_ipv4 n) = Some (v4_bytes n)"
  by (simp add: To4_def packed_ipv4_def IPv4_def v4_in_v6_prefix_def v4_bytes_def)

lemma To4_v4_bytes [simp]: "To4 (v4_bytes n) = Some (v4_bytes n)"
  by (simp add: To4_def v4_bytes_def)

text \<open>The three number formats of \<^verbatim>\<open>inet_aton\<close> for one component.\<close>

definition spellings :: "nat \<Rightarrow> string set" where
  "spellings n = {format_uint 10 n, ''0x'' @ format_uint 16 n, CHR ''0'' # format_uint 8 n}"

lemma hd_format_not_x:
  assumes "2 \<le> base" "base \<le> 16"
  shows "hd (format_uint base n) \<noteq> CHR ''x''" "hd (format_uint base n) \<noteq> CHR ''X''"
  using format_uint_digits [OF assms, of n] by (cases "format_uint base n"; auto simp: digit_like_def)+

lemma component_spelling:
  assumes "n < 2 ^ bits" "bits < 64" "s \<in> spellings n"
  shows "parseInetAtonComponent s bits = Some n"
proof -
  have "(2 :: nat) ^ bits \<le> 2 ^ 64" using assms(2) by (intro power_increasing) auto
  then have n: "n < 2 ^ 64" using assms(1) by linarith
  note P = ParseUint_format [of _ n 64, OF _ _ n]
  from assms(3) consider (dec) "s = format_uint 10 n" | (hex) "s = ''0x'' @ format_uint 16 n" | (oct) "s = CHR ''0'' # format_uint 8 n"
    by (auto simp: spellings_def)
  then show ?thesis
  proof cases
    case dec
    obtain c cs where cs: "format_uint 10 n = c # cs" by (cases "format_uint 10 n") auto
    have plain: "\<not> (length s > 1 \<and> hd s = CHR ''0'')"
    proof (cases "n = 0")
      case True
      then show ?thesis by (simp add: dec format_uint.simps [of 10 0])
    next
      case False
      with format_uint_hd [of 10 n] dec show ?thesis by simp
    qed
    moreover have "\<not> has_prefix s ''0x''" "\<not> has_prefix s ''0X''"
      using plain cs dec by (cases cs; auto)+
    ultimately show ?thesis
      using assms(1) P [of 10] by (auto simp: parseInetAtonComponent_def dec)
  next
    case hex
    then show ?thesis using assms(1) P [of 16] by (simp add: parseInetAtonComponent_def)
  next
    case oct
    obtain c cs where cs: "format_uint 8 n = c # cs" by (cases "format_uint 8 n") auto
    have "c \<noteq> CHR ''x''" "c \<noteq> CHR ''X''" using hd_format_not_x [of 8 n] cs by auto
    then show ?thesis using assms(1) P [of 8] cs by (simp add: parseInetAtonComponent_def oct)
  qed
qed

lemma spelling_chars:
  assumes "s \<in> spellings n"
  shows "s \<noteq> []" "list_all (\<lambda>c. digit_like c \<or> c = CHR ''x'') s"
proof -
  show "s \<noteq> []" using assms format_uint_ne [of 10 n] by (auto simp: spellings_def simp del: format_uint_ne)
  show "list_all (\<lambda>c. digit_like c \<or> c = CHR ''x'') s"
    using assms format_uint_digits [of 10 n] format_uint_digits [of 16 n] format_uint_digits [of 8 n]
    by (auto simp: spellings_def list_all_iff digit_like_def)
qed

text \<open>
  The literal parser is not evaded by a number format: every 32-bit address written as one decimal,
  hexadecimal or octal number (the forms \<^verbatim>\<open>connect\<close> accepts) is recognised as that IPv4 address, and
  the host check of grants gives it the verdict of its dotted form.
\<close>

theorem numeric_spellings_are_literals:
  assumes "n < 2 ^ 32" and "s \<in> spellings n"
  shows "ParseIPLiteral s = Some (v4_bytes n) \<and>
    (isFloorHost s \<longleftrightarrow> IsNonOverridableSSRFTarget (Some (v4_bytes n)))"
proof -
  note ch = spelling_chars [OF assms(2)]
  have "list_all plain_char s" using ch(2) by (auto simp: list_all_iff digit_like_def plain_char_def)
  with ch(1) have trim: "TrimSpace s = s" by (rule TrimSpace_plain)
  have no: "CHR ''%'' \<notin> set s" "CHR ''.'' \<notin> set s" "CHR '':'' \<notin> set s"
    using ch(2) by (auto simp: list_all_iff digit_like_def)
  have "index_of (CHR ''%'') s = None" using no(1) by simp
  then have zone: "stripIPv6Zone s = s" by (simp only: stripIPv6Zone_def option.case)
  have "\<not> has_suffix s ''.''" using no(2) by (auto simp: has_suffix_iff)
  then have suff: "TrimSuffix s ''.'' = s" by (simp add: TrimSuffix_def)
  have "find (\<lambda>c. c \<in> {CHR ''.'', CHR '':'', CHR ''%''}) s = None"
    using no by (auto simp: find_None_iff)
  then have "ParseIP s = None" by (simp add: ParseIP_def parse_addr_def)
  moreover have "parseAlternativeIP s = Some (packed_ipv4 n)"
    using ch(1) no(2) component_spelling [OF assms(1) _ assms(2)] by (simp add: parseAlternativeIP_def)
  ultimately have "ParseIPLiteral s = Some (v4_bytes n)"
    by (simp add: ParseIPLiteral_def trim zone suff NormalizeIP_def To4_packed)
  then show ?thesis by (simp add: isFloorHost_def)
qed

theorem numeric_spellings_are_literals_witness:
  "ParseIPLiteral ''0x7f000001'' = Some [127, 0, 0, 1]"
proof -
  have "format_uint 16 0x7f000001 = ''7f000001''"
    by (simp add: format_uint.simps digit_char_def) code_simp
  then have "''0x7f000001'' \<in> spellings 0x7f000001" by (simp add: spellings_def)
  from numeric_spellings_are_literals [OF _ this] show ?thesis by (simp add: v4_bytes_def)
qed

section \<open>Wildcard domains\<close>

lemma split_on_append_suffix:
  "(\<exists>ls. split_on c h = ls @ split_on c b) \<longleftrightarrow> h = b \<or> (\<exists>r. h = r @ c # b)"
proof
  assume "\<exists>ls. split_on c h = ls @ split_on c b"
  then obtain ls where ls: "split_on c h = ls @ split_on c b" by blast
  have joins: "join_with c (ls @ fs) = (if ls = [] then join_with c fs else join_with c ls @ c # join_with c fs)"
    if "fs \<noteq> []" for ls fs
    using that by (induction ls) (auto simp: join_with_Cons neq_Nil_conv)
  have "h = join_with c (ls @ split_on c b)" using ls join_split [of c h] by simp
  then show "h = b \<or> (\<exists>r. h = r @ c # b)" by (auto simp: joins join_split split: if_splits)
next
  have "split_on c (r @ c # b) = split_on c r @ split_on c b" for r
    by (induction r) (auto split: list.splits)
  then show "h = b \<or> (\<exists>r. h = r @ c # b) \<Longrightarrow> \<exists>ls. split_on c h = ls @ split_on c b" by (metis append_Nil)
qed

text \<open>
  A wildcard pattern matches whole labels: a host name that is not an address matches
  \<open>*.base\<close> exactly when the labels of \<open>base\<close> end its labels, so neither a longer last label
  (\<open>evilvendor.example\<close> for \<open>*.vendor.example\<close>) nor an address literal is ever matched by a
  wildcard.
\<close>

lemma wildcard_matches_whole_labels:
  fixes h :: string
  assumes "ToLower u (TrimSuffix p ''.'') = ''*.'' @ base"
  defines "host \<equiv> ToLower u (TrimSuffix h ''.'')"
  shows "MatchDomain u h p \<longleftrightarrow>
    (if ParseIP host = None then \<exists>labels. split_on (CHR ''.'') host = labels @ split_on (CHR ''.'') base
     else host = ''*.'' @ base)"
  using assms(1) unfolding split_on_append_suffix
  by (auto simp: MatchDomain_def host_def has_suffix_iff)

lemma wildcard_matches_whole_labels_witness:
  "MatchDomain (\<lambda>s. s) ''a.b.Vendor'' ''*.vendor'' \<and> \<not> MatchDomain (\<lambda>s. s) ''evilvendor'' ''*.vendor''"
proof -
  have low: "ToLower (\<lambda>s. s) (TrimSuffix ''*.vendor'' ''.'') = ''*.'' @ ''vendor''"
    "ToLower (\<lambda>s. s) (TrimSuffix ''a.b.Vendor'' ''.'') = ''a.b.vendor''"
    "ToLower (\<lambda>s. s) (TrimSuffix ''evilvendor'' ''.'') = ''evilvendor''"
    by code_simp+
  have "ParseIP ''a.b.vendor'' = None" "ParseIP ''evilvendor'' = None" by (simp_all add: host_eval)
  with wildcard_matches_whole_labels [OF low(1), of "''a.b.Vendor''"]
    wildcard_matches_whole_labels [OF low(1), of "''evilvendor''"] show ?thesis
    by (simp add: low)
qed

section \<open>Resolved addresses\<close>

text \<open>
  C34. What two clean passes over a resolver's answer mean: when neither the floor pass nor the internal
  pass reports a hit, every answer that parses, with its zone stripped and a mapped IPv4 address
  reduced to four bytes, is outside the immutable floor and outside every internal network it is not
  allowlisted for; and the floor pass reports a hit exactly when some answer is on the floor,
  whatever the allowlist says.
\<close>

theorem clean_resolution_is_safe:
  fixes ips :: "string list"
  defines "addrs \<equiv> ParseResolved ips"
  shows "(FirstFloorHit addrs = None \<and> FirstInternalHit addrs cidrs allowlisted = None \<longrightarrow>
      (\<forall>raw \<in> set ips. \<forall>a. NormalizeIP (ParseIP (stripIPv6Zone raw)) = Some a \<longrightarrow>
         \<not> IsNonOverridableSSRFTarget (Some a) \<and>
         (\<forall>n. Some n \<in> set cidrs \<and> Contains n a \<longrightarrow> (\<exists>f. allowlisted = Some f \<and> f a)))) \<and>
    (FirstFloorHit addrs \<noteq> None \<longleftrightarrow>
      (\<exists>raw \<in> set ips. \<exists>a. NormalizeIP (ParseIP (stripIPv6Zone raw)) = Some a \<and> IsNonOverridableSSRFTarget (Some a)))"
proof -
  have addrs: "(\<exists>x \<in> set addrs. ra_ip x = a) \<longleftrightarrow> (\<exists>raw \<in> set ips. NormalizeIP (ParseIP (stripIPv6Zone raw)) = Some a)" for a
    unfolding addrs_def by (induction ips) (auto split: option.splits)
  have floor: "FirstFloorHit addrs = None \<longleftrightarrow> (\<forall>a. (\<exists>x \<in> set addrs. ra_ip x = a) \<longrightarrow> \<not> IsNonOverridableSSRFTarget (Some a))"
    by (auto simp: FirstFloorHit_def find_None_iff)
  have internal: "FirstInternalHit addrs cidrs allowlisted = None \<longleftrightarrow> (\<forall>a. (\<exists>x \<in> set addrs. ra_ip x = a) \<longrightarrow>
      (\<forall>n. Some n \<in> set cidrs \<and> Contains n a \<longrightarrow> (\<exists>f. allowlisted = Some f \<and> f a)))"
  proof -
    define bad where "bad a \<longleftrightarrow> (\<exists>n. Some n \<in> set cidrs \<and> Contains n a) \<and> \<not> (\<exists>f. allowlisted = Some f \<and> f a)" for a
    have "list_ex (\<lambda>c. (case c of None \<Rightarrow> False | Some n \<Rightarrow> Contains n a) \<and>
        \<not> (case allowlisted of None \<Rightarrow> False | Some f \<Rightarrow> f a)) cidrs \<longleftrightarrow> bad a" for a
      unfolding bad_def list_ex_iff by (cases allowlisted) (force split: option.splits)+
    then have "FirstInternalHit addrs cidrs allowlisted = None \<longleftrightarrow> (\<forall>x \<in> set addrs. \<not> bad (ra_ip x))"
      by (auto simp: FirstInternalHit_def find_None_iff)
    then show ?thesis unfolding bad_def by blast
  qed
  have all: "(\<forall>raw \<in> set ips. \<forall>a. NormalizeIP (ParseIP (stripIPv6Zone raw)) = Some a \<longrightarrow> Q a) \<longleftrightarrow>
      (\<forall>a. (\<exists>x \<in> set addrs. ra_ip x = a) \<longrightarrow> Q a)" for Q
    unfolding addrs by blast
  have ex: "(\<exists>raw \<in> set ips. \<exists>a. NormalizeIP (ParseIP (stripIPv6Zone raw)) = Some a \<and> Q a) \<longleftrightarrow>
      (\<exists>a. (\<exists>x \<in> set addrs. ra_ip x = a) \<and> Q a)" for Q
    unfolding addrs by blast
  show ?thesis
  proof (intro conjI impI)
    assume "FirstFloorHit addrs = None \<and> FirstInternalHit addrs cidrs allowlisted = None"
    then show "\<forall>raw \<in> set ips. \<forall>a. NormalizeIP (ParseIP (stripIPv6Zone raw)) = Some a \<longrightarrow>
         \<not> IsNonOverridableSSRFTarget (Some a) \<and>
         (\<forall>n. Some n \<in> set cidrs \<and> Contains n a \<longrightarrow> (\<exists>f. allowlisted = Some f \<and> f a))"
      unfolding all floor internal by simp
  next
    show "(FirstFloorHit addrs \<noteq> None) =
      (\<exists>raw \<in> set ips. \<exists>a. NormalizeIP (ParseIP (stripIPv6Zone raw)) = Some a \<and> IsNonOverridableSSRFTarget (Some a))"
      unfolding ex floor by simp
  qed
qed

theorem clean_resolution_is_safe_witness:
  "FirstFloorHit (ParseResolved [''169.254.169.254'']) \<noteq> None"
proof -
  have "ParseIP (stripIPv6Zone ''169.254.169.254'') = Some (v4_in_v6_prefix @ [169, 254, 169, 254])"
    by code_simp
  then have "NormalizeIP (ParseIP (stripIPv6Zone ''169.254.169.254'')) = Some [169, 254, 169, 254]"
    by (simp add: NormalizeIP_def To4_def v4_in_v6_prefix_def)
  moreover have "IsNonOverridableSSRFTarget (Some [169, 254, 169, 254])"
    by (simp add: IsNonOverridableSSRFTarget_def NormalizeIP_def To4_def IsLinkLocalUnicast_def)
  ultimately show ?thesis
    using clean_resolution_is_safe [of "[''169.254.169.254'']" "[]" None] by simp
qed

text \<open>
  The zone check accepts more than an IPv6 zone: an IPv4 literal with a zone separator is taken as
  the address before it.
\<close>

theorem zone_on_ipv4_is_accepted:
  "NewDestination u ''tcp'' ''127.0.0.1%eth0'' 80 = Inr \<lparr>ds_network = ''tcp'', ds_host = ''127.0.0.1'', ds_port = 80\<rparr>"
proof -
  have trim: "TrimSpace ''127.0.0.1%eth0'' = ''127.0.0.1%eth0''" "TrimSpace ''127.0.0.1'' = ''127.0.0.1''"
    by (intro TrimSpace_plain; simp add: plain_char_def)+
  have zone: "stripIPv6Zone ''127.0.0.1%eth0'' = ''127.0.0.1''" "stripIPv6Zone ''127.0.0.1'' = ''127.0.0.1''"
    "TrimSuffix ''127.0.0.1%eth0'' ''.'' = ''127.0.0.1%eth0''" "TrimSuffix ''127.0.0.1'' ''.'' = ''127.0.0.1''"
    by (simp_all add: stripIPv6Zone_def TrimSuffix_def has_suffix_def)
  have ip: "ParseIP ''127.0.0.1'' = Some (v4_in_v6_prefix @ [127, 0, 0, 1])" by code_simp
  have low: "ToLower u ''127.0.0.1'' = ''127.0.0.1''" by (simp add: ToLower_def is_ascii_def ascii_lower_def)
  have safe: "\<not> hasUnsafeHostChars ''127.0.0.1''" by (intro hasUnsafeHostChars_plain) (simp add: plain_char_def)
  have lit: "ParseIPLiteral ''127.0.0.1'' = Some [127, 0, 0, 1]"
    by (simp add: ParseIPLiteral_def trim zone ip NormalizeIP_def To4_def v4_in_v6_prefix_def)
  have str: "IP_String [127, 0, 0, 1] = ''127.0.0.1''" by code_simp
  show ?thesis
    by (simp add: NewDestination_def network_Valid_def rejectMalformedZone_def NormalizeHost_def trim zone ip low safe lit str)
qed

end
