(* ===== verification/EnvelopeActor.thy ===== *)
theory EnvelopeActor
  imports GoText
begin

text \<open>
  Actor identities of the mediation envelope (\<^verbatim>\<open>internal/envelope/spiffe.go\<close>): parsing of legacy
  names and SPIFFE IDs, and the formatting of the actor a new envelope carries.

  Unicode case mapping and folding beyond ASCII, and of \<^verbatim>\<open>net/url\<close> the parser and the printers, are
  the fields of an argument \<open>net_lib\<close>. \<^verbatim>\<open>Port\<close> and \<^verbatim>\<open>Hostname\<close> of a URL and \<^verbatim>\<open>path.Clean\<close>
  are modelled.
\<close>

record url =
  u_scheme :: string
  u_opaque :: string
  u_user :: "string option"
  u_host :: string
  u_path :: string
  u_rawPath :: string
  u_rawQuery :: string
  u_fragment :: string

record net_lib =
  nl_lower :: "string \<Rightarrow> string"
  nl_fold :: "string \<Rightarrow> string \<Rightarrow> bool"
  nl_parse :: "string \<Rightarrow> url option"
  nl_escapedPath :: "url \<Rightarrow> string"
  nl_string :: "url \<Rightarrow> string"
  nl_requestURI :: "url \<Rightarrow> string"

section \<open>Standard library\<close>

abbreviation lower :: "net_lib \<Rightarrow> string \<Rightarrow> string" where
  "lower nl \<equiv> ToLower (nl_lower nl)"

definition EqualFold :: "(string \<Rightarrow> string \<Rightarrow> bool) \<Rightarrow> string \<Rightarrow> string \<Rightarrow> bool" where
  "EqualFold f s t = (if is_ascii s \<and> is_ascii t then to_lower s = to_lower t else f s t)"

text \<open>\<^verbatim>\<open>URL.Port\<close> and \<^verbatim>\<open>URL.Hostname\<close> split at the last colon when what follows is empty or digits.\<close>

definition is_digit :: "char \<Rightarrow> bool" where
  "is_digit c = (48 \<le> (of_char c :: nat) \<and> (of_char c :: nat) \<le> 57)"

definition url_splitHostPort :: "string \<Rightarrow> string \<times> string" where
  "url_splitHostPort hp =
     (let (host, port) = (case last_index_of CHR '':'' hp of
            None \<Rightarrow> (hp, [])
          | Some i \<Rightarrow> if list_all is_digit (drop (Suc i) hp) then (take i hp, drop (Suc i) hp) else (hp, [])) in
      (if has_prefix host ''['' \<and> has_suffix host '']'' then take (length host - 2) (drop 1 host) else host, port))"

definition url_Port :: "url \<Rightarrow> string" where
  "url_Port u = snd (url_splitHostPort (u_host u))"

definition url_Hostname :: "url \<Rightarrow> string" where
  "url_Hostname u = fst (url_splitHostPort (u_host u))"

definition clean_seg :: "bool \<Rightarrow> string \<Rightarrow> string list \<Rightarrow> string list" where
  "clean_seg rooted seg out =
     (if seg = [] \<or> seg = ''.'' then out
      else if seg = ''..'' then
        (if out \<noteq> [] \<and> last out \<noteq> ''..'' then butlast out else if rooted then out else out @ [''..''])
      else out @ [seg])"

definition path_Clean :: "string \<Rightarrow> string" where
  "path_Clean p =
     (if p = [] then ''.''
      else let rooted = (hd p = CHR ''/''); out = fold (clean_seg rooted) (split_on CHR ''/'' p) [] in
        if rooted then CHR ''/'' # join_with CHR ''/'' out
        else if out = [] then ''.'' else join_with CHR ''/'' out)"

section \<open>Parsing\<close>

datatype actor_error =
  EmptyActor | UrlParse | BadScheme | EmptyTrustDomain | HasUserinfo | HasPort | IPTrustDomain
| EmptyWorkload | HasQueryOrFragment | NotCanonical | NotSPIFFE | NeedsTrustDomain | BadTrustDomain | UnknownFormat

record parsed_actor =
  pa_raw :: string
  pa_isSPIFFE :: bool
  pa_trustDomain :: string
  pa_workload :: string

definition isCanonicalSPIFFEPath :: "string \<Rightarrow> bool" where
  "isCanonicalSPIFFEPath p =
     (p \<noteq> [] \<and> hd p = CHR ''/'' \<and> path_Clean p = p \<and>
      list_all (\<lambda>seg. seg \<noteq> [] \<and> seg \<noteq> ''.'' \<and> seg \<noteq> ''..'') (split_on CHR ''/'' (tl p)))"

definition ParseActor :: "net_lib \<Rightarrow> string \<Rightarrow> actor_error + parsed_actor" where
  "ParseActor nl raw =
     (let trimmed = TrimSpace raw in
      if trimmed = [] then Inl EmptyActor
      else if \<not> has_prefix (lower nl trimmed) ''spiffe://''
      then Inr \<lparr>pa_raw = trimmed, pa_isSPIFFE = False, pa_trustDomain = [], pa_workload = []\<rparr>
      else case nl_parse nl trimmed of None \<Rightarrow> Inl UrlParse
      | Some u \<Rightarrow>
          if u_scheme u \<noteq> ''spiffe'' then Inl BadScheme
          else if u_host u = [] then Inl EmptyTrustDomain
          else if u_user u \<noteq> None then Inl HasUserinfo
          else if url_Port u \<noteq> [] then Inl HasPort
          else if ParseIP (url_Hostname u) \<noteq> None then Inl IPTrustDomain
          else if u_path u = [] \<or> u_path u = ''/'' then Inl EmptyWorkload
          else if u_rawQuery u \<noteq> [] \<or> u_fragment u \<noteq> [] then Inl HasQueryOrFragment
          else if \<not> isCanonicalSPIFFEPath (u_path u) then Inl NotCanonical
          else Inr \<lparr>pa_raw = trimmed, pa_isSPIFFE = True, pa_trustDomain = lower nl (u_host u),
                    pa_workload = nl_escapedPath nl u\<rparr>)"

definition ParseActorStrict :: "net_lib \<Rightarrow> string \<Rightarrow> actor_error + parsed_actor" where
  "ParseActorStrict nl raw =
     (case ParseActor nl raw of Inl e \<Rightarrow> Inl e
      | Inr p \<Rightarrow> if \<not> pa_isSPIFFE p then Inl NotSPIFFE else Inr p)"

section \<open>Formatting\<close>

definition IsValidTrustDomain :: "net_lib \<Rightarrow> string \<Rightarrow> bool" where
  "IsValidTrustDomain nl s =
     (if s = [] then False
      else if list_ex (\<lambda>c. c = CHR 0x5C \<or> c \<in> set ''/@:?# '') s then False
      else case nl_parse nl (''spiffe://'' @ s @ ''/x'') of None \<Rightarrow> False
      | Some u \<Rightarrow>
          if u_host u = [] \<or> u_user u \<noteq> None \<or> url_Port u \<noteq> [] then False
          else if \<not> EqualFold (nl_fold nl) (u_host u) s then False
          else if ParseIP s \<noteq> None then False else True)"

definition segment_char :: "char \<Rightarrow> bool" where
  "segment_char r =
     (let n = (of_char r :: nat) in
      97 \<le> n \<and> n \<le> 122 \<or> 65 \<le> n \<and> n \<le> 90 \<or> 48 \<le> n \<and> n \<le> 57 \<or>
      r = CHR ''.'' \<or> r = CHR ''_'' \<or> r = CHR ''-'')"

function escape_runes :: "string \<Rightarrow> string" where
  "escape_runes [] = []"
| "escape_runes (r # s) =
     (if segment_char r then r else CHR ''-'') # escape_runes (drop (rune_width (r # s)) (r # s))"
  by pat_completeness auto
termination by (relation "measure length") (simp_all only: wf_measure in_measure drop_rune)

definition escapeSPIFFEPathSegment :: "string \<Rightarrow> string" where
  "escapeSPIFFEPathSegment s =
     (let out = trim_by (\<lambda>c. c = CHR ''-'') (escape_runes s) in if out = [] then ''anonymous'' else out)"

definition FormatActor :: "net_lib \<Rightarrow> string \<Rightarrow> string \<Rightarrow> string \<Rightarrow> actor_error + string" where
  "FormatActor nl actor actorFormat trustDomain =
     (let trimmed = (if TrimSpace actor = [] then ''anonymous'' else TrimSpace actor);
          fmt = lower nl (TrimSpace actorFormat) in
      if fmt = [] \<or> fmt = ''legacy'' then Inr trimmed
      else if fmt = ''spiffe'' then
        (if has_prefix (lower nl trimmed) ''spiffe://'' then
           (case ParseActorStrict nl trimmed of Inl e \<Rightarrow> Inl e | Inr _ \<Rightarrow> Inr trimmed)
         else
           let dom = lower nl (TrimSpace trustDomain) in
           if dom = [] then Inl NeedsTrustDomain
           else if \<not> IsValidTrustDomain nl dom then Inl BadTrustDomain
           else Inr (''spiffe://'' @ dom @ ''/agent/'' @ escapeSPIFFEPathSegment trimmed))
      else Inl UnknownFormat)"

section \<open>Canonical paths\<close>

lemma fold_clean_good:
  "list_all (\<lambda>seg. seg \<noteq> [] \<and> seg \<noteq> ''.'' \<and> seg \<noteq> ''..'') segs \<Longrightarrow> fold (clean_seg rooted) segs out = out @ segs"
  by (induction segs arbitrary: out) (auto simp: clean_seg_def)

lemma isCanonicalSPIFFEPath_iff:
  "isCanonicalSPIFFEPath (CHR ''/'' # p) \<longleftrightarrow>
     list_all (\<lambda>seg. seg \<noteq> [] \<and> seg \<noteq> ''.'' \<and> seg \<noteq> ''..'') (split_on CHR ''/'' p)" (is "_ \<longleftrightarrow> ?good")
proof
  assume good: ?good
  have "split_on CHR ''/'' (CHR ''/'' # p) = [] # split_on CHR ''/'' p"
    using split_on_append_sep [of "CHR ''/''" "[]" p] by simp
  with good have "path_Clean (CHR ''/'' # p) = CHR ''/'' # p"
    by (simp add: path_Clean_def Let_def fold_clean_good clean_seg_def [of _ "[]"] join_split)
  with good show "isCanonicalSPIFFEPath (CHR ''/'' # p)" by (simp add: isCanonicalSPIFFEPath_def)
qed (simp add: isCanonicalSPIFFEPath_def)

section \<open>Formatted actors\<close>

lemma set_trim_by: "set (trim_by p s) \<subseteq> set s"
  unfolding trim_by_def by (auto dest!: set_dropWhileD)

lemma escape_runes_chars: "list_all segment_char (escape_runes s)"
  by (induction s rule: escape_runes.induct) (auto simp: segment_char_def)

lemma escaped_segment:
  "escapeSPIFFEPathSegment s \<noteq> [] \<and> list_all segment_char (escapeSPIFFEPathSegment s)"
proof -
  have "list_all segment_char (trim_by (\<lambda>c. c = CHR ''-'') (escape_runes s))"
    using escape_runes_chars [of s] set_trim_by by (auto simp: list_all_iff)
  moreover have "list_all segment_char ''anonymous''" by (simp add: segment_char_def)
  ultimately show ?thesis by (simp add: escapeSPIFFEPathSegment_def Let_def)
qed
text \<open>What \<^verbatim>\<open>url.Parse\<close> documents for an absolute URL without percent-encoding, query or fragment.\<close>

definition spiffe_url :: "string \<Rightarrow> string \<Rightarrow> url" where
  "spiffe_url d p = \<lparr>u_scheme = ''spiffe'', u_opaque = [], u_user = None, u_host = d, u_path = CHR ''/'' # p,
     u_rawPath = [], u_rawQuery = [], u_fragment = []\<rparr>"

definition parses_plain_urls :: "net_lib \<Rightarrow> bool" where
  "parses_plain_urls nl \<longleftrightarrow> (\<forall>d p. d \<noteq> [] \<and> list_all segment_char d \<and>
     list_all (\<lambda>c. segment_char c \<or> c = CHR ''/'') p \<longrightarrow>
       nl_parse nl (''spiffe://'' @ d @ CHR ''/'' # p) = Some (spiffe_url d p) \<and>
       nl_escapedPath nl (spiffe_url d p) = CHR ''/'' # p)"

lemma segment_char_props:
  assumes "segment_char c"
  shows "plain_char c" "(of_char c :: nat) < 128" "c \<noteq> CHR ''/''" "c \<noteq> CHR '':''" "c \<notin> set ''[]@?# ''" "c \<noteq> CHR 0x5C"
  using assms by (auto simp: segment_char_def plain_char_def Let_def)

lemma ascii_lower_segment_char: "segment_char c \<Longrightarrow> segment_char (ascii_lower c)"
  by (auto simp: segment_char_def ascii_lower_def Let_def)

lemma segment_ascii: "list_all segment_char s \<Longrightarrow> is_ascii s"
  by (auto simp: is_ascii_def list_all_iff dest: segment_char_props)

lemma no_port: "list_all segment_char d \<Longrightarrow> url_splitHostPort d = (d, [])"
proof -
  assume d: "list_all segment_char d"
  then have "CHR '':'' \<notin> set d" by (auto simp: list_all_iff dest: segment_char_props)
  then have "last_index_of CHR '':'' d = None" by (simp add: last_index_of_def)
  moreover have "\<not> has_prefix d ''[''"
    using d by (cases d) (auto simp: list_all_iff dest: segment_char_props(5))
  ultimately show ?thesis by (simp add: url_splitHostPort_def)
qed

lemma parses_plain_urlsD:
  assumes "parses_plain_urls nl" "d \<noteq> []" "list_all segment_char d" "list_all (\<lambda>c. segment_char c \<or> c = CHR ''/'') p"
  shows "nl_parse nl (''spiffe://'' @ d @ CHR ''/'' # p) = Some (spiffe_url d p) \<and>
    nl_escapedPath nl (spiffe_url d p) = CHR ''/'' # p"
  by (rule assms(1) [unfolded parses_plain_urls_def, THEN spec, THEN spec, THEN mp]) (intro conjI assms(2-4))

lemma unsafe_char: "segment_char c \<Longrightarrow> \<not> (c = CHR 0x5C \<or> c \<in> set ''/@:?# '')"
  by (auto simp: segment_char_def)

lemma plain_domain_valid:
  assumes lib: "parses_plain_urls nl" and d: "d \<noteq> []" "list_all segment_char d" "ParseIP d = None"
  shows "IsValidTrustDomain nl d"
proof -
  have "nl_parse nl (''spiffe://'' @ d @ CHR ''/'' # ''x'') = Some (spiffe_url d ''x'')"
    by (rule parses_plain_urlsD [OF lib d(1,2), THEN conjunct1]) (simp add: segment_char_def)
  moreover have "\<not> list_ex (\<lambda>c. c = CHR 0x5C \<or> c \<in> set ''/@:?# '') d"
    using d(2) unsafe_char by (auto simp: list_ex_iff list_all_iff)
  ultimately show ?thesis using d no_port [OF d(2)]
    by (simp add: IsValidTrustDomain_def spiffe_url_def url_Port_def EqualFold_def segment_ascii)
qed

text \<open>
  An actor name that is not yet a SPIFFE ID, formatted under a DNS-shaped trust domain, is a
  SPIFFE ID that the strict parser of the receiving side accepts, with the lower-cased trust domain
  and the escaped name as its workload; the exceptions are the names whose escape is a dot segment,
  which the parser refuses as not canonical.
\<close>

theorem formatted_actor_parses:
  assumes lib: "parses_plain_urls nl"
    and d: "TrimSpace td \<noteq> []" "list_all segment_char (TrimSpace td)" "ParseIP (to_lower (TrimSpace td)) = None"
    and name: "\<not> has_prefix (lower nl (if TrimSpace actor = [] then ''anonymous'' else TrimSpace actor)) ''spiffe://''"
  defines "seg \<equiv> escapeSPIFFEPathSegment (if TrimSpace actor = [] then ''anonymous'' else TrimSpace actor)"
    and "domain \<equiv> to_lower (TrimSpace td)"
  defines "w \<equiv> ''spiffe://'' @ domain @ ''/agent/'' @ seg"
  shows "FormatActor nl actor ''spiffe'' td = Inr w \<and>
    ParseActorStrict nl w =
      (if seg = ''.'' \<or> seg = ''..'' then Inl NotCanonical
       else Inr \<lparr>pa_raw = w, pa_isSPIFFE = True, pa_trustDomain = domain, pa_workload = ''/agent/'' @ seg\<rparr>)"
proof -
  have domain: "domain \<noteq> []" "list_all segment_char domain"
    using d(1,2) by (auto simp: domain_def list_all_iff ascii_lower_segment_char)
  have fmt: "lower nl (TrimSpace ''spiffe'') = ''spiffe''"
    by (subst TrimSpace_plain) (simp_all add: plain_char_def ToLower_def is_ascii_def ascii_lower_def)
  have low: "lower nl (TrimSpace td) = domain" by (simp add: ToLower_def segment_ascii [OF d(2)] domain_def)
  have one: "FormatActor nl actor ''spiffe'' td = Inr w"
    using domain name plain_domain_valid [OF lib domain d(3) [folded domain_def]]
    by (simp add: FormatActor_def Let_def fmt low seg_def w_def)
  have seg: "seg \<noteq> []" "list_all segment_char seg" using escaped_segment by (simp_all add: seg_def)
  have u: "nl_parse nl w = Some (spiffe_url domain (''agent/'' @ seg))"
      "nl_escapedPath nl (spiffe_url domain (''agent/'' @ seg)) = ''/agent/'' @ seg"
    using parses_plain_urlsD [OF lib domain, of "''agent/'' @ seg"] seg(2)
    by (auto simp: w_def list_all_iff segment_char_def)
  have "plain_char (last w)" using seg segment_char_props(1) by (auto simp: w_def list_all_iff)
  then have trim: "TrimSpace w = w" by (intro TrimSpace_ends) (simp_all add: w_def plain_char_def)
  have "is_ascii w" using segment_ascii [OF domain(2)] segment_ascii [OF seg(2)] by (simp add: w_def is_ascii_def)
  then have pre: "has_prefix (lower nl w) ''spiffe://''" by (simp add: w_def ToLower_def ascii_lower_def)
  have "CHR ''/'' \<notin> set seg" using seg(2) by (auto simp: list_all_iff dest: segment_char_props)
  then have can: "isCanonicalSPIFFEPath (''/agent/'' @ seg) \<longleftrightarrow> seg \<noteq> ''.'' \<and> seg \<noteq> ''..''"
    using seg(1) split_on_append_sep [of "CHR ''/''" "''agent''" seg]
    by (simp add: isCanonicalSPIFFEPath_iff split_on_no_occ)
  have "ToLower (nl_lower nl) domain = domain"
    by (simp add: ToLower_def segment_ascii [OF domain(2)]) (simp add: domain_def)
  with u(1) u(2) trim pre can domain d(3) no_port [OF domain(2)]
  have "ParseActorStrict nl w =
      (if seg = ''.'' \<or> seg = ''..'' then Inl NotCanonical
       else Inr \<lparr>pa_raw = w, pa_isSPIFFE = True, pa_trustDomain = domain, pa_workload = ''/agent/'' @ seg\<rparr>)"
    by (simp add: ParseActorStrict_def ParseActor_def spiffe_url_def url_Port_def url_Hostname_def w_def flip: domain_def)
  with one show ?thesis by blast
qed

definition plain_lib :: net_lib where
  "plain_lib = \<lparr>nl_lower = id, nl_fold = (=),
     nl_parse = (\<lambda>s. if has_prefix s ''spiffe://''
       then let r = drop 9 s; d = takeWhile (\<lambda>c. c \<noteq> CHR ''/'') r in Some (spiffe_url d (drop (Suc (length d)) r))
       else None),
     nl_escapedPath = u_path, nl_string = u_path, nl_requestURI = u_path\<rparr>"

lemma plain_lib_parses: "parses_plain_urls plain_lib"
  unfolding parses_plain_urls_def
proof (intro allI impI)
  fix d p assume "d \<noteq> [] \<and> list_all segment_char d \<and> list_all (\<lambda>c. segment_char c \<or> c = CHR ''/'') p"
  then have "\<forall>c \<in> set d. c \<noteq> CHR ''/''" using segment_char_props(3) by (auto simp: list_all_iff)
  then have "takeWhile (\<lambda>c. c \<noteq> CHR ''/'') (d @ CHR ''/'' # p) = d" by (simp add: takeWhile_append)
  then show "nl_parse plain_lib (''spiffe://'' @ d @ CHR ''/'' # p) = Some (spiffe_url d p) \<and>
      nl_escapedPath plain_lib (spiffe_url d p) = CHR ''/'' # p"
    by (simp add: plain_lib_def spiffe_url_def)
qed

theorem formatted_actor_parses_witness:
  "ParseActorStrict plain_lib ''spiffe://example.org/agent/build-bot'' =
     Inr \<lparr>pa_raw = ''spiffe://example.org/agent/build-bot'', pa_isSPIFFE = True,
       pa_trustDomain = ''example.org'', pa_workload = ''/agent/build-bot''\<rparr>"
proof -
  have td: "TrimSpace ''Example.ORG'' = ''Example.ORG''" and nm: "TrimSpace ''build bot'' = ''build bot''"
    by (rule TrimSpace_ends; simp add: plain_char_def)+
  have low: "to_lower ''Example.ORG'' = ''example.org''" by code_simp
  have ip: "ParseIP ''example.org'' = None" by code_simp
  have esc: "escapeSPIFFEPathSegment ''build bot'' = ''build-bot''" by code_simp
  have a: "TrimSpace ''Example.ORG'' \<noteq> []" "list_all segment_char (TrimSpace ''Example.ORG'')"
    "ParseIP (to_lower (TrimSpace ''Example.ORG'')) = None"
    "\<not> has_prefix (lower plain_lib (if TrimSpace ''build bot'' = [] then ''anonymous'' else TrimSpace ''build bot'')) ''spiffe://''"
    unfolding td nm low by (simp_all add: ip segment_char_def plain_lib_def ToLower_def is_ascii_def ascii_lower_def)
  from formatted_actor_parses [OF plain_lib_parses a] show ?thesis
    unfolding td nm low by (simp add: esc)
qed

end
