(* ===== verification/EnvelopeWire.thy ===== *)
theory EnvelopeWire
  imports EnvelopeActor
begin

text \<open>
  The mediation envelope on the wire (\<^verbatim>\<open>internal/envelope/envelope.go\<close> and \<^verbatim>\<open>inject.go\<close>): its
  dictionary encoding, the parser with its required fields, the MCP form, and the removal of forged
  envelopes from inbound headers.

  Structured fields are handled by a third-party package; its dictionaries, parameter lists,
  printer and parser are the fields of an argument \<open>sfv\<close>, and what the code relies on is the
  predicate \<open>sfv_ok\<close>: a lookup returns what was added last, the names are the keys, and parsing a
  printed dictionary gives its members back. An HTTP header maps canonical names to values.
\<close>

section \<open>Structured fields\<close>

datatype bare = SInt int | SStr string | SBytes string | SBool bool | SOther string

record 'p sf_item =
  it_value :: bare
  it_params :: 'p

record 'p inner_list =
  il_items :: "'p sf_item list"
  il_params :: 'p

datatype 'p member = MItem "'p sf_item" | MInner "'p inner_list"

record ('d, 'p) sfv =
  sf_newParams :: 'p
  sf_paramAdd :: "'p \<Rightarrow> string \<Rightarrow> bare \<Rightarrow> 'p"
  sf_paramGet :: "'p \<Rightarrow> string \<Rightarrow> bare option"
  sf_newDict :: 'd
  sf_add :: "'d \<Rightarrow> string \<Rightarrow> 'p member \<Rightarrow> 'd"
  sf_get :: "'d \<Rightarrow> string \<Rightarrow> 'p member option"
  sf_del :: "'d \<Rightarrow> string \<Rightarrow> 'd"
  sf_names :: "'d \<Rightarrow> string list"
  sf_marshal :: "'d \<Rightarrow> string option"
  sf_marshalList :: "'p inner_list \<Rightarrow> string option"
  sf_unmarshal :: "string list \<Rightarrow> 'd option"

definition sf_newItem :: "('d, 'p) sfv \<Rightarrow> bare \<Rightarrow> 'p sf_item" where
  "sf_newItem sf b = \<lparr>it_value = b, it_params = sf_newParams sf\<rparr>"

definition sfv_ok :: "('d, 'p) sfv \<Rightarrow> bool" where
  "sfv_ok sf \<longleftrightarrow>
     (\<forall>k. sf_paramGet sf (sf_newParams sf) k = None) \<and>
     (\<forall>p k b k'. sf_paramGet sf (sf_paramAdd sf p k b) k' = (if k' = k then Some b else sf_paramGet sf p k')) \<and>
     (\<forall>k. sf_get sf (sf_newDict sf) k = None) \<and>
     (\<forall>d k m k'. sf_get sf (sf_add sf d k m) k' = (if k' = k then Some m else sf_get sf d k')) \<and>
     (\<forall>d k k'. sf_get sf (sf_del sf d k) k' = (if k' = k then None else sf_get sf d k')) \<and>
     (\<forall>d k. k \<in> set (sf_names sf d) \<longleftrightarrow> sf_get sf d k \<noteq> None) \<and>
     (\<forall>d s. sf_marshal sf d = Some s \<longrightarrow>
        (\<exists>d'. sf_unmarshal sf [s] = Some d' \<and> sf_names sf d' = sf_names sf d \<and> sf_get sf d' = sf_get sf d))"

lemma sfv_okD:
  assumes "sfv_ok sf"
  shows "sf_paramGet sf (sf_newParams sf) k = None"
    "sf_paramGet sf (sf_paramAdd sf p k b) k' = (if k' = k then Some b else sf_paramGet sf p k')"
    "sf_get sf (sf_newDict sf) k = None"
    "sf_get sf (sf_add sf d k m) k' = (if k' = k then Some m else sf_get sf d k')"
    "sf_get sf (sf_del sf d k) k' = (if k' = k then None else sf_get sf d k')"
    "k \<in> set (sf_names sf d) \<longleftrightarrow> sf_get sf d k \<noteq> None"
    "sf_marshal sf d = Some s \<Longrightarrow>
       \<exists>d'. sf_unmarshal sf [s] = Some d' \<and> sf_names sf d' = sf_names sf d \<and> sf_get sf d' = sf_get sf d"
  using assms unfolding sfv_ok_def by metis+

section \<open>HTTP headers\<close>

type_synonym header = "string \<Rightarrow> string list"

fun canon_from :: "bool \<Rightarrow> string \<Rightarrow> string" where
  "canon_from up [] = []"
| "canon_from up (c # cs) =
     (let n = (of_char c :: nat) in
      (if up \<and> 97 \<le> n \<and> n \<le> 122 then char_of (n - 32) else if \<not> up then ascii_lower c else c)
      # canon_from (c = CHR ''-'') cs)"

definition token_char :: "char \<Rightarrow> bool" where
  "token_char c = (let n = (of_char c :: nat) in
     97 \<le> n \<and> n \<le> 122 \<or> 65 \<le> n \<and> n \<le> 90 \<or> 48 \<le> n \<and> n \<le> 57 \<or> c \<in> set ''!#$%&*+-.^_`|~'' \<or> n = 39)"

definition CanonicalMIMEHeaderKey :: "string \<Rightarrow> string" where
  "CanonicalMIMEHeaderKey s = (if list_all token_char s then canon_from True s else s)"

definition hdr_values :: "header \<Rightarrow> string \<Rightarrow> string list" where
  "hdr_values h name = h (CanonicalMIMEHeaderKey name)"

definition hdr_get :: "header \<Rightarrow> string \<Rightarrow> string" where
  "hdr_get h name = (case hdr_values h name of [] \<Rightarrow> [] | v # _ \<Rightarrow> v)"

definition hdr_set :: "string \<Rightarrow> string \<Rightarrow> header \<Rightarrow> header" where
  "hdr_set name v h = h(CanonicalMIMEHeaderKey name := [v])"

definition hdr_del :: "string \<Rightarrow> header \<Rightarrow> header" where
  "hdr_del name h = h(CanonicalMIMEHeaderKey name := [])"

section \<open>The envelope\<close>

abbreviation (input) HeaderName :: string where "HeaderName \<equiv> ''Pipelock-Mediation''"
abbreviation (input) MCPMetaKey :: string where "MCPMetaKey \<equiv> ''com.pipelock/mediation''"
abbreviation (input) pipelockMemberPrefix :: string where "pipelockMemberPrefix \<equiv> ''pipelock''"

record envelope =
  ev_version :: int
  ev_action :: string
  ev_verdict :: string
  ev_sideEffect :: string
  ev_actor :: string
  ev_actorAuth :: string
  ev_policyHash :: string
  ev_receiptID :: string
  ev_timestamp :: int
  ev_sessionTaint :: string
  ev_taskID :: string
  ev_authorityKind :: string
  ev_authorityRef :: string
  ev_requiresReauth :: bool
  ev_hop :: int

definition actor_auths :: "string list" where
  "actor_auths = [''bound'', ''matched'', ''config-default'', ''self-declared'']"

datatype wire_error = InvalidHop | DictionaryError | MissingField string | UnknownActorAuth | MarshalError

definition envelope_dict :: "('d, 'p) sfv \<Rightarrow> envelope \<Rightarrow> 'd" where
  "envelope_dict sf e =
     (let add = (\<lambda>k b d. sf_add sf d k (MItem (sf_newItem sf b)));
          add_if = (\<lambda>c k b d. if c then add k b d else d) in
      add_if (ev_hop e > 0) ''hop'' (SInt (ev_hop e))
      (add_if (ev_requiresReauth e) ''reauth'' (SBool True)
      (add_if (ev_authorityRef e \<noteq> []) ''authr'' (SStr (ev_authorityRef e))
      (add_if (ev_authorityKind e \<noteq> []) ''auth'' (SStr (ev_authorityKind e))
      (add_if (ev_taskID e \<noteq> []) ''task'' (SStr (ev_taskID e))
      (add_if (ev_sessionTaint e \<noteq> []) ''taint'' (SStr (ev_sessionTaint e))
      (add ''ts'' (SInt (ev_timestamp e))
      (add ''rid'' (SStr (ev_receiptID e))
      (add ''ph'' (SBytes (ev_policyHash e))
      (add ''aa'' (SStr (ev_actorAuth e))
      (add ''actor'' (SStr (ev_actor e))
      (add ''se'' (SStr (ev_sideEffect e))
      (add ''vd'' (SStr (ev_verdict e))
      (add ''act'' (SStr (ev_action e))
      (add ''v'' (SInt (ev_version e)) (sf_newDict sf))))))))))))))))"

definition Serialize :: "('d, 'p) sfv \<Rightarrow> envelope \<Rightarrow> wire_error + string" where
  "Serialize sf e =
     (if ev_hop e < 0 then Inl InvalidHop
      else case sf_marshal sf (envelope_dict sf e) of None \<Rightarrow> Inl MarshalError | Some s \<Rightarrow> Inr s)"

text \<open>The nested type assertions of the parser: a member of another shape leaves the field at its zero value.\<close>

definition item_of :: "('d, 'p) sfv \<Rightarrow> 'd \<Rightarrow> string \<Rightarrow> bare option" where
  "item_of sf d k = (case sf_get sf d k of Some (MItem it) \<Rightarrow> Some (it_value it) | _ \<Rightarrow> None)"

definition int_of :: "bare option \<Rightarrow> int" where
  "int_of b = (case b of Some (SInt v) \<Rightarrow> v | _ \<Rightarrow> 0)"

definition str_of :: "bare option \<Rightarrow> string" where
  "str_of b = (case b of Some (SStr v) \<Rightarrow> v | _ \<Rightarrow> [])"

definition bytes_of :: "bare option \<Rightarrow> string" where
  "bytes_of b = (case b of Some (SBytes v) \<Rightarrow> v | _ \<Rightarrow> [])"

definition bool_of :: "bare option \<Rightarrow> bool" where
  "bool_of b = (case b of Some (SBool v) \<Rightarrow> v | _ \<Rightarrow> False)"

definition parse_hop :: "('d, 'p) sfv \<Rightarrow> 'd \<Rightarrow> wire_error + int" where
  "parse_hop sf d =
     (case sf_get sf d ''hop'' of None \<Rightarrow> Inr 0
      | Some (MItem it) \<Rightarrow> (case it_value it of SInt v \<Rightarrow> if v < 0 then Inl InvalidHop else Inr v | _ \<Rightarrow> Inl InvalidHop)
      | Some (MInner _) \<Rightarrow> Inl InvalidHop)"

definition envelope_fields :: "('d, 'p) sfv \<Rightarrow> 'd \<Rightarrow> int \<Rightarrow> envelope" where
  "envelope_fields sf d hop =
     (let f = item_of sf d in
      \<lparr>ev_version = int_of (f ''v''), ev_action = str_of (f ''act''), ev_verdict = str_of (f ''vd''),
       ev_sideEffect = str_of (f ''se''), ev_actor = str_of (f ''actor''), ev_actorAuth = str_of (f ''aa''),
       ev_policyHash = bytes_of (f ''ph''), ev_receiptID = str_of (f ''rid''), ev_timestamp = int_of (f ''ts''),
       ev_sessionTaint = str_of (f ''taint''), ev_taskID = str_of (f ''task''),
       ev_authorityKind = str_of (f ''auth''), ev_authorityRef = str_of (f ''authr''),
       ev_requiresReauth = bool_of (f ''reauth''), ev_hop = hop\<rparr>)"

definition check_required :: "envelope \<Rightarrow> wire_error + envelope" where
  "check_required env =
     (if ev_version env = 0 then Inl (MissingField ''v'')
      else if ev_action env = [] then Inl (MissingField ''act'')
      else if ev_verdict env = [] then Inl (MissingField ''vd'')
      else if ev_receiptID env = [] then Inl (MissingField ''rid'')
      else if ev_timestamp env = 0 then Inl (MissingField ''ts'')
      else if ev_actorAuth env \<in> set actor_auths \<or> ev_actorAuth env = [] then Inr env
      else Inl UnknownActorAuth)"

definition Parse :: "('d, 'p) sfv \<Rightarrow> string \<Rightarrow> wire_error + envelope" where
  "Parse sf s =
     (case sf_unmarshal sf [s] of None \<Rightarrow> Inl DictionaryError
      | Some d \<Rightarrow> (case parse_hop sf d of Inl e \<Rightarrow> Inl e | Inr hop \<Rightarrow> check_required (envelope_fields sf d hop)))"
section \<open>The MCP form\<close>

definition base64_char :: "nat \<Rightarrow> char" where
  "base64_char n = (if n < 26 then char_of (65 + n) else if n < 52 then char_of (71 + n)
     else if n < 62 then char_of (n - 4) else if n = 62 then CHR ''+'' else CHR ''/'')"

fun base64 :: "nat list \<Rightarrow> string" where
  "base64 [] = []"
| "base64 [a] = [base64_char (a div 4), base64_char (a mod 4 * 16), CHR ''='', CHR ''='']"
| "base64 [a, b] = [base64_char (a div 4), base64_char (a mod 4 * 16 + b div 16), base64_char (b mod 16 * 4), CHR ''='']"
| "base64 (a # b # c # bs) =
     [base64_char (a div 4), base64_char (a mod 4 * 16 + b div 16), base64_char (b mod 16 * 4 + c div 64), base64_char (c mod 64)]
     @ base64 bs"

definition EncodeToString :: "string \<Rightarrow> string" where
  "EncodeToString s = base64 (map of_char s)"

datatype meta_value = MvInt int | MvStr string | MvBool bool

definition ToMCPMeta :: "envelope \<Rightarrow> string \<rightharpoonup> meta_value" where
  "ToMCPMeta e =
     (let opt = (\<lambda>c k v m. if c then m(k \<mapsto> v) else m) in
      opt (ev_hop e > 0) ''hop'' (MvInt (ev_hop e))
      (opt (ev_requiresReauth e) ''reauth'' (MvBool True)
      (opt (ev_authorityRef e \<noteq> []) ''authr'' (MvStr (ev_authorityRef e))
      (opt (ev_authorityKind e \<noteq> []) ''auth'' (MvStr (ev_authorityKind e))
      (opt (ev_taskID e \<noteq> []) ''task'' (MvStr (ev_taskID e))
      (opt (ev_sessionTaint e \<noteq> []) ''taint'' (MvStr (ev_sessionTaint e))
      [''v'' \<mapsto> MvInt (ev_version e), ''act'' \<mapsto> MvStr (ev_action e), ''vd'' \<mapsto> MvStr (ev_verdict e),
       ''se'' \<mapsto> MvStr (ev_sideEffect e), ''actor'' \<mapsto> MvStr (ev_actor e), ''aa'' \<mapsto> MvStr (ev_actorAuth e),
       ''ph'' \<mapsto> MvStr (''sha256-128:'' @ EncodeToString (ev_policyHash e)),
       ''rid'' \<mapsto> MvStr (ev_receiptID e), ''ts'' \<mapsto> MvInt (ev_timestamp e)]))))))"

datatype 'a meta_any = MetaEnvelope "string \<rightharpoonup> meta_value" | MetaOther 'a

definition InjectMCP :: "envelope \<Rightarrow> (string \<rightharpoonup> 'a meta_any) \<Rightarrow> (string \<rightharpoonup> 'a meta_any)" where
  "InjectMCP env meta = meta(MCPMetaKey \<mapsto> MetaEnvelope (ToMCPMeta env))"

definition StripInboundMCP :: "(string \<rightharpoonup> 'a meta_any) \<Rightarrow> (string \<rightharpoonup> 'a meta_any)" where
  "StripInboundMCP meta = meta(MCPMetaKey := None)"

section \<open>Inbound headers\<close>

definition InjectHTTP :: "('d, 'p) sfv \<Rightarrow> envelope \<Rightarrow> header \<Rightarrow> wire_error option \<times> header" where
  "InjectHTTP sf env h = (case Serialize sf env of Inl e \<Rightarrow> (Some e, h) | Inr v \<Rightarrow> (None, hdr_set HeaderName v h))"

definition containsPipelockMember :: "(string \<Rightarrow> string) \<Rightarrow> string list \<Rightarrow> bool" where
  "containsPipelockMember u values = list_ex (\<lambda>v. str_contains (ToLower u v) pipelockMemberPrefix) values"

definition pipelock_names :: "('d, 'p) sfv \<Rightarrow> 'd \<Rightarrow> string list" where
  "pipelock_names sf d = filter (\<lambda>name. has_prefix name pipelockMemberPrefix) (sf_names sf d)"

definition del_members :: "('d, 'p) sfv \<Rightarrow> string list \<Rightarrow> 'd \<Rightarrow> 'd" where
  "del_members sf names d = fold (\<lambda>name d. sf_del sf d name) names d"

definition stripPipelockSignatureMembers ::
  "(string \<Rightarrow> string) \<Rightarrow> ('d, 'p) sfv \<Rightarrow> string \<Rightarrow> header \<Rightarrow> header" where
  "stripPipelockSignatureMembers u sf headerName h =
     (let values = hdr_values h headerName in
      if values = [] then h
      else case sf_unmarshal sf values of
        None \<Rightarrow> if containsPipelockMember u values then hdr_del headerName h else h
      | Some d \<Rightarrow>
          let doomed = pipelock_names sf d in
          if doomed = [] then h
          else let d' = del_members sf doomed d; h' = hdr_del headerName h in
            if sf_names sf d' = [] then h'
            else (case sf_marshal sf d' of None \<Rightarrow> h' | Some out \<Rightarrow> hdr_set headerName out h'))"

definition StripInbound :: "(string \<Rightarrow> string) \<Rightarrow> ('d, 'p) sfv \<Rightarrow> header \<Rightarrow> header" where
  "StripInbound u sf h =
     stripPipelockSignatureMembers u sf ''Signature''
       (stripPipelockSignatureMembers u sf ''Signature-Input'' (hdr_del HeaderName h))"

section \<open>Round trip\<close>

definition envelope_ok :: "envelope \<Rightarrow> bool" where
  "envelope_ok e \<longleftrightarrow> ev_version e \<noteq> 0 \<and> ev_action e \<noteq> [] \<and> ev_verdict e \<noteq> [] \<and> ev_receiptID e \<noteq> [] \<and>
     ev_timestamp e \<noteq> 0 \<and> (ev_actorAuth e \<in> set actor_auths \<or> ev_actorAuth e = []) \<and> 0 \<le> ev_hop e"

lemma check_required_iff: "check_required e = Inr e' \<longleftrightarrow> e' = e \<and> (envelope_ok e \<or> ev_hop e < 0 \<and> envelope_ok (e\<lparr>ev_hop := 0\<rparr>))"
  by (auto simp: check_required_def envelope_ok_def split: if_splits)

lemma parsed_envelope_ok: "Parse sf s = Inr e \<Longrightarrow> envelope_ok e"
  by (auto simp: Parse_def parse_hop_def envelope_fields_def check_required_def envelope_ok_def Let_def
      split: option.splits sum.splits member.splits bare.splits if_splits)

lemma get_add_if:
  assumes "sfv_ok sf"
  shows "sf_get sf (if c then sf_add sf d k m else d) k' = (if c \<and> k' = k then Some m else sf_get sf d k')"
  by (simp add: sfv_okD(4) [OF assms])

lemma envelope_dict_fields:
  assumes ok: "sfv_ok sf"
  shows "envelope_fields sf (envelope_dict sf e) (ev_hop e) = e"
    and "parse_hop sf (envelope_dict sf e) = Inr (max 0 (ev_hop e))"
proof -
  let ?f = "item_of sf (envelope_dict sf e)"
  note get = item_of_def envelope_dict_def Let_def get_add_if [OF ok] sfv_okD(3,4) [OF ok] sf_newItem_def
  have "?f ''v'' = Some (SInt (ev_version e))" "?f ''act'' = Some (SStr (ev_action e))"
    "?f ''vd'' = Some (SStr (ev_verdict e))" "?f ''se'' = Some (SStr (ev_sideEffect e))"
    "?f ''actor'' = Some (SStr (ev_actor e))" "?f ''aa'' = Some (SStr (ev_actorAuth e))"
    "?f ''ph'' = Some (SBytes (ev_policyHash e))" "?f ''rid'' = Some (SStr (ev_receiptID e))"
    "?f ''ts'' = Some (SInt (ev_timestamp e))"
    by (simp_all add: get)
  moreover have "str_of (?f ''taint'') = ev_sessionTaint e" "str_of (?f ''task'') = ev_taskID e"
    "str_of (?f ''auth'') = ev_authorityKind e" "str_of (?f ''authr'') = ev_authorityRef e"
    "bool_of (?f ''reauth'') = ev_requiresReauth e"
    by (simp_all add: get str_of_def bool_of_def)
  ultimately show "envelope_fields sf (envelope_dict sf e) (ev_hop e) = e"
    by (simp add: envelope_fields_def int_of_def str_of_def bytes_of_def)
  show "parse_hop sf (envelope_dict sf e) = Inr (max 0 (ev_hop e))"
    by (simp add: get parse_hop_def)
qed

lemma parse_unchanged_members:
  assumes "sf_get sf d' = sf_get sf d"
  shows "parse_hop sf d' = parse_hop sf d" "envelope_fields sf d' hop = envelope_fields sf d hop"
  by (simp_all add: assms parse_hop_def envelope_fields_def item_of_def [abs_def])

lemma roundtrip:
  assumes ok: "sfv_ok sf" and e: "envelope_ok e" and ser: "Serialize sf e = Inr s"
  shows "Parse sf s = Inr e"
proof -
  from ser have "sf_marshal sf (envelope_dict sf e) = Some s"
    by (auto simp: Serialize_def split: if_splits option.splits)
  from sfv_okD(7) [OF ok this] obtain d where d: "sf_unmarshal sf [s] = Some d"
    "sf_get sf d = sf_get sf (envelope_dict sf e)" by blast
  have "max 0 (ev_hop e) = ev_hop e" using e by (simp add: envelope_ok_def)
  then show ?thesis
    using d(1) e parse_unchanged_members [OF d(2)] envelope_dict_fields [OF ok, of e]
    by (simp add: Parse_def check_required_iff)
qed

text \<open>
  A valid envelope that serializes is parsed back as it was, optional fields and the redirect
  counter included.
\<close>

lemma envelope_roundtrip:
  assumes "sfv_ok sf" "envelope_ok e" "Serialize sf e = Inr s"
  shows "Parse sf s = Inr e"
  using assms by (rule roundtrip)

text \<open>A structured-field library over a fixed table of texts, for concrete runs.\<close>

type_synonym plain_params = "(string \<times> bare) list"
type_synonym plain_dict = "(string \<times> plain_params member) list"

definition table_sfv :: "(string \<times> plain_dict) list \<Rightarrow> (plain_dict, plain_params) sfv" where
  "table_sfv tbl = \<lparr>sf_newParams = [], sf_paramAdd = (\<lambda>p k b. AList.update k b p), sf_paramGet = map_of,
     sf_newDict = [], sf_add = (\<lambda>d k m. AList.update k m d), sf_get = map_of,
     sf_del = (\<lambda>d k. AList.delete k d), sf_names = map fst,
     sf_marshal = map_of (map (\<lambda>(s, d). (d, s)) tbl), sf_marshalList = (\<lambda>l. Some ''params''),
     sf_unmarshal = (\<lambda>vs. case vs of [v] \<Rightarrow> map_of tbl v | _ \<Rightarrow> None)\<rparr>"

lemma map_of_swap_table:
  "distinct (map fst tbl) \<Longrightarrow> map_of (map (\<lambda>(s, d). (d, s)) tbl) d = Some s \<Longrightarrow> map_of tbl s = Some d"
  by (drule map_of_SomeD) auto

lemma table_sfv_simps [simp]:
  "sf_newParams (table_sfv tbl) = []" "sf_paramAdd (table_sfv tbl) p k b = AList.update k b p"
  "sf_paramGet (table_sfv tbl) = map_of" "sf_newDict (table_sfv tbl) = []"
  "sf_add (table_sfv tbl) d k m = AList.update k m d" "sf_get (table_sfv tbl) = map_of"
  "sf_del (table_sfv tbl) d k = AList.delete k d" "sf_names (table_sfv tbl) d = map fst d"
  "sf_marshal (table_sfv tbl) = map_of (map (\<lambda>(s, d). (d, s)) tbl)"
  "sf_unmarshal (table_sfv tbl) [v] = map_of tbl v"
  by (simp_all add: table_sfv_def)

lemma table_sfv_ok: "distinct (map fst tbl) \<Longrightarrow> sfv_ok (table_sfv tbl)"
  unfolding sfv_ok_def
  by (intro conjI allI impI) (simp_all add: map_of_delete map_of_update map_of_eq_None_iff map_of_swap_table)

definition demo_envelope :: envelope where
  "demo_envelope = \<lparr>ev_version = 1, ev_action = ''fetch'', ev_verdict = ''allow'', ev_sideEffect = ''read'',
     ev_actor = ''spiffe://example.org/agent/bot'', ev_actorAuth = ''bound'', ev_policyHash = ''hash'',
     ev_receiptID = ''r1'', ev_timestamp = 1700000000, ev_sessionTaint = [], ev_taskID = ''t'',
     ev_authorityKind = [], ev_authorityRef = [], ev_requiresReauth = True, ev_hop = 0\<rparr>"

definition demo_env_sfv :: "(plain_dict, plain_params) sfv" where
  "demo_env_sfv = table_sfv [(''e'', envelope_dict (table_sfv []) demo_envelope)]"

lemma envelope_roundtrip_witness:
  "Serialize demo_env_sfv demo_envelope = Inr ''e'' \<and> Parse demo_env_sfv ''e'' = Inr demo_envelope"
proof -
  have ser: "Serialize demo_env_sfv demo_envelope = Inr ''e''" by code_simp
  have ok: "sfv_ok demo_env_sfv" unfolding demo_env_sfv_def by (rule table_sfv_ok) simp
  have e: "envelope_ok demo_envelope" by (simp add: envelope_ok_def demo_envelope_def actor_auths_def)
  from ser envelope_roundtrip [OF ok e ser] show ?thesis by blast
qed
section \<open>No forged envelope survives\<close>

lemma hdr_simps [simp]:
  "hdr_values (hdr_set n v h) n = [v]" "hdr_values (hdr_del n h) n = []"
  "CanonicalMIMEHeaderKey m \<noteq> CanonicalMIMEHeaderKey n \<Longrightarrow> hdr_values (hdr_set n v h) m = hdr_values h m"
  "CanonicalMIMEHeaderKey m \<noteq> CanonicalMIMEHeaderKey n \<Longrightarrow> hdr_values (hdr_del n h) m = hdr_values h m"
  by (simp_all add: hdr_values_def hdr_set_def hdr_del_def)

lemma del_members_get:
  assumes "sfv_ok sf"
  shows "sf_get sf (del_members sf names d) k = (if k \<in> set names then None else sf_get sf d k)"
  unfolding del_members_def by (induction names arbitrary: d) (auto simp: sfv_okD(5) [OF assms])

lemma pipelock_names_iff:
  "sfv_ok sf \<Longrightarrow> k \<in> set (pipelock_names sf d) \<longleftrightarrow> sf_get sf d k \<noteq> None \<and> has_prefix k ''pipelock''"
  by (auto simp: pipelock_names_def sfv_okD(6))

text \<open>What the code leaves of one header: nothing, the members of other parties, or text that is not
  a dictionary and does not mention pipelock.\<close>

definition stripped :: "(string \<Rightarrow> string) \<Rightarrow> ('d, 'p) sfv \<Rightarrow> string list \<Rightarrow> string list \<Rightarrow> bool" where
  "stripped u sf before after \<longleftrightarrow> after = [] \<or>
     (case sf_unmarshal sf after of
        None \<Rightarrow> after = before \<and> \<not> containsPipelockMember u after
      | Some d' \<Rightarrow> (case sf_unmarshal sf before of None \<Rightarrow> False
          | Some d \<Rightarrow> sf_get sf d' = (\<lambda>k. if has_prefix k ''pipelock'' then None else sf_get sf d k)))"

lemma strip_one:
  fixes u and sf :: "('d, 'p) sfv" and n h
  assumes ok: "sfv_ok sf"
  defines "h' \<equiv> stripPipelockSignatureMembers u sf n h"
  shows "stripped u sf (hdr_values h n) (hdr_values h' n)"
    and "CanonicalMIMEHeaderKey m \<noteq> CanonicalMIMEHeaderKey n \<Longrightarrow> hdr_values h' m = hdr_values h m"
proof -
  show "hdr_values h' m = hdr_values h m" if "CanonicalMIMEHeaderKey m \<noteq> CanonicalMIMEHeaderKey n"
    using that by (simp add: h'_def stripPipelockSignatureMembers_def Let_def split: option.splits)
  show "stripped u sf (hdr_values h n) (hdr_values h' n)"
  proof (cases "hdr_values h n = [] \<or> hdr_values h' n = []")
    case True
    then show ?thesis by (auto simp: stripped_def h'_def stripPipelockSignatureMembers_def)
  next
    case False
    show ?thesis
    proof (cases "sf_unmarshal sf (hdr_values h n)")
      case None
      with False show ?thesis
        by (auto simp: stripped_def h'_def stripPipelockSignatureMembers_def Let_def split: if_splits)
    next
      case (Some d)
      let ?d' = "del_members sf (pipelock_names sf d) d"
      have get: "sf_get sf ?d' = (\<lambda>k. if has_prefix k ''pipelock'' then None else sf_get sf d k)"
        by (rule ext) (auto simp: del_members_get [OF ok] pipelock_names_iff [OF ok])
      show ?thesis
      proof (cases "pipelock_names sf d = []")
        case True
        have "sf_get sf d = (\<lambda>k. if has_prefix k ''pipelock'' then None else sf_get sf d k)"
          using pipelock_names_iff [OF ok, of _ d] True by (intro ext) (metis empty_iff empty_set)
        with True Some False show ?thesis
          by (simp add: stripped_def h'_def stripPipelockSignatureMembers_def Let_def)
      next
        case nonempty: False
        with Some False obtain out where out: "sf_marshal sf ?d' = Some out" "hdr_values h' n = [out]"
          by (auto simp: h'_def stripPipelockSignatureMembers_def Let_def split: if_splits option.splits)
        from sfv_okD(7) [OF ok out(1)] get Some out(2) show ?thesis by (auto simp: stripped_def)
      qed
    qed
  qed
qed

text \<open>
  C38. After an inbound request is stripped it carries no mediation envelope; of each signature
  header exactly the members of other parties are left, or text that is no dictionary and does not
  mention pipelock, or nothing; every other header is as it came.
\<close>

theorem strip_removes_envelope:
  assumes "sfv_ok sf"
  shows "hdr_values (StripInbound u sf h) ''Pipelock-Mediation'' = [] \<and>
    stripped u sf (hdr_values h ''Signature-Input'') (hdr_values (StripInbound u sf h) ''Signature-Input'') \<and>
    stripped u sf (hdr_values h ''Signature'') (hdr_values (StripInbound u sf h) ''Signature'') \<and>
    (CanonicalMIMEHeaderKey n \<notin> {''Pipelock-Mediation'', ''Signature-Input'', ''Signature''} \<longrightarrow>
      hdr_values (StripInbound u sf h) n = hdr_values h n)"
proof -
  let ?h1 = "hdr_del ''Pipelock-Mediation'' h"
  let ?h2 = "stripPipelockSignatureMembers u sf ''Signature-Input'' ?h1"
  have c: "CanonicalMIMEHeaderKey ''Pipelock-Mediation'' = ''Pipelock-Mediation''"
    "CanonicalMIMEHeaderKey ''Signature-Input'' = ''Signature-Input''"
    "CanonicalMIMEHeaderKey ''Signature'' = ''Signature''" by code_simp+
  note one = strip_one [OF assms, where u = u and n = "''Signature-Input''" and h = ?h1]
    strip_one [OF assms, where u = u and n = "''Signature''" and h = ?h2]
  have v: "hdr_values ?h1 ''Signature-Input'' = hdr_values h ''Signature-Input''"
    "hdr_values ?h2 ''Signature'' = hdr_values h ''Signature''"
    using one(2) [of "''Signature''"] by (simp_all add: c)
  show ?thesis unfolding StripInbound_def
    using one(1,3) one(2,4) [of n] one(2,4) [of "''Pipelock-Mediation''"] one(4) [of "''Signature-Input''"]
    by (auto simp: c v)
qed
definition demo_member :: "plain_params member" where
  "demo_member = MInner \<lparr>il_items = [], il_params = [(''tag'', SStr ''web-bot-auth'')]\<rparr>"

definition demo_strip_sfv :: "(plain_dict, plain_params) sfv" where
  "demo_strip_sfv = table_sfv [(''both'', [(''pipelock1'', demo_member), (''sig1'', demo_member)]), (''one'', [(''sig1'', demo_member)])]"

definition demo_header :: header where
  "demo_header = hdr_set ''Pipelock-Mediation'' ''forged'' (hdr_set ''Signature-Input'' ''both'' (\<lambda>_. []))"

theorem strip_removes_envelope_witness:
  "hdr_values (StripInbound id demo_strip_sfv demo_header) ''Signature-Input'' = [''one''] \<and>
   hdr_values (StripInbound id demo_strip_sfv demo_header) ''Pipelock-Mediation'' = []"
proof -
  have ok: "sfv_ok demo_strip_sfv" unfolding demo_strip_sfv_def by (rule table_sfv_ok) simp
  have "hdr_values (StripInbound id demo_strip_sfv demo_header) ''Signature-Input'' = [''one'']" by code_simp
  with strip_removes_envelope [OF ok, of id demo_header] show ?thesis by blast
qed

end
