(* ===== verification/EnvelopeReplay.thy ===== *)
theory EnvelopeReplay
  imports Interfaces
begin

text \<open>
  The nonce cache of inbound envelope verification (\<^verbatim>\<open>internal/envelope/replay.go\<close>). Times are wall
  clock readings in nanoseconds from the Unix epoch; \<open>None\<close> is the nil cache, which accepts
  everything. The theorem is the contract the verifier relies on: a nonce that was stored until its
  signature expires is not accepted again, whatever other nonces arrive in between, because a full
  cache refuses new nonces instead of evicting old ones.
\<close>

record replay_cache =
  rc_entries :: "(string \<times> go_time) list"
  rc_window :: duration
  rc_max :: int

datatype replay_error = NonceRequired | SignatureExpired | ReplayDetected | ReplayCacheCapacity

definition zero_time :: go_time where
  "zero_time = - 62135596800000000000"

definition newReplayCache :: "duration \<Rightarrow> int \<Rightarrow> replay_cache" where
  "newReplayCache window maxEntries =
     \<lparr>rc_entries = [], rc_window = (if window \<le> 0 then 300000000000 else window),
      rc_max = (if maxEntries \<le> 0 then 10000 else maxEntries)\<rparr>"

definition CheckAndStoreWithSkew ::
  "go_time \<Rightarrow> string \<Rightarrow> go_time \<Rightarrow> duration \<Rightarrow> replay_cache option \<Rightarrow> replay_error option \<times> replay_cache option" where
  "CheckAndStoreWithSkew now nonce expires0 skew0 cache =
     (case cache of None \<Rightarrow> (None, None)
      | Some c \<Rightarrow>
          if nonce = [] then (Some NonceRequired, cache)
          else
            let skew = (if skew0 < 0 then 0 else skew0);
                expires = (if expires0 = zero_time then now + rc_window c else expires0) in
            if \<not> now - skew < expires then (Some SignatureExpired, cache)
            else
              let storedUntil = min (expires + skew) (now + rc_window c + skew);
                  live = filter (\<lambda>(_, exp). now < exp) (rc_entries c) in
              if map_of live nonce \<noteq> None then (Some ReplayDetected, Some (c\<lparr>rc_entries := live\<rparr>))
              else if int (length live) \<ge> rc_max c then (Some ReplayCacheCapacity, Some (c\<lparr>rc_entries := live\<rparr>))
              else (None, Some (c\<lparr>rc_entries := AList.update nonce storedUntil live\<rparr>)))"

definition CheckAndStore ::
  "go_time \<Rightarrow> string \<Rightarrow> go_time \<Rightarrow> replay_cache option \<Rightarrow> replay_error option \<times> replay_cache option" where
  "CheckAndStore now nonce expires cache = CheckAndStoreWithSkew now nonce expires 0 cache"

section \<open>Runs\<close>

record replay_call =
  rp_now :: go_time
  rp_nonce :: string
  rp_expires :: go_time
  rp_skew :: duration

definition replay_step :: "replay_call \<Rightarrow> replay_cache option \<Rightarrow> replay_cache option" where
  "replay_step x cache = snd (CheckAndStoreWithSkew (rp_now x) (rp_nonce x) (rp_expires x) (rp_skew x) cache)"

text \<open>The cache is a map, stays within its capacity and keeps its window.\<close>

definition cache_ok :: "duration \<Rightarrow> int \<Rightarrow> replay_cache option \<Rightarrow> bool" where
  "cache_ok w n cache \<longleftrightarrow> (case cache of None \<Rightarrow> False
     | Some c \<Rightarrow> distinct (map fst (rc_entries c)) \<and> int (length (rc_entries c)) \<le> n \<and>
         rc_window c = w \<and> rc_max c = n)"

definition stored :: "string \<Rightarrow> go_time \<Rightarrow> replay_cache option \<Rightarrow> bool" where
  "stored n d cache \<longleftrightarrow> (case cache of None \<Rightarrow> False
     | Some c \<Rightarrow> distinct (map fst (rc_entries c)) \<and> map_of (rc_entries c) n = Some d)"

lemma map_of_live:
  "distinct (map fst es) \<Longrightarrow> map_of (filter (\<lambda>(_, exp). t < exp) es) n = (case map_of es n of Some d \<Rightarrow> if t < d then Some d else None | None \<Rightarrow> None)"
  by (induction es) (auto simp: map_of_eq_None_iff split: option.splits)

lemma distinct_live: "distinct (map fst es) \<Longrightarrow> distinct (map fst (filter P es))"
  by (induction es) auto

abbreviation live_at :: "go_time \<Rightarrow> replay_cache \<Rightarrow> (string \<times> go_time) list" where
  "live_at t c \<equiv> filter (\<lambda>(_, exp). t < exp) (rc_entries c)"

text \<open>The four ways a call leaves the cache.\<close>

lemma check_cases:
  obtains (same) e where "CheckAndStoreWithSkew t n ex sk (Some c) = (Some e, Some c)"
      "n = [] \<or> ex \<noteq> zero_time \<and> ex + max 0 sk \<le> t \<or> ex = zero_time"
      "n \<noteq> [] \<longrightarrow> e = SignatureExpired"
  | (purged) e where "CheckAndStoreWithSkew t n ex sk (Some c) = (Some e, Some (c\<lparr>rc_entries := live_at t c\<rparr>))"
      "e = ReplayDetected \<longleftrightarrow> map_of (live_at t c) n \<noteq> None"
  | (accepted) d where
      "CheckAndStoreWithSkew t n ex sk (Some c) = (None, Some (c\<lparr>rc_entries := AList.update n d (live_at t c)\<rparr>))"
      "n \<noteq> []" "map_of (live_at t c) n = None" "int (length (live_at t c)) < rc_max c"
      "ex \<noteq> zero_time \<longrightarrow> d = min ex (t + rc_window c) + max 0 sk"
proof -
  define sk' where "sk' = (if sk < 0 then 0 else sk)"
  define ex' where "ex' = (if ex = zero_time then t + rc_window c else ex)"
  have eq: "CheckAndStoreWithSkew t n ex sk (Some c) =
      (if n = [] then (Some NonceRequired, Some c)
       else if \<not> t - sk' < ex' then (Some SignatureExpired, Some c)
       else if map_of (live_at t c) n \<noteq> None then (Some ReplayDetected, Some (c\<lparr>rc_entries := live_at t c\<rparr>))
       else if int (length (live_at t c)) \<ge> rc_max c then (Some ReplayCacheCapacity, Some (c\<lparr>rc_entries := live_at t c\<rparr>))
       else (None, Some (c\<lparr>rc_entries := AList.update n (min (ex' + sk') (t + rc_window c + sk')) (live_at t c)\<rparr>)))"
    by (simp add: CheckAndStoreWithSkew_def Let_def sk'_def ex'_def)
  have sk': "sk' = max 0 sk" by (simp add: sk'_def)
  have ex': "ex' = ex \<or> ex = zero_time" by (simp add: ex'_def)
  consider "n = []" | "n \<noteq> []" "\<not> t - sk' < ex'" | "n \<noteq> []" "t - sk' < ex'" "map_of (live_at t c) n \<noteq> None"
    | "n \<noteq> []" "t - sk' < ex'" "map_of (live_at t c) n = None" "int (length (live_at t c)) \<ge> rc_max c"
    | "n \<noteq> []" "t - sk' < ex'" "map_of (live_at t c) n = None" "int (length (live_at t c)) < rc_max c"
    by linarith
  then show thesis
  proof cases
    case 1 then show ?thesis by (intro same [of NonceRequired]) (simp_all add: CheckAndStoreWithSkew_def)
  next
    case 2 then show ?thesis using ex' sk' by (intro same [of SignatureExpired]) (auto simp: eq)
  next
    case 3 then show ?thesis by (intro purged [of ReplayDetected]) (simp_all add: eq)
  next
    case 4 then show ?thesis by (intro purged [of ReplayCacheCapacity]) (simp_all add: eq)
  next
    case 5 then show ?thesis using ex'
      by (intro accepted [of "min (ex' + sk') (t + rc_window c + sk')"]) (auto simp: eq min_def sk')
  qed
qed

lemma replay_step_ok [step_inv]: "cache_ok w n cache \<Longrightarrow> cache_ok w n (replay_step x cache)"
proof (cases cache)
  case (Some c)
  assume "cache_ok w n cache"
  with Some have c: "distinct (map fst (rc_entries c))" "int (length (rc_entries c)) \<le> n" "rc_window c = w" "rc_max c = n"
    by (simp_all add: cache_ok_def)
  have len: "int (length (live_at (rp_now x) c)) \<le> n"
    using c(2) length_filter_le [of "\<lambda>(_, exp). rp_now x < exp" "rc_entries c"] by linarith
  show ?thesis
    by (rule check_cases [where t = "rp_now x" and n = "rp_nonce x" and ex = "rp_expires x" and sk = "rp_skew x" and c = c])
      (use c len in \<open>auto simp: Some replay_step_def cache_ok_def distinct_live AList.distinct_update length_update_new\<close>)
qed (simp add: cache_ok_def)

interpretation replay_runs: kept_invariant replay_step "cache_ok w n"
  by unfold_locales (rule replay_step_ok)

lemma stored_step:
  assumes "stored n d cache" "rp_now x < d"
  shows "stored n d (replay_step x cache)"
proof (cases cache)
  case (Some c)
  with assms(1) have c: "distinct (map fst (rc_entries c))" "map_of (rc_entries c) n = Some d"
    by (simp_all add: stored_def)
  then have live: "map_of (live_at (rp_now x) c) n = Some d" using assms(2) by (simp add: map_of_live)
  show ?thesis
    by (rule check_cases [where t = "rp_now x" and n = "rp_nonce x" and ex = "rp_expires x" and sk = "rp_skew x" and c = c])
      (use c live in \<open>auto simp: Some replay_step_def stored_def distinct_live AList.distinct_update map_of_update\<close>)
qed (use assms in \<open>simp add: stored_def\<close>)

interpretation nonce_kept: sticky_flag replay_step "stored n d" "\<lambda>x. d \<le> rp_now x"
  by unfold_locales (simp add: stored_step)

text \<open>
  A nonce accepted with a signature that expires within the window is never accepted again with
  that expiry, by any later call after any sequence of other calls under a clock that does not go
  back: it is refused as a replay or as expired. The cache never holds more nonces than its
  capacity.
\<close>

lemma nonce_once:
  assumes acc: "CheckAndStoreWithSkew t n e skew (Some c) = (None, c1)"
    and c: "cache_ok w cap (Some c)"
    and life: "e \<noteq> zero_time" "e \<le> t + w"
    and clock: "list_all (\<lambda>x. rp_now x \<le> t') calls"
  defines "later \<equiv> fold replay_step calls c1"
  shows "fst (CheckAndStoreWithSkew t' n e skew later) \<in> {Some ReplayDetected, Some SignatureExpired} \<and>
    cache_ok w cap later"
proof -
  define d where "d = e + max 0 skew"
  from c have dist: "distinct (map fst (rc_entries c))" "rc_window c = w" by (simp_all add: cache_ok_def)
  have c1: "n \<noteq> [] \<and> stored n d c1"
    by (rule check_cases [where t = t and n = n and ex = e and sk = skew and c = c])
      (use acc life dist in \<open>auto simp: stored_def d_def AList.distinct_update distinct_live map_of_update min_def\<close>)
  have c1_ok: "cache_ok w cap c1"
    using replay_step_ok [OF c, of "\<lparr>rp_now = t, rp_nonce = n, rp_expires = e, rp_skew = skew\<rparr>"] acc
    by (simp add: replay_step_def)
  then have ok: "cache_ok w cap later" unfolding later_def by (rule replay_runs.run_keeps)
  then obtain l where l: "later = Some l" by (auto simp: cache_ok_def split: option.splits)
  have "fst (CheckAndStoreWithSkew t' n e skew later) \<in> {Some ReplayDetected, Some SignatureExpired}"
  proof (cases "t' < d")
    case True
    then have "stored n d later" unfolding later_def
      using clock by (intro nonce_kept.run_sticks c1 [THEN conjunct2]) (auto simp: list_all_iff)
    with l True have live: "map_of (live_at t' l) n = Some d" by (simp add: stored_def map_of_live)
    show ?thesis unfolding l
      by (rule check_cases [where t = t' and n = n and ex = e and sk = skew and c = l]) (use live c1 in auto)
  next
    case False
    then show ?thesis using c1 life(1) by (simp add: l CheckAndStoreWithSkew_def d_def Let_def max_def split: if_splits)
  qed
  with ok show ?thesis by blast
qed

end
