(* ===== verification/EnvelopeSign.thy ===== *)
theory EnvelopeSign
  imports EnvelopeWire EnvelopeReplay
begin

text \<open>
  The signer of outbound envelopes (\<^verbatim>\<open>internal/envelope/signer.go\<close>): the component list, the signature
  base of RFC 9421, and the merge of the signature into the dictionaries a request already carries.

  Hashing and Ed25519 are the fields of an argument \<open>crypto\<close>; of a signature the code relies on
  verification under the matching public key and on its length (\<open>crypto_ok\<close>). The clock reading
  and the random bytes of the nonce (\<open>None\<close> for a failed read) are arguments of \<open>SignRequest\<close>. A
  request body is an option, \<open>None\<close> for the nil slice. Error messages are left out.
\<close>

record crypto =
  cr_sha256 :: "string \<Rightarrow> string"
  cr_public :: "string \<Rightarrow> string"
  cr_sign :: "string \<Rightarrow> string \<Rightarrow> string"
  cr_verify :: "string \<Rightarrow> string \<Rightarrow> string \<Rightarrow> bool"

definition crypto_ok :: "crypto \<Rightarrow> bool" where
  "crypto_ok cr \<longleftrightarrow> (\<forall>k m. cr_verify cr (cr_public cr k) m (cr_sign cr k m) \<and> length (cr_sign cr k m) = 64)"

text \<open>\<open>signed_by pk\<close> holds the texts signed with the key of \<open>pk\<close>; that the signatures in circulation,
  the set \<open>known\<close>, verify for no other text is the hypothesis \<open>unforgeable\<close>.\<close>

definition unforgeable :: "crypto \<Rightarrow> string set \<Rightarrow> (string \<Rightarrow> string set) \<Rightarrow> bool" where
  "unforgeable cr known signed_by \<longleftrightarrow> (\<forall>pk m s. s \<in> known \<and> cr_verify cr pk m s \<longrightarrow> m \<in> signed_by pk)"

record sig_request =
  sr_method :: string
  sr_host :: string
  sr_url :: "url option"
  sr_tls :: bool
  sr_contentLength :: int
  sr_header :: header

text \<open>The number of bytes of a body; the nil slice has none.\<close>

definition body_bytes :: "string option \<Rightarrow> string" where
  "body_bytes body = (case body of None \<Rightarrow> [] | Some b \<Rightarrow> b)"

section \<open>Components\<close>

definition supportedSignedComponents :: "string list" where
  "supportedSignedComponents = [''@method'', ''@target-uri'', ''@authority'', ''content-digest'', ''pipelock-mediation'']"

datatype sign_error =
  SignerDisabled | NilRequest | EmptyComponents | EmptyComponent | UnsupportedComponent | DuplicateComponent
| BadPrivateKey | EmptyKeyID | NoEffectiveComponents | NonceFailed | NilURL | NoAuthority | NoBodyForDigest
| HeaderNotPresent | ParamsMarshal | BadDictionary | DictMarshal

fun normalize_loop :: "net_lib \<Rightarrow> string list \<Rightarrow> string list \<Rightarrow> sign_error + string list" where
  "normalize_loop nl out [] = Inr out"
| "normalize_loop nl out (raw # rest) =
     (let cmp = lower nl (TrimSpace raw) in
      if cmp = [] then Inl EmptyComponent
      else if cmp \<notin> set supportedSignedComponents then Inl UnsupportedComponent
      else if cmp \<in> set out then Inl DuplicateComponent
      else normalize_loop nl (out @ [cmp]) rest)"

definition NormalizeSignedComponents :: "net_lib \<Rightarrow> string list \<Rightarrow> sign_error + string list" where
  "NormalizeSignedComponents nl components = (if components = [] then Inl EmptyComponents else normalize_loop nl [] components)"

definition containsComponent :: "string list \<Rightarrow> string \<Rightarrow> bool" where
  "containsComponent components name = list_ex (\<lambda>c. c = name) components"

definition contentDigestHeaderValue :: "crypto \<Rightarrow> string \<Rightarrow> string" where
  "contentDigestHeaderValue cr body = ''sha-256=:'' @ EncodeToString (cr_sha256 cr body) @ '':''"

definition targetURIComponent :: "net_lib \<Rightarrow> sig_request \<Rightarrow> sign_error + string" where
  "targetURIComponent nl req =
     (case sr_url req of None \<Rightarrow> Inl NilURL
      | Some u0 \<Rightarrow>
          let u = u0\<lparr>u_fragment := []\<rparr> in
          if u_scheme u \<noteq> [] \<and> u_host u \<noteq> [] then Inr (nl_string nl u)
          else
            let scheme = (if u_scheme u = [] then if sr_tls req then ''https'' else ''http'' else u_scheme u);
                authority = (if sr_host req = [] then u_host u else sr_host req) in
            if authority = [] then Inl NoAuthority
            else let target = (if nl_requestURI nl u = [] then ''/'' else nl_requestURI nl u) in
              Inr (scheme @ ''://'' @ authority @ target))"

definition buildComponentValue ::
  "crypto \<Rightarrow> net_lib \<Rightarrow> sig_request \<Rightarrow> string option \<Rightarrow> string \<Rightarrow> sign_error + string" where
  "buildComponentValue cr nl req body cmp =
     (if cmp = ''@method'' then Inr (sr_method req)
      else if cmp = ''@target-uri'' then targetURIComponent nl req
      else if cmp = ''@authority'' then
        (if sr_host req \<noteq> [] then Inr (lower nl (sr_host req))
         else case sr_url req of Some u \<Rightarrow> if u_host u \<noteq> [] then Inr (lower nl (u_host u)) else Inl NoAuthority
           | None \<Rightarrow> Inl NoAuthority)
      else if cmp = ''content-digest'' then
        (let v = hdr_get (sr_header req) ''Content-Digest'' in
         if v = [] then
           (if body_bytes body = [] then Inl NoBodyForDigest else Inr (contentDigestHeaderValue cr (body_bytes body)))
         else Inr v)
      else if cmp = ''pipelock-mediation'' then
        (let v = hdr_get (sr_header req) cmp in if v = [] then Inl HeaderNotPresent else Inr v)
      else Inl UnsupportedComponent)"

fun component_lines ::
  "crypto \<Rightarrow> net_lib \<Rightarrow> sig_request \<Rightarrow> string option \<Rightarrow> string list \<Rightarrow> sign_error + string" where
  "component_lines cr nl req body [] = Inr []"
| "component_lines cr nl req body (cmp # rest) =
     (case buildComponentValue cr nl req body cmp of Inl e \<Rightarrow> Inl e
      | Inr value \<Rightarrow> (case component_lines cr nl req body rest of Inl e \<Rightarrow> Inl e
          | Inr ls \<Rightarrow> Inr (CHR 0x22 # cmp @ CHR 0x22 # '': '' @ value @ CHR 0x0A # ls)))"

definition buildSignatureBase ::
  "crypto \<Rightarrow> net_lib \<Rightarrow> ('d, 'p) sfv \<Rightarrow> sig_request \<Rightarrow> string option \<Rightarrow> string list \<Rightarrow> 'p inner_list \<Rightarrow> sign_error + string" where
  "buildSignatureBase cr nl sf req body components sigParams =
     (case component_lines cr nl req body components of Inl e \<Rightarrow> Inl e
      | Inr ls \<Rightarrow> (case sf_marshalList sf sigParams of None \<Rightarrow> Inl ParamsMarshal
          | Some serialized \<Rightarrow> Inr (ls @ CHR 0x22 # ''@signature-params'' @ CHR 0x22 # '': '' @ serialized)))"

section \<open>The signer\<close>

record signer =
  sg_privKey :: string
  sg_keyID :: string
  sg_components :: "string list"
  sg_maxBodyBytes :: int
  sg_expires :: duration

text \<open>The fields of the configuration, its clock and random source apart, are those of the signer.\<close>

definition NewSigner :: "net_lib \<Rightarrow> signer \<Rightarrow> sign_error + signer" where
  "NewSigner nl cfg =
     (if length (sg_privKey cfg) \<noteq> 64 then Inl BadPrivateKey
      else if TrimSpace (sg_keyID cfg) = [] then Inl EmptyKeyID
      else case NormalizeSignedComponents nl (sg_components cfg) of Inl e \<Rightarrow> Inl e
      | Inr comps \<Rightarrow> Inr (cfg\<lparr>sg_components := comps,
          sg_expires := (if sg_expires cfg \<le> 0 then 300000000000 else sg_expires cfg)\<rparr>))"

definition KeyID :: "signer option \<Rightarrow> string" where
  "KeyID s = (case s of None \<Rightarrow> [] | Some s \<Rightarrow> sg_keyID s)"

fun effective_loop :: "crypto \<Rightarrow> string option \<Rightarrow> string list \<Rightarrow> header \<Rightarrow> string list \<times> header" where
  "effective_loop cr body [] h = ([], h)"
| "effective_loop cr body (cmp # rest) h =
     (if cmp = ''@method'' \<or> cmp = ''@target-uri'' \<or> cmp = ''@authority''
      then let (out, h') = effective_loop cr body rest h in (cmp # out, h')
      else if cmp = ''content-digest'' then
        (if body_bytes body = [] then effective_loop cr body rest h
         else let (out, h') = effective_loop cr body rest (hdr_set ''Content-Digest'' (contentDigestHeaderValue cr (body_bytes body)) h) in
           (cmp # out, h'))
      else if cmp = ''pipelock-mediation'' then
        (if hdr_get h cmp \<noteq> [] then let (out, h') = effective_loop cr body rest h in (cmp # out, h')
         else effective_loop cr body rest h)
      else effective_loop cr body rest h)"

definition effectiveComponents :: "crypto \<Rightarrow> signer \<Rightarrow> sig_request \<Rightarrow> string option \<Rightarrow> string list \<times> sig_request" where
  "effectiveComponents cr s req body =
     (let (out, h) = effective_loop cr body (sg_components s) (sr_header req) in (out, req\<lparr>sr_header := h\<rparr>))"

definition buildSigParams ::
  "('d, 'p) sfv \<Rightarrow> string list \<Rightarrow> int \<Rightarrow> int \<Rightarrow> string \<Rightarrow> string \<Rightarrow> 'p inner_list" where
  "buildSigParams sf components created expires nonce keyID =
     (let add = (\<lambda>k b p. sf_paramAdd sf p k b) in
      \<lparr>il_items = map (\<lambda>c. sf_newItem sf (SStr c)) components,
       il_params =
         add ''expires'' (SInt expires) (add ''created'' (SInt created) (add ''nonce'' (SStr nonce)
         (add ''tag'' (SStr ''pipelock-mediation'') (add ''alg'' (SStr ''ed25519'') (add ''keyid'' (SStr keyID)
         (sf_newParams sf))))))\<rparr>)"

definition hex_byte :: "char \<Rightarrow> string" where
  "hex_byte c = [digit_char (of_char c div 16), digit_char (of_char c mod 16)]"

definition hex_EncodeToString :: "string \<Rightarrow> string" where
  "hex_EncodeToString s = concat (map hex_byte s)"

definition signatureNonce :: "string option \<Rightarrow> string option" where
  "signatureNonce rand = map_option hex_EncodeToString rand"

definition loadOrNewDict :: "('d, 'p) sfv \<Rightarrow> header \<Rightarrow> string \<Rightarrow> sign_error + 'd" where
  "loadOrNewDict sf h headerName =
     (let values = hdr_values h headerName in
      if values = [] then Inr (sf_newDict sf)
      else case sf_unmarshal sf values of None \<Rightarrow> Inl BadDictionary
        | Some d \<Rightarrow> Inr (del_members sf (pipelock_names sf d) d))"

definition marshalDictToHeader :: "('d, 'p) sfv \<Rightarrow> header \<Rightarrow> string \<Rightarrow> 'd \<Rightarrow> sign_error + header" where
  "marshalDictToHeader sf h headerName d =
     (case sf_marshal sf d of None \<Rightarrow> Inl DictMarshal
      | Some out \<Rightarrow> Inr (hdr_set headerName out (hdr_del headerName h)))"

definition merge_member :: "('d, 'p) sfv \<Rightarrow> header \<Rightarrow> string \<Rightarrow> 'p member \<Rightarrow> sign_error + header" where
  "merge_member sf h headerName m =
     (case loadOrNewDict sf h headerName of Inl e \<Rightarrow> Inl e
      | Inr d \<Rightarrow> marshalDictToHeader sf h headerName (sf_add sf d ''pipelock1'' m))"

definition mergeSignatureInput :: "('d, 'p) sfv \<Rightarrow> header \<Rightarrow> 'p inner_list \<Rightarrow> sign_error + header" where
  "mergeSignatureInput sf h sigParams = merge_member sf h ''Signature-Input'' (MInner sigParams)"

definition mergeSignature :: "('d, 'p) sfv \<Rightarrow> header \<Rightarrow> string \<Rightarrow> sign_error + header" where
  "mergeSignature sf h rawSig = merge_member sf h ''Signature'' (MItem (sf_newItem sf (SBytes rawSig)))"

definition restore_digest :: "string \<Rightarrow> sig_request \<Rightarrow> sig_request" where
  "restore_digest prev req = req\<lparr>sr_header := hdr_set ''Content-Digest'' prev (sr_header req)\<rparr>"

definition SignRequest ::
  "crypto \<Rightarrow> net_lib \<Rightarrow> ('d, 'p) sfv \<Rightarrow> go_time \<Rightarrow> string option \<Rightarrow> signer option \<Rightarrow> sig_request option \<Rightarrow> string option
   \<Rightarrow> sign_error option \<times> sig_request option" where
  "SignRequest cr nl sf now rand signer request body0 =
     (case signer of None \<Rightarrow> (Some SignerDisabled, request)
      | Some s \<Rightarrow> (case request of None \<Rightarrow> (Some NilRequest, None)
      | Some req0 \<Rightarrow>
          let body = (if sg_maxBodyBytes s > 0 \<and> int (length (body_bytes body0)) > sg_maxBodyBytes s then None else body0);
              prevDigest = hdr_get (sr_header req0) ''Content-Digest'';
              (effective, req1) = effectiveComponents cr s req0 body in
          if effective = [] then (Some NoEffectiveComponents, Some (restore_digest prevDigest req1))
          else
            let req2 = (if \<not> containsComponent effective ''content-digest''
                  then req1\<lparr>sr_header := hdr_del ''Content-Digest'' (sr_header req1)\<rparr> else req1);
                created = now div 1000000000 in
            (case signatureNonce rand of None \<Rightarrow> (Some NonceFailed, Some (restore_digest prevDigest req2))
             | Some nonce \<Rightarrow>
                let sigParams = buildSigParams sf effective created (created + sg_expires s div 1000000000) nonce (sg_keyID s) in
                (case buildSignatureBase cr nl sf req2 body effective sigParams of
                   Inl e \<Rightarrow> (Some e, Some (restore_digest prevDigest req2))
                 | Inr base \<Rightarrow>
                    let rawSig = cr_sign cr (sg_privKey s) base in
                    (case mergeSignatureInput sf (sr_header req2) sigParams of
                       Inl e \<Rightarrow> (Some e, Some (restore_digest prevDigest req2))
                     | Inr h1 \<Rightarrow> (case mergeSignature sf h1 rawSig of
                         Inl e \<Rightarrow> (Some e, Some (restore_digest prevDigest (req2\<lparr>sr_header := hdr_del ''Signature-Input'' h1\<rparr>)))
                       | Inr h2 \<Rightarrow> (None, Some (req2\<lparr>sr_header := h2\<rparr>))))))))"

end
