(* ===== verification/EnvelopeVerify.thy ===== *)
theory EnvelopeVerify
  imports EnvelopeSign
begin

text \<open>
  Verification of inbound envelopes (\<^verbatim>\<open>internal/envelope/verify.go\<close>): trusted keys and their trust
  domains, the time checks, the body digest, the signature and the replay cache.

  The theorems: whatever is accepted was signed by a trusted key over the components it declares;
  what the signer of this package signs is accepted; and no accepted request is accepted again when
  the cap on signature lifetimes leaves room for the clock skew, which the cap the proxy configures
  does not.
\<close>

section \<open>Configuration\<close>

record trusted_key =
  tk_publicKey :: string
  tk_trustDomains :: "string list"

record verifier =
  vf_keys :: "(string \<times> trusted_key) list"
  vf_replayCache :: "replay_cache option"
  vf_skew :: duration
  vf_actorFormat :: string
  vf_maxSignatureLifetime :: duration

record verifier_config =
  vc_trustedKeys :: "(string \<times> string \<times> string list) list"
  vc_replayCache :: "replay_cache option"
  vc_skew :: duration
  vc_actorFormat :: string
  vc_maxSignatureLifetime :: duration

datatype config_error = NoTrustedKeys | EmptyTrustedKeyID | BadPublicKeyLength | DuplicateKeyID | EmptyDomainEntry | UnknownActorFormat

definition allowsTrustDomain :: "net_lib \<Rightarrow> trusted_key \<Rightarrow> string \<Rightarrow> bool" where
  "allowsTrustDomain nl k d = (if tk_trustDomains k = [] then True else lower nl d \<in> set (tk_trustDomains k))"

definition pinsTrustDomain :: "trusted_key \<Rightarrow> bool" where
  "pinsTrustDomain k = (tk_trustDomains k \<noteq> [])"

fun load_domains :: "net_lib \<Rightarrow> string list \<Rightarrow> config_error + string list" where
  "load_domains nl [] = Inr []"
| "load_domains nl (d # ds) =
     (let normalized = lower nl (TrimSpace d) in
      if normalized = [] then Inl EmptyDomainEntry
      else case load_domains nl ds of Inl e \<Rightarrow> Inl e | Inr r \<Rightarrow> Inr (normalized # r))"

fun load_keys :: "net_lib \<Rightarrow> (string \<times> trusted_key) list \<Rightarrow> (string \<times> string \<times> string list) list \<Rightarrow> config_error + (string \<times> trusted_key) list" where
  "load_keys nl keys [] = Inr keys"
| "load_keys nl keys ((kid, pub, doms) # rest) =
     (let keyID = TrimSpace kid in
      if keyID = [] then Inl EmptyTrustedKeyID
      else if length pub \<noteq> 32 then Inl BadPublicKeyLength
      else if map_of keys keyID \<noteq> None then Inl DuplicateKeyID
      else case load_domains nl doms of Inl e \<Rightarrow> Inl e
        | Inr ds \<Rightarrow> load_keys nl (AList.update keyID \<lparr>tk_publicKey = pub, tk_trustDomains = ds\<rparr> keys) rest)"

definition NewVerifier :: "net_lib \<Rightarrow> verifier_config \<Rightarrow> config_error + verifier" where
  "NewVerifier nl cfg =
     (if vc_trustedKeys cfg = [] then Inl NoTrustedKeys
      else case load_keys nl [] (vc_trustedKeys cfg) of Inl e \<Rightarrow> Inl e
      | Inr keys \<Rightarrow>
          let fmt = lower nl (TrimSpace (vc_actorFormat cfg)) in
          if fmt = [] \<or> fmt = ''spiffe'' \<or> fmt = ''legacy'' then
            Inr \<lparr>vf_keys = keys, vf_replayCache = vc_replayCache cfg, vf_skew = vc_skew cfg,
              vf_actorFormat = (if fmt = [] then ''spiffe'' else fmt), vf_maxSignatureLifetime = vc_maxSignatureLifetime cfg\<rparr>
          else Inl UnknownActorFormat)"

text \<open>The verifier the proxy builds from its configuration (\<^verbatim>\<open>buildInboundEnvelopeVerifier\<close>): the
  lifetime cap is the replay window plus the skew. Key and duration parsing precede it.\<close>

definition buildInboundEnvelopeVerifier ::
  "net_lib \<Rightarrow> (string \<times> string \<times> string list) list \<Rightarrow> duration \<Rightarrow> int \<Rightarrow> int \<Rightarrow> string \<Rightarrow> config_error + verifier" where
  "buildInboundEnvelopeVerifier nl keys window maxEntries skewSeconds fmt =
     NewVerifier nl \<lparr>vc_trustedKeys = keys, vc_replayCache = Some (newReplayCache window maxEntries),
       vc_skew = wrap64 (skewSeconds * 1000000000), vc_actorFormat = fmt,
       vc_maxSignatureLifetime = wrap64 (window + wrap64 (skewSeconds * 1000000000))\<rparr>"

section \<open>Checks\<close>

datatype failure_code = FReplay | FReplayCapacity | FExpired | FNotTrusted | FMissing | FDigest | FSignature | FParse | FFailed

definition parseActor :: "net_lib \<Rightarrow> verifier \<Rightarrow> string \<Rightarrow> actor_error + parsed_actor" where
  "parseActor nl v raw = (if vf_actorFormat v = ''legacy'' then ParseActor nl raw else ParseActorStrict nl raw)"

text \<open>\<^verbatim>\<open>Time.Sub\<close> saturates at the range of a duration.\<close>

definition time_Sub :: "go_time \<Rightarrow> go_time \<Rightarrow> duration" where
  "time_Sub a b = max (- (2 ^ 63)) (min (2 ^ 63 - 1) (a - b))"

definition validateTime :: "go_time \<Rightarrow> verifier \<Rightarrow> int \<Rightarrow> int \<Rightarrow> failure_code + unit" where
  "validateTime now v created expires =
     (let createdAt = created * 1000000000; expiresAt = expires * 1000000000 in
      if vf_skew v > 0 \<and> createdAt > now + vf_skew v then Inl FExpired
      else if \<not> now - vf_skew v < expiresAt then Inl FExpired
      else if \<not> createdAt < expiresAt then Inl FExpired
      else if vf_maxSignatureLifetime v > 0 \<and> time_Sub expiresAt createdAt > vf_maxSignatureLifetime v then Inl FExpired
      else Inr ())"

definition paramString :: "('d, 'p) sfv \<Rightarrow> 'p inner_list \<Rightarrow> string \<Rightarrow> string option" where
  "paramString sf inner name =
     (case sf_paramGet sf (il_params inner) name of Some (SStr s) \<Rightarrow> if TrimSpace s = [] then None else Some s | _ \<Rightarrow> None)"

definition paramInt64 :: "('d, 'p) sfv \<Rightarrow> 'p inner_list \<Rightarrow> string \<Rightarrow> int option" where
  "paramInt64 sf inner name = (case sf_paramGet sf (il_params inner) name of Some (SInt n) \<Rightarrow> Some n | _ \<Rightarrow> None)"

fun find_signature ::
  "('d, 'p) sfv \<Rightarrow> 'd \<Rightarrow> 'd \<Rightarrow> string list \<Rightarrow> ('p inner_list \<times> string) option" where
  "find_signature sf input sigs [] = None"
| "find_signature sf input sigs (name # names) =
     (if \<not> has_prefix name ''pipelock'' then find_signature sf input sigs names
      else case sf_get sf input name of
        Some (MInner inner) \<Rightarrow>
          if paramString sf inner ''tag'' \<noteq> Some ''pipelock-mediation'' then find_signature sf input sigs names
          else (case sf_get sf sigs name of
              Some (MItem it) \<Rightarrow> (case it_value it of SBytes b \<Rightarrow> if length b = 64 then Some (inner, b) else None | _ \<Rightarrow> None)
            | _ \<Rightarrow> None)
      | _ \<Rightarrow> find_signature sf input sigs names)"

definition mediationSignature :: "('d, 'p) sfv \<Rightarrow> header \<Rightarrow> ('p inner_list \<times> string) option" where
  "mediationSignature sf h =
     (case sf_unmarshal sf (hdr_values h ''Signature-Input'') of None \<Rightarrow> None
      | Some input \<Rightarrow> (case sf_unmarshal sf (hdr_values h ''Signature'') of None \<Rightarrow> None
          | Some sigs \<Rightarrow> find_signature sf input sigs (sf_names sf input)))"

fun component_names :: "net_lib \<Rightarrow> 'p sf_item list \<Rightarrow> string list option" where
  "component_names nl [] = Some []"
| "component_names nl (it # its) =
     (case it_value it of
        SStr value \<Rightarrow>
          let normalized = lower nl (TrimSpace value) in
          if normalized \<notin> set supportedSignedComponents then None else map_option ((#) normalized) (component_names nl its)
      | _ \<Rightarrow> None)"

definition innerComponents :: "net_lib \<Rightarrow> 'p inner_list \<Rightarrow> string list option" where
  "innerComponents nl inner =
     (case component_names nl (il_items inner) of None \<Rightarrow> None | Some out \<Rightarrow> if out = [] then None else Some out)"

definition verifyContentDigest :: "crypto \<Rightarrow> string \<Rightarrow> string \<Rightarrow> bool" where
  "verifyContentDigest cr hdr body = (hdr \<noteq> [] \<and> hdr = ''sha-256=:'' @ EncodeToString (cr_sha256 cr body) @ '':'')"

definition requestHasSignedBody :: "sig_request \<Rightarrow> string option \<Rightarrow> bool" where
  "requestHasSignedBody req body = (body_bytes body \<noteq> [] \<or> sr_contentLength req > 0)"

section \<open>VerifyRequest\<close>

definition check_trust_domain :: "net_lib \<Rightarrow> trusted_key \<Rightarrow> parsed_actor \<Rightarrow> failure_code + unit" where
  "check_trust_domain nl tk actor =
     guard (pinsTrustDomain tk \<longrightarrow> pa_isSPIFFE actor \<and> allowsTrustDomain nl tk (pa_trustDomain actor)) FNotTrusted"

definition check_digest ::
  "crypto \<Rightarrow> sig_request \<Rightarrow> string option \<Rightarrow> string list \<Rightarrow> failure_code + unit" where
  "check_digest cr req body components =
     (if containsComponent components ''content-digest'' then
        (case body of None \<Rightarrow> Inl FDigest
         | Some b \<Rightarrow> guard (verifyContentDigest cr (hdr_get (sr_header req) ''Content-Digest'') b) FDigest)
      else guard (\<not> requestHasSignedBody req body) FDigest)"

text \<open>Everything before the replay cache; on success the envelope, the nonce and the expiry.\<close>

definition verify_checks ::
  "crypto \<Rightarrow> net_lib \<Rightarrow> ('d, 'p) sfv \<Rightarrow> go_time \<Rightarrow> verifier \<Rightarrow> sig_request \<Rightarrow> string option
   \<Rightarrow> failure_code + envelope \<times> string \<times> int" where
  "verify_checks cr nl sf now v req body =
     and_then (guard (hdr_get (sr_header req) HeaderName \<noteq> []) FMissing) (\<lambda>_.
     and_then (case Parse sf (hdr_get (sr_header req) HeaderName) of Inl _ \<Rightarrow> Inl FParse | Inr e \<Rightarrow> Inr e) (\<lambda>env.
     and_then (case parseActor nl v (ev_actor env) of Inl _ \<Rightarrow> Inl FParse | Inr a \<Rightarrow> Inr a) (\<lambda>actor.
     and_then (require FParse (mediationSignature sf (sr_header req))) (\<lambda>(inner, sigBytes).
     and_then (require FParse (paramString sf inner ''keyid'')) (\<lambda>keyID.
     and_then (require FNotTrusted (map_of (vf_keys v) keyID)) (\<lambda>tk.
     and_then (check_trust_domain nl tk actor) (\<lambda>_.
     and_then (require FParse (paramString sf inner ''alg'')) (\<lambda>alg.
     and_then (guard (alg = ''ed25519'') FSignature) (\<lambda>_.
     and_then (require FParse (paramString sf inner ''tag'')) (\<lambda>tag.
     and_then (guard (tag = ''pipelock-mediation'') FSignature) (\<lambda>_.
     and_then (require FParse (paramInt64 sf inner ''created'')) (\<lambda>created.
     and_then (require FParse (paramInt64 sf inner ''expires'')) (\<lambda>expires.
     and_then (require FParse (paramString sf inner ''nonce'')) (\<lambda>nonce.
     and_then (validateTime now v created expires) (\<lambda>_.
     and_then (require FParse (innerComponents nl inner)) (\<lambda>components.
     and_then (check_digest cr req body components) (\<lambda>_.
     and_then (case buildSignatureBase cr nl sf req body components inner of Inl _ \<Rightarrow> Inl FParse | Inr b \<Rightarrow> Inr b) (\<lambda>base.
     and_then (guard (cr_verify cr (tk_publicKey tk) base sigBytes) FSignature) (\<lambda>_.
     Inr (env, nonce, expires))))))))))))))))))))"

text \<open>The code of a cache error is read off its message.\<close>

definition replay_text :: "replay_error \<Rightarrow> string" where
  "replay_text e = (case e of NonceRequired \<Rightarrow> ''signature nonce is required'' | SignatureExpired \<Rightarrow> ''signature expired''
     | ReplayDetected \<Rightarrow> ''signature replay detected''
     | ReplayCacheCapacity \<Rightarrow> ''signature replay cache capacity exhausted; cannot safely verify nonce'')"

definition replay_code :: "replay_error \<Rightarrow> failure_code" where
  "replay_code e = (if e = ReplayCacheCapacity then FReplayCapacity
     else if str_contains (to_lower (replay_text e)) ''expired'' then FExpired else FReplay)"

text \<open>\<open>now\<close> is the verifier's reading of the clock and \<open>cnow\<close> the cache's, which follows it.\<close>

definition VerifyRequest ::
  "crypto \<Rightarrow> net_lib \<Rightarrow> ('d, 'p) sfv \<Rightarrow> go_time \<Rightarrow> go_time \<Rightarrow> verifier option \<Rightarrow> sig_request option \<Rightarrow> string option
   \<Rightarrow> (failure_code + envelope) \<times> verifier option" where
  "VerifyRequest cr nl sf now cnow verifier request body =
     (case verifier of None \<Rightarrow> (Inl FFailed, None)
      | Some v \<Rightarrow> (case request of None \<Rightarrow> (Inl FFailed, Some v)
      | Some req \<Rightarrow> (case verify_checks cr nl sf now v req body of Inl e \<Rightarrow> (Inl e, Some v)
      | Inr (env, nonce, expires) \<Rightarrow>
          (case CheckAndStoreWithSkew cnow nonce (expires * 1000000000) (vf_skew v) (vf_replayCache v) of
             (Some e, cache) \<Rightarrow> (Inl (replay_code e), Some (v\<lparr>vf_replayCache := cache\<rparr>))
           | (None, cache) \<Rightarrow> (Inr env, Some (v\<lparr>vf_replayCache := cache\<rparr>))))))"

section \<open>Accepted requests are authentic\<close>

lemma verify_checks_Inr:
  assumes "verify_checks cr nl sf now v req body = Inr (env, nonce, expires)"
  obtains actor inner sigBytes keyID tk created components base where
    "hdr_get (sr_header req) HeaderName \<noteq> []" "Parse sf (hdr_get (sr_header req) HeaderName) = Inr env"
    "parseActor nl v (ev_actor env) = Inr actor" "mediationSignature sf (sr_header req) = Some (inner, sigBytes)"
    "paramString sf inner ''keyid'' = Some keyID" "map_of (vf_keys v) keyID = Some tk"
    "pinsTrustDomain tk \<longrightarrow> pa_isSPIFFE actor \<and> allowsTrustDomain nl tk (pa_trustDomain actor)"
    "paramString sf inner ''alg'' = Some ''ed25519''" "paramString sf inner ''tag'' = Some ''pipelock-mediation''"
    "paramInt64 sf inner ''created'' = Some created" "paramInt64 sf inner ''expires'' = Some expires"
    "paramString sf inner ''nonce'' = Some nonce" "validateTime now v created expires = Inr ()"
    "innerComponents nl inner = Some components" "check_digest cr req body components = Inr ()"
    "buildSignatureBase cr nl sf req body components inner = Inr base" "cr_verify cr (tk_publicKey tk) base sigBytes"
  using assms by (auto simp: verify_checks_def check_trust_domain_def)

text \<open>Conversely, the checks pass when each of them does.\<close>

lemma verify_checks_passes:
  assumes "hdr_get (sr_header req) HeaderName \<noteq> []" "Parse sf (hdr_get (sr_header req) HeaderName) = Inr env"
    "parseActor nl v (ev_actor env) = Inr actor" "mediationSignature sf (sr_header req) = Some (inner, sigBytes)"
    "paramString sf inner ''keyid'' = Some keyID" "map_of (vf_keys v) keyID = Some tk"
    "pinsTrustDomain tk \<longrightarrow> pa_isSPIFFE actor \<and> allowsTrustDomain nl tk (pa_trustDomain actor)"
    "paramString sf inner ''alg'' = Some ''ed25519''" "paramString sf inner ''tag'' = Some ''pipelock-mediation''"
    "paramInt64 sf inner ''created'' = Some created" "paramInt64 sf inner ''expires'' = Some expires"
    "paramString sf inner ''nonce'' = Some nonce" "validateTime now v created expires = Inr ()"
    "innerComponents nl inner = Some components" "check_digest cr req body components = Inr ()"
    "buildSignatureBase cr nl sf req body components inner = Inr base" "cr_verify cr (tk_publicKey tk) base sigBytes"
  shows "verify_checks cr nl sf now v req body = Inr (env, nonce, expires)"
  using assms by (simp add: verify_checks_def check_trust_domain_def and_then_def guard_def require_def)

lemma VerifyRequest_Inr:
  assumes "VerifyRequest cr nl sf now cnow (Some v) (Some req) body = (Inr env, v')"
  obtains nonce expires cache where
    "verify_checks cr nl sf now v req body = Inr (env, nonce, expires)"
    "CheckAndStoreWithSkew cnow nonce (expires * 1000000000) (vf_skew v) (vf_replayCache v) = (None, cache)"
    "v' = Some (v\<lparr>vf_replayCache := cache\<rparr>)"
  using assms by (auto simp: VerifyRequest_def split: sum.splits prod.splits option.splits)

lemma component_names_supported: "component_names nl its = Some cs \<Longrightarrow> set cs \<subseteq> set supportedSignedComponents"
  by (induction its arbitrary: cs) (auto simp: Let_def split: bare.splits if_splits)

lemma component_lines_covers:
  "component_lines cr nl req body cs = Inr ls \<Longrightarrow> c \<in> set cs \<Longrightarrow>
     \<exists>val a b. buildComponentValue cr nl req body c = Inr val \<and> ls = a @ CHR 0x22 # c @ CHR 0x22 # '': '' @ val @ CHR 0x0A # b"
proof (induction cs arbitrary: ls)
  case (Cons x cs)
  then obtain val rest where v: "buildComponentValue cr nl req body x = Inr val" "component_lines cr nl req body cs = Inr rest"
    "ls = CHR 0x22 # x @ CHR 0x22 # '': '' @ val @ CHR 0x0A # rest"
    by (auto split: sum.splits)
  show ?case
  proof (cases "c = x")
    case True
    then show ?thesis using v by (intro exI [of _ val] exI [of _ "[]"] exI [of _ rest]) simp
  next
    case False
    with Cons.prems(2) have "c \<in> set cs" by simp
    from Cons.IH [OF v(2) this] obtain w a b where "buildComponentValue cr nl req body c = Inr w"
      "rest = a @ CHR 0x22 # c @ CHR 0x22 # '': '' @ w @ CHR 0x0A # b" by blast
    with v(3) show ?thesis
      by (intro exI [of _ w] exI [of _ "CHR 0x22 # x @ CHR 0x22 # '': '' @ val @ CHR 0x0A # a"] exI [of _ b]) simp
  qed
qed simp

text \<open>
  C19. When the signature a request carries verifies only for texts signed with that key, an accepted request carries a valid
  envelope, and the holder of a trusted key signed a text that states, for each component the
  signature declares, the value the request has; a body is bound by its digest; a key pinned to
  trust domains vouches only for SPIFFE actors of those domains.
\<close>

theorem accepted_request_authentic:
  assumes "unforgeable cr known signed_by" "map_option snd (mediationSignature sf (sr_header req)) = Some sig" "sig \<in> known"
    and acc: "VerifyRequest cr nl sf now cnow (Some v) (Some req) body = (Inr env, v')"
  shows "envelope_ok env \<and> Parse sf (hdr_get (sr_header req) ''Pipelock-Mediation'') = Inr env \<and>
    (\<exists>keyID tk actor components base. map_of (vf_keys v) keyID = Some tk \<and> base \<in> signed_by (tk_publicKey tk) \<and>
       components \<noteq> [] \<and> set components \<subseteq> set supportedSignedComponents \<and>
       list_all (\<lambda>c. \<exists>val a b. buildComponentValue cr nl req body c = Inr val \<and>
         base = a @ CHR 0x22 # c @ CHR 0x22 # '': '' @ val @ CHR 0x0A # b) components \<and>
       (if ''content-digest'' \<in> set components
        then \<exists>b. body = Some b \<and> hdr_get (sr_header req) ''Content-Digest'' = contentDigestHeaderValue cr b
        else body_bytes body = []) \<and>
       parseActor nl v (ev_actor env) = Inr actor \<and>
       (tk_trustDomains tk \<noteq> [] \<longrightarrow> pa_isSPIFFE actor \<and> lower nl (pa_trustDomain actor) \<in> set (tk_trustDomains tk)))"
proof -
  from acc obtain nonce expires where "verify_checks cr nl sf now v req body = Inr (env, nonce, expires)"
    by (rule VerifyRequest_Inr)
  then show ?thesis
  proof (rule verify_checks_Inr)
    fix actor inner sigBytes keyID tk created components base
    assume parse: "Parse sf (hdr_get (sr_header req) ''Pipelock-Mediation'') = Inr env"
      and actor: "parseActor nl v (ev_actor env) = Inr actor"
      and med: "mediationSignature sf (sr_header req) = Some (inner, sigBytes)"
      and key: "map_of (vf_keys v) keyID = Some tk"
      and pin: "pinsTrustDomain tk \<longrightarrow> pa_isSPIFFE actor \<and> allowsTrustDomain nl tk (pa_trustDomain actor)"
      and comps: "innerComponents nl inner = Some components"
      and digest: "check_digest cr req body components = Inr ()"
      and base: "buildSignatureBase cr nl sf req body components inner = Inr base"
      and sig: "cr_verify cr (tk_publicKey tk) base sigBytes"
    have "envelope_ok env" using parsed_envelope_ok [OF parse] .
    moreover have "base \<in> signed_by (tk_publicKey tk)" using assms(1-3) med sig by (auto simp: unforgeable_def)
    moreover have "components \<noteq> [] \<and> set components \<subseteq> set supportedSignedComponents"
      using comps component_names_supported by (fastforce simp: innerComponents_def split: option.splits if_splits)
    moreover have "list_all (\<lambda>c. \<exists>val a b. buildComponentValue cr nl req body c = Inr val \<and>
         base = a @ CHR 0x22 # c @ CHR 0x22 # '': '' @ val @ CHR 0x0A # b) components"
      unfolding list_all_iff
    proof
      fix c assume "c \<in> set components"
      with base component_lines_covers show "\<exists>val a b. buildComponentValue cr nl req body c = Inr val \<and>
         base = a @ CHR 0x22 # c @ CHR 0x22 # '': '' @ val @ CHR 0x0A # b"
        by (fastforce simp: buildSignatureBase_def split: sum.splits option.splits)
    qed
    moreover have "if ''content-digest'' \<in> set components
        then \<exists>b. body = Some b \<and> hdr_get (sr_header req) ''Content-Digest'' = contentDigestHeaderValue cr b
        else body_bytes body = []"
      using digest by (auto simp: check_digest_def containsComponent_def list_ex_iff verifyContentDigest_def
          contentDigestHeaderValue_def requestHasSignedBody_def split: if_splits option.splits)
    moreover have "tk_trustDomains tk \<noteq> [] \<longrightarrow> pa_isSPIFFE actor \<and> lower nl (pa_trustDomain actor) \<in> set (tk_trustDomains tk)"
      using pin by (simp add: pinsTrustDomain_def allowsTrustDomain_def)
    ultimately show ?thesis using parse actor key by blast
  qed
qed
section \<open>Replays\<close>

record verify_call =
  vr_now :: go_time
  vr_cnow :: go_time
  vr_req :: "sig_request option"
  vr_body :: "string option"

definition verify_step ::
  "crypto \<Rightarrow> net_lib \<Rightarrow> ('d, 'p) sfv \<Rightarrow> verify_call \<Rightarrow> verifier option \<Rightarrow> verifier option" where
  "verify_step cr nl sf x v = snd (VerifyRequest cr nl sf (vr_now x) (vr_cnow x) v (vr_req x) (vr_body x))"

lemma cache_irrelevant:
  "parseActor nl (v\<lparr>vf_replayCache := c\<rparr>) raw = parseActor nl v raw"
  "validateTime now (v\<lparr>vf_replayCache := c\<rparr>) created expires = validateTime now v created expires"
  by (simp_all add: parseActor_def validateTime_def Let_def cong: if_cong)

lemma verify_checks_cache [simp]:
  "verify_checks cr nl sf now (v\<lparr>vf_replayCache := c\<rparr>) req body = verify_checks cr nl sf now v req body"
  by (simp add: verify_checks_def cache_irrelevant)

text \<open>A run of the verifier is a run of its cache.\<close>

lemma verify_step_cache:
  "\<exists>xs. list_all (\<lambda>y. rp_now y = vr_cnow x) xs \<and>
     verify_step cr nl sf x (Some (v\<lparr>vf_replayCache := c\<rparr>)) = Some (v\<lparr>vf_replayCache := fold replay_step xs c\<rparr>)"
proof (cases "\<exists>req env nonce ex. vr_req x = Some req \<and> verify_checks cr nl sf (vr_now x) v req (vr_body x) = Inr (env, nonce, ex)")
  case True
  then obtain req env nonce ex where "vr_req x = Some req" "verify_checks cr nl sf (vr_now x) v req (vr_body x) = Inr (env, nonce, ex)"
    by blast
  then show ?thesis
    by (intro exI [of _ "[\<lparr>rp_now = vr_cnow x, rp_nonce = nonce, rp_expires = ex * 1000000000, rp_skew = vf_skew v\<rparr>]"])
      (auto simp: verify_step_def VerifyRequest_def replay_step_def split: prod.splits option.splits)
next
  case False
  then show ?thesis
    by (intro exI [of _ "[]"]) (auto simp: verify_step_def VerifyRequest_def split: option.splits sum.splits)
qed

lemma verify_run_cache:
  "\<exists>ys. list_all (\<lambda>y. rp_now y \<in> vr_cnow ` set xs) ys \<and>
     fold (verify_step cr nl sf) xs (Some (v\<lparr>vf_replayCache := c\<rparr>)) = Some (v\<lparr>vf_replayCache := fold replay_step ys c\<rparr>)"
proof (induction xs arbitrary: c)
  case (Cons x xs)
  from verify_step_cache [where x = x and cr = cr and nl = nl and sf = sf and v = v and c = c] obtain zs where zs: "list_all (\<lambda>y. rp_now y = vr_cnow x) zs"
    "verify_step cr nl sf x (Some (v\<lparr>vf_replayCache := c\<rparr>)) = Some (v\<lparr>vf_replayCache := fold replay_step zs c\<rparr>)" by blast
  from Cons.IH [of "fold replay_step zs c"] obtain ys where ys: "list_all (\<lambda>y. rp_now y \<in> vr_cnow ` set xs) ys"
    "fold (verify_step cr nl sf) xs (Some (v\<lparr>vf_replayCache := fold replay_step zs c\<rparr>)) =
       Some (v\<lparr>vf_replayCache := fold replay_step ys (fold replay_step zs c)\<rparr>)" by blast
  show ?case using zs ys by (intro exI [of _ "zs @ ys"]) (auto simp: list_all_iff)
qed (simp add: exI [of _ "[]"])

lemma validateTime_expires:
  assumes "validateTime now v created expires = Inr ()" "0 < vf_skew v" "0 < vf_maxSignatureLifetime v"
    "vf_maxSignatureLifetime v + vf_skew v \<le> w" "w < 2 ^ 63"
  shows "expires * 1000000000 \<le> now + w" "now - vf_skew v < expires * 1000000000"
  using assms by (auto simp: validateTime_def Let_def time_Sub_def max_def min_def split: if_splits)

text \<open>A check that passed once fails later only because time has passed.\<close>

lemma verify_checks_later:
  assumes "verify_checks cr nl sf now v req body = Inr r"
  shows "verify_checks cr nl sf later v req body \<in> {Inr r, Inl FExpired}"
proof -
  obtain env nonce expires where r: "r = (env, nonce, expires)" by (cases r)
  from assms [unfolded r] show ?thesis unfolding r
  proof (rule verify_checks_Inr)
    fix actor inner sigBytes keyID tk created components base
    assume a: "hdr_get (sr_header req) HeaderName \<noteq> []" "Parse sf (hdr_get (sr_header req) HeaderName) = Inr env"
      "parseActor nl v (ev_actor env) = Inr actor" "mediationSignature sf (sr_header req) = Some (inner, sigBytes)"
      "paramString sf inner ''keyid'' = Some keyID" "map_of (vf_keys v) keyID = Some tk"
      "pinsTrustDomain tk \<longrightarrow> pa_isSPIFFE actor \<and> allowsTrustDomain nl tk (pa_trustDomain actor)"
      "paramString sf inner ''alg'' = Some ''ed25519''" "paramString sf inner ''tag'' = Some ''pipelock-mediation''"
      "paramInt64 sf inner ''created'' = Some created" "paramInt64 sf inner ''expires'' = Some expires"
      "paramString sf inner ''nonce'' = Some nonce"
      and b: "innerComponents nl inner = Some components" "check_digest cr req body components = Inr ()"
      "buildSignatureBase cr nl sf req body components inner = Inr base" "cr_verify cr (tk_publicKey tk) base sigBytes"
    show "verify_checks cr nl sf later v req body \<in> {Inr (env, nonce, expires), Inl FExpired}"
    proof (cases "validateTime later v created expires = Inr ()")
      case True
      from verify_checks_passes [OF a True b] show ?thesis by simp
    next
      case False
      then have "validateTime later v created expires = Inl FExpired" by (auto simp: validateTime_def Let_def split: if_splits)
      with a show ?thesis by (simp add: verify_checks_def check_trust_domain_def and_then_def guard_def require_def)
    qed
  qed
qed

text \<open>
  C23. When the cap on signature lifetimes plus the tolerated clock skew fits the replay window, a
  request that was accepted is refused ever after, as a replay or as expired, whatever other requests
  are verified in between, under a clock that does not go back.
\<close>

theorem accepted_request_not_replayed:
  assumes acc: "VerifyRequest cr nl sf t1 c1 (Some v) (Some req) body = (Inr env, v1)"
    and cache: "cache_ok w cap (vf_replayCache v)"
    and cfg: "0 < vf_skew v" "0 < vf_maxSignatureLifetime v" "vf_maxSignatureLifetime v + vf_skew v \<le> w" "w < 2 ^ 63"
    and year: "0 \<le> t1 - vf_skew v"
    and clock: "t1 \<le> c1" "list_all (\<lambda>x. vr_cnow x \<le> c2) calls"
  shows "fst (VerifyRequest cr nl sf t2 c2 (fold (verify_step cr nl sf) calls v1) (Some req) body) \<in> {Inl FReplay, Inl FExpired}"
proof -
  from acc obtain nonce expires d where chk: "verify_checks cr nl sf t1 v req body = Inr (env, nonce, expires)"
    and st: "CheckAndStoreWithSkew c1 nonce (expires * 1000000000) (vf_skew v) (vf_replayCache v) = (None, d)"
    and v1: "v1 = Some (v\<lparr>vf_replayCache := d\<rparr>)" by (rule VerifyRequest_Inr)
  obtain c where c: "vf_replayCache v = Some c" using cache by (auto simp: cache_ok_def split: option.splits)
  from chk obtain created where "validateTime t1 v created expires = Inr ()" by (rule verify_checks_Inr)
  note ex = validateTime_expires [OF this cfg]
  have nz: "expires * 1000000000 \<noteq> zero_time" using ex(2) year by (simp add: zero_time_def)
  from verify_run_cache [where xs = calls and cr = cr and nl = nl and sf = sf and v = v and c = d] obtain ys where ys: "list_all (\<lambda>y. rp_now y \<in> vr_cnow ` set calls) ys"
    "fold (verify_step cr nl sf) calls v1 = Some (v\<lparr>vf_replayCache := fold replay_step ys d\<rparr>)" unfolding v1 by blast
  have le: "list_all (\<lambda>y. rp_now y \<le> c2) ys" using ys(1) clock(2) by (auto simp: list_all_iff)
  have "expires * 1000000000 \<le> c1 + w" using ex(1) clock(1) by linarith
  then have "fst (CheckAndStoreWithSkew c2 nonce (expires * 1000000000) (vf_skew v) (fold replay_step ys d))
      \<in> {Some ReplayDetected, Some SignatureExpired}"
    using nonce_once [OF st [unfolded c] cache [unfolded c] nz _ le] by blast
  moreover have "replay_code ReplayDetected = FReplay" "replay_code SignatureExpired = FExpired" by code_simp+
  ultimately show ?thesis
    using verify_checks_later [OF chk, of t2] ys(2)
    by (auto simp: VerifyRequest_def split: prod.splits option.splits)
qed
section \<open>What the signer signs, the verifier accepts\<close>

lemma merge_member_Inr:
  assumes ok: "sfv_ok sf" and m: "merge_member sf h n m = Inr h'"
  obtains out d where "hdr_values h' n = [out]" "sf_unmarshal sf [out] = Some d" "sf_get sf d ''pipelock1'' = Some m"
    "\<forall>k. has_prefix k ''pipelock'' \<longrightarrow> k \<noteq> ''pipelock1'' \<longrightarrow> sf_get sf d k = None"
    "\<forall>k. CanonicalMIMEHeaderKey k \<noteq> CanonicalMIMEHeaderKey n \<longrightarrow> hdr_values h' k = hdr_values h k"
proof -
  from m obtain d0 out where d0: "loadOrNewDict sf h n = Inr d0" and out: "sf_marshal sf (sf_add sf d0 ''pipelock1'' m) = Some out"
    and h': "h' = hdr_set n out (hdr_del n h)"
    by (auto simp: merge_member_def marshalDictToHeader_def split: sum.splits option.splits)
  have none: "sf_get sf d0 k = None" if "has_prefix k ''pipelock''" for k
    using d0 that sfv_okD(3) [OF ok]
    by (auto simp: loadOrNewDict_def Let_def del_members_get [OF ok] pipelock_names_iff [OF ok] split: if_splits option.splits)
  from sfv_okD(7) [OF ok out] obtain d where "sf_unmarshal sf [out] = Some d" "sf_get sf d = sf_get sf (sf_add sf d0 ''pipelock1'' m)"
    by blast
  with none h' show thesis by (intro that [of out d]) (simp_all add: sfv_okD(4) [OF ok])
qed

lemma find_signature_one:
  assumes "sf_get sf input ''pipelock1'' = Some (MInner inner)" "paramString sf inner ''tag'' = Some ''pipelock-mediation''"
    "sf_get sf sigs ''pipelock1'' = Some (MItem it)" "it_value it = SBytes b" "length b = 64"
  shows "''pipelock1'' \<in> set names \<Longrightarrow> list_all (\<lambda>k. has_prefix k ''pipelock'' \<longrightarrow> k = ''pipelock1'') names \<Longrightarrow>
    find_signature sf input sigs names = Some (inner, b)"
proof (induction names)
  case (Cons k names)
  show ?case
  proof (cases "k = ''pipelock1''")
    case True
    with assms show ?thesis by simp
  next
    case False
    with Cons show ?thesis by simp
  qed
qed simp

lemma supported_plain:
  "c \<in> set supportedSignedComponents \<Longrightarrow> lower nl (TrimSpace c) = c"
  by (auto simp: supportedSignedComponents_def TrimSpace_plain plain_char_def ToLower_def is_ascii_def ascii_lower_def)

lemma component_names_newItems:
  "set cs \<subseteq> set supportedSignedComponents \<Longrightarrow> component_names nl (map (\<lambda>c. sf_newItem sf (SStr c)) cs) = Some cs"
  by (induction cs) (auto simp: sf_newItem_def supported_plain Let_def)

lemma normalize_loop_supported:
  "normalize_loop nl out cs = Inr r \<Longrightarrow> set out \<subseteq> set supportedSignedComponents \<Longrightarrow> set r \<subseteq> set supportedSignedComponents"
  by (induction cs arbitrary: out) (auto simp: Let_def split: if_splits)

lemma canonical_keys:
  "CanonicalMIMEHeaderKey ''Content-Digest'' = ''Content-Digest''" "CanonicalMIMEHeaderKey ''Signature-Input'' = ''Signature-Input''"
  "CanonicalMIMEHeaderKey ''Signature'' = ''Signature''" "CanonicalMIMEHeaderKey ''pipelock-mediation'' = ''Pipelock-Mediation''"
  "CanonicalMIMEHeaderKey ''Pipelock-Mediation'' = ''Pipelock-Mediation''"
  by code_simp+

text \<open>The effective components: of the header only the digest is written, and it is that of the body.\<close>

lemma effective_loop_digest:
  "effective_loop cr body cs h = (out, h') \<Longrightarrow>
     (\<forall>n. CanonicalMIMEHeaderKey n \<noteq> ''Content-Digest'' \<longrightarrow> hdr_values h' n = hdr_values h n) \<and>
     (hdr_get h ''Content-Digest'' = contentDigestHeaderValue cr (body_bytes body) \<or> ''content-digest'' \<in> set out \<longrightarrow>
        hdr_get h' ''Content-Digest'' = contentDigestHeaderValue cr (body_bytes body))"
proof (induction cs arbitrary: h out)
  case (Cons c cs)
  let ?h = "if c = ''content-digest'' \<and> body_bytes body \<noteq> [] then hdr_set ''Content-Digest'' (contentDigestHeaderValue cr (body_bytes body)) h else h"
  have "\<exists>out'. effective_loop cr body cs ?h = (out', h') \<and> (out = out' \<or> out = c # out')"
    using Cons.prems by (auto simp: Let_def split: if_splits prod.splits)
  then obtain out' where o: "effective_loop cr body cs ?h = (out', h')" "out = out' \<or> out = c # out'" by blast
  have "out = c # out' \<and> c = ''content-digest'' \<longrightarrow> out = out' \<or> body_bytes body \<noteq> []"
    using Cons.prems o(1) by (auto split: if_splits)
  moreover have "hdr_get ?h ''Content-Digest'' = contentDigestHeaderValue cr (body_bytes body)"
    if "c = ''content-digest'' \<and> body_bytes body \<noteq> [] \<or> hdr_get h ''Content-Digest'' = contentDigestHeaderValue cr (body_bytes body)"
    using that by (auto simp: hdr_get_def)
  moreover have "hdr_values ?h n = hdr_values h n" if "CanonicalMIMEHeaderKey n \<noteq> ''Content-Digest''" for n
    using that by (simp add: canonical_keys)
  ultimately show ?case using Cons.IH [OF o(1)] o(2) by auto
qed simp

lemma effective_loop_set:
  "effective_loop cr body cs h = (out, h') \<Longrightarrow> set out \<subseteq> set cs \<and>
     (''content-digest'' \<in> set out \<longleftrightarrow> ''content-digest'' \<in> set cs \<and> body_bytes body \<noteq> [])"
  by (induction cs arbitrary: h out) (auto simp: Let_def split: if_splits prod.splits, blast+)
lemma targetURIComponent_cong:
  assumes "sr_host r = sr_host q" "sr_url r = sr_url q" "sr_tls r = sr_tls q"
  shows "targetURIComponent nl r = targetURIComponent nl q"
  unfolding targetURIComponent_def assms by (rule refl)

lemma component_lines_cong:
  assumes "sr_method r = sr_method q" "sr_host r = sr_host q" "sr_url r = sr_url q" "sr_tls r = sr_tls q"
    "hdr_values (sr_header r) ''Content-Digest'' = hdr_values (sr_header q) ''Content-Digest''"
    "hdr_values (sr_header r) ''pipelock-mediation'' = hdr_values (sr_header q) ''pipelock-mediation''"
  shows "component_lines cr nl r body cs = component_lines cr nl q body cs"
proof (induction cs)
  case (Cons c cs)
  have tu: "targetURIComponent nl r = targetURIComponent nl q"
    by (rule targetURIComponent_cong) (simp_all add: assms)
  have "buildComponentValue cr nl r body c = buildComponentValue cr nl q body c"
    using tu by (simp add: buildComponentValue_def hdr_get_def assms)
  with Cons show ?case by (simp split: sum.splits)
qed simp

lemma SignRequest_None:
  assumes "SignRequest cr nl sf now rand (Some s) (Some req) body = (None, req')"
    and small: "sg_maxBodyBytes s \<le> 0 \<or> int (length (body_bytes body)) \<le> sg_maxBodyBytes s"
  obtains eff h r base h1 h2 p where
    "effective_loop cr body (sg_components s) (sr_header req) = (eff, h)" "eff \<noteq> []" "rand = Some r"
    "p = buildSigParams sf eff (now div 1000000000) (now div 1000000000 + sg_expires s div 1000000000) (hex_EncodeToString r) (sg_keyID s)"
    "buildSignatureBase cr nl sf (req\<lparr>sr_header := if ''content-digest'' \<in> set eff then h else hdr_del ''Content-Digest'' h\<rparr>) body eff p = Inr base"
    "mergeSignatureInput sf (if ''content-digest'' \<in> set eff then h else hdr_del ''Content-Digest'' h) p = Inr h1"
    "mergeSignature sf h1 (cr_sign cr (sg_privKey s) base) = Inr h2"
    "req' = Some (req\<lparr>sr_header := h2\<rparr>)"
proof -
  from small have body: "(if sg_maxBodyBytes s > 0 \<and> int (length (body_bytes body)) > sg_maxBodyBytes s then None else body) = body" by auto
  obtain eff h where eff: "effective_loop cr body (sg_components s) (sr_header req) = (eff, h)" by force
  then have ec: "effectiveComponents cr s req body = (eff, req\<lparr>sr_header := h\<rparr>)" by (simp add: effectiveComponents_def)
  let ?h = "if ''content-digest'' \<in> set eff then h else hdr_del ''Content-Digest'' h"
  have r2: "(if \<not> containsComponent eff ''content-digest'' then (req\<lparr>sr_header := h\<rparr>)\<lparr>sr_header := hdr_del ''Content-Digest'' (sr_header (req\<lparr>sr_header := h\<rparr>))\<rparr>
      else req\<lparr>sr_header := h\<rparr>) = req\<lparr>sr_header := ?h\<rparr>"
    by (auto simp: containsComponent_def list_ex_iff)
  show thesis using assms(1)
    by (auto simp: SignRequest_def body Let_def ec r2 signatureNonce_def split: if_splits option.splits sum.splits
        intro!: that [OF eff])
qed
lemma sig_params:
  assumes ok: "sfv_ok sf" and p: "p = buildSigParams sf cs created expires nonce keyID"
    and ne: "TrimSpace nonce \<noteq> []" "TrimSpace keyID \<noteq> []"
  shows "paramString sf p ''keyid'' = Some keyID" "paramString sf p ''alg'' = Some ''ed25519''"
    "paramString sf p ''tag'' = Some ''pipelock-mediation''" "paramString sf p ''nonce'' = Some nonce"
    "paramInt64 sf p ''created'' = Some created" "paramInt64 sf p ''expires'' = Some expires"
proof -
  have t: "TrimSpace ''ed25519'' = ''ed25519''" "TrimSpace ''pipelock-mediation'' = ''pipelock-mediation''"
    by (rule TrimSpace_plain; simp add: plain_char_def)+
  show "paramString sf p ''keyid'' = Some keyID" "paramString sf p ''alg'' = Some ''ed25519''"
    "paramString sf p ''tag'' = Some ''pipelock-mediation''" "paramString sf p ''nonce'' = Some nonce"
    "paramInt64 sf p ''created'' = Some created" "paramInt64 sf p ''expires'' = Some expires"
    using ne by (simp_all add: p paramString_def paramInt64_def buildSigParams_def Let_def sfv_okD(2) [OF ok] t)
qed

lemma byte_less: "(of_char c :: nat) < 256"
  by (metis of_char_mod_256 mod_less_divisor zero_less_numeral)

lemma hex_plain: "list_all plain_char (hex_EncodeToString s)"
proof (induction s)
  case (Cons c s)
  have "(of_char c :: nat) div 16 < 16" "(of_char c :: nat) mod 16 < 16"
    using byte_less [of c] by (auto simp: div_less_iff_less_mult)
  moreover have "plain_char (digit_char d)" if "d < 16" for d
    using that by (auto simp: digit_char_def plain_char_def)
  ultimately show ?case using Cons by (simp add: hex_EncodeToString_def hex_byte_def)
qed (simp add: hex_EncodeToString_def)

lemma merged_signature:
  assumes ok: "sfv_ok sf" and cr: "crypto_ok cr"
    and m: "mergeSignatureInput sf h p = Inr h1" "mergeSignature sf h1 (cr_sign cr k base) = Inr h2"
    and tag: "paramString sf p ''tag'' = Some ''pipelock-mediation''"
  shows "mediationSignature sf h2 = Some (p, cr_sign cr k base)"
    and "CanonicalMIMEHeaderKey n \<notin> {''Signature'', ''Signature-Input''} \<Longrightarrow> hdr_values h2 n = hdr_values h n"
proof -
  obtain o1 d1 where
    1: "hdr_values h1 ''Signature-Input'' = [o1]" "sf_unmarshal sf [o1] = Some d1" "sf_get sf d1 ''pipelock1'' = Some (MInner p)"
    "\<forall>k. has_prefix k ''pipelock'' \<longrightarrow> k \<noteq> ''pipelock1'' \<longrightarrow> sf_get sf d1 k = None"
    "\<forall>k. CanonicalMIMEHeaderKey k \<noteq> CanonicalMIMEHeaderKey ''Signature-Input'' \<longrightarrow> hdr_values h1 k = hdr_values h k"
    by (rule merge_member_Inr [OF ok m(1) [unfolded mergeSignatureInput_def]])
  obtain o2 d2 where
    2: "hdr_values h2 ''Signature'' = [o2]" "sf_unmarshal sf [o2] = Some d2"
    "sf_get sf d2 ''pipelock1'' = Some (MItem (sf_newItem sf (SBytes (cr_sign cr k base))))"
    "\<forall>k. has_prefix k ''pipelock'' \<longrightarrow> k \<noteq> ''pipelock1'' \<longrightarrow> sf_get sf d2 k = None"
    "\<forall>k. CanonicalMIMEHeaderKey k \<noteq> CanonicalMIMEHeaderKey ''Signature'' \<longrightarrow> hdr_values h2 k = hdr_values h1 k"
    by (rule merge_member_Inr [OF ok m(2) [unfolded mergeSignature_def]])
  have "hdr_values h2 ''Signature-Input'' = [o1]" using 1(1) 2(5) by (simp add: canonical_keys)
  moreover have "''pipelock1'' \<in> set (sf_names sf d1)" using 1(3) by (simp add: sfv_okD(6) [OF ok])
  moreover have "list_all (\<lambda>k. has_prefix k ''pipelock'' \<longrightarrow> k = ''pipelock1'') (sf_names sf d1)"
    using 1(4) sfv_okD(6) [OF ok, of _ d1] by (auto simp: list_all_iff)
  moreover have "length (cr_sign cr k base) = 64" using cr by (simp add: crypto_ok_def)
  ultimately show "mediationSignature sf h2 = Some (p, cr_sign cr k base)"
    using find_signature_one [OF 1(3) tag 2(3)] 1(2) 2(1,2) by (simp add: mediationSignature_def sf_newItem_def)
  show "hdr_values h2 n = hdr_values h n" if "CanonicalMIMEHeaderKey n \<notin> {''Signature'', ''Signature-Input''}"
    using that 1(5) 2(5) by (simp add: canonical_keys)
qed
lemma NewSigner_Inr:
  assumes "NewSigner nl cfg = Inr s"
  shows "TrimSpace (sg_keyID s) \<noteq> []" "set (sg_components s) \<subseteq> set supportedSignedComponents" "0 < sg_expires s"
  using assms normalize_loop_supported [of nl "[]"]
  by (auto simp: NewSigner_def NormalizeSignedComponents_def split: if_splits sum.splits) blast+

text \<open>The signed request passes every check but that of time, which is a matter of the two clocks.\<close>

lemma signed_request_checks:
  assumes libs: "crypto_ok cr" "sfv_ok sf" and new: "NewSigner nl cfg = Inr s"
    and sign: "SignRequest cr nl sf now (Some r) (Some s) (Some req) body = (None, Some req')" and r: "r \<noteq> []"
    and small: "sg_maxBodyBytes s \<le> 0 \<or> int (length (body_bytes body)) \<le> sg_maxBodyBytes s"
    and covers: "requestHasSignedBody req body \<longrightarrow> body_bytes body \<noteq> [] \<and> ''content-digest'' \<in> set (sg_components s)"
    and env: "hdr_get (sr_header req) ''Pipelock-Mediation'' \<noteq> []" "Parse sf (hdr_get (sr_header req) ''Pipelock-Mediation'') = Inr env"
    and actor: "parseActor nl v (ev_actor env) = Inr actor"
    and key: "map_of (vf_keys v) (sg_keyID s) = Some tk" "tk_publicKey tk = cr_public cr (sg_privKey s)"
    and pin: "pinsTrustDomain tk \<longrightarrow> pa_isSPIFFE actor \<and> allowsTrustDomain nl tk (pa_trustDomain actor)"
    and time: "validateTime vnow v (now div 1000000000) (now div 1000000000 + sg_expires s div 1000000000) = Inr ()"
  shows "verify_checks cr nl sf vnow v req' body =
    Inr (env, hex_EncodeToString r, now div 1000000000 + sg_expires s div 1000000000)"
proof -
  note s = NewSigner_Inr [OF new]
  obtain eff h r' base h1 h2 p where
    eff: "effective_loop cr body (sg_components s) (sr_header req) = (eff, h)" "eff \<noteq> []" and r': "Some r = Some r'"
    and p: "p = buildSigParams sf eff (now div 1000000000) (now div 1000000000 + sg_expires s div 1000000000) (hex_EncodeToString r') (sg_keyID s)"
    and base: "buildSignatureBase cr nl sf (req\<lparr>sr_header := if ''content-digest'' \<in> set eff then h else hdr_del ''Content-Digest'' h\<rparr>) body eff p = Inr base"
    and m: "mergeSignatureInput sf (if ''content-digest'' \<in> set eff then h else hdr_del ''Content-Digest'' h) p = Inr h1"
    "mergeSignature sf h1 (cr_sign cr (sg_privKey s) base) = Inr h2"
    and req'': "Some req' = Some (req\<lparr>sr_header := h2\<rparr>)"
    by (rule SignRequest_None [OF sign small])
  from req'' have req': "req' = req\<lparr>sr_header := h2\<rparr>" by simp
  let ?h = "if ''content-digest'' \<in> set eff then h else hdr_del ''Content-Digest'' h"
  have "hex_EncodeToString r \<noteq> []" using r by (cases r) (simp_all add: hex_EncodeToString_def hex_byte_def)
  then have "TrimSpace (hex_EncodeToString r) \<noteq> []" using TrimSpace_plain [OF _ hex_plain] by metis
  note pr = sig_params [OF libs(2) p, folded r' [THEN option.inject [THEN iffD1]], OF this s(1)]
  note dig = effective_loop_digest [OF eff(1)] and set = effective_loop_set [OF eff(1)]
  note sig = merged_signature [OF libs(2,1) m pr(3)]
  have vals: "hdr_values h2 ''Content-Digest'' = hdr_values ?h ''Content-Digest''"
    "hdr_values h2 ''pipelock-mediation'' = hdr_values ?h ''pipelock-mediation''"
    "hdr_values h2 ''Pipelock-Mediation'' = hdr_values (sr_header req) ''Pipelock-Mediation''"
    using sig(2) dig by (auto simp: canonical_keys)
  have sup: "set eff \<subseteq> set supportedSignedComponents" using set s(2) by blast
  have comps: "innerComponents nl p = Some eff"
    using eff(2) component_names_newItems [OF sup, of nl sf] by (simp add: innerComponents_def p buildSigParams_def Let_def)
  have lines: "component_lines cr nl req' body eff = component_lines cr nl (req\<lparr>sr_header := ?h\<rparr>) body eff"
    by (rule component_lines_cong) (simp_all add: req' vals)
  then have base': "buildSignatureBase cr nl sf req' body eff p = Inr base" using base by (simp add: buildSignatureBase_def)
  have digest: "check_digest cr req' body eff = Inr ()"
  proof (cases "''content-digest'' \<in> set eff")
    case True
    then obtain b where "body = Some b" using set by (auto simp: body_bytes_def split: option.splits)
    with True dig vals(1) show ?thesis
      by (auto simp: check_digest_def containsComponent_def list_ex_iff req' hdr_get_def guard_def verifyContentDigest_def
          contentDigestHeaderValue_def body_bytes_def)
  next
    case False
    with covers set have "\<not> requestHasSignedBody req' body" by (auto simp: requestHasSignedBody_def req')
    with False show ?thesis by (simp add: check_digest_def containsComponent_def list_ex_iff guard_def)
  qed
  have get: "hdr_get (sr_header req') ''Pipelock-Mediation'' = hdr_get (sr_header req) ''Pipelock-Mediation''"
    using vals(3) by (simp add: req' hdr_get_def)
  have ver: "cr_verify cr (tk_publicKey tk) base (cr_sign cr (sg_privKey s) base)" using libs(1) key(2) by (simp add: crypto_ok_def)
  have med: "mediationSignature sf (sr_header req') = Some (p, cr_sign cr (sg_privKey s) base)" using sig(1) by (simp add: req')
  show ?thesis
    by (rule verify_checks_passes [OF _ _ actor med pr(1) key(1) pin pr(2,3,5,6,4) time comps digest base' ver])
      (use env get in simp_all)
qed

text \<open>
  A request signed by a signer of this package is accepted by a verifier that trusts its key,
  and the envelope returned is the one the request carries: the clocks differ by no more than the
  skew, the signature has not expired and is no longer than the cap, the body was covered, and the
  nonce is fresh in a cache with room.
\<close>

lemma signed_verifies:
  assumes libs: "crypto_ok cr" "sfv_ok sf" and new: "NewSigner nl cfg = Inr s"
    and sign: "SignRequest cr nl sf now (Some r) (Some s) (Some req) body = (None, Some req')" and r: "r \<noteq> []"
    and small: "sg_maxBodyBytes s \<le> 0 \<or> int (length (body_bytes body)) \<le> sg_maxBodyBytes s"
    and covers: "requestHasSignedBody req body \<longrightarrow> body_bytes body \<noteq> [] \<and> ''content-digest'' \<in> set (sg_components s)"
    and env: "hdr_get (sr_header req) ''Pipelock-Mediation'' \<noteq> []" "Parse sf (hdr_get (sr_header req) ''Pipelock-Mediation'') = Inr env"
    and actor: "parseActor nl v (ev_actor env) = Inr actor"
    and key: "map_of (vf_keys v) (sg_keyID s) = Some tk" "tk_publicKey tk = cr_public cr (sg_privKey s)"
    and pin: "pinsTrustDomain tk \<longrightarrow> pa_isSPIFFE actor \<and> allowsTrustDomain nl tk (pa_trustDomain actor)"
    and time: "now \<le> vnow + vf_skew v" "0 \<le> now" "vnow \<le> cnow" "0 \<le> vf_skew v" "1000000000 \<le> sg_expires s"
      "cnow + 2000000000 \<le> now + sg_expires s + vf_skew v"
      "vf_maxSignatureLifetime v \<le> 0 \<or> sg_expires s \<le> vf_maxSignatureLifetime v"
    and cache: "vf_replayCache v = Some c" "map_of (rc_entries c) (hex_EncodeToString r) = None"
      "int (length (rc_entries c)) < rc_max c"
  shows "fst (VerifyRequest cr nl sf vnow cnow (Some v) (Some req') body) = Inr env"
proof -
  define created where "created = now div 1000000000"
  define expires where "expires = created + sg_expires s div 1000000000"
  have c: "created * 1000000000 \<le> now" "now < created * 1000000000 + 1000000000"
    unfolding created_def by (simp_all add: minus_mod_eq_div_mult [symmetric])
  have d: "(sg_expires s div 1000000000) * 1000000000 \<le> sg_expires s"
    "sg_expires s < (sg_expires s div 1000000000) * 1000000000 + 1000000000" "1 \<le> sg_expires s div 1000000000"
    using time(5) by (simp_all add: minus_mod_eq_div_mult [symmetric])
  have ex: "cnow - vf_skew v < expires * 1000000000" "created * 1000000000 < expires * 1000000000"
    "expires * 1000000000 - created * 1000000000 \<le> sg_expires s"
    using c d time unfolding expires_def distrib_right by linarith+
  have "time_Sub (expires * 1000000000) (created * 1000000000) \<le> vf_maxSignatureLifetime v \<or> vf_maxSignatureLifetime v \<le> 0"
    using ex(2,3) time(7) by (auto simp: time_Sub_def)
  then have "validateTime vnow v created expires = Inr ()"
    using c ex time by (auto simp: validateTime_def Let_def)
  from signed_request_checks [OF libs new sign r small covers env actor key pin this [unfolded expires_def created_def]]
  have chk: "verify_checks cr nl sf vnow v req' body = Inr (env, hex_EncodeToString r, expires)"
    by (simp add: expires_def created_def)
  have ne: "hex_EncodeToString r \<noteq> []" using r by (cases r) (simp_all add: hex_EncodeToString_def hex_byte_def)
  have nz: "expires * 1000000000 \<noteq> zero_time" using ex(2) c(2) time(2) by (simp add: zero_time_def)
  have live: "map_of (live_at cnow c) (hex_EncodeToString r) = None"
    using cache(2) by (auto simp: map_of_eq_None_iff)
  have len: "int (length (live_at cnow c)) < rc_max c"
    using cache(3) length_filter_le [of "\<lambda>(_, exp). cnow < exp" "rc_entries c"] by linarith
  have "fst (CheckAndStoreWithSkew cnow (hex_EncodeToString r) (expires * 1000000000) (vf_skew v) (Some c)) = None"
    using ne nz ex(1) live len time(4) by (simp add: CheckAndStoreWithSkew_def Let_def)
  then show ?thesis by (auto simp: VerifyRequest_def chk cache(1) split: prod.splits option.splits)
qed
section \<open>A concrete exchange\<close>

definition demo_base :: string where
  "demo_base = CHR 0x22 # ''@method'' @ CHR 0x22 # '': GET'' @ CHR 0x0A # CHR 0x22 # ''pipelock-mediation'' @ CHR 0x22 #
     '': envelope'' @ CHR 0x0A # CHR 0x22 # ''@signature-params'' @ CHR 0x22 # '': params''"

definition demo_sig :: "string \<Rightarrow> string" where
  "demo_sig m = replicate 64 (if m = demo_base then CHR ''s'' else CHR ''x'')"

definition demo_crypto :: crypto where
  "demo_crypto = \<lparr>cr_sha256 = (\<lambda>_. replicate 32 CHR ''h''), cr_public = take 32,
     cr_sign = (\<lambda>k. demo_sig), cr_verify = (\<lambda>pk m s. s = demo_sig m)\<rparr>"

definition demo_signer :: signer where
  "demo_signer = \<lparr>sg_privKey = replicate 64 CHR ''k'', sg_keyID = ''peer-1'', sg_components = [''@method'', ''pipelock-mediation''],
     sg_maxBodyBytes = 1048576, sg_expires = 300000000000\<rparr>"

definition demo_params :: "plain_params inner_list" where
  "demo_params = buildSigParams (table_sfv []) [''@method'', ''pipelock-mediation''] 1700000030 1700000330 ''6e'' ''peer-1''"

definition demo_sfv :: "(plain_dict, plain_params) sfv" where
  "demo_sfv = table_sfv
     [(''envelope'', envelope_dict (table_sfv []) demo_envelope), (''input'', [(''pipelock1'', MInner demo_params)]),
      (''sig'', [(''pipelock1'', MItem \<lparr>it_value = SBytes (replicate 64 CHR ''s''), it_params = []\<rparr>)])]"

definition demo_request :: sig_request where
  "demo_request = \<lparr>sr_method = ''GET'', sr_host = ''example.org'', sr_url = None, sr_tls = True, sr_contentLength = 0,
     sr_header = hdr_set ''Pipelock-Mediation'' ''envelope'' (\<lambda>_. [])\<rparr>"

definition demo_signed :: sig_request where
  "demo_signed = demo_request\<lparr>sr_header := hdr_set ''Signature'' ''sig'' (hdr_del ''Signature'' (hdr_set ''Signature-Input'' ''input''
     (hdr_del ''Signature-Input'' (hdr_del ''Content-Digest'' (sr_header demo_request)))))\<rparr>"

definition demo_verifier :: verifier where
  "demo_verifier = \<lparr>vf_keys = [(''peer-1'', \<lparr>tk_publicKey = replicate 32 CHR ''k'', tk_trustDomains = [''example.org'']\<rparr>)],
     vf_replayCache = Some (newReplayCache 300000000000 10000), vf_skew = 60000000000, vf_actorFormat = ''spiffe'',
     vf_maxSignatureLifetime = 360000000000\<rparr>"

lemma demo_libs: "crypto_ok demo_crypto" "sfv_ok demo_sfv"
  by (simp add: crypto_ok_def demo_crypto_def demo_sig_def) (unfold demo_sfv_def, rule table_sfv_ok, simp)

lemma trim_demo: "TrimSpace ''peer-1'' = ''peer-1''" "TrimSpace ''example.org'' = ''example.org''" "TrimSpace ''GET'' = ''GET''"
    "TrimSpace ''6e'' = ''6e''" "TrimSpace ''spiffe://example.org/agent/bot'' = ''spiffe://example.org/agent/bot''"
  by (rule TrimSpace_plain; simp add: plain_char_def)+

lemma trim_empty: "TrimSpace [] = []"
  by code_simp

lemma demo_verifier_built:
  "buildInboundEnvelopeVerifier plain_lib [(''peer-1'', replicate 32 CHR ''k'', [''example.org''])] 300000000000 10000 60 [] = Inr demo_verifier"
  by (simp add: buildInboundEnvelopeVerifier_def NewVerifier_def trim_demo trim_empty ToLower_def is_ascii_def ascii_lower_def demo_verifier_def)

lemma demo_new_signer: "NewSigner plain_lib demo_signer = Inr demo_signer"
proof -
  have "lower plain_lib (TrimSpace ''@method'') = ''@method''" "lower plain_lib (TrimSpace ''pipelock-mediation'') = ''pipelock-mediation''"
    by (rule supported_plain, simp add: supportedSignedComponents_def)+
  then show ?thesis
    by (simp add: NewSigner_def NormalizeSignedComponents_def demo_signer_def trim_demo supportedSignedComponents_def Let_def)
qed

lemma demo_sign:
  "SignRequest demo_crypto plain_lib demo_sfv 1700000030000000000 (Some ''n'') (Some demo_signer) (Some demo_request) None = (None, Some demo_signed)"
proof -
  let ?h = "hdr_del ''Content-Digest'' (sr_header demo_request)"
  have g: "hdr_get (sr_header demo_request) ''pipelock-mediation'' = ''envelope''"
    by (simp add: demo_request_def hdr_get_def hdr_values_def hdr_set_def canonical_keys)
  then have eff: "effectiveComponents demo_crypto demo_signer demo_request None = ([''@method'', ''pipelock-mediation''], demo_request)"
    by (simp add: effectiveComponents_def demo_signer_def)
  have g2: "hdr_get ?h ''pipelock-mediation'' = ''envelope''"
    using g by (simp add: hdr_get_def hdr_values_def hdr_del_def canonical_keys)
  have hex: "hex_EncodeToString ''n'' = ''6e''" by code_simp
  have p: "buildSigParams demo_sfv [''@method'', ''pipelock-mediation''] 1700000030 1700000330 ''6e'' ''peer-1'' = demo_params"
    by (simp add: demo_params_def demo_sfv_def buildSigParams_def sf_newItem_def)
  have b: "buildSignatureBase demo_crypto plain_lib demo_sfv (demo_request\<lparr>sr_header := ?h\<rparr>) None [''@method'', ''pipelock-mediation''] demo_params = Inr demo_base"
    by (simp add: buildSignatureBase_def buildComponentValue_def g2) (simp add: demo_sfv_def table_sfv_def demo_base_def demo_request_def)
  have v: "hdr_values ?h ''Signature-Input'' = []" "hdr_values (hdr_set ''Signature-Input'' ''input'' (hdr_del ''Signature-Input'' ?h)) ''Signature'' = []"
    by (simp_all add: hdr_values_def hdr_set_def hdr_del_def canonical_keys demo_request_def)
  have w: "sf_marshal demo_sfv (sf_add demo_sfv (sf_newDict demo_sfv) ''pipelock1'' (MInner demo_params)) = Some ''input''"
    "sf_marshal demo_sfv (sf_add demo_sfv (sf_newDict demo_sfv) ''pipelock1'' (MItem (sf_newItem demo_sfv (SBytes (replicate 64 CHR ''s''))))) = Some ''sig''"
    by code_simp+
  have m1: "mergeSignatureInput demo_sfv ?h demo_params = Inr (hdr_set ''Signature-Input'' ''input'' (hdr_del ''Signature-Input'' ?h))"
    by (simp add: mergeSignatureInput_def merge_member_def loadOrNewDict_def v marshalDictToHeader_def w)
  have m2: "mergeSignature demo_sfv (hdr_set ''Signature-Input'' ''input'' (hdr_del ''Signature-Input'' ?h)) (replicate 64 CHR ''s'') =
      Inr (sr_header demo_signed)"
    by (simp add: mergeSignature_def merge_member_def loadOrNewDict_def v(2) marshalDictToHeader_def w demo_signed_def)
  have s: "sg_maxBodyBytes demo_signer = 1048576" "sg_expires demo_signer = 300000000000" "sg_keyID demo_signer = ''peer-1''"
    by (simp_all add: demo_signer_def)
  have c: "cr_sign demo_crypto k demo_base = replicate 64 CHR ''s''" for k by (simp add: demo_crypto_def demo_sig_def)
  have "demo_request\<lparr>sr_header := sr_header demo_signed\<rparr> = demo_signed" by (simp add: demo_signed_def)
  then show ?thesis
    using b m1 m2 by (simp add: SignRequest_def Let_def body_bytes_def s eff containsComponent_def signatureNonce_def hex p c)
qed

lemma demo_parse: "Parse demo_sfv ''envelope'' = Inr demo_envelope"
  by code_simp

definition demo_actor :: parsed_actor where
  "demo_actor = \<lparr>pa_raw = ''spiffe://example.org/agent/bot'', pa_isSPIFFE = True, pa_trustDomain = ''example.org'', pa_workload = ''/agent/bot''\<rparr>"

lemma demo_actor: "parseActor plain_lib demo_verifier (ev_actor demo_envelope) = Inr demo_actor"
proof -
  have u: "nl_parse plain_lib ''spiffe://example.org/agent/bot'' = Some (spiffe_url ''example.org'' ''agent/bot'')"
    "nl_escapedPath plain_lib (spiffe_url ''example.org'' ''agent/bot'') = ''/agent/bot''"
    by (simp_all add: plain_lib_def spiffe_url_def)
  have d: "list_all segment_char ''example.org''" by (simp add: segment_char_def)
  have ip: "ParseIP ''example.org'' = None" by code_simp
  have can: "isCanonicalSPIFFEPath ''/agent/bot''" by (simp add: isCanonicalSPIFFEPath_iff)
  have low: "lower plain_lib ''spiffe://example.org/agent/bot'' = ''spiffe://example.org/agent/bot''"
    "lower plain_lib ''example.org'' = ''example.org''"
    by (simp_all add: ToLower_def is_ascii_def ascii_lower_def)
  show ?thesis
    using u(2) no_port [OF d] ip can
    by (simp add: parseActor_def demo_verifier_def demo_envelope_def ParseActorStrict_def ParseActor_def trim_demo low u(1)
        url_Port_def url_Hostname_def spiffe_url_def demo_actor_def)
qed

lemma demo_checks:
  assumes "validateTime vnow demo_verifier 1700000030 1700000330 = Inr ()"
  shows "verify_checks demo_crypto plain_lib demo_sfv vnow demo_verifier demo_signed None = Inr (demo_envelope, ''6e'', 1700000330)"
proof -
  have h: "hdr_get (sr_header demo_request) ''Pipelock-Mediation'' = ''envelope''"
    by (simp add: demo_request_def hdr_get_def)
  have hex: "hex_EncodeToString ''n'' = ''6e''" by code_simp
  have "verify_checks demo_crypto plain_lib demo_sfv vnow demo_verifier demo_signed None =
    Inr (demo_envelope, hex_EncodeToString ''n'', 1700000030000000000 div 1000000000 + sg_expires demo_signer div 1000000000)"
    by (rule signed_request_checks [OF demo_libs demo_new_signer demo_sign, where actor = demo_actor
          and tk = "\<lparr>tk_publicKey = replicate 32 CHR ''k'', tk_trustDomains = [''example.org'']\<rparr>"])
      (use assms h demo_parse demo_actor in \<open>simp_all add: body_bytes_def demo_signer_def requestHasSignedBody_def
        demo_request_def demo_verifier_def demo_crypto_def pinsTrustDomain_def allowsTrustDomain_def demo_actor_def
        ToLower_def is_ascii_def ascii_lower_def\<close>)
  then show ?thesis by (simp add: hex demo_signer_def)
qed

section \<open>Witnesses and the configured cap\<close>

lemma demo_times:
  "validateTime 1700000000000000000 demo_verifier 1700000030 1700000330 = Inr ()"
  "validateTime 1700000360000000000 demo_verifier 1700000030 1700000330 = Inr ()"
  by (simp_all add: validateTime_def demo_verifier_def time_Sub_def)

text \<open>
  C37. The proxy caps signature lifetimes at the replay window plus the skew. With the default window
  of five minutes and skew of one minute, a signature of the default five-minute lifetime, made by a
  peer whose clock is thirty seconds ahead, is accepted, and the same request is accepted again six
  minutes later: its nonce was forgotten while the signature is still within its expiry plus skew.
\<close>

theorem configured_cap_allows_replay:
  "let V = \<lambda>t v. VerifyRequest demo_crypto plain_lib demo_sfv t t v (Some demo_signed) None;
       first = V 1700000000000000000 (Some demo_verifier) in
   buildInboundEnvelopeVerifier plain_lib [(''peer-1'', replicate 32 CHR ''k'', [''example.org''])] 300000000000 10000 60 [] = Inr demo_verifier \<and>
   SignRequest demo_crypto plain_lib demo_sfv 1700000030000000000 (Some ''n'') (Some demo_signer) (Some demo_request) None = (None, Some demo_signed) \<and>
   fst first = Inr demo_envelope \<and> fst (V 1700000360000000000 (snd first)) = Inr demo_envelope"
proof -
  let ?c = "\<lparr>rc_entries = [(''6e'', 1700000360000000000)], rc_window = 300000000000, rc_max = 10000\<rparr>"
  have 1: "VerifyRequest demo_crypto plain_lib demo_sfv 1700000000000000000 1700000000000000000 (Some demo_verifier) (Some demo_signed) None =
      (Inr demo_envelope, Some (demo_verifier\<lparr>vf_replayCache := Some ?c\<rparr>))"
    by (simp add: VerifyRequest_def demo_checks [OF demo_times(1)])
      (simp add: demo_verifier_def newReplayCache_def CheckAndStoreWithSkew_def zero_time_def Let_def)
  have 2: "fst (VerifyRequest demo_crypto plain_lib demo_sfv 1700000360000000000 1700000360000000000
      (Some (demo_verifier\<lparr>vf_replayCache := Some ?c\<rparr>)) (Some demo_signed) None) = Inr demo_envelope"
    by (simp add: VerifyRequest_def demo_checks [OF demo_times(2)])
      (simp add: demo_verifier_def CheckAndStoreWithSkew_def zero_time_def Let_def)
  from 1 2 show ?thesis using demo_verifier_built demo_sign by (simp add: Let_def)
qed
lemma demo_accepts:
  assumes "validateTime t demo_verifier 1700000030 1700000330 = Inr ()"
    "CheckAndStoreWithSkew t ''6e'' 1700000330000000000 60000000000 c = (None, c')"
  shows "VerifyRequest demo_crypto plain_lib demo_sfv t t (Some (demo_verifier\<lparr>vf_replayCache := c\<rparr>)) (Some demo_signed) None =
    (Inr demo_envelope, Some (demo_verifier\<lparr>vf_replayCache := c'\<rparr>))"
  using assms(2) by (simp add: VerifyRequest_def demo_checks [OF assms(1)]) (simp add: demo_verifier_def)

theorem accepted_request_not_replayed_witness:
  "let V = \<lambda>t v. VerifyRequest demo_crypto plain_lib demo_sfv t t v (Some demo_signed) None;
       first = V 1700000000000000000 (Some (demo_verifier\<lparr>vf_replayCache := Some (newReplayCache 600000000000 10000)\<rparr>)) in
   fst first = Inr demo_envelope \<and> fst (V 1700000380000000000 (snd first)) \<in> {Inl FReplay, Inl FExpired}"
proof -
  let ?v = "demo_verifier\<lparr>vf_replayCache := Some (newReplayCache 600000000000 10000)\<rparr>"
  have "\<exists>c'. CheckAndStoreWithSkew 1700000000000000000 ''6e'' 1700000330000000000 60000000000 (Some (newReplayCache 600000000000 10000)) = (None, c')"
    by (simp add: CheckAndStoreWithSkew_def newReplayCache_def zero_time_def Let_def)
  then obtain c' where c': "CheckAndStoreWithSkew 1700000000000000000 ''6e'' 1700000330000000000 60000000000 (Some (newReplayCache 600000000000 10000)) = (None, c')" ..
  note acc = demo_accepts [OF demo_times(1) c']
  have ok: "cache_ok 600000000000 10000 (vf_replayCache ?v)" by (simp add: cache_ok_def newReplayCache_def)
  have "fst (VerifyRequest demo_crypto plain_lib demo_sfv 1700000380000000000 1700000380000000000
      (fold (verify_step demo_crypto plain_lib demo_sfv) [] (Some (demo_verifier\<lparr>vf_replayCache := c'\<rparr>))) (Some demo_signed) None) \<in> {Inl FReplay, Inl FExpired}"
    by (rule accepted_request_not_replayed [OF acc ok]) (simp_all add: demo_verifier_def)
  then show ?thesis by (simp add: acc Let_def)
qed

theorem accepted_request_authentic_witness:
  "fst (VerifyRequest demo_crypto plain_lib demo_sfv 1700000000000000000 1700000000000000000 (Some demo_verifier) (Some demo_signed) None) = Inr demo_envelope \<and>
   (\<exists>keyID tk. map_of (vf_keys demo_verifier) keyID = Some tk \<and> demo_base \<in> (\<lambda>_. {demo_base}) (tk_publicKey tk)) \<and> envelope_ok demo_envelope"
proof -
  have "\<exists>c'. CheckAndStoreWithSkew 1700000000000000000 ''6e'' 1700000330000000000 60000000000 (vf_replayCache demo_verifier) = (None, c')"
    by (simp add: CheckAndStoreWithSkew_def newReplayCache_def zero_time_def demo_verifier_def Let_def)
  then obtain c' where c': "CheckAndStoreWithSkew 1700000000000000000 ''6e'' 1700000330000000000 60000000000 (vf_replayCache demo_verifier) = (None, c')" ..
  from demo_accepts [OF demo_times(1) c']
  have acc: "VerifyRequest demo_crypto plain_lib demo_sfv 1700000000000000000 1700000000000000000 (Some demo_verifier) (Some demo_signed) None =
      (Inr demo_envelope, Some (demo_verifier\<lparr>vf_replayCache := c'\<rparr>))" by simp
  have "demo_sig m = replicate 64 CHR ''s'' \<longrightarrow> m = demo_base" for m by (auto simp: demo_sig_def dest: arg_cong [where f = hd])
  then have u: "unforgeable demo_crypto {replicate 64 CHR ''s''} (\<lambda>_. {demo_base})"
    by (auto simp: unforgeable_def demo_crypto_def)
  have "map_option snd (mediationSignature demo_sfv (sr_header demo_signed)) = Some (replicate 64 CHR ''s'')" by code_simp
  from accepted_request_authentic [OF u this _ acc] acc show ?thesis by auto
qed
section \<open>Signatures that do not cover the envelope\<close>

lemma component_lines_set_envelope:
  "''pipelock-mediation'' \<notin> set cs \<Longrightarrow>
     component_lines cr nl (req\<lparr>sr_header := hdr_set ''Pipelock-Mediation'' raw (sr_header req)\<rparr>) body cs = component_lines cr nl req body cs"
proof (induction cs)
  case (Cons c cs)
  have tu: "targetURIComponent nl (req\<lparr>sr_header := hdr_set ''Pipelock-Mediation'' raw (sr_header req)\<rparr>) = targetURIComponent nl req"
    by (rule targetURIComponent_cong) simp_all
  have "buildComponentValue cr nl (req\<lparr>sr_header := hdr_set ''Pipelock-Mediation'' raw (sr_header req)\<rparr>) body c = buildComponentValue cr nl req body c"
    using Cons.prems tu by (auto simp add: buildComponentValue_def hdr_get_def canonical_keys)
  with Cons show ?case by (simp split: sum.splits)
qed simp

text \<open>
  The verifier does not require the signature to cover the envelope: when an accepted request's
  signature leaves \<^verbatim>\<open>pipelock-mediation\<close> out of its component list, the envelope may be replaced by
  any other well-formed one with the same actor, and the request is accepted with it.
\<close>

theorem uncovered_envelope_replaceable:
  assumes acc: "VerifyRequest cr nl sf now cnow (Some v) (Some req) body = (Inr env, v1)"
    and comps: "mediationSignature sf (sr_header req) = Some (inner, sig)" "innerComponents nl inner = Some components"
      "''pipelock-mediation'' \<notin> set components"
    and forged: "raw \<noteq> []" "Parse sf raw = Inr env'" "ev_actor env' = ev_actor env"
  shows "VerifyRequest cr nl sf now cnow (Some v) (Some (req\<lparr>sr_header := hdr_set ''Pipelock-Mediation'' raw (sr_header req)\<rparr>)) body = (Inr env', v1)"
proof -
  let ?req = "req\<lparr>sr_header := hdr_set ''Pipelock-Mediation'' raw (sr_header req)\<rparr>"
  from acc obtain nonce expires cache where chk: "verify_checks cr nl sf now v req body = Inr (env, nonce, expires)"
    and st: "CheckAndStoreWithSkew cnow nonce (expires * 1000000000) (vf_skew v) (vf_replayCache v) = (None, cache)"
    and v1: "v1 = Some (v\<lparr>vf_replayCache := cache\<rparr>)" by (rule VerifyRequest_Inr)
  have med: "mediationSignature sf (sr_header ?req) = mediationSignature sf (sr_header req)"
    by (simp add: mediationSignature_def canonical_keys split: option.splits)
  have dig: "check_digest cr ?req body components = check_digest cr req body components"
    by (simp add: check_digest_def requestHasSignedBody_def hdr_get_def canonical_keys split: option.splits)
  have base: "buildSignatureBase cr nl sf ?req body components i = buildSignatureBase cr nl sf req body components i" for i
    using component_lines_set_envelope [OF comps(3)] by (simp add: buildSignatureBase_def)
  have get: "hdr_get (sr_header ?req) ''Pipelock-Mediation'' = raw" by (simp add: hdr_get_def)
  from chk have "verify_checks cr nl sf now v ?req body = Inr (env', nonce, expires)"
  proof (rule verify_checks_Inr)
    fix actor inner' sigBytes keyID tk created cs b
    assume a: "parseActor nl v (ev_actor env) = Inr actor" "mediationSignature sf (sr_header req) = Some (inner', sigBytes)"
      "paramString sf inner' ''keyid'' = Some keyID" "map_of (vf_keys v) keyID = Some tk"
      "pinsTrustDomain tk \<longrightarrow> pa_isSPIFFE actor \<and> allowsTrustDomain nl tk (pa_trustDomain actor)"
      "paramString sf inner' ''alg'' = Some ''ed25519''" "paramString sf inner' ''tag'' = Some ''pipelock-mediation''"
      "paramInt64 sf inner' ''created'' = Some created" "paramInt64 sf inner' ''expires'' = Some expires"
      "paramString sf inner' ''nonce'' = Some nonce" "validateTime now v created expires = Inr ()"
      "innerComponents nl inner' = Some cs" "check_digest cr req body cs = Inr ()"
      "buildSignatureBase cr nl sf req body cs inner' = Inr b" "cr_verify cr (tk_publicKey tk) b sigBytes"
    have i: "inner' = inner" "cs = components" using a(2,12) comps(1,2) by simp_all
    show ?thesis
      by (rule verify_checks_passes [where actor = actor and inner = inner and sigBytes = sigBytes and keyID = keyID and tk = tk
            and created = created and components = components and base = b])
        (use a forged in \<open>simp_all only: get med dig base i forged not_False_eq_True\<close>)
  qed
  with st v1 show ?thesis by (simp add: VerifyRequest_def)
qed
definition loose_params :: "plain_params inner_list" where
  "loose_params = buildSigParams (table_sfv []) [''@method''] 1700000030 1700000330 ''6e'' ''peer-1''"

definition forged_envelope :: envelope where
  "forged_envelope = demo_envelope\<lparr>ev_authorityKind := ''operator'', ev_requiresReauth := False\<rparr>"

definition loose_sfv :: "(plain_dict, plain_params) sfv" where
  "loose_sfv = table_sfv
     [(''envelope'', envelope_dict (table_sfv []) demo_envelope), (''forged'', envelope_dict (table_sfv []) forged_envelope),
      (''input'', [(''pipelock1'', MInner loose_params)]),
      (''sig'', [(''pipelock1'', MItem \<lparr>it_value = SBytes (replicate 64 CHR ''x''), it_params = []\<rparr>)])]"

definition loose_request :: sig_request where
  "loose_request = demo_request\<lparr>sr_header := hdr_set ''Signature'' ''sig'' (hdr_set ''Signature-Input'' ''input'' (sr_header demo_request))\<rparr>"

lemma loose_facts:
  "mediationSignature loose_sfv (sr_header loose_request) = Some (loose_params, replicate 64 CHR ''x'')"
  "hdr_get (sr_header loose_request) ''Pipelock-Mediation'' = ''envelope''" "Parse loose_sfv ''envelope'' = Inr demo_envelope"
  "Parse loose_sfv ''forged'' = Inr forged_envelope"
  by code_simp+

lemma loose_components: "innerComponents plain_lib loose_params = Some [''@method'']"
proof -
  have "component_names plain_lib (map (\<lambda>c. sf_newItem (table_sfv []) (SStr c)) [''@method'']) = Some [''@method'']"
    by (rule component_names_newItems) (simp add: supportedSignedComponents_def)
  then show ?thesis by (simp add: innerComponents_def loose_params_def buildSigParams_def)
qed

lemma loose_accepted:
  "\<exists>v1. VerifyRequest demo_crypto plain_lib loose_sfv 1700000000000000000 1700000000000000000 (Some demo_verifier) (Some loose_request) None =
     (Inr demo_envelope, v1)"
proof -
  have lp: "loose_params = buildSigParams loose_sfv [''@method''] 1700000030 1700000330 ''6e'' ''peer-1''"
    by (simp add: loose_params_def buildSigParams_def loose_sfv_def sf_newItem_def)
  have ok: "sfv_ok loose_sfv" unfolding loose_sfv_def by (rule table_sfv_ok) simp
  note pr = sig_params [OF ok lp]
  have base: "\<exists>m. buildSignatureBase demo_crypto plain_lib loose_sfv loose_request None [''@method''] loose_params = Inr m \<and> m \<noteq> demo_base"
    by (simp add: buildSignatureBase_def buildComponentValue_def) (simp add: loose_sfv_def table_sfv_def demo_base_def loose_request_def demo_request_def)
  then obtain m where m: "buildSignatureBase demo_crypto plain_lib loose_sfv loose_request None [''@method''] loose_params = Inr m" "m \<noteq> demo_base" by blast
  let ?tk = "\<lparr>tk_publicKey = replicate 32 CHR ''k'', tk_trustDomains = [''example.org'']\<rparr>"
  have key: "map_of (vf_keys demo_verifier) ''peer-1'' = Some ?tk" by (simp add: demo_verifier_def)
  have pin: "pinsTrustDomain ?tk \<longrightarrow> pa_isSPIFFE demo_actor \<and> allowsTrustDomain plain_lib ?tk (pa_trustDomain demo_actor)"
    by (simp add: allowsTrustDomain_def demo_actor_def ToLower_def is_ascii_def ascii_lower_def)
  have dig: "check_digest demo_crypto loose_request None [''@method''] = Inr ()"
    by (simp add: check_digest_def containsComponent_def guard_def requestHasSignedBody_def body_bytes_def loose_request_def demo_request_def)
  have ver: "cr_verify demo_crypto (tk_publicKey ?tk) m (replicate 64 CHR ''x'')" using m(2) by (simp add: demo_crypto_def demo_sig_def)
  have "verify_checks demo_crypto plain_lib loose_sfv 1700000000000000000 demo_verifier loose_request None = Inr (demo_envelope, ''6e'', 1700000330)"
    by (rule verify_checks_passes [OF _ _ demo_actor loose_facts(1) pr(1) key pin pr(2,3,5,6,4) demo_times(1) loose_components dig m(1) ver])
      (simp_all add: loose_facts trim_demo)
  then show ?thesis
    by (simp add: VerifyRequest_def) (simp add: demo_verifier_def newReplayCache_def CheckAndStoreWithSkew_def zero_time_def Let_def)
qed

theorem uncovered_envelope_replaceable_witness:
  "fst (VerifyRequest demo_crypto plain_lib loose_sfv 1700000000000000000 1700000000000000000 (Some demo_verifier)
     (Some (loose_request\<lparr>sr_header := hdr_set ''Pipelock-Mediation'' ''forged'' (sr_header loose_request)\<rparr>)) None) = Inr forged_envelope"
proof -
  from loose_accepted obtain v1 where "VerifyRequest demo_crypto plain_lib loose_sfv 1700000000000000000 1700000000000000000
    (Some demo_verifier) (Some loose_request) None = (Inr demo_envelope, v1)" by blast
  from uncovered_envelope_replaceable [OF this loose_facts(1) loose_components _ _ loose_facts(4)]
  show ?thesis by (simp add: forged_envelope_def)
qed

end
