(* ===== verification/EnvelopeEmit.thy ===== *)
theory EnvelopeEmit
  imports EnvelopeVerify
begin

text \<open>
  The emitter of mediation envelopes (\<^verbatim>\<open>internal/envelope/emitter.go\<close>, \<^verbatim>\<open>directory.go\<close>): it builds the envelope of a
  decision, injects it, buffers the body when the caller has not, and signs.

  A request body is the stream the transport would read: its bytes and whether it ends in a read
  error. The emitter's configuration hash is a stored string, so the failed type assertion of
  \<^verbatim>\<open>configHashString\<close> does not arise. Wall clock readings are arguments.
\<close>

section \<open>Bodies\<close>

datatype req_body = NilBody | NoBody | Stream string bool

datatype get_body = NoGetBody | CallerGetBody | GetBytes string | OverCapGetBody

record emit_request =
  em_req :: sig_request
  em_body :: req_body
  em_getBody :: get_body

datatype emit_error = EmitNilRequest | EmitActor actor_error | EmitWire wire_error | EmitSign sign_error | BodyReadError | BodyReadLimit

definition requestHasBody :: "emit_request \<Rightarrow> bool" where
  "requestHasBody r = (em_body r \<noteq> NilBody \<and> em_body r \<noteq> NoBody)"

text \<open>\<^verbatim>\<open>io.ReadAll(io.LimitReader(body, n))\<close>: the bytes read, or an error before the limit; what is left.\<close>

definition read_limited :: "nat \<Rightarrow> string \<Rightarrow> bool \<Rightarrow> string option" where
  "read_limited n bytes fails = (if length bytes < n \<and> fails then None else Some (take n bytes))"

definition defaultBufferRequestBodyMaxBytes :: int where
  "defaultBufferRequestBodyMaxBytes = 1048576"

definition bufferRequestBody :: "int \<Rightarrow> emit_request \<Rightarrow> (emit_error + string option) \<times> emit_request" where
  "bufferRequestBody maxBytes0 r =
     (case em_body r of
        Stream bytes fails \<Rightarrow>
          let failClosedOnOverflow = (maxBytes0 \<le> 0);
              maxBytes = (if maxBytes0 \<le> 0 then defaultBufferRequestBodyMaxBytes else maxBytes0) in
          if maxBytes > 0 \<and> sr_contentLength (em_req r) > maxBytes then
            (if failClosedOnOverflow then (Inl BodyReadLimit, r) else (Inr None, r))
          else (case read_limited (nat (maxBytes + 1)) bytes fails of
            None \<Rightarrow> (Inl BodyReadError, r\<lparr>em_body := Stream [] fails\<rparr>)
          | Some data \<Rightarrow>
              if maxBytes > 0 \<and> int (length data) > maxBytes then
                let r' = r\<lparr>em_body := Stream (data @ drop (length data) bytes) fails,
                      em_getBody := (if em_getBody r \<noteq> NoGetBody then em_getBody r else OverCapGetBody)\<rparr> in
                if failClosedOnOverflow then (Inl BodyReadLimit, r') else (Inr None, r')
              else (Inr (Some data), r\<lparr>em_body := Stream data False, em_getBody := GetBytes data,
                      em_req := (em_req r)\<lparr>sr_contentLength := int (length data)\<rparr>\<rparr>))
      | _ \<Rightarrow> (Inr None, r))"

section \<open>The emitter\<close>

record emitter =
  et_configHash :: string
  et_signer :: "signer option"
  et_actorFormat :: string
  et_trustDomain :: string

definition NewEmitter :: "string \<Rightarrow> signer option \<Rightarrow> string \<Rightarrow> string \<Rightarrow> emitter" where
  "NewEmitter hash s fmt td = \<lparr>et_configHash = hash, et_signer = s, et_actorFormat = fmt, et_trustDomain = td\<rparr>"

definition HasSigner :: "emitter option \<Rightarrow> bool" where
  "HasSigner e = (case e of None \<Rightarrow> False | Some e \<Rightarrow> et_signer e \<noteq> None)"

definition Signer :: "emitter option \<Rightarrow> signer option" where
  "Signer e = (case e of None \<Rightarrow> None | Some e \<Rightarrow> et_signer e)"

definition UpdateConfigHash :: "string \<Rightarrow> emitter option \<Rightarrow> emitter option" where
  "UpdateConfigHash hash e = map_option (\<lambda>e. e\<lparr>et_configHash := hash\<rparr>) e"

record directory_key =
  dk_keyID :: string
  dk_algorithm :: string
  dk_publicKey :: string
  dk_use :: string

definition signer_Directory :: "crypto \<Rightarrow> signer option \<Rightarrow> directory_key list" where
  "signer_Directory cr s = (case s of None \<Rightarrow> []
     | Some s \<Rightarrow> [\<lparr>dk_keyID = sg_keyID s, dk_algorithm = ''ed25519'', dk_publicKey = hex_EncodeToString (cr_public cr (sg_privKey s)),
         dk_use = ''pipelock-mediation''\<rparr>])"

definition emitter_Directory :: "crypto \<Rightarrow> emitter option \<Rightarrow> directory_key list" where
  "emitter_Directory cr e = (case e of None \<Rightarrow> [] | Some e \<Rightarrow> if et_signer e = None then [] else signer_Directory cr (et_signer e))"

fun hex_DecodeString :: "string \<Rightarrow> string option" where
  "hex_DecodeString [] = Some []"
| "hex_DecodeString [_] = None"
| "hex_DecodeString (a # b # s) =
     (case (digit_val 16 a, digit_val 16 b, hex_DecodeString s) of
        (Some x, Some y, Some r) \<Rightarrow> Some (char_of (x * 16 + y) # r) | _ \<Rightarrow> None)"

definition policyHashTruncated :: "crypto \<Rightarrow> string \<Rightarrow> string" where
  "policyHashTruncated cr hash =
     (if hash = [] then replicate 16 (char_of (0 :: nat))
      else case hex_DecodeString hash of
        None \<Rightarrow> take 16 (cr_sha256 cr hash)
      | Some decoded \<Rightarrow>
          if length decoded \<ge> 16 then take 16 decoded
          else decoded @ replicate (16 - length decoded) (char_of (0 :: nat)))"

definition PolicyHashFromHex :: "crypto \<Rightarrow> string \<Rightarrow> string" where
  "PolicyHashFromHex cr hash = policyHashTruncated cr hash"

record build_opts =
  bo_actionID :: string
  bo_action :: string
  bo_verdict :: string
  bo_sideEffect :: string
  bo_actor :: string
  bo_actorAuth :: string
  bo_sessionTaint :: string
  bo_taskID :: string
  bo_authorityKind :: string
  bo_authorityRef :: string
  bo_requiresReauth :: bool
  bo_policyHash :: string

definition zero_envelope :: envelope where
  "zero_envelope = \<lparr>ev_version = 0, ev_action = [], ev_verdict = [], ev_sideEffect = [], ev_actor = [], ev_actorAuth = [],
     ev_policyHash = [], ev_receiptID = [], ev_timestamp = 0, ev_sessionTaint = [], ev_taskID = [], ev_authorityKind = [],
     ev_authorityRef = [], ev_requiresReauth = False, ev_hop = 0\<rparr>"

definition Build :: "crypto \<Rightarrow> net_lib \<Rightarrow> go_time \<Rightarrow> emitter option \<Rightarrow> build_opts \<Rightarrow> emit_error + envelope" where
  "Build cr nl now emitter o1 =
     (case emitter of None \<Rightarrow> Inr zero_envelope
      | Some e \<Rightarrow>
          let hash = (if bo_policyHash o1 \<noteq> [] then bo_policyHash o1 else policyHashTruncated cr (et_configHash e)) in
          (case FormatActor nl (bo_actor o1) (et_actorFormat e) (et_trustDomain e) of Inl err \<Rightarrow> Inl (EmitActor err)
           | Inr actor \<Rightarrow> Inr \<lparr>ev_version = 1, ev_action = bo_action o1, ev_verdict = bo_verdict o1,
               ev_sideEffect = bo_sideEffect o1, ev_actor = actor, ev_actorAuth = bo_actorAuth o1, ev_policyHash = hash,
               ev_receiptID = bo_actionID o1, ev_timestamp = now div 1000000000, ev_sessionTaint = bo_sessionTaint o1,
               ev_taskID = bo_taskID o1, ev_authorityKind = bo_authorityKind o1, ev_authorityRef = bo_authorityRef o1,
               ev_requiresReauth = bo_requiresReauth o1, ev_hop = 0\<rparr>))"

definition InjectHTTPEnvelope ::
  "crypto \<Rightarrow> net_lib \<Rightarrow> ('d, 'p) sfv \<Rightarrow> go_time \<Rightarrow> emitter option \<Rightarrow> build_opts \<Rightarrow> header \<Rightarrow> emit_error option \<times> header" where
  "InjectHTTPEnvelope cr nl sf now emitter opts h =
     (case emitter of None \<Rightarrow> (None, h)
      | Some e \<Rightarrow> (case Build cr nl now emitter opts of Inl err \<Rightarrow> (Some err, h)
          | Inr env \<Rightarrow> (let (err, h') = InjectHTTP sf env h in (map_option EmitWire err, h'))))"

definition stripEnvelopeHeaders :: "emit_request \<Rightarrow> emit_request" where
  "stripEnvelopeHeaders r = r\<lparr>em_req := (em_req r)\<lparr>sr_header :=
     hdr_del ''content-digest'' (hdr_del ''Signature-Input'' (hdr_del ''Signature'' (hdr_del ''pipelock-mediation'' (sr_header (em_req r)))))\<rparr>\<rparr>"

text \<open>The signing part of \<^verbatim>\<open>InjectAndSign\<close>; \<open>snow\<close> is the signer's reading of the clock.\<close>

definition buffer_and_sign ::
  "crypto \<Rightarrow> net_lib \<Rightarrow> ('d, 'p) sfv \<Rightarrow> go_time \<Rightarrow> string option \<Rightarrow> signer \<Rightarrow> emit_request \<Rightarrow> string option
   \<Rightarrow> emit_error option \<times> emit_request" where
  "buffer_and_sign cr nl sf snow rand s r body =
     (let (buffered, r') = (if body = None \<and> requestHasBody r then bufferRequestBody (sg_maxBodyBytes s) r else (Inr body, r)) in
      case buffered of Inl err \<Rightarrow> (Some err, stripEnvelopeHeaders r')
      | Inr body' \<Rightarrow>
          (case SignRequest cr nl sf snow rand (Some s) (Some (em_req r')) body' of
             (None, Some q) \<Rightarrow> (None, r'\<lparr>em_req := q\<rparr>)
           | (Some err, Some q) \<Rightarrow> (Some (EmitSign err), stripEnvelopeHeaders (r'\<lparr>em_req := q\<rparr>))
           | (_, None) \<Rightarrow> (Some EmitNilRequest, r')))"

definition InjectAndSign ::
  "crypto \<Rightarrow> net_lib \<Rightarrow> ('d, 'p) sfv \<Rightarrow> go_time \<Rightarrow> go_time \<Rightarrow> string option \<Rightarrow> emitter option \<Rightarrow> emit_request option \<Rightarrow> string option
   \<Rightarrow> build_opts \<Rightarrow> emit_error option \<times> emit_request option" where
  "InjectAndSign cr nl sf now snow rand emitter request body opts =
     (case emitter of None \<Rightarrow> (None, request)
      | Some e \<Rightarrow> (case request of None \<Rightarrow> (Some EmitNilRequest, None)
      | Some r \<Rightarrow> (case Build cr nl now emitter opts of Inl err \<Rightarrow> (Some err, Some (stripEnvelopeHeaders r))
      | Inr env \<Rightarrow> (case InjectHTTP sf env (sr_header (em_req r)) of
          (Some err, h) \<Rightarrow> (Some (EmitWire err), Some (stripEnvelopeHeaders (r\<lparr>em_req := (em_req r)\<lparr>sr_header := h\<rparr>\<rparr>)))
        | (None, h) \<Rightarrow>
            let r1 = r\<lparr>em_req := (em_req r)\<lparr>sr_header := h\<rparr>\<rparr> in
            (case et_signer e of None \<Rightarrow> (None, Some r1)
             | Some s \<Rightarrow> (let (err, r2) = buffer_and_sign cr nl sf snow rand s r1 body in (err, Some r2)))))))"

definition InjectMCPEnvelope ::
  "crypto \<Rightarrow> net_lib \<Rightarrow> go_time \<Rightarrow> emitter option \<Rightarrow> build_opts \<Rightarrow> (string \<rightharpoonup> 'a meta_any)
   \<Rightarrow> emit_error option \<times> (string \<rightharpoonup> 'a meta_any)" where
  "InjectMCPEnvelope cr nl now emitter opts meta =
     (case emitter of None \<Rightarrow> (None, meta)
      | Some e \<Rightarrow> (case Build cr nl now emitter opts of Inl err \<Rightarrow> (Some err, meta) | Inr env \<Rightarrow> (None, InjectMCP env meta)))"
section \<open>Errors leave no envelope behind\<close>

lemma stripped_headers:
  "hdr_values (sr_header (em_req (stripEnvelopeHeaders r))) n =
     (if CanonicalMIMEHeaderKey n \<in> {''Pipelock-Mediation'', ''Signature'', ''Signature-Input'', ''Content-Digest''} then []
      else hdr_values (sr_header (em_req r)) n)"
proof -
  have "CanonicalMIMEHeaderKey ''content-digest'' = ''Content-Digest''" by code_simp
  then show ?thesis by (auto simp: stripEnvelopeHeaders_def hdr_values_def hdr_del_def canonical_keys)
qed

lemma SignRequest_keeps_request: "\<exists>err q. SignRequest cr nl sf now rand (Some s) (Some req) body = (err, Some q)"
proof -
  let ?body = "if sg_maxBodyBytes s > 0 \<and> int (length (body_bytes body)) > sg_maxBodyBytes s then None else body"
  obtain eff q where "effectiveComponents cr s req ?body = (eff, q)" by force
  then show ?thesis by (simp add: SignRequest_def Let_def split: option.split sum.split del: split_paired_Ex)
qed

lemma buffer_and_sign_error:
  assumes "buffer_and_sign cr nl sf snow rand s r body = (Some err, r')"
  obtains q where "r' = stripEnvelopeHeaders q"
proof -
  obtain buffered r1 where b: "(if body = None \<and> requestHasBody r then bufferRequestBody (sg_maxBodyBytes s) r else (Inr body, r)) = (buffered, r1)"
    by force
  show thesis
  proof (cases buffered)
    case (Inl e)
    with b assms show ?thesis by (auto simp: buffer_and_sign_def intro: that)
  next
    case (Inr body')
    obtain e q where q: "SignRequest cr nl sf snow rand (Some s) (Some (em_req r1)) body' = (e, Some q)"
      using SignRequest_keeps_request [of cr nl sf snow rand s "em_req r1" body'] by blast
    with b Inr assms show ?thesis by (cases e) (auto simp: buffer_and_sign_def intro: that)
  qed
qed

text \<open>
  When injecting or signing fails, whatever the step, the request that is left carries no
  mediation envelope, no content digest and no signature header at all.
\<close>

theorem failed_injection_strips:
  assumes "InjectAndSign cr nl sf now snow rand emitter request body opts = (Some err, Some r')"
    and "CanonicalMIMEHeaderKey n \<in> {''Pipelock-Mediation'', ''Signature'', ''Signature-Input'', ''Content-Digest''}"
  shows "hdr_values (sr_header (em_req r')) n = []"
proof -
  have "\<exists>q. r' = stripEnvelopeHeaders q"
    using assms(1) by (auto simp: InjectAndSign_def Let_def split: option.splits sum.splits prod.splits elim: buffer_and_sign_error)
  then show ?thesis using assms(2) by (auto simp: stripped_headers)
qed

section \<open>Bodies reach the transport\<close>

definition body_text :: "req_body \<Rightarrow> string" where
  "body_text b = (case b of Stream s _ \<Rightarrow> s | _ \<Rightarrow> [])"

text \<open>
  Buffering a body for its digest never changes the bytes the transport sends: when it succeeds
  the request's stream has the same content; the bytes handed to the signer are exactly that
  content and within the limit; and none are handed over only when there is no body, it exceeds the
  limit, or the declared length does.
\<close>

lemma buffering_preserves_body:
  assumes "bufferRequestBody maxBytes r = (Inr data, r')"
  defines "cap \<equiv> if maxBytes \<le> 0 then 1048576 else maxBytes"
  shows "body_text (em_body r') = body_text (em_body r) \<and>
    (case data of Some d \<Rightarrow> d = body_text (em_body r) \<and> int (length d) \<le> cap \<and> sr_contentLength (em_req r') = int (length d)
     | None \<Rightarrow> \<not> requestHasBody r \<or> int (length (body_text (em_body r))) > cap \<or> sr_contentLength (em_req r) > cap)"
proof (cases "em_body r")
  case (Stream bytes fails)
  have cap: "0 < cap" by (simp add: cap_def)
  have c: "(if maxBytes \<le> 0 then defaultBufferRequestBodyMaxBytes else maxBytes) = cap"
    by (simp add: cap_def defaultBufferRequestBodyMaxBytes_def)
  show ?thesis using assms(1) cap Stream
    by (auto simp: bufferRequestBody_def c Let_def read_limited_def body_text_def requestHasBody_def min_def
        split: if_splits)
qed (use assms(1) in \<open>auto simp: bufferRequestBody_def body_text_def requestHasBody_def\<close>)
section \<open>From the emitter to the verifier\<close>

text \<open>A verifier trusts a signer for an envelope: it has the key, and the key may vouch for the actor.\<close>

definition trusts :: "crypto \<Rightarrow> net_lib \<Rightarrow> verifier \<Rightarrow> signer \<Rightarrow> envelope \<Rightarrow> bool" where
  "trusts cr nl v s env \<longleftrightarrow> (\<exists>tk actor. map_of (vf_keys v) (sg_keyID s) = Some tk \<and>
     tk_publicKey tk = cr_public cr (sg_privKey s) \<and> parseActor nl v (ev_actor env) = Inr actor \<and>
     (pinsTrustDomain tk \<longrightarrow> pa_isSPIFFE actor \<and> allowsTrustDomain nl tk (pa_trustDomain actor)))"

text \<open>The signature, made at \<open>snow\<close> by the peer's clock, is neither too new nor expired at \<open>vnow\<close> to \<open>cnow\<close>.\<close>

definition timely :: "verifier \<Rightarrow> signer \<Rightarrow> go_time \<Rightarrow> go_time \<Rightarrow> go_time \<Rightarrow> bool" where
  "timely v s snow vnow cnow \<longleftrightarrow> snow \<le> vnow + vf_skew v \<and> 0 \<le> snow \<and> vnow \<le> cnow \<and> 0 \<le> vf_skew v \<and>
     1000000000 \<le> sg_expires s \<and> cnow + 2000000000 \<le> snow + sg_expires s + vf_skew v \<and>
     (vf_maxSignatureLifetime v \<le> 0 \<or> sg_expires s \<le> vf_maxSignatureLifetime v)"

text \<open>The body the receiving side reads.\<close>

definition delivered :: "req_body \<Rightarrow> string option" where
  "delivered b = (case b of Stream s _ \<Rightarrow> Some s | _ \<Rightarrow> None)"

text \<open>A request whose body the signer can cover.\<close>

definition coverable :: "signer \<Rightarrow> emit_request \<Rightarrow> bool" where
  "coverable s r \<longleftrightarrow> (let cap = (if sg_maxBodyBytes s \<le> 0 then 1048576 else sg_maxBodyBytes s) in
     case em_body r of
       Stream bytes fails \<Rightarrow> \<not> fails \<and> int (length bytes) \<le> cap \<and> sr_contentLength (em_req r) \<le> cap \<and>
         ''content-digest'' \<in> set (sg_components s)
     | _ \<Rightarrow> sr_contentLength (em_req r) \<le> 0)"

lemma coverable_buffer:
  assumes "coverable s r"
  defines "r' \<equiv> (case em_body r of Stream bytes _ \<Rightarrow>
      r\<lparr>em_body := Stream bytes False, em_getBody := GetBytes bytes, em_req := (em_req r)\<lparr>sr_contentLength := int (length bytes)\<rparr>\<rparr> | _ \<Rightarrow> r)"
  shows "(if requestHasBody r then bufferRequestBody (sg_maxBodyBytes s) r else (Inr None, r)) = (Inr (delivered (em_body r)), r')"
    "delivered (em_body r') = delivered (em_body r)"
    "sr_header (em_req r') = sr_header (em_req r)"
    "sg_maxBodyBytes s \<le> 0 \<or> int (length (body_bytes (delivered (em_body r)))) \<le> sg_maxBodyBytes s"
    "requestHasSignedBody (em_req r') (delivered (em_body r)) \<longrightarrow>
       body_bytes (delivered (em_body r)) \<noteq> [] \<and> ''content-digest'' \<in> set (sg_components s)"
  using assms(1) unfolding r'_def
  by (auto simp: coverable_def Let_def bufferRequestBody_def delivered_def requestHasBody_def body_bytes_def requestHasSignedBody_def
      read_limited_def defaultBufferRequestBodyMaxBytes_def min_def split: req_body.splits if_splits)

text \<open>What a caller hands over: nothing, or the bytes of the request's body, which the declared length does not exceed.\<close>

definition handed :: "emit_request \<Rightarrow> string option \<Rightarrow> bool" where
  "handed r body \<longleftrightarrow> body = None \<or> body = delivered (em_body r) \<and> sr_contentLength (em_req r) \<le> int (length (body_bytes body))"

lemma handed_buffer:
  assumes cov: "coverable s r" and body: "handed r body"
  obtains r' where
    "(if body = None \<and> requestHasBody r then bufferRequestBody (sg_maxBodyBytes s) r else (Inr body, r)) = (Inr (delivered (em_body r)), r')"
    "delivered (em_body r') = delivered (em_body r)" "sr_header (em_req r') = sr_header (em_req r)"
    "sg_maxBodyBytes s \<le> 0 \<or> int (length (body_bytes (delivered (em_body r)))) \<le> sg_maxBodyBytes s"
    "requestHasSignedBody (em_req r') (delivered (em_body r)) \<longrightarrow>
       body_bytes (delivered (em_body r)) \<noteq> [] \<and> ''content-digest'' \<in> set (sg_components s)"
proof (cases "body = None")
  case True
  note b = coverable_buffer [OF cov]
  show ?thesis by (rule that [OF _ b(2-5)]) (use b(1) True in \<open>simp split: if_splits\<close>)
next
  case False
  then have h: "body = delivered (em_body r)" "sr_contentLength (em_req r) \<le> int (length (body_bytes (delivered (em_body r))))"
    using body by (auto simp: handed_def)
  have c: "''content-digest'' \<in> set (sg_components s)" using False h(1) cov
    by (auto simp: coverable_def delivered_def Let_def split: req_body.splits)
  show ?thesis
    by (rule that [of r, OF _ _ _ coverable_buffer(4) [OF cov]]) (use False h c in \<open>auto simp: requestHasSignedBody_def\<close>)
qed

text \<open>
  C16. End to end: a request that an emitter with a signer injects and signs is accepted by a verifier that trusts
  the signer, in time and with a fresh nonce, and the
  envelope the verifier returns is the one the emitter built for the decision. The body, which the caller hands over or
  leaves to be buffered, can be covered: it is readable and within the signer's limit, and a signer that signs bodies has
  the content digest among its components (a request without a body needs neither). The envelope has every field a
  verifier requires.
\<close>

theorem emitted_request_verifies:
  assumes libs: "crypto_ok cr" "sfv_ok sf" and new: "NewSigner nl cfg = Inr s"
    and signer: "et_signer e = Some s" and build: "Build cr nl now (Some e) opts = Inr env" and env: "envelope_ok env"
    and inj: "InjectAndSign cr nl sf now snow (Some rand) (Some e) (Some r) body opts = (None, Some r')"
    and hyps: "rand \<noteq> []" "coverable s r" "handed r body" "trusts cr nl v s env" "timely v s snow vnow cnow"
    and nonempty: "Serialize sf env \<noteq> Inr []"
    and cache: "vf_replayCache v = Some c" "map_of (rc_entries c) (hex_EncodeToString rand) = None" "int (length (rc_entries c)) < rc_max c"
  shows "fst (VerifyRequest cr nl sf vnow cnow (Some v) (Some (em_req r')) (delivered (em_body r'))) = Inr env"
proof -
  from inj build obtain raw where raw: "Serialize sf env = Inr raw"
    by (auto simp: InjectAndSign_def InjectHTTP_def split: sum.splits)
  define r1 where "r1 = r\<lparr>em_req := (em_req r)\<lparr>sr_header := hdr_set ''Pipelock-Mediation'' raw (sr_header (em_req r))\<rparr>\<rparr>"
  from inj build raw signer have bs: "buffer_and_sign cr nl sf snow (Some rand) s r1 body = (None, r')"
    by (auto simp: InjectAndSign_def InjectHTTP_def Let_def r1_def split: prod.splits)
  have "coverable s r1" "handed r1 body" using hyps(2,3) by (auto simp: coverable_def handed_def r1_def Let_def split: req_body.splits)
  then obtain r2 where cov:
    "(if body = None \<and> requestHasBody r1 then bufferRequestBody (sg_maxBodyBytes s) r1 else (Inr body, r1)) = (Inr (delivered (em_body r1)), r2)"
    "delivered (em_body r2) = delivered (em_body r1)" "sr_header (em_req r2) = sr_header (em_req r1)"
    "sg_maxBodyBytes s \<le> 0 \<or> int (length (body_bytes (delivered (em_body r1)))) \<le> sg_maxBodyBytes s"
    "requestHasSignedBody (em_req r2) (delivered (em_body r1)) \<longrightarrow>
       body_bytes (delivered (em_body r1)) \<noteq> [] \<and> ''content-digest'' \<in> set (sg_components s)"
    by (rule handed_buffer)
  obtain err q where q: "SignRequest cr nl sf snow (Some rand) (Some s) (Some (em_req r2)) (delivered (em_body r1)) = (err, Some q)"
    using SignRequest_keeps_request by blast
  from bs cov(1) q have sign: "SignRequest cr nl sf snow (Some rand) (Some s) (Some (em_req r2)) (delivered (em_body r1)) = (None, Some q)"
    and r': "r' = r2\<lparr>em_req := q\<rparr>"
    by (auto simp: buffer_and_sign_def split: option.splits)
  have get: "hdr_get (sr_header (em_req r2)) ''Pipelock-Mediation'' = raw" using cov(3) by (simp add: r1_def hdr_get_def)
  from hyps(4) obtain tk actor where tk: "map_of (vf_keys v) (sg_keyID s) = Some tk" "tk_publicKey tk = cr_public cr (sg_privKey s)"
    and ac: "parseActor nl v (ev_actor env) = Inr actor"
    and pin: "pinsTrustDomain tk \<longrightarrow> pa_isSPIFFE actor \<and> allowsTrustDomain nl tk (pa_trustDomain actor)"
    unfolding trusts_def by blast
  have "fst (VerifyRequest cr nl sf vnow cnow (Some v) (Some q) (delivered (em_body r1))) = Inr env"
    by (rule signed_verifies [OF libs new sign hyps(1) cov(4,5) _ _ ac tk pin])
      (use nonempty raw get roundtrip [OF libs(2) env raw] hyps(5) cache in \<open>auto simp: timely_def\<close>)
  then show ?thesis using cov(2) by (simp add: r')
qed

section \<open>Witnesses\<close>

definition demo_emitter :: emitter where
  "demo_emitter = NewEmitter [] (Some demo_signer) ''spiffe'' []"

definition demo_opts :: build_opts where
  "demo_opts = \<lparr>bo_actionID = ''r1'', bo_action = ''fetch'', bo_verdict = ''allow'', bo_sideEffect = ''read'',
     bo_actor = ''spiffe://example.org/agent/bot'', bo_actorAuth = ''bound'', bo_sessionTaint = [], bo_taskID = ''t'',
     bo_authorityKind = [], bo_authorityRef = [], bo_requiresReauth = True, bo_policyHash = ''hash''\<rparr>"

definition demo_outbound :: emit_request where
  "demo_outbound = \<lparr>em_req = demo_request\<lparr>sr_header := (\<lambda>_. [])\<rparr>, em_body = NilBody, em_getBody = NoGetBody\<rparr>"

lemma spiffe_format: "lower plain_lib (TrimSpace ''spiffe'') = ''spiffe''"
  by (subst TrimSpace_plain) (simp_all add: plain_char_def ToLower_def is_ascii_def ascii_lower_def)

lemma demo_build: "Build demo_crypto plain_lib 1700000000000000000 (Some demo_emitter) demo_opts = Inr demo_envelope"
proof -
  have "ParseActorStrict plain_lib ''spiffe://example.org/agent/bot'' = Inr demo_actor"
    using demo_actor by (simp add: parseActor_def demo_verifier_def demo_envelope_def)
  moreover have "has_prefix (lower plain_lib ''spiffe://example.org/agent/bot'') ''spiffe://''"
    by (simp add: ToLower_def is_ascii_def ascii_lower_def)
  ultimately have "FormatActor plain_lib ''spiffe://example.org/agent/bot'' ''spiffe'' [] = Inr ''spiffe://example.org/agent/bot''"
    by (simp add: FormatActor_def Let_def trim_demo spiffe_format)
  then show ?thesis by (simp add: Build_def demo_emitter_def NewEmitter_def demo_opts_def demo_envelope_def)
qed

lemma demo_inject:
  "InjectAndSign demo_crypto plain_lib demo_sfv 1700000000000000000 1700000030000000000 (Some ''n'') (Some demo_emitter) (Some demo_outbound) None demo_opts =
     (None, Some (demo_outbound\<lparr>em_req := demo_signed\<rparr>))"
proof -
  have ser: "Serialize demo_sfv demo_envelope = Inr ''envelope''" by code_simp
  have h: "demo_request\<lparr>sr_header := hdr_set ''Pipelock-Mediation'' ''envelope'' (\<lambda>_. [])\<rparr> = demo_request" by (simp add: demo_request_def)
  show ?thesis
    by (simp add: InjectAndSign_def demo_build InjectHTTP_def ser)
      (simp add: demo_emitter_def NewEmitter_def demo_outbound_def buffer_and_sign_def requestHasBody_def h demo_sign)
qed

theorem emitted_request_verifies_witness:
  "fst (VerifyRequest demo_crypto plain_lib demo_sfv 1700000040000000000 1700000040000000000 (Some demo_verifier) (Some demo_signed) None) = Inr demo_envelope"
proof -
  have e: "et_signer demo_emitter = Some demo_signer" by (simp add: demo_emitter_def NewEmitter_def)
  have ok: "envelope_ok demo_envelope" by (simp add: envelope_ok_def demo_envelope_def actor_auths_def)
  have cov: "coverable demo_signer demo_outbound" by (simp add: coverable_def demo_outbound_def demo_request_def)
  have tr: "trusts demo_crypto plain_lib demo_verifier demo_signer demo_envelope"
    unfolding trusts_def using demo_actor
    by (intro exI [of _ "\<lparr>tk_publicKey = replicate 32 CHR ''k'', tk_trustDomains = [''example.org'']\<rparr>"] exI [of _ demo_actor])
      (simp add: demo_verifier_def demo_signer_def demo_crypto_def allowsTrustDomain_def demo_actor_def ToLower_def is_ascii_def ascii_lower_def)
  have ti: "timely demo_verifier demo_signer 1700000030000000000 1700000040000000000 1700000040000000000"
    by (simp add: timely_def demo_verifier_def demo_signer_def)
  have ser: "Serialize demo_sfv demo_envelope \<noteq> Inr []" by code_simp
  have hd: "handed demo_outbound None" by (simp add: handed_def)
  from emitted_request_verifies [OF demo_libs demo_new_signer e demo_build ok demo_inject _ cov hd tr ti ser, of "newReplayCache 300000000000 10000"]
  show ?thesis by (simp add: demo_verifier_def newReplayCache_def demo_outbound_def delivered_def)
qed

theorem failed_injection_strips_witness:
  "let r = demo_outbound\<lparr>em_req := demo_signed\<rparr>;
       res = InjectAndSign demo_crypto plain_lib demo_sfv 0 0 None (Some demo_emitter) (Some r) None (demo_opts\<lparr>bo_actor := ''bot''\<rparr>) in
   fst res = Some (EmitActor NeedsTrustDomain) \<and> hdr_values (sr_header (em_req (the (snd res)))) ''Signature'' = []"
proof -
  let ?r = "demo_outbound\<lparr>em_req := demo_signed\<rparr>"
  have "TrimSpace ''bot'' = ''bot''" by (rule TrimSpace_plain; simp add: plain_char_def)
  then have "FormatActor plain_lib ''bot'' ''spiffe'' [] = Inl NeedsTrustDomain"
    by (simp add: FormatActor_def Let_def spiffe_format trim_empty) (simp add: ToLower_def is_ascii_def ascii_lower_def)
  then have res: "InjectAndSign demo_crypto plain_lib demo_sfv 0 0 None (Some demo_emitter) (Some ?r) None (demo_opts\<lparr>bo_actor := ''bot''\<rparr>) =
      (Some (EmitActor NeedsTrustDomain), Some (stripEnvelopeHeaders ?r))"
    by (simp add: InjectAndSign_def Build_def demo_emitter_def NewEmitter_def Let_def)
  from failed_injection_strips [OF res, of "''Signature''"] res show ?thesis by (simp add: Let_def canonical_keys)
qed

lemma buffering_preserves_body_witness:
  "let r = demo_outbound\<lparr>em_body := Stream ''hello'' False\<rparr> in
   fst (bufferRequestBody 10 r) = Inr (Some ''hello'') \<and> body_text (em_body (snd (bufferRequestBody 10 r))) = ''hello''"
proof -
  let ?r = "demo_outbound\<lparr>em_body := Stream ''hello'' False\<rparr>"
  have f: "fst (bufferRequestBody 10 ?r) = Inr (Some ''hello'')"
    by (simp add: bufferRequestBody_def demo_outbound_def demo_request_def read_limited_def)
  then have "bufferRequestBody 10 ?r = (Inr (Some ''hello''), snd (bufferRequestBody 10 ?r))" by (metis prod.collapse)
  from buffering_preserves_body [OF this] f show ?thesis by (simp add: body_text_def)
qed

end
