(* ===== verification/RequestTracker.thy ===== *)
theory RequestTracker
  imports Interfaces "HOL-Library.Multiset"
begin

text \<open>
  Response correlation of the MCP proxy (\<^verbatim>\<open>internal/mcp/request_tracker.go\<close>) and the gate of
  \<^verbatim>\<open>ForwardScanned\<close> (\<^verbatim>\<open>internal/mcp/proxy.go\<close>) that blocks responses to requests the client never sent.

  \<open>None\<close> is the nil tracker. The receipt metadata of a request is a value of the type variable,
  with \<open>z\<close> its zero value. Indexing the empty order slice is a run-time panic and makes
  \<open>TrackOutcome\<close> return \<open>None\<close>; the invariant shows it does not happen. Every operation runs under the mutex.
\<close>

section \<open>The tracker\<close>

record 'o tracker =
  rt_pending :: "(string \<times> 'o) list"
  rt_order :: "string list"
  rt_seeded :: bool
  rt_strict :: bool

definition maxTrackedRequests :: nat where
  "maxTrackedRequests = 10000"

definition canonicalID :: "string \<Rightarrow> string" where
  "canonicalID i = (if i = [] \<or> i = ''null'' then [] else i)"

definition NewRequestTracker :: "'o tracker" where
  "NewRequestTracker = \<lparr>rt_pending = [], rt_order = [], rt_seeded = False, rt_strict = False\<rparr>"

definition TrackOutcome :: "string \<Rightarrow> 'o \<Rightarrow> 'o tracker option \<Rightarrow> 'o tracker option option" where
  "TrackOutcome i outcome tr =
     (case tr of None \<Rightarrow> Some None
      | Some t \<Rightarrow>
          let key = canonicalID i in
          if key = [] then Some (Some t)
          else if map_of (rt_pending t) key \<noteq> None then Some (Some t)
          else
            let add = (\<lambda>t. Some (Some (t\<lparr>rt_pending := AList.update key outcome (rt_pending t),
                  rt_order := rt_order t @ [key], rt_seeded := True\<rparr>))) in
            if length (rt_pending t) \<ge> maxTrackedRequests then
              (case rt_order t of [] \<Rightarrow> None
               | oldest # rest \<Rightarrow> add (t\<lparr>rt_pending := AList.delete oldest (rt_pending t), rt_order := rest\<rparr>))
            else add t)"

definition Track :: "'o \<Rightarrow> string \<Rightarrow> 'o tracker option \<Rightarrow> 'o tracker option option" where
  "Track z i tr = TrackOutcome i z tr"

fun track_all :: "'o \<Rightarrow> string list \<Rightarrow> 'o tracker option \<Rightarrow> 'o tracker option option" where
  "track_all z [] tr = Some tr"
| "track_all z (i # is) tr = (case Track z i tr of None \<Rightarrow> None | Some tr' \<Rightarrow> track_all z is tr')"

definition NewStrictRequestTracker :: "'o \<Rightarrow> string list \<Rightarrow> 'o tracker option option" where
  "NewStrictRequestTracker z ids = track_all z ids (Some (NewRequestTracker\<lparr>rt_seeded := True, rt_strict := True\<rparr>))"

definition Consume :: "'o \<Rightarrow> string \<Rightarrow> 'o tracker option \<Rightarrow> ('o \<times> bool) \<times> 'o tracker option" where
  "Consume z i tr =
     (case tr of None \<Rightarrow> ((z, True), None)
      | Some t \<Rightarrow>
          let key = canonicalID i in
          if key = [] then ((z, \<not> rt_strict t), Some t)
          else (case map_of (rt_pending t) key of None \<Rightarrow> ((z, False), Some t)
            | Some outcome \<Rightarrow> ((outcome, True),
                Some (t\<lparr>rt_pending := AList.delete key (rt_pending t), rt_order := remove1 key (rt_order t)\<rparr>))))"

definition Validate :: "'o \<Rightarrow> string \<Rightarrow> 'o tracker option \<Rightarrow> bool \<times> 'o tracker option" where
  "Validate z i tr = (let ((_, ok), tr') = Consume z i tr in (ok, tr'))"

definition Seeded :: "'o tracker option \<Rightarrow> bool" where
  "Seeded tr = (case tr of None \<Rightarrow> False | Some t \<Rightarrow> rt_seeded t)"

definition Strict :: "'o tracker option \<Rightarrow> bool" where
  "Strict tr = (case tr of None \<Rightarrow> False | Some t \<Rightarrow> rt_strict t)"

definition DrainPendingOutcomes :: "'o \<Rightarrow> 'o tracker option \<Rightarrow> (string \<times> 'o) list \<times> 'o tracker option" where
  "DrainPendingOutcomes z tr =
     (case tr of None \<Rightarrow> ([], None)
      | Some t \<Rightarrow> (map (\<lambda>key. (key, case map_of (rt_pending t) key of Some out \<Rightarrow> out | None \<Rightarrow> z)) (rt_order t),
          Some (t\<lparr>rt_pending := [], rt_order := []\<rparr>)))"

definition DrainPending :: "'o \<Rightarrow> 'o tracker option \<Rightarrow> string list \<times> 'o tracker option" where
  "DrainPending z tr = (let (items, tr') = DrainPendingOutcomes z tr in (map fst items, tr'))"

section \<open>The gate on responses\<close>

text \<open>\<open>probe\<close> is \<^verbatim>\<open>json.Unmarshal\<close> into the two raw fields: \<open>None\<close> on error.\<close>

definition isResponse :: "(string \<Rightarrow> (string \<times> string) option) \<Rightarrow> string \<Rightarrow> bool" where
  "isResponse probe msg = (case probe msg of None \<Rightarrow> False | Some (result, err) \<Rightarrow> result \<noteq> [] \<or> err \<noteq> [])"

datatype 'o gate = Pass "'o option" | BlockNoID | BlockUnsolicited "string option"

definition response_gate ::
  "'o \<Rightarrow> (string \<Rightarrow> (string \<times> string) option) \<Rightarrow> string \<Rightarrow> string option \<Rightarrow> 'o tracker option \<Rightarrow> 'o gate \<times> 'o tracker option" where
  "response_gate z probe line rpcID tr =
     (if tr \<noteq> None \<and> Seeded tr \<and> isResponse probe line then
        (if canonicalID (case rpcID of None \<Rightarrow> [] | Some i \<Rightarrow> i) = [] \<and> Strict tr then (BlockNoID, tr)
         else case rpcID of None \<Rightarrow> (Pass None, tr)
           | Some i \<Rightarrow>
               let ((outcome, valid), tr') = Consume z i tr in
               if \<not> valid then (BlockUnsolicited (if Strict tr then None else Some i), tr') else (Pass (Some outcome), tr'))
      else (Pass None, tr))"
section \<open>Invariant\<close>

definition tracker_ok :: "'o tracker \<Rightarrow> bool" where
  "tracker_ok t \<longleftrightarrow> distinct (rt_order t) \<and> distinct (map fst (rt_pending t)) \<and>
     set (rt_order t) = fst ` set (rt_pending t) \<and> length (rt_order t) \<le> maxTrackedRequests \<and> [] \<notin> set (rt_order t)"

lemma delete_keys_img: "fst ` set (AList.delete k m) = fst ` set m - {k}"
  by (auto simp: AList.delete_eq)

lemma tracker_ok_length: "tracker_ok t \<Longrightarrow> length (rt_pending t) = length (rt_order t)"
  by (metis tracker_ok_def distinct_card length_map set_map)

lemma pending_iff: "tracker_ok t \<Longrightarrow> map_of (rt_pending t) k \<noteq> None \<longleftrightarrow> k \<in> set (rt_order t)"
  by (auto simp: tracker_ok_def map_of_eq_None_iff)

text \<open>Tracking a new id appends it, dropping the oldest one when the tracker is full.\<close>

lemma TrackOutcome_cases:
  assumes ok: "tracker_ok t"
  obtains (ignored) "TrackOutcome i out (Some t) = Some (Some t)" "canonicalID i = [] \<or> canonicalID i \<in> set (rt_order t)"
  | (added) t' where "TrackOutcome i out (Some t) = Some (Some t')" "tracker_ok t'" "canonicalID i \<noteq> []" "canonicalID i \<notin> set (rt_order t)"
      "rt_order t' = (if length (rt_order t) \<ge> maxTrackedRequests then tl (rt_order t) else rt_order t) @ [canonicalID i]"
      "map_of (rt_pending t') (canonicalID i) = Some out" "rt_seeded t'"
      "\<forall>k \<in> set (rt_order t'). k \<noteq> canonicalID i \<longrightarrow> map_of (rt_pending t') k = map_of (rt_pending t) k"
proof (cases "canonicalID i = [] \<or> canonicalID i \<in> set (rt_order t)")
  case True
  then show thesis using pending_iff [OF ok, of "canonicalID i"] by (intro ignored) (auto simp: TrackOutcome_def Let_def)
next
  case False
  have new: "map_of (rt_pending t) (canonicalID i) = None" using pending_iff [OF ok] False by blast
  show thesis
  proof (cases "length (rt_pending t) \<ge> maxTrackedRequests")
    case full: True
    then obtain oldest rest where o: "rt_order t = oldest # rest"
      using tracker_ok_length [OF ok] by (cases "rt_order t") (auto simp: maxTrackedRequests_def)
    let ?t' = "t\<lparr>rt_pending := AList.update (canonicalID i) out (AList.delete oldest (rt_pending t)), rt_order := rest @ [canonicalID i], rt_seeded := True\<rparr>"
    have dk: "fst ` set (AList.delete oldest (rt_pending t)) = fst ` set (rt_pending t) - {oldest}" by (simp add: delete_keys_img)
    have "tracker_ok ?t'"
      using ok False o by (auto simp: tracker_ok_def AList.distinct_update AList.distinct_delete AList.dom_update dk)
    moreover have "TrackOutcome i out (Some t) = Some (Some ?t')" using False full new o by (simp add: TrackOutcome_def Let_def)
    moreover have "\<forall>k \<in> set rest. k \<noteq> oldest" using ok o by (auto simp: tracker_ok_def)
    ultimately show thesis using False full o tracker_ok_length [OF ok] by (intro added) (auto simp: map_of_update map_of_delete)
  next
    case room: False
    let ?t' = "t\<lparr>rt_pending := AList.update (canonicalID i) out (rt_pending t), rt_order := rt_order t @ [canonicalID i], rt_seeded := True\<rparr>"
    have "tracker_ok ?t'" using ok False room tracker_ok_length [OF ok] by (auto simp: tracker_ok_def AList.distinct_update AList.dom_update)
    moreover have "TrackOutcome i out (Some t) = Some (Some ?t')" using False room new by (simp add: TrackOutcome_def Let_def)
    ultimately show thesis using False room tracker_ok_length [OF ok] by (intro added) (auto simp: map_of_update)
  qed
qed

lemma Consume_pending:
  assumes ok: "tracker_ok t" and i: "canonicalID i \<noteq> []" "map_of (rt_pending t) (canonicalID i) = Some out"
  defines "t' \<equiv> t\<lparr>rt_pending := AList.delete (canonicalID i) (rt_pending t), rt_order := remove1 (canonicalID i) (rt_order t)\<rparr>"
  shows "Consume z i (Some t) = ((out, True), Some t')" "tracker_ok t'"
  using ok i length_remove1 [of "canonicalID i" "rt_order t"]
  by (auto simp: Consume_def t'_def Let_def tracker_ok_def AList.distinct_delete delete_keys_img distinct_remove1)
section \<open>Runs\<close>

datatype 'o tracker_op = OpTrack string 'o | OpResponse string "string option" | OpDrain

record 'o tracker_run =
  tn_tracker :: "'o tracker"
  tn_answered :: "string list"
  tn_unchecked :: "string list"

definition new_run :: "'o tracker_run" where
  "new_run = \<lparr>tn_tracker = NewRequestTracker, tn_answered = [], tn_unchecked = []\<rparr>"

text \<open>One operation. Every forwarded response with an id is recorded: in \<open>tn_answered\<close> once the tracker is seeded, in
  \<open>tn_unchecked\<close> before that, when the gate lets it through unseen. \<open>tn_answered\<close> also records the ids a drain
  answers with a timeout.\<close>

definition tracker_step :: "'o \<Rightarrow> (string \<Rightarrow> (string \<times> string) option) \<Rightarrow> 'o tracker_op \<Rightarrow> 'o tracker_run \<Rightarrow> 'o tracker_run" where
  "tracker_step z probe x s =
     (let tr = Some (tn_tracker s) in
      case x of
        OpTrack i out \<Rightarrow> (case TrackOutcome i out tr of Some (Some t) \<Rightarrow> s\<lparr>tn_tracker := t\<rparr> | _ \<Rightarrow> s)
      | OpResponse line rpcID \<Rightarrow>
          (case response_gate z probe line rpcID tr of (g, tr') \<Rightarrow>
             let i = canonicalID (case rpcID of None \<Rightarrow> [] | Some i \<Rightarrow> i);
                 forwarded = (case g of Pass _ \<Rightarrow> isResponse probe line \<and> i \<noteq> [] | _ \<Rightarrow> False) in
             s\<lparr>tn_tracker := the tr', tn_answered := tn_answered s @ (if forwarded \<and> Seeded tr then [i] else []),
               tn_unchecked := tn_unchecked s @ (if forwarded \<and> \<not> Seeded tr then [i] else [])\<rparr>)
      | OpDrain \<Rightarrow> (case DrainPending z tr of (ids, tr') \<Rightarrow>
          s\<lparr>tn_tracker := the tr', tn_answered := tn_answered s @ ids\<rparr>))"

definition tracked_ids :: "'o tracker_op list \<Rightarrow> string list" where
  "tracked_ids xs = concat (map (\<lambda>x. case x of OpTrack i _ \<Rightarrow> if canonicalID i = [] then [] else [canonicalID i] | _ \<Rightarrow> []) xs)"

lemma canonicalID_idem [simp]: "canonicalID (canonicalID i) = canonicalID i"
  by (simp add: canonicalID_def)

text \<open>A response either leaves the tracker alone and is not forwarded as an answer, or consumes its request.\<close>

lemma response_cases:
  assumes ok: "tracker_ok (tn_tracker s)"
  obtains (none) u where "tracker_step z probe (OpResponse line rpcID) s = s\<lparr>tn_unchecked := tn_unchecked s @ u\<rparr>"
      "rt_seeded (tn_tracker s) \<Longrightarrow> u = []"
  | (answer) k t' where "tracker_step z probe (OpResponse line rpcID) s = s\<lparr>tn_tracker := t', tn_answered := tn_answered s @ [k]\<rparr>"
      "tracker_ok t'" "k \<in> set (rt_order (tn_tracker s))" "rt_order t' = remove1 k (rt_order (tn_tracker s))"
      "map_of (rt_pending t') = (map_of (rt_pending (tn_tracker s)))(k := None)"
      "k = canonicalID (the rpcID)" "rpcID \<noteq> None" "rt_seeded t' = rt_seeded (tn_tracker s)"
proof (cases rpcID)
  case None
  then show thesis by (intro none [of "[]"]) (auto simp: tracker_step_def response_gate_def canonicalID_def Let_def)
next
  case (Some i)
  let ?t = "tn_tracker s"
  show thesis
  proof (cases "Seeded (Some ?t) \<and> isResponse probe line \<and> canonicalID i \<noteq> [] \<and> map_of (rt_pending ?t) (canonicalID i) \<noteq> None")
    case True
    then obtain out where out: "map_of (rt_pending ?t) (canonicalID i) = Some out" by blast
    with True Some Consume_pending [OF ok _ out] show thesis
      by (intro answer [of "canonicalID i" "?t\<lparr>rt_pending := AList.delete (canonicalID i) (rt_pending ?t), rt_order := remove1 (canonicalID i) (rt_order ?t)\<rparr>"])
        (use pending_iff [OF ok, of "canonicalID i"] in \<open>auto simp: tracker_step_def response_gate_def Let_def map_of_delete\<close>)
  next
    case False
    with Some show thesis
      by (intro none [of "if isResponse probe line \<and> canonicalID i \<noteq> [] \<and> \<not> rt_seeded ?t then [canonicalID i] else []"])
        (auto simp: tracker_step_def response_gate_def Consume_def Let_def Strict_def Seeded_def)
  qed
qed

lemma drain_step:
  "tracker_step z probe OpDrain s =
     s\<lparr>tn_tracker := (tn_tracker s)\<lparr>rt_pending := [], rt_order := []\<rparr>, tn_answered := tn_answered s @ rt_order (tn_tracker s)\<rparr>"
  by (simp add: tracker_step_def DrainPending_def DrainPendingOutcomes_def comp_def)

lemma tracker_step_ok [step_inv]:
  assumes ok: "tracker_ok (tn_tracker s)"
  shows "tracker_ok (tn_tracker (tracker_step z probe x s))"
proof (cases x)
  case (OpTrack i out)
  show ?thesis
    by (rule TrackOutcome_cases [OF ok, of i out]) (use ok in \<open>simp_all add: OpTrack tracker_step_def\<close>)
next
  case (OpResponse line rpcID)
  show ?thesis
    by (rule response_cases [OF ok, of z probe line rpcID]) (use ok in \<open>simp_all add: OpResponse\<close>)
next
  case OpDrain
  then show ?thesis by (simp add: drain_step tracker_ok_def)
qed

interpretation tracker_runs: kept_invariant "tracker_step z probe" "\<lambda>s. tracker_ok (tn_tracker s)"
  by unfold_locales (rule tracker_step_ok)

text \<open>The open account of an id: how often it was given up, plus one while it is pending.\<close>

definition open_account :: "string \<Rightarrow> 'o tracker_run \<Rightarrow> nat" where
  "open_account k s = count (mset (tn_answered s)) k + (if k \<in> set (rt_order (tn_tracker s)) then 1 else 0)"

lemma open_account_step:
  assumes ok: "tracker_ok (tn_tracker s)"
  shows "open_account k (tracker_step z probe x s) \<le> open_account k s + count (mset (tracked_ids [x])) k"
proof (cases x)
  case (OpTrack i out)
  show ?thesis
  proof (rule TrackOutcome_cases [OF ok, of i out])
    fix t' assume t': "TrackOutcome i out (Some (tn_tracker s)) = Some (Some t')" "canonicalID i \<noteq> []"
      "rt_order t' = (if length (rt_order (tn_tracker s)) \<ge> maxTrackedRequests then tl (rt_order (tn_tracker s)) else rt_order (tn_tracker s)) @ [canonicalID i]"
    have "k \<in> set (rt_order t') \<longrightarrow> k \<in> set (rt_order (tn_tracker s)) \<or> k = canonicalID i"
      using t'(3) by (cases "rt_order (tn_tracker s)") (auto split: if_splits)
    then show ?thesis using t'(1,2) by (auto simp: OpTrack tracker_step_def open_account_def tracked_ids_def)
  qed (simp add: OpTrack tracker_step_def open_account_def)
next
  case (OpResponse line rpcID)
  show ?thesis
    by (rule response_cases [OF ok, of z probe line rpcID])
      (use ok in \<open>auto simp: OpResponse open_account_def tracked_ids_def tracker_ok_def\<close>)
next
  case OpDrain
  have "count (mset (rt_order (tn_tracker s))) k = (if k \<in> set (rt_order (tn_tracker s)) then 1 else 0)"
    using ok by (simp add: tracker_ok_def distinct_count_atmost_1)
  then show ?thesis by (simp add: OpDrain drain_step open_account_def tracked_ids_def)
qed

lemma open_account_run:
  "tracker_ok (tn_tracker s) \<Longrightarrow> open_account k (fold (tracker_step z probe) xs s) \<le> open_account k s + count (mset (tracked_ids xs)) k"
proof (induction xs arbitrary: s)
  case (Cons x xs)
  have "open_account k (fold (tracker_step z probe) xs (tracker_step z probe x s))
      \<le> open_account k (tracker_step z probe x s) + count (mset (tracked_ids xs)) k"
    by (rule Cons.IH) (rule tracker_step_ok [OF Cons.prems])
  moreover have "tracked_ids (x # xs) = tracked_ids [x] @ tracked_ids xs" by (simp add: tracked_ids_def)
  ultimately show ?case using open_account_step [OF Cons.prems, of k z probe x] by simp
qed (simp add: tracked_ids_def)

text \<open>From the first tracked request on, no response passes unchecked.\<close>

lemma seeded_step:
  assumes ok: "tracker_ok (tn_tracker s)" and sd: "rt_seeded (tn_tracker s)"
  shows "rt_seeded (tn_tracker (tracker_step z probe x s)) \<and> tn_unchecked (tracker_step z probe x s) = tn_unchecked s"
proof (cases x)
  case (OpTrack i out)
  show ?thesis by (rule TrackOutcome_cases [OF ok, of i out]) (use sd in \<open>simp_all add: OpTrack tracker_step_def\<close>)
next
  case (OpResponse line rpcID)
  show ?thesis by (rule response_cases [OF ok, of z probe line rpcID]) (use sd in \<open>simp_all add: OpResponse\<close>)
qed (use sd in \<open>simp add: drain_step\<close>)

lemma seeded_run:
  "tracker_ok (tn_tracker s) \<Longrightarrow> rt_seeded (tn_tracker s) \<Longrightarrow> tn_unchecked (fold (tracker_step z probe) xs s) = tn_unchecked s"
  by (induction xs arbitrary: s) (simp_all add: seeded_step tracker_step_ok)

lemma tracking_seeds:
  assumes ok: "tracker_ok (tn_tracker s)" and pend: "rt_order (tn_tracker s) \<noteq> [] \<longrightarrow> rt_seeded (tn_tracker s)" and x: "tracked_ids [x] \<noteq> []"
  shows "rt_seeded (tn_tracker (tracker_step z probe x s)) \<and> tn_unchecked (tracker_step z probe x s) = tn_unchecked s"
proof -
  from x obtain i out where i: "x = OpTrack i out" "canonicalID i \<noteq> []" by (auto simp: tracked_ids_def split: tracker_op.splits if_splits)
  show ?thesis by (rule TrackOutcome_cases [OF ok, of i out]) (use i pend in \<open>auto simp: tracker_step_def\<close>)
qed

lemma unseeded_step:
  assumes ok: "tracker_ok (tn_tracker s)" and "rt_order (tn_tracker s) = []" and x: "tracked_ids [x] = []"
  shows "rt_order (tn_tracker (tracker_step z probe x s)) = []"
proof (cases x)
  case (OpTrack i out)
  then show ?thesis using assms by (auto simp: tracked_ids_def tracker_step_def TrackOutcome_def Let_def split: if_splits)
next
  case (OpResponse line rpcID)
  show ?thesis by (rule response_cases [OF ok, of z probe line rpcID]) (use assms(2) in \<open>simp_all add: OpResponse\<close>)
qed (use assms in \<open>simp add: drain_step\<close>)

lemma unchecked_run:
  "tracker_ok (tn_tracker s) \<Longrightarrow> rt_order (tn_tracker s) = [] \<Longrightarrow>
   tn_unchecked (fold (tracker_step z probe) xs s) = tn_unchecked (fold (tracker_step z probe) (takeWhile (\<lambda>x. tracked_ids [x] = []) xs) s)"
proof (induction xs arbitrary: s)
  case (Cons x xs)
  show ?case
  proof (cases "tracked_ids [x] = []")
    case True
    then show ?thesis using Cons.IH [OF tracker_step_ok [OF Cons.prems(1)] unseeded_step [OF Cons.prems True]] by simp
  next
    case False
    then show ?thesis using tracking_seeds [OF Cons.prems(1) _ False] seeded_run [OF tracker_step_ok [OF Cons.prems(1)]] Cons.prems(2) by simp
  qed
qed simp

text \<open>
  C24. From the first tracked request on, the responses with an id that are forwarded, together with the
  timeouts answered by drains and what is still pending, never exceed the requests tracked with
  that id. The responses forwarded without this check are those that arrive before the first
  request is tracked. The tracker holds at most ten thousand ids, its queue and its table agree, and tracking
  never panics. (Responses without an id, which only a strict tracker refuses, are not counted.)
\<close>

theorem no_unsolicited_response:
  fixes z :: 'o and probe xs k
  defines "s \<equiv> fold (tracker_step z probe) xs new_run"
  shows "count (mset (tn_answered s)) k + (if map_of (rt_pending (tn_tracker s)) k = None then 0 else 1) \<le> count (mset (tracked_ids xs)) k \<and>
    tn_unchecked s = tn_unchecked (fold (tracker_step z probe) (takeWhile (\<lambda>x. tracked_ids [x] = []) xs) new_run) \<and>
    length (rt_order (tn_tracker s)) \<le> 10000 \<and> set (rt_order (tn_tracker s)) = fst ` set (rt_pending (tn_tracker s)) \<and>
    TrackOutcome i out (Some (tn_tracker s)) \<noteq> None"
proof -
  let ?s0 = "new_run :: 'o tracker_run"
  have ok0: "tracker_ok (tn_tracker ?s0)" by (simp add: tracker_ok_def new_run_def NewRequestTracker_def)
  have "tn_unchecked s = tn_unchecked (fold (tracker_step z probe) (takeWhile (\<lambda>x. tracked_ids [x] = []) xs) new_run)"
    unfolding s_def by (rule unchecked_run [OF ok0]) (simp add: new_run_def NewRequestTracker_def)
  moreover
  have ok: "tracker_ok (tn_tracker s)" unfolding s_def by (rule tracker_runs.run_keeps [OF ok0])
  have "open_account k s \<le> count (mset (tracked_ids xs)) k"
    using open_account_run [OF ok0, of k z probe xs] by (simp add: s_def open_account_def new_run_def NewRequestTracker_def)
  then have "count (mset (tn_answered s)) k + (if map_of (rt_pending (tn_tracker s)) k = None then 0 else 1) \<le> count (mset (tracked_ids xs)) k"
    using pending_iff [OF ok, of k] by (simp add: open_account_def split: if_splits)
  moreover have "TrackOutcome i out (Some (tn_tracker s)) \<noteq> None" by (rule TrackOutcome_cases [OF ok, of i out]) auto
  ultimately show ?thesis using ok by (simp add: tracker_ok_def maxTrackedRequests_def)
qed

section \<open>Outstanding requests stay answerable\<close>

text \<open>\<open>k\<close> is pending with its metadata, and at most \<open>n\<close> younger ids queue behind it.\<close>

definition outstanding :: "nat \<Rightarrow> string \<Rightarrow> 'o \<Rightarrow> 'o tracker_run \<Rightarrow> bool" where
  "outstanding n k out s \<longleftrightarrow> tracker_ok (tn_tracker s) \<and> rt_seeded (tn_tracker s) \<and> map_of (rt_pending (tn_tracker s)) k = Some out \<and>
     (\<exists>ys zs. rt_order (tn_tracker s) = ys @ k # zs \<and> length zs \<le> n)"

lemma outstanding_mono: "outstanding n k out s \<Longrightarrow> n \<le> m \<Longrightarrow> outstanding m k out s"
  unfolding outstanding_def using order_trans by blast

definition keeps_id :: "string \<Rightarrow> 'o tracker_op \<Rightarrow> bool" where
  "keeps_id k x = (case x of OpTrack _ _ \<Rightarrow> True | OpResponse _ rpcID \<Rightarrow> (case rpcID of None \<Rightarrow> True | Some i \<Rightarrow> canonicalID i \<noteq> k) | OpDrain \<Rightarrow> False)"

lemma remove1_keeps_split:
  assumes "k \<noteq> k'"
  shows "\<exists>ys' zs'. remove1 k' (ys @ k # zs) = ys' @ k # zs' \<and> length zs' \<le> length zs"
proof (cases "k' \<in> set ys")
  case True
  then show ?thesis by (intro exI [of _ "remove1 k' ys"] exI [of _ zs]) (simp add: remove1_append)
next
  case False
  with assms show ?thesis
    by (intro exI [of _ ys] exI [of _ "remove1 k' zs"]) (auto simp: remove1_append length_remove1)
qed

lemma outstanding_step:
  assumes s: "outstanding n k out s" and x: "keeps_id k x" "n + length (tracked_ids [x]) \<le> 9999"
  shows "outstanding (n + length (tracked_ids [x])) k out (tracker_step z probe x s)"
proof -
  from s have ok: "tracker_ok (tn_tracker s)" and sd: "rt_seeded (tn_tracker s)" and p: "map_of (rt_pending (tn_tracker s)) k = Some out"
    by (simp_all add: outstanding_def)
  from s obtain ys zs where o: "rt_order (tn_tracker s) = ys @ k # zs" "length zs \<le> n" by (auto simp: outstanding_def)
  show ?thesis
  proof (cases x)
    case (OpTrack i out')
    show ?thesis
    proof (rule TrackOutcome_cases [OF ok, of i out'])
      fix t' assume t': "TrackOutcome i out' (Some (tn_tracker s)) = Some (Some t')" "tracker_ok t'" "canonicalID i \<noteq> []"
        "canonicalID i \<notin> set (rt_order (tn_tracker s))"
        "rt_order t' = (if length (rt_order (tn_tracker s)) \<ge> maxTrackedRequests then tl (rt_order (tn_tracker s)) else rt_order (tn_tracker s)) @ [canonicalID i]"
        "rt_seeded t'" "\<forall>k \<in> set (rt_order t'). k \<noteq> canonicalID i \<longrightarrow> map_of (rt_pending t') k = map_of (rt_pending (tn_tracker s)) k"
      have one: "length (tracked_ids [x]) = 1" using t'(3) by (simp add: OpTrack tracked_ids_def)
      have "maxTrackedRequests \<le> length (rt_order (tn_tracker s)) \<longrightarrow> ys \<noteq> []"
        using o x(2) one by (auto simp: maxTrackedRequests_def)
      then obtain ys' where o': "rt_order t' = ys' @ k # (zs @ [canonicalID i])" using t'(5) o(1) by (cases ys) (auto split: if_splits)
      have p': "map_of (rt_pending t') k = Some out" using o' t'(4,7) o(1) p by auto
      have "\<exists>ys zs. rt_order t' = ys @ k # zs \<and> length zs \<le> n + 1"
        by (rule exI [of _ ys'], rule exI [of _ "zs @ [canonicalID i]"]) (simp add: o' o(2))
      with p' show ?thesis using t'(1,2,6) one by (simp add: OpTrack tracker_step_def outstanding_def)
    qed (use outstanding_mono [OF s] in \<open>simp add: OpTrack tracker_step_def\<close>)
  next
    case (OpResponse line rpcID)
    show ?thesis
    proof (rule response_cases [OF ok, of z probe line rpcID])
      fix k' t' assume t': "tracker_step z probe (OpResponse line rpcID) s = s\<lparr>tn_tracker := t', tn_answered := tn_answered s @ [k']\<rparr>"
        "tracker_ok t'" "rt_order t' = remove1 k' (rt_order (tn_tracker s))"
        "map_of (rt_pending t') = (map_of (rt_pending (tn_tracker s)))(k' := None)" "k' = canonicalID (the rpcID)" "rpcID \<noteq> None" "rt_seeded t' = rt_seeded (tn_tracker s)"
      have ne: "k \<noteq> k'" using t'(5,6) x(1) by (auto simp: OpResponse keeps_id_def)
      have "rt_seeded t'" using t'(7) sd by simp
      with ne t' p o remove1_keeps_split [OF ne, of ys zs] show ?thesis
        by (fastforce simp: OpResponse outstanding_def tracked_ids_def)
    qed (use s in \<open>auto simp: OpResponse outstanding_def tracked_ids_def\<close>)
  qed (use x in \<open>simp add: keeps_id_def\<close>)
qed

lemma outstanding_run:
  "outstanding n k out s \<Longrightarrow> list_all (keeps_id k) xs \<Longrightarrow> n + length (tracked_ids xs) \<le> 9999 \<Longrightarrow>
     outstanding (n + length (tracked_ids xs)) k out (fold (tracker_step z probe) xs s)"
proof (induction xs arbitrary: n s)
  case (Cons x xs)
  have split: "tracked_ids (x # xs) = tracked_ids [x] @ tracked_ids xs" by (simp add: tracked_ids_def)
  have "outstanding (n + length (tracked_ids [x])) k out (tracker_step z probe x s)"
    using Cons.prems split by (intro outstanding_step) simp_all
  from Cons.IH [OF this] Cons.prems split show ?case by (simp add: add.assoc)
qed (simp add: tracked_ids_def)

text \<open>
  A request that was tracked is answerable: its response is forwarded with the request's own
  metadata as long as fewer than ten thousand newer requests were tracked since, whatever other
  responses arrived, unless its id was answered or drained in between.
\<close>

theorem tracked_request_answerable:
  fixes z out :: 'o
  assumes s: "tracker_ok (tn_tracker s)" and i: "canonicalID i \<noteq> []" "map_of (rt_pending (tn_tracker s)) (canonicalID i) = None"
    and xs: "list_all (keeps_id (canonicalID i)) xs" "length (tracked_ids xs) < 10000"
    and resp: "isResponse probe line"
  defines "s' \<equiv> fold (tracker_step z probe) (OpTrack i out # xs) s"
  shows "fst (response_gate z probe line (Some i) (Some (tn_tracker s'))) = Pass (Some out)"
proof -
  let ?s1 = "tracker_step z probe (OpTrack i out) s"
  have "outstanding 0 (canonicalID i) out ?s1"
  proof (rule TrackOutcome_cases [OF s, of i out])
    assume "canonicalID i = [] \<or> canonicalID i \<in> set (rt_order (tn_tracker s))"
    then show ?thesis using i pending_iff [OF s] by blast
  qed (auto simp: outstanding_def tracker_step_def)
  from outstanding_run [OF this xs(1)] xs(2) have "outstanding (length (tracked_ids xs)) (canonicalID i) out s'"
    by (simp add: s'_def)
  then have "map_of (rt_pending (tn_tracker s')) (canonicalID i) = Some out" "rt_seeded (tn_tracker s')" by (simp_all add: outstanding_def)
  with i(1) resp show ?thesis by (simp add: response_gate_def Consume_def Seeded_def Let_def)
qed

definition demo_probe :: "string \<Rightarrow> (string \<times> string) option" where
  "demo_probe line = (if line = ''r'' then Some (''ok'', []) else None)"

theorem tracked_request_answerable_witness:
  "let s' = fold (tracker_step 0 demo_probe) [OpTrack ''1'' (7::nat), OpTrack ''2'' 8, OpResponse ''r'' (Some ''2''), OpResponse ''r'' (Some ''9'')]
       new_run in
   fst (response_gate 0 demo_probe ''r'' (Some ''1'') (Some (tn_tracker s'))) = Pass (Some 7)"
proof -
  let ?s = "new_run :: nat tracker_run"
  let ?xs = "[OpTrack ''2'' 8, OpResponse ''r'' (Some ''2''), OpResponse ''r'' (Some ''9'')] :: nat tracker_op list"
  have a: "tracker_ok (tn_tracker ?s)" "canonicalID ''1'' \<noteq> []" "map_of (rt_pending (tn_tracker ?s)) (canonicalID ''1'') = None"
    "list_all (keeps_id (canonicalID ''1'')) ?xs" "length (tracked_ids ?xs) < 10000" "isResponse demo_probe ''r''"
    by (simp_all add: tracker_ok_def new_run_def NewRequestTracker_def canonicalID_def keeps_id_def tracked_ids_def isResponse_def demo_probe_def)
  from tracked_request_answerable [OF a, of 0 7] show ?thesis by (simp only: Let_def)
qed

end
