(* ===== verification/WsMessages.thy ===== *)
theory WsMessages
  imports GoText
begin

text \<open>
  WebSocket messages: fragment reassembly and close frames (\<^verbatim>\<open>internal/wsutil/fragment.go\<close>,
  \<^verbatim>\<open>close.go\<close>) and the message reader of the MCP client (\<^verbatim>\<open>internal/mcp/transport/wsclient.go\<close>).

  The frame layer is a third-party package: its opcodes are the fields of an argument \<open>ws_lib\<close>. A
  connection is the list of frames still to be read, unmasked, each with the length its header
  claims; the list ends with the error the next header read gives, an expected close or another.
  Frames written are recorded in order; a failing write of a pong is an argument.
\<close>

section \<open>Fragments\<close>

record ws_lib =
  op_cont :: nat
  op_text :: nat
  op_binary :: nat
  op_close :: nat
  op_ping :: nat
  op_pong :: nat
  op_isControl :: "nat \<Rightarrow> bool"

definition ws_ok :: "ws_lib \<Rightarrow> bool" where
  "ws_ok w \<longleftrightarrow> distinct [op_cont w, op_text w, op_binary w, op_close w, op_ping w, op_pong w] \<and>
     \<not> op_isControl w (op_cont w) \<and> \<not> op_isControl w (op_text w) \<and> \<not> op_isControl w (op_binary w) \<and>
     op_isControl w (op_close w) \<and> op_isControl w (op_ping w) \<and> op_isControl w (op_pong w)"

record ws_header =
  wh_fin :: bool
  wh_opcode :: nat
  wh_length :: int

datatype close_code = ProtocolError | MessageTooBig | PolicyViolation | InvalidPayload | NormalClosure

record fragment_state =
  fs_opcode :: nat
  fs_buf :: string
  fs_maxBytes :: int
  fs_active :: bool

datatype processed = Incomplete | Complete string | CloseWith close_code string

definition Process :: "ws_lib \<Rightarrow> ws_header \<Rightarrow> string \<Rightarrow> fragment_state \<Rightarrow> processed \<times> fragment_state" where
  "Process w hdr payload f =
     (if wh_opcode hdr = op_cont w \<and> \<not> fs_active f then (CloseWith ProtocolError ''unexpected continuation frame'', f)
      else if wh_opcode hdr \<noteq> op_cont w \<and> \<not> op_isControl w (wh_opcode hdr) \<and> fs_active f
      then (CloseWith ProtocolError ''new data frame during fragmentation'', f)
      else if \<not> wh_fin hdr \<and> wh_opcode hdr \<noteq> op_cont w \<and> \<not> op_isControl w (wh_opcode hdr) then
        let f1 = f\<lparr>fs_active := True, fs_opcode := wh_opcode hdr, fs_buf := []\<rparr> in
        if wh_length hdr > fs_maxBytes f then (CloseWith MessageTooBig ''message too large'', f1)
        else (Incomplete, f1\<lparr>fs_buf := payload\<rparr>)
      else if wh_opcode hdr = op_cont w \<and> fs_active f then
        if int (length (fs_buf f) + length payload) > fs_maxBytes f then (CloseWith MessageTooBig ''message too large'', f)
        else let f1 = f\<lparr>fs_buf := fs_buf f @ payload\<rparr> in
          (if wh_fin hdr then Complete (fs_buf f1) else Incomplete, f1)
      else if int (length payload) > fs_maxBytes f then (CloseWith MessageTooBig ''message too large'', f)
      else (Complete payload, f\<lparr>fs_opcode := wh_opcode hdr\<rparr>))"

definition frag_Reset :: "fragment_state \<Rightarrow> fragment_state" where
  "frag_Reset f = f\<lparr>fs_active := False, fs_opcode := 0, fs_buf := []\<rparr>"

section \<open>Close frames\<close>

function walk_back :: "string \<Rightarrow> string" where
  "walk_back s = (if s \<noteq> [] \<and> \<not> utf8_valid s then walk_back (butlast s) else s)"
  by pat_completeness auto
termination by (relation "measure length") auto

declare walk_back.simps [simp del]

definition sanitizeCloseReason :: "string \<Rightarrow> string" where
  "sanitizeCloseReason reason = walk_back (if length reason > 123 then take 123 reason else reason)"

lemma walk_back_valid: "utf8_valid (walk_back s) \<and> (\<exists>t. s = walk_back s @ t)"
proof (induction s rule: walk_back.induct)
  case (1 s)
  show ?case
  proof (cases "s \<noteq> [] \<and> \<not> utf8_valid s")
    case True
    from 1 [OF True] obtain t where "utf8_valid (walk_back (butlast s))" "butlast s = walk_back (butlast s) @ t" by blast
    moreover from this True have "s = walk_back (butlast s) @ t @ [last s]" by (metis append_assoc append_butlast_last_id)
    ultimately show ?thesis using True by (auto simp: walk_back.simps [of s])
  qed (auto simp: walk_back.simps [of s])
qed

section \<open>The client\<close>

datatype ws_write = WroteClose close_code string | WrotePong string

record ws_frame =
  wf_header :: ws_header
  wf_payload :: string

datatype ws_end = ExpectedClose | ReadFailure

record ws_client =
  wc_frag :: fragment_state
  wc_writes :: "ws_write list"

datatype read_error = EndOfFile | HeaderError | ControlTooLarge | FrameTooLarge | PayloadError | PongError | BinaryRejected
| FragmentError string | InvalidUTF8

definition MaxLineSize :: int where
  "MaxLineSize = 10485760"

definition writeCloseFrame :: "close_code \<Rightarrow> string \<Rightarrow> ws_client \<Rightarrow> ws_client" where
  "writeCloseFrame code reason c = c\<lparr>wc_writes := wc_writes c @ [WroteClose code (sanitizeCloseReason reason)]\<rparr>"

definition NewWSClientFromConn :: ws_client where
  "NewWSClientFromConn = \<lparr>wc_frag = \<lparr>fs_opcode = 0, fs_buf = [], fs_maxBytes = MaxLineSize, fs_active = False\<rparr>, wc_writes = []\<rparr>"

fun ReadMessage ::
  "ws_lib \<Rightarrow> (ws_client \<Rightarrow> bool) \<Rightarrow> ws_end \<Rightarrow> ws_frame list \<Rightarrow> ws_client \<Rightarrow> (read_error + string) \<times> ws_frame list \<times> ws_client" where
  "ReadMessage w pong_fails fin [] c = (Inl (if fin = ExpectedClose then EndOfFile else HeaderError), [], c)"
| "ReadMessage w pong_fails fin (fr # frs) c =
     (let hdr = wf_header fr; opc = wh_opcode hdr; n = wh_length hdr in
      if op_isControl w opc \<and> n > 125 then (Inl ControlTooLarge, frs, writeCloseFrame ProtocolError ''control frame too large'' c)
      else if \<not> op_isControl w opc \<and> n > MaxLineSize then (Inl FrameTooLarge, frs, writeCloseFrame MessageTooBig ''frame too large'' c)
      else if n < 0 \<or> n > MaxLineSize then (Inl FrameTooLarge, frs, writeCloseFrame MessageTooBig ''frame too large'' c)
      else if int (length (wf_payload fr)) < n then (Inl PayloadError, frs, c)
      else
        let payload = take (nat n) (wf_payload fr) in
        if op_isControl w opc then
          (if opc = op_close w then (Inl EndOfFile, frs, writeCloseFrame NormalClosure [] c)
           else if opc = op_ping w then
             (if pong_fails c then (Inl PongError, frs, c)
              else ReadMessage w pong_fails fin frs (c\<lparr>wc_writes := wc_writes c @ [WrotePong payload]\<rparr>))
           else ReadMessage w pong_fails fin frs c)
        else if opc = op_binary w \<or> opc = op_cont w \<and> fs_active (wc_frag c) \<and> fs_opcode (wc_frag c) = op_binary w
        then (Inl BinaryRejected, frs, writeCloseFrame PolicyViolation ''binary frames not allowed'' c)
        else (case Process w hdr payload (wc_frag c) of
            (CloseWith code reason, f) \<Rightarrow> (Inl (FragmentError reason), frs, writeCloseFrame code reason (c\<lparr>wc_frag := f\<rparr>))
          | (Incomplete, f) \<Rightarrow> ReadMessage w pong_fails fin frs (c\<lparr>wc_frag := f\<rparr>)
          | (Complete msg, f) \<Rightarrow>
              if \<not> utf8_valid msg then (Inl InvalidUTF8, frs, writeCloseFrame InvalidPayload ''invalid UTF-8'' (c\<lparr>wc_frag := f\<rparr>))
              else (Inr msg, frs, c\<lparr>wc_frag := frag_Reset f\<rparr>)))"
section \<open>Messages are reassembled exactly\<close>

lemma ws_okD:
  assumes "ws_ok w"
  shows "\<not> op_isControl w (op_cont w)" "\<not> op_isControl w (op_text w)" "op_isControl w (op_close w)" "op_isControl w (op_ping w)"
    "op_text w \<noteq> op_cont w" "op_text w \<noteq> op_binary w" "op_cont w \<noteq> op_binary w"
  using assms by (auto simp: ws_ok_def)

definition data_frame :: "bool \<Rightarrow> nat \<Rightarrow> string \<Rightarrow> ws_frame" where
  "data_frame fin opc p = \<lparr>wf_header = \<lparr>wh_fin = fin, wh_opcode = opc, wh_length = int (length p)\<rparr>, wf_payload = p\<rparr>"

text \<open>A control frame that does not end the connection.\<close>

definition quiet :: "ws_lib \<Rightarrow> ws_frame \<Rightarrow> bool" where
  "quiet w fr \<longleftrightarrow> op_isControl w (wh_opcode (wf_header fr)) \<and> wh_opcode (wf_header fr) \<noteq> op_close w \<and>
     wh_length (wf_header fr) = int (length (wf_payload fr)) \<and> length (wf_payload fr) \<le> 125"

definition pongs :: "ws_lib \<Rightarrow> ws_frame list \<Rightarrow> ws_write list" where
  "pongs w frs = map (\<lambda>fr. WrotePong (wf_payload fr)) (filter (\<lambda>fr. wh_opcode (wf_header fr) = op_ping w) frs)"

text \<open>A message in pieces: before each piece come control frames, the last piece has the final bit.\<close>

fun encode_rest :: "ws_lib \<Rightarrow> (ws_frame list \<times> string) list \<Rightarrow> ws_frame list" where
  "encode_rest w [] = []"
| "encode_rest w ((ctl, p) # cs) = ctl @ data_frame (cs = []) (op_cont w) p # encode_rest w cs"

fun encode :: "ws_lib \<Rightarrow> (ws_frame list \<times> string) list \<Rightarrow> ws_frame list" where
  "encode w [] = []"
| "encode w ((ctl, p) # cs) = ctl @ data_frame (cs = []) (op_text w) p # encode_rest w cs"

lemma skip_quiet:
  "list_all (quiet w) ctl \<Longrightarrow>
     ReadMessage w (\<lambda>_. False) e (ctl @ frs) c = ReadMessage w (\<lambda>_. False) e frs (c\<lparr>wc_writes := wc_writes c @ pongs w ctl\<rparr>)"
  by (induction ctl arbitrary: c) (auto simp: quiet_def pongs_def MaxLineSize_def Let_def)

lemma read_rest:
  assumes w: "ws_ok w"
  shows "cs \<noteq> [] \<Longrightarrow> list_all (\<lambda>(ctl, _). list_all (quiet w) ctl) cs \<Longrightarrow> fs_active (wc_frag c) \<Longrightarrow> fs_opcode (wc_frag c) = op_text w \<Longrightarrow>
    fs_maxBytes (wc_frag c) = MaxLineSize \<Longrightarrow> int (length (fs_buf (wc_frag c) @ concat (map snd cs))) \<le> MaxLineSize \<Longrightarrow>
    utf8_valid (fs_buf (wc_frag c) @ concat (map snd cs)) \<Longrightarrow>
    \<exists>f. ReadMessage w (\<lambda>_. False) e (encode_rest w cs @ rest) c =
      (Inr (fs_buf (wc_frag c) @ concat (map snd cs)), rest,
       c\<lparr>wc_frag := f, wc_writes := wc_writes c @ pongs w (concat (map fst cs))\<rparr>) \<and>
      \<not> fs_active f \<and> fs_maxBytes f = MaxLineSize"
proof (induction cs arbitrary: c)
  case (Cons x cs)
  obtain ctl p where x: "x = (ctl, p)" by (cases x)
  let ?c = "c\<lparr>wc_writes := wc_writes c @ pongs w ctl\<rparr>"
  let ?f = "(wc_frag c)\<lparr>fs_buf := fs_buf (wc_frag c) @ p\<rparr>"
  have len: "int (length p) \<le> MaxLineSize" "int (length (fs_buf (wc_frag c)) + length p) \<le> MaxLineSize"
    using Cons.prems(6) by (simp_all add: x)
  have proc: "Process w (wf_header (data_frame (cs = []) (op_cont w) p)) p (wc_frag c) =
      (if cs = [] then Complete (fs_buf (wc_frag c) @ p) else Incomplete, ?f)"
    using Cons.prems(3,5) len(2) by (simp add: Process_def data_frame_def)
  have step: "ReadMessage w (\<lambda>_. False) e (encode_rest w (x # cs) @ rest) c =
      (if cs = [] then (Inr (fs_buf (wc_frag c) @ p), rest, ?c\<lparr>wc_frag := frag_Reset ?f\<rparr>)
       else ReadMessage w (\<lambda>_. False) e (encode_rest w cs @ rest) (?c\<lparr>wc_frag := ?f\<rparr>))"
    using skip_quiet [of w ctl] Cons.prems(2,4,7) proc len(1) ws_okD [OF w]
    by (auto simp: x data_frame_def Let_def)
  show ?case
  proof (cases "cs = []")
    case True
    with step Cons.prems(5) show ?thesis by (intro exI [of _ "frag_Reset ?f"]) (simp add: x frag_Reset_def)
  next
    case False
    have "\<exists>f. ReadMessage w (\<lambda>_. False) e (encode_rest w cs @ rest) (?c\<lparr>wc_frag := ?f\<rparr>) =
      (Inr (fs_buf ?f @ concat (map snd cs)), rest,
       ?c\<lparr>wc_frag := f, wc_writes := wc_writes ?c @ pongs w (concat (map fst cs))\<rparr>) \<and> \<not> fs_active f \<and> fs_maxBytes f = MaxLineSize"
      using Cons.IH [of "?c\<lparr>wc_frag := ?f\<rparr>"] Cons.prems False by (simp add: x add.assoc)
    with step False show ?thesis by (auto simp: x pongs_def)
  qed
qed simp
text \<open>
  However a text message within the size limit is cut into fragments, and whatever pings and
  other non-closing control frames come in between, the reader returns exactly that message and
  leaves the frames after it; the pings were answered in order, and the reader is ready for the
  next message.
\<close>

theorem fragmented_message_roundtrip:
  assumes "ws_ok w" "cs \<noteq> []" "list_all (\<lambda>(ctl, _). list_all (quiet w) ctl) cs"
    and "\<not> fs_active (wc_frag c)" "fs_maxBytes (wc_frag c) = MaxLineSize"
    and "int (length (concat (map snd cs))) \<le> MaxLineSize" "utf8_valid (concat (map snd cs))"
  shows "\<exists>f. ReadMessage w (\<lambda>_. False) e (encode w cs @ rest) c =
      (Inr (concat (map snd cs)), rest, c\<lparr>wc_frag := f, wc_writes := wc_writes c @ pongs w (concat (map fst cs))\<rparr>) \<and>
      \<not> fs_active f \<and> fs_maxBytes f = MaxLineSize"
proof -
  obtain ctl p cs' where x: "cs = (ctl, p) # cs'" using assms(2) by (cases cs) auto
  let ?c = "c\<lparr>wc_writes := wc_writes c @ pongs w ctl\<rparr>"
  let ?f = "if cs' = [] then (wc_frag c)\<lparr>fs_opcode := op_text w\<rparr> else (wc_frag c)\<lparr>fs_active := True, fs_opcode := op_text w, fs_buf := p\<rparr>"
  have len: "int (length p) \<le> MaxLineSize" using assms(6) by (simp add: x)
  have proc: "Process w (wf_header (data_frame (cs' = []) (op_text w) p)) p (wc_frag c) = (if cs' = [] then Complete p else Incomplete, ?f)"
    using assms(4,5) len ws_okD [OF assms(1)] by (simp add: Process_def data_frame_def)
  have step: "ReadMessage w (\<lambda>_. False) e (encode w cs @ rest) c =
      (if cs' = [] then (Inr p, rest, ?c\<lparr>wc_frag := frag_Reset ?f\<rparr>)
       else ReadMessage w (\<lambda>_. False) e (encode_rest w cs' @ rest) (?c\<lparr>wc_frag := ?f\<rparr>))"
    using skip_quiet [of w ctl] assms(3,7) proc len ws_okD [OF assms(1)] by (auto simp: x data_frame_def Let_def)
  show ?thesis
  proof (cases "cs' = []")
    case True
    with step assms(5) show ?thesis by (intro exI [of _ "frag_Reset ?f"]) (simp add: x frag_Reset_def)
  next
    case False
    have "\<exists>f. ReadMessage w (\<lambda>_. False) e (encode_rest w cs' @ rest) (?c\<lparr>wc_frag := ?f\<rparr>) =
      (Inr (fs_buf ?f @ concat (map snd cs')), rest,
       ?c\<lparr>wc_frag := f, wc_writes := wc_writes ?c @ pongs w (concat (map fst cs'))\<rparr>) \<and> \<not> fs_active f \<and> fs_maxBytes f = MaxLineSize"
      using read_rest [OF assms(1) False, of "?c\<lparr>wc_frag := ?f\<rparr>"] assms False by (simp add: x)
    with step False show ?thesis by (auto simp: x pongs_def)
  qed
qed

definition rfc_ws :: ws_lib where
  "rfc_ws = \<lparr>op_cont = 0, op_text = 1, op_binary = 2, op_close = 8, op_ping = 9, op_pong = 10, op_isControl = (\<lambda>c. 8 \<le> c)\<rparr>"

definition demo_ping :: ws_frame where
  "demo_ping = \<lparr>wf_header = \<lparr>wh_fin = True, wh_opcode = 9, wh_length = 1\<rparr>, wf_payload = ''p''\<rparr>"

theorem fragmented_message_roundtrip_witness:
  "\<exists>f. ReadMessage rfc_ws (\<lambda>_. False) ReadFailure (encode rfc_ws [([], ''ab''), ([demo_ping], ''cd'')] @ []) NewWSClientFromConn =
     (Inr ''abcd'', [], NewWSClientFromConn\<lparr>wc_frag := f, wc_writes := [WrotePong ''p'']\<rparr>)"
proof -
  have w: "ws_ok rfc_ws" by (simp add: ws_ok_def rfc_ws_def)
  have q: "list_all (\<lambda>(ctl, _). list_all (quiet rfc_ws) ctl) [([], ''ab''), ([demo_ping], ''cd'')]"
    by (simp add: quiet_def demo_ping_def rfc_ws_def)
  have u: "utf8_valid ''abcd''" by (rule ascii_utf8_valid) (simp add: is_ascii_def)
  have p: "pongs rfc_ws [demo_ping] = [WrotePong ''p'']" by (simp add: pongs_def demo_ping_def rfc_ws_def)
  from fragmented_message_roundtrip [OF w _ q, of NewWSClientFromConn ReadFailure "[]"] u p
  show ?thesis by (auto simp: NewWSClientFromConn_def MaxLineSize_def)
qed

section \<open>Nothing is dropped or added\<close>

definition is_data :: "ws_lib \<Rightarrow> ws_frame \<Rightarrow> bool" where
  "is_data w fr \<longleftrightarrow> \<not> op_isControl w (wh_opcode (wf_header fr))"

definition data_bytes :: "ws_lib \<Rightarrow> ws_frame list \<Rightarrow> string" where
  "data_bytes w frs = concat (map (\<lambda>fr. take (nat (wh_length (wf_header fr))) (wf_payload fr)) (filter (is_data w) frs))"

lemma Process_cases:
  assumes "Process w hdr p f = (r, f')" "fs_maxBytes f = MaxLineSize" "\<not> op_isControl w (wh_opcode hdr)" "int (length p) \<le> wh_length hdr"
    "fs_active f \<longrightarrow> int (length (fs_buf f)) \<le> MaxLineSize"
  shows "case r of Complete m \<Rightarrow> m = (if fs_active f then fs_buf f else []) @ p \<and> int (length m) \<le> MaxLineSize
    | Incomplete \<Rightarrow> fs_active f' \<and> fs_buf f' = (if fs_active f then fs_buf f else []) @ p \<and> fs_maxBytes f' = MaxLineSize \<and>
        int (length (fs_buf f')) \<le> MaxLineSize
    | CloseWith _ _ \<Rightarrow> True"
  using assms by (auto simp: Process_def Let_def split: if_splits)

lemma read_sound:
  "ReadMessage w pf e frs c = (Inr m, rest, c') \<Longrightarrow> fs_maxBytes (wc_frag c) = MaxLineSize \<Longrightarrow>
   (fs_active (wc_frag c) \<longrightarrow> int (length (fs_buf (wc_frag c))) \<le> MaxLineSize) \<Longrightarrow>
   \<exists>used. frs = used @ rest \<and> m = (if fs_active (wc_frag c) then fs_buf (wc_frag c) else []) @ data_bytes w used \<and>
     int (length m) \<le> MaxLineSize \<and> utf8_valid m \<and> list_all (\<lambda>fr. is_data w fr \<longrightarrow> wh_opcode (wf_header fr) \<noteq> op_binary w) used"
proof (induction frs arbitrary: c)
  case (Cons fr frs)
  let ?n = "wh_length (wf_header fr)" and ?buf = "\<lambda>c. if fs_active (wc_frag c) then fs_buf (wc_frag c) else []"
  let ?p = "take (nat ?n) (wf_payload fr)"
  have n: "0 \<le> ?n" "?n \<le> int (length (wf_payload fr))"
    using Cons.prems(1) by (auto simp: Let_def split: if_splits)
  then have p: "int (length ?p) = ?n" by simp
  show ?case
  proof (cases "is_data w fr")
    case False
    then obtain c2 where c2: "ReadMessage w pf e frs c2 = (Inr m, rest, c')" "wc_frag c2 = wc_frag c"
      using Cons.prems(1) by (auto simp: is_data_def Let_def split: if_splits)
    from Cons.IH [OF c2(1), unfolded c2(2), OF Cons.prems(2,3)] obtain used where "frs = used @ rest" "m = ?buf c @ data_bytes w used"
      "int (length m) \<le> MaxLineSize" "utf8_valid m" "list_all (\<lambda>fr. is_data w fr \<longrightarrow> wh_opcode (wf_header fr) \<noteq> op_binary w) used" by blast
    with False show ?thesis by (intro exI [of _ "fr # used"]) (simp add: data_bytes_def)
  next
    case True
    obtain r f where r: "Process w (wf_header fr) ?p (wc_frag c) = (r, f)" by force
    have nb: "wh_opcode (wf_header fr) \<noteq> op_binary w" using Cons.prems(1) True by (auto simp: is_data_def Let_def split: if_splits)
    have run: "(case r of CloseWith _ _ \<Rightarrow> False | Incomplete \<Rightarrow> ReadMessage w pf e frs (c\<lparr>wc_frag := f\<rparr>) = (Inr m, rest, c')
        | Complete msg \<Rightarrow> utf8_valid msg \<and> msg = m \<and> rest = frs)"
      using Cons.prems(1) True r by (auto simp: is_data_def Let_def split: if_splits processed.splits)
    have pc: "case r of Complete m \<Rightarrow> m = ?buf c @ ?p \<and> int (length m) \<le> MaxLineSize
      | Incomplete \<Rightarrow> fs_active f \<and> fs_buf f = ?buf c @ ?p \<and> fs_maxBytes f = MaxLineSize \<and> int (length (fs_buf f)) \<le> MaxLineSize
      | CloseWith _ _ \<Rightarrow> True"
      using Process_cases [OF r Cons.prems(2)] True p Cons.prems(3) by (simp add: is_data_def)
    show ?thesis
    proof (cases r)
      case (Complete msg)
      with run pc have "rest = frs" "m = ?buf c @ ?p" "int (length m) \<le> MaxLineSize" "utf8_valid m" by auto
      moreover have "data_bytes w [fr] = ?p" using True by (simp add: data_bytes_def)
      ultimately show ?thesis using nb by (intro exI [of _ "[fr]"]) simp_all
    next
      case Incomplete
      with run pc Cons.IH [of "c\<lparr>wc_frag := f\<rparr>"] obtain used where "frs = used @ rest" "m = fs_buf f @ data_bytes w used"
        "int (length m) \<le> MaxLineSize" "utf8_valid m" "list_all (\<lambda>fr. is_data w fr \<longrightarrow> wh_opcode (wf_header fr) \<noteq> op_binary w) used" by auto
      with True nb pc Incomplete show ?thesis by (intro exI [of _ "fr # used"]) (simp add: data_bytes_def)
    qed (use run in simp)
  qed
qed simp

text \<open>
  A message the reader returns is valid UTF-8 within the size limit and is exactly the payload of
  the data frames read for it, in order, none of them binary; the frames after it are left to be read.
\<close>

theorem read_message_exact:
  assumes "ReadMessage w pf e frs NewWSClientFromConn = (Inr m, rest, c')"
  shows "\<exists>used. frs = used @ rest \<and> m = data_bytes w used \<and> int (length m) \<le> 10485760 \<and> utf8_valid m \<and>
    list_all (\<lambda>fr. is_data w fr \<longrightarrow> wh_opcode (wf_header fr) \<noteq> op_binary w) used"
  using read_sound [OF assms] by (auto simp: NewWSClientFromConn_def MaxLineSize_def)

text \<open>
  The reader does not restrict data frames to text: a frame with any opcode that is neither a
  control opcode nor binary nor continuation, such as the reserved ones, is returned as a message.
\<close>

lemma reserved_opcode_accepted:
  assumes "\<not> op_isControl w opc" "opc \<noteq> op_binary w" "opc \<noteq> op_cont w" "int (length m) \<le> MaxLineSize" "utf8_valid m"
  shows "fst (ReadMessage w pf e [data_frame True opc m] NewWSClientFromConn) = Inr m"
  using assms by (simp add: data_frame_def NewWSClientFromConn_def Process_def Let_def)

lemma reserved_opcode_accepted_witness:
  "fst (ReadMessage rfc_ws (\<lambda>_. False) ReadFailure [data_frame True 3 ''x''] NewWSClientFromConn) = Inr ''x''"
proof -
  have "utf8_valid ''x''" by (rule ascii_utf8_valid) (simp add: is_ascii_def)
  then show ?thesis by (intro reserved_opcode_accepted) (simp_all add: rfc_ws_def MaxLineSize_def)
qed

theorem read_message_exact_witness:
  "fst (ReadMessage rfc_ws (\<lambda>_. False) ReadFailure [demo_ping, data_frame True 1 ''x''] NewWSClientFromConn) = Inr ''x'' \<and>
   (\<exists>used. [demo_ping, data_frame True 1 ''x''] = used @ [] \<and> ''x'' = data_bytes rfc_ws used)"
proof -
  have u: "utf8_valid ''x''" by (rule ascii_utf8_valid) (simp add: is_ascii_def)
  have r: "\<exists>c'. ReadMessage rfc_ws (\<lambda>_. False) ReadFailure [demo_ping, data_frame True 1 ''x''] NewWSClientFromConn = (Inr ''x'', [], c')"
    using u by (simp add: demo_ping_def data_frame_def rfc_ws_def NewWSClientFromConn_def MaxLineSize_def Process_def)
  then obtain c' where c': "ReadMessage rfc_ws (\<lambda>_. False) ReadFailure [demo_ping, data_frame True 1 ''x''] NewWSClientFromConn = (Inr ''x'', [], c')" ..
  from read_message_exact [OF c'] c' show ?thesis by (metis fst_conv)
qed

end
