(* ===== verification/GoJson.thy ===== *)
theory GoJson
  imports GoText
begin

text \<open>
  What the sources use of \<^verbatim>\<open>encoding/json\<close> to print: \<^verbatim>\<open>json.Marshal\<close> of structures whose fields print in
  declaration order, with \<^verbatim>\<open>omitempty\<close>, string escaping (HTML escaping on, as \<^verbatim>\<open>Marshal\<close> has it) and maps
  in key order. A value is a tree; a string leaf holds its escaped text, so that two trees are equal
  exactly when they print alike. A \<^verbatim>\<open>json.RawMessage\<close> is printed as its compacted text.
\<close>

section \<open>String escapes\<close>

definition esc_byte :: "char \<Rightarrow> string" where
  "esc_byte c =
     (let n = (of_char c :: nat) in
      if c = CHR 0x22 \<or> c = CHR 0x5C then [CHR 0x5C, c]
      else if n = 8 then [CHR 0x5C, CHR ''b''] else if n = 12 then [CHR 0x5C, CHR ''f'']
      else if n = 10 then [CHR 0x5C, CHR ''n''] else if n = 13 then [CHR 0x5C, CHR ''r'']
      else if n = 9 then [CHR 0x5C, CHR ''t'']
      else if n < 32 \<or> c = CHR ''<'' \<or> c = CHR ''>'' \<or> c = CHR ''&''
      then CHR 0x5C # ''u00'' @ [digit_char (n div 16), digit_char (n mod 16)]
      else [c])"

definition esc_rune :: "string \<Rightarrow> string" where
  "esc_rune r =
     (if length r = 1 then CHR 0x5C # ''ufffd''
      else if r = byte_string [226, 128, 168] then CHR 0x5C # ''u2028''
      else if r = byte_string [226, 128, 169] then CHR 0x5C # ''u2029''
      else r)"

function esc :: "string \<Rightarrow> string" where
  "esc [] = []"
| "esc (c # s) =
     (if (of_char c :: nat) < 128 then esc_byte c @ esc s
      else esc_rune (take (rune_width (c # s)) (c # s)) @ esc (drop (rune_width (c # s)) (c # s)))"
  by pat_completeness auto
termination by (relation "measure length") (simp_all only: wf_measure in_measure drop_rune, simp)

text \<open>Texts that may stand between quotes: no bare quote, and every backslash escapes a character.\<close>

fun quotable :: "string \<Rightarrow> bool" where
  "quotable [] = True"
| "quotable (c # s) =
     (if c = CHR 0x5C then (case s of [] \<Rightarrow> False | _ # s' \<Rightarrow> quotable s') else c \<noteq> CHR 0x22 \<and> quotable s)"

lemma quotable_append: "quotable s \<Longrightarrow> quotable t \<Longrightarrow> quotable (s @ t)"
  by (induction s rule: quotable.induct) (auto split: list.splits if_splits)

lemma quotable_high: "list_all (\<lambda>c. 128 \<le> (of_char c :: nat)) s \<Longrightarrow> quotable s"
  by (induction s) auto

lemma quotable_end:
  "quotable s \<Longrightarrow> quotable t \<Longrightarrow> s @ CHR 0x22 # a = t @ CHR 0x22 # b \<Longrightarrow> s = t \<and> a = b"
proof (induction s arbitrary: t rule: quotable.induct)
  case 1
  then show ?case by (cases t) (auto split: if_splits)
next
  case (2 c s)
  show ?case
  proof (cases "c = CHR 0x5C")
    case True
    then obtain d s' where s: "s = d # s'" using 2(3) by (cases s) auto
    with True 2(3,4,5) obtain t' where "t = c # d # t'" by (cases t) (auto split: list.splits if_splits)
    with s True 2(1) [of d s' t'] 2(3,4,5) show ?thesis by simp
  next
    case False
    with 2(3,4,5) obtain t' where "t = c # t'" by (cases t) (auto split: if_splits)
    with False 2(2) [of t'] 2(3,4,5) show ?thesis by simp
  qed
qed

lemma rune_high:
  assumes "128 \<le> (of_char c :: nat)"
  shows "list_all (\<lambda>d. 128 \<le> (of_char d :: nat)) (take (rune_width (c # s)) (c # s))"
proof -
  have "rune_width (c # s) \<in> {1, 2, 3, 4}" by (auto simp: rune_width_def Let_def)
  then show ?thesis
    using assms by (cases s; cases "tl s"; cases "tl (tl s)") (auto simp: rune_width_def Let_def split: if_splits)
qed

lemma quotable_esc_byte: "quotable (esc_byte c)"
proof -
  have "digit_char n \<noteq> CHR 0x22 \<and> digit_char n \<noteq> CHR 0x5C" if "n < 16" for n
  proof -
    from that have "digit_like (digit_char n)" by (auto simp: digit_like_def digit_char_def)
    then show ?thesis by (auto simp: digit_like_def)
  qed
  moreover have "(of_char c :: nat) div 16 < 16" using nat_of_char_less_256 [of c] by (simp add: div_less_iff_less_mult)
  ultimately show ?thesis by (simp add: esc_byte_def Let_def)
qed

lemma quotable_esc [simp]: "quotable (esc s)"
proof (induction s rule: esc.induct)
  case (2 c s)
  have "128 \<le> (of_char c :: nat) \<Longrightarrow> quotable (esc_rune (take (rune_width (c # s)) (c # s)))"
    using quotable_high [OF rune_high [of c s]] by (simp add: esc_rune_def)
  with 2 show ?case by (simp add: quotable_append quotable_esc_byte del: take_Cons' drop_Cons')
qed simp

text \<open>A text without escapes is the text of itself only.\<close>

definition bare_char :: "char \<Rightarrow> bool" where
  "bare_char c \<longleftrightarrow> (of_char c :: nat) < 128 \<and> esc_byte c = [c]"

lemma esc_bare: "list_all bare_char s \<Longrightarrow> esc s = s"
  by (induction s) (auto simp: bare_char_def)

lemma not_bare_backslash: "\<not> bare_char (CHR 0x5C)"
  by (simp add: bare_char_def esc_byte_def Let_def)

lemma esc_byte_cases: "esc_byte c = [c] \<or> (\<exists>r. esc_byte c = CHR 0x5C # r)"
  by (auto simp: esc_byte_def Let_def)

lemma esc_rune_cases: "r \<noteq> [] \<Longrightarrow> (\<exists>t. esc_rune r = CHR 0x5C # t) \<or> esc_rune r = r"
  by (auto simp: esc_rune_def)

lemma esc_eq_bare: "esc s = t \<Longrightarrow> list_all bare_char t \<Longrightarrow> s = t"
proof (induction s arbitrary: t rule: esc.induct)
  case (2 c s)
  show ?case
  proof (cases "(of_char c :: nat) < 128")
    case True
    with 2(3,4) not_bare_backslash have "esc_byte c = [c]" using esc_byte_cases [of c] by auto
    with True 2(3) have t: "t = c # esc s" by simp
    with 2(1) [OF True, of "esc s"] 2(4) show ?thesis by simp
  next
    case False
    let ?r = "take (rune_width (c # s)) (c # s)"
    have r: "?r \<noteq> [] \<and> hd ?r = c" by (cases "rune_width (c # s)") (use rune_width_pos [of "c # s"] in auto)
    from False 2(3) have "t = esc_rune ?r @ esc (drop (rune_width (c # s)) (c # s))" by simp
    with 2(4) not_bare_backslash have "esc_rune ?r = ?r" using esc_rune_cases [of ?r] r by auto
    with 2(4) r have "list_all bare_char ?r" using \<open>t = _\<close> by (metis list_all_append)
    with r have "bare_char c" by (metis list.set_sel(1) list_all_iff)
    with False show ?thesis by (simp add: bare_char_def)
  qed
qed simp
section \<open>Values\<close>

datatype json =
    JNull
  | JBool bool
  | JInt int
  | JStr string
  | JArr "json list"
  | JObj "(string \<times> json) list"
  | JRaw string

definition fmt_int :: "int \<Rightarrow> string" where
  "fmt_int n = (if n < 0 then CHR ''-'' # format_uint 10 (nat (- n)) else format_uint 10 (nat n))"

definition field_text :: "string \<Rightarrow> string \<Rightarrow> string" where
  "field_text k v = CHR 0x22 # k @ CHR 0x22 # CHR '':'' # v"

fun json_text :: "json \<Rightarrow> string" where
  "json_text JNull = ''null''"
| "json_text (JBool b) = (if b then ''true'' else ''false'')"
| "json_text (JInt n) = fmt_int n"
| "json_text (JStr t) = CHR 0x22 # t @ [CHR 0x22]"
| "json_text (JArr vs) = CHR ''['' # join_with CHR '','' (map json_text vs) @ '']''"
| "json_text (JObj fs) = CHR ''{'' # join_with CHR '','' (map (\<lambda>(k, v). field_text k (json_text v)) fs) @ ''}''"
| "json_text (JRaw t) = t"

text \<open>The fields of a structure that print: \<^verbatim>\<open>omitempty\<close> drops empty strings, zeros, false, nil and empty collections.\<close>

definition jstr :: "string \<Rightarrow> json" where
  "jstr s = JStr (esc s)"

definition opt_field :: "string \<Rightarrow> bool \<Rightarrow> json \<Rightarrow> (string \<times> json) list" where
  "opt_field k present v = (if present then [(k, v)] else [])"

abbreviation str_field :: "string \<Rightarrow> string \<Rightarrow> (string \<times> json) list" where
  "str_field k s \<equiv> opt_field k (s \<noteq> []) (jstr s)"

abbreviation bool_field :: "string \<Rightarrow> bool \<Rightarrow> (string \<times> json) list" where
  "bool_field k b \<equiv> opt_field k b (JBool b)"

abbreviation int_field :: "string \<Rightarrow> int \<Rightarrow> (string \<times> json) list" where
  "int_field k n \<equiv> opt_field k (n \<noteq> 0) (JInt n)"

abbreviation strs_field :: "string \<Rightarrow> string list \<Rightarrow> (string \<times> json) list" where
  "strs_field k ss \<equiv> opt_field k (ss \<noteq> []) (JArr (map jstr ss))"

definition ptr_field :: "string \<Rightarrow> json option \<Rightarrow> (string \<times> json) list" where
  "ptr_field k v = (case v of None \<Rightarrow> [] | Some j \<Rightarrow> [(k, j)])"

text \<open>Map keys print in byte order.\<close>

fun bytes_less :: "string \<Rightarrow> string \<Rightarrow> bool" where
  "bytes_less s [] = False"
| "bytes_less [] (c # t) = True"
| "bytes_less (b # s) (c # t) = ((of_char b :: nat) < of_char c \<or> b = c \<and> bytes_less s t)"

fun insert_key :: "string \<times> 'v \<Rightarrow> (string \<times> 'v) list \<Rightarrow> (string \<times> 'v) list" where
  "insert_key kv [] = [kv]"
| "insert_key kv (x # xs) = (if bytes_less (fst x) (fst kv) then x # insert_key kv xs else kv # x # xs)"

definition jmap :: "('v \<Rightarrow> json) \<Rightarrow> (string \<times> 'v) list \<Rightarrow> json" where
  "jmap f m = JObj (map (\<lambda>(k, v). (esc k, f v)) (foldr insert_key m []))"

section \<open>Printed values are determined by their text\<close>

fun printable :: "json \<Rightarrow> bool" where
  "printable (JStr t) = quotable t"
| "printable (JArr vs) = list_all printable vs"
| "printable (JObj fs) = list_all (\<lambda>(k, v). quotable k \<and> printable v) fs"
| "printable (JRaw t) = False"
| "printable _ = True"

lemma printable_jstr [simp]: "printable (jstr s)"
  by (simp add: jstr_def)

text \<open>What may follow a printed value.\<close>

definition ends :: "string \<Rightarrow> bool" where
  "ends s \<longleftrightarrow> s = [] \<or> hd s \<in> {CHR '','', CHR '']'', CHR ''}''}"

lemma ends_simps [simp]: "ends []" "ends (c # s) \<longleftrightarrow> c \<in> {CHR '','', CHR '']'', CHR ''}''}"
  by (auto simp: ends_def)

definition dec_digit :: "char \<Rightarrow> bool" where
  "dec_digit c \<longleftrightarrow> 48 \<le> (of_char c :: nat) \<and> (of_char c :: nat) \<le> 57"

lemma decimal_digits: "list_all dec_digit (format_uint 10 n)"
proof (induction "10 :: nat" n rule: format_uint.induct)
  case (1 n)
  have "dec_digit (digit_char d)" if "d < 10" for d
    using that by (auto simp: dec_digit_def digit_char_def)
  with 1 show ?case by (simp add: format_uint.simps [of 10 n])
qed

lemma digits_end:
  assumes "list_all dec_digit s" "list_all dec_digit t" "ends a" "ends b" "s @ a = t @ b"
  shows "s = t \<and> a = b"
proof -
  have "takeWhile dec_digit (u @ c) = u" if "list_all dec_digit u" "ends c" for u c
    using that by (induction u) (cases c; auto simp: dec_digit_def)+
  with assms show ?thesis by (metis append_same_eq same_append_eq)
qed

lemma fmt_int_hd: "\<exists>c r. fmt_int n = c # r \<and> (c = CHR ''-'' \<or> dec_digit c)"
proof (cases "n < 0")
  case False
  then show ?thesis
    using decimal_digits [of "nat n"] by (cases "format_uint 10 (nat n)") (auto simp: fmt_int_def)
qed (auto simp: fmt_int_def)

lemma fmt_int_first [simp]:
  "fmt_int n \<noteq> []" "\<not> ends (fmt_int n)"
  "c \<noteq> CHR ''-'' \<Longrightarrow> \<not> dec_digit c \<Longrightarrow> fmt_int n @ a \<noteq> c # r"
  "c \<noteq> CHR ''-'' \<Longrightarrow> \<not> dec_digit c \<Longrightarrow> c # r \<noteq> fmt_int n @ a"
proof -
  obtain d t where "fmt_int n = d # t" "d = CHR ''-'' \<or> dec_digit d" using fmt_int_hd by blast
  then show "fmt_int n \<noteq> []" "\<not> ends (fmt_int n)"
    "c \<noteq> CHR ''-'' \<Longrightarrow> \<not> dec_digit c \<Longrightarrow> fmt_int n @ a \<noteq> c # r"
    "c \<noteq> CHR ''-'' \<Longrightarrow> \<not> dec_digit c \<Longrightarrow> c # r \<noteq> fmt_int n @ a"
    by (auto simp: dec_digit_def)
qed

lemma fmt_int_end:
  assumes "ends a" "ends b" "fmt_int m @ a = fmt_int n @ b"
  shows "m = n \<and> a = b"
proof -
  note d = decimal_digits
  have hd: "format_uint 10 k @ u \<noteq> CHR ''-'' # w" "CHR ''-'' # w \<noteq> format_uint 10 k @ u" for k u w
    using d [of k] by (cases "format_uint 10 k"; auto simp: dec_digit_def)+
  have eq: "k = l \<and> a = b" if "format_uint 10 k @ a = format_uint 10 l @ b" for k l
    using digits_end [OF d d assms(1,2) that] format_uint_inj [of 10 k l] by simp
  show ?thesis
  proof (cases "m < 0"; cases "n < 0")
    assume "m < 0" "n < 0"
    with assms(3) eq [of "nat (- m)" "nat (- n)"] show ?thesis by (simp add: fmt_int_def eq_nat_nat_iff)
  next
    assume "\<not> m < 0" "\<not> n < 0"
    with assms(3) eq [of "nat m" "nat n"] show ?thesis by (simp add: fmt_int_def eq_nat_nat_iff)
  qed (use assms(3) hd in \<open>simp_all add: fmt_int_def\<close>)
qed

lemma join_end:
  assumes "\<And>x y a b. x \<in> set xs \<Longrightarrow> y \<in> set ys \<Longrightarrow> ends a \<Longrightarrow> ends b \<Longrightarrow> f x @ a = f y @ b \<Longrightarrow> x = y \<and> a = b"
    and "\<And>x. x \<in> set xs \<union> set ys \<Longrightarrow> f x \<noteq> [] \<and> \<not> ends (f x)" and z: "z \<in> {CHR '']'', CHR ''}''}"
    and "join_with CHR '','' (map f xs) @ z # a = join_with CHR '','' (map f ys) @ z # b"
  shows "xs = ys \<and> a = b"
  using assms(1,2,4)
proof (induction xs arbitrary: ys)
  case Nil
  have "f y @ u \<noteq> z # a" if "y \<in> set ys" for y u using Nil(2) [of y] z that by (cases "f y") auto
  with Nil(3) show ?case by (cases ys; cases "tl ys") auto
next
  case (Cons x xs)
  define rest where "rest = (\<lambda>fs u. if fs = [] then z # u else CHR '','' # join_with CHR '','' fs @ z # u)"
  have join: "join_with CHR '','' (g # fs) @ z # u = g @ rest fs u" for g fs u
    by (cases fs) (auto simp: rest_def)
  have ends: "ends (rest fs u)" for fs u using z by (auto simp: rest_def)
  have "ys \<noteq> []" using Cons(4) Cons(3) [of x] z by (cases "f x") (auto simp: join)
  then obtain y ys' where y: "ys = y # ys'" by (cases ys) auto
  have eq: "x = y \<and> rest (map f xs) a = rest (map f ys') b"
    using Cons(2) [of x y, OF _ _ ends ends] Cons(4) by (simp add: y join)
  show ?case
  proof (cases "xs = [] \<or> ys' = []")
    case True
    with eq z show ?thesis by (auto simp: y rest_def split: if_splits)
  next
    case False
    with eq have "join_with CHR '','' (map f xs) @ z # a = join_with CHR '','' (map f ys') @ z # b" by (simp add: rest_def)
    from Cons(1) [of ys', OF _ _ this] Cons(2,3) have "xs = ys' \<and> a = b" by (auto simp: y)
    with eq show ?thesis by (simp add: y)
  qed
qed

lemma json_text_first: "printable v \<Longrightarrow> json_text v \<noteq> [] \<and> \<not> ends (json_text v)"
  by (cases v) (auto simp: dec_digit_def)

lemma field_text_end:
  assumes "quotable k" "quotable l" "field_text k v @ a = field_text l w @ b"
  shows "k = l \<and> v @ a = w @ b"
  using quotable_end [of k l] assms by (fastforce simp: field_text_def)

lemma json_text_end:
  "printable v \<Longrightarrow> printable w \<Longrightarrow> ends a \<Longrightarrow> ends b \<Longrightarrow> json_text v @ a = json_text w @ b \<Longrightarrow> v = w \<and> a = b"
proof (induction v arbitrary: w a b)
  case JNull
  then show ?case by (cases w) (auto simp: dec_digit_def split: if_splits)
next
  case (JBool x)
  then show ?case by (cases w) (auto simp: dec_digit_def split: if_splits)
next
  case (JInt n)
  obtain c r where "fmt_int n = c # r" "c = CHR ''-'' \<or> dec_digit c" using fmt_int_hd by blast
  with JInt have "\<exists>m. w = JInt m" by (cases w) (auto simp: dec_digit_def split: if_splits)
  then obtain m where m: "w = JInt m" ..
  with JInt fmt_int_end [of a b n m] show ?case by simp
next
  case (JStr t)
  have "\<exists>u. w = JStr u" using JStr(2,5) by (cases w) (auto simp: dec_digit_def split: if_splits)
  then obtain u where u: "w = JStr u" ..
  with JStr quotable_end [of t u a b] show ?case by simp
next
  case (JArr vs)
  have "\<exists>us. w = JArr us" using JArr(3,6) by (cases w) (auto simp: dec_digit_def split: if_splits)
  then obtain us where w: "w = JArr us" ..
  have "vs = us \<and> a = b"
  proof (rule join_end [where f = json_text and z = "CHR '']''"])
    fix x y u t
    assume "x \<in> set vs" "y \<in> set us" "ends u" "ends t" "json_text x @ u = json_text y @ t"
    with JArr(1) [of x y u t] JArr(2,3) show "x = y \<and> u = t" by (simp add: w list_all_iff)
  next
    fix x
    assume "x \<in> set vs \<union> set us"
    with JArr(2,3) have "printable x" by (auto simp: w list_all_iff)
    then show "json_text x \<noteq> [] \<and> \<not> ends (json_text x)" by (rule json_text_first)
  qed (use JArr(6) w in simp_all)
  with w show ?case by simp
next
  case (JObj fs)
  have "\<exists>gs. w = JObj gs" using JObj(3,6) by (cases w) (auto simp: dec_digit_def split: if_splits)
  then obtain gs where w: "w = JObj gs" ..
  let ?f = "\<lambda>(k, v). field_text k (json_text v)"
  have "fs = gs \<and> a = b"
  proof (rule join_end [where f = ?f and z = "CHR ''}''"])
    fix x y u t
    assume x: "x \<in> set fs" and y: "y \<in> set gs" and e: "ends u" "ends t" and eq: "?f x @ u = ?f y @ t"
    obtain k v l q where kv: "x = (k, v)" "y = (l, q)" by (cases x; cases y) auto
    have q: "quotable k" "quotable l" "printable v" "printable q" using x y JObj(2,3) by (auto simp: w kv list_all_iff)
    from field_text_end [OF q(1,2), of "json_text v" u "json_text q" t] eq
    have kl: "k = l" "json_text v @ u = json_text q @ t" by (simp_all add: kv)
    from JObj(1) [of x v q u t] x q e kl show "x = y \<and> u = t" by (simp add: kv)
  qed (use JObj(6) w in \<open>simp_all add: field_text_def split: prod.splits\<close>)
  with w show ?case by simp
qed simp

theorem json_text_inj: "printable v \<Longrightarrow> printable w \<Longrightarrow> json_text v = json_text w \<Longrightarrow> v = w"
  using json_text_end [of v w "[]" "[]"] by simp

section \<open>Fields of an object\<close>

definition field_of :: "(string \<times> json) list \<Rightarrow> string \<Rightarrow> json option" where
  "field_of fs k = map_of fs k"

named_theorems json_fields \<open>lookup and printability of structure fields\<close>

lemma field_of_simps [json_fields]:
  "field_of [] l = None"
  "field_of ((k, v) # fs) l = (if k = l then Some v else field_of fs l)"
  "field_of (opt_field k p v @ fs) l = (if k = l \<and> p then Some v else field_of fs l)"
  "field_of (opt_field k p v) l = (if k = l \<and> p then Some v else None)"
  "field_of (ptr_field k w @ fs) l = (if k = l \<and> w \<noteq> None then w else field_of fs l)"
  "field_of (ptr_field k w) l = (if k = l then w else None)"
  by (auto simp: field_of_def opt_field_def ptr_field_def split: option.splits)

lemma printable_jstrs [simp]: "list_all printable (map jstr ss)"
  by (simp add: list_all_iff)

lemma printable_fields [json_fields]:
  "printable (JObj []) = True" "printable (JObj ((k, v) # fs)) \<longleftrightarrow> quotable k \<and> printable v \<and> printable (JObj fs)"
  "printable (JObj (opt_field k p v @ fs)) \<longleftrightarrow> (p \<longrightarrow> quotable k \<and> printable v) \<and> printable (JObj fs)"
  "printable (JObj (opt_field k p v)) \<longleftrightarrow> (p \<longrightarrow> quotable k \<and> printable v)"
  "printable (JObj (ptr_field k w @ fs)) \<longleftrightarrow> (case w of None \<Rightarrow> True | Some v \<Rightarrow> quotable k \<and> printable v) \<and> printable (JObj fs)"
  "printable (JObj (ptr_field k w)) \<longleftrightarrow> (case w of None \<Rightarrow> True | Some v \<Rightarrow> quotable k \<and> printable v)"
  by (auto simp: opt_field_def ptr_field_def list_all_iff split: option.splits)

declare printable.simps(3) [simp del]

lemma printable_jmap: "(\<And>v. printable (f v)) \<Longrightarrow> printable (jmap f m)"
  by (simp add: jmap_def printable.simps(3) list_all_iff split: prod.splits)

end
