(* ===== verification/ReceiptRecord.thy ===== *)
theory ReceiptRecord
  imports GoJson EnvelopeSign
begin

text \<open>
  Action records and signed receipts (\<^verbatim>\<open>internal/receipt\<close>: \<^verbatim>\<open>action.go\<close>, \<^verbatim>\<open>session_control.go\<close>, \<^verbatim>\<open>canonical.go\<close>,
  \<^verbatim>\<open>receipt.go\<close>): the record types field by field, their JSON text, validation, signing, verification,
  the hash of a receipt and the bound genesis of a session.

  A Go \<^verbatim>\<open>time.Time\<close> inside a record is its instant and zone offset. The text \<^verbatim>\<open>MarshalJSON\<close> gives it (an error
  outside the years 0 to 9999) and the compaction of a \<^verbatim>\<open>json.RawMessage\<close> are the fields of an argument
  \<open>json_lib\<close>; everything else of the encoding is the printer of \<open>GoJson\<close>. Slices with \<^verbatim>\<open>omitempty\<close> are
  lists, since nil and empty print alike; the delegation chain, which prints \<^verbatim>\<open>null\<close> for nil, is an option.
  Hashing and Ed25519 are the argument \<open>crypto\<close> of the envelope signer. Error texts are left out.
\<close>

section \<open>Data\<close>

record timestamp =
  ts_instant :: go_time
  ts_offset :: int

record json_lib =
  jl_time :: "timestamp \<Rightarrow> string option"
  jl_compact :: "string \<Rightarrow> string option"

record taint_source =
  tn_url :: string
  tn_kind :: string
  tn_level :: nat
  tn_timestamp :: timestamp
  tn_receiptID :: string
  tn_matchReason :: string

record key_transition =
  kt_priorSignerKey :: string
  kt_priorChainSeq :: "64 word"
  kt_priorChainHash :: string

record session_open =
  so_runNonce :: string
  so_openNonce :: string
  so_recorderSession :: string
  so_policyHash :: string
  so_signerKeyEpoch :: string
  so_heartbeatSeconds :: int
  so_chainOpenSeq :: "64 word"
  so_priorChainHead :: string
  so_priorChainSeq :: "64 word"
  so_genesisHash :: string
  so_genesisAnchorHead :: string
  so_genesisAnchorLog :: string
  so_postureCapsuleSHA256 :: string
  so_postureSignerKeyID :: string
  so_containmentNonce :: string
  so_containedUID :: string

record session_heartbeat =
  sh_runNonce :: string
  sh_openNonce :: string
  sh_beat :: "64 word"
  sh_chainHead :: string
  sh_chainSeqHead :: "64 word"
  sh_heartbeatTime :: string
  sh_fsyncErrorsGated :: "64 word"
  sh_durabilityBlocks :: "64 word"

record session_close =
  sc_runNonce :: string
  sc_openNonce :: string
  sc_finalSeq :: "64 word"
  sc_rootHash :: string
  sc_receiptCount :: "64 word"
  sc_closeReason :: string
  sc_fsyncErrorsGated :: "64 word"
  sc_durabilityBlocks :: "64 word"

record session_control =
  ct_kind :: string
  ct_open :: "session_open option"
  ct_heartbeat :: "session_heartbeat option"
  ct_close :: "session_close option"

record redaction_summary =
  rs_profile :: string
  rs_provider :: string
  rs_parser :: string
  rs_totalRedactions :: int
  rs_byClass :: "(string \<times> int) list"
  rs_cacheBoundaryKept :: bool

record shield_summary =
  ss_pipeline :: string
  ss_totalRewrites :: int
  ss_extensionProbes :: int
  ss_trackingBeacons :: int
  ss_agentTraps :: int
  ss_fingerprintShimInjected :: bool
  ss_svgForeignObjects :: int
  ss_svgEventHandlers :: int
  ss_svgExternalReferences :: int
  ss_svgHiddenText :: int
  ss_svgAnimationInjections :: int
  ss_bodyBytes :: int
  ss_scannedBytes :: int
  ss_partial :: bool
  ss_adaptiveSignalsRecorded :: int
  ss_adaptiveSignalMaxPerBody :: int

record action_record =
  ar_version :: int
  ar_actionID :: string
  ar_parentActionID :: string
  ar_actionType :: string
  ar_timestamp :: timestamp
  ar_principal :: string
  ar_actor :: string
  ar_delegationChain :: "string list option"
  ar_target :: string
  ar_intent :: string
  ar_dataClassesIn :: "string list"
  ar_dataClassesOut :: "string list"
  ar_sideEffectClass :: string
  ar_reversibility :: string
  ar_policyHash :: string
  ar_verdict :: string
  ar_decisionPhase :: string
  ar_deferID :: string
  ar_resolutionPolicy :: string
  ar_resolutionSource :: string
  ar_sessionID :: string
  ar_sessionIDOriginal :: string
  ar_sessionTaintLevel :: string
  ar_sessionContaminated :: bool
  ar_recentTaintSources :: "taint_source list"
  ar_sessionTaskID :: string
  ar_sessionTaskLabel :: string
  ar_authorityKind :: string
  ar_taintDecision :: string
  ar_taintDecisionReason :: string
  ar_taskOverrideApplied :: bool
  ar_contractWinningSource :: string
  ar_contractLiveVerdict :: string
  ar_contractPolicySources :: "string list"
  ar_contractRuleID :: string
  ar_activeManifestHash :: string
  ar_contractHash :: string
  ar_contractSelectorID :: string
  ar_contractGeneration :: "64 word"
  ar_transport :: string
  ar_method :: string
  ar_layer :: string
  ar_pattern :: string
  ar_severity :: string
  ar_redaction :: "redaction_summary option"
  ar_shield :: "shield_summary option"
  ar_requestID :: string
  ar_chainPrevHash :: string
  ar_chainSeq :: "64 word"
  ar_runNonce :: string
  ar_keyTransition :: "key_transition option"
  ar_sessionControl :: "session_control option"
  ar_venue :: string
  ar_jurisdiction :: string
  ar_rulebookID :: string
  ar_remedyClass :: string
  ar_contestationWindow :: string
  ar_precedentRefs :: "string list"

record receipt =
  rcpt_version :: int
  rcpt_actionRecord :: action_record
  rcpt_signature :: string
  rcpt_signerKey :: string
  rcpt_ext :: string

section \<open>JSON text\<close>

definition u64 :: "64 word \<Rightarrow> json" where
  "u64 w = JInt (uint w)"

abbreviation u64_field :: "string \<Rightarrow> 64 word \<Rightarrow> (string \<times> json) list" where
  "u64_field k w \<equiv> opt_field k (w \<noteq> 0) (u64 w)"

definition key_transition_json :: "key_transition \<Rightarrow> json" where
  "key_transition_json k = JObj [(''prior_signer_key'', jstr (kt_priorSignerKey k)),
     (''prior_chain_seq'', u64 (kt_priorChainSeq k)), (''prior_chain_hash'', jstr (kt_priorChainHash k))]"

definition session_open_json :: "session_open \<Rightarrow> json" where
  "session_open_json o' = JObj
     ([(''run_nonce'', jstr (so_runNonce o')), (''open_nonce'', jstr (so_openNonce o')),
       (''recorder_session'', jstr (so_recorderSession o')), (''policy_hash'', jstr (so_policyHash o')),
       (''signer_key_epoch'', jstr (so_signerKeyEpoch o')), (''heartbeat_seconds'', JInt (so_heartbeatSeconds o')),
       (''chain_open_seq'', u64 (so_chainOpenSeq o'))] @
      str_field ''prior_chain_head'' (so_priorChainHead o') @ u64_field ''prior_chain_seq'' (so_priorChainSeq o') @
      str_field ''genesis_hash'' (so_genesisHash o') @ str_field ''genesis_anchor_head'' (so_genesisAnchorHead o') @
      str_field ''genesis_anchor_log'' (so_genesisAnchorLog o') @
      str_field ''posture_capsule_sha256'' (so_postureCapsuleSHA256 o') @
      str_field ''posture_signer_key_id'' (so_postureSignerKeyID o') @
      str_field ''containment_nonce'' (so_containmentNonce o') @ str_field ''contained_uid'' (so_containedUID o'))"

definition session_heartbeat_json :: "session_heartbeat \<Rightarrow> json" where
  "session_heartbeat_json h = JObj
     [(''run_nonce'', jstr (sh_runNonce h)), (''open_nonce'', jstr (sh_openNonce h)), (''beat'', u64 (sh_beat h)),
      (''chain_head'', jstr (sh_chainHead h)), (''chain_seq_head'', u64 (sh_chainSeqHead h)),
      (''heartbeat_time'', jstr (sh_heartbeatTime h)), (''fsync_errors_gated'', u64 (sh_fsyncErrorsGated h)),
      (''durability_blocks'', u64 (sh_durabilityBlocks h))]"

definition session_close_json :: "session_close \<Rightarrow> json" where
  "session_close_json c = JObj
     [(''run_nonce'', jstr (sc_runNonce c)), (''open_nonce'', jstr (sc_openNonce c)), (''final_seq'', u64 (sc_finalSeq c)),
      (''root_hash'', jstr (sc_rootHash c)), (''receipt_count'', u64 (sc_receiptCount c)),
      (''close_reason'', jstr (sc_closeReason c)), (''fsync_errors_gated'', u64 (sc_fsyncErrorsGated c)),
      (''durability_blocks'', u64 (sc_durabilityBlocks c))]"

definition session_control_json :: "session_control \<Rightarrow> json" where
  "session_control_json c = JObj
     ([(''kind'', jstr (ct_kind c))] @ ptr_field ''open'' (map_option session_open_json (ct_open c)) @
      ptr_field ''heartbeat'' (map_option session_heartbeat_json (ct_heartbeat c)) @
      ptr_field ''close'' (map_option session_close_json (ct_close c)))"

definition redaction_summary_json :: "redaction_summary \<Rightarrow> json" where
  "redaction_summary_json r = JObj
     (str_field ''profile'' (rs_profile r) @ str_field ''provider'' (rs_provider r) @ str_field ''parser'' (rs_parser r) @
      int_field ''total_redactions'' (rs_totalRedactions r) @
      opt_field ''by_class'' (rs_byClass r \<noteq> []) (jmap JInt (rs_byClass r)) @
      bool_field ''cache_boundary_kept'' (rs_cacheBoundaryKept r))"

definition shield_summary_json :: "shield_summary \<Rightarrow> json" where
  "shield_summary_json s = JObj
     (str_field ''pipeline'' (ss_pipeline s) @ int_field ''total_rewrites'' (ss_totalRewrites s) @
      int_field ''extension_probes'' (ss_extensionProbes s) @ int_field ''tracking_beacons'' (ss_trackingBeacons s) @
      int_field ''agent_traps'' (ss_agentTraps s) @ bool_field ''fingerprint_shim_injected'' (ss_fingerprintShimInjected s) @
      int_field ''svg_foreign_objects'' (ss_svgForeignObjects s) @ int_field ''svg_event_handlers'' (ss_svgEventHandlers s) @
      int_field ''svg_external_references'' (ss_svgExternalReferences s) @ int_field ''svg_hidden_text'' (ss_svgHiddenText s) @
      int_field ''svg_animation_injections'' (ss_svgAnimationInjections s) @ int_field ''body_bytes'' (ss_bodyBytes s) @
      int_field ''scanned_bytes'' (ss_scannedBytes s) @ bool_field ''partial'' (ss_partial s) @
      int_field ''adaptive_signals_recorded'' (ss_adaptiveSignalsRecorded s) @
      int_field ''adaptive_signal_max_per_body'' (ss_adaptiveSignalMaxPerBody s))"

definition taint_source_json :: "json_lib \<Rightarrow> taint_source \<Rightarrow> json option" where
  "taint_source_json jl t = map_option (\<lambda>tm. JObj
     ([(''url'', jstr (tn_url t)), (''kind'', jstr (tn_kind t)), (''level'', JInt (int (tn_level t))), (''timestamp'', jstr tm)] @
      str_field ''receipt_id'' (tn_receiptID t) @ str_field ''match_reason'' (tn_matchReason t)))
     (jl_time jl (tn_timestamp t))"

fun all_some :: "'a option list \<Rightarrow> 'a list option" where
  "all_some [] = Some []"
| "all_some (None # xs) = None"
| "all_some (Some x # xs) = map_option ((#) x) (all_some xs)"

text \<open>The fields of an action record, given the text of its time and its taint sources.\<close>

definition action_record_fields :: "string \<Rightarrow> json list \<Rightarrow> action_record \<Rightarrow> (string \<times> json) list" where
  "action_record_fields tm sources ar =
     [(''version'', JInt (ar_version ar)), (''action_id'', jstr (ar_actionID ar))] @
     str_field ''parent_action_id'' (ar_parentActionID ar) @
     [(''action_type'', jstr (ar_actionType ar)), (''timestamp'', jstr tm), (''principal'', jstr (ar_principal ar)),
      (''actor'', jstr (ar_actor ar)),
      (''delegation_chain'', case ar_delegationChain ar of None \<Rightarrow> JNull | Some ds \<Rightarrow> JArr (map jstr ds)),
      (''target'', jstr (ar_target ar))] @
     str_field ''intent'' (ar_intent ar) @ strs_field ''data_classes_in'' (ar_dataClassesIn ar) @
     strs_field ''data_classes_out'' (ar_dataClassesOut ar) @
     [(''side_effect_class'', jstr (ar_sideEffectClass ar)), (''reversibility'', jstr (ar_reversibility ar)),
      (''policy_hash'', jstr (ar_policyHash ar)), (''verdict'', jstr (ar_verdict ar))] @
     str_field ''decision_phase'' (ar_decisionPhase ar) @ str_field ''defer_id'' (ar_deferID ar) @
     str_field ''resolution_policy'' (ar_resolutionPolicy ar) @ str_field ''resolution_source'' (ar_resolutionSource ar) @
     str_field ''session_id'' (ar_sessionID ar) @ str_field ''session_id_original'' (ar_sessionIDOriginal ar) @
     str_field ''session_taint_level'' (ar_sessionTaintLevel ar) @
     bool_field ''session_contaminated'' (ar_sessionContaminated ar) @
     opt_field ''recent_taint_sources'' (sources \<noteq> []) (JArr sources) @
     str_field ''session_task_id'' (ar_sessionTaskID ar) @ str_field ''session_task_label'' (ar_sessionTaskLabel ar) @
     str_field ''authority_kind'' (ar_authorityKind ar) @ str_field ''taint_decision'' (ar_taintDecision ar) @
     str_field ''taint_decision_reason'' (ar_taintDecisionReason ar) @
     bool_field ''task_override_applied'' (ar_taskOverrideApplied ar) @
     str_field ''contract_winning_source'' (ar_contractWinningSource ar) @
     str_field ''contract_live_verdict'' (ar_contractLiveVerdict ar) @
     strs_field ''contract_policy_sources'' (ar_contractPolicySources ar) @
     str_field ''contract_rule_id'' (ar_contractRuleID ar) @ str_field ''active_manifest_hash'' (ar_activeManifestHash ar) @
     str_field ''contract_hash'' (ar_contractHash ar) @ str_field ''contract_selector_id'' (ar_contractSelectorID ar) @
     u64_field ''contract_generation'' (ar_contractGeneration ar) @
     [(''transport'', jstr (ar_transport ar))] @
     str_field ''method'' (ar_method ar) @ str_field ''layer'' (ar_layer ar) @ str_field ''pattern'' (ar_pattern ar) @
     str_field ''severity'' (ar_severity ar) @
     ptr_field ''redaction'' (map_option redaction_summary_json (ar_redaction ar)) @
     ptr_field ''shield'' (map_option shield_summary_json (ar_shield ar)) @
     str_field ''request_id'' (ar_requestID ar) @
     [(''chain_prev_hash'', jstr (ar_chainPrevHash ar)), (''chain_seq'', u64 (ar_chainSeq ar))] @
     str_field ''run_nonce'' (ar_runNonce ar) @
     ptr_field ''key_transition'' (map_option key_transition_json (ar_keyTransition ar)) @
     ptr_field ''session_control'' (map_option session_control_json (ar_sessionControl ar)) @
     str_field ''venue'' (ar_venue ar) @ str_field ''jurisdiction'' (ar_jurisdiction ar) @
     str_field ''rulebook_id'' (ar_rulebookID ar) @ str_field ''remedy_class'' (ar_remedyClass ar) @
     str_field ''contestation_window'' (ar_contestationWindow ar) @ strs_field ''precedent_refs'' (ar_precedentRefs ar)"

definition action_record_json :: "json_lib \<Rightarrow> action_record \<Rightarrow> json option" where
  "action_record_json jl ar =
     (case jl_time jl (ar_timestamp ar) of None \<Rightarrow> None
      | Some tm \<Rightarrow> map_option (\<lambda>sources. JObj (action_record_fields tm sources ar))
          (all_some (map (taint_source_json jl) (ar_recentTaintSources ar))))"

text \<open>
  The frozen projection of version 1 copies every field of the record under the tag the record has it
  under, in the same order, so its text is the text of the record.
\<close>

definition canonicalActionRecordV1 :: "json_lib \<Rightarrow> action_record \<Rightarrow> string option" where
  "canonicalActionRecordV1 jl ar = map_option json_text (action_record_json jl ar)"

definition canonicalActionRecord :: "json_lib \<Rightarrow> int \<Rightarrow> action_record \<Rightarrow> string option" where
  "canonicalActionRecord jl version ar = (if version = 1 then canonicalActionRecordV1 jl ar else None)"

definition Canonical :: "json_lib \<Rightarrow> action_record \<Rightarrow> string option" where
  "Canonical jl ar = canonicalActionRecord jl (ar_version ar) ar"

definition Marshal :: "json_lib \<Rightarrow> receipt \<Rightarrow> string option" where
  "Marshal jl r =
     (case action_record_json jl (rcpt_actionRecord r) of None \<Rightarrow> None
      | Some ar \<Rightarrow>
          let fields = (\<lambda>ext. Some (json_text (JObj ([(''version'', JInt (rcpt_version r)), (''action_record'', ar),
                (''signature'', jstr (rcpt_signature r)), (''signer_key'', jstr (rcpt_signerKey r))] @ ext)))) in
          if rcpt_ext r = [] then fields []
          else case jl_compact jl (rcpt_ext r) of None \<Rightarrow> None | Some t \<Rightarrow> fields [(''ext'', JRaw t)])"

definition ReceiptHash :: "crypto \<Rightarrow> json_lib \<Rightarrow> receipt \<Rightarrow> string option" where
  "ReceiptHash cr jl r = map_option (\<lambda>d. hex_EncodeToString (cr_sha256 cr d)) (Marshal jl r)"

definition ar_Hash :: "crypto \<Rightarrow> json_lib \<Rightarrow> action_record \<Rightarrow> string option" where
  "ar_Hash cr jl ar = map_option (\<lambda>d. hex_EncodeToString (cr_sha256 cr d)) (Canonical jl ar)"

section \<open>Validation\<close>

definition allActionTypes :: "string list" where
  "allActionTypes = [''read'', ''derive'', ''write'', ''delegate'', ''authorize'', ''spend'', ''commit'', ''actuate'', ''unclassified'']"

definition ValidActionType :: "string \<Rightarrow> bool" where
  "ValidActionType t \<longleftrightarrow> t \<in> set allActionTypes"

datatype record_error = BadVersion | NoActionID | BadActionType | NoTimestamp | NoTarget | NoVerdict | NoTransport

definition Validate :: "action_record \<Rightarrow> record_error option" where
  "Validate ar =
     (if ar_version ar \<noteq> 1 then Some BadVersion
      else if ar_actionID ar = [] then Some NoActionID
      else if \<not> ValidActionType (ar_actionType ar) then Some BadActionType
      else if ts_instant (ar_timestamp ar) = zero_time then Some NoTimestamp
      else if ar_target ar = [] then Some NoTarget
      else if ar_verdict ar = [] then Some NoVerdict
      else if ar_transport ar = [] then Some NoTransport
      else None)"

definition verdictMap :: "(string \<times> string) list" where
  "verdictMap = [(''block'', ''block''), (''allow'', ''allow''), (''warn'', ''warn''), (''ask'', ''ask''), (''strip'', ''strip''),
     (''forward'', ''forward''), (''defer'', ''defer'')]"

definition NormalizeVerdict :: "string \<Rightarrow> string" where
  "NormalizeVerdict v = (case map_of verdictMap v of Some m \<Rightarrow> m | None \<Rightarrow> v)"

section \<open>Signing and verification\<close>

text \<open>\<^verbatim>\<open>hex.DecodeString\<close>: an even number of digits of either case.\<close>

fun hex_DecodeString :: "string \<Rightarrow> string option" where
  "hex_DecodeString [] = Some []"
| "hex_DecodeString [c] = None"
| "hex_DecodeString (c # d # s) =
     (case (digit_val 16 c, digit_val 16 d) of
        (Some h, Some l) \<Rightarrow> map_option ((#) (char_of (16 * h + l))) (hex_DecodeString s)
      | _ \<Rightarrow> None)"

definition signaturePrefix :: string where
  "signaturePrefix = ''ed25519:''"

datatype receipt_error =
    BadPrivateKey | InvalidRecord record_error | CanonicalEncoding | NoTrustedKey | UnsupportedVersion | NoSignature
  | NoSignerKey | KeyMismatch | BadSignerKey | SignatureFormat | BadSignature | VerificationFailed

definition Sign :: "crypto \<Rightarrow> json_lib \<Rightarrow> action_record \<Rightarrow> string \<Rightarrow> receipt_error + receipt" where
  "Sign cr jl ar privKey =
     (if length privKey \<noteq> 64 then Inl BadPrivateKey
      else case Validate ar of Some e \<Rightarrow> Inl (InvalidRecord e)
      | None \<Rightarrow> (case canonicalActionRecord jl 1 ar of None \<Rightarrow> Inl CanonicalEncoding
        | Some data \<Rightarrow> Inr \<lparr>rcpt_version = 1, rcpt_actionRecord = ar,
            rcpt_signature = signaturePrefix @ hex_EncodeToString (cr_sign cr privKey (cr_sha256 cr data)),
            rcpt_signerKey = hex_EncodeToString (cr_public cr privKey), rcpt_ext = []\<rparr>))"

definition VerifyWithKey :: "crypto \<Rightarrow> json_lib \<Rightarrow> receipt \<Rightarrow> string \<Rightarrow> receipt_error option" where
  "VerifyWithKey cr jl r expectedKeyHex =
     (if expectedKeyHex = [] then Some NoTrustedKey
      else if rcpt_version r \<noteq> 1 then Some UnsupportedVersion
      else case Validate (rcpt_actionRecord r) of Some e \<Rightarrow> Some (InvalidRecord e)
      | None \<Rightarrow>
      if rcpt_signature r = [] then Some NoSignature
      else if rcpt_signerKey r = [] then Some NoSignerKey
      else if rcpt_signerKey r \<noteq> expectedKeyHex then Some KeyMismatch
      else case hex_DecodeString (rcpt_signerKey r) of None \<Rightarrow> Some BadSignerKey
      | Some pubKey \<Rightarrow>
      if length pubKey \<noteq> 32 then Some BadSignerKey
      else if \<not> (length (rcpt_signature r) > 8 \<and> take 8 (rcpt_signature r) = signaturePrefix) then Some SignatureFormat
      else case hex_DecodeString (drop 8 (rcpt_signature r)) of None \<Rightarrow> Some BadSignature
      | Some sig \<Rightarrow>
      if length sig \<noteq> 64 then Some BadSignature
      else case canonicalActionRecord jl (rcpt_version r) (rcpt_actionRecord r) of None \<Rightarrow> Some CanonicalEncoding
      | Some data \<Rightarrow> if cr_verify cr pubKey (cr_sha256 cr data) sig then None else Some VerificationFailed)"

definition VerifyInternalConsistencyOnly :: "crypto \<Rightarrow> json_lib \<Rightarrow> receipt \<Rightarrow> receipt_error option" where
  "VerifyInternalConsistencyOnly cr jl r =
     (if rcpt_signerKey r = [] then Some NoSignerKey else VerifyWithKey cr jl r (rcpt_signerKey r))"

text \<open>The anchorless \<^verbatim>\<open>Verify\<close> refuses every receipt.\<close>

definition receipt_Verify :: "receipt \<Rightarrow> receipt_error option" where
  "receipt_Verify r = Some NoTrustedKey"

section \<open>The genesis of a session\<close>

definition be_bytes :: "nat \<Rightarrow> nat \<Rightarrow> string" where
  "be_bytes k n = map (\<lambda>i. char_of (n div 256 ^ i mod 256)) (rev [0..<k])"

definition frame :: "string \<Rightarrow> string" where
  "frame b = be_bytes 8 (length b) @ b"

definition session_open_preimage :: "session_open \<Rightarrow> string" where
  "session_open_preimage o' = concat (map frame
     [''pipelock.receipt.session_open.v1'', so_runNonce o', so_openNonce o', so_recorderSession o', so_policyHash o',
      so_signerKeyEpoch o', be_bytes 8 (nat (if so_heartbeatSeconds o' < 0 then 0 else so_heartbeatSeconds o')),
      so_genesisAnchorHead o', so_genesisAnchorLog o', so_postureCapsuleSHA256 o', so_containmentNonce o', so_containedUID o'])"

definition genesisSessionOpenPrefix :: string where
  "genesisSessionOpenPrefix = ''g1:''"

definition ComputeSessionOpenGenesis :: "crypto \<Rightarrow> session_open \<Rightarrow> string" where
  "ComputeSessionOpenGenesis cr o' = genesisSessionOpenPrefix @ hex_EncodeToString (cr_sha256 cr (session_open_preimage o'))"

definition IsGracefulSessionCloseSeal :: "receipt \<Rightarrow> bool" where
  "IsGracefulSessionCloseSeal r = (case ar_sessionControl (rcpt_actionRecord r) of None \<Rightarrow> False
     | Some c \<Rightarrow> ct_kind c = ''session_close'' \<and> (case ct_close c of None \<Rightarrow> False | Some cl \<Rightarrow> sc_closeReason cl = ''graceful_shutdown''))"

definition PreviousChainSeq :: "64 word \<Rightarrow> 64 word" where
  "PreviousChainSeq s = (if s = 0 then 0 else s - 1)"

section \<open>Printed records\<close>

lemma printable_u64 [simp]: "printable (u64 w)"
  by (simp add: u64_def)

lemma printable_parts:
  "printable (session_open_json x)" "printable (session_heartbeat_json b)" "printable (session_close_json c)"
  "printable (key_transition_json k)" "printable (redaction_summary_json rs)" "printable (shield_summary_json ss)"
  by (simp_all add: session_open_json_def session_heartbeat_json_def session_close_json_def key_transition_json_def
      redaction_summary_json_def shield_summary_json_def json_fields printable_jmap)

lemma printable_session_control: "printable (session_control_json x)"
  by (simp add: session_control_json_def json_fields printable_parts split: option.splits)

lemma printable_action_record: "list_all printable sources \<Longrightarrow> printable (JObj (action_record_fields tm sources ar))"
  by (simp add: action_record_fields_def json_fields printable_parts printable_session_control split: option.splits)

lemma all_some_printable: "all_some xs = Some ys \<Longrightarrow> (\<And>y. Some y \<in> set xs \<Longrightarrow> P y) \<Longrightarrow> list_all P ys"
  by (induction xs arbitrary: ys rule: all_some.induct) auto

lemma printable_taint_source: "taint_source_json jl t = Some j \<Longrightarrow> printable j"
  by (auto simp: taint_source_json_def json_fields)

lemma action_record_json_fields:
  assumes "action_record_json jl ar = Some j"
  obtains tm sources where "jl_time jl (ar_timestamp ar) = Some tm"
    "all_some (map (taint_source_json jl) (ar_recentTaintSources ar)) = Some sources"
    "j = JObj (action_record_fields tm sources ar)" "printable j"
proof -
  from assms obtain tm sources where 1: "jl_time jl (ar_timestamp ar) = Some tm"
      "all_some (map (taint_source_json jl) (ar_recentTaintSources ar)) = Some sources"
      "j = JObj (action_record_fields tm sources ar)"
    by (auto simp: action_record_json_def split: option.splits)
  have "list_all printable sources"
  proof (rule all_some_printable [OF 1(2)])
    fix y
    assume "Some y \<in> set (map (taint_source_json jl) (ar_recentTaintSources ar))"
    then obtain t where "taint_source_json jl t = Some y" by (metis imageE list.set_map)
    then show "printable y" by (rule printable_taint_source)
  qed
  with 1 that printable_action_record show ?thesis by blast
qed

lemma field_chain_prev: "field_of (action_record_fields tm sources ar) ''chain_prev_hash'' = Some (jstr (ar_chainPrevHash ar))"
  by (simp add: action_record_fields_def json_fields)

text \<open>The text of a receipt determines the text of its action record.\<close>

lemma Marshal_record:
  assumes "Marshal jl r = Some d" "Marshal jl r' = Some d"
  shows "action_record_json jl (rcpt_actionRecord r) = action_record_json jl (rcpt_actionRecord r')"
proof -
  have split: "\<exists>j rest. action_record_json jl (rcpt_actionRecord q) = Some j \<and>
      d = CHR ''{'' # field_text ''version'' (fmt_int (rcpt_version q)) @ CHR '','' # field_text ''action_record'' (json_text j) @ CHR '','' # rest"
    if "Marshal jl q = Some d" for q
    using that by (auto simp: Marshal_def Let_def split: option.splits if_splits)
  from split [OF assms(1)] split [OF assms(2)] obtain j rest j' rest' where
    j: "action_record_json jl (rcpt_actionRecord r) = Some j" "action_record_json jl (rcpt_actionRecord r') = Some j'" and
    eq: "field_text ''version'' (fmt_int (rcpt_version r)) @ CHR '','' # field_text ''action_record'' (json_text j) @ CHR '','' # rest =
      field_text ''version'' (fmt_int (rcpt_version r')) @ CHR '','' # field_text ''action_record'' (json_text j') @ CHR '','' # rest'"
    by auto
  have p: "printable j" "printable j'" using j action_record_json_fields by metis+
  from field_text_end [OF _ _ eq] have
    "fmt_int (rcpt_version r) @ CHR '','' # field_text ''action_record'' (json_text j) @ CHR '','' # rest =
      fmt_int (rcpt_version r') @ CHR '','' # field_text ''action_record'' (json_text j') @ CHR '','' # rest'" by simp
  from fmt_int_end [OF _ _ this] have
    "field_text ''action_record'' (json_text j) @ CHR '','' # rest = field_text ''action_record'' (json_text j') @ CHR '','' # rest'"
    by simp
  from field_text_end [OF _ _ this] have "json_text j @ CHR '','' # rest = json_text j' @ CHR '','' # rest'" by simp
  from json_text_end [OF p _ _ this] j show ?thesis by simp
qed

lemma Marshal_prev:
  assumes "Marshal jl r = Some d" "Marshal jl r' = Some d"
  shows "esc (ar_chainPrevHash (rcpt_actionRecord r)) = esc (ar_chainPrevHash (rcpt_actionRecord r'))"
proof -
  have "action_record_json jl (rcpt_actionRecord r) \<noteq> None" using assms(1) by (auto simp: Marshal_def split: option.splits)
  then obtain j where j: "action_record_json jl (rcpt_actionRecord r) = Some j" by auto
  with Marshal_record [OF assms] have j': "action_record_json jl (rcpt_actionRecord r') = Some j" by simp
  from j obtain tm sources where f: "j = JObj (action_record_fields tm sources (rcpt_actionRecord r))"
    by (rule action_record_json_fields)
  from j' obtain tm' sources' where f': "j = JObj (action_record_fields tm' sources' (rcpt_actionRecord r'))"
    by (rule action_record_json_fields)
  from f f' have "field_of (action_record_fields tm sources (rcpt_actionRecord r)) ''chain_prev_hash'' =
      field_of (action_record_fields tm' sources' (rcpt_actionRecord r')) ''chain_prev_hash''" by simp
  then show ?thesis by (simp add: field_chain_prev jstr_def)
qed

end
