(* ===== verification/SessionRisk.thy ===== *)
theory SessionRisk
  imports Interfaces GoText
begin

text \<open>
  The taint state of a session and the policy over it (\<^verbatim>\<open>internal/session\<close>: \<^verbatim>\<open>risk.go\<close>, \<^verbatim>\<open>cross_agent.go\<close>):
  how an observation of a source folds into the sticky risk state, and the matrix that decides an
  action from the taint of the session, the class and sensitivity of the action and the authority
  behind it. The small unsigned enumerations are datatypes, ordered as their numbers are; a value
  outside an enumeration, for which \<^verbatim>\<open>String\<close> returns \<^verbatim>\<open>unknown\<close>, does not exist here. The zero time is
  \<open>None\<close>, and a clock read is an argument.
\<close>

section \<open>Enumerations\<close>

datatype taint_level =
    TaintTrusted
  | TaintInternalGenerated
  | TaintAllowlistedReference
  | TaintExternalLowRisk
  | TaintExternalUntrusted
  | TaintExternalHostile

datatype action_class = ClassRead | ClassBrowse | ClassSummarize | ClassWrite | ClassExec | ClassSecret | ClassPublish | ClassNetwork

datatype sensitivity = SensitivityNormal | SensitivityElevated | SensitivityProtected

datatype authority =
    AuthorityUnknown
  | AuthorityExternal
  | AuthorityPolicy
  | AuthorityUserBroad
  | AuthorityUserExact
  | AuthorityOperatorOverride

datatype policy_decision = PolicyAllow | PolicyWarn | PolicyAsk | PolicyBlock

fun taint_rank :: "taint_level \<Rightarrow> nat" where
  "taint_rank TaintTrusted = 0"
| "taint_rank TaintInternalGenerated = 1"
| "taint_rank TaintAllowlistedReference = 2"
| "taint_rank TaintExternalLowRisk = 3"
| "taint_rank TaintExternalUntrusted = 4"
| "taint_rank TaintExternalHostile = 5"

fun sensitivity_rank :: "sensitivity \<Rightarrow> nat" where
  "sensitivity_rank SensitivityNormal = 0"
| "sensitivity_rank SensitivityElevated = 1"
| "sensitivity_rank SensitivityProtected = 2"

fun authority_rank :: "authority \<Rightarrow> nat" where
  "authority_rank AuthorityUnknown = 0"
| "authority_rank AuthorityExternal = 1"
| "authority_rank AuthorityPolicy = 2"
| "authority_rank AuthorityUserBroad = 3"
| "authority_rank AuthorityUserExact = 4"
| "authority_rank AuthorityOperatorOverride = 5"

fun decision_rank :: "policy_decision \<Rightarrow> nat" where
  "decision_rank PolicyAllow = 0"
| "decision_rank PolicyWarn = 1"
| "decision_rank PolicyAsk = 2"
| "decision_rank PolicyBlock = 3"

lemma taint_rank_inj: "taint_rank a = taint_rank b \<Longrightarrow> a = b"
  by (cases a; cases b) simp_all

lemma sensitivity_rank_inj: "sensitivity_rank a = sensitivity_rank b \<Longrightarrow> a = b"
  by (cases a; cases b) simp_all

lemma authority_rank_inj: "authority_rank a = authority_rank b \<Longrightarrow> a = b"
  by (cases a; cases b) simp_all

lemma decision_rank_inj: "decision_rank a = decision_rank b \<Longrightarrow> a = b"
  by (cases a; cases b) simp_all

text \<open>The comparisons of the source are those of the enumeration numbers.\<close>

instantiation taint_level :: linorder
begin

definition less_eq_taint_level :: "taint_level \<Rightarrow> taint_level \<Rightarrow> bool" where
  "less_eq_taint_level a b \<longleftrightarrow> taint_rank a \<le> taint_rank b"

definition less_taint_level :: "taint_level \<Rightarrow> taint_level \<Rightarrow> bool" where
  "less_taint_level a b \<longleftrightarrow> taint_rank a < taint_rank b"

instance
  by intro_classes (auto simp: less_eq_taint_level_def less_taint_level_def intro: taint_rank_inj)

end

instantiation sensitivity :: linorder
begin

definition less_eq_sensitivity :: "sensitivity \<Rightarrow> sensitivity \<Rightarrow> bool" where
  "less_eq_sensitivity a b \<longleftrightarrow> sensitivity_rank a \<le> sensitivity_rank b"

definition less_sensitivity :: "sensitivity \<Rightarrow> sensitivity \<Rightarrow> bool" where
  "less_sensitivity a b \<longleftrightarrow> sensitivity_rank a < sensitivity_rank b"

instance
  by intro_classes (auto simp: less_eq_sensitivity_def less_sensitivity_def intro: sensitivity_rank_inj)

end

instantiation authority :: linorder
begin

definition less_eq_authority :: "authority \<Rightarrow> authority \<Rightarrow> bool" where
  "less_eq_authority a b \<longleftrightarrow> authority_rank a \<le> authority_rank b"

definition less_authority :: "authority \<Rightarrow> authority \<Rightarrow> bool" where
  "less_authority a b \<longleftrightarrow> authority_rank a < authority_rank b"

instance
  by intro_classes (auto simp: less_eq_authority_def less_authority_def intro: authority_rank_inj)

end

instantiation policy_decision :: linorder
begin

definition less_eq_policy_decision :: "policy_decision \<Rightarrow> policy_decision \<Rightarrow> bool" where
  "less_eq_policy_decision a b \<longleftrightarrow> decision_rank a \<le> decision_rank b"

definition less_policy_decision :: "policy_decision \<Rightarrow> policy_decision \<Rightarrow> bool" where
  "less_policy_decision a b \<longleftrightarrow> decision_rank a < decision_rank b"

instance
  by intro_classes (auto simp: less_eq_policy_decision_def less_policy_decision_def intro: decision_rank_inj)

end

lemmas enum_order = less_eq_taint_level_def less_taint_level_def less_eq_sensitivity_def less_sensitivity_def
  less_eq_authority_def less_authority_def less_eq_policy_decision_def less_policy_decision_def

fun TaintLevel_String :: "taint_level \<Rightarrow> string" where
  "TaintLevel_String TaintTrusted = ''trusted''"
| "TaintLevel_String TaintInternalGenerated = ''internal_generated''"
| "TaintLevel_String TaintAllowlistedReference = ''allowlisted_reference''"
| "TaintLevel_String TaintExternalLowRisk = ''external_low_risk''"
| "TaintLevel_String TaintExternalUntrusted = ''external_untrusted''"
| "TaintLevel_String TaintExternalHostile = ''external_hostile''"

fun ActionClass_String :: "action_class \<Rightarrow> string" where
  "ActionClass_String ClassRead = ''read''"
| "ActionClass_String ClassBrowse = ''browse''"
| "ActionClass_String ClassSummarize = ''summarize''"
| "ActionClass_String ClassWrite = ''write''"
| "ActionClass_String ClassExec = ''exec''"
| "ActionClass_String ClassSecret = ''secret''"
| "ActionClass_String ClassPublish = ''publish''"
| "ActionClass_String ClassNetwork = ''network''"

fun Sensitivity_String :: "sensitivity \<Rightarrow> string" where
  "Sensitivity_String SensitivityNormal = ''normal''"
| "Sensitivity_String SensitivityElevated = ''elevated''"
| "Sensitivity_String SensitivityProtected = ''protected''"

fun AuthorityKind_String :: "authority \<Rightarrow> string" where
  "AuthorityKind_String AuthorityUnknown = ''unknown''"
| "AuthorityKind_String AuthorityExternal = ''external''"
| "AuthorityKind_String AuthorityPolicy = ''policy''"
| "AuthorityKind_String AuthorityUserBroad = ''user_broad''"
| "AuthorityKind_String AuthorityUserExact = ''user_exact''"
| "AuthorityKind_String AuthorityOperatorOverride = ''operator_override''"

fun PolicyDecision_String :: "policy_decision \<Rightarrow> string" where
  "PolicyDecision_String PolicyAllow = ''allow''"
| "PolicyDecision_String PolicyWarn = ''warn''"
| "PolicyDecision_String PolicyAsk = ''ask''"
| "PolicyDecision_String PolicyBlock = ''block''"

section \<open>Risk state\<close>

record taint_source_ref =
  tsr_url :: string
  tsr_kind :: string
  tsr_level :: taint_level
  tsr_timestamp :: "go_time option"
  tsr_receiptID :: string
  tsr_matchReason :: string

record session_risk =
  sr_level :: taint_level
  sr_contaminated :: bool
  sr_lastExternalAt :: "go_time option"
  sr_lastExternalURL :: string
  sr_lastExternalKind :: string
  sr_promptHit :: bool
  sr_mediaSeen :: bool
  sr_approvedUntil :: "go_time option"
  sr_sources :: "taint_source_ref list"

record risk_observation =
  ro_source :: taint_source_ref
  ro_mediaSeen :: bool
  ro_promptHit :: bool
  ro_maxSources :: int
  ro_approvedUntil :: "go_time option"

record task_context =
  tk_currentTaskID :: string
  tk_currentTaskLabel :: string
  tk_startedAt :: "go_time option"
  tk_lastBoundaryAt :: "go_time option"

record trust_override =
  to_scope :: string
  to_taskID :: string
  to_sourceMatch :: string
  to_actionMatch :: string
  to_expiresAt :: "go_time option"
  to_grantedBy :: string
  to_reason :: string

definition zero_task :: task_context where
  "zero_task = \<lparr>tk_currentTaskID = [], tk_currentTaskLabel = [], tk_startedAt = None, tk_lastBoundaryAt = None\<rparr>"

definition zero_risk :: session_risk where
  "zero_risk = \<lparr>sr_level = TaintTrusted, sr_contaminated = False, sr_lastExternalAt = None, sr_lastExternalURL = [],
     sr_lastExternalKind = [], sr_promptHit = False, sr_mediaSeen = False, sr_approvedUntil = None, sr_sources = []\<rparr>"

definition defaultTaintSourceLimit :: int where
  "defaultTaintSourceLimit = 10"

definition maxTaintLevel :: "taint_level \<Rightarrow> taint_level \<Rightarrow> taint_level" where
  "maxTaintLevel a b = (if b > a then b else a)"

definition appendBoundedSource :: "taint_source_ref list \<Rightarrow> taint_source_ref \<Rightarrow> int \<Rightarrow> taint_source_ref list" where
  "appendBoundedSource sources source limit =
     (let sources' = sources @ [source] in
      if int (length sources') \<le> limit then sources' else drop (length sources' - nat limit) sources')"

text \<open>\<^verbatim>\<open>t.After(u)\<close> for times of which the zero time is the least.\<close>

definition time_After :: "go_time option \<Rightarrow> go_time option \<Rightarrow> bool" where
  "time_After t u = (case t of None \<Rightarrow> False | Some t' \<Rightarrow> (case u of None \<Rightarrow> True | Some u' \<Rightarrow> u' < t'))"

definition stamped :: "go_time \<Rightarrow> risk_observation \<Rightarrow> taint_source_ref" where
  "stamped now ob =
     (let source = ro_source ob;
          source1 = (if tsr_timestamp source = None then source\<lparr>tsr_timestamp := Some now\<rparr> else source) in
      if ro_promptHit ob then
        let source2 = source1\<lparr>tsr_level := maxTaintLevel (tsr_level source1) TaintExternalHostile\<rparr> in
        if tsr_matchReason source2 = [] then source2\<lparr>tsr_matchReason := ''prompt_injection_pattern''\<rparr> else source2
      else source1)"

definition Observe :: "go_time \<Rightarrow> risk_observation \<Rightarrow> session_risk \<Rightarrow> session_risk" where
  "Observe now ob sr =
     (let source = stamped now ob;
          sr1 = sr\<lparr>sr_level := maxTaintLevel (sr_level sr) (tsr_level source),
                   sr_promptHit := sr_promptHit sr \<or> ro_promptHit ob,
                   sr_mediaSeen := sr_mediaSeen sr \<or> ro_mediaSeen ob\<rparr>;
          sr2 = (if ro_approvedUntil ob \<noteq> None \<and> time_After (ro_approvedUntil ob) (sr_approvedUntil sr1)
                 then sr1\<lparr>sr_approvedUntil := ro_approvedUntil ob\<rparr> else sr1);
          sr3 = (if tsr_level source \<ge> TaintExternalUntrusted then sr2\<lparr>sr_contaminated := True\<rparr> else sr2);
          sr4 = (if tsr_level source \<ge> TaintAllowlistedReference
                 then sr3\<lparr>sr_lastExternalAt := tsr_timestamp source, sr_lastExternalURL := tsr_url source,
                          sr_lastExternalKind := tsr_kind source\<rparr> else sr3) in
      if tsr_url source \<noteq> [] \<or> tsr_kind source \<noteq> [] \<or> tsr_level source \<noteq> TaintTrusted then
        let limit = (if ro_maxSources ob \<le> 0 then defaultTaintSourceLimit else ro_maxSources ob) in
        sr4\<lparr>sr_sources := appendBoundedSource (sr_sources sr4) source limit\<rparr>
      else sr4)"

section \<open>Policy\<close>

record policy_options =
  po_failSafe :: bool
  po_confident :: bool

definition profileMode :: "string \<Rightarrow> string" where
  "profileMode profile =
     (if profile = ''strict'' then ''strict'' else if profile = ''permissive'' then ''permissive'' else ''balanced'')"

definition isAlwaysAllowedAction :: "action_class \<Rightarrow> bool" where
  "isAlwaysAllowedAction action \<longleftrightarrow> action = ClassRead \<or> action = ClassBrowse \<or> action = ClassSummarize"

definition isSensitiveAction :: "action_class \<Rightarrow> sensitivity \<Rightarrow> bool" where
  "isSensitiveAction action sens \<longleftrightarrow>
     sens \<ge> SensitivityElevated \<or> action \<in> {ClassWrite, ClassExec, ClassSecret, ClassPublish}"

text \<open>The last switch of \<^verbatim>\<open>EvaluateWithOptions\<close>: the reason to ask, if the action has one.\<close>

fun ask_reason :: "string \<Rightarrow> action_class \<Rightarrow> sensitivity \<Rightarrow> authority \<Rightarrow> string option" where
  "ask_reason profile ClassWrite sens auth =
     (if sens \<ge> SensitivityProtected \<and> auth < AuthorityUserExact then Some ''protected_write_after_untrusted_external_exposure''
      else if profileMode profile = ''strict'' \<and> sens \<ge> SensitivityElevated \<and> auth < AuthorityUserExact
      then Some ''elevated_write_after_untrusted_external_exposure'' else None)"
| "ask_reason profile ClassExec sens auth =
     (if auth < AuthorityOperatorOverride then Some ''mutating_exec_after_untrusted_external_exposure'' else None)"
| "ask_reason profile ClassSecret sens auth =
     (if auth < AuthorityUserExact then Some ''secret_use_after_untrusted_external_exposure'' else None)"
| "ask_reason profile ClassPublish sens auth =
     (if auth < AuthorityUserExact then Some ''external_publish_after_untrusted_external_exposure'' else None)"
| "ask_reason profile ClassNetwork sens auth =
     (if profileMode profile = ''strict'' \<and> sens \<ge> SensitivityElevated \<and> auth < AuthorityUserExact
      then Some ''mutating_network_after_untrusted_external_exposure'' else None)"
| "ask_reason profile _ sens auth = None"

definition EvaluateWithOptions ::
  "string \<Rightarrow> taint_level \<Rightarrow> action_class \<Rightarrow> sensitivity \<Rightarrow> authority \<Rightarrow> policy_options \<Rightarrow> policy_decision \<times> string" where
  "EvaluateWithOptions profile taint action sens auth opts =
     (if isAlwaysAllowedAction action \<and> (\<not> po_failSafe opts \<or> po_confident opts)
      then (PolicyAllow, ''taint_safe_read_only_action'')
      else if taint < TaintExternalUntrusted then (PolicyAllow, ''trusted_or_allowlisted_context'')
      else if profileMode profile = ''permissive'' then (PolicyAllow, ''taint_permissive_observe_only'')
      else if taint \<ge> TaintExternalHostile \<and> isSensitiveAction action sens
      then (PolicyBlock, ''sensitive_action_after_hostile_external_exposure'')
      else if po_failSafe opts \<and> \<not> po_confident opts \<and> sens \<ge> SensitivityProtected \<and> isAlwaysAllowedAction action
      then (PolicyAsk, ''fail_safe_low_confidence_read_after_untrusted_exposure'')
      else case ask_reason profile action sens auth of
        Some reason \<Rightarrow> (PolicyAsk, reason)
      | None \<Rightarrow> (PolicyAllow, ''no_taint_escalation_required''))"

definition PolicyMatrix_Evaluate :: "string \<Rightarrow> taint_level \<Rightarrow> action_class \<Rightarrow> sensitivity \<Rightarrow> authority \<Rightarrow> policy_decision \<times> string" where
  "PolicyMatrix_Evaluate profile taint action sens auth =
     EvaluateWithOptions profile taint action sens auth \<lparr>po_failSafe = False, po_confident = True\<rparr>"

section \<open>Contamination that crosses to another agent\<close>

definition crossAgentMatchReason :: "string \<Rightarrow> string" where
  "crossAgentMatchReason boundary = (if boundary = [] then ''cross_agent'' else ''cross_agent'' @ ''_'' @ boundary)"

definition ClassifyCrossAgentObservation :: "session_risk \<Rightarrow> string \<Rightarrow> risk_observation" where
  "ClassifyCrossAgentObservation current boundary =
     (let level = (if sr_level current < TaintExternalUntrusted then TaintExternalUntrusted else sr_level current) in
      \<lparr>ro_source = \<lparr>tsr_url = sr_lastExternalURL current, tsr_kind = ''cross_agent'', tsr_level = level,
         tsr_timestamp = None, tsr_receiptID = [], tsr_matchReason = crossAgentMatchReason boundary\<rparr>,
       ro_mediaSeen = False, ro_promptHit = False, ro_maxSources = 0, ro_approvedUntil = None\<rparr>)"

section \<open>Taint is the worst thing seen\<close>

lemma maxTaintLevel_max: "maxTaintLevel a b = max a b"
  by (auto simp: maxTaintLevel_def max_def)

lemma hostile_top [simp]: "l \<le> TaintExternalHostile"
  by (cases l) (simp_all add: enum_order)

lemma trusted_bottom [simp]: "TaintTrusted \<le> l"
  by (cases l) (simp_all add: enum_order)

definition observed_level :: "risk_observation \<Rightarrow> taint_level" where
  "observed_level ob = (if ro_promptHit ob then TaintExternalHostile else tsr_level (ro_source ob))"

lemma stamped_level: "tsr_level (stamped now ob) = observed_level ob"
  by (auto simp: stamped_def observed_level_def maxTaintLevel_max Let_def max_absorb2)

lemma Observe_level [simp]: "sr_level (Observe now ob sr) = max (sr_level sr) (observed_level ob)"
  by (simp add: Observe_def Let_def stamped_level maxTaintLevel_max)

lemma Observe_promptHit [simp]: "sr_promptHit (Observe now ob sr) = (sr_promptHit sr \<or> ro_promptHit ob)"
  by (simp add: Observe_def Let_def)

lemma Observe_contaminated [simp]:
  "sr_contaminated (Observe now ob sr) = (sr_contaminated sr \<or> TaintExternalUntrusted \<le> observed_level ob)"
  by (simp add: Observe_def Let_def stamped_level)

abbreviation observe_step :: "go_time \<times> risk_observation \<Rightarrow> session_risk \<Rightarrow> session_risk" where
  "observe_step x \<equiv> Observe (fst x) (snd x)"

text \<open>The invariant of the risk state: contaminated exactly from the untrusted level on, and hostile after a prompt hit.\<close>

definition risk_ok :: "session_risk \<Rightarrow> bool" where
  "risk_ok sr \<longleftrightarrow> sr_contaminated sr = (TaintExternalUntrusted \<le> sr_level sr) \<and>
     (sr_promptHit sr \<longrightarrow> sr_level sr = TaintExternalHostile)"

interpretation risk_inv: kept_invariant observe_step risk_ok
  by unfold_locales (auto simp: risk_ok_def le_max_iff_disj observed_level_def max_absorb1 max_absorb2)

interpretation tainted: sticky_flag observe_step "\<lambda>sr. l \<le> sr_level sr" "\<lambda>_. False" for l
  by unfold_locales (simp add: le_max_iff_disj)

lemma risk_ok_zero [simp]: "risk_ok zero_risk"
  by (simp add: risk_ok_def zero_risk_def enum_order)


text \<open>The level of a session is the worst level among what it has seen since its last task boundary.\<close>

lemma run_level:
  "sr_level (fold observe_step obs sr) = Max (insert (sr_level sr) (observed_level ` snd ` set obs))"
proof (induction obs arbitrary: sr)
  case (Cons x obs)
  have "sr_level (fold observe_step (x # obs) sr) =
      Max (insert (max (sr_level sr) (observed_level (snd x))) (observed_level ` snd ` set obs))"
    by (simp add: Cons)
  also have "\<dots> = Max (insert (sr_level sr) (insert (observed_level (snd x)) (observed_level ` snd ` set obs)))"
    by (cases "obs = []") (simp_all add: max.assoc)
  finally show ?case by simp
qed simp

lemma appendBounded_length: "0 < limit \<Longrightarrow> int (length (appendBoundedSource xs x limit)) \<le> limit"
  by (auto simp: appendBoundedSource_def Let_def)

text \<open>A bound that every observation respects bounds the source list.\<close>

definition sources_within :: "nat \<Rightarrow> session_risk \<Rightarrow> bool" where
  "sources_within n sr \<longleftrightarrow> length (sr_sources sr) \<le> n"

definition source_limit :: "risk_observation \<Rightarrow> int" where
  "source_limit ob = (if ro_maxSources ob \<le> 0 then defaultTaintSourceLimit else ro_maxSources ob)"

lemma Observe_sources_cases:
  "sr_sources (Observe now ob sr) \<in> {sr_sources sr, appendBoundedSource (sr_sources sr) (stamped now ob) (source_limit ob)}"
  by (simp add: Observe_def Let_def source_limit_def)

lemma Observe_sources:
  assumes "sources_within n sr" "10 \<le> n" "ro_maxSources ob \<le> int n"
  shows "sources_within n (Observe now ob sr)"
proof -
  have pos: "0 < source_limit ob" and le: "source_limit ob \<le> int n"
    using assms by (auto simp: source_limit_def defaultTaintSourceLimit_def)
  have "length (appendBoundedSource (sr_sources sr) (stamped now ob) (source_limit ob)) \<le> n"
    using appendBounded_length [OF pos, of "sr_sources sr" "stamped now ob"] le by linarith
  with assms(1) Observe_sources_cases [of now ob sr] show ?thesis by (auto simp: sources_within_def)
qed

text \<open>A contaminated session that emits to another agent stays contaminated at the same level.\<close>

lemma cross_agent_keeps_level:
  assumes "risk_ok sr" "sr_contaminated sr"
  shows "sr_level (Observe now (ClassifyCrossAgentObservation sr b) sr) = sr_level sr"
  using assms by (simp add: risk_ok_def ClassifyCrossAgentObservation_def observed_level_def Let_def not_less [symmetric])

section \<open>The policy is monotone\<close>

definition profile_rank :: "string \<Rightarrow> nat" where
  "profile_rank profile =
     (if profileMode profile = ''permissive'' then 0 else if profileMode profile = ''balanced'' then 1 else 2)"

definition laxer :: "policy_options \<Rightarrow> policy_options \<Rightarrow> bool" where
  "laxer o1 o2 \<longleftrightarrow> (po_failSafe o1 \<longrightarrow> po_failSafe o2) \<and> (po_confident o2 \<longrightarrow> po_confident o1)"

lemma rank_profile: "profileMode p = ''permissive'' \<longleftrightarrow> profile_rank p = 0" "profileMode p = ''strict'' \<longleftrightarrow> profile_rank p = 2"
  by (auto simp: profile_rank_def profileMode_def)

lemma ask_monotone:
  assumes "s \<le> s'" "a' \<le> a" "profile_rank p \<le> profile_rank p'" "profile_rank p' \<le> 2" "ask_reason p c s a \<noteq> None"
  shows "ask_reason p' c s' a' \<noteq> None"
  using assms by (cases c) (auto simp: rank_profile enum_order split: if_splits)

lemma profile_rank_le: "profile_rank p \<le> 2"
  by (simp add: profile_rank_def)

definition asks :: "string \<Rightarrow> action_class \<Rightarrow> sensitivity \<Rightarrow> authority \<Rightarrow> policy_options \<Rightarrow> bool" where
  "asks p c s a opts \<longleftrightarrow> ask_reason p c s a \<noteq> None \<or>
     po_failSafe opts \<and> \<not> po_confident opts \<and> s \<ge> SensitivityProtected \<and> isAlwaysAllowedAction c"

lemma decision_cases:
  "fst (EvaluateWithOptions p t c s a opts) =
     (if isAlwaysAllowedAction c \<and> (\<not> po_failSafe opts \<or> po_confident opts) then PolicyAllow
      else if t < TaintExternalUntrusted \<or> profile_rank p = 0 then PolicyAllow
      else if t \<ge> TaintExternalHostile \<and> isSensitiveAction c s then PolicyBlock
      else if asks p c s a opts then PolicyAsk else PolicyAllow)"
  by (auto simp: EvaluateWithOptions_def asks_def rank_profile split: option.splits)

lemma allow_least [simp]: "PolicyAllow \<le> d" and block_greatest [simp]: "d \<le> PolicyBlock"
  by (cases d; simp add: enum_order)+

lemma policy_mono:
  assumes t: "t \<le> t'" and s: "s \<le> s'" and a: "a' \<le> a" and p: "profile_rank p \<le> profile_rank p'" and o: "laxer opts opts'"
  shows "fst (EvaluateWithOptions p t c s a opts) \<le> fst (EvaluateWithOptions p' t' c s' a' opts')"
proof -
  have asks: "asks p c s a opts \<Longrightarrow> asks p' c s' a' opts'"
    using ask_monotone [OF s a p profile_rank_le, of c] s o by (auto simp: asks_def laxer_def intro: order_trans)
  have sens: "isSensitiveAction c s \<Longrightarrow> isSensitiveAction c s'" using s by (auto simp: isSensitiveAction_def intro: order_trans)
  have exempt: "isAlwaysAllowedAction c \<and> (\<not> po_failSafe opts' \<or> po_confident opts') \<Longrightarrow>
      isAlwaysAllowedAction c \<and> (\<not> po_failSafe opts \<or> po_confident opts)" using o by (auto simp: laxer_def)
  show ?thesis
    using asks sens exempt t p unfolding decision_cases by (auto simp: not_less intro: order_trans dest: leD)
qed

text \<open>
  C15. The taint policy is monotone: more taint, a more sensitive target, a stricter profile, weaker
  authority or a less confident classification under fail-safe mode never makes the decision on an
  action laxer.
\<close>

theorem taint_policy_monotone:
  assumes "t \<le> t'" "s \<le> s'" "a' \<le> a" "profile_rank p \<le> profile_rank p'" "laxer opts opts'"
  shows "fst (EvaluateWithOptions p t c s a opts) \<le> fst (EvaluateWithOptions p' t' c s' a' opts')"
  using assms by (rule policy_mono)

theorem taint_policy_monotone_witness:
  "fst (EvaluateWithOptions ''balanced'' TaintExternalUntrusted ClassWrite SensitivityElevated AuthorityUserBroad \<lparr>po_failSafe = False, po_confident = True\<rparr>) = PolicyAllow \<and>
   fst (EvaluateWithOptions ''balanced'' TaintExternalUntrusted ClassWrite SensitivityElevated AuthorityUserBroad \<lparr>po_failSafe = False, po_confident = True\<rparr>)
     \<le> fst (EvaluateWithOptions ''strict'' TaintExternalUntrusted ClassWrite SensitivityProtected AuthorityPolicy \<lparr>po_failSafe = True, po_confident = False\<rparr>)"
proof
  show "fst (EvaluateWithOptions ''balanced'' TaintExternalUntrusted ClassWrite SensitivityElevated AuthorityUserBroad \<lparr>po_failSafe = False, po_confident = True\<rparr>) = PolicyAllow"
    by code_simp
  show "fst (EvaluateWithOptions ''balanced'' TaintExternalUntrusted ClassWrite SensitivityElevated AuthorityUserBroad \<lparr>po_failSafe = False, po_confident = True\<rparr>)
     \<le> fst (EvaluateWithOptions ''strict'' TaintExternalUntrusted ClassWrite SensitivityProtected AuthorityPolicy \<lparr>po_failSafe = True, po_confident = False\<rparr>)"
    by (rule taint_policy_monotone) (simp_all add: enum_order profile_rank_def profileMode_def laxer_def)
qed

end
