(* ===== verification/ReceiptSanitize.thy ===== *)
theory ReceiptSanitize
  imports ReceiptRecord SessionRisk
begin

text \<open>
  How a decision becomes a record: the classification of actions (\<^verbatim>\<open>receipt/classify.go\<close>) and the removal
  of secrets from the target before signing (\<^verbatim>\<open>receipt/sanitize.go\<close>). \<^verbatim>\<open>url.Parse\<close> and \<^verbatim>\<open>URL.String\<close> are
  the fields of an argument \<open>url_lib\<close>; \<open>clean\<close> is the recorder's DLP scan.
\<close>

section \<open>Classification\<close>

definition ClassifyHTTP :: "string \<Rightarrow> string" where
  "ClassifyHTTP m =
     (if m \<in> {''GET'', ''HEAD'', ''OPTIONS''} then ''read''
      else if m \<in> {''POST'', ''PUT'', ''PATCH'', ''DELETE'', ''QUERY''} then ''write''
      else if m = ''TRACE'' then ''read''
      else if m = ''CONNECT'' then ''read''
      else ''unclassified'')"

definition SideEffectFromMethod :: "string \<Rightarrow> string" where
  "SideEffectFromMethod m =
     (if m \<in> {''GET'', ''HEAD'', ''OPTIONS'', ''TRACE'', ''CONNECT''} then ''external_read''
      else if m \<in> {''POST'', ''PUT'', ''PATCH'', ''DELETE'', ''QUERY''} then ''external_write''
      else ''none'')"

definition ReversibilityFromMethod :: "string \<Rightarrow> string" where
  "ReversibilityFromMethod m =
     (if m \<in> {''GET'', ''HEAD'', ''OPTIONS'', ''TRACE'', ''CONNECT''} then ''full''
      else if m = ''DELETE'' then ''irreversible''
      else if m \<in> {''POST'', ''PUT'', ''PATCH'', ''QUERY''} then ''compensatable''
      else ''unknown'')"

text \<open>A tool name begins with a verb when it equals it, case apart, or goes on with a separator or a capital.\<close>

definition name_hasPrefix :: "string \<Rightarrow> string \<Rightarrow> bool" where
  "name_hasPrefix name prefix \<longleftrightarrow>
     length prefix \<le> length name \<and> map ascii_lower (take (length prefix) name) = map ascii_lower prefix \<and>
     (length name = length prefix \<or>
      (let next' = name ! length prefix in
       next' = CHR ''_'' \<or> next' = CHR ''-'' \<or> 65 \<le> (of_char next' :: nat) \<and> (of_char next' :: nat) \<le> 90))"

definition readPrefixes :: "string list" where
  "readPrefixes = [''get'', ''list'', ''read'', ''search'', ''find'', ''query'', ''fetch'', ''show'', ''describe'', ''check'']"

definition writePrefixes :: "string list" where
  "writePrefixes = [''set'', ''create'', ''update'', ''delete'', ''remove'', ''write'', ''put'', ''post'', ''add'', ''modify'', ''edit'', ''patch'']"

definition execPrefixes :: "string list" where
  "execPrefixes = [''run'', ''exec'', ''execute'', ''spawn'', ''invoke'', ''call'']"

definition classifyToolName :: "string \<Rightarrow> string" where
  "classifyToolName name =
     (if name = [] then ''unclassified''
      else if list_ex (name_hasPrefix name) readPrefixes then ''read''
      else if list_ex (name_hasPrefix name) writePrefixes then ''write''
      else if list_ex (name_hasPrefix name) execPrefixes then ''delegate''
      else ''unclassified'')"

definition ClassifyMCPTool :: "string \<Rightarrow> string \<Rightarrow> string" where
  "ClassifyMCPTool toolName mcpMethod =
     (if mcpMethod \<in> {''tools/list'', ''resources/list'', ''prompts/list''} then ''read''
      else if mcpMethod = ''resources/read'' then ''read''
      else if mcpMethod = ''prompts/get'' then ''read''
      else if mcpMethod = ''tools/call'' then classifyToolName toolName
      else ''unclassified'')"

fun ClassifySessionAction :: "action_class \<Rightarrow> string" where
  "ClassifySessionAction ClassRead = ''read''"
| "ClassifySessionAction ClassBrowse = ''read''"
| "ClassifySessionAction ClassSummarize = ''derive''"
| "ClassifySessionAction ClassWrite = ''write''"
| "ClassifySessionAction ClassPublish = ''write''"
| "ClassifySessionAction ClassExec = ''delegate''"
| "ClassifySessionAction ClassNetwork = ''unclassified''"
| "ClassifySessionAction ClassSecret = ''unclassified''"

definition sideEffectFromMCPAction :: "string \<Rightarrow> string" where
  "sideEffectFromMCPAction at =
     (if at = ''read'' then ''external_read''
      else if at = ''write'' \<or> at = ''commit'' then ''external_write''
      else if at = ''delegate'' then ''external_write''
      else if at = ''spend'' then ''financial''
      else if at = ''actuate'' then ''physical''
      else ''none'')"

lemma classified_valid:
  "ValidActionType (ClassifyHTTP m)" "ValidActionType (ClassifyMCPTool t mm)" "ValidActionType (ClassifySessionAction c)"
  "ValidActionType ''unclassified''"
  by (auto simp: ValidActionType_def allActionTypes_def ClassifyHTTP_def ClassifyMCPTool_def classifyToolName_def)
    (cases c; simp)

section \<open>Targets without secrets\<close>

record target_url =
  tu_scheme :: string
  tu_opaque :: string
  tu_user :: "string option"
  tu_host :: string
  tu_path :: string
  tu_rawPath :: string
  tu_forceQuery :: bool
  tu_rawQuery :: string
  tu_fragment :: string
  tu_rawFragment :: string

record url_lib =
  ul_parse :: "string \<Rightarrow> target_url option"
  ul_string :: "target_url \<Rightarrow> string"

definition redactedTarget :: string where "redactedTarget = ''[redacted-target]''"
definition redactedValue :: string where "redactedValue = ''[redacted-value]''"
definition redactedSegment :: string where "redactedSegment = ''[redacted-path]''"

definition cleanOrRedacted :: "string \<Rightarrow> (string \<Rightarrow> bool) \<Rightarrow> string" where
  "cleanOrRedacted s clean = (if clean s then s else redactedTarget)"

text \<open>\<^verbatim>\<open>strings.Cut(p, "=")\<close>: the parts around the first separator, and whether there is one.\<close>

definition redact_part :: "(string \<Rightarrow> bool) \<Rightarrow> string \<Rightarrow> string" where
  "redact_part clean p =
     (case index_of CHR ''='' p of None \<Rightarrow> p
      | Some i \<Rightarrow> let key = take i p; val = drop (Suc i) p in
          if val = [] \<or> clean val then p else key @ ''='' @ redactedValue)"

definition redactQueryValues :: "string \<Rightarrow> (string \<Rightarrow> bool) \<Rightarrow> string" where
  "redactQueryValues rawQuery clean = join_with CHR ''&'' (map (redact_part clean) (split_on CHR ''&'' rawQuery))"

definition coarsenUntilClean :: "url_lib \<Rightarrow> target_url \<Rightarrow> (string \<Rightarrow> bool) \<Rightarrow> string" where
  "coarsenUntilClean ul u clean =
     (if clean (ul_string ul u) then ul_string ul u
      else let u1 = u\<lparr>tu_rawQuery := [], tu_forceQuery := False, tu_fragment := [], tu_rawFragment := []\<rparr> in
        if clean (ul_string ul u1) then ul_string ul u1
        else let hostForm = tu_scheme u1 @ ''://'' @ tu_host u1 @ ''/'' @ redactedSegment in
          if tu_host u1 \<noteq> [] \<and> clean hostForm then hostForm else redactedTarget)"

definition sanitizeTarget :: "url_lib \<Rightarrow> string \<Rightarrow> (string \<Rightarrow> bool) option \<Rightarrow> string" where
  "sanitizeTarget ul target cl =
     (case cl of None \<Rightarrow> target
      | Some clean \<Rightarrow>
          if target = [] then target
          else if \<not> str_contains target ''://'' then cleanOrRedacted target clean
          else case ul_parse ul target of None \<Rightarrow> cleanOrRedacted target clean
          | Some u0 \<Rightarrow>
              let u = u0\<lparr>tu_user := None\<rparr>;
                  u' = (if tu_rawQuery u \<noteq> [] then u\<lparr>tu_rawQuery := redactQueryValues (tu_rawQuery u) clean\<rparr> else u) in
              coarsenUntilClean ul u' clean)"

definition CleanOrRedacted :: "string \<Rightarrow> (string \<Rightarrow> bool) option \<Rightarrow> string" where
  "CleanOrRedacted s cl = (case cl of None \<Rightarrow> s | Some clean \<Rightarrow> cleanOrRedacted s clean)"

lemma coarsen_cases:
  "coarsenUntilClean ul u clean = redactedTarget \<or> clean (coarsenUntilClean ul u clean)"
  by (auto simp: coarsenUntilClean_def Let_def)

text \<open>What coarsening keeps of a URL is a form of the URL itself, without its user.\<close>

lemma coarsen_sources:
  "coarsenUntilClean ul u clean \<in> {ul_string ul u, ul_string ul (u\<lparr>tu_rawQuery := [], tu_forceQuery := False, tu_fragment := [], tu_rawFragment := []\<rparr>),
     tu_scheme u @ ''://'' @ tu_host u @ ''/'' @ redactedSegment, redactedTarget}"
  by (auto simp: coarsenUntilClean_def Let_def)

text \<open>
  A signed target carries no secret and no credentials. With redaction on, the target stamped on a
  receipt passes the recorder's DLP scan (so the scan after signing changes nothing), never contains the
  user information of a URL, and is the original text when that is clean and not a URL.
\<close>

theorem sanitized_target_clean:
  assumes "clean redactedTarget" "clean []"
  shows "clean (sanitizeTarget ul target (Some clean)) \<and>
    (\<not> str_contains target ''://'' \<and> clean target \<longrightarrow> sanitizeTarget ul target (Some clean) = target) \<and>
    (\<forall>u. str_contains target ''://'' \<and> ul_parse ul target = Some u \<longrightarrow>
      (\<exists>v. tu_user v = None \<and> tu_scheme v = tu_scheme u \<and> tu_host v = tu_host u \<and> tu_path v = tu_path u \<and>
        sanitizeTarget ul target (Some clean) \<in> {ul_string ul v, tu_scheme u @ ''://'' @ tu_host u @ ''/'' @ redactedSegment, redactedTarget}))"
proof (intro conjI allI impI)
  show "clean (sanitizeTarget ul target (Some clean))"
    using assms coarsen_cases [of ul _ clean]
    by (auto simp: sanitizeTarget_def cleanOrRedacted_def Let_def split: option.splits) metis+
  show "sanitizeTarget ul target (Some clean) = target" if "\<not> str_contains target ''://'' \<and> clean target"
    using that by (simp add: sanitizeTarget_def cleanOrRedacted_def)
  fix u
  assume u: "str_contains target ''://'' \<and> ul_parse ul target = Some u"
  then have ne: "target \<noteq> []" by auto
  define w where "w = (let u' = u\<lparr>tu_user := None\<rparr> in if tu_rawQuery u' \<noteq> [] then u'\<lparr>tu_rawQuery := redactQueryValues (tu_rawQuery u') clean\<rparr> else u')"
  have w: "tu_user w = None" "tu_scheme w = tu_scheme u" "tu_host w = tu_host u" "tu_path w = tu_path u" by (simp_all add: w_def Let_def)
  define x where "x = w\<lparr>tu_rawQuery := [], tu_forceQuery := False, tu_fragment := [], tu_rawFragment := []\<rparr>"
  have "sanitizeTarget ul target (Some clean) = coarsenUntilClean ul w clean" using u ne by (simp add: sanitizeTarget_def w_def Let_def)
  then have "sanitizeTarget ul target (Some clean) \<in> {ul_string ul (if sanitizeTarget ul target (Some clean) = ul_string ul x then x else w),
      tu_scheme u @ ''://'' @ tu_host u @ ''/'' @ redactedSegment, redactedTarget}"
    using coarsen_sources [of ul w clean] w(2,3) by (auto simp: x_def)
  moreover have "tu_user x = None" "tu_scheme x = tu_scheme u" "tu_host x = tu_host u" "tu_path x = tu_path u" by (simp_all add: x_def w)
  ultimately show "\<exists>v. tu_user v = None \<and> tu_scheme v = tu_scheme u \<and> tu_host v = tu_host u \<and> tu_path v = tu_path u \<and>
        sanitizeTarget ul target (Some clean) \<in> {ul_string ul v, tu_scheme u @ ''://'' @ tu_host u @ ''/'' @ redactedSegment, redactedTarget}"
    using w by (intro exI [of _ "if sanitizeTarget ul target (Some clean) = ul_string ul x then x else w"]) auto
qed

definition demo_clean :: "string \<Rightarrow> bool" where
  "demo_clean s \<longleftrightarrow> \<not> str_contains s ''hunter2''"

definition demo_urls :: url_lib where
  "demo_urls = \<lparr>ul_parse = (\<lambda>s. Some \<lparr>tu_scheme = ''https'', tu_opaque = [], tu_user = Some ''joe'', tu_host = ''x.test'', tu_path = ''/a'', tu_rawPath = [],
       tu_forceQuery = False, tu_rawQuery = ''k=hunter2'', tu_fragment = [], tu_rawFragment = []\<rparr>),
     ul_string = (\<lambda>u. tu_scheme u @ ''://'' @ tu_host u @ tu_path u @ (if tu_rawQuery u = [] then [] else ''?'' @ tu_rawQuery u))\<rparr>"

theorem sanitized_target_clean_witness:
  "demo_clean (sanitizeTarget demo_urls ''https://joe@x.test/a?k=hunter2'' (Some demo_clean)) \<and>
   \<not> demo_clean ''https://joe@x.test/a?k=hunter2''"
proof -
  have "demo_clean redactedTarget" "demo_clean []" "\<not> demo_clean ''https://joe@x.test/a?k=hunter2''"
    by (simp_all add: demo_clean_def redactedTarget_def)
  with sanitized_target_clean [of demo_clean demo_urls "''https://joe@x.test/a?k=hunter2''"] show ?thesis by simp
qed

end
