(* ===== verification/ReceiptChain.thy ===== *)
theory ReceiptChain
  imports ReceiptRecord
begin

text \<open>
  The offline verifier of receipt chains (\<^verbatim>\<open>internal/receipt/chain.go\<close>): the walk over a sequence of
  receipts with its segments, key rotations and session lifecycle. A verification that stops returns the
  failing result as \<open>Inl\<close>; the walking state is the record \<open>chain_verifier\<close>. The \<^verbatim>\<open>Error\<close> text of a
  result is the message without its sequence prefix and without the text of a wrapped error.
\<close>

section \<open>Results and state\<close>

datatype chain_failure = FailNone | FailIntegrity | FailTrust | FailLifecycle | FailLifecycleOpen

record chain_segment =
  cs_signerKey :: string
  cs_firstSeq :: "64 word"
  cs_finalSeq :: "64 word"
  cs_count :: "64 word"
  cs_boundary :: bool

record chain_result =
  cres_valid :: bool
  cres_integrityVerified :: bool
  cres_receiptCount :: "64 word"
  cres_finalSeq :: "64 word"
  cres_rootHash :: string
  cres_startTime :: timestamp
  cres_endTime :: timestamp
  cres_error :: string
  cres_failureKind :: chain_failure
  cres_brokenAtSeq :: "64 word"
  cres_brokenAtIndex :: nat
  cres_signerKeys :: "string list"
  cres_segments :: "chain_segment list"
  cres_untrustedSignerKey :: string
  cres_trustBasis :: "string list"
  cres_endorsementGaps :: "string list"

definition zero_result :: chain_result where
  "zero_result = \<lparr>cres_valid = False, cres_integrityVerified = False, cres_receiptCount = 0, cres_finalSeq = 0, cres_rootHash = [],
     cres_startTime = \<lparr>ts_instant = zero_time, ts_offset = 0\<rparr>, cres_endTime = \<lparr>ts_instant = zero_time, ts_offset = 0\<rparr>,
     cres_error = [], cres_failureKind = FailNone, cres_brokenAtSeq = 0, cres_brokenAtIndex = 0, cres_signerKeys = [],
     cres_segments = [], cres_untrustedSignerKey = [], cres_trustBasis = [], cres_endorsementGaps = []\<rparr>"

record chain_verifier =
  cv_trusted :: "string list"
  cv_curKey :: string
  cv_segBaseSeq :: "64 word"
  cv_prevHash :: string
  cv_signerKeys :: "string list"
  cv_segments :: "chain_segment list"
  cv_curSeg :: "chain_segment option"
  cv_index :: nat
  cv_runNonces :: "string \<rightharpoonup> string"
  cv_closedRuns :: "string \<Rightarrow> bool"
  cv_activeRun :: string
  cv_activeOpen :: string
  cv_integrityOnly :: bool

abbreviation rcpt_seq :: "receipt \<Rightarrow> 64 word" where
  "rcpt_seq r \<equiv> ar_chainSeq (rcpt_actionRecord r)"

abbreviation rcpt_prev :: "receipt \<Rightarrow> string" where
  "rcpt_prev r \<equiv> ar_chainPrevHash (rcpt_actionRecord r)"

definition GenesisHash :: string where
  "GenesisHash = ''genesis''"

definition sessionOpen :: "session_control option \<Rightarrow> session_open option" where
  "sessionOpen ctrl = (case ctrl of None \<Rightarrow> None | Some c \<Rightarrow> if ct_kind c \<noteq> ''session_open'' then None else ct_open c)"

definition sessionHeartbeat :: "session_control option \<Rightarrow> session_heartbeat option" where
  "sessionHeartbeat ctrl = (case ctrl of None \<Rightarrow> None | Some c \<Rightarrow> if ct_kind c \<noteq> ''heartbeat'' then None else ct_heartbeat c)"

definition sessionClose :: "session_control option \<Rightarrow> session_close option" where
  "sessionClose ctrl = (case ctrl of None \<Rightarrow> None | Some c \<Rightarrow> if ct_kind c \<noteq> ''session_close'' then None else ct_close c)"

abbreviation rcpt_open :: "receipt \<Rightarrow> session_open option" where
  "rcpt_open r \<equiv> sessionOpen (ar_sessionControl (rcpt_actionRecord r))"

definition brokenAtKind :: "chain_verifier \<Rightarrow> receipt \<Rightarrow> string \<Rightarrow> chain_failure \<Rightarrow> chain_result" where
  "brokenAtKind v r msg kind = zero_result\<lparr>cres_brokenAtSeq := rcpt_seq r, cres_brokenAtIndex := cv_index v, cres_error := msg,
     cres_failureKind := kind, cres_signerKeys := cv_signerKeys v\<rparr>"

definition brokenAt :: "chain_verifier \<Rightarrow> receipt \<Rightarrow> string \<Rightarrow> chain_result" where
  "brokenAt v r msg = brokenAtKind v r msg FailIntegrity"

definition untrusted :: "chain_verifier \<Rightarrow> receipt \<Rightarrow> chain_result" where
  "untrusted v r = (brokenAtKind v r ''signer key is not in the trusted set'' FailTrust)
     \<lparr>cres_untrustedSignerKey := rcpt_signerKey r, cres_signerKeys := cv_signerKeys v\<rparr>"

definition keyTrusted :: "chain_verifier \<Rightarrow> string \<Rightarrow> bool" where
  "keyTrusted v key \<longleftrightarrow> key \<in> set (cv_trusted v)"

definition appendSignerKey :: "string \<Rightarrow> chain_verifier \<Rightarrow> chain_verifier" where
  "appendSignerKey key v = (if key \<in> set (cv_signerKeys v) then v else v\<lparr>cv_signerKeys := cv_signerKeys v @ [key]\<rparr>)"

definition beginSegment :: "receipt \<Rightarrow> bool \<Rightarrow> chain_verifier \<Rightarrow> chain_verifier" where
  "beginSegment r boundary v = appendSignerKey (rcpt_signerKey r)
     (v\<lparr>cv_curSeg := Some \<lparr>cs_signerKey = rcpt_signerKey r, cs_firstSeq = rcpt_seq r, cs_finalSeq = rcpt_seq r, cs_count = 0,
          cs_boundary = boundary\<rparr>\<rparr>)"

definition closeSegment :: "chain_verifier \<Rightarrow> chain_verifier" where
  "closeSegment v = (case cv_curSeg v of None \<Rightarrow> v | Some s \<Rightarrow> v\<lparr>cv_segments := cv_segments v @ [s], cv_curSeg := None\<rparr>)"

definition curSegStartIndex :: "chain_verifier \<Rightarrow> 64 word" where
  "curSegStartIndex v = sum_list (map cs_count (cv_segments v))"

section \<open>Segments\<close>

definition validateBoundGenesisOpen :: "crypto \<Rightarrow> chain_verifier \<Rightarrow> receipt \<Rightarrow> chain_result + unit" where
  "validateBoundGenesisOpen cr v r =
     (case rcpt_open r of None \<Rightarrow> Inl (brokenAt v r ''g1 chain_prev_hash requires SessionControl.Open'')
      | Some open' \<Rightarrow>
          if rcpt_seq r \<noteq> 0 then Inl (brokenAt v r ''bound session_open genesis must be chain_seq 0'')
          else let computed = ComputeSessionOpenGenesis cr open' in
          if rcpt_prev r \<noteq> computed then Inl (brokenAt v r ''session_open genesis hash mismatch'')
          else if so_genesisHash open' \<noteq> computed then Inl (brokenAt v r ''session_open genesis_hash mismatch'')
          else if so_chainOpenSeq open' \<noteq> rcpt_seq r
          then Inl (brokenAt v r ''session_open chain_open_seq does not match receipt chain_seq'')
          else if so_priorChainHead open' \<noteq> [] \<or> so_priorChainSeq open' \<noteq> 0
          then Inl (brokenAt v r ''bound genesis session_open must not carry prior chain tail'')
          else Inr ())"

definition validateRestartOpen ::
  "chain_verifier \<Rightarrow> receipt \<Rightarrow> session_open \<Rightarrow> string \<Rightarrow> 64 word \<Rightarrow> chain_result + unit" where
  "validateRestartOpen v r open' priorHead priorSeq =
     (if has_prefix (rcpt_prev r) genesisSessionOpenPrefix
      then Inl (brokenAt v r ''restart session_open must not use g1 chain_prev_hash'')
      else if so_genesisHash open' \<noteq> [] then Inl (brokenAt v r ''restart session_open must not carry genesis_hash'')
      else if so_chainOpenSeq open' \<noteq> rcpt_seq r
      then Inl (brokenAt v r ''session_open chain_open_seq does not match receipt chain_seq'')
      else if so_priorChainHead open' \<noteq> priorHead
      then Inl (brokenAt v r ''session_open prior_chain_head does not match prior tail hash'')
      else if so_priorChainSeq open' \<noteq> priorSeq
      then Inl (brokenAt v r ''session_open prior_chain_seq does not match prior tail seq'')
      else Inr ())"

definition startFirstSegment :: "crypto \<Rightarrow> receipt \<Rightarrow> chain_verifier \<Rightarrow> chain_result + chain_verifier" where
  "startFirstSegment cr r v0 =
     (let v = (if cv_trusted v0 = [] then v0\<lparr>cv_trusted := [rcpt_signerKey r]\<rparr> else v0) in
      if \<not> keyTrusted v (rcpt_signerKey r) then Inl (untrusted v r)
      else let v1 = v\<lparr>cv_curKey := rcpt_signerKey r\<rparr> in
        if ar_keyTransition (rcpt_actionRecord r) \<noteq> None
        then Inl (brokenAt v1 r ''chain starts at a key_transition segment without the prior segment'')
        else if has_prefix (rcpt_prev r) genesisSessionOpenPrefix then
          (case validateBoundGenesisOpen cr v1 r of Inl e \<Rightarrow> Inl e
           | Inr _ \<Rightarrow> Inr ((beginSegment r False (v1\<lparr>cv_prevHash := rcpt_prev r\<rparr>))\<lparr>cv_segBaseSeq := rcpt_seq r\<rparr>))
        else if rcpt_prev r \<noteq> GenesisHash
        then Inl (brokenAt v1 r ''genesis receipt chain_prev_hash must be genesis or a bound session_open g1 hash'')
        else if \<not> cv_integrityOnly v1 \<and> rcpt_open r \<noteq> None
        then Inl (brokenAt v1 r ''session_open on legacy genesis must use bound g1 chain_prev_hash'')
        else Inr ((beginSegment r False (v1\<lparr>cv_prevHash := GenesisHash\<rparr>))\<lparr>cv_segBaseSeq := rcpt_seq r\<rparr>))"

definition startRotatedSegment :: "receipt \<Rightarrow> key_transition \<Rightarrow> chain_verifier \<Rightarrow> chain_result + chain_verifier" where
  "startRotatedSegment r marker v =
     (if rcpt_seq r \<noteq> 0 then Inl (brokenAt v r ''key_transition marker on a non-genesis receipt (seq != 0)'')
      else if kt_priorChainHash marker \<noteq> cv_prevHash v
      then Inl (brokenAt v r ''key_transition prior_chain_hash does not match actual prior tail hash'')
      else if rcpt_prev r \<noteq> cv_prevHash v
      then Inl (brokenAt v r ''segment-genesis chain_prev_hash does not match prior tail hash'')
      else if kt_priorSignerKey marker \<noteq> cv_curKey v
      then Inl (brokenAt v r ''key_transition prior_signer_key does not match prior segment key'')
      else if rcpt_signerKey r = cv_curKey v then Inl (brokenAt v r ''key_transition does not change signer key'')
      else if (case cv_curSeg v of None \<Rightarrow> False | Some s \<Rightarrow> kt_priorChainSeq marker \<noteq> cs_finalSeq s)
      then Inl (brokenAt v r ''key_transition prior_chain_seq does not match prior segment final seq'')
      else case (case rcpt_open r of None \<Rightarrow> Inr ()
          | Some open' \<Rightarrow> if cv_integrityOnly v then Inr ()
              else validateRestartOpen v r open' (kt_priorChainHash marker) (kt_priorChainSeq marker)) of
        Inl e \<Rightarrow> Inl e
      | Inr _ \<Rightarrow>
          if \<not> keyTrusted v (rcpt_signerKey r) then Inl (untrusted (beginSegment r True v) r)
          else Inr (beginSegment r True ((closeSegment v)\<lparr>cv_curKey := rcpt_signerKey r, cv_segBaseSeq := 0\<rparr>)))"

definition checkContinuation :: "receipt \<Rightarrow> chain_verifier \<Rightarrow> chain_result + chain_verifier" where
  "checkContinuation r v =
     (if rcpt_seq r = 0 then Inl (brokenAt v r ''unexpected seq 0 without a key_transition boundary'')
      else case rcpt_open r of None \<Rightarrow> Inr v
      | Some open' \<Rightarrow>
          if cv_integrityOnly v then Inr v
          else (case cv_curSeg v of None \<Rightarrow> Inl (brokenAt v r ''session_open continuation has no prior segment'')
            | Some s \<Rightarrow> (case validateRestartOpen v r open' (cv_prevHash v) (cs_finalSeq s) of Inl e \<Rightarrow> Inl e | Inr _ \<Rightarrow> Inr v)))"

definition verifyReceiptIntegrity :: "crypto \<Rightarrow> json_lib \<Rightarrow> receipt \<Rightarrow> nat \<Rightarrow> chain_verifier \<Rightarrow> chain_result + unit" where
  "verifyReceiptIntegrity cr jl r index v =
     (if VerifyWithKey cr jl r (cv_curKey v) \<noteq> None then Inl (brokenAt v r ''signature'')
      else let expectedSeq = cv_segBaseSeq v + (of_nat index - curSegStartIndex v) in
      if rcpt_seq r \<noteq> expectedSeq then Inl (brokenAt v r ''seq gap'')
      else if rcpt_prev r \<noteq> cv_prevHash v then Inl (brokenAt v r ''chain_prev_hash mismatch'')
      else Inr ())"

definition advanceReceiptHash :: "crypto \<Rightarrow> json_lib \<Rightarrow> receipt \<Rightarrow> chain_verifier \<Rightarrow> chain_result + chain_verifier" where
  "advanceReceiptHash cr jl r v =
     (case ReceiptHash cr jl r of None \<Rightarrow> Inl (brokenAt v r ''hash computation'')
      | Some h \<Rightarrow> Inr (v\<lparr>cv_prevHash := h,
          cv_curSeg := map_option (\<lambda>s. s\<lparr>cs_finalSeq := rcpt_seq r, cs_count := cs_count s + 1\<rparr>) (cv_curSeg v)\<rparr>))"

section \<open>Session lifecycle\<close>

definition payload_count :: "session_control \<Rightarrow> nat" where
  "payload_count c = (if ct_open c \<noteq> None then 1 else 0) + (if ct_heartbeat c \<noteq> None then 1 else 0) + (if ct_close c \<noteq> None then 1 else 0)"

definition control_shape :: "chain_verifier \<Rightarrow> receipt \<Rightarrow> chain_result + unit" where
  "control_shape v r =
     (case ar_sessionControl (rcpt_actionRecord r) of None \<Rightarrow> Inr ()
      | Some c \<Rightarrow>
          if payload_count c \<noteq> 1 then Inl (brokenAtKind v r ''session_control must carry exactly one payload'' FailLifecycle)
          else if ct_kind c = ''session_open'' then
            guard (ct_open c \<noteq> None) (brokenAtKind v r ''session_open kind missing open payload'' FailLifecycle)
          else if ct_kind c = ''heartbeat'' then
            guard (ct_heartbeat c \<noteq> None) (brokenAtKind v r ''heartbeat kind missing heartbeat payload'' FailLifecycle)
          else if ct_kind c = ''session_close'' then
            guard (ct_close c \<noteq> None) (brokenAtKind v r ''session_close kind missing close payload'' FailLifecycle)
          else Inl (brokenAtKind v r ''unknown session_control kind'' FailLifecycle))"

definition heartbeat_check :: "chain_verifier \<Rightarrow> receipt \<Rightarrow> string \<Rightarrow> session_heartbeat \<Rightarrow> chain_result + unit" where
  "heartbeat_check v r openNonce h =
     (let bad = (\<lambda>msg. Inl (brokenAtKind v r msg FailLifecycle)) in
      if sh_runNonce h \<noteq> ar_runNonce (rcpt_actionRecord r) then bad ''heartbeat run_nonce does not match receipt run_nonce''
      else if cv_activeRun v = [] \<or> cv_activeOpen v = [] then bad ''heartbeat has no active session_open''
      else if sh_runNonce h \<noteq> cv_activeRun v then bad ''heartbeat run_nonce does not match active session_open''
      else if sh_openNonce h \<noteq> openNonce then bad ''heartbeat open_nonce does not match session_open''
      else if sh_openNonce h \<noteq> cv_activeOpen v then bad ''heartbeat open_nonce does not match active session_open''
      else if sh_chainHead h \<noteq> cv_prevHash v then bad ''heartbeat chain_head mismatch''
      else if sh_chainSeqHead h \<noteq> rcpt_seq r - 1 then bad ''heartbeat chain_seq_head mismatch''
      else Inr ())"

definition close_check :: "chain_verifier \<Rightarrow> receipt \<Rightarrow> string \<Rightarrow> session_close \<Rightarrow> chain_result + unit" where
  "close_check v r openNonce c =
     (let bad = (\<lambda>msg. Inl (brokenAtKind v r msg FailLifecycle));
          segmentReceiptCount = (case cv_curSeg v of None \<Rightarrow> 1 | Some s \<Rightarrow> cs_count s + 1) in
      if sc_runNonce c \<noteq> ar_runNonce (rcpt_actionRecord r) then bad ''session_close run_nonce does not match receipt run_nonce''
      else if cv_activeRun v = [] \<or> cv_activeOpen v = [] then bad ''session_close has no active session_open''
      else if sc_runNonce c \<noteq> cv_activeRun v then bad ''session_close run_nonce does not match active session_open''
      else if sc_openNonce c \<noteq> openNonce then bad ''session_close open_nonce does not match session_open''
      else if sc_openNonce c \<noteq> cv_activeOpen v then bad ''session_close open_nonce does not match active session_open''
      else if sc_rootHash c \<noteq> cv_prevHash v then bad ''session_close root_hash mismatch''
      else if sc_finalSeq c \<noteq> rcpt_seq r then bad ''session_close final_seq mismatch''
      else if sc_receiptCount c \<noteq> segmentReceiptCount then bad ''session_close receipt_count mismatch''
      else Inr ())"

definition validateSessionControl :: "receipt \<Rightarrow> chain_verifier \<Rightarrow> chain_result + chain_verifier" where
  "validateSessionControl r v =
     (let ctrl = ar_sessionControl (rcpt_actionRecord r); nonce = ar_runNonce (rcpt_actionRecord r);
          bad = (\<lambda>msg. Inl (brokenAtKind v r msg FailLifecycle)) in
      case control_shape v r of Inl e \<Rightarrow> Inl e
      | Inr _ \<Rightarrow>
      if nonce = [] then (if ctrl \<noteq> None then bad ''session_control receipt missing run_nonce'' else Inr v)
      else case sessionOpen ctrl of
        None \<Rightarrow>
          (case cv_runNonces v nonce of
             None \<Rightarrow> Inl (brokenAtKind v r ''run_nonce first receipt is not a matching session_open'' FailLifecycleOpen)
           | Some openNonce \<Rightarrow>
               if cv_closedRuns v nonce then bad ''record observed after session_close''
               else case (case sessionHeartbeat ctrl of None \<Rightarrow> Inr () | Some h \<Rightarrow> heartbeat_check v r openNonce h) of Inl e \<Rightarrow> Inl e
               | Inr _ \<Rightarrow> (case sessionClose ctrl of None \<Rightarrow> Inr v
                 | Some c \<Rightarrow> (case close_check v r openNonce c of Inl e \<Rightarrow> Inl e
                   | Inr _ \<Rightarrow> Inr (v\<lparr>cv_activeRun := [], cv_activeOpen := [], cv_closedRuns := (cv_closedRuns v)(nonce := True)\<rparr>))))
      | Some open' \<Rightarrow>
          if so_runNonce open' \<noteq> nonce then bad ''session_open run_nonce does not match receipt run_nonce''
          else if so_openNonce open' = [] then bad ''session_open open_nonce is empty''
          else if cv_runNonces v nonce \<noteq> None then bad ''duplicate session_open for run_nonce''
          else Inr (v\<lparr>cv_runNonces := (cv_runNonces v)(nonce \<mapsto> so_openNonce open'), cv_closedRuns := (cv_closedRuns v)(nonce := False),
                 cv_activeRun := so_runNonce open', cv_activeOpen := so_openNonce open'\<rparr>))"

section \<open>The walk\<close>

definition chain_step :: "crypto \<Rightarrow> json_lib \<Rightarrow> nat \<Rightarrow> receipt \<Rightarrow> chain_verifier \<Rightarrow> chain_result + chain_verifier" where
  "chain_step cr jl i r v0 =
     (let v = v0\<lparr>cv_index := i\<rparr> in
      and_then (if i = 0 then startFirstSegment cr r v
        else case ar_keyTransition (rcpt_actionRecord r) of
          Some marker \<Rightarrow> startRotatedSegment r marker v | None \<Rightarrow> checkContinuation r v) (\<lambda>v1.
      and_then (verifyReceiptIntegrity cr jl r i v1) (\<lambda>_.
      and_then (if cv_integrityOnly v1 then Inr v1 else validateSessionControl r v1) (\<lambda>v2.
      advanceReceiptHash cr jl r v2))))"

fun chain_walk :: "crypto \<Rightarrow> json_lib \<Rightarrow> nat \<Rightarrow> receipt list \<Rightarrow> chain_verifier \<Rightarrow> chain_result + chain_verifier" where
  "chain_walk cr jl i [] v = Inr v"
| "chain_walk cr jl i (r # rs) v = and_then (chain_step cr jl i r v) (chain_walk cr jl (Suc i) rs)"

definition chain_run :: "crypto \<Rightarrow> json_lib \<Rightarrow> receipt list \<Rightarrow> chain_verifier \<Rightarrow> chain_result" where
  "chain_run cr jl rs v0 =
     (case chain_walk cr jl 0 rs v0 of Inl res \<Rightarrow> res
      | Inr v1 \<Rightarrow>
          let v = closeSegment v1; first' = rcpt_actionRecord (hd rs); last' = rcpt_actionRecord (last rs) in
          zero_result\<lparr>cres_valid := True, cres_integrityVerified := True, cres_receiptCount := of_nat (length rs),
            cres_finalSeq := ar_chainSeq last', cres_rootHash := cv_prevHash v, cres_startTime := ar_timestamp first',
            cres_endTime := ar_timestamp last', cres_signerKeys := cv_signerKeys v, cres_segments := cv_segments v\<rparr>)"

fun normalizeTrustedKeys :: "string list \<Rightarrow> string list option" where
  "normalizeTrustedKeys [] = Some []"
| "normalizeTrustedKeys (k # ks) =
     (let key = TrimSpace k in if key = [] then None else map_option ((#) key) (normalizeTrustedKeys ks))"

definition new_verifier :: "string list \<Rightarrow> bool \<Rightarrow> chain_verifier" where
  "new_verifier keys integrityOnly = \<lparr>cv_trusted = keys, cv_curKey = [], cv_segBaseSeq = 0, cv_prevHash = [], cv_signerKeys = [],
     cv_segments = [], cv_curSeg = None, cv_index = 0, cv_runNonces = Map.empty, cv_closedRuns = (\<lambda>_. False), cv_activeRun = [],
     cv_activeOpen = [], cv_integrityOnly = integrityOnly\<rparr>"

definition verifyChainTrusted :: "crypto \<Rightarrow> json_lib \<Rightarrow> receipt list \<Rightarrow> string list \<Rightarrow> bool \<Rightarrow> chain_result" where
  "verifyChainTrusted cr jl receipts trustedKeys integrityOnly =
     (if receipts = [] then zero_result\<lparr>cres_valid := True, cres_integrityVerified := True\<rparr>
      else case normalizeTrustedKeys trustedKeys of
        None \<Rightarrow> zero_result\<lparr>cres_brokenAtSeq := rcpt_seq (hd receipts), cres_error := ''trusted key set'', cres_failureKind := FailTrust\<rparr>
      | Some keys \<Rightarrow> chain_run cr jl receipts (new_verifier keys integrityOnly))"

definition VerifyChainTrusted :: "crypto \<Rightarrow> json_lib \<Rightarrow> receipt list \<Rightarrow> string list \<Rightarrow> chain_result" where
  "VerifyChainTrusted cr jl receipts trustedKeys =
     (let res = verifyChainTrusted cr jl receipts trustedKeys False in
      if cres_failureKind res \<noteq> FailLifecycleOpen then res
      else let integrity = verifyChainTrusted cr jl receipts trustedKeys True in
        if \<not> cres_valid integrity then integrity
        else res\<lparr>cres_integrityVerified := True, cres_receiptCount := cres_receiptCount integrity,
          cres_finalSeq := cres_finalSeq integrity, cres_rootHash := cres_rootHash integrity,
          cres_startTime := cres_startTime integrity, cres_endTime := cres_endTime integrity,
          cres_signerKeys := cres_signerKeys integrity, cres_segments := cres_segments integrity\<rparr>)"

definition VerifyChainIntegrityTrusted :: "crypto \<Rightarrow> json_lib \<Rightarrow> receipt list \<Rightarrow> string list \<Rightarrow> chain_result" where
  "VerifyChainIntegrityTrusted cr jl receipts trustedKeys = verifyChainTrusted cr jl receipts trustedKeys True"

definition VerifyChain :: "crypto \<Rightarrow> json_lib \<Rightarrow> receipt list \<Rightarrow> string \<Rightarrow> chain_result" where
  "VerifyChain cr jl receipts key =
     (if key = [] then VerifyChainTrusted cr jl receipts [] else VerifyChainTrusted cr jl receipts [key])"

definition VerifyChainIntegrity :: "crypto \<Rightarrow> json_lib \<Rightarrow> receipt list \<Rightarrow> string \<Rightarrow> chain_result" where
  "VerifyChainIntegrity cr jl receipts key =
     (if key = [] then VerifyChainIntegrityTrusted cr jl receipts [] else VerifyChainIntegrityTrusted cr jl receipts [key])"

record transcript_root =
  tr_sessionID :: string
  tr_finalSeq :: "64 word"
  tr_rootHash :: string
  tr_receiptCount :: "64 word"
  tr_startTime :: timestamp
  tr_endTime :: timestamp

datatype root_error = EmptyChain | BadKeySet | NoTrustAnchor | InvalidChain string

definition ComputeTranscriptRootTrusted ::
  "crypto \<Rightarrow> json_lib \<Rightarrow> string \<Rightarrow> receipt list \<Rightarrow> string list \<Rightarrow> root_error + transcript_root" where
  "ComputeTranscriptRootTrusted cr jl sessionID receipts trustedKeys =
     (if receipts = [] then Inl EmptyChain
      else case normalizeTrustedKeys trustedKeys of None \<Rightarrow> Inl BadKeySet
      | Some keys \<Rightarrow>
          if keys = [] then Inl NoTrustAnchor
          else let result = VerifyChainTrusted cr jl receipts keys in
            if \<not> cres_valid result then Inl (InvalidChain (cres_error result))
            else Inr \<lparr>tr_sessionID = sessionID, tr_finalSeq = cres_finalSeq result, tr_rootHash = cres_rootHash result,
              tr_receiptCount = cres_receiptCount result, tr_startTime = cres_startTime result, tr_endTime = cres_endTime result\<rparr>)"

definition ComputeTranscriptRoot ::
  "crypto \<Rightarrow> json_lib \<Rightarrow> string \<Rightarrow> receipt list \<Rightarrow> string \<Rightarrow> root_error + transcript_root" where
  "ComputeTranscriptRoot cr jl sessionID receipts key =
     (if key = [] then Inl NoTrustAnchor else ComputeTranscriptRootTrusted cr jl sessionID receipts [key])"

end
