(* ===== verification/ReceiptSpec.thy ===== *)
theory ReceiptSpec
  imports ReceiptChain
begin

text \<open>
  What the chain verifier decides, without its walking state: a chain has integrity when it begins at a
  genesis, every receipt verifies under its own key and is linked to the receipt before it, and its
  sessions open once, at the exact tail, and never continue after their close. The walk of
  \<open>ReceiptChain\<close> accepts exactly these chains.
\<close>

section \<open>What a valid chain is\<close>

definition marker :: "receipt \<Rightarrow> key_transition option" where
  "marker r = ar_keyTransition (rcpt_actionRecord r)"

definition ctrl :: "receipt \<Rightarrow> session_control option" where
  "ctrl r = ar_sessionControl (rcpt_actionRecord r)"

definition nonce :: "receipt \<Rightarrow> string" where
  "nonce r = ar_runNonce (rcpt_actionRecord r)"

definition bound_genesis :: "crypto \<Rightarrow> receipt \<Rightarrow> session_open \<Rightarrow> bool" where
  "bound_genesis cr r o' \<longleftrightarrow> rcpt_seq r = 0 \<and> rcpt_prev r = ComputeSessionOpenGenesis cr o' \<and>
     so_genesisHash o' = ComputeSessionOpenGenesis cr o' \<and> so_chainOpenSeq o' = 0 \<and> so_priorChainHead o' = [] \<and> so_priorChainSeq o' = 0"

definition genesis_ok :: "crypto \<Rightarrow> receipt \<Rightarrow> bool" where
  "genesis_ok cr r \<longleftrightarrow> marker r = None \<and>
     (if has_prefix (rcpt_prev r) ''g1:'' then \<exists>o'. rcpt_open r = Some o' \<and> bound_genesis cr r o' else rcpt_prev r = ''genesis'')"

definition linked :: "crypto \<Rightarrow> json_lib \<Rightarrow> string set \<Rightarrow> receipt \<Rightarrow> receipt \<Rightarrow> bool" where
  "linked cr jl T r r' \<longleftrightarrow> ReceiptHash cr jl r = Some (rcpt_prev r') \<and>
     (case marker r' of
        None \<Rightarrow> rcpt_signerKey r' = rcpt_signerKey r \<and> rcpt_seq r' = rcpt_seq r + 1 \<and> rcpt_seq r' \<noteq> 0
      | Some m \<Rightarrow> rcpt_signerKey r' \<in> T \<and> rcpt_signerKey r' \<noteq> rcpt_signerKey r \<and> rcpt_seq r' = 0 \<and>
          m = \<lparr>kt_priorSignerKey = rcpt_signerKey r, kt_priorChainSeq = rcpt_seq r, kt_priorChainHash = rcpt_prev r'\<rparr>)"

definition authentic :: "crypto \<Rightarrow> json_lib \<Rightarrow> receipt \<Rightarrow> bool" where
  "authentic cr jl r \<longleftrightarrow> VerifyWithKey cr jl r (rcpt_signerKey r) = None \<and> ReceiptHash cr jl r \<noteq> None"

text \<open>The session history of a prefix, most recent receipt first.\<close>

fun run_opens :: "receipt list \<Rightarrow> string \<rightharpoonup> string" where
  "run_opens [] = Map.empty"
| "run_opens (r # h) = (case rcpt_open r of Some o' \<Rightarrow> (run_opens h)(nonce r \<mapsto> so_openNonce o') | None \<Rightarrow> run_opens h)"

fun run_closed :: "receipt list \<Rightarrow> string \<Rightarrow> bool" where
  "run_closed [] = (\<lambda>_. False)"
| "run_closed (r # h) =
     (if rcpt_open r \<noteq> None then (run_closed h)(nonce r := False)
      else if sessionClose (ctrl r) \<noteq> None then (run_closed h)(nonce r := True) else run_closed h)"

fun active_run :: "receipt list \<Rightarrow> string \<times> string" where
  "active_run [] = ([], [])"
| "active_run (r # h) =
     (case rcpt_open r of Some o' \<Rightarrow> (so_runNonce o', so_openNonce o')
      | None \<Rightarrow> if sessionClose (ctrl r) \<noteq> None then ([], []) else active_run h)"

fun segment_length :: "receipt list \<Rightarrow> nat" where
  "segment_length [] = 0"
| "segment_length (r # h) = (if marker r \<noteq> None then 1 else Suc (segment_length h))"

definition shape_ok :: "receipt \<Rightarrow> bool" where
  "shape_ok r \<longleftrightarrow> (case ctrl r of None \<Rightarrow> True
     | Some c \<Rightarrow> payload_count c = 1 \<and>
         (ct_kind c = ''session_open'' \<and> ct_open c \<noteq> None \<or> ct_kind c = ''heartbeat'' \<and> ct_heartbeat c \<noteq> None \<or>
          ct_kind c = ''session_close'' \<and> ct_close c \<noteq> None))"

definition heartbeat_ok :: "receipt list \<Rightarrow> receipt \<Rightarrow> session_heartbeat \<Rightarrow> bool" where
  "heartbeat_ok h r b \<longleftrightarrow> active_run h = (nonce r, sh_openNonce b) \<and> sh_runNonce b = nonce r \<and> sh_openNonce b \<noteq> [] \<and>
     run_opens h (nonce r) = Some (sh_openNonce b) \<and> sh_chainHead b = rcpt_prev r \<and> sh_chainSeqHead b = rcpt_seq r - 1"

definition close_ok :: "receipt list \<Rightarrow> receipt \<Rightarrow> session_close \<Rightarrow> bool" where
  "close_ok h r c \<longleftrightarrow> active_run h = (nonce r, sc_openNonce c) \<and> sc_runNonce c = nonce r \<and> sc_openNonce c \<noteq> [] \<and>
     run_opens h (nonce r) = Some (sc_openNonce c) \<and> sc_rootHash c = rcpt_prev r \<and> sc_finalSeq c = rcpt_seq r \<and>
     sc_receiptCount c = of_nat (segment_length (r # h))"

text \<open>A session opens on a bound genesis or at the exact tail of the chain so far.\<close>

definition open_place :: "receipt list \<Rightarrow> receipt \<Rightarrow> bool" where
  "open_place h r \<longleftrightarrow> (case rcpt_open r of None \<Rightarrow> True
     | Some o' \<Rightarrow> (case h of [] \<Rightarrow> has_prefix (rcpt_prev r) ''g1:''
        | p # _ \<Rightarrow> so_genesisHash o' = [] \<and> so_chainOpenSeq o' = rcpt_seq r \<and> so_priorChainHead o' = rcpt_prev r \<and>
            so_priorChainSeq o' = rcpt_seq p))"

definition lifecycle_ok :: "receipt list \<Rightarrow> receipt \<Rightarrow> bool" where
  "lifecycle_ok h r \<longleftrightarrow> shape_ok r \<and>
     (if nonce r = [] then ctrl r = None
      else case rcpt_open r of
        Some o' \<Rightarrow> so_runNonce o' = nonce r \<and> so_openNonce o' \<noteq> [] \<and> run_opens h (nonce r) = None
      | None \<Rightarrow> run_opens h (nonce r) \<noteq> None \<and> \<not> run_closed h (nonce r) \<and>
          (\<forall>b. sessionHeartbeat (ctrl r) = Some b \<longrightarrow> heartbeat_ok h r b) \<and> (\<forall>c. sessionClose (ctrl r) = Some c \<longrightarrow> close_ok h r c))"

definition chain_integrity :: "crypto \<Rightarrow> json_lib \<Rightarrow> string set \<Rightarrow> receipt list \<Rightarrow> bool" where
  "chain_integrity cr jl T rs \<longleftrightarrow> rs \<noteq> [] \<and> rcpt_signerKey (hd rs) \<in> T \<and> genesis_ok cr (hd rs) \<and>
     list_all (authentic cr jl) rs \<and> successively (linked cr jl T) rs"

definition chain_lifecycle :: "receipt list \<Rightarrow> bool" where
  "chain_lifecycle rs \<longleftrightarrow> (\<forall>i < length rs. lifecycle_ok (rev (take i rs)) (rs ! i) \<and> open_place (rev (take i rs)) (rs ! i))"

text \<open>Without a trusted set the key of the first receipt is the only one trusted.\<close>

definition anchors :: "string list \<Rightarrow> receipt list \<Rightarrow> string set" where
  "anchors keys rs = (if keys = [] then {rcpt_signerKey (hd rs)} else set keys)"

section \<open>The walk decides it\<close>

definition session_view :: "receipt list \<Rightarrow> chain_verifier \<Rightarrow> bool" where
  "session_view h v \<longleftrightarrow> cv_runNonces v = run_opens h \<and> cv_closedRuns v = run_closed h \<and> (cv_activeRun v, cv_activeOpen v) = active_run h"

text \<open>The walking state after the receipts \<open>h\<close>, most recent first.\<close>

definition walk_inv :: "crypto \<Rightarrow> json_lib \<Rightarrow> string list \<Rightarrow> bool \<Rightarrow> receipt list \<Rightarrow> chain_verifier \<Rightarrow> bool" where
  "walk_inv cr jl T io h v \<longleftrightarrow> h \<noteq> [] \<and> cv_trusted v = T \<and> cv_integrityOnly v = io \<and> cv_curKey v = rcpt_signerKey (hd h) \<and>
     ReceiptHash cr jl (hd h) = Some (cv_prevHash v) \<and>
     (\<exists>s. cv_curSeg v = Some s \<and> cs_finalSeq s = rcpt_seq (hd h) \<and> cs_count s = of_nat (segment_length h) \<and>
        curSegStartIndex v + cs_count s = of_nat (length h)) \<and>
     rcpt_seq (hd h) + 1 = cv_segBaseSeq v + (of_nat (length h) - curSegStartIndex v) \<and>
     (\<not> io \<longrightarrow> session_view h v)"

definition step_ok :: "crypto \<Rightarrow> json_lib \<Rightarrow> string list \<Rightarrow> bool \<Rightarrow> receipt list \<Rightarrow> receipt \<Rightarrow> bool" where
  "step_ok cr jl T io h r \<longleftrightarrow>
     (case h of [] \<Rightarrow> rcpt_signerKey r \<in> set T \<and> genesis_ok cr r | p # _ \<Rightarrow> linked cr jl (set T) p r) \<and>
     authentic cr jl r \<and> (io \<or> lifecycle_ok h r \<and> open_place h r)"

lemma case_unit_Inr [simp]: "(case x of Inl e \<Rightarrow> Inl e | Inr (u :: unit) \<Rightarrow> y) = Inr w \<longleftrightarrow> x = Inr () \<and> y = Inr w"
  by (auto split: sum.splits)

lemma VerifyWithKey_own_key:
  "VerifyWithKey cr jl r k = None \<longleftrightarrow> k = rcpt_signerKey r \<and> VerifyWithKey cr jl r (rcpt_signerKey r) = None"
  by (auto simp: VerifyWithKey_def split: option.splits if_splits)

lemma control_shape_iff: "control_shape v r = Inr u \<longleftrightarrow> shape_ok r"
  by (auto simp: control_shape_def shape_ok_def ctrl_def split: option.splits)

lemma nonce_run: "ar_runNonce (rcpt_actionRecord r) = nonce r" "ar_sessionControl (rcpt_actionRecord r) = ctrl r"
    "ar_keyTransition (rcpt_actionRecord r) = marker r"
  by (simp_all add: nonce_def ctrl_def marker_def)

lemma heartbeat_check_iff:
  assumes "session_view h v" "cv_prevHash v = rcpt_prev r" "run_opens h (nonce r) = Some x" "nonce r \<noteq> []"
  shows "heartbeat_check v r x b = Inr u \<longleftrightarrow> heartbeat_ok h r b"
  using assms by (auto simp: heartbeat_check_def heartbeat_ok_def session_view_def Let_def nonce_run split: if_splits)

lemma close_check_iff:
  assumes "session_view h v" "cv_prevHash v = rcpt_prev r" "run_opens h (nonce r) = Some x" "nonce r \<noteq> []"
    "cv_curSeg v = Some s" "cs_count s + 1 = of_nat (segment_length (r # h))"
  shows "close_check v r x c = Inr u \<longleftrightarrow> close_ok h r c"
  using assms by (auto simp: close_check_def close_ok_def session_view_def Let_def nonce_run split: if_splits)

definition session_next :: "receipt list \<Rightarrow> receipt \<Rightarrow> chain_verifier \<Rightarrow> chain_verifier" where
  "session_next h r v = v\<lparr>cv_runNonces := run_opens (r # h), cv_closedRuns := run_closed (r # h),
     cv_activeRun := fst (active_run (r # h)), cv_activeOpen := snd (active_run (r # h))\<rparr>"

lemma session_next_same:
  assumes "session_view h v" "rcpt_open r = None" "sessionClose (ctrl r) = None"
  shows "session_next h r v = v"
  using assms by (cases "active_run h") (auto simp: session_next_def session_view_def)

lemma validateSessionControl_iff:
  assumes v: "session_view h v" "cv_prevHash v = rcpt_prev r"
    "cv_curSeg v = Some s" "cs_count s + 1 = of_nat (segment_length (r # h))"
  shows "validateSessionControl r v = Inr v' \<longleftrightarrow> lifecycle_ok h r \<and> v' = session_next h r v"
proof (cases "shape_ok r")
  case False
  then have "control_shape v r \<noteq> Inr u" for u by (simp add: control_shape_iff)
  then show ?thesis using False by (auto simp: validateSessionControl_def lifecycle_ok_def Let_def split: sum.splits)
next
  case True
  then have shape: "control_shape v r = Inr ()" by (simp add: control_shape_iff)
  show ?thesis
  proof (cases "nonce r = []")
    case True
    then show ?thesis using \<open>shape_ok r\<close> session_next_same [OF v(1)]
      by (auto simp: validateSessionControl_def lifecycle_ok_def nonce_run shape sessionOpen_def sessionClose_def Let_def)
  next
    case nonempty: False
    show ?thesis
    proof (cases "rcpt_open r")
      case (Some o')
      then show ?thesis using nonempty True v(1)
        by (auto simp: validateSessionControl_def lifecycle_ok_def nonce_run shape session_view_def session_next_def Let_def)
    next
      case None
      show ?thesis
      proof (cases "run_opens h (nonce r)")
        case None
        then show ?thesis using nonempty \<open>rcpt_open r = None\<close> v(1)
          by (auto simp: validateSessionControl_def lifecycle_ok_def nonce_run shape session_view_def Let_def)
      next
        case (Some x)
        note hb = heartbeat_check_iff [OF v(1,2) Some nonempty] and cl = close_check_iff [OF v(1,2) Some nonempty v(3,4)]
        have runs: "cv_runNonces v (nonce r) = Some x" "cv_closedRuns v (nonce r) = run_closed h (nonce r)"
          using v(1) Some by (simp_all add: session_view_def)
        have ex: "sessionHeartbeat (ctrl r) = None \<or> sessionClose (ctrl r) = None"
          by (auto simp: sessionHeartbeat_def sessionClose_def split: option.splits)
        show ?thesis
        proof (cases "sessionClose (ctrl r)")
          case (Some c)
          with ex have "sessionHeartbeat (ctrl r) = None" by simp
          moreover have "session_next h r v =
              v\<lparr>cv_activeRun := [], cv_activeOpen := [], cv_closedRuns := (cv_closedRuns v)(nonce r := True)\<rparr>"
            using v(1) \<open>rcpt_open r = None\<close> Some by (simp add: session_next_def session_view_def)
          ultimately show ?thesis using nonempty \<open>rcpt_open r = None\<close> Some \<open>run_opens h (nonce r) = Some x\<close> cl [of c] \<open>shape_ok r\<close>
            by (auto simp: validateSessionControl_def lifecycle_ok_def nonce_run shape runs Let_def split: sum.splits)
        next
          case None
          show ?thesis using session_next_same [OF v(1) \<open>rcpt_open r = None\<close> None] nonempty \<open>rcpt_open r = None\<close> None
              \<open>run_opens h (nonce r) = Some x\<close> hb [of "the (sessionHeartbeat (ctrl r))"] \<open>shape_ok r\<close>
            by (cases "sessionHeartbeat (ctrl r)")
              (auto simp: validateSessionControl_def lifecycle_ok_def nonce_run shape runs Let_def split: sum.splits)
        qed
      qed
    qed
  qed
qed

text \<open>The state between the segment checks and the signature check of receipt \<open>r\<close> after \<open>h\<close>.\<close>

definition mid_inv :: "crypto \<Rightarrow> json_lib \<Rightarrow> string list \<Rightarrow> bool \<Rightarrow> receipt list \<Rightarrow> receipt \<Rightarrow> chain_verifier \<Rightarrow> bool" where
  "mid_inv cr jl T io h r v \<longleftrightarrow> cv_trusted v = T \<and> cv_integrityOnly v = io \<and>
     cv_curKey v = (if h = [] \<or> marker r \<noteq> None then rcpt_signerKey r else rcpt_signerKey (hd h)) \<and>
     (if h = [] then cv_prevHash v = rcpt_prev r else ReceiptHash cr jl (hd h) = Some (cv_prevHash v)) \<and>
     (\<exists>s. cv_curSeg v = Some s \<and> cs_count s + 1 = of_nat (segment_length (r # h)) \<and>
        curSegStartIndex v + cs_count s = of_nat (length h)) \<and>
     cv_segBaseSeq v + (of_nat (length h) - curSegStartIndex v) =
       (if h = [] then rcpt_seq r else if marker r \<noteq> None then 0 else rcpt_seq (hd h) + 1) \<and>
     (\<not> io \<longrightarrow> session_view h v)"

lemma beginSegment_fields [simp]:
  "cv_trusted (beginSegment r b v) = cv_trusted v" "cv_curKey (beginSegment r b v) = cv_curKey v"
  "cv_segBaseSeq (beginSegment r b v) = cv_segBaseSeq v" "cv_prevHash (beginSegment r b v) = cv_prevHash v"
  "cv_segments (beginSegment r b v) = cv_segments v" "cv_integrityOnly (beginSegment r b v) = cv_integrityOnly v"
  "cv_runNonces (beginSegment r b v) = cv_runNonces v" "cv_closedRuns (beginSegment r b v) = cv_closedRuns v"
  "cv_activeRun (beginSegment r b v) = cv_activeRun v" "cv_activeOpen (beginSegment r b v) = cv_activeOpen v"
  "cv_index (beginSegment r b v) = cv_index v"
  "cv_curSeg (beginSegment r b v) = Some \<lparr>cs_signerKey = rcpt_signerKey r, cs_firstSeq = rcpt_seq r, cs_finalSeq = rcpt_seq r,
     cs_count = 0, cs_boundary = b\<rparr>"
  by (simp_all add: beginSegment_def appendSignerKey_def)

lemma hex_byte_set: "c \<in> set (hex_EncodeToString s) \<Longrightarrow> digit_like c"
proof -
  have "digit_like (digit_char d)" if "d < 16" for d
    using that by (auto simp: digit_like_def digit_char_def)
  moreover have "(of_char b :: nat) div 16 < 16" for b :: char
    using nat_of_char_less_256 [of b] by (simp add: div_less_iff_less_mult)
  ultimately show "c \<in> set (hex_EncodeToString s) \<Longrightarrow> digit_like c"
    by (auto simp: hex_EncodeToString_def hex_byte_def)
qed

lemma hash_not_genesis:
  assumes "ReceiptHash cr jl r = Some x"
  shows "\<not> has_prefix x ''g1:''" "x \<noteq> ''genesis''"
proof -
  obtain d where "x = hex_EncodeToString d" using assms by (auto simp: ReceiptHash_def)
  with hex_byte_set [of "CHR ''g''" d] have "CHR ''g'' \<notin> set x" by (auto simp: digit_like_def)
  then show "\<not> has_prefix x ''g1:''" "x \<noteq> ''genesis''" by (auto simp: has_prefix_iff)
qed

definition next_segment :: "receipt list \<Rightarrow> receipt \<Rightarrow> chain_verifier \<Rightarrow> chain_verifier" where
  "next_segment h r v0 = (let v = v0\<lparr>cv_index := length h\<rparr> in
     if marker r = None then v
     else beginSegment r True ((closeSegment v)\<lparr>cv_curKey := rcpt_signerKey r, cv_segBaseSeq := 0\<rparr>))"

lemma restart_iff:
  assumes "rcpt_prev r = priorHead" "\<not> has_prefix priorHead ''g1:''" "priorSeq = rcpt_seq p"
  shows "validateRestartOpen v r o' priorHead priorSeq = Inr u \<longleftrightarrow>
    so_genesisHash o' = [] \<and> so_chainOpenSeq o' = rcpt_seq r \<and> so_priorChainHead o' = rcpt_prev r \<and> so_priorChainSeq o' = rcpt_seq p"
  using assms by (auto simp: validateRestartOpen_def genesisSessionOpenPrefix_def)

lemma integrity_iff:
  "verifyReceiptIntegrity cr jl r i v = Inr u \<longleftrightarrow>
     (cv_curKey v = rcpt_signerKey r \<and> VerifyWithKey cr jl r (rcpt_signerKey r) = None) \<and>
     rcpt_seq r = cv_segBaseSeq v + (of_nat i - curSegStartIndex v) \<and> rcpt_prev r = cv_prevHash v"
  unfolding VerifyWithKey_own_key [of cr jl r "cv_curKey v", symmetric] by (simp add: verifyReceiptIntegrity_def Let_def)

text \<open>Before the lifecycle checks: the segment and the signature, for a receipt inside the chain.\<close>

lemma continuation_iff:
  assumes inv: "walk_inv cr jl T io (p # h) v" and m: "marker r = None"
  shows "and_then (checkContinuation r (v\<lparr>cv_index := Suc (length h)\<rparr>)) (\<lambda>v1. and_then (verifyReceiptIntegrity cr jl r (Suc (length h)) v1) (\<lambda>_. f v1)) = Inr v' \<longleftrightarrow>
    linked cr jl (set T) p r \<and> VerifyWithKey cr jl r (rcpt_signerKey r) = None \<and> (io \<or> open_place (p # h) r) \<and>
    f (next_segment (p # h) r v) = Inr v'"
proof -
  let ?v = "v\<lparr>cv_index := Suc (length h)\<rparr>"
  from inv obtain s where s: "cv_curSeg v = Some s" "cs_finalSeq s = rcpt_seq p" by (auto simp: walk_inv_def)
  from inv have hash: "ReceiptHash cr jl p = Some (cv_prevHash v)" and key: "cv_curKey v = rcpt_signerKey p"
    and seq: "cv_segBaseSeq v + (of_nat (Suc (length h)) - curSegStartIndex v) = rcpt_seq p + 1" and io: "cv_integrityOnly v = io"
    by (auto simp: walk_inv_def)
  have integ: "verifyReceiptIntegrity cr jl r (Suc (length h)) ?v = Inr u \<longleftrightarrow>
      VerifyWithKey cr jl r (rcpt_signerKey r) = None \<and> rcpt_signerKey r = rcpt_signerKey p \<and> rcpt_seq r = rcpt_seq p + 1 \<and>
      rcpt_prev r = cv_prevHash v" for u
    using seq by (auto simp: integrity_iff key curSegStartIndex_def)
  have place: "checkContinuation r ?v = Inr w \<longleftrightarrow> w = ?v \<and> rcpt_seq r \<noteq> 0 \<and> (io \<or> open_place (p # h) r)"
    if "rcpt_prev r = cv_prevHash v" for w
    using restart_iff [of r "cv_prevHash v" "rcpt_seq p" p ?v, OF that hash_not_genesis(1) [OF hash]] s io
    by (cases "rcpt_open r") (auto simp: checkContinuation_def open_place_def)
  have same: "checkContinuation r ?v = Inr w \<Longrightarrow> w = ?v" for w
    by (auto simp: checkContinuation_def split: option.splits if_splits sum.splits)
  show ?thesis
  proof (cases "rcpt_prev r = cv_prevHash v")
    case True
    have "linked cr jl (set T) p r \<longleftrightarrow> rcpt_signerKey r = rcpt_signerKey p \<and> rcpt_seq r = rcpt_seq p + 1 \<and> rcpt_seq r \<noteq> 0"
      using True hash m by (auto simp: linked_def)
    with True show ?thesis
      by (simp add: place [OF True] integ next_segment_def m Let_def) blast
  next
    case False
    then have "\<not> linked cr jl (set T) p r" using hash by (auto simp: linked_def)
    moreover have "and_then (checkContinuation r ?v) (\<lambda>v1. and_then (verifyReceiptIntegrity cr jl r (Suc (length h)) v1) (\<lambda>_. f v1)) \<noteq> Inr v'"
      using False integ same by auto
    ultimately show ?thesis by simp
  qed
qed

lemma rotation_iff:
  assumes inv: "walk_inv cr jl T io (p # h) v" and m: "marker r = Some m"
  shows "and_then (startRotatedSegment r m (v\<lparr>cv_index := Suc (length h)\<rparr>)) (\<lambda>v1. and_then (verifyReceiptIntegrity cr jl r (Suc (length h)) v1) (\<lambda>_. f v1)) = Inr v' \<longleftrightarrow>
    linked cr jl (set T) p r \<and> VerifyWithKey cr jl r (rcpt_signerKey r) = None \<and> (io \<or> open_place (p # h) r) \<and>
    f (next_segment (p # h) r v) = Inr v'"
proof -
  let ?v = "v\<lparr>cv_index := Suc (length h)\<rparr>"
  from inv obtain s where s: "cv_curSeg v = Some s" "cs_finalSeq s = rcpt_seq p" "curSegStartIndex v + cs_count s = of_nat (Suc (length h))"
    by (auto simp: walk_inv_def)
  from inv have hash: "ReceiptHash cr jl p = Some (cv_prevHash v)" and key: "cv_curKey v = rcpt_signerKey p"
    and T: "cv_trusted v = T" and io: "cv_integrityOnly v = io"
    by (auto simp: walk_inv_def)
  have rot: "startRotatedSegment r m ?v = Inr w \<longleftrightarrow> linked cr jl (set T) p r \<and> (io \<or> open_place (p # h) r) \<and> w = next_segment (p # h) r v" for w
  proof (cases "linked cr jl (set T) p r")
    case True
    then have prev: "rcpt_prev r = cv_prevHash v" "rcpt_seq r = 0" "rcpt_signerKey r \<in> set T" "rcpt_signerKey r \<noteq> rcpt_signerKey p"
        "m = \<lparr>kt_priorSignerKey = rcpt_signerKey p, kt_priorChainSeq = rcpt_seq p, kt_priorChainHash = cv_prevHash v\<rparr>"
      using hash m by (auto simp: linked_def)
    then show ?thesis using restart_iff [of r "cv_prevHash v" "rcpt_seq p" p ?v, OF prev(1) hash_not_genesis(1) [OF hash]] s io True
      by (cases "rcpt_open r") (auto simp: startRotatedSegment_def open_place_def next_segment_def key m keyTrusted_def T Let_def)
  next
    case False
    then show ?thesis using hash m s(1,2)
      by (auto simp: startRotatedSegment_def linked_def key keyTrusted_def T)
  qed
  have start: "curSegStartIndex (next_segment (p # h) r v) = of_nat (Suc (length h))"
    using s by (simp add: next_segment_def m closeSegment_def curSegStartIndex_def Let_def)
  have integ: "verifyReceiptIntegrity cr jl r (Suc (length h)) (next_segment (p # h) r v) = Inr u \<longleftrightarrow>
      VerifyWithKey cr jl r (rcpt_signerKey r) = None" if "linked cr jl (set T) p r" for u
    using that hash s(1) unfolding integrity_iff start
    by (auto simp: linked_def m next_segment_def closeSegment_def Let_def)
  show ?thesis using integ by (auto simp: rot)
qed

lemma next_segment_mid:
  assumes inv: "walk_inv cr jl T io (p # h) v" and link: "linked cr jl (set T) p r"
  shows "mid_inv cr jl T io (p # h) r (next_segment (p # h) r v)"
proof -
  from inv obtain s where s: "cv_curSeg v = Some s" "cs_count s = of_nat (segment_length (p # h))"
      "curSegStartIndex v + cs_count s = of_nat (Suc (length h))"
    by (auto simp: walk_inv_def)
  show ?thesis
  proof (cases "marker r")
    case None
    with inv s show ?thesis
      by (auto simp: mid_inv_def walk_inv_def next_segment_def Let_def curSegStartIndex_def session_view_def)
  next
    case (Some m)
    with inv s show ?thesis
      by (auto simp: mid_inv_def walk_inv_def next_segment_def Let_def curSegStartIndex_def session_view_def closeSegment_def)
  qed
qed

text \<open>The checks from the lifecycle on, shared by the first and the later receipts.\<close>

definition finish_step :: "crypto \<Rightarrow> json_lib \<Rightarrow> receipt \<Rightarrow> chain_verifier \<Rightarrow> chain_result + chain_verifier" where
  "finish_step cr jl r v1 =
     and_then (if cv_integrityOnly v1 then Inr v1 else validateSessionControl r v1) (advanceReceiptHash cr jl r)"

lemma finish_step_ok:
  assumes mid: "mid_inv cr jl T io h r v" and prev: "cv_prevHash v = rcpt_prev r" and key: "cv_curKey v = rcpt_signerKey r"
    and seq: "rcpt_seq r = cv_segBaseSeq v + (of_nat (length h) - curSegStartIndex v)"
  shows "(\<exists>v'. finish_step cr jl r v = Inr v') \<longleftrightarrow> ReceiptHash cr jl r \<noteq> None \<and> (io \<or> lifecycle_ok h r)"
    and "finish_step cr jl r v = Inr v' \<Longrightarrow> walk_inv cr jl T io (r # h) v'"
proof -
  from mid obtain s where s: "cv_curSeg v = Some s" "cs_count s + 1 = of_nat (segment_length (r # h))"
      "curSegStartIndex v + cs_count s = of_nat (length h)"
    and io: "cv_integrityOnly v = io" "cv_trusted v = T" "\<not> io \<Longrightarrow> session_view h v"
    by (auto simp: mid_inv_def)
  note ctl = validateSessionControl_iff [OF io(3) prev s(1,2)]
  show "(\<exists>v'. finish_step cr jl r v = Inr v') \<longleftrightarrow> ReceiptHash cr jl r \<noteq> None \<and> (io \<or> lifecycle_ok h r)"
    using ctl io(1) by (cases "ReceiptHash cr jl r") (auto simp: finish_step_def advanceReceiptHash_def)
  assume step: "finish_step cr jl r v = Inr v'"
  define v2 where "v2 = (if io then v else session_next h r v)"
  have view: "\<not> io \<Longrightarrow> session_view (r # h) v2" by (simp add: v2_def session_next_def session_view_def)
  have same: "cv_curSeg v2 = Some s" "cv_segments v2 = cv_segments v" "cv_segBaseSeq v2 = cv_segBaseSeq v" "cv_curKey v2 = cv_curKey v"
      "cv_trusted v2 = T" "cv_integrityOnly v2 = io"
    using s(1) io by (simp_all add: v2_def session_next_def)
  from step io(1) ctl obtain x where x: "ReceiptHash cr jl r = Some x"
      "v' = v2\<lparr>cv_prevHash := x, cv_curSeg := Some (s\<lparr>cs_finalSeq := rcpt_seq r, cs_count := cs_count s + 1\<rparr>)\<rparr>"
    using same(1) by (cases io) (auto simp: finish_step_def advanceReceiptHash_def v2_def split: option.splits)
  have start: "curSegStartIndex v' = curSegStartIndex v" using same by (simp add: curSegStartIndex_def x(2))
  have "curSegStartIndex v + (cs_count s + 1) = of_nat (length (r # h))" using s(3) by (simp add: algebra_simps)
  moreover have cur: "cv_curSeg v' = Some (s\<lparr>cs_finalSeq := rcpt_seq r, cs_count := cs_count s + 1\<rparr>)" by (simp add: x(2))
  ultimately have seg: "\<exists>s'. cv_curSeg v' = Some s' \<and> cs_finalSeq s' = rcpt_seq r \<and> cs_count s' = of_nat (segment_length (r # h)) \<and>
      curSegStartIndex v' + cs_count s' = of_nat (length (r # h))"
    using s(2) by (simp add: start cur del: segment_length.simps)
  have "rcpt_seq r + 1 = cv_segBaseSeq v' + (of_nat (length (r # h)) - curSegStartIndex v')"
    using seq same(3) unfolding start by (simp add: x(2) algebra_simps)
  moreover have "cv_trusted v' = T" "cv_integrityOnly v' = io" "cv_curKey v' = rcpt_signerKey r" "ReceiptHash cr jl r = Some (cv_prevHash v')"
    using same key x(1) by (simp_all add: x(2))
  moreover have "\<not> io \<Longrightarrow> session_view (r # h) v'" using view by (simp add: x(2) session_view_def)
  ultimately show "walk_inv cr jl T io (r # h) v'" using seg unfolding walk_inv_def list.sel by blast
qed

lemma step_next:
  assumes inv: "walk_inv cr jl T io (p # h) v"
  shows "(\<exists>v'. chain_step cr jl (Suc (length h)) r v = Inr v') \<longleftrightarrow> step_ok cr jl T io (p # h) r"
    and "chain_step cr jl (Suc (length h)) r v = Inr v' \<Longrightarrow> walk_inv cr jl T io (r # p # h) v'"
proof -
  let ?v1 = "next_segment (p # h) r v"
  have step: "chain_step cr jl (Suc (length h)) r v = Inr w \<longleftrightarrow>
      (linked cr jl (set T) p r \<and> VerifyWithKey cr jl r (rcpt_signerKey r) = None \<and> (io \<or> open_place (p # h) r)) \<and>
      finish_step cr jl r ?v1 = Inr w" for w
    using continuation_iff [OF inv, of r "finish_step cr jl r" w] rotation_iff [OF inv, of r _ "finish_step cr jl r" w]
    by (cases "marker r") (simp_all add: chain_step_def Let_def nonce_run finish_step_def)
  have fin: "(\<exists>v'. finish_step cr jl r ?v1 = Inr v') \<longleftrightarrow> ReceiptHash cr jl r \<noteq> None \<and> (io \<or> lifecycle_ok (p # h) r)"
      "finish_step cr jl r ?v1 = Inr v' \<Longrightarrow> walk_inv cr jl T io (r # p # h) v'"
    if link: "linked cr jl (set T) p r" for v'
  proof -
    from next_segment_mid [OF inv link] have mid: "mid_inv cr jl T io (p # h) r ?v1" .
    have 1: "cv_prevHash ?v1 = rcpt_prev r" "cv_curKey ?v1 = rcpt_signerKey r"
        "rcpt_seq r = cv_segBaseSeq ?v1 + (of_nat (length (p # h)) - curSegStartIndex ?v1)"
      using mid link by (auto simp: mid_inv_def linked_def split: option.splits)
    show "(\<exists>v'. finish_step cr jl r ?v1 = Inr v') \<longleftrightarrow> ReceiptHash cr jl r \<noteq> None \<and> (io \<or> lifecycle_ok (p # h) r)"
      "finish_step cr jl r ?v1 = Inr v' \<Longrightarrow> walk_inv cr jl T io (r # p # h) v'"
      by (fact finish_step_ok [OF mid 1])+
  qed
  show "(\<exists>v'. chain_step cr jl (Suc (length h)) r v = Inr v') \<longleftrightarrow> step_ok cr jl T io (p # h) r"
    using step fin(1) by (auto simp: step_ok_def authentic_def)
  show "chain_step cr jl (Suc (length h)) r v = Inr v' \<Longrightarrow> walk_inv cr jl T io (r # p # h) v'"
    using step fin(2) by blast
qed

lemma startFirstSegment_iff:
  assumes T: "T = (if keys = [] then [rcpt_signerKey r] else keys)"
  shows "(\<exists>v. startFirstSegment cr r (new_verifier keys io) = Inr v) \<longleftrightarrow>
      rcpt_signerKey r \<in> set T \<and> genesis_ok cr r \<and> (io \<or> open_place [] r)"
    and "startFirstSegment cr r (new_verifier keys io) = Inr v \<Longrightarrow> mid_inv cr jl T io [] r v"
proof -
  let ?v = "(new_verifier keys io)\<lparr>cv_trusted := T, cv_curKey := rcpt_signerKey r\<rparr>"
  have v: "(if keys = [] then (new_verifier keys io)\<lparr>cv_trusted := [rcpt_signerKey r]\<rparr> else new_verifier keys io)\<lparr>cv_curKey := rcpt_signerKey r\<rparr> = ?v"
    by (simp add: T new_verifier_def)
  have bound: "validateBoundGenesisOpen cr w r = Inr u \<longleftrightarrow> (\<exists>o'. rcpt_open r = Some o' \<and> bound_genesis cr r o')" for w u
    by (auto simp: validateBoundGenesisOpen_def bound_genesis_def Let_def split: option.splits)
  have new: "cv_trusted (new_verifier keys io) = keys" "cv_integrityOnly (new_verifier keys io) = io" by (simp_all add: new_verifier_def)
  have trust: "keyTrusted (if keys = [] then (new_verifier keys io)\<lparr>cv_trusted := [rcpt_signerKey r]\<rparr> else new_verifier keys io) k \<longleftrightarrow> k \<in> set T" for k
    by (simp add: keyTrusted_def T new)
  have eq: "startFirstSegment cr r (new_verifier keys io) = Inr w \<longleftrightarrow>
      (rcpt_signerKey r \<in> set T \<and> genesis_ok cr r \<and> (io \<or> open_place [] r)) \<and>
      w = (beginSegment r False (?v\<lparr>cv_prevHash := rcpt_prev r\<rparr>))\<lparr>cv_segBaseSeq := rcpt_seq r\<rparr>" for w
    unfolding startFirstSegment_def Let_def new trust v
    by (auto simp: bound genesis_ok_def open_place_def genesisSessionOpenPrefix_def GenesisHash_def nonce_run new split: option.splits)
  show "(\<exists>v. startFirstSegment cr r (new_verifier keys io) = Inr v) \<longleftrightarrow>
      rcpt_signerKey r \<in> set T \<and> genesis_ok cr r \<and> (io \<or> open_place [] r)" by (simp add: eq)
  show "startFirstSegment cr r (new_verifier keys io) = Inr v \<Longrightarrow> mid_inv cr jl T io [] r v"
  proof -
    assume "startFirstSegment cr r (new_verifier keys io) = Inr v"
    then have g: "genesis_ok cr r" and v: "v = (beginSegment r False (?v\<lparr>cv_prevHash := rcpt_prev r\<rparr>))\<lparr>cv_segBaseSeq := rcpt_seq r\<rparr>"
      by (simp_all only: eq)
    show ?thesis using g by (simp add: v mid_inv_def genesis_ok_def new_verifier_def curSegStartIndex_def session_view_def)
  qed
qed

lemma step_first:
  assumes T: "T = (if keys = [] then [rcpt_signerKey r] else keys)"
  shows "(\<exists>v'. chain_step cr jl 0 r (new_verifier keys io) = Inr v') \<longleftrightarrow> step_ok cr jl T io [] r"
    and "chain_step cr jl 0 r (new_verifier keys io) = Inr v' \<Longrightarrow> walk_inv cr jl T io [r] v'"
proof -
  have idx: "(new_verifier keys io)\<lparr>cv_index := 0\<rparr> = new_verifier keys io" by (simp add: new_verifier_def)
  have step: "chain_step cr jl 0 r (new_verifier keys io) = Inr w \<longleftrightarrow>
      (\<exists>v. startFirstSegment cr r (new_verifier keys io) = Inr v \<and> VerifyWithKey cr jl r (rcpt_signerKey r) = None \<and> finish_step cr jl r v = Inr w)" for w
  proof -
    have integ: "verifyReceiptIntegrity cr jl r 0 v = Inr u \<longleftrightarrow> VerifyWithKey cr jl r (rcpt_signerKey r) = None"
      if "startFirstSegment cr r (new_verifier keys io) = Inr v" for v u
    proof -
      have "cv_prevHash v = rcpt_prev r" "cv_curKey v = rcpt_signerKey r" "cv_segBaseSeq v + (of_nat 0 - curSegStartIndex v) = rcpt_seq r"
        using startFirstSegment_iff(2) [OF T that, of jl] by (simp_all add: mid_inv_def)
      then show ?thesis by (simp add: integrity_iff)
    qed
    show ?thesis
      by (cases "startFirstSegment cr r (new_verifier keys io)")
        (simp_all add: chain_step_def Let_def idx finish_step_def integ and_then_def [of "Inl _"])
  qed
  have fin: "(\<exists>v'. finish_step cr jl r v = Inr v') \<longleftrightarrow> ReceiptHash cr jl r \<noteq> None \<and> (io \<or> lifecycle_ok [] r)"
      "finish_step cr jl r v = Inr v' \<Longrightarrow> walk_inv cr jl T io [r] v'"
    if "startFirstSegment cr r (new_verifier keys io) = Inr v" for v v'
  proof -
    from startFirstSegment_iff(2) [OF T that] have mid: "mid_inv cr jl T io [] r v" .
    have 1: "cv_prevHash v = rcpt_prev r" "cv_curKey v = rcpt_signerKey r"
        "rcpt_seq r = cv_segBaseSeq v + (of_nat (length ([] :: receipt list)) - curSegStartIndex v)"
      using mid by (auto simp: mid_inv_def)
    show "(\<exists>v'. finish_step cr jl r v = Inr v') \<longleftrightarrow> ReceiptHash cr jl r \<noteq> None \<and> (io \<or> lifecycle_ok [] r)"
      "finish_step cr jl r v = Inr v' \<Longrightarrow> walk_inv cr jl T io [r] v'"
      by (fact finish_step_ok [OF mid 1])+
  qed
  show "(\<exists>v'. chain_step cr jl 0 r (new_verifier keys io) = Inr v') \<longleftrightarrow> step_ok cr jl T io [] r"
    using step fin(1) startFirstSegment_iff(1) [OF T, of cr io] by (simp add: step_ok_def authentic_def) blast
  show "chain_step cr jl 0 r (new_verifier keys io) = Inr v' \<Longrightarrow> walk_inv cr jl T io [r] v'"
    using step fin(2) by blast
qed

fun ok_from :: "crypto \<Rightarrow> json_lib \<Rightarrow> string list \<Rightarrow> bool \<Rightarrow> receipt list \<Rightarrow> receipt list \<Rightarrow> bool" where
  "ok_from cr jl T io h [] = True"
| "ok_from cr jl T io h (r # rs) = (step_ok cr jl T io h r \<and> ok_from cr jl T io (r # h) rs)"

lemma walk_keeps_inv:
  "walk_inv cr jl T io h v \<Longrightarrow> chain_walk cr jl (length h) rs v = Inr v' \<Longrightarrow> walk_inv cr jl T io (rev rs @ h) v'"
proof (induction rs arbitrary: h v)
  case (Cons r rs)
  obtain p h' where h: "h = p # h'" using Cons.prems(1) by (cases h) (auto simp: walk_inv_def)
  from Cons.prems(2) obtain w where w: "chain_step cr jl (length h) r v = Inr w" "chain_walk cr jl (length (r # h)) rs w = Inr v'" by auto
  with step_next(2) [OF Cons.prems(1) [unfolded h], of r w] have "walk_inv cr jl T io (r # h) w" by (simp add: h)
  from Cons.IH [OF this w(2)] show ?case by simp
qed simp

lemma walk_iff:
  "walk_inv cr jl T io h v \<Longrightarrow> (\<exists>v'. chain_walk cr jl (length h) rs v = Inr v') \<longleftrightarrow> ok_from cr jl T io h rs"
proof (induction rs arbitrary: h v)
  case (Cons r rs)
  obtain p h' where h: "h = p # h'" using Cons.prems by (cases h) (auto simp: walk_inv_def)
  note st = step_next [OF Cons.prems [unfolded h], of r]
  show ?case
  proof (cases "\<exists>w. chain_step cr jl (length h) r v = Inr w")
    case True
    then obtain w where w: "chain_step cr jl (length h) r v = Inr w" ..
    with st have "walk_inv cr jl T io (r # h) w" "step_ok cr jl T io h r" by (auto simp: h)
    with Cons.IH [of "r # h" w] w show ?thesis by simp
  next
    case False
    with st(1) show ?thesis by (simp add: h)
  qed
qed simp

lemma ok_from_iff:
  "ok_from cr jl T io (p # h) rs \<longleftrightarrow> list_all (authentic cr jl) rs \<and> successively (linked cr jl (set T)) (p # rs) \<and>
     (io \<or> (\<forall>i < length rs. lifecycle_ok (rev (take i rs) @ p # h) (rs ! i) \<and> open_place (rev (take i rs) @ p # h) (rs ! i)))"
proof (induction rs arbitrary: p h)
  case (Cons r rs)
  show ?case unfolding ok_from.simps Cons.IH
    by (auto simp: step_ok_def All_less_Suc2)
qed simp

lemma ok_chain_iff:
  assumes "rs \<noteq> []"
  shows "ok_from cr jl T io [] rs \<longleftrightarrow> chain_integrity cr jl (set T) rs \<and> (io \<or> chain_lifecycle rs)"
proof -
  obtain r rs' where rs: "rs = r # rs'" using assms by (cases rs) auto
  show ?thesis unfolding rs ok_from.simps ok_from_iff
    by (auto simp: step_ok_def chain_integrity_def chain_lifecycle_def All_less_Suc2)
qed

lemma chain_walk_new:
  assumes "rs \<noteq> []"
  shows "(\<exists>v. chain_walk cr jl 0 rs (new_verifier keys io) = Inr v) \<longleftrightarrow>
      chain_integrity cr jl (anchors keys rs) rs \<and> (io \<or> chain_lifecycle rs)"
    and "chain_walk cr jl 0 rs (new_verifier keys io) = Inr v \<Longrightarrow>
      ReceiptHash cr jl (last rs) = Some (cv_prevHash v) \<and> (\<exists>s. cv_curSeg v = Some s)"
proof -
  obtain r rs' where rs: "rs = r # rs'" using assms by (cases rs) auto
  define T where "T = (if keys = [] then [rcpt_signerKey r] else keys)"
  have T: "set T = anchors keys rs" by (simp add: T_def anchors_def rs)
  note first = step_first [OF T_def, where cr = cr and jl = jl and io = io]
  have "(\<exists>v. chain_walk cr jl 0 rs (new_verifier keys io) = Inr v) \<longleftrightarrow> ok_from cr jl T io [] rs"
  proof (cases "\<exists>w. chain_step cr jl 0 r (new_verifier keys io) = Inr w")
    case True
    then obtain w where w: "chain_step cr jl 0 r (new_verifier keys io) = Inr w" ..
    with walk_iff [OF first(2) [OF w], of rs'] first(1) show ?thesis by (auto simp: rs)
  next
    case False
    with first(1) show ?thesis by (simp add: rs)
  qed
  then show "(\<exists>v. chain_walk cr jl 0 rs (new_verifier keys io) = Inr v) \<longleftrightarrow>
      chain_integrity cr jl (anchors keys rs) rs \<and> (io \<or> chain_lifecycle rs)"
    by (simp add: ok_chain_iff [OF assms] T)
  assume "chain_walk cr jl 0 rs (new_verifier keys io) = Inr v"
  then obtain w where w: "chain_step cr jl 0 r (new_verifier keys io) = Inr w" "chain_walk cr jl (length [r]) rs' w = Inr v"
    by (auto simp: rs)
  from walk_keeps_inv [OF first(2) [OF w(1)] w(2)] have "walk_inv cr jl T io (rev rs) v" by (simp add: rs)
  moreover have "hd (rev rs) = last rs" using assms by (simp add: hd_rev)
  ultimately show "ReceiptHash cr jl (last rs) = Some (cv_prevHash v) \<and> (\<exists>s. cv_curSeg v = Some s)" by (auto simp: walk_inv_def)
qed

text \<open>A walk that stops reports an invalid chain.\<close>

lemma broken_invalid [simp]:
  "\<not> cres_valid (brokenAtKind v r m k)" "\<not> cres_valid (brokenAt v r m)" "\<not> cres_valid (untrusted v r)"
  by (simp_all add: brokenAt_def brokenAtKind_def untrusted_def zero_result_def)

lemma segment_Inl:
  "validateBoundGenesisOpen cr v r = Inl e \<Longrightarrow> \<not> cres_valid e" "validateRestartOpen v r o' ph ps = Inl e \<Longrightarrow> \<not> cres_valid e"
  "startFirstSegment cr r v = Inl e \<Longrightarrow> \<not> cres_valid e" "startRotatedSegment r m v = Inl e \<Longrightarrow> \<not> cres_valid e"
  "checkContinuation r v = Inl e \<Longrightarrow> \<not> cres_valid e" "verifyReceiptIntegrity cr jl r i v = Inl e \<Longrightarrow> \<not> cres_valid e"
  "advanceReceiptHash cr jl r v = Inl e \<Longrightarrow> \<not> cres_valid e"
proof -
  show bound: "validateBoundGenesisOpen cr v r = Inl e \<Longrightarrow> \<not> cres_valid e" for v
    by (auto simp: validateBoundGenesisOpen_def Let_def split: option.splits if_splits)
  show restart: "validateRestartOpen v r o' ph ps = Inl e \<Longrightarrow> \<not> cres_valid e" for o' ph ps
    by (auto simp: validateRestartOpen_def split: if_splits)
  show "startFirstSegment cr r v = Inl e \<Longrightarrow> \<not> cres_valid e"
    using bound by (auto simp: startFirstSegment_def Let_def split: if_splits sum.splits)
  show "startRotatedSegment r m v = Inl e \<Longrightarrow> \<not> cres_valid e"
    using restart by (auto simp: startRotatedSegment_def split: if_splits sum.splits option.splits)
  show "checkContinuation r v = Inl e \<Longrightarrow> \<not> cres_valid e"
    using restart by (auto simp: checkContinuation_def split: if_splits sum.splits option.splits)
  show "verifyReceiptIntegrity cr jl r i v = Inl e \<Longrightarrow> \<not> cres_valid e"
    by (auto simp: verifyReceiptIntegrity_def Let_def split: if_splits)
  show "advanceReceiptHash cr jl r v = Inl e \<Longrightarrow> \<not> cres_valid e"
    by (auto simp: advanceReceiptHash_def split: option.splits)
qed

lemma control_Inl: "validateSessionControl r v = Inl e \<Longrightarrow> \<not> cres_valid e"
proof -
  have "control_shape v r = Inl e \<Longrightarrow> \<not> cres_valid e"
    by (auto simp: control_shape_def guard_def split: option.splits if_splits)
  moreover have "heartbeat_check v r x b = Inl e \<Longrightarrow> \<not> cres_valid e" for x b
    by (auto simp: heartbeat_check_def Let_def split: if_splits)
  moreover have "close_check v r x c = Inl e \<Longrightarrow> \<not> cres_valid e" for x c
    by (auto simp: close_check_def Let_def split: if_splits)
  ultimately show "validateSessionControl r v = Inl e \<Longrightarrow> \<not> cres_valid e"
    by (auto simp: validateSessionControl_def Let_def split: option.splits if_splits sum.splits)
qed

lemma and_then_Inl: "and_then x f = Inl e \<longleftrightarrow> x = Inl e \<or> (\<exists>a. x = Inr a \<and> f a = Inl e)"
  by (auto simp: and_then_def split: sum.splits)

lemma walk_Inl: "chain_walk cr jl i rs v = Inl e \<Longrightarrow> \<not> cres_valid e"
proof (induction rs arbitrary: i v)
  case (Cons r rs)
  have "chain_step cr jl i r v = Inl e \<Longrightarrow> \<not> cres_valid e"
    by (auto simp: chain_step_def Let_def and_then_Inl split: if_splits option.splits dest: segment_Inl control_Inl)
  with Cons show ?case by (auto simp: and_then_Inl)
qed simp

lemma verify_valid_iff:
  assumes "rs \<noteq> []" "normalizeTrustedKeys keys = Some ks"
  shows "cres_valid (verifyChainTrusted cr jl rs keys io) \<longleftrightarrow> chain_integrity cr jl (anchors ks rs) rs \<and> (io \<or> chain_lifecycle rs)"
proof -
  have "cres_valid (chain_run cr jl rs w) \<longleftrightarrow> (\<exists>v. chain_walk cr jl 0 rs w = Inr v)" for w
    using walk_Inl by (cases "chain_walk cr jl 0 rs w") (auto simp: chain_run_def Let_def zero_result_def)
  with assms chain_walk_new(1) [OF assms(1)] show ?thesis by (simp add: verifyChainTrusted_def)
qed

lemma verify_valid_result:
  assumes "rs \<noteq> []" and v: "cres_valid (verifyChainTrusted cr jl rs keys io)"
  shows "cres_failureKind (verifyChainTrusted cr jl rs keys io) = FailNone"
    "ReceiptHash cr jl (last rs) = Some (cres_rootHash (verifyChainTrusted cr jl rs keys io))"
    "cres_finalSeq (verifyChainTrusted cr jl rs keys io) = rcpt_seq (last rs)"
    "cres_receiptCount (verifyChainTrusted cr jl rs keys io) = of_nat (length rs)"
proof -
  from v assms(1) obtain ks where ks: "normalizeTrustedKeys keys = Some ks"
    by (auto simp: verifyChainTrusted_def zero_result_def split: option.splits)
  have run: "verifyChainTrusted cr jl rs keys io = chain_run cr jl rs (new_verifier ks io)"
    using assms(1) ks by (simp add: verifyChainTrusted_def)
  from v obtain w where w: "chain_walk cr jl 0 rs (new_verifier ks io) = Inr w"
    using walk_Inl unfolding run by (cases "chain_walk cr jl 0 rs (new_verifier ks io)") (auto simp: chain_run_def)
  from chain_walk_new(2) [OF assms(1) w] have "ReceiptHash cr jl (last rs) = Some (cv_prevHash (closeSegment w))"
    by (auto simp: closeSegment_def split: option.splits)
  with w show "cres_failureKind (verifyChainTrusted cr jl rs keys io) = FailNone"
    "ReceiptHash cr jl (last rs) = Some (cres_rootHash (verifyChainTrusted cr jl rs keys io))"
    "cres_finalSeq (verifyChainTrusted cr jl rs keys io) = rcpt_seq (last rs)"
    "cres_receiptCount (verifyChainTrusted cr jl rs keys io) = of_nat (length rs)"
    by (simp_all add: run chain_run_def zero_result_def Let_def)
qed

lemma VerifyChainTrusted_valid_same:
  assumes "rs \<noteq> []" "cres_valid (VerifyChainTrusted cr jl rs keys)"
  shows "VerifyChainTrusted cr jl rs keys = verifyChainTrusted cr jl rs keys False"
    "cres_valid (verifyChainTrusted cr jl rs keys False)"
proof -
  let ?res = "verifyChainTrusted cr jl rs keys False"
  have "\<not> cres_valid ?res" if "cres_failureKind ?res = FailLifecycleOpen"
    using verify_valid_result(1) [OF assms(1), of cr jl keys False] that by auto
  with assms(2) show "VerifyChainTrusted cr jl rs keys = ?res" "cres_valid ?res"
    by (auto simp: VerifyChainTrusted_def Let_def split: if_splits)
qed

lemma VerifyChainTrusted_valid:
  assumes "rs \<noteq> []" "normalizeTrustedKeys keys = Some ks"
  shows "cres_valid (VerifyChainTrusted cr jl rs keys) \<longleftrightarrow> chain_integrity cr jl (anchors ks rs) rs \<and> chain_lifecycle rs"
proof
  assume "cres_valid (VerifyChainTrusted cr jl rs keys)"
  with VerifyChainTrusted_valid_same(2) [OF assms(1)] verify_valid_iff [OF assms, of cr jl False]
  show "chain_integrity cr jl (anchors ks rs) rs \<and> chain_lifecycle rs" by simp
next
  assume "chain_integrity cr jl (anchors ks rs) rs \<and> chain_lifecycle rs"
  then have v: "cres_valid (verifyChainTrusted cr jl rs keys False)" using verify_valid_iff [OF assms, of cr jl False] by simp
  with verify_valid_result(1) [OF assms(1) v] show "cres_valid (VerifyChainTrusted cr jl rs keys)"
    by (simp add: VerifyChainTrusted_def)
qed

end
