(* ===== verification/ReceiptTamper.thy ===== *)
theory ReceiptTamper
  imports ReceiptSpec Interfaces
begin

text \<open>
  What a valid receipt chain proves: its root hash commits to every receipt, every receipt was signed by
  a trusted key, and its sessions open once and end with their close.
\<close>

section \<open>Hex digits\<close>

lemma hex_roundtrip: "hex_DecodeString (hex_EncodeToString s) = Some s"
proof (induction s)
  case (Cons c s)
  have "(of_char c :: nat) div 16 < 16" using nat_of_char_less_256 [of c] by (simp add: div_less_iff_less_mult)
  then have "digit_val 16 (digit_char (of_char c div 16)) = Some (of_char c div 16)"
      "digit_val 16 (digit_char (of_char c mod 16)) = Some (of_char c mod 16)"
    by (simp_all add: digit_val_char)
  with Cons show ?case by (simp add: hex_EncodeToString_def hex_byte_def mult.commute)
qed (simp add: hex_EncodeToString_def)

lemma hex_inj: "hex_EncodeToString s = hex_EncodeToString t \<Longrightarrow> s = t"
  by (metis hex_roundtrip option.inject)

lemma digit_like_bare: "digit_like c \<Longrightarrow> bare_char c"
proof -
  assume c: "digit_like c"
  then have "c \<noteq> CHR 0x22 \<and> c \<noteq> CHR 0x5C \<and> c \<noteq> CHR ''<'' \<and> c \<noteq> CHR ''>'' \<and> c \<noteq> CHR ''&''" by (auto simp: digit_like_def)
  with c show "bare_char c" by (simp add: bare_char_def esc_byte_def digit_like_def Let_def) arith
qed

lemma esc_hex [simp]: "esc (hex_EncodeToString s) = hex_EncodeToString s"
  by (rule esc_bare) (simp add: list_all_iff digit_like_bare hex_byte_set)

section \<open>The root hash\<close>

definition genesis_text :: "string \<Rightarrow> bool" where
  "genesis_text h \<longleftrightarrow> h = ''genesis'' \<or> has_prefix h ''g1:''"

interpretation rcpt_chain: hash_chain "\<lambda>r. Marshal jl r \<noteq> None" "\<lambda>r. the (Marshal jl r)"
    "\<lambda>d. hex_EncodeToString (cr_sha256 cr d)" "\<lambda>r. esc (rcpt_prev r)" genesis_text
  for cr :: crypto and jl :: json_lib
proof
  fix r r'
  assume "Marshal jl r \<noteq> None" "Marshal jl r' \<noteq> None" "the (Marshal jl r) = the (Marshal jl r')"
  then show "esc (rcpt_prev r) = esc (rcpt_prev r')" by (auto intro: Marshal_prev)
next
  fix r
  assume "Marshal jl r \<noteq> None"
  then have "ReceiptHash cr jl r = Some (hex_EncodeToString (cr_sha256 cr (the (Marshal jl r))))" by (auto simp: ReceiptHash_def)
  from hash_not_genesis [OF this] show "\<not> genesis_text (hex_EncodeToString (cr_sha256 cr (the (Marshal jl r))))"
    by (simp add: genesis_text_def)
qed

lemma integrity_chained:
  assumes "chain_integrity cr jl T rs"
  shows "chained (\<lambda>r. esc (rcpt_prev r)) (\<lambda>r. hex_EncodeToString (cr_sha256 cr (the (Marshal jl r)))) genesis_text rs"
    "list_all (\<lambda>r. Marshal jl r \<noteq> None) rs"
proof -
  from assms have ne: "rs \<noteq> []" and g: "genesis_ok cr (hd rs)" and l: "successively (linked cr jl T) rs"
    and a: "list_all (authentic cr jl) rs" by (auto simp: chain_integrity_def)
  have "esc (rcpt_prev r') = hex_EncodeToString (cr_sha256 cr (the (Marshal jl r)))" if "linked cr jl T r r'" for r r'
    using that by (auto simp: linked_def ReceiptHash_def dest!: sym [of _ "rcpt_prev r'"])
  with l have "successively (\<lambda>r r'. esc (rcpt_prev r') = hex_EncodeToString (cr_sha256 cr (the (Marshal jl r)))) rs"
    by (rule successively_mono)
  moreover have "genesis_text (esc (rcpt_prev (hd rs)))"
    using g by (auto simp: esc_byte_def genesis_ok_def genesis_text_def bound_genesis_def ComputeSessionOpenGenesis_def genesisSessionOpenPrefix_def has_prefix_iff split: if_splits)
  ultimately show "chained (\<lambda>r. esc (rcpt_prev r)) (\<lambda>r. hex_EncodeToString (cr_sha256 cr (the (Marshal jl r)))) genesis_text rs"
    using ne by (simp add: chained_def)
  show "list_all (\<lambda>r. Marshal jl r \<noteq> None) rs" using a by (auto simp: list_all_iff authentic_def ReceiptHash_def)
qed

lemma valid_chain_facts:
  assumes "rs \<noteq> []" "cres_valid (VerifyChainTrusted cr jl rs keys)"
  obtains ks where "normalizeTrustedKeys keys = Some ks" "chain_integrity cr jl (anchors ks rs) rs" "chain_lifecycle rs"
    "ReceiptHash cr jl (last rs) = Some (cres_rootHash (VerifyChainTrusted cr jl rs keys))"
    "cres_receiptCount (VerifyChainTrusted cr jl rs keys) = of_nat (length rs)"
    "cres_finalSeq (VerifyChainTrusted cr jl rs keys) = rcpt_seq (last rs)"
proof -
  note same = VerifyChainTrusted_valid_same [OF assms]
  from same(2) assms(1) obtain ks where ks: "normalizeTrustedKeys keys = Some ks"
    by (auto simp: verifyChainTrusted_def zero_result_def split: option.splits)
  with assms VerifyChainTrusted_valid [OF assms(1) ks] verify_valid_result [OF assms(1) same(2)] same(1) that
  show ?thesis by metis
qed

text \<open>
  C2. The root hash of a valid chain commits to the whole chain. Two chains the verifier accepts, against
  whatever trusted keys, with the same root hash have the same receipts in the same order, byte for byte:
  nothing can be changed, reordered, inserted, or dropped from the beginning without changing the root.
  SHA-256 is assumed to have no collision among the texts of the two chains' receipts.
\<close>

theorem root_hash_commits:
  assumes "rs \<noteq> []" "rs' \<noteq> []"
    and "cres_valid (VerifyChainTrusted cr jl rs keys)" "cres_valid (VerifyChainTrusted cr jl rs' keys')"
    and root: "cres_rootHash (VerifyChainTrusted cr jl rs keys) = cres_rootHash (VerifyChainTrusted cr jl rs' keys')"
    and inj: "inj_on (cr_sha256 cr) ((\<lambda>r. the (Marshal jl r)) ` (set rs \<union> set rs'))"
  shows "map (Marshal jl) rs = map (Marshal jl) rs'"
proof -
  from valid_chain_facts [OF assms(1,3)] obtain T where T: "chain_integrity cr jl T rs"
    "ReceiptHash cr jl (last rs) = Some (cres_rootHash (VerifyChainTrusted cr jl rs keys))" by metis
  from valid_chain_facts [OF assms(2,4)] obtain T' where T': "chain_integrity cr jl T' rs'"
    "ReceiptHash cr jl (last rs') = Some (cres_rootHash (VerifyChainTrusted cr jl rs' keys'))" by metis
  note c = integrity_chained [OF T(1)] and c' = integrity_chained [OF T'(1)]
  have "inj_on (\<lambda>d. hex_EncodeToString (cr_sha256 cr d)) ((\<lambda>r. the (Marshal jl r)) ` (set rs \<union> set rs'))"
    using inj hex_inj by (auto simp: inj_on_def)
  moreover have "hex_EncodeToString (cr_sha256 cr (the (Marshal jl (last rs)))) = hex_EncodeToString (cr_sha256 cr (the (Marshal jl (last rs'))))"
    using T(2) T'(2) root by (auto simp: ReceiptHash_def)
  ultimately have eq: "map (\<lambda>r. the (Marshal jl r)) rs = map (\<lambda>r. the (Marshal jl r)) rs'"
    by (rule rcpt_chain.commits [OF c(1) c'(1) c(2) c'(2)])
  have "map (Marshal jl) xs = map Some (map (\<lambda>r. the (Marshal jl r)) xs)" if "list_all (\<lambda>r. Marshal jl r \<noteq> None) xs" for xs
    using that by (induction xs) auto
  with eq c(2) c'(2) show ?thesis by metis
qed

section \<open>Signatures\<close>

lemma VerifyWithKey_signed:
  assumes "VerifyWithKey cr jl r key = None"
  obtains pub sig d where "hex_DecodeString key = Some pub" "length pub = 32" "rcpt_signerKey r = key"
    "hex_DecodeString (drop 8 (rcpt_signature r)) = Some sig" "canonicalActionRecordV1 jl (rcpt_actionRecord r) = Some d"
    "cr_verify cr pub (cr_sha256 cr d) sig" "Validate (rcpt_actionRecord r) = None"
  using assms by (auto simp: VerifyWithKey_def canonicalActionRecord_def split: option.splits if_splits)

lemma integrity_keys_trusted: "chain_integrity cr jl T rs \<Longrightarrow> r \<in> set rs \<Longrightarrow> rcpt_signerKey r \<in> T"
proof -
  have "successively (linked cr jl T) xs \<Longrightarrow> rcpt_signerKey (hd xs) \<in> T \<Longrightarrow> r \<in> set xs \<Longrightarrow> rcpt_signerKey r \<in> T" for xs r
  proof (induction xs)
    case (Cons x xs)
    show ?case
    proof (cases xs)
      case Nil
      with Cons show ?thesis by simp
    next
      case (Cons y ys)
      with Cons.prems have "linked cr jl T x y" "successively (linked cr jl T) xs" by simp_all
      then have "rcpt_signerKey (hd xs) \<in> T" using Cons.prems(2) Cons by (auto simp: linked_def split: option.splits)
      with Cons.IH Cons.prems \<open>successively (linked cr jl T) xs\<close> show ?thesis by auto
    qed
  qed simp
  then show "chain_integrity cr jl T rs \<Longrightarrow> r \<in> set rs \<Longrightarrow> rcpt_signerKey r \<in> T" by (auto simp: chain_integrity_def)
qed

text \<open>
  Every receipt of a chain that verifies against a non-empty trusted set was signed by a trusted key.
  Its signer key is in the set, its action record is valid, and the digest of its canonical text was
  signed with that key, provided the signatures the chain carries cannot be forged.
\<close>

theorem trusted_chain_authentic:
  assumes "rs \<noteq> []" "cres_valid (VerifyChainTrusted cr jl rs keys)" "normalizeTrustedKeys keys = Some ks" "ks \<noteq> []"
    and "unforgeable cr known signed_by" "list_all (\<lambda>r. \<forall>s. hex_DecodeString (drop 8 (rcpt_signature r)) = Some s \<longrightarrow> s \<in> known) rs"
  shows "list_all (\<lambda>r. rcpt_signerKey r \<in> set ks \<and> Validate (rcpt_actionRecord r) = None \<and>
    (\<exists>pub d. hex_DecodeString (rcpt_signerKey r) = Some pub \<and> canonicalActionRecordV1 jl (rcpt_actionRecord r) = Some d \<and>
       cr_sha256 cr d \<in> signed_by pub)) rs"
proof -
  from valid_chain_facts [OF assms(1,2)] assms(3) have "chain_integrity cr jl (anchors ks rs) rs" by (metis option.inject)
  then have c: "chain_integrity cr jl (set ks) rs" using assms(4) by (simp add: anchors_def)
  show ?thesis unfolding list_all_iff
  proof
    fix r
    assume r: "r \<in> set rs"
    then have "VerifyWithKey cr jl r (rcpt_signerKey r) = None" using c by (auto simp: chain_integrity_def list_all_iff authentic_def)
    then obtain pub sig d where v: "hex_DecodeString (rcpt_signerKey r) = Some pub" "hex_DecodeString (drop 8 (rcpt_signature r)) = Some sig"
        "canonicalActionRecordV1 jl (rcpt_actionRecord r) = Some d" "cr_verify cr pub (cr_sha256 cr d) sig" "Validate (rcpt_actionRecord r) = None"
      by (rule VerifyWithKey_signed)
    have "sig \<in> known" using assms(6) r v(2) by (auto simp: list_all_iff)
    with assms(5) v(4) have "cr_sha256 cr d \<in> signed_by pub" by (auto simp: unforgeable_def)
    with v integrity_keys_trusted [OF c r]
    show "rcpt_signerKey r \<in> set ks \<and> Validate (rcpt_actionRecord r) = None \<and>
      (\<exists>pub d. hex_DecodeString (rcpt_signerKey r) = Some pub \<and> canonicalActionRecordV1 jl (rcpt_actionRecord r) = Some d \<and>
         cr_sha256 cr d \<in> signed_by pub)" by auto
  qed
qed

section \<open>Sessions\<close>

fun sessions_ok :: "receipt list \<Rightarrow> bool" where
  "sessions_ok [] = True"
| "sessions_ok (r # h) = (lifecycle_ok h r \<and> sessions_ok h)"

lemma chain_lifecycle_sessions: "chain_lifecycle rs \<Longrightarrow> sessions_ok (rev rs)"
proof (induction rs rule: rev_induct)
  case (snoc r rs)
  then have "chain_lifecycle rs" "lifecycle_ok (rev rs) r"
    by (auto simp: chain_lifecycle_def nth_append less_Suc_eq dest: spec [of _ "length rs"])
  with snoc show ?case by simp
qed simp

lemma sessions_ok_take: "chain_lifecycle rs \<Longrightarrow> i < length rs \<Longrightarrow> sessions_ok (rev (take i rs)) \<and> lifecycle_ok (rev (take i rs)) (rs ! i)"
proof
  assume c: "chain_lifecycle rs" and i: "i < length rs"
  then show "lifecycle_ok (rev (take i rs)) (rs ! i)" by (simp add: chain_lifecycle_def)
  have "chain_lifecycle (take i rs)" using c i by (simp add: chain_lifecycle_def min_def)
  then show "sessions_ok (rev (take i rs))" by (rule chain_lifecycle_sessions)
qed

lemma closed_is_opened: "sessions_ok h \<Longrightarrow> run_closed h n \<Longrightarrow> run_opens h n \<noteq> None"
proof (induction h)
  case (Cons r h)
  show ?case
  proof (cases "rcpt_open r")
    case None
    with Cons show ?thesis by (auto simp: lifecycle_ok_def sessionClose_def split: if_splits option.splits)
  next
    case (Some o')
    with Cons show ?thesis by (auto split: if_splits)
  qed
qed simp

lemma run_opens_iff: "run_opens h n \<noteq> None \<longleftrightarrow> (\<exists>r \<in> set h. rcpt_open r \<noteq> None \<and> nonce r = n)"
  by (induction h) (auto split: option.splits)

lemma run_closed_iff: "sessions_ok h \<Longrightarrow> run_closed h n \<longleftrightarrow> (\<exists>r \<in> set h. sessionClose (ctrl r) \<noteq> None \<and> nonce r = n)"
proof (induction h)
  case (Cons r h)
  show ?case
  proof (cases "rcpt_open r")
    case None
    with Cons show ?thesis by (auto split: if_splits)
  next
    case (Some o')
    then have "sessionClose (ctrl r) = None" by (auto simp: sessionOpen_def sessionClose_def nonce_run split: option.splits if_splits)
    moreover have "\<not> run_closed h (nonce r)"
      using Cons.prems Some closed_is_opened [of h "nonce r"]
      by (auto simp: lifecycle_ok_def sessionOpen_def nonce_run split: if_splits)
    ultimately show ?thesis using Cons Some by auto
  qed
qed simp

lemma nonce_opened:
  assumes "lifecycle_ok h r" "nonce r = n" "n \<noteq> []"
  shows "rcpt_open r \<noteq> None \<and> run_opens h n = None \<or> rcpt_open r = None \<and> run_opens h n \<noteq> None \<and> \<not> run_closed h n"
  using assms by (auto simp: lifecycle_ok_def split: option.splits)

lemma earlier_opened: "sessions_ok h \<Longrightarrow> r \<in> set h \<Longrightarrow> nonce r \<noteq> [] \<Longrightarrow> run_opens h (nonce r) \<noteq> None"
  by (induction h) (auto dest: nonce_opened split: option.splits)

text \<open>
  C20. Sessions of a valid chain are well formed. A receipt that names a run comes after, or is, the
  session_open of that run; a session_open is the first receipt of its run; and after the session_close
  of a run no receipt names it again. A session_close seals the exact tail: it states the hash of the
  receipt before it, its own sequence number and the number of receipts of its segment.
\<close>

theorem chain_sessions_sealed:
  assumes "rs \<noteq> []" "cres_valid (VerifyChainTrusted cr jl rs keys)" "i < length rs" "nonce (rs ! i) \<noteq> []"
  shows "(\<exists>j \<le> i. rcpt_open (rs ! j) \<noteq> None \<and> nonce (rs ! j) = nonce (rs ! i)) \<and>
    (\<forall>j < i. rcpt_open (rs ! i) \<noteq> None \<or> sessionClose (ctrl (rs ! j)) \<noteq> None \<longrightarrow> nonce (rs ! j) \<noteq> nonce (rs ! i)) \<and>
    (\<forall>c. sessionClose (ctrl (rs ! i)) = Some c \<longrightarrow> 0 < i \<and> ReceiptHash cr jl (rs ! (i - 1)) = Some (sc_rootHash c) \<and>
      sc_finalSeq c = rcpt_seq (rs ! i) \<and> sc_receiptCount c = of_nat (segment_length (rev (take (Suc i) rs))))"
proof (intro conjI allI impI)
  let ?h = "rev (take i rs)" and ?n = "nonce (rs ! i)"
  from valid_chain_facts [OF assms(1,2)] obtain T where c: "chain_integrity cr jl T rs" "chain_lifecycle rs" by metis
  note ok = sessions_ok_take [OF c(2) assms(3)]
  have mem: "r \<in> set ?h \<longleftrightarrow> (\<exists>j < i. r = rs ! j)" for r using assms(3) by (auto simp: in_set_conv_nth)
  note n = nonce_opened [OF conjunct2 [OF ok] refl assms(4)]
  show "\<exists>j \<le> i. rcpt_open (rs ! j) \<noteq> None \<and> nonce (rs ! j) = ?n"
    using n run_opens_iff [of ?h ?n] mem by (metis le_refl less_imp_le_nat)
  show "nonce (rs ! j) \<noteq> ?n" if "j < i" and or: "rcpt_open (rs ! i) \<noteq> None \<or> sessionClose (ctrl (rs ! j)) \<noteq> None" for j
  proof
    assume same: "nonce (rs ! j) = ?n"
    have j: "rs ! j \<in> set ?h" using mem \<open>j < i\<close> by blast
    from earlier_opened [OF _ j] ok assms(4) same have opened: "run_opens ?h ?n \<noteq> None" by simp
    with n or have "sessionClose (ctrl (rs ! j)) \<noteq> None" "\<not> run_closed ?h ?n" by auto
    with run_closed_iff [of ?h ?n] ok j same show False by auto
  qed
  fix c
  assume close: "sessionClose (ctrl (rs ! i)) = Some c"
  then have "rcpt_open (rs ! i) = None" by (auto simp: sessionOpen_def sessionClose_def nonce_run split: option.splits if_splits)
  with close ok assms(4) have cl: "close_ok ?h (rs ! i) c" by (auto simp: lifecycle_ok_def)
  with assms(4) show pos: "0 < i" by (cases i) (auto simp: close_ok_def)
  then have "linked cr jl T (rs ! (i - 1)) (rs ! i)"
    using c(1) assms(3) successively_nth [of "linked cr jl T" rs "i - 1"] by (auto simp: chain_integrity_def)
  with cl show "ReceiptHash cr jl (rs ! (i - 1)) = Some (sc_rootHash c)" by (simp add: close_ok_def linked_def)
  from cl show "sc_finalSeq c = rcpt_seq (rs ! i)" by (simp add: close_ok_def)
  from cl assms(3) show "sc_receiptCount c = of_nat (segment_length (rev (take (Suc i) rs)))"
    by (simp add: close_ok_def take_Suc_conv_app_nth)
qed

section \<open>What is accepted\<close>

text \<open>
  C4. The verifier decides exactly the declarative meaning of a valid chain. \<^verbatim>\<open>VerifyChainTrusted\<close> accepts
  a chain if and only if it begins at a genesis under a trusted key, every receipt is authentic and
  linked to the one before it by hash, number and key (or a key transition that names the tail), and its
  sessions are well formed; \<^verbatim>\<open>VerifyChainIntegrityTrusted\<close> decides the same without the sessions. Which
  receipts the walk has seen is all that its state remembers.
\<close>

theorem verifier_accepts_exactly:
  assumes "rs \<noteq> []" "normalizeTrustedKeys keys = Some ks"
  shows "(cres_valid (VerifyChainTrusted cr jl rs keys) \<longleftrightarrow> chain_integrity cr jl (anchors ks rs) rs \<and> chain_lifecycle rs) \<and>
    (cres_valid (VerifyChainIntegrityTrusted cr jl rs keys) \<longleftrightarrow> chain_integrity cr jl (anchors ks rs) rs)"
  using VerifyChainTrusted_valid [OF assms] verify_valid_iff [OF assms, of cr jl True] by (simp add: VerifyChainIntegrityTrusted_def)

lemma chain_integrity_take: "chain_integrity cr jl T rs \<Longrightarrow> 0 < n \<Longrightarrow> chain_integrity cr jl T (take n rs)"
proof -
  assume c: "chain_integrity cr jl T rs" and n: "0 < n"
  have "successively P (take n xs)" if "successively P xs" for P :: "receipt \<Rightarrow> receipt \<Rightarrow> bool" and xs
    using that by (metis append_take_drop_id successively_append_iff)
  moreover have "list_all P (take n xs)" if "list_all P xs" for P :: "receipt \<Rightarrow> bool" and xs
    using that by (auto simp: list_all_iff dest: in_set_takeD)
  ultimately show ?thesis using c n by (simp add: chain_integrity_def)
qed

lemma chain_lifecycle_take: "chain_lifecycle rs \<Longrightarrow> chain_lifecycle (take n rs)"
  by (simp add: chain_lifecycle_def min_def)

text \<open>
  Cutting the tail off goes unnoticed. Every non-empty beginning of a chain the verifier accepts is
  accepted too: nothing in the receipts says that more were to follow, so a truncated chain is reported
  valid unless its root hash is compared with one kept elsewhere.
\<close>

theorem truncated_tail_verifies:
  assumes "cres_valid (VerifyChainTrusted cr jl rs keys)" "rs \<noteq> []" "0 < n"
  shows "cres_valid (VerifyChainTrusted cr jl (take n rs) keys)"
proof -
  from valid_chain_facts [OF assms(2,1)] obtain ks where ks: "normalizeTrustedKeys keys = Some ks"
    and c: "chain_integrity cr jl (anchors ks rs) rs" "chain_lifecycle rs" by metis
  have ne: "take n rs \<noteq> []" using assms(2,3) by simp
  have "anchors ks (take n rs) = anchors ks rs" using assms(3) by (simp add: anchors_def)
  with VerifyChainTrusted_valid [OF ne ks] chain_integrity_take [OF c(1) assms(3)] chain_lifecycle_take [OF c(2)]
  show ?thesis by simp
qed

end
