(* ===== verification/ReceiptEmitter.thy ===== *)
theory ReceiptEmitter
  imports ReceiptSanitize ReceiptTamper
begin

text \<open>
  The emitter of receipts (\<^verbatim>\<open>internal/receipt/emitter.go\<close>): it stamps, signs, hashes and records a receipt
  per decision under one lock, so a call is one step. What a call gets from outside is its environment
  \<open>emit_env\<close>: the clock, the recorder's DLP scan and fsync-error count, and the outcome of the write.
  Before it writes, the recorder scans the signed receipt once more; when the scan finds something it stores a redacted
  entry instead (\<open>redactReceiptDetail\<close>), from which a reader gets \<open>ee_redacted\<close>, about which nothing is assumed.
  A write that fails may have left the receipt on disk (a failed checkpoint, rotation or sync comes after the
  bytes); \<open>RecFail\<close> says whether it did, as \<^verbatim>\<open>receiptHashRecorded\<close> reads it back, and whether the error is the
  durability error. The evidence on disk is the list of receipts in file order. Metrics are the list of
  failure reasons; the receipt observer is left out.
\<close>

section \<open>State\<close>

record emit_opts =
  eo_actionID :: string
  eo_parentActionID :: string
  eo_verdict :: string
  eo_layer :: string
  eo_pattern :: string
  eo_severity :: string
  eo_redactionProfile :: string
  eo_redactionReport :: "redaction_summary option"
  eo_shield :: "shield_summary option"
  eo_transport :: string
  eo_method :: string
  eo_target :: string
  eo_requestID :: string
  eo_agent :: string
  eo_sessionTaintLevel :: string
  eo_sessionContaminated :: bool
  eo_recentTaintSources :: "taint_source list"
  eo_sessionTaskID :: string
  eo_sessionTaskLabel :: string
  eo_authorityKind :: string
  eo_taintDecision :: string
  eo_taintDecisionReason :: string
  eo_taskOverrideApplied :: bool
  eo_contractWinningSource :: string
  eo_contractLiveVerdict :: string
  eo_contractPolicySources :: "string list"
  eo_contractRuleID :: string
  eo_activeManifestHash :: string
  eo_contractHash :: string
  eo_contractSelectorID :: string
  eo_contractGeneration :: "64 word"
  eo_policyHash :: string
  eo_decisionPhase :: string
  eo_deferID :: string
  eo_resolutionPolicy :: string
  eo_resolutionSource :: string
  eo_sessionID :: string
  eo_sessionIDOriginal :: string
  eo_toolName :: string
  eo_mcpMethod :: string
  eo_sessionControl :: "session_control option"

definition zero_opts :: emit_opts where
  "zero_opts = \<lparr>eo_actionID = [], eo_parentActionID = [], eo_verdict = [], eo_layer = [], eo_pattern = [], eo_severity = [],
     eo_redactionProfile = [], eo_redactionReport = None, eo_shield = None, eo_transport = [], eo_method = [], eo_target = [],
     eo_requestID = [], eo_agent = [], eo_sessionTaintLevel = [], eo_sessionContaminated = False, eo_recentTaintSources = [],
     eo_sessionTaskID = [], eo_sessionTaskLabel = [], eo_authorityKind = [], eo_taintDecision = [], eo_taintDecisionReason = [],
     eo_taskOverrideApplied = False, eo_contractWinningSource = [], eo_contractLiveVerdict = [], eo_contractPolicySources = [],
     eo_contractRuleID = [], eo_activeManifestHash = [], eo_contractHash = [], eo_contractSelectorID = [], eo_contractGeneration = 0,
     eo_policyHash = [], eo_decisionPhase = [], eo_deferID = [], eo_resolutionPolicy = [], eo_resolutionSource = [],
     eo_sessionID = [], eo_sessionIDOriginal = [], eo_toolName = [], eo_mcpMethod = [], eo_sessionControl = None\<rparr>"

record posture_binding =
  pb_capsuleSHA256 :: string
  pb_signerKeyID :: string
  pb_containmentNonce :: string
  pb_containedUID :: string

datatype emit_error =
    ErrResume | ErrUnhealthy | ErrChainSealed | ErrSessionOpenAlreadyEmitted | ErrPolicyHash | ErrSign receipt_error
  | ErrHash | ErrRecord bool | ErrRootAlreadyEmitted | ErrNonce

record emitter =
  em_privKey :: string
  em_configHash :: string
  em_principal :: string
  em_actor :: string
  em_initErr :: bool
  em_healthErr :: bool
  em_runNonce :: string
  em_chainSeq :: "64 word"
  em_chainPrevHash :: string
  em_chainStart :: timestamp
  em_chainEnd :: timestamp
  em_rootEmitted :: bool
  em_closeEmitted :: bool
  em_closeErr :: "emit_error option"
  em_openErr :: "emit_error option"
  em_openNonce :: string
  em_heartbeatBeat :: "64 word"
  em_lastHeartbeat :: timestamp
  em_heartbeatSeconds :: int
  em_postureBinding :: posture_binding
  em_pendingTransition :: "key_transition option"
  em_hasPriorTail :: bool
  em_priorTailSeq :: "64 word"
  em_priorTailHash :: string
  em_sessionOpenEmitted :: bool
  em_durabilityBlocks :: "64 word"
  em_failures :: "string list"

datatype record_outcome = RecOk | RecFail bool bool

record emit_env =
  ee_now :: timestamp
  ee_heartbeatTime :: string
  ee_fsyncErrors :: "64 word"
  ee_clean :: "(string \<Rightarrow> bool) option"
  ee_redacted :: "receipt \<Rightarrow> receipt"
  ee_outcome :: record_outcome

record go_libs =
  lb_crypto :: crypto
  lb_json :: json_lib
  lb_url :: url_lib

definition recordFailure :: "string \<Rightarrow> emitter \<Rightarrow> emitter" where
  "recordFailure reason e = e\<lparr>em_failures := em_failures e @ [reason]\<rparr>"

definition signer_hex :: "go_libs \<Rightarrow> emitter \<Rightarrow> string" where
  "signer_hex lb e = hex_EncodeToString (cr_public (lb_crypto lb) (em_privKey e))"

definition SignerKeyHex :: "go_libs \<Rightarrow> emitter option \<Rightarrow> string" where
  "SignerKeyHex lb eo = (case eo of None \<Rightarrow> [] | Some e \<Rightarrow> if length (em_privKey e) \<noteq> 64 then [] else signer_hex lb e)"

definition MarkUnhealthy :: "emitter \<Rightarrow> emitter" where
  "MarkUnhealthy e = e\<lparr>em_healthErr := True\<rparr>"

definition UpdateConfigHash :: "string \<Rightarrow> emitter \<Rightarrow> emitter" where
  "UpdateConfigHash h e = e\<lparr>em_configHash := h\<rparr>"

section \<open>Session control\<close>

definition isSessionOpenControl :: "session_control option \<Rightarrow> bool" where
  "isSessionOpenControl c \<longleftrightarrow> (case c of None \<Rightarrow> False | Some s \<Rightarrow> ct_kind s = ''session_open'' \<and> ct_open s \<noteq> None)"

definition isSessionCloseControl :: "session_control option \<Rightarrow> bool" where
  "isSessionCloseControl c \<longleftrightarrow> (case c of None \<Rightarrow> False | Some s \<Rightarrow> ct_kind s = ''session_close'' \<and> ct_close s \<noteq> None)"

definition control :: "string \<Rightarrow> session_open option \<Rightarrow> session_heartbeat option \<Rightarrow> session_close option \<Rightarrow> session_control" where
  "control k op hb cl = \<lparr>ct_kind = k, ct_open = op, ct_heartbeat = hb, ct_close = cl\<rparr>"

definition heartbeat_control :: "emit_env \<Rightarrow> emitter \<Rightarrow> session_control" where
  "heartbeat_control env e = control ''heartbeat'' None
     (Some \<lparr>sh_runNonce = em_runNonce e, sh_openNonce = em_openNonce e, sh_beat = em_heartbeatBeat e,
        sh_chainHead = em_chainPrevHash e, sh_chainSeqHead = PreviousChainSeq (em_chainSeq e), sh_heartbeatTime = ee_heartbeatTime env,
        sh_fsyncErrorsGated = ee_fsyncErrors env, sh_durabilityBlocks = em_durabilityBlocks e\<rparr>) None"

definition close_control :: "emit_env \<Rightarrow> emitter \<Rightarrow> string \<Rightarrow> session_control" where
  "close_control env e closeReason = control ''session_close'' None None
     (Some \<lparr>sc_runNonce = em_runNonce e, sc_openNonce = em_openNonce e, sc_finalSeq = em_chainSeq e, sc_rootHash = em_chainPrevHash e,
        sc_receiptCount = em_chainSeq e + 1, sc_closeReason = closeReason, sc_fsyncErrorsGated = ee_fsyncErrors env,
        sc_durabilityBlocks = em_durabilityBlocks e\<rparr>)"

definition stamp_open :: "go_libs \<Rightarrow> emitter \<Rightarrow> session_open \<Rightarrow> session_open" where
  "stamp_open lb e op = op\<lparr>so_runNonce := em_runNonce e, so_recorderSession := ''proxy'', so_policyHash := em_configHash e,
     so_signerKeyEpoch := signer_hex lb e, so_chainOpenSeq := em_chainSeq e\<rparr>"

definition prepareSessionControlLocked ::
  "go_libs \<Rightarrow> emit_env \<Rightarrow> session_control option \<Rightarrow> emitter \<Rightarrow> (emit_error + session_control option \<times> string) \<times> emitter" where
  "prepareSessionControlLocked lb env ctl e =
     (case ctl of None \<Rightarrow> (Inr (None, em_chainPrevHash e), e)
      | Some c \<Rightarrow>
          if ct_kind c = ''heartbeat'' then
            let e1 = e\<lparr>em_heartbeatBeat := em_heartbeatBeat e + 1\<rparr> in (Inr (Some (heartbeat_control env e1), em_chainPrevHash e1), e1)
          else if ct_kind c = ''session_close'' then
            (Inr (Some (close_control env e (case ct_close c of None \<Rightarrow> [] | Some cl \<Rightarrow> sc_closeReason cl)), em_chainPrevHash e), e)
          else case (if isSessionOpenControl ctl then ct_open c else None) of None \<Rightarrow> (Inr (Some c, em_chainPrevHash e), e)
          | Some op0 \<Rightarrow>
              if em_sessionOpenEmitted e then
                (case em_openErr e of Some er \<Rightarrow> (Inl er, e)
                 | None \<Rightarrow> (Inl ErrSessionOpenAlreadyEmitted, recordFailure ''record'' e))
              else let op = stamp_open lb e op0 in
                if em_hasPriorTail e then
                  (Inr (Some (c\<lparr>ct_open := Some (op\<lparr>so_priorChainHead := em_priorTailHash e, so_priorChainSeq := em_priorTailSeq e,
                     so_genesisHash := []\<rparr>)\<rparr>), em_chainPrevHash e), e)
                else if em_chainSeq e = 0 \<and> em_chainPrevHash e = GenesisHash then
                  let op1 = op\<lparr>so_genesisHash := []\<rparr>; genesis = ComputeSessionOpenGenesis (lb_crypto lb) op1 in
                  (Inr (Some (c\<lparr>ct_open := Some (op1\<lparr>so_genesisHash := genesis\<rparr>)\<rparr>), genesis), e)
                else (Inr (Some (c\<lparr>ct_open := Some op\<rparr>), em_chainPrevHash e), e))"

section \<open>Emission\<close>

definition normalizeCanonicalPolicyHash :: "string \<Rightarrow> string option" where
  "normalizeCanonicalPolicyHash v0 =
     (if v0 = [] then Some []
      else if TrimSpace v0 \<noteq> v0 then None
      else let v = (if has_prefix v0 ''sha256:'' then drop 7 v0 else v0) in
        if length v \<noteq> 64 then None else if list_all digit_like v then Some v else None)"

definition redactionSummaryFromReport :: "string \<Rightarrow> redaction_summary option \<Rightarrow> redaction_summary option" where
  "redactionSummaryFromReport profile rep =
     (case rep of None \<Rightarrow> None
      | Some r \<Rightarrow> if rs_totalRedactions r = 0 then None
          else Some \<lparr>rs_profile = profile, rs_provider = rs_provider r, rs_parser = rs_parser r, rs_totalRedactions = rs_totalRedactions r,
            rs_byClass = filter (\<lambda>(_, n). n > 0) (rs_byClass r), rs_cacheBoundaryKept = False\<rparr>)"

definition classifyAction :: "emit_opts \<Rightarrow> string" where
  "classifyAction o' = (if eo_mcpMethod o' \<noteq> [] then ClassifyMCPTool (eo_toolName o') (eo_mcpMethod o')
     else if eo_method o' \<noteq> [] then ClassifyHTTP (eo_method o') else ''unclassified'')"

definition actorLabel :: "emitter \<Rightarrow> emit_opts \<Rightarrow> string" where
  "actorLabel e o' = (if eo_agent o' \<noteq> [] then eo_agent o' else em_actor e)"

definition build_record :: "go_libs \<Rightarrow> emit_env \<Rightarrow> emit_opts \<Rightarrow> string \<Rightarrow> session_control option \<Rightarrow> string \<Rightarrow> emitter \<Rightarrow> action_record" where
  "build_record lb env o' policyHash ctl chainPrevHash e =
     \<lparr>ar_version = 1, ar_actionID = eo_actionID o', ar_parentActionID = eo_parentActionID o', ar_actionType = classifyAction o',
      ar_timestamp = ee_now env, ar_principal = em_principal e, ar_actor = actorLabel e o', ar_delegationChain = None,
      ar_target = sanitizeTarget (lb_url lb) (eo_target o') (ee_clean env), ar_intent = [], ar_dataClassesIn = [], ar_dataClassesOut = [],
      ar_sideEffectClass = (if eo_mcpMethod o' \<noteq> [] then sideEffectFromMCPAction (classifyAction o') else SideEffectFromMethod (eo_method o')),
      ar_reversibility = (if eo_mcpMethod o' \<noteq> [] then ''unknown'' else ReversibilityFromMethod (eo_method o')),
      ar_policyHash = policyHash, ar_verdict = NormalizeVerdict (eo_verdict o'), ar_decisionPhase = eo_decisionPhase o',
      ar_deferID = eo_deferID o', ar_resolutionPolicy = eo_resolutionPolicy o', ar_resolutionSource = eo_resolutionSource o',
      ar_sessionID = eo_sessionID o', ar_sessionIDOriginal = eo_sessionIDOriginal o', ar_sessionTaintLevel = eo_sessionTaintLevel o',
      ar_sessionContaminated = eo_sessionContaminated o', ar_recentTaintSources = eo_recentTaintSources o',
      ar_sessionTaskID = eo_sessionTaskID o', ar_sessionTaskLabel = eo_sessionTaskLabel o', ar_authorityKind = eo_authorityKind o',
      ar_taintDecision = eo_taintDecision o', ar_taintDecisionReason = eo_taintDecisionReason o',
      ar_taskOverrideApplied = eo_taskOverrideApplied o', ar_contractWinningSource = eo_contractWinningSource o',
      ar_contractLiveVerdict = eo_contractLiveVerdict o', ar_contractPolicySources = eo_contractPolicySources o',
      ar_contractRuleID = eo_contractRuleID o', ar_activeManifestHash = eo_activeManifestHash o', ar_contractHash = eo_contractHash o',
      ar_contractSelectorID = eo_contractSelectorID o', ar_contractGeneration = eo_contractGeneration o', ar_transport = eo_transport o',
      ar_method = eo_method o', ar_layer = eo_layer o',
      ar_pattern = (case ee_clean env of None \<Rightarrow> eo_pattern o' | Some clean \<Rightarrow> cleanOrRedacted (eo_pattern o') clean),
      ar_severity = eo_severity o', ar_redaction = redactionSummaryFromReport (eo_redactionProfile o') (eo_redactionReport o'),
      ar_shield = eo_shield o', ar_requestID = eo_requestID o', ar_chainPrevHash = chainPrevHash, ar_chainSeq = em_chainSeq e,
      ar_runNonce = em_runNonce e, ar_keyTransition = em_pendingTransition e, ar_sessionControl = ctl, ar_venue = [], ar_jurisdiction = [],
      ar_rulebookID = [], ar_remedyClass = [], ar_contestationWindow = [], ar_precedentRefs = []\<rparr>"

text \<open>The chain state moves on before the write, so that a failed write leaves a gap and never a fork.\<close>

definition advance :: "timestamp \<Rightarrow> string \<Rightarrow> emitter \<Rightarrow> emitter" where
  "advance ts h e = e\<lparr>em_chainPrevHash := h, em_chainStart := (if em_chainSeq e = 0 then ts else em_chainStart e), em_chainEnd := ts,
     em_chainSeq := em_chainSeq e + 1, em_pendingTransition := None\<rparr>"

definition open_nonce_of :: "session_control option \<Rightarrow> string" where
  "open_nonce_of c = (case c of Some s \<Rightarrow> (case ct_open s of Some op \<Rightarrow> so_openNonce op | None \<Rightarrow> []) | None \<Rightarrow> [])"

definition redactReceiptDetail :: "go_libs \<Rightarrow> emit_env \<Rightarrow> receipt \<Rightarrow> receipt" where
  "redactReceiptDetail lb env r =
     (case ee_clean env of None \<Rightarrow> r
      | Some clean \<Rightarrow> (case Marshal (lb_json lb) r of
            None \<Rightarrow> ee_redacted env r
          | Some raw \<Rightarrow> if clean raw then r else ee_redacted env r))"

text \<open>
  The write and what follows it. \<open>written\<close> says whether the entry reached the file; \<^verbatim>\<open>receiptHashRecorded\<close> finds the
  receipt there when it was not redacted.
\<close>

definition settle_write ::
  "go_libs \<Rightarrow> bool \<Rightarrow> emit_env \<Rightarrow> session_control option \<Rightarrow> receipt \<Rightarrow> emitter \<Rightarrow> receipt list \<Rightarrow> emit_error option \<times> emitter \<times> receipt list" where
  "settle_write lb durable env ctl r e disk =
     (case ee_outcome env of
        RecFail durability written \<Rightarrow>
          let stored = redactReceiptDetail lb env r; onDisk = (written \<and> stored = r);
              emitErr = ErrRecord durability; sticky = (durable \<and> durability);
              e1 = (if isSessionOpenControl ctl \<and> onDisk then e\<lparr>em_sessionOpenEmitted := True, em_openNonce := open_nonce_of ctl,
                      em_openErr := (if sticky then Some emitErr else em_openErr e)\<rparr> else e);
              e2 = (if isSessionCloseControl ctl \<and> onDisk then e1\<lparr>em_closeEmitted := True,
                      em_closeErr := (if sticky then Some emitErr else em_closeErr e1)\<rparr> else e1);
              e3 = (if sticky then recordFailure ''sync'' (e2\<lparr>em_durabilityBlocks := em_durabilityBlocks e2 + 1\<rparr>) else recordFailure ''record'' e2) in
          (Some emitErr, e3, if written then disk @ [stored] else disk)
      | RecOk \<Rightarrow>
          let e1 = (if isSessionOpenControl ctl then e\<lparr>em_sessionOpenEmitted := True, em_openNonce := open_nonce_of ctl\<rparr> else e);
              e2 = (if isSessionCloseControl ctl then e1\<lparr>em_closeEmitted := True\<rparr> else e1);
              e3 = (case ctl of Some c \<Rightarrow> if ct_kind c = ''heartbeat'' then e2\<lparr>em_lastHeartbeat := ee_now env\<rparr> else e2 | None \<Rightarrow> e2) in
          (None, e3, disk @ [redactReceiptDetail lb env r]))"

text \<open>The part under the lock, from the prepared control record on.\<close>

definition emit_locked ::
  "go_libs \<Rightarrow> emit_env \<Rightarrow> bool \<Rightarrow> emit_opts \<Rightarrow> session_control option \<Rightarrow> string \<Rightarrow> emitter \<Rightarrow> receipt list
   \<Rightarrow> emit_error option \<times> emitter \<times> receipt list" where
  "emit_locked lb env durable o' ctl prevHash e disk =
     (case (if eo_policyHash o' = [] then Some (em_configHash e) else normalizeCanonicalPolicyHash (eo_policyHash o')) of
        None \<Rightarrow> (Some ErrPolicyHash, recordFailure ''hash'' e, disk)
      | Some policyHash \<Rightarrow>
          (case Sign (lb_crypto lb) (lb_json lb) (build_record lb env o' policyHash ctl prevHash e) (em_privKey e) of
             Inl er \<Rightarrow> (Some (ErrSign er), recordFailure ''sign'' e, disk)
           | Inr rcpt \<Rightarrow> (case ReceiptHash (lb_crypto lb) (lb_json lb) rcpt of
               None \<Rightarrow> (Some ErrHash, recordFailure ''hash'' e, disk)
             | Some h \<Rightarrow> settle_write lb durable env ctl rcpt (advance (ee_now env) h e) disk)))"

definition emitWithControl ::
  "go_libs \<Rightarrow> emit_env \<Rightarrow> emit_opts \<Rightarrow> bool \<Rightarrow> (emitter \<Rightarrow> emit_error + session_control option) option \<Rightarrow> emitter \<Rightarrow> receipt list
   \<Rightarrow> emit_error option \<times> emitter \<times> receipt list" where
  "emitWithControl lb env o' durable build e disk =
     (if em_initErr e then (Some ErrResume, recordFailure ''chain_init'' e, disk)
      else if em_healthErr e then (Some ErrUnhealthy, recordFailure ''unavailable'' e, disk)
      else if em_rootEmitted e then (Some ErrChainSealed, recordFailure ''sealed'' e, disk)
      else case (case build of None \<Rightarrow> Inr (Some (eo_sessionControl o'))
          | Some b \<Rightarrow> (case b e of Inl er \<Rightarrow> Inl er | Inr None \<Rightarrow> Inr None | Inr (Some c) \<Rightarrow> Inr (Some (Some c)))) of
        Inl er \<Rightarrow> (Some er, e, disk)
      | Inr None \<Rightarrow> (None, e, disk)
      | Inr (Some ctl0) \<Rightarrow>
          (case prepareSessionControlLocked lb env ctl0 e of
             (Inl er, e1) \<Rightarrow> (Some er, e1, disk)
           | (Inr (ctl, prevHash), e1) \<Rightarrow> emit_locked lb env durable o' ctl prevHash e1 disk))"

definition Emit :: "go_libs \<Rightarrow> emit_env \<Rightarrow> emit_opts \<Rightarrow> emitter \<Rightarrow> receipt list \<Rightarrow> emit_error option \<times> emitter \<times> receipt list" where
  "Emit lb env o' e disk = emitWithControl lb env o' False None e disk"

definition EmitDurable :: "go_libs \<Rightarrow> emit_env \<Rightarrow> emit_opts \<Rightarrow> emitter \<Rightarrow> receipt list \<Rightarrow> emit_error option \<times> emitter \<times> receipt list" where
  "EmitDurable lb env o' e disk = emitWithControl lb env o' True None e disk"

definition control_opts :: "string \<Rightarrow> string \<Rightarrow> emit_opts" where
  "control_opts actionID target = zero_opts\<lparr>eo_actionID := actionID, eo_verdict := ''allow'', eo_transport := ''receipt_session'', eo_target := target\<rparr>"

definition initial_open :: "go_libs \<Rightarrow> string \<Rightarrow> emitter \<Rightarrow> session_open" where
  "initial_open lb openNonce e =
     \<lparr>so_runNonce = em_runNonce e, so_openNonce = openNonce, so_recorderSession = ''proxy'', so_policyHash = em_configHash e,
      so_signerKeyEpoch = signer_hex lb e, so_heartbeatSeconds = em_heartbeatSeconds e, so_chainOpenSeq = 0, so_priorChainHead = [],
      so_priorChainSeq = 0, so_genesisHash = [], so_genesisAnchorHead = [], so_genesisAnchorLog = [],
      so_postureCapsuleSHA256 = pb_capsuleSHA256 (em_postureBinding e), so_postureSignerKeyID = pb_signerKeyID (em_postureBinding e),
      so_containmentNonce = pb_containmentNonce (em_postureBinding e), so_containedUID = pb_containedUID (em_postureBinding e)\<rparr>"

definition EmitSessionOpen ::
  "go_libs \<Rightarrow> emit_env \<Rightarrow> string option \<Rightarrow> string \<Rightarrow> emitter \<Rightarrow> receipt list \<Rightarrow> emit_error option \<times> emitter \<times> receipt list" where
  "EmitSessionOpen lb env rand actionID e disk =
     (case rand of None \<Rightarrow> (Some ErrNonce, recordFailure ''sign'' e, disk)
      | Some bytes \<Rightarrow> EmitDurable lb env ((control_opts actionID ''pipelock://session/open'')
          \<lparr>eo_sessionControl := Some (control ''session_open'' (Some (initial_open lb (hex_EncodeToString bytes) e)) None None)\<rparr>) e disk)"

definition zero_heartbeat :: session_heartbeat where
  "zero_heartbeat = \<lparr>sh_runNonce = [], sh_openNonce = [], sh_beat = 0, sh_chainHead = [], sh_chainSeqHead = 0, sh_heartbeatTime = [],
     sh_fsyncErrorsGated = 0, sh_durabilityBlocks = 0\<rparr>"

definition EmitHeartbeat ::
  "go_libs \<Rightarrow> emit_env \<Rightarrow> string \<Rightarrow> emitter \<Rightarrow> receipt list \<Rightarrow> emit_error option \<times> emitter \<times> receipt list" where
  "EmitHeartbeat lb env actionID e disk =
     emitWithControl lb env (control_opts actionID ''pipelock://session/heartbeat'') False
       (Some (\<lambda>_. Inr (Some (control ''heartbeat'' None (Some zero_heartbeat) None)))) e disk"

definition request_close :: "string \<Rightarrow> session_control" where
  "request_close reason = control ''session_close'' None None (Some \<lparr>sc_runNonce = [], sc_openNonce = [], sc_finalSeq = 0, sc_rootHash = [],
     sc_receiptCount = 0, sc_closeReason = reason, sc_fsyncErrorsGated = 0, sc_durabilityBlocks = 0\<rparr>)"

definition build_close :: "string \<Rightarrow> emitter \<Rightarrow> emit_error + session_control option" where
  "build_close reason e =
     (case (if em_closeEmitted e then em_closeErr e else None) of Some er \<Rightarrow> Inl er
      | None \<Rightarrow> if em_rootEmitted e \<or> em_closeEmitted e \<or> em_chainSeq e = 0 then Inr None else Inr (Some (request_close reason)))"

definition EmitSessionClose ::
  "go_libs \<Rightarrow> emit_env \<Rightarrow> string \<Rightarrow> string \<Rightarrow> emitter \<Rightarrow> receipt list \<Rightarrow> emit_error option \<times> emitter \<times> receipt list" where
  "EmitSessionClose lb env actionID reason e disk =
     emitWithControl lb env (control_opts actionID ''pipelock://session/close'') True (Some (build_close reason)) e disk"

text \<open>The transcript root: written once, after which nothing is emitted.\<close>

definition EmitTranscriptRoot :: "string \<Rightarrow> bool \<Rightarrow> emitter \<Rightarrow> (emit_error option \<times> transcript_root option) \<times> emitter" where
  "EmitTranscriptRoot sessionID recordFails e =
     (if em_initErr e then ((Some ErrResume, None), recordFailure ''chain_init'' e)
      else if em_rootEmitted e then ((Some ErrRootAlreadyEmitted, None), e)
      else if em_chainSeq e = 0 then ((None, None), e)
      else if recordFails then ((Some (ErrRecord False), None), e)
      else ((None, Some \<lparr>tr_sessionID = sessionID, tr_finalSeq = em_chainSeq e - 1, tr_rootHash = em_chainPrevHash e,
          tr_receiptCount = em_chainSeq e, tr_startTime = em_chainStart e, tr_endTime = em_chainEnd e\<rparr>), e\<lparr>em_rootEmitted := True\<rparr>))"

section \<open>Start and restart\<close>

text \<open>The evidence a new process finds; \<open>None\<close> when it cannot be read or parsed.\<close>

definition resumeChain :: "go_libs \<Rightarrow> receipt list option \<Rightarrow> emitter \<Rightarrow> bool \<times> emitter" where
  "resumeChain lb evidence e =
     (case evidence of None \<Rightarrow> (True, e)
      | Some rs \<Rightarrow>
          if rs = [] then (False, e)
          else let lastReceipt = last rs; firstReceipt = hd rs in
            if VerifyInternalConsistencyOnly (lb_crypto lb) (lb_json lb) lastReceipt \<noteq> None then (True, e)
            else case ReceiptHash (lb_crypto lb) (lb_json lb) lastReceipt of None \<Rightarrow> (True, e)
            | Some h \<Rightarrow>
                if rcpt_signerKey lastReceipt \<noteq> signer_hex lb e then
                  (False, e\<lparr>em_chainSeq := 0, em_chainPrevHash := h, em_hasPriorTail := True, em_priorTailSeq := rcpt_seq lastReceipt,
                     em_priorTailHash := h,
                     em_pendingTransition := Some \<lparr>kt_priorSignerKey = rcpt_signerKey lastReceipt, kt_priorChainSeq = rcpt_seq lastReceipt, kt_priorChainHash = h\<rparr>\<rparr>)
                else
                  (False, e\<lparr>em_chainPrevHash := h, em_chainSeq := rcpt_seq lastReceipt + 1, em_chainEnd := ar_timestamp (rcpt_actionRecord lastReceipt),
                     em_hasPriorTail := True, em_priorTailSeq := rcpt_seq lastReceipt, em_priorTailHash := h,
                     em_chainStart := ar_timestamp (rcpt_actionRecord firstReceipt)\<rparr>))"

record emitter_config =
  ec_privKey :: string
  ec_configHash :: string
  ec_principal :: string
  ec_actor :: string
  ec_heartbeatSeconds :: int
  ec_postureBinding :: posture_binding

definition fresh_emitter :: "emitter_config \<Rightarrow> string \<Rightarrow> emitter" where
  "fresh_emitter cfg runNonce =
     \<lparr>em_privKey = ec_privKey cfg, em_configHash = ec_configHash cfg, em_principal = ec_principal cfg, em_actor = ec_actor cfg,
      em_initErr = False, em_healthErr = False, em_runNonce = runNonce, em_chainSeq = 0, em_chainPrevHash = GenesisHash,
      em_chainStart = \<lparr>ts_instant = zero_time, ts_offset = 0\<rparr>, em_chainEnd = \<lparr>ts_instant = zero_time, ts_offset = 0\<rparr>, em_rootEmitted = False,
      em_closeEmitted = False, em_closeErr = None, em_openErr = None, em_openNonce = [], em_heartbeatBeat = 0,
      em_lastHeartbeat = \<lparr>ts_instant = zero_time, ts_offset = 0\<rparr>, em_heartbeatSeconds = ec_heartbeatSeconds cfg,
      em_postureBinding = ec_postureBinding cfg, em_pendingTransition = None, em_hasPriorTail = False, em_priorTailSeq = 0,
      em_priorTailHash = [], em_sessionOpenEmitted = False, em_durabilityBlocks = 0, em_failures = []\<rparr>"

definition NewEmitter :: "go_libs \<Rightarrow> emitter_config \<Rightarrow> string option \<Rightarrow> receipt list option \<Rightarrow> emitter option" where
  "NewEmitter lb cfg rand evidence =
     (if length (ec_privKey cfg) \<noteq> 64 then None
      else case rand of None \<Rightarrow> Some ((fresh_emitter cfg [])\<lparr>em_initErr := True\<rparr>)
      | Some bytes \<Rightarrow> let (err, e) = resumeChain lb evidence (fresh_emitter cfg (hex_EncodeToString bytes)) in Some (e\<lparr>em_initErr := err\<rparr>))"

end
