(* ===== verification/ReceiptRoundtrip.thy ===== *)
theory ReceiptRoundtrip
  imports ReceiptEmitter "HOL-Library.Sublist"
begin

text \<open>
  The emitter against the verifier: the evidence of any history of processes, restarts, key rotations and
  emissions is a chain the offline verifier accepts.
\<close>

section \<open>A signed receipt verifies\<close>

lemma length_hex: "length (hex_EncodeToString s) = 2 * length s"
  by (induction s) (auto simp: hex_EncodeToString_def hex_byte_def)

definition keys_ok :: "crypto \<Rightarrow> bool" where
  "keys_ok cr \<longleftrightarrow> crypto_ok cr \<and> (\<forall>k. length k = 64 \<longrightarrow> length (cr_public cr k) = 32)"

lemma Sign_verifies:
  assumes "keys_ok cr" "Sign cr jl ar k = Inr r"
  shows "VerifyWithKey cr jl r (hex_EncodeToString (cr_public cr k)) = None"
    "rcpt_actionRecord r = ar" "rcpt_signerKey r = hex_EncodeToString (cr_public cr k)" "Validate ar = None"
proof -
  from assms(2) obtain d where k: "length k = 64" and v: "Validate ar = None" and d: "canonicalActionRecord jl 1 ar = Some d"
    and r: "r = \<lparr>rcpt_version = 1, rcpt_actionRecord = ar,
            rcpt_signature = signaturePrefix @ hex_EncodeToString (cr_sign cr k (cr_sha256 cr d)),
            rcpt_signerKey = hex_EncodeToString (cr_public cr k), rcpt_ext = []\<rparr>"
    by (auto simp: Sign_def split: if_splits option.splits)
  have pub: "length (cr_public cr k) = 32" and sig: "length (cr_sign cr k (cr_sha256 cr d)) = 64"
      "cr_verify cr (cr_public cr k) (cr_sha256 cr d) (cr_sign cr k (cr_sha256 cr d))"
    using assms(1) k by (auto simp: keys_ok_def crypto_ok_def)
  have ne: "hex_EncodeToString (cr_public cr k) \<noteq> []" using length_hex [of "cr_public cr k"] pub by (metis list.size(3) mult_is_0 numeral_eq_iff zero_neq_numeral)
  show "VerifyWithKey cr jl r (hex_EncodeToString (cr_public cr k)) = None"
    using v d ne pub sig by (simp add: r VerifyWithKey_def hex_roundtrip length_hex signaturePrefix_def)
  show "rcpt_actionRecord r = ar" "rcpt_signerKey r = hex_EncodeToString (cr_public cr k)" "Validate ar = None" using v by (simp_all add: r)
qed

section \<open>Extending a valid chain\<close>

lemma chain_integrity_snoc:
  assumes "disk \<noteq> []"
  shows "chain_integrity cr jl K (disk @ [r]) \<longleftrightarrow> chain_integrity cr jl K disk \<and> linked cr jl K (last disk) r \<and> authentic cr jl r"
  using assms by (auto simp: chain_integrity_def successively_append_iff)

lemma chain_integrity_single: "chain_integrity cr jl K [r] \<longleftrightarrow> rcpt_signerKey r \<in> K \<and> genesis_ok cr r \<and> authentic cr jl r"
  by (auto simp: chain_integrity_def)

lemma chain_lifecycle_snoc:
  "chain_lifecycle (disk @ [r]) \<longleftrightarrow> chain_lifecycle disk \<and> lifecycle_ok (rev disk) r \<and> open_place (rev disk) r"
  by (auto simp: chain_lifecycle_def nth_append less_Suc_eq)

lemma segment_length_le: "segment_length h \<le> length h"
  by (induction h) auto

text \<open>The evidence on disk: empty, or a valid chain whose segments count from 0.\<close>

definition evidence_ok :: "go_libs \<Rightarrow> string set \<Rightarrow> receipt list \<Rightarrow> bool" where
  "evidence_ok lb K disk \<longleftrightarrow> disk = [] \<or>
     chain_integrity (lb_crypto lb) (lb_json lb) K disk \<and> chain_lifecycle disk \<and>
     rcpt_seq (last disk) + 1 = of_nat (segment_length (rev disk))"

definition tail_synced :: "go_libs \<Rightarrow> string set \<Rightarrow> receipt list \<Rightarrow> emitter \<Rightarrow> bool" where
  "tail_synced lb K disk e \<longleftrightarrow> disk \<noteq> [] \<and> evidence_ok lb K disk \<and> rcpt_signerKey (last disk) = signer_hex lb e \<and>
     ReceiptHash (lb_crypto lb) (lb_json lb) (last disk) = Some (em_chainPrevHash e) \<and> em_chainSeq e = rcpt_seq (last disk) + 1 \<and>
     em_pendingTransition e = None \<and> em_sessionOpenEmitted e \<and> em_runNonce e \<noteq> [] \<and> em_openNonce e \<noteq> [] \<and>
     run_opens (rev disk) (em_runNonce e) = Some (em_openNonce e) \<and>
     (if em_closeEmitted e then run_closed (rev disk) (em_runNonce e)
      else \<not> run_closed (rev disk) (em_runNonce e) \<and> active_run (rev disk) = (em_runNonce e, em_openNonce e))"

lemma build_record_fields [simp]:
  "ar_chainPrevHash (build_record lb env o' ph ctl prev e) = prev" "ar_chainSeq (build_record lb env o' ph ctl prev e) = em_chainSeq e"
  "ar_runNonce (build_record lb env o' ph ctl prev e) = em_runNonce e" "ar_keyTransition (build_record lb env o' ph ctl prev e) = em_pendingTransition e"
  "ar_sessionControl (build_record lb env o' ph ctl prev e) = ctl"
  by (simp_all add: build_record_def)

text \<open>The control records a running session emits: none, a heartbeat, or its close.\<close>

definition session_ctl :: "emitter \<Rightarrow> session_control option \<Rightarrow> bool" where
  "session_ctl e ctl \<longleftrightarrow> ctl = None \<or> (\<exists>env b. ctl = Some (heartbeat_control env (e\<lparr>em_heartbeatBeat := b\<rparr>))) \<or>
     (\<exists>env reason. ctl = Some (close_control env e reason))"

lemma session_ctl_no_open: "session_ctl e ctl \<Longrightarrow> sessionOpen ctl = None"
  by (auto simp: session_ctl_def sessionOpen_def heartbeat_control_def close_control_def control_def)

lemma evidence_seq:
  assumes "evidence_ok lb K disk" "disk \<noteq> []" "length disk < 2 ^ 64"
  shows "rcpt_seq (last disk) + 1 \<noteq> 0"
proof -
  from assms have seq: "rcpt_seq (last disk) + 1 = of_nat (segment_length (rev disk))" by (auto simp: evidence_ok_def)
  from assms(2) obtain r h where "rev disk = r # h" by (cases "rev disk") auto
  then have pos: "0 < segment_length (rev disk)" by simp
  have "segment_length (rev disk) < 2 ^ LENGTH(64)" using segment_length_le [of "rev disk"] assms(3) by simp
  with pos have "unat (of_nat (segment_length (rev disk)) :: 64 word) \<noteq> 0" by (simp add: unat_of_nat)
  then show ?thesis using seq by auto
qed

lemma seq_not_wrapped:
  assumes "tail_synced lb K disk e" "length disk < 2 ^ 64"
  shows "em_chainSeq e \<noteq> 0" "em_chainSeq e = of_nat (segment_length (rev disk))"
  using assms evidence_seq [of lb K disk] by (auto simp: tail_synced_def evidence_ok_def)

lemma next_receipt:
  assumes sync: "tail_synced lb K disk e" and open': "\<not> em_closeEmitted e" and len: "length disk < 2 ^ 64"
    and r: "nonce r = em_runNonce e" "marker r = None" "ctrl r = ctl" "rcpt_prev r = em_chainPrevHash e" "rcpt_seq r = em_chainSeq e"
      "rcpt_signerKey r = signer_hex lb e" and auth: "authentic (lb_crypto lb) (lb_json lb) r" and ctl: "session_ctl e ctl"
  shows "evidence_ok lb K (disk @ [r])"
proof -
  note seq = seq_not_wrapped [OF sync len]
  from sync have d: "disk \<noteq> []" "chain_integrity (lb_crypto lb) (lb_json lb) K disk" "chain_lifecycle disk"
    "rcpt_signerKey (last disk) = signer_hex lb e" "ReceiptHash (lb_crypto lb) (lb_json lb) (last disk) = Some (em_chainPrevHash e)"
    "em_chainSeq e = rcpt_seq (last disk) + 1" "run_opens (rev disk) (em_runNonce e) = Some (em_openNonce e)"
    "\<not> run_closed (rev disk) (em_runNonce e)" "active_run (rev disk) = (em_runNonce e, em_openNonce e)" "em_runNonce e \<noteq> []" "em_openNonce e \<noteq> []"
    using open' by (auto simp: tail_synced_def evidence_ok_def)
  have nop: "rcpt_open r = None" using session_ctl_no_open [OF ctl] r(3) by (simp add: nonce_run)
  have "linked (lb_crypto lb) (lb_json lb) K (last disk) r" using d r seq(1) by (simp add: linked_def)
  with d auth have integ: "chain_integrity (lb_crypto lb) (lb_json lb) K (disk @ [r])" by (simp add: chain_integrity_snoc)
  have "shape_ok r" using ctl r(3)
    by (auto simp: session_ctl_def shape_ok_def heartbeat_control_def close_control_def control_def payload_count_def)
  moreover have "heartbeat_ok (rev disk) r b" if "sessionHeartbeat (ctrl r) = Some b" for b
    using that ctl r d seq(1)
    by (auto simp: session_ctl_def sessionHeartbeat_def heartbeat_control_def close_control_def control_def heartbeat_ok_def PreviousChainSeq_def)
  moreover have "close_ok (rev disk) r c" if "sessionClose (ctrl r) = Some c" for c
    using that ctl r d seq(2)
    by (auto simp: session_ctl_def sessionClose_def heartbeat_control_def close_control_def control_def close_ok_def)
  ultimately have "lifecycle_ok (rev disk) r" "open_place (rev disk) r"
    using nop r(1) d by (simp_all add: lifecycle_ok_def open_place_def)
  with d(3) have life: "chain_lifecycle (disk @ [r])" by (simp add: chain_lifecycle_snoc)
  from integ life r(2,5) seq(2) show ?thesis by (simp add: evidence_ok_def)
qed

section \<open>Emission steps\<close>

text \<open>
  A write whose bytes reach the disk, whether or not the recorder reports a later failure, and which the recorder's
  redaction leaves as signed: \<open>disk'\<close> is the evidence after the write.
\<close>

definition on_disk :: "go_libs \<Rightarrow> emit_env \<Rightarrow> receipt list \<Rightarrow> bool" where
  "on_disk lb env disk' \<longleftrightarrow> (case ee_outcome env of RecOk \<Rightarrow> True | RecFail _ written \<Rightarrow> written) \<and>
     (\<forall>r. redactReceiptDetail lb env r \<in> set disk' \<longrightarrow> redactReceiptDetail lb env r = r)"

definition same_chain :: "emitter \<Rightarrow> emitter \<Rightarrow> bool" where
  "same_chain e e' \<longleftrightarrow> em_privKey e' = em_privKey e \<and> em_runNonce e' = em_runNonce e \<and> em_chainSeq e' = em_chainSeq e \<and>
     em_chainPrevHash e' = em_chainPrevHash e \<and> em_pendingTransition e' = em_pendingTransition e"

definition same_session :: "emitter \<Rightarrow> emitter \<Rightarrow> bool" where
  "same_session e e' \<longleftrightarrow> em_sessionOpenEmitted e' = em_sessionOpenEmitted e \<and> em_openNonce e' = em_openNonce e \<and>
     em_closeEmitted e' = em_closeEmitted e"

lemma same_refl [simp]: "same_chain e e" "same_session e e" "same_chain e (recordFailure x e)" "same_session e (recordFailure x e)"
    "same_chain e (e\<lparr>em_heartbeatBeat := b\<rparr>)" "same_session e (e\<lparr>em_heartbeatBeat := b\<rparr>)"
  by (simp_all add: same_chain_def same_session_def recordFailure_def)

lemma tail_synced_same: "tail_synced lb K disk e \<Longrightarrow> same_chain e e' \<Longrightarrow> same_session e e' \<Longrightarrow> tail_synced lb K disk e'"
  by (simp add: tail_synced_def same_chain_def same_session_def signer_hex_def)

lemma settle_write_on_disk:
  assumes "settle_write lb durable env ctl r e disk = (err, e', disk')" "on_disk lb env disk'"
  shows "disk' = disk @ [r]" "same_chain e e'"
    "em_sessionOpenEmitted e' = (isSessionOpenControl ctl \<or> em_sessionOpenEmitted e)"
    "em_openNonce e' = (if isSessionOpenControl ctl then open_nonce_of ctl else em_openNonce e)"
    "em_closeEmitted e' = (isSessionCloseControl ctl \<or> em_closeEmitted e)"
  using assms
  by (auto simp: settle_write_def on_disk_def same_chain_def recordFailure_def Let_def split: record_outcome.splits option.splits if_splits)

lemma emit_locked_cases:
  assumes "emit_locked lb env durable o' ctl prev e disk = (err, e', disk')"
  obtains (unchanged) "disk' = disk" "same_chain e e'" "same_session e e'"
  | (receipt) r h ph where "Sign (lb_crypto lb) (lb_json lb) (build_record lb env o' ph ctl prev e) (em_privKey e) = Inr r"
      "ReceiptHash (lb_crypto lb) (lb_json lb) r = Some h" "settle_write lb durable env ctl r (advance (ee_now env) h e) disk = (err, e', disk')"
proof -
  let ?ph = "if eo_policyHash o' = [] then Some (em_configHash e) else normalizeCanonicalPolicyHash (eo_policyHash o')"
  show ?thesis
  proof (cases ?ph)
    case None
    with assms have "disk' = disk" "e' = recordFailure ''hash'' e" by (simp_all add: emit_locked_def split: if_splits)
    then show ?thesis using unchanged by simp
  next
    case (Some ph)
    show ?thesis
    proof (cases "Sign (lb_crypto lb) (lb_json lb) (build_record lb env o' ph ctl prev e) (em_privKey e)")
      case (Inl er)
      with assms Some have "disk' = disk" "e' = recordFailure ''sign'' e" by (simp_all add: emit_locked_def)
      then show ?thesis using unchanged by simp
    next
      case (Inr r)
      show ?thesis
      proof (cases "ReceiptHash (lb_crypto lb) (lb_json lb) r")
        case None
        with assms Some Inr have "disk' = disk" "e' = recordFailure ''hash'' e" by (simp_all add: emit_locked_def)
        then show ?thesis using unchanged by simp
      next
        case (Some h)
        with assms \<open>?ph = Some ph\<close> Inr receipt show ?thesis by (simp add: emit_locked_def)
      qed
    qed
  qed
qed

text \<open>A receipt of a running session keeps the emitter at the tail of valid evidence.\<close>

lemma emit_locked_synced:
  assumes ok: "keys_ok (lb_crypto lb)" and sync: "tail_synced lb K disk e" and open': "\<not> em_closeEmitted e" and len: "length disk < 2 ^ 64"
    and ctl: "session_ctl e ctl" and od: "on_disk lb env disk'"
    and step: "emit_locked lb env durable o' ctl (em_chainPrevHash e) e disk = (err, e', disk')"
  shows "tail_synced lb K disk' e'"
  using step
proof (cases rule: emit_locked_cases)
  case unchanged
  with sync show ?thesis using tail_synced_same by blast
next
  case (receipt r h ph)
  note sg = Sign_verifies [OF ok receipt(1)]
  have auth: "authentic (lb_crypto lb) (lb_json lb) r" using sg receipt(2) by (simp add: authentic_def)
  have pend: "em_pendingTransition e = None" using sync by (simp add: tail_synced_def)
  have r: "nonce r = em_runNonce e" "marker r = None" "ctrl r = ctl" "rcpt_prev r = em_chainPrevHash e" "rcpt_seq r = em_chainSeq e"
      "rcpt_signerKey r = signer_hex lb e"
    using sg pend by (simp_all add: nonce_def marker_def ctrl_def signer_hex_def)
  have nop: "rcpt_open r = None" "\<not> isSessionOpenControl ctl"
    using session_ctl_no_open [OF ctl] r(3) by (auto simp: nonce_run isSessionOpenControl_def sessionOpen_def split: option.splits if_splits)
  have cl: "sessionClose (ctrl r) = None \<longleftrightarrow> \<not> isSessionCloseControl ctl"
    by (auto simp: r(3) isSessionCloseControl_def sessionClose_def split: option.splits)
  note set = settle_write_on_disk [OF receipt(3) od]
  have "evidence_ok lb K (disk @ [r])" by (rule next_receipt [OF sync open' len r auth ctl])
  with sync open' set nop cl receipt(2) r show ?thesis
    by (auto simp: tail_synced_def same_chain_def advance_def signer_hex_def)
qed

lemma emitWithControl_synced:
  assumes ok: "keys_ok (lb_crypto lb)" and sync: "tail_synced lb K disk e" and open': "\<not> em_closeEmitted e" and len: "length disk < 2 ^ 64"
    and od: "on_disk lb env disk'" and build: "build = None \<and> eo_sessionControl o' = None \<or>
      build = Some (\<lambda>_. Inr (Some (control ''heartbeat'' None (Some zero_heartbeat) None))) \<or> (\<exists>reason. build = Some (build_close reason))"
    and step: "emitWithControl lb env o' durable build e disk = (err, e', disk')"
  shows "tail_synced lb K disk' e'"
proof (cases "em_initErr e \<or> em_healthErr e \<or> em_rootEmitted e")
  case True
  with step have "disk' = disk" "\<exists>x. e' = recordFailure x e" by (auto simp: emitWithControl_def split: if_splits)
  with sync show ?thesis using tail_synced_same by (metis same_refl(3,4))
next
  case False
  note go = emit_locked_synced [OF ok _ _ len _ od]
  from build show ?thesis
  proof (elim disjE exE conjE)
    assume "build = None" "eo_sessionControl o' = None"
    with step False have st: "emit_locked lb env durable o' None (em_chainPrevHash e) e disk = (err, e', disk')"
      by (simp add: emitWithControl_def prepareSessionControlLocked_def)
    show ?thesis by (rule go [OF sync open' _ st]) (simp add: session_ctl_def)
  next
    assume b: "build = Some (\<lambda>_. Inr (Some (control ''heartbeat'' None (Some zero_heartbeat) None)))"
    let ?e = "e\<lparr>em_heartbeatBeat := em_heartbeatBeat e + 1\<rparr>"
    have "tail_synced lb K disk ?e" "\<not> em_closeEmitted ?e" using sync open' tail_synced_same by auto
    moreover have "session_ctl ?e (Some (heartbeat_control env ?e))"
      unfolding session_ctl_def by (intro disjI2 disjI1 exI [of _ env] exI [of _ "em_heartbeatBeat ?e"]) simp
    moreover from step False b have "emit_locked lb env durable o' (Some (heartbeat_control env ?e)) (em_chainPrevHash ?e) ?e disk = (err, e', disk')"
      by (simp add: emitWithControl_def prepareSessionControlLocked_def control_def Let_def)
    ultimately show ?thesis using go by blast
  next
    fix reason
    assume b: "build = Some (build_close reason)"
    with open' have bc: "build_close reason e = (if em_rootEmitted e \<or> em_chainSeq e = 0 then Inr None else Inr (Some (request_close reason)))"
      by (simp add: build_close_def)
    have "em_chainSeq e \<noteq> 0" using seq_not_wrapped [OF sync len] by simp
    with step False b bc have "emit_locked lb env durable o' (Some (close_control env e reason)) (em_chainPrevHash e) e disk = (err, e', disk')"
      by (simp add: emitWithControl_def prepareSessionControlLocked_def request_close_def control_def)
    moreover have "session_ctl e (Some (close_control env e reason))" by (auto simp: session_ctl_def)
    ultimately show ?thesis using go [OF sync open'] by blast
  qed
qed

section \<open>Opening a session\<close>

lemma preimage_genesis: "session_open_preimage (op\<lparr>so_genesisHash := x\<rparr>) = session_open_preimage op"
  by (simp add: session_open_preimage_def)

lemma genesis_prefix: "has_prefix (ComputeSessionOpenGenesis cr op) ''g1:''"
  by (simp add: ComputeSessionOpenGenesis_def genesisSessionOpenPrefix_def has_prefix_iff)

definition opened_at :: "go_libs \<Rightarrow> string set \<Rightarrow> receipt list \<Rightarrow> emitter \<Rightarrow> receipt \<Rightarrow> session_open \<Rightarrow> bool" where
  "opened_at lb K disk e r op \<longleftrightarrow> rcpt_open r = Some op \<and> shape_ok r \<and> nonce r = em_runNonce e \<and> so_runNonce op = em_runNonce e \<and>
     so_openNonce op \<noteq> [] \<and> rcpt_signerKey r = signer_hex lb e \<and> authentic (lb_crypto lb) (lb_json lb) r \<and> rcpt_seq r = em_chainSeq e"

lemma open_receipt_first:
  assumes o: "opened_at lb K [] e r op" and e: "em_runNonce e \<noteq> []" "signer_hex lb e \<in> K" "em_chainSeq e = 0"
    and g: "marker r = None" "bound_genesis (lb_crypto lb) r op"
  shows "evidence_ok lb K [r]"
proof -
  have "has_prefix (rcpt_prev r) ''g1:''" using g(2) genesis_prefix by (simp add: bound_genesis_def)
  then have "genesis_ok (lb_crypto lb) r" "open_place [] r" using o g by (auto simp: genesis_ok_def opened_at_def open_place_def)
  moreover have "lifecycle_ok [] r" using o e by (simp add: lifecycle_ok_def opened_at_def)
  ultimately show ?thesis using o e g(1)
    by (simp add: evidence_ok_def chain_integrity_single opened_at_def chain_lifecycle_snoc [of "[]" r, simplified] chain_lifecycle_def)
qed

lemma open_receipt_next:
  assumes o: "opened_at lb K disk e r op" and e: "em_runNonce e \<noteq> []" "disk \<noteq> []" "evidence_ok lb K disk"
    and fresh: "run_opens (rev disk) (em_runNonce e) = None" and link: "linked (lb_crypto lb) (lb_json lb) K (last disk) r"
    and place: "so_genesisHash op = []" "so_chainOpenSeq op = rcpt_seq r" "so_priorChainHead op = rcpt_prev r" "so_priorChainSeq op = rcpt_seq (last disk)"
  shows "evidence_ok lb K (disk @ [r])"
proof -
  obtain h where h: "rev disk = last disk # h" using e(2) by (metis append_butlast_last_id rev_eq_Cons_iff rev_rev_ident rev.simps(2) rev_swap)
  have "open_place (rev disk) r" using o place by (simp add: h open_place_def opened_at_def)
  moreover have "lifecycle_ok (rev disk) r" using o e fresh by (simp add: lifecycle_ok_def opened_at_def)
  ultimately have "chain_lifecycle (disk @ [r])" using e by (simp add: chain_lifecycle_snoc evidence_ok_def)
  moreover have "chain_integrity (lb_crypto lb) (lb_json lb) K (disk @ [r])"
    using e link o by (simp add: chain_integrity_snoc evidence_ok_def opened_at_def)
  moreover have "rcpt_seq r + 1 = of_nat (segment_length (r # rev disk))"
    using link e by (auto simp: linked_def evidence_ok_def split: option.splits)
  ultimately show ?thesis by (simp add: evidence_ok_def)
qed

text \<open>The state a new process starts from.\<close>

definition booted :: "go_libs \<Rightarrow> receipt list \<Rightarrow> emitter \<Rightarrow> bool" where
  "booted lb disk e \<longleftrightarrow> \<not> em_sessionOpenEmitted e \<and> \<not> em_closeEmitted e \<and> em_openErr e = None \<and>
     (if disk = [] then \<not> em_hasPriorTail e \<and> em_chainSeq e = 0 \<and> em_chainPrevHash e = GenesisHash \<and> em_pendingTransition e = None
      else em_hasPriorTail e \<and> ReceiptHash (lb_crypto lb) (lb_json lb) (last disk) = Some (em_chainPrevHash e) \<and>
        em_priorTailHash e = em_chainPrevHash e \<and> em_priorTailSeq e = rcpt_seq (last disk) \<and>
        (if rcpt_signerKey (last disk) = signer_hex lb e then em_chainSeq e = rcpt_seq (last disk) + 1 \<and> em_pendingTransition e = None
         else em_chainSeq e = 0 \<and> em_pendingTransition e = Some \<lparr>kt_priorSignerKey = rcpt_signerKey (last disk),
           kt_priorChainSeq = rcpt_seq (last disk), kt_priorChainHash = em_chainPrevHash e\<rparr>))"

lemma NewEmitter_booted:
  assumes "NewEmitter lb cfg (Some rand) (Some disk) = Some e" "\<not> em_initErr e"
  shows "booted lb disk e" "em_runNonce e = hex_EncodeToString rand" "length (em_privKey e) = 64"
proof -
  let ?f = "fresh_emitter cfg (hex_EncodeToString rand)"
  from assms obtain e0 where k: "length (ec_privKey cfg) = 64" and e0: "resumeChain lb (Some disk) ?f = (False, e0)" "e = e0\<lparr>em_initErr := False\<rparr>"
    by (auto simp: NewEmitter_def Let_def split: if_splits prod.splits)
  have "booted lb disk e0 \<and> em_runNonce e0 = hex_EncodeToString rand \<and> length (em_privKey e0) = 64"
  proof (cases "disk = []")
    case True
    with e0 k show ?thesis by (auto simp: resumeChain_def booted_def fresh_emitter_def)
  next
    case False
    with e0(1) obtain h where h: "ReceiptHash (lb_crypto lb) (lb_json lb) (last disk) = Some h"
      and v: "VerifyInternalConsistencyOnly (lb_crypto lb) (lb_json lb) (last disk) = None"
      by (auto simp: resumeChain_def Let_def split: if_splits option.splits)
    show ?thesis
    proof (cases "rcpt_signerKey (last disk) = signer_hex lb ?f")
      case True
      from e0(1) False h v True have "e0 = ?f\<lparr>em_chainPrevHash := h, em_chainSeq := rcpt_seq (last disk) + 1,
          em_chainEnd := ar_timestamp (rcpt_actionRecord (last disk)), em_hasPriorTail := True, em_priorTailSeq := rcpt_seq (last disk),
          em_priorTailHash := h, em_chainStart := ar_timestamp (rcpt_actionRecord (hd disk))\<rparr>"
        by (simp add: resumeChain_def Let_def)
      with k h False True show ?thesis by (simp add: booted_def fresh_emitter_def signer_hex_def)
    next
      case other: False
      from e0(1) False h v other have "e0 = ?f\<lparr>em_chainSeq := 0, em_chainPrevHash := h, em_hasPriorTail := True,
          em_priorTailSeq := rcpt_seq (last disk), em_priorTailHash := h,
          em_pendingTransition := Some \<lparr>kt_priorSignerKey = rcpt_signerKey (last disk), kt_priorChainSeq = rcpt_seq (last disk), kt_priorChainHash = h\<rparr>\<rparr>"
        by (simp add: resumeChain_def Let_def)
      with k h False other show ?thesis by (simp add: booted_def fresh_emitter_def signer_hex_def)
    qed
  qed
  then show "booted lb disk e" "em_runNonce e = hex_EncodeToString rand" "length (em_privKey e) = 64"
    by (auto simp: e0(2) booted_def signer_hex_def)
qed

text \<open>The control record of the open: a bound genesis on an empty disk, the tail of the evidence otherwise.\<close>

lemma open_control:
  assumes b: "booted lb disk e" and c: "ctl0 = control ''session_open'' (Some op0) None None" and n: "so_openNonce op0 \<noteq> []" "so_priorChainHead op0 = []" "so_priorChainSeq op0 = 0"
    and p: "prepareSessionControlLocked lb env (Some ctl0) e = (x, e1)"
  obtains op prev where "e1 = e" "x = Inr (Some (control ''session_open'' (Some op) None None), prev)" "so_runNonce op = em_runNonce e"
    "so_openNonce op = so_openNonce op0" "so_chainOpenSeq op = em_chainSeq e"
    "disk = [] \<Longrightarrow> prev = ComputeSessionOpenGenesis (lb_crypto lb) op \<and> so_genesisHash op = prev \<and> so_priorChainHead op = [] \<and> so_priorChainSeq op = 0"
    "disk \<noteq> [] \<Longrightarrow> prev = em_chainPrevHash e \<and> so_genesisHash op = [] \<and> so_priorChainHead op = em_chainPrevHash e \<and> so_priorChainSeq op = rcpt_seq (last disk)"
proof (cases "disk = []")
  case True
  define op1 where "op1 = (stamp_open lb e op0)\<lparr>so_genesisHash := []\<rparr>"
  define g where "g = ComputeSessionOpenGenesis (lb_crypto lb) op1"
  have "e1 = e \<and> x = Inr (Some (control ''session_open'' (Some (op1\<lparr>so_genesisHash := g\<rparr>)) None None), g)"
    using True b p by (auto simp: booted_def c prepareSessionControlLocked_def control_def isSessionOpenControl_def op1_def g_def Let_def)
  moreover have "ComputeSessionOpenGenesis (lb_crypto lb) (op1\<lparr>so_genesisHash := g\<rparr>) = g"
    by (simp only: g_def ComputeSessionOpenGenesis_def preimage_genesis)
  ultimately show ?thesis using True n by (intro that [of "op1\<lparr>so_genesisHash := g\<rparr>" g]) (simp_all add: op1_def stamp_open_def)
next
  case False
  let ?op = "(stamp_open lb e op0)\<lparr>so_priorChainHead := em_priorTailHash e, so_priorChainSeq := em_priorTailSeq e, so_genesisHash := []\<rparr>"
  have "e1 = e \<and> x = Inr (Some (control ''session_open'' (Some ?op) None None), em_chainPrevHash e)"
    using False b p by (auto simp: booted_def c prepareSessionControlLocked_def control_def isSessionOpenControl_def Let_def)
  moreover have "em_priorTailHash e = em_chainPrevHash e" "em_priorTailSeq e = rcpt_seq (last disk)" using False b by (simp_all add: booted_def)
  ultimately show ?thesis using False n by (intro that [of ?op "em_chainPrevHash e"]) (simp_all add: stamp_open_def)
qed

lemma EmitSessionOpen_booted:
  assumes ok: "keys_ok (lb_crypto lb)" and b: "booted lb disk e" and ev: "evidence_ok lb K disk" and K: "signer_hex lb e \<in> K"
    and fresh: "em_runNonce e \<noteq> []" "run_opens (rev disk) (em_runNonce e) = None" and len: "length disk < 2 ^ 64"
    and rand: "rand \<noteq> []" and od: "on_disk lb env disk'"
    and step: "EmitSessionOpen lb env (Some rand) actionID e disk = (err, e', disk')"
  shows "disk' = disk \<and> \<not> em_sessionOpenEmitted e' \<or> tail_synced lb K disk' e'"
proof (cases "em_initErr e \<or> em_healthErr e \<or> em_rootEmitted e")
  case True
  with step b show ?thesis
    by (auto simp: EmitSessionOpen_def EmitDurable_def emitWithControl_def recordFailure_def booted_def split: if_splits)
next
  case False
  let ?op0 = "initial_open lb (hex_EncodeToString rand) e" and ?o = "(control_opts actionID ''pipelock://session/open'')
    \<lparr>eo_sessionControl := Some (control ''session_open'' (Some (initial_open lb (hex_EncodeToString rand) e)) None None)\<rparr>"
  have on: "so_openNonce ?op0 \<noteq> []" using rand length_hex [of rand] by (auto simp: initial_open_def)
  obtain x e1 where p: "prepareSessionControlLocked lb env (Some (control ''session_open'' (Some ?op0) None None)) e = (x, e1)" by force
  obtain op prev where c: "e1 = e" "x = Inr (Some (control ''session_open'' (Some op) None None), prev)" "so_runNonce op = em_runNonce e"
    "so_openNonce op = so_openNonce ?op0" "so_chainOpenSeq op = em_chainSeq e"
    "disk = [] \<Longrightarrow> prev = ComputeSessionOpenGenesis (lb_crypto lb) op \<and> so_genesisHash op = prev \<and> so_priorChainHead op = [] \<and> so_priorChainSeq op = 0"
    "disk \<noteq> [] \<Longrightarrow> prev = em_chainPrevHash e \<and> so_genesisHash op = [] \<and> so_priorChainHead op = em_chainPrevHash e \<and> so_priorChainSeq op = rcpt_seq (last disk)"
    by (rule open_control [OF b refl on _ _ p]) (simp_all add: initial_open_def)
  let ?ctl = "Some (control ''session_open'' (Some op) None None)"
  from step False p c have "emit_locked lb env True ?o ?ctl prev e disk = (err, e', disk')"
    by (simp add: EmitSessionOpen_def EmitDurable_def emitWithControl_def)
  then show ?thesis
  proof (cases rule: emit_locked_cases)
    case unchanged
    with b show ?thesis by (simp add: booted_def same_session_def)
  next
    case (receipt r h ph)
    note sg = Sign_verifies [OF ok receipt(1)]
    have r: "nonce r = em_runNonce e" "marker r = em_pendingTransition e" "ctrl r = ?ctl" "rcpt_open r = Some op" "rcpt_prev r = prev"
        "rcpt_seq r = em_chainSeq e" "rcpt_signerKey r = signer_hex lb e" "sessionClose (ctrl r) = None"
      using sg by (simp_all add: nonce_def marker_def ctrl_def signer_hex_def sessionOpen_def sessionClose_def control_def)
    have auth: "authentic (lb_crypto lb) (lb_json lb) r" using sg receipt(2) by (simp add: authentic_def)
    have at: "opened_at lb K disk e r op" using r auth c(3,4) on
      by (simp add: opened_at_def shape_ok_def control_def payload_count_def)
    have "evidence_ok lb K (disk @ [r])"
    proof (cases "disk = []")
      case True
      with b c(5,6) r show ?thesis using open_receipt_first [of lb K e r op] at fresh(1) K
        by (simp add: booted_def bound_genesis_def)
    next
      case ne: False
      have "linked (lb_crypto lb) (lb_json lb) K (last disk) r"
        using b ne r c(7) K evidence_seq [OF ev ne len] by (simp add: linked_def booted_def split: if_splits)
      then show ?thesis using open_receipt_next [OF at fresh(1) ne ev fresh(2)] b ne c(5,7) r by (simp add: booted_def)
    qed
    moreover note set = settle_write_on_disk [OF receipt(3) od]
    moreover have "isSessionOpenControl ?ctl" "\<not> isSessionCloseControl ?ctl" "open_nonce_of ?ctl = so_openNonce op"
      by (simp_all add: isSessionOpenControl_def isSessionCloseControl_def open_nonce_of_def control_def)
    ultimately have "tail_synced lb K disk' e'" using r c(3,4) on receipt(2) fresh b
      by (simp add: tail_synced_def same_chain_def advance_def signer_hex_def booted_def)
    then show ?thesis by simp
  qed
qed

section \<open>Histories\<close>

text \<open>
  The evidence and the running process after a history of starts and emissions whose receipts reach the
  disk. A start draws a run nonce no earlier receipt has; a signer is one of the keys \<open>K\<close>; nothing is
  emitted for a session that was closed. A process may stop at any point.
\<close>

inductive emitted :: "go_libs \<Rightarrow> string set \<Rightarrow> emitter option \<Rightarrow> receipt list \<Rightarrow> bool" for lb K where
  nothing: "emitted lb K None []"
| start: "emitted lb K st disk \<Longrightarrow> NewEmitter lb cfg (Some rand) (Some disk) = Some e \<Longrightarrow> \<not> em_initErr e \<Longrightarrow> signer_hex lb e \<in> K \<Longrightarrow>
    em_runNonce e \<notin> {[]} \<union> nonce ` set disk \<Longrightarrow> rand' \<noteq> [] \<Longrightarrow> on_disk lb env disk' \<Longrightarrow>
    EmitSessionOpen lb env (Some rand') actionID e disk = (err, e', disk') \<Longrightarrow>
    emitted lb K (if em_sessionOpenEmitted e' then Some e' else None) disk'"
| action: "emitted lb K (Some e) disk \<Longrightarrow> \<not> em_closeEmitted e \<Longrightarrow> on_disk lb env disk' \<Longrightarrow> eo_sessionControl o' = None \<Longrightarrow>
    Emit lb env o' e disk = (err, e', disk') \<or> EmitDurable lb env o' e disk = (err, e', disk') \<Longrightarrow> emitted lb K (Some e') disk'"
| heartbeat: "emitted lb K (Some e) disk \<Longrightarrow> \<not> em_closeEmitted e \<Longrightarrow> on_disk lb env disk' \<Longrightarrow>
    EmitHeartbeat lb env actionID e disk = (err, e', disk') \<Longrightarrow> emitted lb K (Some e') disk'"
| close: "emitted lb K (Some e) disk \<Longrightarrow> on_disk lb env disk' \<Longrightarrow>
    EmitSessionClose lb env actionID reason e disk = (err, e', disk') \<Longrightarrow> emitted lb K (Some e') disk'"
| root: "emitted lb K (Some e) disk \<Longrightarrow> EmitTranscriptRoot sid recordFails e = (res, e') \<Longrightarrow> emitted lb K (Some e') disk"
| config: "emitted lb K (Some e) disk \<Longrightarrow> emitted lb K (Some (UpdateConfigHash h e)) disk"
| unhealthy: "emitted lb K (Some e) disk \<Longrightarrow> emitted lb K (Some (MarkUnhealthy e)) disk"

inductive_cases emitted_runningE: "emitted lb K (Some e) disk"

definition history_ok :: "go_libs \<Rightarrow> string set \<Rightarrow> emitter option \<Rightarrow> receipt list \<Rightarrow> bool" where
  "history_ok lb K st disk \<longleftrightarrow> evidence_ok lb K disk \<and> (case st of None \<Rightarrow> True | Some e \<Rightarrow> tail_synced lb K disk e)"

lemma settle_write_extends: "settle_write lb durable env ctl r e disk = (err, e', disk') \<Longrightarrow> prefix disk disk'"
  by (auto simp: settle_write_def Let_def split: record_outcome.splits if_splits)

lemma emit_locked_extends: "emit_locked lb env durable o' ctl prev e disk = (err, e', disk') \<Longrightarrow> prefix disk disk'"
  by (erule emit_locked_cases) (auto dest: settle_write_extends)

lemma emitWithControl_extends: "emitWithControl lb env o' durable build e disk = (err, e', disk') \<Longrightarrow> prefix disk disk'"
  by (auto simp: emitWithControl_def dest: emit_locked_extends split: if_splits option.splits sum.splits prod.splits)

lemma EmitSessionOpen_extends: "EmitSessionOpen lb env rand actionID e disk = (err, e', disk') \<Longrightarrow> prefix disk disk'"
  by (auto simp: EmitSessionOpen_def EmitDurable_def dest: emitWithControl_extends split: option.splits)

lemma closed_close:
  assumes "em_closeEmitted e" "EmitSessionClose lb env actionID reason e disk = (err, e', disk')"
  shows "disk' = disk" "same_chain e e'" "same_session e e'"
  using assms by (auto simp: EmitSessionClose_def emitWithControl_def build_close_def split: if_splits option.splits)

lemma run_opens_fresh: "n \<notin> nonce ` set h \<Longrightarrow> run_opens h n = None"
  by (induction h) (auto split: option.splits)

lemma history_invariant:
  assumes "emitted lb K st disk" "keys_ok (lb_crypto lb)" "length disk < 2 ^ 64"
  shows "history_ok lb K st disk"
  using assms(1,3)
proof (induction rule: emitted.induct)
  case nothing
  show ?case by (simp add: history_ok_def evidence_ok_def)
next
  case (start st disk cfg rand e rand' env disk' actionID err e')
  have len: "length disk < 2 ^ 64" using prefix_length_le [OF EmitSessionOpen_extends [OF start(8)]] start.prems by simp
  with start.IH have ev: "evidence_ok lb K disk" by (simp add: history_ok_def)
  note b = NewEmitter_booted [OF start(2,3)]
  have "run_opens (rev disk) (em_runNonce e) = None" using start(5) by (intro run_opens_fresh) auto
  then have "disk' = disk \<and> \<not> em_sessionOpenEmitted e' \<or> tail_synced lb K disk' e'"
    using EmitSessionOpen_booted [OF assms(2) b(1) ev start(4) _ _ len start(6,7,8)] start(5) by blast
  then show ?case using ev by (auto simp: history_ok_def tail_synced_def)
next
  case (action e disk env disk' o' err e')
  then obtain d where st: "emitWithControl lb env o' d None e disk = (err, e', disk')" by (auto simp: Emit_def EmitDurable_def)
  have len: "length disk < 2 ^ 64" using prefix_length_le [OF emitWithControl_extends [OF st]] action.prems by simp
  with action.IH have "tail_synced lb K disk e" by (simp add: history_ok_def)
  from emitWithControl_synced [OF assms(2) this action(2) len action(3) _ st] action(4)
  show ?case by (simp add: history_ok_def tail_synced_def)
next
  case (heartbeat e disk env disk' actionID err e')
  note st = heartbeat(4) [unfolded EmitHeartbeat_def]
  have len: "length disk < 2 ^ 64" using prefix_length_le [OF emitWithControl_extends [OF st]] heartbeat.prems by simp
  with heartbeat.IH have "tail_synced lb K disk e" by (simp add: history_ok_def)
  from emitWithControl_synced [OF assms(2) this heartbeat(2) len heartbeat(3) _ st]
  show ?case by (simp add: history_ok_def tail_synced_def)
next
  case (close e disk env disk' actionID reason err e')
  note st = close(3) [unfolded EmitSessionClose_def]
  have len: "length disk < 2 ^ 64" using prefix_length_le [OF emitWithControl_extends [OF st]] close.prems by simp
  with close.IH have sync: "tail_synced lb K disk e" by (simp add: history_ok_def)
  show ?case
  proof (cases "em_closeEmitted e")
    case True
    from closed_close [OF True close(3)] tail_synced_same [OF sync] show ?thesis by (simp add: history_ok_def tail_synced_def)
  next
    case False
    have "tail_synced lb K disk' e'" by (rule emitWithControl_synced [OF assms(2) sync False len close(2) _ st]) blast
    then show ?thesis by (simp add: history_ok_def tail_synced_def)
  qed
next
  case (root e disk sid recordFails res e')
  have "same_chain e e'" "same_session e e'" using root(2)
    by (auto simp: EmitTranscriptRoot_def same_chain_def same_session_def recordFailure_def split: if_splits)
  with root show ?case using tail_synced_same by (auto simp: history_ok_def)
next
  case (config e disk h)
  have "same_chain e (UpdateConfigHash h e)" "same_session e (UpdateConfigHash h e)"
    by (simp_all add: UpdateConfigHash_def same_chain_def same_session_def)
  with config show ?case using tail_synced_same by (auto simp: history_ok_def)
next
  case (unhealthy e disk)
  have "same_chain e (MarkUnhealthy e)" "same_session e (MarkUnhealthy e)"
    by (simp_all add: MarkUnhealthy_def same_chain_def same_session_def)
  with unhealthy show ?case using tail_synced_same by (auto simp: history_ok_def)
qed

lemma history_verifies:
  assumes "keys_ok (lb_crypto lb)" "emitted lb (set ks) st disk" "length disk < 2 ^ 64" "disk \<noteq> []" "normalizeTrustedKeys keys = Some ks"
  shows "cres_valid (VerifyChainTrusted (lb_crypto lb) (lb_json lb) disk keys)"
proof -
  have "chain_integrity (lb_crypto lb) (lb_json lb) (set ks) disk" "chain_lifecycle disk"
    using history_invariant [OF assms(2,1,3)] assms(4) by (auto simp: history_ok_def evidence_ok_def)
  moreover from this(1) have "ks \<noteq> []" by (auto simp: chain_integrity_def)
  ultimately show ?thesis using VerifyChainTrusted_valid [OF assms(4,5)] by (simp add: anchors_def)
qed

text \<open>
  C3. What the emitter writes, the verifier accepts. Take a history of process starts, signing-key
  rotations, actions, heartbeats, session closes, configuration reloads and transcript roots in which
  every receipt reaches the disk as it was signed (no write is lost, and the recorder's scan of the signed receipt finds
  nothing to redact), nothing is emitted for a session after its close, each start draws an unused run nonce, and fewer than
  \<open>2 ^ 64\<close> receipts are written: the receipts on disk are a
  chain that \<^verbatim>\<open>VerifyChainTrusted\<close> accepts against the keys that signed it.
\<close>

theorem emitted_chain_verifies:
  assumes "keys_ok (lb_crypto lb)" "emitted lb (set ks) st disk" "length disk < 2 ^ 64" "disk \<noteq> []" "normalizeTrustedKeys keys = Some ks"
  shows "cres_valid (VerifyChainTrusted (lb_crypto lb) (lb_json lb) disk keys)"
  by (rule history_verifies [OF assms])

section \<open>What a successful or failed write leaves\<close>

lemma Marshal_signed: "Sign cr jl ar k = Inr r \<Longrightarrow> ReceiptHash cr jl r \<noteq> None"
  by (auto simp: Sign_def ReceiptHash_def Marshal_def canonicalActionRecord_def canonicalActionRecordV1_def split: if_splits option.splits)

lemma Sign_total:
  assumes "length k = 64" "Validate ar = None" "action_record_json jl ar \<noteq> None"
  obtains r h where "Sign cr jl ar k = Inr r" "ReceiptHash cr jl r = Some h" "rcpt_actionRecord r = ar" "rcpt_signerKey r = hex_EncodeToString (cr_public cr k)"
proof -
  from assms obtain r where r: "Sign cr jl ar k = Inr r" "rcpt_actionRecord r = ar" "rcpt_signerKey r = hex_EncodeToString (cr_public cr k)"
    by (auto simp: Sign_def canonicalActionRecord_def canonicalActionRecordV1_def)
  with Marshal_signed [OF r(1)] that show ?thesis by blast
qed

lemma NormalizeVerdict_nonempty: "v \<noteq> [] \<Longrightarrow> NormalizeVerdict v \<noteq> []"
  by (simp add: NormalizeVerdict_def verdictMap_def)

text \<open>What the caller must supply for a record to be valid.\<close>

definition decision_ok :: "go_libs \<Rightarrow> emit_env \<Rightarrow> emit_opts \<Rightarrow> bool" where
  "decision_ok lb env o' \<longleftrightarrow> eo_actionID o' \<noteq> [] \<and> eo_verdict o' \<noteq> [] \<and> eo_transport o' \<noteq> [] \<and>
     sanitizeTarget (lb_url lb) (eo_target o') (ee_clean env) \<noteq> [] \<and> ts_instant (ee_now env) \<noteq> zero_time \<and>
     jl_time (lb_json lb) (ee_now env) \<noteq> None \<and> all_some (map (taint_source_json (lb_json lb)) (eo_recentTaintSources o')) \<noteq> None \<and>
     (eo_policyHash o' = [] \<or> normalizeCanonicalPolicyHash (eo_policyHash o') \<noteq> None)"

lemma classifyAction_valid: "ValidActionType (classifyAction o')"
  using classified_valid by (simp add: classifyAction_def)

lemma build_record_valid:
  assumes "decision_ok lb env o'"
  shows "Validate (build_record lb env o' ph ctl prev e) = None" "action_record_json (lb_json lb) (build_record lb env o' ph ctl prev e) \<noteq> None"
  using assms NormalizeVerdict_nonempty [of "eo_verdict o'"] classifyAction_valid [of o']
  by (auto simp: Validate_def build_record_def decision_ok_def action_record_json_def)

lemma emit_locked_writes:
  assumes "decision_ok lb env o'" "length (em_privKey e) = 64"
  obtains r h ph where "Sign (lb_crypto lb) (lb_json lb) (build_record lb env o' ph ctl prev e) (em_privKey e) = Inr r"
    "ReceiptHash (lb_crypto lb) (lb_json lb) r = Some h" "rcpt_actionRecord r = build_record lb env o' ph ctl prev e"
    "emit_locked lb env durable o' ctl prev e disk = settle_write lb durable env ctl r (advance (ee_now env) h e) disk"
proof -
  from assms(1) obtain ph where ph: "(if eo_policyHash o' = [] then Some (em_configHash e) else normalizeCanonicalPolicyHash (eo_policyHash o')) = Some ph"
    by (cases "eo_policyHash o' = []") (auto simp: decision_ok_def)
  obtain r h where rh: "Sign (lb_crypto lb) (lb_json lb) (build_record lb env o' ph ctl prev e) (em_privKey e) = Inr r"
      "ReceiptHash (lb_crypto lb) (lb_json lb) r = Some h" "rcpt_actionRecord r = build_record lb env o' ph ctl prev e"
    by (rule Sign_total [OF assms(2) build_record_valid [OF assms(1)]])
  show ?thesis by (rule that [OF rh]) (simp add: emit_locked_def ph rh)
qed

lemma settle_plain:
  "ee_outcome env = RecOk \<Longrightarrow> settle_write lb False env None r e disk = (None, e, disk @ [redactReceiptDetail lb env r])"
  "ee_outcome env = RecFail d False \<Longrightarrow> settle_write lb False env None r e disk = (Some (ErrRecord d), recordFailure ''record'' e, disk)"
  by (simp_all add: settle_write_def isSessionOpenControl_def isSessionCloseControl_def)

lemma Emit_writes:
  assumes "decision_ok lb env o'" "length (em_privKey e) = 64" "eo_sessionControl o' = None"
    and "\<not> em_initErr e" "\<not> em_healthErr e" "\<not> em_rootEmitted e"
  obtains r h ph where "Sign (lb_crypto lb) (lb_json lb) (build_record lb env o' ph None (em_chainPrevHash e) e) (em_privKey e) = Inr r"
    "ReceiptHash (lb_crypto lb) (lb_json lb) r = Some h" "rcpt_actionRecord r = build_record lb env o' ph None (em_chainPrevHash e) e"
    "Emit lb env o' e disk = settle_write lb False env None r (advance (ee_now env) h e) disk"
proof -
  obtain r h ph where w: "Sign (lb_crypto lb) (lb_json lb) (build_record lb env o' ph None (em_chainPrevHash e) e) (em_privKey e) = Inr r"
    "ReceiptHash (lb_crypto lb) (lb_json lb) r = Some h" "rcpt_actionRecord r = build_record lb env o' ph None (em_chainPrevHash e) e"
    "emit_locked lb env False o' None (em_chainPrevHash e) e disk = settle_write lb False env None r (advance (ee_now env) h e) disk"
    by (rule emit_locked_writes [OF assms(1,2)])
  show ?thesis by (rule that [OF w(1-3)]) (use assms(3-6) w(4) in \<open>simp add: Emit_def emitWithControl_def prepareSessionControlLocked_def\<close>)
qed

text \<open>
  C22. Every decision leaves a receipt. While the emitter is healthy and the chain not sealed, emitting a
  well-formed decision whose write succeeds reports no error and puts exactly one entry at the end of
  the evidence. The signed receipt verifies under the emitter's key, states the verdict, the sanitized target
  and the action type of the decision, and links to the chain position the emitter had; the emitter
  moves to the hash of that receipt and the next number. The entry is that receipt, unless the recorder's redaction is on
  and its scan of the signed receipt finds a secret: then the recorder stores its redaction of the receipt instead.
\<close>

theorem decision_leaves_receipt:
  assumes "keys_ok (lb_crypto lb)" "length (em_privKey e) = 64" "decision_ok lb env o'" "eo_sessionControl o' = None" "ee_outcome env = RecOk"
    and "\<not> em_initErr e" "\<not> em_healthErr e" "\<not> em_rootEmitted e"
  shows "\<exists>r h raw. Emit lb env o' e disk = (None, advance (ee_now env) h e, disk @ [redactReceiptDetail lb env r]) \<and>
    Marshal (lb_json lb) r = Some raw \<and>
    redactReceiptDetail lb env r = (if ee_clean env = None \<or> the (ee_clean env) raw then r else ee_redacted env r) \<and>
    ReceiptHash (lb_crypto lb) (lb_json lb) r = Some h \<and>
    VerifyWithKey (lb_crypto lb) (lb_json lb) r (SignerKeyHex lb (Some e)) = None \<and>
    ar_verdict (rcpt_actionRecord r) = NormalizeVerdict (eo_verdict o') \<and> ar_actionType (rcpt_actionRecord r) = classifyAction o' \<and>
    ar_target (rcpt_actionRecord r) = sanitizeTarget (lb_url lb) (eo_target o') (ee_clean env) \<and>
    rcpt_seq r = em_chainSeq e \<and> rcpt_prev r = em_chainPrevHash e"
proof -
  obtain r h ph where w: "Sign (lb_crypto lb) (lb_json lb) (build_record lb env o' ph None (em_chainPrevHash e) e) (em_privKey e) = Inr r"
    "ReceiptHash (lb_crypto lb) (lb_json lb) r = Some h" "rcpt_actionRecord r = build_record lb env o' ph None (em_chainPrevHash e) e"
    "Emit lb env o' e disk = settle_write lb False env None r (advance (ee_now env) h e) disk"
    by (rule Emit_writes [OF assms(3,2,4,6-8)])
  have "settle_write lb False env None r (advance (ee_now env) h e) disk = (None, advance (ee_now env) h e, disk @ [redactReceiptDetail lb env r])"
    by (rule settle_plain(1) [OF assms(5)])
  moreover obtain raw where "Marshal (lb_json lb) r = Some raw" using w(2) by (auto simp: ReceiptHash_def split: option.splits)
  moreover from this have "redactReceiptDetail lb env r = (if ee_clean env = None \<or> the (ee_clean env) raw then r else ee_redacted env r)"
    by (simp add: redactReceiptDetail_def split: option.splits)
  moreover
  have "VerifyWithKey (lb_crypto lb) (lb_json lb) r (SignerKeyHex lb (Some e)) = None"
    using Sign_verifies(1) [OF assms(1) w(1)] assms(2) by (simp add: SignerKeyHex_def signer_hex_def)
  ultimately show ?thesis using w(2-4) by (intro exI [of _ r] exI [of _ h] exI [of _ raw]) (simp add: build_record_def)
qed

lemma Emit_off_disk:
  assumes "Emit lb env o' e disk = (Some (ErrRecord d), e', disk')" "eo_sessionControl o' = None" "ee_outcome env = RecFail d False"
  shows "em_chainSeq e' = em_chainSeq e + 1" "disk' = disk" "em_pendingTransition e' = None" "em_privKey e' = em_privKey e"
  using assms
  by (auto simp: Emit_def emitWithControl_def prepareSessionControlLocked_def emit_locked_def settle_write_def advance_def recordFailure_def
      isSessionOpenControl_def isSessionCloseControl_def Let_def split: if_splits option.splits sum.splits)

lemma Emit_appends:
  assumes "Emit lb env o' e disk = (err, e', disk')" "eo_sessionControl o' = None" "disk' \<noteq> disk" "on_disk lb env disk'"
  obtains r where "disk' = disk @ [r]" "rcpt_seq r = em_chainSeq e" "marker r = em_pendingTransition e" "nonce r = em_runNonce e"
    "ctrl r = None"
proof -
  from assms have st: "emit_locked lb env False o' None (em_chainPrevHash e) e disk = (err, e', disk')"
    by (auto simp: Emit_def emitWithControl_def prepareSessionControlLocked_def split: if_splits)
  then show ?thesis
  proof (cases rule: emit_locked_cases)
    case unchanged
    with assms show ?thesis by simp
  next
    case (receipt r h ph)
    have "disk' = disk @ [r]" by (rule settle_write_on_disk(1) [OF receipt(3) assms(4)])
    moreover have "rcpt_actionRecord r = build_record lb env o' ph None (em_chainPrevHash e) e" using receipt(1)
      by (auto simp: Sign_def split: if_splits option.splits)
    ultimately show ?thesis using that by (simp add: marker_def nonce_def ctrl_def)
  qed
qed

text \<open>
  Nothing in the emitter refuses an action after the session was closed, and the verifier rejects the chain from then on.
\<close>

theorem action_after_close_rejected:
  assumes "keys_ok (lb_crypto lb)" "emitted lb K (Some e) disk" "length disk < 2 ^ 64" "em_closeEmitted e" "eo_sessionControl o' = None"
    and "Emit lb env o' e disk = (err, e', disk')" "disk' \<noteq> disk" "on_disk lb env disk'"
  shows "\<not> cres_valid (VerifyChainTrusted (lb_crypto lb) (lb_json lb) disk' keys)"
proof
  assume v: "cres_valid (VerifyChainTrusted (lb_crypto lb) (lb_json lb) disk' keys)"
  have sync: "tail_synced lb K disk e" using history_invariant [OF assms(2,1,3)] by (simp add: history_ok_def)
  obtain r where r: "disk' = disk @ [r]" "nonce r = em_runNonce e" "ctrl r = None" using Emit_appends [OF assms(6,5,7,8)] by metis
  from valid_chain_facts [OF _ v] r(1) have "chain_lifecycle (disk @ [r])" by auto
  then have "lifecycle_ok (rev disk) r" by (simp add: chain_lifecycle_snoc)
  moreover have "rcpt_open r = None" using r(3) by (simp add: ctrl_def sessionOpen_def)
  ultimately show False using sync assms(4) r(2) by (simp add: lifecycle_ok_def tail_synced_def)
qed

text \<open>
  A lost receipt shows. When a write fails and leaves nothing on disk, the emitter has moved on all
  the same, so the next receipt that is written does not continue the evidence: the verifier rejects
  the chain, whatever keys it trusts. A failed write leaves a gap and never a silent omission.
\<close>

theorem lost_receipt_detected:
  assumes "keys_ok (lb_crypto lb)" "emitted lb K (Some e) disk" "length disk < 2 ^ 64" "eo_sessionControl o1 = None" "eo_sessionControl o2 = None"
    and "Emit lb env1 o1 e disk = (Some (ErrRecord d), e1, disk1)" "ee_outcome env1 = RecFail d False"
    and "Emit lb env2 o2 e1 disk1 = (err, e2, disk2)" "disk2 \<noteq> disk1" "on_disk lb env2 disk2"
  shows "\<not> cres_valid (VerifyChainTrusted (lb_crypto lb) (lb_json lb) disk2 keys)"
proof
  assume v: "cres_valid (VerifyChainTrusted (lb_crypto lb) (lb_json lb) disk2 keys)"
  have sync: "tail_synced lb K disk e" using history_invariant [OF assms(2,1,3)] by (simp add: history_ok_def)
  note off = Emit_off_disk [OF assms(6,4,7)]
  obtain r where r: "disk2 = disk @ [r]" "rcpt_seq r = em_chainSeq e + 1" "marker r = None"
    using Emit_appends [OF assms(8,5,9,10)] off by metis
  from valid_chain_facts [OF _ v] r obtain T where "chain_integrity (lb_crypto lb) (lb_json lb) T (disk @ [r])" by auto
  with sync have "linked (lb_crypto lb) (lb_json lb) T (last disk) r" by (simp add: chain_integrity_snoc tail_synced_def)
  then have "rcpt_seq r = rcpt_seq (last disk) + 1" using r(3) by (simp add: linked_def)
  moreover have "rcpt_seq r = rcpt_seq (last disk) + 1 + 1" using r(2) sync by (simp add: tail_synced_def)
  ultimately show False by simp
qed

end
