(* ===== verification/ReceiptEndorse.thy ===== *)
theory ReceiptEndorse
  imports ReceiptTamper
begin

text \<open>
  Endorsed key rotations (\<^verbatim>\<open>receipt/rotation_endorsement.go\<close> and \<^verbatim>\<open>VerifyChainWithEndorsements\<close> in
  \<^verbatim>\<open>receipt/chain.go\<close>): the retiring key signs the exact tail at which its successor takes over, and the
  verifier asks for one such endorsement at every key change. \<open>rfc3339\<close> stands for \<^verbatim>\<open>time.Parse\<close> with
  \<^verbatim>\<open>RFC3339Nano\<close>: the instant and its canonical UTC text. An index outside the receipts, which would
  panic, makes the result \<open>None\<close>.
\<close>

section \<open>Endorsements\<close>

record rotation_endorsement =
  re_version :: int
  re_sessionID :: string
  re_priorSignerKey :: string
  re_priorFinalSeq :: "64 word"
  re_priorTailHash :: string
  re_newSignerKey :: string
  re_rotatedAt :: string
  re_endorsement :: string

datatype endorsement_error =
    EndVersion | EndNoSession | EndPriorKey | EndNewKey | EndSameKey | EndTailHash | EndTime | EndNoSignature
  | EndPrivateKey | EndFormat | EndSignature | EndVerification

definition validHex :: "nat \<Rightarrow> string \<Rightarrow> bool" where
  "validHex n val \<longleftrightarrow> (case hex_DecodeString val of None \<Rightarrow> False | Some d \<Rightarrow> length d = n \<and> map ascii_lower val = val)"

definition validEd25519PublicKeyHex :: "string \<Rightarrow> bool" where
  "validEd25519PublicKeyHex val = validHex 32 val"

definition validSHA256Hex :: "string \<Rightarrow> bool" where
  "validSHA256Hex val = validHex 32 val"

definition validateRotationEndorsementFields ::
  "(string \<Rightarrow> (go_time \<times> string) option) \<Rightarrow> rotation_endorsement \<Rightarrow> bool \<Rightarrow> endorsement_error option" where
  "validateRotationEndorsementFields rfc3339 e requireSignature =
     (if re_version e \<noteq> 1 then Some EndVersion
      else if TrimSpace (re_sessionID e) = [] then Some EndNoSession
      else if \<not> validEd25519PublicKeyHex (re_priorSignerKey e) then Some EndPriorKey
      else if \<not> validEd25519PublicKeyHex (re_newSignerKey e) then Some EndNewKey
      else if re_priorSignerKey e = re_newSignerKey e then Some EndSameKey
      else if \<not> validSHA256Hex (re_priorTailHash e) then Some EndTailHash
      else if (case rfc3339 (re_rotatedAt e) of None \<Rightarrow> True | Some (t, canonical) \<Rightarrow> t = zero_time \<or> re_rotatedAt e \<noteq> canonical) then Some EndTime
      else if requireSignature \<and> re_endorsement e = [] then Some EndNoSignature
      else None)"

definition rotationEndorsementDomain :: string where
  "rotationEndorsementDomain = ''pipelock-rotation-endorsement-v1'' @ [CHR 0x00]"

definition endorsement_text :: "rotation_endorsement \<Rightarrow> string" where
  "endorsement_text e = rotationEndorsementDomain @ json_text (JObj
     [(''version'', JInt (re_version e)), (''session_id'', jstr (re_sessionID e)), (''prior_signer_key'', jstr (re_priorSignerKey e)),
      (''prior_final_seq'', u64 (re_priorFinalSeq e)), (''prior_tail_hash'', jstr (re_priorTailHash e)),
      (''new_signer_key'', jstr (re_newSignerKey e)), (''rotated_at'', jstr (re_rotatedAt e))])"

definition rotationEndorsementDigest :: "crypto \<Rightarrow> rotation_endorsement \<Rightarrow> string" where
  "rotationEndorsementDigest cr e = cr_sha256 cr (endorsement_text e)"

definition SignRotationEndorsement ::
  "crypto \<Rightarrow> (string \<Rightarrow> (go_time \<times> string) option) \<Rightarrow> rotation_endorsement \<Rightarrow> string \<Rightarrow> endorsement_error + rotation_endorsement" where
  "SignRotationEndorsement cr rfc3339 e0 privKey =
     (if length privKey \<noteq> 64 then Inl EndPrivateKey
      else let e = e0\<lparr>re_version := 1, re_priorSignerKey := hex_EncodeToString (cr_public cr privKey), re_endorsement := []\<rparr> in
        case validateRotationEndorsementFields rfc3339 e False of Some er \<Rightarrow> Inl er
        | None \<Rightarrow> Inr (e\<lparr>re_endorsement := signaturePrefix @ hex_EncodeToString (cr_sign cr privKey (rotationEndorsementDigest cr e))\<rparr>))"

definition VerifyRotationEndorsement ::
  "crypto \<Rightarrow> (string \<Rightarrow> (go_time \<times> string) option) \<Rightarrow> rotation_endorsement \<Rightarrow> endorsement_error option" where
  "VerifyRotationEndorsement cr rfc3339 e =
     (case validateRotationEndorsementFields rfc3339 e True of Some er \<Rightarrow> Some er
      | None \<Rightarrow> (case hex_DecodeString (re_priorSignerKey e) of None \<Rightarrow> Some EndPriorKey
      | Some pub \<Rightarrow>
          if length pub \<noteq> 32 then Some EndPriorKey
          else if \<not> has_prefix (re_endorsement e) signaturePrefix then Some EndFormat
          else case hex_DecodeString (drop (length signaturePrefix) (re_endorsement e)) of None \<Rightarrow> Some EndSignature
          | Some sig \<Rightarrow>
              if length sig \<noteq> 64 then Some EndSignature
              else if cr_verify cr pub (rotationEndorsementDigest cr e) sig then None else Some EndVerification))"

section \<open>The verifier\<close>

definition endorsementFailure :: "chain_result \<Rightarrow> string \<Rightarrow> string \<Rightarrow> chain_result" where
  "endorsementFailure base key msg =
     (let b = base\<lparr>cres_valid := False, cres_failureKind := FailTrust, cres_untrustedSignerKey := key, cres_error := msg\<rparr> in
      if key \<noteq> [] then b\<lparr>cres_endorsementGaps := [key]\<rparr> else b)"

text \<open>The index of the receipt before the first one of the key, from \<open>start\<close> on.\<close>

definition findRotationPriorTail :: "receipt list \<Rightarrow> nat \<Rightarrow> string \<Rightarrow> int option" where
  "findRotationPriorTail receipts start key =
     map_option (\<lambda>i. int i - 1) (find (\<lambda>i. rcpt_signerKey (receipts ! i) = key) [start..<length receipts])"

definition verifySignedRecorderSession :: "string \<Rightarrow> receipt list \<Rightarrow> string option" where
  "verifySignedRecorderSession expected receipts =
     (let firstBoundary = (case find (\<lambda>i. ar_keyTransition (rcpt_actionRecord (receipts ! i)) \<noteq> None) [1..<length receipts] of
            Some i \<Rightarrow> i | None \<Rightarrow> length receipts) in
      if list_ex (\<lambda>r. case rcpt_open r of Some op \<Rightarrow> so_recorderSession op \<noteq> expected | None \<Rightarrow> False) receipts
      then Some ''signed recorder session does not match endorsement session''
      else if list_ex (\<lambda>r. rcpt_open r \<noteq> None) (take firstBoundary receipts) then None
      else Some ''root receipt segment has no signed session_open recorder binding'')"

definition endorses :: "string \<Rightarrow> receipt \<Rightarrow> string \<Rightarrow> receipt \<Rightarrow> rotation_endorsement \<Rightarrow> bool" where
  "endorses sessionID prior priorHash boundary e \<longleftrightarrow>
     re_sessionID e = sessionID \<and> re_priorSignerKey e = rcpt_signerKey prior \<and> re_priorFinalSeq e = rcpt_seq prior \<and>
     re_priorTailHash e = priorHash \<and> re_newSignerKey e = rcpt_signerKey boundary"

fun endorse_walk ::
  "crypto \<Rightarrow> json_lib \<Rightarrow> string \<Rightarrow> receipt list \<Rightarrow> rotation_endorsement list \<Rightarrow> string list \<Rightarrow> int \<Rightarrow> nat list \<Rightarrow> chain_result \<Rightarrow> chain_result option" where
  "endorse_walk cr jl sid receipts es [] prior used base =
     Some (if length used \<noteq> length es then endorsementFailure base [] ''unused rotation endorsement does not match a required boundary'' else base)"
| "endorse_walk cr jl sid receipts es (key # keys) prior used base =
     (case findRotationPriorTail receipts (nat (prior + 1)) key of
        None \<Rightarrow> Some (endorsementFailure base key ''cannot locate rotation boundary'')
      | Some p \<Rightarrow>
          if p < 0 then None
          else case ReceiptHash cr jl (receipts ! nat p) of None \<Rightarrow> Some (endorsementFailure base key ''hash'')
          | Some priorHash \<Rightarrow>
              (case filter (\<lambda>i. i \<notin> set used \<and> endorses sid (receipts ! nat p) priorHash (receipts ! nat (p + 1)) (es ! i)) [0..<length es] of
                 [] \<Rightarrow> Some (endorsementFailure base key ''rotation endorsement does not match receipt boundary'')
               | [m] \<Rightarrow> endorse_walk cr jl sid receipts es keys p (used @ [m]) (base\<lparr>cres_trustBasis := cres_trustBasis base @ [''endorsed'']\<rparr>)
               | _ \<Rightarrow> Some (endorsementFailure base key ''multiple rotation endorsements match one receipt boundary'')))"

definition VerifyChainWithEndorsements ::
  "crypto \<Rightarrow> json_lib \<Rightarrow> (string \<Rightarrow> (go_time \<times> string) option) \<Rightarrow> string \<Rightarrow> receipt list \<Rightarrow> rotation_endorsement list \<Rightarrow> string list
   \<Rightarrow> chain_result option" where
  "VerifyChainWithEndorsements cr jl rfc3339 sid receipts es rootTrustedKeys =
     (if TrimSpace sid = [] then Some (zero_result\<lparr>cres_error := ''rotation endorsement verification requires a recorder session ID'', cres_failureKind := FailTrust\<rparr>)
      else if receipts = [] then
        Some (if es \<noteq> [] then zero_result\<lparr>cres_error := ''rotation endorsements supplied for an empty receipt chain'', cres_failureKind := FailTrust\<rparr>
          else zero_result\<lparr>cres_valid := True, cres_integrityVerified := True\<rparr>)
      else let base = VerifyChainTrusted cr jl receipts (rev (remdups (rev (map rcpt_signerKey receipts)))) in
        if \<not> cres_valid base then Some base
        else case normalizeTrustedKeys rootTrustedKeys of
          None \<Rightarrow> Some (base\<lparr>cres_valid := False, cres_failureKind := FailTrust, cres_error := ''trusted key set''\<rparr>)
        | Some roots \<Rightarrow>
            if roots = [] then Some (endorsementFailure base (rcpt_signerKey (hd receipts)) ''rotation endorsement verification requires at least one trusted root key'')
            else if rcpt_signerKey (hd receipts) \<notin> set roots
            then Some (endorsementFailure base (rcpt_signerKey (hd receipts)) ''genesis signer key is not in the trusted root set'')
            else case verifySignedRecorderSession sid receipts of Some msg \<Rightarrow> Some (endorsementFailure base [] msg)
            | None \<Rightarrow>
                (case find (\<lambda>e. VerifyRotationEndorsement cr rfc3339 e \<noteq> None) es of
                   Some e \<Rightarrow> Some (endorsementFailure base (re_newSignerKey e) ''invalid endorsement'')
                 | None \<Rightarrow> endorse_walk cr jl sid receipts es (map cs_signerKey (tl (cres_segments base))) (-1) [] (base\<lparr>cres_trustBasis := [''root'']\<rparr>)))"

section \<open>Segments\<close>

definition seg_inv :: "receipt list \<Rightarrow> chain_verifier \<Rightarrow> bool" where
  "seg_inv h v \<longleftrightarrow> h \<noteq> [] \<and> cv_curKey v = rcpt_signerKey (hd h) \<and>
     (\<exists>s. cv_curSeg v = Some s \<and> map cs_signerKey (cv_segments v) @ [cs_signerKey s] = remdups_adj (map rcpt_signerKey (rev h)))"

lemma session_control_segments:
  "validateSessionControl r v = Inr v' \<Longrightarrow> cv_curKey v' = cv_curKey v \<and> cv_segments v' = cv_segments v \<and> cv_curSeg v' = cv_curSeg v"
  by (auto simp: validateSessionControl_def Let_def split: option.splits if_splits sum.splits)

lemma advance_segments:
  "advanceReceiptHash cr jl r v = Inr v' \<Longrightarrow> cv_curKey v' = cv_curKey v \<and> cv_segments v' = cv_segments v \<and>
     map_option cs_signerKey (cv_curSeg v') = map_option cs_signerKey (cv_curSeg v)"
  by (auto simp: advanceReceiptHash_def option.map_comp comp_def split: option.splits)

lemma remdups_adj_snoc: "xs \<noteq> [] \<Longrightarrow> remdups_adj (xs @ [y]) = (if last xs = y then remdups_adj xs else remdups_adj xs @ [y])"
  by (simp add: remdups_adj_append'')

lemma step_segments:
  assumes "chain_step cr jl i r v = Inr v'" "i \<noteq> 0" "seg_inv h v"
  shows "seg_inv (r # h) v'"
proof -
  let ?v = "v\<lparr>cv_index := i\<rparr>"
  from assms(1,2) obtain v1 v2 where s1: "(case marker r of Some m \<Rightarrow> startRotatedSegment r m ?v | None \<Rightarrow> checkContinuation r ?v) = Inr v1"
    and int: "verifyReceiptIntegrity cr jl r i v1 = Inr ()"
    and s2: "(if cv_integrityOnly v1 then Inr v1 else validateSessionControl r v1) = Inr v2" and s3: "advanceReceiptHash cr jl r v2 = Inr v'"
    by (auto simp: chain_step_def Let_def and_then_def marker_def split: sum.splits option.splits)
  have key: "rcpt_signerKey r = cv_curKey v1" using int VerifyWithKey_own_key [of cr jl r "cv_curKey v1"]
    by (auto simp: verifyReceiptIntegrity_def Let_def split: if_splits)
  have "cv_curKey v2 = cv_curKey v1 \<and> cv_segments v2 = cv_segments v1 \<and> cv_curSeg v2 = cv_curSeg v1"
    using s2 session_control_segments [of r v1 v2] by (auto split: if_splits)
  with advance_segments [OF s3] have v': "cv_curKey v' = cv_curKey v1" "cv_segments v' = cv_segments v1"
    "map_option cs_signerKey (cv_curSeg v') = map_option cs_signerKey (cv_curSeg v1)" by auto
  from assms(3) obtain s where s: "h \<noteq> []" "cv_curKey v = rcpt_signerKey (hd h)" "cv_curSeg v = Some s"
    "map cs_signerKey (cv_segments v) @ [cs_signerKey s] = remdups_adj (map rcpt_signerKey (rev h))" by (auto simp: seg_inv_def)
  have snoc: "remdups_adj (map rcpt_signerKey (rev (r # h))) = (if rcpt_signerKey (hd h) = rcpt_signerKey r
      then remdups_adj (map rcpt_signerKey (rev h)) else remdups_adj (map rcpt_signerKey (rev h)) @ [rcpt_signerKey r])"
    using s(1) by (simp add: remdups_adj_snoc last_map last_rev)
  show ?thesis
  proof (cases "marker r")
    case None
    with s1 have "v1 = ?v" by (auto simp: checkContinuation_def split: option.splits if_splits sum.splits)
    with v' key s snoc show ?thesis by (auto simp: seg_inv_def)
  next
    case (Some m)
    with s1 have v1: "v1 = beginSegment r True ((closeSegment ?v)\<lparr>cv_curKey := rcpt_signerKey r, cv_segBaseSeq := 0\<rparr>)" "rcpt_signerKey r \<noteq> cv_curKey v"
      by (auto simp: startRotatedSegment_def split: if_splits sum.splits)
    then have "cv_segments v1 = cv_segments v @ [s]" "map_option cs_signerKey (cv_curSeg v1) = Some (rcpt_signerKey r)"
      using s(3) by (simp_all add: beginSegment_def appendSignerKey_def closeSegment_def)
    with v' key s snoc v1(2) show ?thesis by (auto simp: seg_inv_def)
  qed
qed

lemma walk_segments: "chain_walk cr jl i rs v = Inr v' \<Longrightarrow> i \<noteq> 0 \<Longrightarrow> seg_inv h v \<Longrightarrow> seg_inv (rev rs @ h) v'"
proof (induction rs arbitrary: i v h)
  case (Cons r rs)
  then obtain w where w: "chain_step cr jl i r v = Inr w" "chain_walk cr jl (Suc i) rs w = Inr v'"
    by (auto simp: and_then_def split: sum.splits)
  from Cons.IH [OF w(2) _ step_segments [OF w(1) Cons.prems(2,3)]] show ?case by simp
qed simp

lemma first_segment:
  assumes "chain_step cr jl 0 r (new_verifier keys io) = Inr v'"
  shows "seg_inv [r] v'"
proof -
  let ?v = "(new_verifier keys io)\<lparr>cv_index := 0\<rparr>"
  from assms obtain v1 v2 where s1: "startFirstSegment cr r ?v = Inr v1"
    and s2: "(if cv_integrityOnly v1 then Inr v1 else validateSessionControl r v1) = Inr v2" and s3: "advanceReceiptHash cr jl r v2 = Inr v'"
    by (auto simp: chain_step_def Let_def and_then_def split: sum.splits)
  have "cv_curKey v1 = rcpt_signerKey r \<and> cv_segments v1 = [] \<and> map_option cs_signerKey (cv_curSeg v1) = Some (rcpt_signerKey r)"
    using s1 by (auto simp: startFirstSegment_def Let_def beginSegment_def appendSignerKey_def new_verifier_def split: if_splits sum.splits)
  moreover have "cv_curKey v2 = cv_curKey v1 \<and> cv_segments v2 = cv_segments v1 \<and> cv_curSeg v2 = cv_curSeg v1"
    using s2 session_control_segments [of r v1 v2] by (auto split: if_splits)
  ultimately show ?thesis using advance_segments [OF s3] by (auto simp: seg_inv_def)
qed

lemma valid_segments:
  assumes "rs \<noteq> []" "cres_valid (VerifyChainTrusted cr jl rs keys)"
  shows "map cs_signerKey (cres_segments (VerifyChainTrusted cr jl rs keys)) = remdups_adj (map rcpt_signerKey rs)"
proof -
  note same = VerifyChainTrusted_valid_same [OF assms]
  from same(2) assms(1) obtain ks where ks: "normalizeTrustedKeys keys = Some ks"
    by (auto simp: verifyChainTrusted_def zero_result_def split: option.splits)
  then have run: "verifyChainTrusted cr jl rs keys False = chain_run cr jl rs (new_verifier ks False)"
    using assms(1) by (simp add: verifyChainTrusted_def)
  with same(2) obtain v where v: "chain_walk cr jl 0 rs (new_verifier ks False) = Inr v"
    using walk_Inl by (cases "chain_walk cr jl 0 rs (new_verifier ks False)") (auto simp: chain_run_def)
  obtain r rs' where rs: "rs = r # rs'" using assms(1) by (cases rs) auto
  from v obtain w where w: "chain_step cr jl 0 r (new_verifier ks False) = Inr w" "chain_walk cr jl 1 rs' w = Inr v"
    by (auto simp: rs and_then_def split: sum.splits)
  from walk_segments [OF w(2) _ first_segment [OF w(1)]] have "seg_inv (rev rs) v" by (simp add: rs)
  then obtain s where "cv_curSeg v = Some s" "map cs_signerKey (cv_segments v) @ [cs_signerKey s] = remdups_adj (map rcpt_signerKey rs)"
    by (auto simp: seg_inv_def)
  then show ?thesis by (simp add: same(1) run chain_run_def v closeSegment_def zero_result_def Let_def)
qed

section \<open>Every rotation is endorsed\<close>

lemma find_upt_first:
  assumes "s \<le> n" "n < m" "P n" "\<And>i. s \<le> i \<Longrightarrow> i < n \<Longrightarrow> \<not> P i"
  shows "find P [s..<m] = Some n"
  using assms by (auto simp: find_Some_iff intro!: exI [of _ "n - s"])

lemma remdups_adj_next:
  assumes "tl (remdups_adj (map f (drop s xs))) = k # ks" "s < length xs"
  obtains n where "s < n" "n < length xs" "f (xs ! n) = k" "k \<noteq> f (xs ! s)" "\<forall>i. s \<le> i \<and> i < n \<longrightarrow> f (xs ! i) = f (xs ! s)"
    "tl (remdups_adj (map f (drop n xs))) = ks"
proof -
  let ?x = "f (xs ! s)" and ?ys = "map f (drop (Suc s) xs)"
  have "drop s xs = xs ! s # drop (Suc s) xs" using assms(2) by (rule Cons_nth_drop_Suc [symmetric])
  with assms(1) have r: "remdups_adj (dropWhile (\<lambda>y. y = ?x) ?ys) = k # ks" by (simp add: remdups_adj_Cons')
  define m where "m = length (takeWhile (\<lambda>y. y = ?x) ?ys)"
  have d: "dropWhile (\<lambda>y. y = ?x) ?ys = drop m ?ys" by (simp add: m_def dropWhile_eq_drop)
  with r have ne: "drop m ?ys \<noteq> []" by auto
  then have len: "Suc s + m < length xs" by simp
  have hd: "hd (drop m ?ys) = f (xs ! (Suc s + m))" using len by (simp add: hd_drop_conv_nth)
  have k: "hd (drop m ?ys) = k" using r d by (metis hd_remdups_adj list.sel(1))
  show ?thesis
  proof (rule that [of "Suc s + m"])
    show "f (xs ! (Suc s + m)) = k" using hd k by simp
    show "k \<noteq> ?x" using ne d k hd_dropWhile [of "\<lambda>y. y = ?x" ?ys] by metis
    have "f (xs ! i) = ?x" if "s \<le> i" "i < Suc s + m" for i
    proof (cases "i = s")
      case False
      with that have "i - Suc s < m" by simp
      then have "?ys ! (i - Suc s) = ?x" using nth_length_takeWhile set_takeWhileD [of "?ys ! (i - Suc s)" "\<lambda>y. y = ?x" ?ys]
        by (metis m_def nth_mem takeWhile_nth)
      with that False len show ?thesis by simp
    qed simp
    then show "\<forall>i. s \<le> i \<and> i < Suc s + m \<longrightarrow> f (xs ! i) = ?x" by blast
    have "map f (drop (Suc s + m) xs) = drop m ?ys" by (simp add: drop_map add.commute)
    then show "tl (remdups_adj (map f (drop (Suc s + m) xs))) = ks" using r d by simp
  qed (use len in simp_all)
qed

lemma failure_invalid [simp]: "\<not> cres_valid (endorsementFailure base key msg)"
  by (simp add: endorsementFailure_def Let_def)

lemma endorse_walk_sound:
  assumes "endorse_walk cr jl sid rs es keys prior used base = res" "keys = tl (remdups_adj (map rcpt_signerKey (drop start rs)))"
    "start < length rs" "prior = int start - 1"
  shows "\<exists>x. res = Some x \<and> (cres_valid x \<longrightarrow> (\<forall>i \<ge> start. Suc i < length rs \<longrightarrow> rcpt_signerKey (rs ! Suc i) \<noteq> rcpt_signerKey (rs ! i) \<longrightarrow>
     (\<exists>e h. e \<in> set es \<and> ReceiptHash cr jl (rs ! i) = Some h \<and> endorses sid (rs ! i) h (rs ! Suc i) e)))"
  using assms
proof (induction keys arbitrary: prior used base start)
  case Nil
  have "rcpt_signerKey (rs ! Suc i) = rcpt_signerKey (rs ! i)" if "start \<le> i" "Suc i < length rs" for i
  proof -
    obtain x where x: "remdups_adj (map rcpt_signerKey (drop start rs)) = [x]"
      using Nil(2,3) by (cases "remdups_adj (map rcpt_signerKey (drop start rs))") auto
    then have "set (map rcpt_signerKey (drop start rs)) = {x}" by (metis list.set(1,2) remdups_adj_set)
    moreover have "rs ! j \<in> set (drop start rs)" if "start \<le> j" "j < length rs" for j
      using that by (auto simp: in_set_conv_nth intro!: exI [of _ "j - start"])
    ultimately show ?thesis using that by (metis (no_types) Suc_lessD imageI le_SucI list.set_map singletonD)
  qed
  with Nil(1) show ?case by auto
next
  case (Cons k ks)
  obtain n where n: "start < n" "n < length rs" "rcpt_signerKey (rs ! n) = k" "k \<noteq> rcpt_signerKey (rs ! start)"
    "\<forall>i. start \<le> i \<and> i < n \<longrightarrow> rcpt_signerKey (rs ! i) = rcpt_signerKey (rs ! start)" "tl (remdups_adj (map rcpt_signerKey (drop n rs))) = ks"
    by (rule remdups_adj_next [OF Cons.prems(2) [symmetric] Cons.prems(3)])
  have "find (\<lambda>i. rcpt_signerKey (rs ! i) = k) [start..<length rs] = Some n"
  proof (rule find_upt_first)
    show "rcpt_signerKey (rs ! i) \<noteq> k" if "start \<le> i" "i < n" for i using n(4) n(5) that by metis
  qed (use n(1-3) in auto)
  then have f: "findRotationPriorTail rs (nat (prior + 1)) k = Some (int n - 1)" using Cons.prems(4) by (simp add: findRotationPriorTail_def)
  have idx: "nat (int n - 1) = n - 1" "nat (int n - 1 + 1) = n" "\<not> int n - 1 < 0" using n(1) by auto
  show ?case
  proof (cases "ReceiptHash cr jl (rs ! (n - 1))")
    case None
    with Cons.prems(1) f idx show ?thesis by auto
  next
    case (Some h)
    let ?ms = "filter (\<lambda>i. i \<notin> set used \<and> endorses sid (rs ! (n - 1)) h (rs ! n) (es ! i)) [0..<length es]"
    show ?thesis
    proof (cases "\<exists>m. ?ms = [m]")
      case False
      then have "\<exists>msg. res = Some (endorsementFailure base k msg)" using Cons.prems(1) f idx Some
        by (auto split: list.splits)
      then show ?thesis by auto
    next
      case True
      then obtain m where m: "?ms = [m]" ..
      have "m \<in> set ?ms" unfolding m by simp
      then have e: "m < length es" "endorses sid (rs ! (n - 1)) h (rs ! n) (es ! m)" unfolding set_filter by simp_all
      have "endorse_walk cr jl sid rs es ks (int n - 1) (used @ [m]) (base\<lparr>cres_trustBasis := cres_trustBasis base @ [''endorsed'']\<rparr>) = res"
        using Cons.prems(1) f idx Some m by simp
      from Cons.IH [OF this n(6) [symmetric] n(2) refl] obtain x where x: "res = Some x"
        "cres_valid x \<longrightarrow> (\<forall>i \<ge> n. Suc i < length rs \<longrightarrow> rcpt_signerKey (rs ! Suc i) \<noteq> rcpt_signerKey (rs ! i) \<longrightarrow>
           (\<exists>e h. e \<in> set es \<and> ReceiptHash cr jl (rs ! i) = Some h \<and> endorses sid (rs ! i) h (rs ! Suc i) e))" by blast
      have "\<exists>e h. e \<in> set es \<and> ReceiptHash cr jl (rs ! i) = Some h \<and> endorses sid (rs ! i) h (rs ! Suc i) e"
        if "cres_valid x" "start \<le> i" "Suc i < length rs" "rcpt_signerKey (rs ! Suc i) \<noteq> rcpt_signerKey (rs ! i)" for i
      proof (cases "n \<le> i")
        case True
        with x(2) that show ?thesis by blast
      next
        case False
        have "Suc i = n"
        proof (rule ccontr)
          assume "Suc i \<noteq> n"
          with False have "i < n" "Suc i < n" by simp_all
          with n(5) that(2) have "rcpt_signerKey (rs ! Suc i) = rcpt_signerKey (rs ! i)" by (metis le_Suc_eq)
          with that(4) show False ..
        qed
        then have "n - 1 = i" by simp
        with \<open>Suc i = n\<close> e Some nth_mem [OF e(1)] show ?thesis by (intro exI [of _ "es ! m"] exI [of _ h]) auto
      qed
      with x(1) show ?thesis by blast
    qed
  qed
qed

lemma normalize_signers: "\<exists>ks. normalizeTrustedKeys keys = Some ks \<Longrightarrow> normalizeTrustedKeys keys = Some (map TrimSpace keys)"
  by (induction keys) (auto simp: Let_def split: if_splits)

lemma VerifyRotationEndorsement_signed:
  assumes "VerifyRotationEndorsement cr rfc3339 e = None"
  obtains pub sig where "hex_DecodeString (re_priorSignerKey e) = Some pub" "hex_DecodeString (drop 8 (re_endorsement e)) = Some sig"
    "cr_verify cr pub (rotationEndorsementDigest cr e) sig"
  using assms by (auto simp: VerifyRotationEndorsement_def signaturePrefix_def eval_nat_numeral split: option.splits if_splits)

text \<open>
  C7. Every key rotation of an endorsed chain was authorised by the key it retires. A chain accepted with
  endorsements is accepted by the chain verifier, begins under a root key, and wherever the signer
  changes there is an endorsement of this recorder session that names the retiring key, the successor
  and the number and hash of the exact tail; its digest was signed with the retiring key, provided
  signatures cannot be forged. The verification never indexes outside the receipts.
\<close>

theorem endorsed_rotations_authorised:
  assumes "rs \<noteq> []"
  shows "\<exists>res. VerifyChainWithEndorsements cr jl rfc3339 sid rs es roots = Some res \<and> (cres_valid res \<longrightarrow>
    cres_valid (VerifyChainTrusted cr jl rs (rev (remdups (rev (map rcpt_signerKey rs))))) \<and> rcpt_signerKey (hd rs) \<in> set (map TrimSpace roots) \<and>
    (\<forall>i known signed_by. Suc i < length rs \<and> rcpt_signerKey (rs ! Suc i) \<noteq> rcpt_signerKey (rs ! i) \<and> unforgeable cr known signed_by \<and>
        (\<forall>e \<in> set es. \<forall>s. hex_DecodeString (drop 8 (re_endorsement e)) = Some s \<longrightarrow> s \<in> known) \<longrightarrow>
      (\<exists>e pub. e \<in> set es \<and> re_sessionID e = sid \<and> re_priorSignerKey e = rcpt_signerKey (rs ! i) \<and> re_newSignerKey e = rcpt_signerKey (rs ! Suc i) \<and>
         re_priorFinalSeq e = rcpt_seq (rs ! i) \<and> ReceiptHash cr jl (rs ! i) = Some (re_priorTailHash e) \<and>
         hex_DecodeString (rcpt_signerKey (rs ! i)) = Some pub \<and> rotationEndorsementDigest cr e \<in> signed_by pub)))"
proof -
  let ?keys = "rev (remdups (rev (map rcpt_signerKey rs)))"
  let ?base = "VerifyChainTrusted cr jl rs ?keys"
  show ?thesis
  proof (cases "TrimSpace sid \<noteq> [] \<and> cres_valid ?base \<and> normalizeTrustedKeys roots \<noteq> None \<and> rcpt_signerKey (hd rs) \<in> set (the (normalizeTrustedKeys roots)) \<and>
      verifySignedRecorderSession sid rs = None \<and> (\<forall>e \<in> set es. VerifyRotationEndorsement cr rfc3339 e = None)")
    case False
    then have "\<exists>res. VerifyChainWithEndorsements cr jl rfc3339 sid rs es roots = Some res \<and> \<not> cres_valid res"
      using assms by (auto simp: VerifyChainWithEndorsements_def Let_def zero_result_def find_None_iff split: option.splits)
    then show ?thesis by blast
  next
    case True
    then obtain ks where ks: "normalizeTrustedKeys roots = Some ks" "ks = map TrimSpace roots" using normalize_signers [of roots] by auto
    have ok: "find (\<lambda>e. VerifyRotationEndorsement cr rfc3339 e \<noteq> None) es = None" using True by (auto simp: find_None_iff)
    have seg: "map cs_signerKey (tl (cres_segments ?base)) = tl (remdups_adj (map rcpt_signerKey (drop 0 rs)))"
      using valid_segments [OF assms, of cr jl ?keys] True by (simp add: map_tl)
    have "VerifyChainWithEndorsements cr jl rfc3339 sid rs es roots =
        endorse_walk cr jl sid rs es (map cs_signerKey (tl (cres_segments ?base))) (- 1) [] (?base\<lparr>cres_trustBasis := [''root'']\<rparr>)"
      using True assms ks(1) ok by (auto simp: VerifyChainWithEndorsements_def Let_def)
    from endorse_walk_sound [OF this [symmetric] seg] assms obtain res where res: "VerifyChainWithEndorsements cr jl rfc3339 sid rs es roots = Some res"
      "cres_valid res \<longrightarrow> (\<forall>i. Suc i < length rs \<longrightarrow> rcpt_signerKey (rs ! Suc i) \<noteq> rcpt_signerKey (rs ! i) \<longrightarrow>
         (\<exists>e h. e \<in> set es \<and> ReceiptHash cr jl (rs ! i) = Some h \<and> endorses sid (rs ! i) h (rs ! Suc i) e))" by auto
    have "\<exists>pub. hex_DecodeString (re_priorSignerKey e) = Some pub \<and> rotationEndorsementDigest cr e \<in> signed_by pub"
      if "e \<in> set es" "unforgeable cr known signed_by" "\<forall>e \<in> set es. \<forall>s. hex_DecodeString (drop 8 (re_endorsement e)) = Some s \<longrightarrow> s \<in> known"
      for e known signed_by
    proof -
      from True that(1) have "VerifyRotationEndorsement cr rfc3339 e = None" by blast
      then obtain pub sig where "hex_DecodeString (re_priorSignerKey e) = Some pub" "hex_DecodeString (drop 8 (re_endorsement e)) = Some sig"
        "cr_verify cr pub (rotationEndorsementDigest cr e) sig" by (rule VerifyRotationEndorsement_signed)
      with that show ?thesis unfolding unforgeable_def by blast
    qed
    with res True ks show ?thesis by (auto simp: endorses_def) metis+
  qed
qed

end
