(* ===== verification/ReceiptWitness.thy ===== *)
theory ReceiptWitness
  imports ReceiptRoundtrip ReceiptEndorse
begin

text \<open>
  One small history of the receipt emitter, evaluated: a process starts on an empty directory, records a
  decision and closes its session. The theorems on chains are applied to its evidence. The digest is the
  text itself and a signature the first 64 characters of the padded digest, so every law the theorems
  ask of the cryptography holds here.
\<close>

definition demo_signature :: "string \<Rightarrow> string" where
  "demo_signature m = take 64 (m @ replicate 64 CHR '' '')"

definition demo_libs :: go_libs where
  "demo_libs = \<lparr>lb_crypto = \<lparr>cr_sha256 = (\<lambda>d. d), cr_public = take 32, cr_sign = (\<lambda>k. demo_signature), cr_verify = (\<lambda>pk m s. s = demo_signature m)\<rparr>,
     lb_json = \<lparr>jl_time = (\<lambda>_. Some ''2026-01-02T03:04:05Z''), jl_compact = Some\<rparr>,
     lb_url = \<lparr>ul_parse = (\<lambda>_. None), ul_string = tu_path\<rparr>\<rparr>"

definition demo_config :: emitter_config where
  "demo_config = \<lparr>ec_privKey = replicate 64 CHR ''k'', ec_configHash = ''c0ffee'', ec_principal = ''local'', ec_actor = ''agent'',
     ec_heartbeatSeconds = 30, ec_postureBinding = \<lparr>pb_capsuleSHA256 = [], pb_signerKeyID = [], pb_containmentNonce = [], pb_containedUID = []\<rparr>\<rparr>"

definition demo_key :: string where
  "demo_key = hex_EncodeToString (replicate 32 CHR ''k'')"

definition demo_env :: "record_outcome \<Rightarrow> emit_env" where
  "demo_env out = \<lparr>ee_now = \<lparr>ts_instant = 1000, ts_offset = 0\<rparr>, ee_heartbeatTime = [], ee_fsyncErrors = 0, ee_clean = None, ee_redacted = id, ee_outcome = out\<rparr>"

definition demo_new :: emitter where
  "demo_new = fresh_emitter demo_config (hex_EncodeToString ''run'')"

definition demo_opts :: emit_opts where
  "demo_opts = zero_opts\<lparr>eo_actionID := ''a2'', eo_verdict := ''block'', eo_transport := ''forward'', eo_method := ''GET'', eo_target := ''https://x.test/''\<rparr>"

definition demo_start :: "emit_error option \<times> emitter \<times> receipt list" where
  "demo_start = EmitSessionOpen demo_libs (demo_env RecOk) (Some ''open'') ''a1'' demo_new []"

definition demo_action :: "emit_error option \<times> emitter \<times> receipt list" where
  "demo_action = Emit demo_libs (demo_env RecOk) demo_opts (fst (snd demo_start)) (snd (snd demo_start))"

definition demo_close :: "emit_error option \<times> emitter \<times> receipt list" where
  "demo_close = EmitSessionClose demo_libs (demo_env RecOk) ''a3'' ''shutdown'' (fst (snd demo_action)) (snd (snd demo_action))"

lemma demo_unredacted [simp]: "redactReceiptDetail lb (demo_env out) r = r" "on_disk lb (demo_env RecOk) disk'"
  by (simp_all add: redactReceiptDetail_def on_disk_def demo_env_def)

lemma demo_zero: "1000 \<noteq> (zero_time :: int)"
  by (simp add: zero_time_def)

lemma demo_decision: "decision_ok demo_libs (demo_env out) demo_opts"
  by (simp add: decision_ok_def demo_libs_def demo_env_def demo_opts_def zero_opts_def sanitizeTarget_def demo_zero)

lemma demo_keys: "keys_ok (lb_crypto demo_libs)"
  by (auto simp: keys_ok_def crypto_ok_def demo_libs_def demo_signature_def min_def)

lemma control_decision: "a \<noteq> [] \<Longrightarrow> t \<noteq> [] \<Longrightarrow> decision_ok demo_libs (demo_env out) ((control_opts a t)\<lparr>eo_sessionControl := c\<rparr>)"
  "a \<noteq> [] \<Longrightarrow> t \<noteq> [] \<Longrightarrow> decision_ok demo_libs (demo_env out) (control_opts a t)"
  by (simp_all add: decision_ok_def demo_libs_def demo_env_def control_opts_def zero_opts_def sanitizeTarget_def demo_zero)

text \<open>A running session of the demo process.\<close>

definition running :: "emitter \<Rightarrow> bool" where
  "running e \<longleftrightarrow> \<not> em_initErr e \<and> \<not> em_healthErr e \<and> \<not> em_rootEmitted e \<and> \<not> em_closeEmitted e \<and> length (em_privKey e) = 64"

lemma demo_started:
  obtains e r where "demo_start = (None, e, [r])" "running e" "em_sessionOpenEmitted e"
proof -
  let ?o = "(control_opts ''a1'' ''pipelock://session/open'')\<lparr>eo_sessionControl :=
    Some (control ''session_open'' (Some (initial_open demo_libs (hex_EncodeToString ''open'') demo_new)) None None)\<rparr>"
  have k: "length (em_privKey demo_new) = 64" by (simp add: demo_new_def fresh_emitter_def demo_config_def)
  obtain op prev where p: "prepareSessionControlLocked demo_libs (demo_env RecOk) (eo_sessionControl ?o) demo_new =
      (Inr (Some (control ''session_open'' (Some op) None None), prev), demo_new)"
    by (simp add: prepareSessionControlLocked_def control_def isSessionOpenControl_def demo_new_def fresh_emitter_def Let_def)
  have d: "decision_ok demo_libs (demo_env RecOk) ?o" by (rule control_decision) simp_all
  obtain r h where w: "emit_locked demo_libs (demo_env RecOk) True ?o (Some (control ''session_open'' (Some op) None None)) prev demo_new [] =
      settle_write demo_libs True (demo_env RecOk) (Some (control ''session_open'' (Some op) None None)) r (advance (ee_now (demo_env RecOk)) h demo_new) []"
    using emit_locked_writes [OF d k] by metis
  let ?e = "(advance (ee_now (demo_env RecOk)) h demo_new)\<lparr>em_sessionOpenEmitted := True, em_openNonce := so_openNonce op\<rparr>"
  have "demo_start = (None, ?e, [r])" using p w demo_unredacted(1) [unfolded demo_env_def]
    by (simp add: demo_start_def EmitSessionOpen_def EmitDurable_def emitWithControl_def demo_new_def fresh_emitter_def settle_write_def
        demo_env_def isSessionOpenControl_def isSessionCloseControl_def open_nonce_of_def control_def)
  moreover have "running ?e" using k by (simp add: running_def advance_def demo_new_def fresh_emitter_def)
  ultimately show ?thesis using that by simp
qed

lemma demo_acted:
  obtains e0 r0 e r where "demo_start = (None, e0, [r0])" "em_sessionOpenEmitted e0" "running e0" "demo_action = (None, e, [r0, r])" "running e"
proof -
  obtain e0 r0 where s: "demo_start = (None, e0, [r0])" "running e0" "em_sessionOpenEmitted e0" by (rule demo_started)
  have o: "eo_sessionControl demo_opts = None" "ee_outcome (demo_env RecOk) = RecOk" by (simp_all add: demo_opts_def zero_opts_def demo_env_def)
  obtain r h where "Emit demo_libs (demo_env RecOk) demo_opts e0 [r0] =
      settle_write demo_libs False (demo_env RecOk) None r (advance (ee_now (demo_env RecOk)) h e0) [r0]"
    by (rule Emit_writes [OF demo_decision [of RecOk] _ o(1), where e = e0 and disk = "[r0]"]) (use s(2) in \<open>auto simp: running_def\<close>)
  with settle_plain(1) [OF o(2)] have a: "demo_action = (None, advance (ee_now (demo_env RecOk)) h e0, [r0, r])" unfolding demo_action_def s(1) by simp
  show ?thesis by (rule that [OF s(1,3,2) a]) (use s(2) in \<open>simp add: running_def advance_def\<close>)
qed

lemma demo_history:
  "emitted demo_libs (set [demo_key]) (Some (fst (snd demo_action))) (snd (snd demo_action))"
  "emitted demo_libs (set [demo_key]) (Some (fst (snd demo_start))) (snd (snd demo_start))"
proof -
  obtain e0 r0 e r where d: "demo_start = (None, e0, [r0])" "em_sessionOpenEmitted e0" "running e0" "demo_action = (None, e, [r0, r])" "running e"
    by (rule demo_acted)
  have n: "NewEmitter demo_libs demo_config (Some ''run'') (Some []) = Some demo_new"
    by (simp add: NewEmitter_def demo_config_def resumeChain_def demo_new_def fresh_emitter_def)
  have f: "\<not> em_initErr demo_new" "signer_hex demo_libs demo_new \<in> set [demo_key]" "em_runNonce demo_new \<notin> {[]} \<union> nonce ` set []"
    by (simp_all add: demo_new_def fresh_emitter_def signer_hex_def demo_libs_def demo_config_def demo_key_def hex_EncodeToString_def hex_byte_def)
  note od = demo_unredacted(2)
  from emitted.start [OF emitted.nothing n f _ od d(1) [unfolded demo_start_def]] d(2)
  have s: "emitted demo_libs (set [demo_key]) (Some e0) [r0]" by simp
  then show "emitted demo_libs (set [demo_key]) (Some (fst (snd demo_start))) (snd (snd demo_start))" unfolding d(1) by simp
  from d(4) have a: "Emit demo_libs (demo_env RecOk) demo_opts e0 [r0] = (None, e, [r0, r])" unfolding demo_action_def d(1) by simp
  have "eo_sessionControl demo_opts = None" by (simp add: demo_opts_def zero_opts_def)
  from emitted.action [OF s _ od this disjI1 [OF a]] d(3)
  show "emitted demo_libs (set [demo_key]) (Some (fst (snd demo_action))) (snd (snd demo_action))" unfolding d(4) by (simp add: running_def)
qed

abbreviation demo_chain :: "receipt list" where
  "demo_chain \<equiv> snd (snd demo_action)"

abbreviation demo_crypto_lib :: crypto where
  "demo_crypto_lib \<equiv> lb_crypto demo_libs"

lemma demo_keys_trimmed: "normalizeTrustedKeys [demo_key] = Some [demo_key]"
proof -
  have ne: "demo_key \<noteq> []" by (simp add: demo_key_def hex_EncodeToString_def hex_byte_def)
  moreover have "list_all plain_char demo_key" unfolding list_all_iff demo_key_def
    by (auto simp: plain_char_def digit_like_def dest!: hex_byte_set)
  ultimately have "TrimSpace demo_key = demo_key" by (rule TrimSpace_plain)
  with ne show ?thesis by simp
qed

lemma demo_length: "length demo_chain = 2"
proof -
  obtain e r0 r where a: "demo_action = (None, e, [r0, r])" by (rule demo_acted)
  show ?thesis unfolding a by simp
qed

lemma demo_nonempty: "demo_chain \<noteq> []"
  using demo_length by auto

lemma demo_valid: "cres_valid (VerifyChainTrusted demo_crypto_lib (lb_json demo_libs) demo_chain [demo_key])"
  by (rule history_verifies [OF demo_keys demo_history(1) _ demo_nonempty demo_keys_trimmed]) (simp add: demo_length)

theorem emitted_chain_verifies_witness:
  "length demo_chain = 2 \<and> cres_valid (VerifyChainTrusted demo_crypto_lib (lb_json demo_libs) demo_chain [demo_key])"
  using emitted_chain_verifies [OF demo_keys demo_history(1) _ demo_nonempty demo_keys_trimmed] demo_length by simp

theorem root_hash_commits_witness:
  "length demo_chain = 2 \<and> map (Marshal (lb_json demo_libs)) demo_chain = map (Marshal (lb_json demo_libs)) demo_chain"
  using root_hash_commits [OF demo_nonempty demo_nonempty demo_valid demo_valid refl] demo_length
  by (simp add: demo_libs_def inj_on_def)

theorem verifier_accepts_exactly_witness:
  "cres_valid (VerifyChainIntegrityTrusted demo_crypto_lib (lb_json demo_libs) demo_chain [demo_key]) \<and>
   chain_integrity demo_crypto_lib (lb_json demo_libs) {demo_key} demo_chain \<and> chain_lifecycle demo_chain"
  using verifier_accepts_exactly [OF demo_nonempty demo_keys_trimmed, of demo_crypto_lib "lb_json demo_libs"] demo_valid
  by (simp add: anchors_def)

theorem truncated_tail_verifies_witness:
  "length (take 1 demo_chain) = 1 \<and> cres_valid (VerifyChainTrusted demo_crypto_lib (lb_json demo_libs) (take 1 demo_chain) [demo_key])"
  using truncated_tail_verifies [OF demo_valid demo_nonempty, of 1] demo_length by simp

text \<open>The digests whose signature one of the demo receipts carries.\<close>

definition demo_known :: "string set" where
  "demo_known = {s. \<exists>r \<in> set demo_chain. hex_DecodeString (drop 8 (rcpt_signature r)) = Some s}"

lemma demo_unforgeable: "unforgeable demo_crypto_lib demo_known (\<lambda>_. {m. demo_signature m \<in> demo_known})"
  by (auto simp: unforgeable_def demo_libs_def)

theorem trusted_chain_authentic_witness:
  "list_all (\<lambda>r. rcpt_signerKey r = demo_key \<and> Validate (rcpt_actionRecord r) = None \<and>
     (\<exists>d. canonicalActionRecordV1 (lb_json demo_libs) (rcpt_actionRecord r) = Some d \<and> demo_signature d \<in> demo_known)) demo_chain"
proof -
  have "list_all (\<lambda>r. \<forall>s. hex_DecodeString (drop 8 (rcpt_signature r)) = Some s \<longrightarrow> s \<in> demo_known) demo_chain"
    by (auto simp: demo_known_def list_all_iff)
  from trusted_chain_authentic [OF demo_nonempty demo_valid demo_keys_trimmed _ demo_unforgeable this]
  show ?thesis by (auto simp: demo_libs_def list_all_iff)
qed

lemma demo_nonces: "nonce (demo_chain ! 1) \<noteq> []"
proof -
  obtain e0 r0 e r where d: "demo_start = (None, e0, [r0])" "demo_action = (None, e, [r0, r])" by (rule demo_acted)
  have "tail_synced demo_libs (set [demo_key]) [r0] e0" using history_invariant [OF demo_history(2) demo_keys] unfolding d(1) by (simp add: history_ok_def)
  then have n: "em_runNonce e0 \<noteq> []" by (simp add: tail_synced_def)
  have "Emit demo_libs (demo_env RecOk) demo_opts e0 [r0] = (None, e, [r0, r])" using d(2) unfolding demo_action_def d(1) by simp
  then have "nonce r = em_runNonce e0" by (rule Emit_appends) (simp_all add: demo_opts_def zero_opts_def)
  with n show ?thesis unfolding d(2) by simp
qed

theorem chain_sessions_sealed_witness:
  "\<exists>j \<le> 1. rcpt_open (demo_chain ! j) \<noteq> None \<and> nonce (demo_chain ! j) = nonce (demo_chain ! 1)"
  using chain_sessions_sealed [OF demo_nonempty demo_valid _ demo_nonces] demo_length by simp

theorem decision_leaves_receipt_witness:
  "\<exists>r h. Emit demo_libs (demo_env RecOk) demo_opts demo_new [] = (None, advance (ee_now (demo_env RecOk)) h demo_new, [r]) \<and>
    ar_verdict (rcpt_actionRecord r) = ''block'' \<and> ar_actionType (rcpt_actionRecord r) = ''read'' \<and> rcpt_seq r = 0"
  using decision_leaves_receipt [OF demo_keys _ demo_decision [of RecOk], of demo_new "[]"] demo_unredacted(1) [unfolded demo_env_def]
  by (auto simp: demo_new_def fresh_emitter_def demo_config_def demo_opts_def zero_opts_def demo_env_def NormalizeVerdict_def verdictMap_def classifyAction_def ClassifyHTTP_def)

definition demo_lost :: "emit_error option \<times> emitter \<times> receipt list" where
  "demo_lost = Emit demo_libs (demo_env (RecFail True False)) demo_opts (fst (snd demo_start)) (snd (snd demo_start))"

definition demo_gap :: "emit_error option \<times> emitter \<times> receipt list" where
  "demo_gap = Emit demo_libs (demo_env RecOk) demo_opts (fst (snd demo_lost)) (snd (snd demo_lost))"

theorem lost_receipt_detected_witness:
  "length (snd (snd demo_gap)) = 2 \<and> \<not> cres_valid (VerifyChainTrusted demo_crypto_lib (lb_json demo_libs) (snd (snd demo_gap)) [demo_key])"
proof -
  obtain e0 r0 where d: "demo_start = (None, e0, [r0])" "running e0" by (rule demo_acted)
  have o: "eo_sessionControl demo_opts = None" "ee_outcome (demo_env x) = x" for x by (simp_all add: demo_opts_def zero_opts_def demo_env_def)
  obtain r1 h1 where l: "Emit demo_libs (demo_env (RecFail True False)) demo_opts e0 [r0] =
      settle_write demo_libs False (demo_env (RecFail True False)) None r1 (advance (ee_now (demo_env (RecFail True False))) h1 e0) [r0]"
    by (rule Emit_writes [OF demo_decision [of "RecFail True False"] _ o(1), where e = e0 and disk = "[r0]"]) (use d(2) in \<open>auto simp: running_def\<close>)
  define e1 where "e1 = recordFailure ''record'' (advance (ee_now (demo_env (RecFail True False))) h1 e0)"
  have l': "Emit demo_libs (demo_env (RecFail True False)) demo_opts e0 [r0] = (Some (ErrRecord True), e1, [r0])"
    using l settle_plain(2) [OF o(2)] by (simp add: e1_def)
  then have lost: "demo_lost = (Some (ErrRecord True), e1, [r0])" unfolding demo_lost_def d(1) by simp
  obtain r2 h2 where g: "Emit demo_libs (demo_env RecOk) demo_opts e1 [r0] =
      settle_write demo_libs False (demo_env RecOk) None r2 (advance (ee_now (demo_env RecOk)) h2 e1) [r0]"
    by (rule Emit_writes [OF demo_decision [of RecOk] _ o(1), where e = e1 and disk = "[r0]"])
      (use d(2) in \<open>auto simp: running_def e1_def recordFailure_def advance_def\<close>)
  then have g': "Emit demo_libs (demo_env RecOk) demo_opts e1 [r0] = (None, advance (ee_now (demo_env RecOk)) h2 e1, [r0, r2])"
    using settle_plain(1) [OF o(2)] by simp
  then have gap: "demo_gap = (None, advance (ee_now (demo_env RecOk)) h2 e1, [r0, r2])" unfolding demo_gap_def lost by simp
  have "emitted demo_libs (set [demo_key]) (Some e0) [r0]" using demo_history(2) unfolding d(1) by simp
  from lost_receipt_detected [OF demo_keys this _ o(1) o(1) l' o(2) g' _ demo_unredacted(2)] show ?thesis unfolding gap by simp
qed

section \<open>A rotated chain\<close>

lemma decision_ok_control: "decision_ok lb env (o'\<lparr>eo_sessionControl := c\<rparr>) = decision_ok lb env o'"
  by (simp add: decision_ok_def)

lemma stamped_session: "isSessionOpenControl (Some c) \<Longrightarrow> prepareSessionControlLocked lb env (Some c) e = (Inr (ctl, prev), e1) \<Longrightarrow>
    \<exists>op. ctl = Some (c\<lparr>ct_open := Some op\<rparr>) \<and> so_recorderSession op = ''proxy'' \<and> e1 = e"
  by (auto simp: prepareSessionControlLocked_def isSessionOpenControl_def stamp_open_def Let_def split: if_splits option.splits)

text \<open>A started process records its session_open.\<close>

lemma EmitSessionOpen_writes:
  assumes b: "booted lb disk e" and k: "length (em_privKey e) = 64" and ok: "\<not> em_initErr e" "\<not> em_healthErr e" "\<not> em_rootEmitted e"
    and d: "decision_ok lb env (control_opts a ''pipelock://session/open'')" and out: "ee_outcome env = RecOk" "ee_clean env = None" and rand: "rand \<noteq> []"
    and keys: "keys_ok (lb_crypto lb)"
  obtains e' r op where "EmitSessionOpen lb env (Some rand) a e disk = (None, e', disk @ [r])" "em_sessionOpenEmitted e'"
    "rcpt_open r = Some op" "so_recorderSession op = ''proxy''" "marker r = em_pendingTransition e" "nonce r = em_runNonce e"
    "rcpt_signerKey r = signer_hex lb e" "authentic (lb_crypto lb) (lb_json lb) r"
proof -
  let ?op0 = "initial_open lb (hex_EncodeToString rand) e"
  let ?c0 = "control ''session_open'' (Some ?op0) None None"
  let ?o = "(control_opts a ''pipelock://session/open'')\<lparr>eo_sessionControl := Some ?c0\<rparr>"
  have on: "so_openNonce ?op0 \<noteq> []" using rand length_hex [of rand] by (auto simp: initial_open_def)
  obtain x e1 where p: "prepareSessionControlLocked lb env (Some ?c0) e = (x, e1)" by force
  obtain op prev where c: "e1 = e" "x = Inr (Some (control ''session_open'' (Some op) None None), prev)"
    by (rule open_control [OF b refl on _ _ p]) (simp_all add: initial_open_def)
  have session: "so_recorderSession op = ''proxy''"
    using stamped_session [of ?c0 lb env e "Some (control ''session_open'' (Some op) None None)" prev e] p c by (auto simp: isSessionOpenControl_def control_def)
  let ?ctl = "Some (control ''session_open'' (Some op) None None)"
  obtain r h ph where w: "Sign (lb_crypto lb) (lb_json lb) (build_record lb env ?o ph ?ctl prev e) (em_privKey e) = Inr r"
    "ReceiptHash (lb_crypto lb) (lb_json lb) r = Some h"
    "emit_locked lb env True ?o ?ctl prev e disk = settle_write lb True env ?ctl r (advance (ee_now env) h e) disk"
    using emit_locked_writes [of lb env ?o e ?ctl prev True disk] d k by (metis decision_ok_control)
  let ?e' = "(advance (ee_now env) h e)\<lparr>em_sessionOpenEmitted := True, em_openNonce := so_openNonce op\<rparr>"
  have "EmitSessionOpen lb env (Some rand) a e disk = (None, ?e', disk @ [r])" using p c w(3) ok out
    by (simp add: redactReceiptDetail_def EmitSessionOpen_def EmitDurable_def emitWithControl_def settle_write_def isSessionOpenControl_def isSessionCloseControl_def
        open_nonce_of_def control_def)
  moreover note sg = Sign_verifies [OF keys w(1)]
  moreover have "rcpt_open r = Some op" "marker r = em_pendingTransition e" "nonce r = em_runNonce e" "rcpt_signerKey r = signer_hex lb e"
    using sg by (simp_all add: sessionOpen_def control_def marker_def nonce_def signer_hex_def)
  moreover have "authentic (lb_crypto lb) (lb_json lb) r" using sg w(2) by (simp add: authentic_def)
  ultimately show ?thesis using that session by simp
qed

definition rot_libs :: go_libs where
  "rot_libs = demo_libs\<lparr>lb_crypto := (lb_crypto demo_libs)\<lparr>cr_sha256 := \<lambda>_. replicate 32 CHR ''d''\<rparr>\<rparr>"

definition rot_config :: emitter_config where
  "rot_config = demo_config\<lparr>ec_privKey := replicate 64 CHR ''j''\<rparr>"

definition rot_first :: "emit_error option \<times> emitter \<times> receipt list" where
  "rot_first = EmitSessionOpen rot_libs (demo_env RecOk) (Some ''open'') ''a1'' demo_new []"

definition rot_new :: emitter where
  "rot_new = the (NewEmitter rot_libs rot_config (Some ''next'') (Some (snd (snd rot_first))))"

definition rot_second :: "emit_error option \<times> emitter \<times> receipt list" where
  "rot_second = EmitSessionOpen rot_libs (demo_env RecOk) (Some ''open'') ''a2'' rot_new (snd (snd rot_first))"

abbreviation rot_chain :: "receipt list" where
  "rot_chain \<equiv> snd (snd rot_second)"

definition rot_key :: string where
  "rot_key = hex_EncodeToString (replicate 32 CHR ''j'')"

lemma rot_keys: "keys_ok (lb_crypto rot_libs)"
  by (auto simp: keys_ok_def crypto_ok_def rot_libs_def demo_libs_def demo_signature_def min_def)

lemma rot_decision: "a \<noteq> [] \<Longrightarrow> decision_ok rot_libs (demo_env RecOk) (control_opts a ''pipelock://session/open'')"
  using control_decision(2) [of a "''pipelock://session/open''" RecOk] by (simp add: decision_ok_def rot_libs_def demo_libs_def)

lemma rot_first_receipt:
  obtains e r op where "rot_first = (None, e, [r])" "em_sessionOpenEmitted e" "rcpt_open r = Some op" "so_recorderSession op = ''proxy''"
    "marker r = None" "nonce r = hex_EncodeToString ''run''" "rcpt_signerKey r = demo_key" "authentic (lb_crypto rot_libs) (lb_json rot_libs) r"
proof -
  have n: "NewEmitter rot_libs demo_config (Some ''run'') (Some []) = Some demo_new"
    by (simp add: NewEmitter_def demo_config_def resumeChain_def demo_new_def fresh_emitter_def)
  have f: "\<not> em_initErr demo_new" "\<not> em_healthErr demo_new" "\<not> em_rootEmitted demo_new" "em_pendingTransition demo_new = None"
      "em_runNonce demo_new = hex_EncodeToString ''run''" "signer_hex rot_libs demo_new = demo_key"
    by (simp_all add: demo_new_def fresh_emitter_def signer_hex_def rot_libs_def demo_libs_def demo_config_def demo_key_def)
  note b = NewEmitter_booted [OF n f(1)]
  have "ee_outcome (demo_env RecOk) = RecOk" "ee_clean (demo_env RecOk) = None" by (simp_all add: demo_env_def)
  from EmitSessionOpen_writes [OF b(1,3) f(1-3) rot_decision this _ rot_keys, of "''a1''" "''open''"] that
  show ?thesis unfolding rot_first_def f by simp blast
qed

lemma demo_rot_distinct: "demo_key \<noteq> rot_key" "hex_EncodeToString (replicate 32 c) \<noteq> []"
proof -
  have "replicate 32 CHR ''k'' \<noteq> replicate 32 CHR ''j''" by (simp add: replicate_eq_replicate)
  then show "demo_key \<noteq> rot_key" unfolding demo_key_def rot_key_def by (metis hex_inj)
  show "hex_EncodeToString (replicate 32 c) \<noteq> []" by (simp add: hex_EncodeToString_def hex_byte_def)
qed

lemma rot_chain_receipts:
  obtains r0 r1 op op' e0 e1 where "rot_first = (None, e0, [r0])" "em_sessionOpenEmitted e0" "rot_second = (None, e1, [r0, r1])" "em_sessionOpenEmitted e1"
    "rcpt_open r0 = Some op" "so_recorderSession op = ''proxy''" "rcpt_open r1 = Some op'" "so_recorderSession op' = ''proxy''"
    "marker r1 \<noteq> None" "rcpt_signerKey r0 = demo_key" "rcpt_signerKey r1 = rot_key" "nonce r0 = hex_EncodeToString ''run''"
    "NewEmitter rot_libs rot_config (Some ''next'') (Some [r0]) = Some rot_new" "\<not> em_initErr rot_new" "signer_hex rot_libs rot_new = rot_key"
proof -
  obtain e0 r0 op where f: "rot_first = (None, e0, [r0])" "em_sessionOpenEmitted e0" "rcpt_open r0 = Some op" "so_recorderSession op = ''proxy''"
    "marker r0 = None" "nonce r0 = hex_EncodeToString ''run''" "rcpt_signerKey r0 = demo_key" "authentic (lb_crypto rot_libs) (lb_json rot_libs) r0"
    by (rule rot_first_receipt)
  have ne: "demo_key \<noteq> []" "demo_key \<noteq> rot_key" unfolding demo_key_def by (rule demo_rot_distinct(2)) (rule demo_rot_distinct(1) [unfolded demo_key_def])
  obtain h where h: "ReceiptHash (lb_crypto rot_libs) (lb_json rot_libs) r0 = Some h"
    "VerifyInternalConsistencyOnly (lb_crypto rot_libs) (lb_json rot_libs) r0 = None"
    using f(7,8) ne(1) by (auto simp: authentic_def VerifyInternalConsistencyOnly_def)
  have sk: "signer_hex rot_libs (fresh_emitter rot_config n) = rot_key" for n
    by (simp add: signer_hex_def rot_libs_def demo_libs_def rot_config_def fresh_emitter_def rot_key_def)
  have n: "NewEmitter rot_libs rot_config (Some ''next'') (Some [r0]) = Some rot_new" "\<not> em_initErr rot_new" "\<not> em_healthErr rot_new" "\<not> em_rootEmitted rot_new"
      "em_pendingTransition rot_new \<noteq> None" "signer_hex rot_libs rot_new = rot_key"
    using h f(7) ne(2) sk [of "hex_EncodeToString ''next''"] unfolding rot_new_def f(1)
    by (simp_all add: NewEmitter_def resumeChain_def Let_def rot_config_def demo_config_def fresh_emitter_def signer_hex_def)
  note b = NewEmitter_booted [OF n(1,2)]
  have "ee_outcome (demo_env RecOk) = RecOk" "ee_clean (demo_env RecOk) = None" by (simp_all add: demo_env_def)
  from EmitSessionOpen_writes [OF b(1,3) n(2-4) rot_decision this _ rot_keys, of "''a2''" "''open''"]
  obtain e1 r1 op' where s: "EmitSessionOpen rot_libs (demo_env RecOk) (Some ''open'') ''a2'' rot_new [r0] = (None, e1, [r0] @ [r1])" "em_sessionOpenEmitted e1"
    "rcpt_open r1 = Some op'" "so_recorderSession op' = ''proxy''" "marker r1 = em_pendingTransition rot_new" "rcpt_signerKey r1 = signer_hex rot_libs rot_new"
    by (metis list.distinct(1))
  have "rot_second = (None, e1, [r0, r1])" using s(1) unfolding rot_second_def f(1) by simp
  with f s n show ?thesis using that by metis
qed

lemma rot_valid: "cres_valid (VerifyChainTrusted (lb_crypto rot_libs) (lb_json rot_libs) rot_chain [demo_key, rot_key])"
proof -
  obtain r0 r1 op op' e0 e1 where c: "rot_first = (None, e0, [r0])" "em_sessionOpenEmitted e0" "rot_second = (None, e1, [r0, r1])" "em_sessionOpenEmitted e1"
    "nonce r0 = hex_EncodeToString ''run''"
    "NewEmitter rot_libs rot_config (Some ''next'') (Some [r0]) = Some rot_new" "\<not> em_initErr rot_new" "signer_hex rot_libs rot_new = rot_key"
    by (rule rot_chain_receipts) metis
  have n: "NewEmitter rot_libs demo_config (Some ''run'') (Some []) = Some demo_new"
    by (simp add: NewEmitter_def demo_config_def resumeChain_def demo_new_def fresh_emitter_def)
  have f: "\<not> em_initErr demo_new" "signer_hex rot_libs demo_new \<in> set [demo_key, rot_key]" "em_runNonce demo_new \<notin> {[]} \<union> nonce ` set []"
    by (simp_all add: demo_new_def fresh_emitter_def signer_hex_def rot_libs_def demo_libs_def demo_config_def demo_key_def)
      (simp add: hex_EncodeToString_def hex_byte_def)
  note od = demo_unredacted(2)
  have "emitted rot_libs (set [demo_key, rot_key]) (Some e0) [r0]"
    using emitted.start [OF emitted.nothing n f _ od c(1) [unfolded rot_first_def]] c(2) by simp
  moreover have "em_runNonce rot_new = hex_EncodeToString ''next''" by (rule NewEmitter_booted(2) [OF c(6,7)])
  then have "em_runNonce rot_new \<notin> {[]} \<union> nonce ` set [r0]" using c(5)
    by (simp add: hex_EncodeToString_def hex_byte_def digit_char_def)
  moreover have "EmitSessionOpen rot_libs (demo_env RecOk) (Some ''open'') ''a2'' rot_new [r0] = (None, e1, [r0, r1])"
    using c(3) unfolding rot_second_def c(1) by simp
  ultimately have "emitted rot_libs (set [demo_key, rot_key]) (Some e1) [r0, r1]"
    using emitted.start [OF _ c(6,7) _ _ _ od, where rand' = "''open''"] c(4,8) by fastforce
  moreover have "normalizeTrustedKeys [demo_key, rot_key] = Some [demo_key, rot_key]"
  proof -
    have "rot_key \<noteq> []" unfolding rot_key_def by (rule demo_rot_distinct(2))
    moreover have "list_all plain_char rot_key" unfolding list_all_iff rot_key_def by (auto simp: plain_char_def digit_like_def dest!: hex_byte_set)
    ultimately show ?thesis using demo_keys_trimmed TrimSpace_plain [of rot_key] by (simp add: Let_def split: if_splits)
  qed
  ultimately show ?thesis using history_verifies [OF rot_keys, of "[demo_key, rot_key]" "Some e1" "[r0, r1]"] unfolding c(3) by simp
qed

definition rot_time :: "string \<Rightarrow> (go_time \<times> string) option" where
  "rot_time s = (if s = ''2026-01-02T03:04:05Z'' then Some (1000, s) else None)"

definition rot_endorsement :: rotation_endorsement where
  "rot_endorsement = \<lparr>re_version = 1, re_sessionID = ''proxy'', re_priorSignerKey = demo_key, re_priorFinalSeq = rcpt_seq (hd rot_chain),
     re_priorTailHash = the (ReceiptHash (lb_crypto rot_libs) (lb_json rot_libs) (hd rot_chain)), re_newSignerKey = rot_key,
     re_rotatedAt = ''2026-01-02T03:04:05Z'', re_endorsement = signaturePrefix @ hex_EncodeToString (demo_signature (replicate 32 CHR ''d''))\<rparr>"

lemma hex_lower: "map ascii_lower (hex_EncodeToString s) = hex_EncodeToString s"
proof (rule map_idI)
  fix c
  assume "c \<in> set (hex_EncodeToString s)"
  then have "digit_like c" by (rule hex_byte_set)
  then show "ascii_lower c = c" by (auto simp: digit_like_def ascii_lower_def)
qed

lemma validHex_hex: "length s = n \<Longrightarrow> validHex n (hex_EncodeToString s)"
  by (simp add: validHex_def hex_roundtrip hex_lower)

lemma trim_proxy: "TrimSpace ''proxy'' = ''proxy''"
  by (rule TrimSpace_plain) (simp_all add: plain_char_def)

lemma rot_endorsement_verifies: "VerifyRotationEndorsement (lb_crypto rot_libs) rot_time rot_endorsement = None"
proof -
  obtain r0 r1 e1 op where c: "rot_second = (None, e1, [r0, r1])" "rcpt_signerKey r0 = demo_key" by (rule rot_chain_receipts) metis
  have "rot_chain \<noteq> []" unfolding c(1) by simp
  from valid_chain_facts [OF this rot_valid] obtain T where "chain_integrity (lb_crypto rot_libs) (lb_json rot_libs) T rot_chain" by metis
  then have "authentic (lb_crypto rot_libs) (lb_json rot_libs) r0" unfolding c(1) by (simp add: chain_integrity_def)
  then have "re_priorTailHash rot_endorsement = hex_EncodeToString (replicate 32 CHR ''d'')"
    unfolding rot_endorsement_def c(1) by (auto simp: authentic_def ReceiptHash_def rot_libs_def)
  then have v: "validSHA256Hex (re_priorTailHash rot_endorsement)" unfolding validSHA256Hex_def by (metis length_replicate validHex_hex)
  have k: "validEd25519PublicKeyHex demo_key" "validEd25519PublicKeyHex rot_key"
    unfolding validEd25519PublicKeyHex_def demo_key_def rot_key_def by (simp_all add: validHex_hex)
  have f: "validateRotationEndorsementFields rot_time rot_endorsement True = None"
    using v k demo_rot_distinct(1) trim_proxy
    by (simp add: validateRotationEndorsementFields_def rot_endorsement_def rot_time_def demo_zero signaturePrefix_def)
  have s: "hex_DecodeString (drop (length signaturePrefix) (re_endorsement rot_endorsement)) = Some (demo_signature (replicate 32 CHR ''d''))"
      "has_prefix (re_endorsement rot_endorsement) signaturePrefix" "hex_DecodeString (re_priorSignerKey rot_endorsement) = Some (replicate 32 CHR ''k'')"
    by (simp_all add: rot_endorsement_def hex_roundtrip has_prefix_iff demo_key_def)
  have "rotationEndorsementDigest (lb_crypto rot_libs) rot_endorsement = replicate 32 CHR ''d''"
    by (simp add: rotationEndorsementDigest_def rot_libs_def)
  with f s show ?thesis by (simp add: VerifyRotationEndorsement_def) (simp add: rot_libs_def demo_libs_def demo_signature_def)
qed

lemma rot_accepted:
  "\<exists>res. VerifyChainWithEndorsements (lb_crypto rot_libs) (lb_json rot_libs) rot_time ''proxy'' rot_chain [rot_endorsement] [demo_key] = Some res \<and> cres_valid res"
proof -
  obtain r0 r1 op op' e0 e1 where c: "rot_second = (None, e1, [r0, r1])" "rcpt_open r0 = Some op" "so_recorderSession op = ''proxy''"
    "rcpt_open r1 = Some op'" "so_recorderSession op' = ''proxy''" "marker r1 \<noteq> None" "rcpt_signerKey r0 = demo_key" "rcpt_signerKey r1 = rot_key"
    by (rule rot_chain_receipts) metis
  have ne: "rot_chain \<noteq> []" unfolding c(1) by simp
  have keys: "rev (remdups (rev (map rcpt_signerKey rot_chain))) = [demo_key, rot_key]" unfolding c(1) using c(7,8) demo_rot_distinct(1) by simp
  from valid_segments [OF ne rot_valid] have "map cs_signerKey (cres_segments (VerifyChainTrusted (lb_crypto rot_libs) (lb_json rot_libs) rot_chain [demo_key, rot_key])) = [demo_key, rot_key]"
    unfolding c(1) using c(7,8) demo_rot_distinct(1) by simp
  then have segs: "map cs_signerKey (tl (cres_segments (VerifyChainTrusted (lb_crypto rot_libs) (lb_json rot_libs) rot_chain [demo_key, rot_key]))) = [rot_key]"
    by (metis list.sel(3) map_tl)
  have sess: "verifySignedRecorderSession ''proxy'' rot_chain = None"
    unfolding c(1) verifySignedRecorderSession_def using c(2-6) by (simp add: marker_def)
  obtain T where T: "chain_integrity (lb_crypto rot_libs) (lb_json rot_libs) T rot_chain" by (rule valid_chain_facts [OF ne rot_valid])
  then have "authentic (lb_crypto rot_libs) (lb_json rot_libs) r0" unfolding c(1) by (simp add: chain_integrity_def)
  then obtain h where h: "ReceiptHash (lb_crypto rot_libs) (lb_json rot_libs) r0 = Some h" by (auto simp: authentic_def)
  have find: "findRotationPriorTail [r0, r1] 0 rot_key = Some 0" using c(7,8) demo_rot_distinct(1) by (simp add: findRotationPriorTail_def)
  have endo: "endorses ''proxy'' r0 h r1 rot_endorsement" unfolding rot_endorsement_def c(1) using c(7,8) h by (simp add: endorses_def)
  let ?base = "VerifyChainTrusted (lb_crypto rot_libs) (lb_json rot_libs) rot_chain [demo_key, rot_key]"
  have "endorse_walk (lb_crypto rot_libs) (lb_json rot_libs) ''proxy'' rot_chain [rot_endorsement] [rot_key] (- 1) [] (?base\<lparr>cres_trustBasis := [''root'']\<rparr>) =
      Some (?base\<lparr>cres_trustBasis := [''root'', ''endorsed'']\<rparr>)"
    unfolding c(1) using find endo h by simp
  moreover have "VerifyChainWithEndorsements (lb_crypto rot_libs) (lb_json rot_libs) rot_time ''proxy'' rot_chain [rot_endorsement] [demo_key] =
      endorse_walk (lb_crypto rot_libs) (lb_json rot_libs) ''proxy'' rot_chain [rot_endorsement] [rot_key] (- 1) [] (?base\<lparr>cres_trustBasis := [''root'']\<rparr>)"
  proof -
    have "rcpt_signerKey (hd rot_chain) = demo_key" "\<not> TrimSpace ''proxy'' = []" unfolding c(1) trim_proxy using c(7) by simp_all
    then show ?thesis unfolding VerifyChainWithEndorsements_def keys Let_def using ne rot_valid segs sess demo_keys_trimmed rot_endorsement_verifies by simp
  qed
  ultimately show ?thesis using rot_valid by simp
qed

theorem endorsed_rotations_authorised_witness:
  "\<exists>e. re_priorSignerKey e = demo_key \<and> re_newSignerKey e = rot_key \<and> re_priorFinalSeq e = rcpt_seq (rot_chain ! 0) \<and>
     ReceiptHash (lb_crypto rot_libs) (lb_json rot_libs) (rot_chain ! 0) = Some (re_priorTailHash e) \<and>
     demo_signature (rotationEndorsementDigest (lb_crypto rot_libs) e) = demo_signature (replicate 32 CHR ''d'')"
proof -
  let ?known = "{demo_signature (replicate 32 CHR ''d'')}" and ?by = "\<lambda>_ :: string. {m. demo_signature m = demo_signature (replicate 32 CHR ''d'')}"
  obtain r0 r1 e1 where c: "rot_second = (None, e1, [r0, r1])" "rcpt_signerKey r0 = demo_key" "rcpt_signerKey r1 = rot_key" by (rule rot_chain_receipts) metis
  have ne: "rot_chain \<noteq> []" unfolding c(1) by simp
  have u: "unforgeable (lb_crypto rot_libs) ?known ?by" by (auto simp: unforgeable_def rot_libs_def demo_libs_def)
  have k: "\<forall>e \<in> set [rot_endorsement]. \<forall>s. hex_DecodeString (drop 8 (re_endorsement e)) = Some s \<longrightarrow> s \<in> ?known"
    by (simp add: rot_endorsement_def signaturePrefix_def hex_roundtrip)
  have i: "Suc 0 < length rot_chain" "rcpt_signerKey (rot_chain ! Suc 0) = rot_key" "rcpt_signerKey (rot_chain ! 0) = demo_key"
    unfolding c(1) using c(2,3) by simp_all
  obtain res where res: "VerifyChainWithEndorsements (lb_crypto rot_libs) (lb_json rot_libs) rot_time ''proxy'' rot_chain [rot_endorsement] [demo_key] = Some res"
    "cres_valid res" using rot_accepted by blast
  note all = endorsed_rotations_authorised [OF ne, of "lb_crypto rot_libs" "lb_json rot_libs" rot_time "''proxy''" "[rot_endorsement]" "[demo_key]",
      unfolded res(1) option.inject ex_simps simp_thms]
  have "rcpt_signerKey (rot_chain ! Suc 0) \<noteq> rcpt_signerKey (rot_chain ! 0)" using i demo_rot_distinct(1) by simp
  with all res(2) u k i(1) obtain e pub where "re_priorSignerKey e = rcpt_signerKey (rot_chain ! 0)" "re_newSignerKey e = rcpt_signerKey (rot_chain ! Suc 0)"
      "re_priorFinalSeq e = rcpt_seq (rot_chain ! 0)" "ReceiptHash (lb_crypto rot_libs) (lb_json rot_libs) (rot_chain ! 0) = Some (re_priorTailHash e)"
      "rotationEndorsementDigest (lb_crypto rot_libs) e \<in> ?by pub" by blast
  with i(2,3) show ?thesis by auto
qed

end
