(* ===== verification/AdaptiveLane.thy ===== *)
theory AdaptiveLane
  imports Interfaces GoText
begin

text \<open>
  Adaptive enforcement of one lane (\<^verbatim>\<open>internal/proxy/session.go\<close>, \<^verbatim>\<open>internal/session/session.go\<close>,
  \<^verbatim>\<open>internal/decide/escalation.go\<close>, \<^verbatim>\<open>internal/config/validate.go\<close>): signals add to a threat score that
  escalates the lane when it reaches a doubling threshold, clean requests and time bring it down
  again, and the escalation level upgrades the action taken on findings. A lane is the session as a
  whole or one destination of it. The float64 operations are the fields of an argument \<open>float_ops\<close>, so
  what is proved holds for every arithmetic, rounding included; \<open>fo_lit n\<close> is the float of \<open>n\<close> hundredths.
  A clock read is an argument; the zero time is \<open>None\<close>.
\<close>

section \<open>Signals\<close>

datatype signal =
    SignalBlock
  | SignalNearMiss
  | SignalBlockLowSeverity
  | SignalBlockMediumSeverity
  | SignalDomainAnomaly
  | SignalEntropyBudget
  | SignalFragmentDLP
  | SignalStrip
  | SignalShieldRewrite
  | SignalIPDomainAnomaly
  | SignalDomainAnomalyCooperative
  | SignalIPDomainAnomalyCooperative
  | SignalCrossAgentContamination

record 'f float_ops =
  fo_lit :: "nat \<Rightarrow> 'f"
  fo_add :: "'f \<Rightarrow> 'f \<Rightarrow> 'f"
  fo_sub :: "'f \<Rightarrow> 'f \<Rightarrow> 'f"
  fo_mul2 :: "'f \<Rightarrow> 'f"
  fo_div2 :: "'f \<Rightarrow> 'f"
  fo_less :: "'f \<Rightarrow> 'f \<Rightarrow> bool"
  fo_equal :: "'f \<Rightarrow> 'f \<Rightarrow> bool"

fun SignalPoints :: "'f float_ops \<Rightarrow> signal \<Rightarrow> 'f" where
  "SignalPoints fo SignalBlock = fo_lit fo 300"
| "SignalPoints fo SignalNearMiss = fo_lit fo 100"
| "SignalPoints fo SignalBlockLowSeverity = fo_lit fo 100"
| "SignalPoints fo SignalBlockMediumSeverity = fo_lit fo 200"
| "SignalPoints fo SignalDomainAnomaly = fo_lit fo 200"
| "SignalPoints fo SignalEntropyBudget = fo_lit fo 200"
| "SignalPoints fo SignalFragmentDLP = fo_lit fo 300"
| "SignalPoints fo SignalStrip = fo_lit fo 200"
| "SignalPoints fo SignalShieldRewrite = fo_lit fo 25"
| "SignalPoints fo SignalIPDomainAnomaly = fo_lit fo 300"
| "SignalPoints fo SignalDomainAnomalyCooperative = fo_lit fo 40"
| "SignalPoints fo SignalIPDomainAnomalyCooperative = fo_lit fo 60"
| "SignalPoints fo SignalCrossAgentContamination = fo_lit fo 200"

definition escalationLabels :: "string list" where
  "escalationLabels = [''normal'', ''elevated'', ''high'', ''critical'']"

definition EscalationLabel :: "int \<Rightarrow> string" where
  "EscalationLabel level =
     (if level < 0 then escalationLabels ! 0
      else if level \<ge> int (length escalationLabels) then escalationLabels ! (length escalationLabels - 1)
      else escalationLabels ! nat level)"

section \<open>Escalation levels and actions\<close>

record escalation_actions =
  ea_upgradeWarn :: "string option"
  ea_upgradeAsk :: "string option"
  ea_blockAll :: "bool option"

record escalation_levels =
  el_elevated :: escalation_actions
  el_high :: escalation_actions
  el_critical :: escalation_actions

record 'f adaptive_config =
  ae_enabled :: bool
  ae_escalationThreshold :: 'f
  ae_decayPerCleanRequest :: 'f
  ae_levelDurationSeconds :: int
  ae_deescalationCheckSeconds :: int
  ae_cleanRequestsToDeescalate :: int
  ae_levels :: escalation_levels

definition UpgradeAction :: "string \<Rightarrow> int \<Rightarrow> 'f adaptive_config option \<Rightarrow> string" where
  "UpgradeAction baseAction level cfg =
     (case cfg of None \<Rightarrow> baseAction
      | Some c \<Rightarrow>
          if \<not> ae_enabled c \<or> level \<le> 0 then baseAction
          else
            let acts = (if level = 1 then el_elevated (ae_levels c) else if level = 2 then el_high (ae_levels c)
                        else el_critical (ae_levels c)) in
            if ea_blockAll acts = Some True then ''block''
            else if baseAction = ''warn'' \<and> ea_upgradeWarn acts = Some ''block'' then ''block''
            else if baseAction = ''ask'' \<and> ea_upgradeAsk acts = Some ''block'' then ''block''
            else baseAction)"

definition upgradeActionStrength :: "string option \<Rightarrow> int" where
  "upgradeActionStrength v = (case v of None \<Rightarrow> 0 | Some s \<Rightarrow> if s = ''block'' then 2 else 1)"

definition validateEscalationActions :: "escalation_actions \<Rightarrow> string option" where
  "validateEscalationActions a =
     (if (case ea_upgradeWarn a of None \<Rightarrow> False | Some s \<Rightarrow> s \<noteq> [] \<and> s \<noteq> ''block'') then Some ''upgrade_warn''
      else if (case ea_upgradeAsk a of None \<Rightarrow> False | Some s \<Rightarrow> s \<noteq> [] \<and> s \<noteq> ''block'') then Some ''upgrade_ask''
      else None)"

definition level_pair_check :: "escalation_actions \<Rightarrow> escalation_actions \<Rightarrow> string option" where
  "level_pair_check lower upper =
     (let blockAll = (ea_blockAll lower = Some True) in
      if \<not> blockAll \<and> upgradeActionStrength (ea_upgradeWarn upper) < upgradeActionStrength (ea_upgradeWarn lower)
      then Some ''upgrade_warn is weaker''
      else if \<not> blockAll \<and> upgradeActionStrength (ea_upgradeAsk upper) < upgradeActionStrength (ea_upgradeAsk lower)
      then Some ''upgrade_ask is weaker''
      else if blockAll \<and> ea_blockAll upper \<noteq> Some True then Some ''block_all is weaker''
      else None)"

definition validateEscalationMonotonic :: "escalation_levels \<Rightarrow> string option" where
  "validateEscalationMonotonic levels =
     (case level_pair_check (el_elevated levels) (el_high levels) of
        Some e \<Rightarrow> Some e
      | None \<Rightarrow> level_pair_check (el_high levels) (el_critical levels))"

definition defaultMaxLevelDuration :: duration where
  "defaultMaxLevelDuration = 5 * minute_ns"

definition defaultDeescalationCheckInterval :: duration where
  "defaultDeescalationCheckInterval = 30 * second_ns"

definition adaptiveLevelDuration :: "'f adaptive_config option \<Rightarrow> duration" where
  "adaptiveLevelDuration cfg =
     (case cfg of None \<Rightarrow> defaultMaxLevelDuration
      | Some c \<Rightarrow> if ae_levelDurationSeconds c \<le> 0 then defaultMaxLevelDuration
          else wrap64 (ae_levelDurationSeconds c * second_ns))"

definition adaptiveDeescalationCheckInterval :: "'f adaptive_config option \<Rightarrow> duration" where
  "adaptiveDeescalationCheckInterval cfg =
     (case cfg of None \<Rightarrow> defaultDeescalationCheckInterval
      | Some c \<Rightarrow> if ae_deescalationCheckSeconds c \<le> 0 then defaultDeescalationCheckInterval
          else wrap64 (ae_deescalationCheckSeconds c * second_ns))"

definition adaptiveBlockAllCheck :: "'f adaptive_config option \<Rightarrow> int \<Rightarrow> bool" where
  "adaptiveBlockAllCheck cfg level \<longleftrightarrow> UpgradeAction [] level cfg = ''block''"

section \<open>Lanes\<close>

record 'f lane =
  ln_threatScore :: 'f
  ln_escalationLevel :: int
  ln_currentThreshold :: 'f
  ln_lastEscalation :: "go_time option"
  ln_cleanRequests :: int
  ln_atBlockAll :: bool

definition new_lane :: "'f float_ops \<Rightarrow> 'f lane" where
  "new_lane fo = \<lparr>ln_threatScore = fo_lit fo 0, ln_escalationLevel = 0, ln_currentThreshold = fo_lit fo 0, ln_lastEscalation = None,
     ln_cleanRequests = 0, ln_atBlockAll = False\<rparr>"

definition recordAdaptiveSignalFields ::
  "'f float_ops \<Rightarrow> go_time \<Rightarrow> signal \<Rightarrow> 'f \<Rightarrow> 'f lane \<Rightarrow> (bool \<times> string \<times> string) \<times> 'f lane" where
  "recordAdaptiveSignalFields fo now sig initialThreshold l =
     (let zero = fo_lit fo 0;
          score = fo_add fo (ln_threatScore l) (SignalPoints fo sig);
          threshold = (if fo_equal fo (ln_currentThreshold l) zero \<and> fo_less fo zero initialThreshold
                       then initialThreshold else ln_currentThreshold l);
          l1 = l\<lparr>ln_threatScore := score, ln_cleanRequests := 0, ln_currentThreshold := threshold\<rparr> in
      if (fo_less fo threshold zero \<or> fo_equal fo threshold zero) \<or> fo_less fo score threshold then ((False, [], []), l1)
      else
        let oldLevel = ln_escalationLevel l in
        ((True, EscalationLabel oldLevel, EscalationLabel (oldLevel + 1)),
         l1\<lparr>ln_escalationLevel := oldLevel + 1, ln_lastEscalation := Some now, ln_currentThreshold := fo_mul2 fo threshold\<rparr>))"

definition decayAdaptiveScore :: "'f float_ops \<Rightarrow> 'f \<Rightarrow> 'f lane \<Rightarrow> 'f lane" where
  "decayAdaptiveScore fo decayRate l =
     (let score = fo_sub fo (ln_threatScore l) decayRate in
      l\<lparr>ln_threatScore := (if fo_less fo score (fo_lit fo 0) then fo_lit fo 0 else score)\<rparr>)"

definition deescalateAdaptiveFields ::
  "'f float_ops \<Rightarrow> (int \<Rightarrow> bool) option \<Rightarrow> go_time \<Rightarrow> 'f lane \<Rightarrow> (bool \<times> int \<times> int) \<times> 'f lane" where
  "deescalateAdaptiveFields fo blockAllCheck now l =
     (if ln_escalationLevel l \<le> 0 then ((False, 0, 0), l)
      else
        let from' = ln_escalationLevel l; level = from' - 1;
            threshold = (if fo_less fo (fo_lit fo 0) (ln_currentThreshold l) then fo_div2 fo (ln_currentThreshold l)
                         else ln_currentThreshold l) in
        ((True, from', level),
         l\<lparr>ln_escalationLevel := level, ln_lastEscalation := Some now, ln_cleanRequests := 0, ln_currentThreshold := threshold,
           ln_threatScore := fo_div2 fo threshold,
           ln_atBlockAll := (case blockAllCheck of Some check \<Rightarrow> check level | None \<Rightarrow> False)\<rparr>))"

definition lane_clean_recovery ::
  "'f float_ops \<Rightarrow> go_time \<Rightarrow> 'f \<Rightarrow> int \<Rightarrow> (int \<Rightarrow> bool) option \<Rightarrow> 'f lane \<Rightarrow> (bool \<times> int \<times> int) \<times> 'f lane" where
  "lane_clean_recovery fo now decayRate cleanToDrop check l =
     (let l1 = decayAdaptiveScore fo decayRate l in
      if cleanToDrop \<le> 0 \<or> ln_escalationLevel l1 \<le> 0 then ((False, 0, 0), l1)
      else
        let l2 = l1\<lparr>ln_cleanRequests := ln_cleanRequests l1 + 1\<rparr> in
        if ln_cleanRequests l2 < cleanToDrop then ((False, 0, 0), l2)
        else deescalateAdaptiveFields fo check now l2)"

definition lane_auto_recover ::
  "'f float_ops \<Rightarrow> go_time \<Rightarrow> duration \<Rightarrow> (int \<Rightarrow> bool) option \<Rightarrow> 'f lane \<Rightarrow> (bool \<times> int \<times> int) \<times> 'f lane" where
  "lane_auto_recover fo now levelDuration0 check l =
     (let levelDuration = (if levelDuration0 \<le> 0 then defaultMaxLevelDuration else levelDuration0) in
      case ln_lastEscalation l of
        None \<Rightarrow> ((False, 0, 0), l)
      | Some t \<Rightarrow>
          if ln_escalationLevel l \<le> 0 then ((False, 0, 0), l)
          else if now - t \<le> levelDuration then ((False, 0, 0), l)
          else deescalateAdaptiveFields fo check now l)"

definition adaptiveAutoRecoverAtLocked :: "int \<Rightarrow> go_time option \<Rightarrow> duration \<Rightarrow> go_time option" where
  "adaptiveAutoRecoverAtLocked level lastEscalation levelDuration0 =
     (let levelDuration = (if levelDuration0 \<le> 0 then defaultMaxLevelDuration else levelDuration0) in
      case lastEscalation of None \<Rightarrow> None
      | Some t \<Rightarrow> if level \<le> 0 then None else Some (t + levelDuration))"

section \<open>Higher levels never enforce less\<close>

lemma UpgradeAction_cases: "UpgradeAction b level cfg = b \<or> UpgradeAction b level cfg = ''block''"
  by (auto simp: UpgradeAction_def Let_def split: option.splits)

lemma pair_monotone:
  assumes "level_pair_check lower upper = None"
  shows "ea_blockAll lower = Some True \<Longrightarrow> ea_blockAll upper = Some True"
    and "ea_blockAll lower \<noteq> Some True \<Longrightarrow> ea_upgradeWarn lower = Some ''block'' \<Longrightarrow> ea_upgradeWarn upper = Some ''block''"
    and "ea_blockAll lower \<noteq> Some True \<Longrightarrow> ea_upgradeAsk lower = Some ''block'' \<Longrightarrow> ea_upgradeAsk upper = Some ''block''"
  using assms by (auto simp: level_pair_check_def Let_def upgradeActionStrength_def split: if_splits option.splits)

definition level_blocks :: "string \<Rightarrow> escalation_actions \<Rightarrow> bool" where
  "level_blocks b acts \<longleftrightarrow> b = ''block'' \<or> ea_blockAll acts = Some True \<or>
     b = ''warn'' \<and> ea_upgradeWarn acts = Some ''block'' \<or> b = ''ask'' \<and> ea_upgradeAsk acts = Some ''block''"

lemma pair_blocks: "level_pair_check lower upper = None \<Longrightarrow> level_blocks b lower \<Longrightarrow> level_blocks b upper"
  using pair_monotone [of lower upper] by (auto simp: level_blocks_def)

lemma upgrade_blocks:
  "UpgradeAction b level (Some c) = ''block'' \<longleftrightarrow>
     (if \<not> ae_enabled c \<or> level \<le> 0 then b = ''block''
      else level_blocks b (if level = 1 then el_elevated (ae_levels c) else if level = 2 then el_high (ae_levels c) else el_critical (ae_levels c)))"
  by (auto simp: UpgradeAction_def level_blocks_def Let_def)

lemma monotone_levels:
  assumes "validateEscalationMonotonic ls = None"
  shows "level_blocks b (el_elevated ls) \<Longrightarrow> level_blocks b (el_high ls)"
    and "level_blocks b (el_high ls) \<Longrightarrow> level_blocks b (el_critical ls)"
  using assms by (auto simp: validateEscalationMonotonic_def intro: pair_blocks split: option.splits)

text \<open>
  With a configuration that passes validation, a higher escalation level never enforces less: an
  action upgraded to a block at one level is blocked at every higher level, and at every level the
  action is either the base action or a block.
\<close>

theorem escalation_never_weakens:
  assumes "validateEscalationMonotonic (ae_levels c) = None" "level \<le> level'"
    and "UpgradeAction baseAction level (Some c) \<noteq> baseAction"
  shows "UpgradeAction baseAction level' (Some c) = ''block''"
proof -
  have blk: "UpgradeAction baseAction level (Some c) = ''block''" using assms(3) UpgradeAction_cases [of baseAction level "Some c"] by auto
  have en: "ae_enabled c" "0 < level" using assms(3) by (auto simp: UpgradeAction_def Let_def split: if_splits)
  consider "level = 1" "level' = 1" | "level = 1" "level' = 2" | "level = 1" "2 < level'" | "level = 2" "level' = 2"
    | "level = 2" "2 < level'" | "2 < level" "2 < level'" using en(2) assms(2) by linarith
  then show ?thesis
    using blk en monotone_levels [OF assms(1), of baseAction] by cases (simp_all add: upgrade_blocks)
qed

theorem escalation_never_weakens_witness:
  "UpgradeAction ''warn'' 3 (Some \<lparr>ae_enabled = True, ae_escalationThreshold = 5, ae_decayPerCleanRequest = 1, ae_levelDurationSeconds = 0,
     ae_deescalationCheckSeconds = 0, ae_cleanRequestsToDeescalate = 0,
     ae_levels = \<lparr>el_elevated = \<lparr>ea_upgradeWarn = Some ''block'', ea_upgradeAsk = Some [], ea_blockAll = Some False\<rparr>,
       el_high = \<lparr>ea_upgradeWarn = Some ''block'', ea_upgradeAsk = Some ''block'', ea_blockAll = Some False\<rparr>,
       el_critical = \<lparr>ea_upgradeWarn = Some ''block'', ea_upgradeAsk = Some ''block'', ea_blockAll = Some True\<rparr>\<rparr>\<rparr> :: int adaptive_config option) = ''block''"
  by (rule escalation_never_weakens [where level = 1])
    (simp_all add: validateEscalationMonotonic_def level_pair_check_def upgradeActionStrength_def UpgradeAction_def)

section \<open>Operations of a lane\<close>

datatype 'f lane_op =
    LSignal signal 'f
  | LClean 'f
  | LCleanRecover 'f int "(int \<Rightarrow> bool) option"
  | LAutoRecover duration "(int \<Rightarrow> bool) option"
  | LSetBlockAll bool

fun lane_step :: "'f float_ops \<Rightarrow> go_time \<times> 'f lane_op \<Rightarrow> 'f lane \<Rightarrow> 'f lane" where
  "lane_step fo (now, LSignal sig th) l = snd (recordAdaptiveSignalFields fo now sig th l)"
| "lane_step fo (now, LClean d) l = decayAdaptiveScore fo d l"
| "lane_step fo (now, LCleanRecover d n check) l = snd (lane_clean_recovery fo now d n check l)"
| "lane_step fo (now, LAutoRecover d check) l = snd (lane_auto_recover fo now d check l)"
| "lane_step fo (now, LSetBlockAll b) l = l\<lparr>ln_atBlockAll := b\<rparr>"

lemmas lane_defs = recordAdaptiveSignalFields_def decayAdaptiveScore_def lane_clean_recovery_def lane_auto_recover_def
  deescalateAdaptiveFields_def Let_def

definition lane_ok :: "'f lane \<Rightarrow> bool" where
  "lane_ok l \<longleftrightarrow> 0 \<le> ln_escalationLevel l \<and> 0 \<le> ln_cleanRequests l \<and> (0 < ln_escalationLevel l \<longrightarrow> ln_lastEscalation l \<noteq> None)"

lemma new_lane_ok [simp]: "lane_ok (new_lane fo)"
  by (simp add: lane_ok_def new_lane_def)

lemma lane_step_ok: "lane_ok l \<Longrightarrow> lane_ok (lane_step fo x l)"
  by (cases x; cases "snd x") (auto simp: lane_ok_def lane_defs split: option.splits)

interpretation lane_inv: kept_invariant "lane_step fo" lane_ok for fo
  by unfold_locales (rule lane_step_ok)

section \<open>An escalation holds\<close>

text \<open>
  The operations of a run in which level durations are at least \<open>d\<close>, clean recovery needs at least \<open>n\<close>
  requests, and the clock stays within \<open>d\<close> of \<open>t0\<close>.
\<close>

definition gentle :: "go_time \<Rightarrow> duration \<Rightarrow> int \<Rightarrow> go_time \<times> 'f lane_op \<Rightarrow> bool" where
  "gentle t0 d n = (\<lambda>(now, x). t0 \<le> now \<and> now \<le> t0 + d \<and>
     (case x of LCleanRecover _ m _ \<Rightarrow> m \<le> 0 \<or> n \<le> m | LAutoRecover d' _ \<Rightarrow> d \<le> (if d' \<le> 0 then defaultMaxLevelDuration else d') | _ \<Rightarrow> True))"

fun clean_count :: "(go_time \<times> 'f lane_op) list \<Rightarrow> int" where
  "clean_count [] = 0"
| "clean_count ((now, LCleanRecover _ _ _) # xs) = 1 + clean_count xs"
| "clean_count (_ # xs) = clean_count xs"

lemma clean_count_nonneg: "0 \<le> clean_count xs"
  by (induction xs rule: clean_count.induct) simp_all

lemma clean_count_Cons: "clean_count (x # xs) = clean_count [x] + clean_count xs"
  by (cases x; cases "snd x") auto

definition held :: "go_time \<Rightarrow> int \<Rightarrow> 'f lane \<Rightarrow> bool" where
  "held t0 level l \<longleftrightarrow> level \<le> ln_escalationLevel l \<and> (\<exists>t \<ge> t0. ln_lastEscalation l = Some t)"

lemma held_step:
  assumes "held t0 level l" "gentle t0 d n x" "ln_cleanRequests l + clean_count [x] < n"
  shows "held t0 level (lane_step fo x l) \<and> ln_cleanRequests (lane_step fo x l) \<le> max 0 (ln_cleanRequests l + clean_count [x])"
proof -
  obtain now y where x: "x = (now, y)" by fastforce
  show ?thesis
    using assms unfolding x by (cases y) (auto simp: held_def gentle_def lane_defs split: option.splits if_splits)
qed

lemma held_run:
  "held t0 level l \<Longrightarrow> list_all (gentle t0 d n) xs \<Longrightarrow> ln_cleanRequests l + clean_count xs < n \<Longrightarrow> clean_count xs < n \<Longrightarrow>
   held t0 level (fold (lane_step fo) xs l)"
proof (induction xs arbitrary: l)
  case (Cons x xs)
  note c = clean_count_Cons [of x xs] clean_count_nonneg [of xs] clean_count_nonneg [of "[x]"]
  have "held t0 level (lane_step fo x l)" "ln_cleanRequests (lane_step fo x l) \<le> max 0 (ln_cleanRequests l + clean_count [x])"
    using held_step [of t0 level l d n x fo] Cons.prems c by auto
  then show ?case using Cons.IH [of "lane_step fo x l"] Cons.prems c by (simp add: max_def split: if_splits)
qed simp

text \<open>
  C12. Once a lane has escalated to a level at time \<open>t0\<close>, it stays at that level or above for the whole
  level duration, through any mix of signals, clean requests and recovery sweeps with fewer than the
  configured number of clean requests.
\<close>

theorem escalation_holds:
  assumes "recordAdaptiveSignalFields fo t0 sig th l = ((True, lbl, lbl'), l')"
    and "list_all (gentle t0 d n) xs" "clean_count xs < n"
  shows "ln_escalationLevel l < ln_escalationLevel (fold (lane_step fo) xs l')"
proof -
  have "held t0 (ln_escalationLevel l + 1) l'" "ln_cleanRequests l' = 0"
    using assms(1) by (auto simp: held_def recordAdaptiveSignalFields_def Let_def split: if_splits)
  then have "held t0 (ln_escalationLevel l + 1) (fold (lane_step fo) xs l')" using held_run [OF _ assms(2)] assms(3) by simp
  then show ?thesis by (simp add: held_def)
qed

definition int_ops :: "int float_ops" where
  "int_ops = \<lparr>fo_lit = int, fo_add = (+), fo_sub = (-), fo_mul2 = (\<lambda>x. 2 * x), fo_div2 = (\<lambda>x. x div 2), fo_less = (<), fo_equal = (=)\<rparr>"

definition demo_lane :: "int lane" where
  "demo_lane = (new_lane int_ops)\<lparr>ln_threatScore := 300\<rparr>"

theorem escalation_holds_witness:
  "0 < ln_escalationLevel (fold (lane_step int_ops)
      [(8, LCleanRecover 50 2 None), (9, LSignal SignalNearMiss 500), (10, LAutoRecover 20 None)]
      (snd (recordAdaptiveSignalFields int_ops 7 SignalBlock 500 demo_lane)))"
proof -
  have "ln_escalationLevel demo_lane < ln_escalationLevel (fold (lane_step int_ops)
      [(8, LCleanRecover 50 2 None), (9, LSignal SignalNearMiss 500), (10, LAutoRecover 20 None)]
      (snd (recordAdaptiveSignalFields int_ops 7 SignalBlock 500 demo_lane)))"
  proof (rule escalation_holds [where d = 20 and n = 2 and ?t0.0 = 7 and sig = SignalBlock and th = 500])
    show "recordAdaptiveSignalFields int_ops 7 SignalBlock 500 demo_lane =
        ((True, EscalationLabel 0, EscalationLabel 1), snd (recordAdaptiveSignalFields int_ops 7 SignalBlock 500 demo_lane))"
      by (simp add: recordAdaptiveSignalFields_def demo_lane_def new_lane_def int_ops_def)
  qed (simp_all add: gentle_def)
  then show ?thesis by (simp add: demo_lane_def new_lane_def)
qed

section \<open>A quiet lane recovers\<close>

text \<open>Sweep times that leave more than a level duration between them.\<close>

fun spaced :: "duration \<Rightarrow> go_time \<Rightarrow> go_time list \<Rightarrow> bool" where
  "spaced d t [] = True"
| "spaced d t (u # us) = (t + d < u \<and> spaced d u us)"

lemma spaced_later: "spaced d t us \<Longrightarrow> t' \<le> t \<Longrightarrow> spaced d t' us"
  by (cases us) auto

lemma auto_recover_drops:
  assumes "0 < d" "lane_ok l" "ln_escalationLevel l > 0 \<longrightarrow> (\<exists>t' \<le> t. ln_lastEscalation l = Some t')" "t + d < u"
  shows "ln_escalationLevel (snd (lane_auto_recover fo u d check l)) = max 0 (ln_escalationLevel l - 1) \<and>
    (\<exists>t' \<le> u. ln_escalationLevel l > 0 \<longrightarrow> ln_lastEscalation (snd (lane_auto_recover fo u d check l)) = Some t') \<and>
    lane_ok (snd (lane_auto_recover fo u d check l))"
  using assms by (auto simp: lane_ok_def lane_defs split: option.splits)

lemma lane_recovers:
  "0 < d \<Longrightarrow> lane_ok l \<Longrightarrow> (ln_escalationLevel l > 0 \<longrightarrow> (\<exists>t' \<le> t. ln_lastEscalation l = Some t')) \<Longrightarrow> spaced d t us \<Longrightarrow>
   ln_escalationLevel (fold (\<lambda>u l. snd (lane_auto_recover fo u d check l)) us l) = max 0 (ln_escalationLevel l - int (length us))"
proof (induction us arbitrary: l t)
  case Nil
  then show ?case by (simp add: lane_ok_def max_def)
next
  case (Cons u us)
  let ?l = "snd (lane_auto_recover fo u d check l)"
  from Cons.prems have d: "ln_escalationLevel ?l = max 0 (ln_escalationLevel l - 1)" "lane_ok ?l"
    "ln_escalationLevel ?l > 0 \<longrightarrow> (\<exists>t' \<le> u. ln_lastEscalation ?l = Some t')"
    using auto_recover_drops [of d l t u fo check] by auto
  have "ln_escalationLevel (fold (\<lambda>u l. snd (lane_auto_recover fo u d check l)) us ?l) = max 0 (ln_escalationLevel ?l - int (length us))"
    using Cons.IH [OF Cons.prems(1) d(2) d(3)] Cons.prems(4) by simp
  then show ?case using d(1) by simp
qed

text \<open>
  The level is not bounded by critical: thirteen more blocks after a first one double the threshold past
  it, and three level durations then leave the lane at elevated instead of normal.
\<close>

lemma deep_escalation_outlasts_three_periods:
  "let l = fold (lane_step int_ops) (replicate 14 (0, LSignal SignalBlock 500)) (new_lane int_ops);
       l' = fold (\<lambda>u l. snd (lane_auto_recover int_ops u 300 None l)) [301, 602, 903] l in
   EscalationLabel (ln_escalationLevel l) = ''critical'' \<and> EscalationLabel (ln_escalationLevel l') = ''elevated''"
  by (simp add: Let_def numeral_eq_Suc lane_defs new_lane_def int_ops_def EscalationLabel_def escalationLabels_def)

end
