(* ===== verification/GoGlob.thy ===== *)
theory GoGlob
  imports GoText
begin

text \<open>
  What the sources use of Go's \<^verbatim>\<open>path\<close> and \<^verbatim>\<open>unicode\<close> packages to match names: the runes of a byte string
  with their code points, and \<^verbatim>\<open>path.Match\<close>. Both callers of \<^verbatim>\<open>path.Match\<close> take a malformed pattern for one
  that does not match, so the model returns a boolean, true when the call returns \<^verbatim>\<open>(true, nil)\<close>.
\<close>

section \<open>Runes\<close>

function runes :: "string \<Rightarrow> string list" where
  "runes [] = []"
| "runes (c # s) = take (rune_width (c # s)) (c # s) # runes (drop (rune_width (c # s)) (c # s))"
  by pat_completeness auto
termination by (relation "measure length") (simp_all only: wf_measure in_measure drop_rune)

text \<open>The code point of the rune a string begins with; an invalid encoding decodes to U+FFFD.\<close>

definition rune_value :: "string \<Rightarrow> nat" where
  "rune_value s =
     (let b = (\<lambda>i. if i < length s then of_char (s ! i) else 0 :: nat); n = rune_width s in
      if n = 2 then (b 0 mod 32) * 64 + b 1 mod 64
      else if n = 3 then (b 0 mod 16) * 4096 + (b 1 mod 64) * 64 + b 2 mod 64
      else if n = 4 then (b 0 mod 8) * 262144 + (b 1 mod 64) * 4096 + (b 2 mod 64) * 64 + b 3 mod 64
      else if b 0 < 128 then b 0 else 65533)"

section \<open>path.Match\<close>

text \<open>The chunk up to the next star outside a character class, and the rest of the pattern.\<close>

fun scan_to :: "bool \<Rightarrow> string \<Rightarrow> string \<times> string" where
  "scan_to inrange [] = ([], [])"
| "scan_to inrange (c # s) =
     (if c = CHR 0x5C then (case s of [] \<Rightarrow> ([c], []) | d # s' \<Rightarrow> apfst (\<lambda>chunk. c # d # chunk) (scan_to inrange s'))
      else if c = CHR ''*'' \<and> \<not> inrange then ([], c # s)
      else apfst (Cons c) (scan_to (if c = CHR ''['' then True else if c = CHR '']'' then False else inrange) s))"

definition scanChunk :: "string \<Rightarrow> bool \<times> string \<times> string" where
  "scanChunk p = (let q = dropWhile (\<lambda>c. c = CHR ''*'') p in (p \<noteq> q, scan_to False q))"

definition getEsc :: "string \<Rightarrow> (nat \<times> string) option" where
  "getEsc chunk =
     (if chunk = [] \<or> hd chunk = CHR ''-'' \<or> hd chunk = CHR '']'' then None
      else let c = (if hd chunk = CHR 0x5C then tl chunk else chunk) in
        if c = [] then None
        else if rune_width c = 1 \<and> 128 \<le> (of_char (hd c) :: nat) then None
        else if drop (rune_width c) c = [] then None
        else Some (rune_value c, drop (rune_width c) c))"

lemma getEsc_shorter: "getEsc chunk = Some (r, rest) \<Longrightarrow> length rest < length chunk"
proof -
  assume a: "getEsc chunk = Some (r, rest)"
  define c where "c = (if hd chunk = CHR 0x5C then tl chunk else chunk)"
  from a have "chunk \<noteq> []" "c \<noteq> []" "rest = drop (rune_width c) c"
    by (auto simp: getEsc_def c_def Let_def split: if_splits)
  moreover have "length (drop (rune_width c) c) < length c"
    using \<open>c \<noteq> []\<close> drop_rune by (metis neq_Nil_conv)
  moreover have "length c \<le> length chunk" by (simp add: c_def)
  ultimately show ?thesis by (metis order_less_le_trans)
qed

function class_ranges :: "nat \<Rightarrow> bool \<Rightarrow> bool \<Rightarrow> string \<Rightarrow> (bool \<times> string) option" where
  "class_ranges r matched some chunk =
     (if chunk \<noteq> [] \<and> hd chunk = CHR '']'' \<and> some then Some (matched, tl chunk)
      else case getEsc chunk of None \<Rightarrow> None
      | Some (lo, c1) \<Rightarrow>
          if c1 \<noteq> [] \<and> hd c1 = CHR ''-'' then
            (case getEsc (tl c1) of None \<Rightarrow> None
             | Some (hi, c2) \<Rightarrow> class_ranges r (matched \<or> lo \<le> r \<and> r \<le> hi) True c2)
          else class_ranges r (matched \<or> r = lo) True c1)"
  by pat_completeness auto
termination
proof (relation "measure (\<lambda>(r, m, s, chunk). length chunk)", goal_cases)
  case (2 r m s chunk x lo c1 y hi c2)
  then have "length c1 < length chunk" "length c2 < length (tl c1)" by (auto dest: getEsc_shorter)
  then show ?case by simp
next
  case (3 r m s chunk x lo c1)
  then show ?case by (auto dest: getEsc_shorter)
qed simp

declare class_ranges.simps [simp del]

lemma class_ranges_shorter: "class_ranges r m some chunk = Some (b, rest) \<Longrightarrow> length rest < length chunk"
proof (induction r m some chunk rule: class_ranges.induct)
  case (1 r m some chunk)
  show ?case
  proof (cases "chunk \<noteq> [] \<and> hd chunk = CHR '']'' \<and> some")
    case True
    with "1.prems" show ?thesis by (subst (asm) class_ranges.simps) auto
  next
    case False
    with "1.prems" obtain lo c1 where g: "getEsc chunk = Some (lo, c1)"
      by (subst (asm) class_ranges.simps) (auto split: option.splits)
    note l1 = getEsc_shorter [OF g]
    show ?thesis
    proof (cases "c1 \<noteq> [] \<and> hd c1 = CHR ''-''")
      case d: True
      with "1.prems" False g obtain hi c2 where g2: "getEsc (tl c1) = Some (hi, c2)"
        and cr: "class_ranges r (m \<or> lo \<le> r \<and> r \<le> hi) True c2 = Some (b, rest)"
        by (subst (asm) class_ranges.simps) (auto split: option.splits)
      have "length rest < length c2" using "1.IH"(1) [OF False g refl d g2 refl cr] .
      with getEsc_shorter [OF g2] l1 show ?thesis by simp
    next
      case d: False
      with "1.prems" False g have cr: "class_ranges r (m \<or> r = lo) True c1 = Some (b, rest)"
        by (subst (asm) class_ranges.simps) auto
      show ?thesis using "1.IH"(2) [OF False g refl d cr] l1 by simp
    qed
  qed
qed

text \<open>\<open>None\<close> for a malformed pattern, else the rest of the name where the chunk matches a beginning of it.\<close>

function matchChunk :: "string \<Rightarrow> string \<Rightarrow> bool \<Rightarrow> string option option" where
  "matchChunk [] s failed = Some (if failed then None else Some s)"
| "matchChunk (c # chunk) s failed0 =
     (let failed = (failed0 \<or> s = []) in
      if c = CHR ''['' then
        let negated = (chunk \<noteq> [] \<and> hd chunk = CHR ''^'');
            r = (if failed then 0 else rune_value s);
            s' = (if failed then s else drop (rune_width s) s) in
        (case class_ranges r False False (if negated then tl chunk else chunk) of None \<Rightarrow> None
         | Some (matched, chunk') \<Rightarrow> matchChunk chunk' s' (failed \<or> matched = negated))
      else if c = CHR ''?'' then
        if failed then matchChunk chunk s True
        else matchChunk chunk (drop (rune_width s) s) (hd s = CHR ''/'')
      else if c = CHR 0x5C then
        (case chunk of [] \<Rightarrow> None
         | d # ds \<Rightarrow> if failed then matchChunk ds s True else matchChunk ds (tl s) (hd s \<noteq> d))
      else if failed then matchChunk chunk s True
      else matchChunk chunk (tl s) (hd s \<noteq> c))"
  by pat_completeness auto
termination
proof (relation "measure (\<lambda>(chunk, s, failed). length chunk)", goal_cases)
  case (2 c chunk s failed0 x xa xb xc xd y z)
  then have "length z < length (if xa then tl chunk else chunk)" by (auto dest: class_ranges_shorter)
  then show ?case by (auto split: if_splits)
qed auto

text \<open>The positions after a star, which does not cross a slash.\<close>

fun star_try :: "string \<Rightarrow> bool \<Rightarrow> string \<Rightarrow> string option option" where
  "star_try chunk final [] = Some None"
| "star_try chunk final (x # xs) =
     (if x = CHR ''/'' then Some None
      else case matchChunk chunk xs False of None \<Rightarrow> None
      | Some None \<Rightarrow> star_try chunk final xs
      | Some (Some t) \<Rightarrow> if final \<and> t \<noteq> [] then star_try chunk final xs else Some (Some t))"

lemma scan_to_shorter: "length (snd (scan_to r p)) \<le> length p"
  by (induction r p rule: scan_to.induct) (auto simp: le_SucI split: list.splits)

lemma scanChunk_shorter: "p \<noteq> [] \<Longrightarrow> length (snd (snd (scanChunk p))) < length p"
proof -
  assume "p \<noteq> []"
  then obtain c s where p: "p = c # s" by (cases p) auto
  show ?thesis
  proof (cases "c = CHR ''*''")
    case True
    have "length (snd (scan_to False (dropWhile (\<lambda>c. c = CHR ''*'') s))) \<le> length s"
      using scan_to_shorter length_dropWhile_le order_trans by blast
    then show ?thesis using True p by (simp add: scanChunk_def Let_def)
  next
    case False
    have "length (snd (scan_to r s)) < Suc (length s)" for r using scan_to_shorter [of r s] by simp
    moreover have "length (snd (scan_to r (tl s))) < Suc (length s)" for r
      using scan_to_shorter [of r "tl s"] by (simp add: order_le_less_trans)
    ultimately show ?thesis using False p by (cases s) (auto simp: scanChunk_def Let_def)
  qed
qed

function path_Match :: "string \<Rightarrow> string \<Rightarrow> bool" where
  "path_Match pat name =
     (if pat = [] then name = []
      else let (star, chunk, rest) = scanChunk pat in
        if star \<and> chunk = [] then CHR ''/'' \<notin> set name
        else (case matchChunk chunk name False of
            None \<Rightarrow> False
          | Some m \<Rightarrow>
              (case (case m of Some t \<Rightarrow> if t = [] \<or> rest \<noteq> [] then Some (Some t)
                         else if star then star_try chunk True name else Some None
                     | None \<Rightarrow> if star then star_try chunk (rest = []) name else Some None) of
                 Some (Some t) \<Rightarrow> path_Match rest t
               | _ \<Rightarrow> False)))"
  by pat_completeness auto
termination
  by (relation "measure (\<lambda>(pat, name). length pat)") (auto dest!: scanChunk_shorter split: prod.splits, (metis snd_conv)+)

declare path_Match.simps [simp del]

end
