(* ===== verification/TaintClassify.thy ===== *)
theory TaintClassify
  imports SessionRisk GoGlob Destination ToolClassify
begin

text \<open>
  The classification of sources and actions for taint policy (\<^verbatim>\<open>internal/session/taint_classify.go\<close>): the
  trust of a URL, the sensitivity of a path, and the class, sensitivity and targets of an HTTP request
  or an MCP tool call. A decoded JSON object is the list of its members in key order, the order of every
  ranged walk of the source that depends on one; numbers carry no text the code reads. \<^verbatim>\<open>json.Unmarshal\<close>,
  the host name \<^verbatim>\<open>url.Parse\<close> finds, the compiled expressions of the tool classifier and the Unicode tables
  beyond ASCII are the fields of an argument \<open>taint_libs\<close>. The white space test of \<^verbatim>\<open>strings.Fields\<close> is that
  of \<^verbatim>\<open>TrimSpace\<close>.
\<close>

datatype jvalue =
    VNull
  | VBool bool
  | VNumber
  | VString string
  | VArray "jvalue list"
  | VObject "(string \<times> jvalue) list"

record taint_libs =
  tl_lower :: "string \<Rightarrow> string"
  tl_upper :: "string \<Rightarrow> string"
  tl_letter :: "string \<Rightarrow> bool"
  tl_digit :: "string \<Rightarrow> bool"
  tl_isUpper :: "string \<Rightarrow> bool"
  tl_isLower :: "string \<Rightarrow> bool"
  tl_hostname :: "string \<Rightarrow> string option"
  tl_unmarshal :: "string \<Rightarrow> jvalue option"
  tl_matchers :: matchers

section \<open>Sources\<close>

definition IsLoopback :: "ip \<Rightarrow> bool" where
  "IsLoopback a = (case To4 a of Some b \<Rightarrow> b ! 0 = 127 | None \<Rightarrow> a = replicate 15 0 @ [1])"

definition isTrustedLocalhost :: "string \<Rightarrow> bool" where
  "isTrustedLocalhost host \<longleftrightarrow>
     host = ''localhost'' \<or> (case ParseIP host of None \<Rightarrow> False | Some a \<Rightarrow> IsLoopback a)"

definition ClassifyURLSource :: "taint_libs \<Rightarrow> string \<Rightarrow> string list \<Rightarrow> taint_level" where
  "ClassifyURLSource lib rawURL allowlistedDomains =
     (case tl_hostname lib rawURL of
        None \<Rightarrow> TaintExternalUntrusted
      | Some h \<Rightarrow>
          let host = ToLower (tl_lower lib) h in
          if host = [] then TaintExternalUntrusted
          else if isTrustedLocalhost host then TaintTrusted
          else if list_ex (\<lambda>pat. MatchDomain (tl_lower lib) host pat) allowlistedDomains then TaintAllowlistedReference
          else TaintExternalUntrusted)"

definition IsMediaContentType :: "taint_libs \<Rightarrow> string \<Rightarrow> bool" where
  "IsMediaContentType lib contentType =
     (let base = ToLower (tl_lower lib) (TrimSpace (hd (split_on CHR '';'' contentType))) in
      has_prefix base ''image/'' \<or> has_prefix base ''audio/'' \<or> has_prefix base ''video/'')"

definition plain_observation :: "string \<Rightarrow> string \<Rightarrow> taint_level \<Rightarrow> bool \<Rightarrow> bool \<Rightarrow> risk_observation" where
  "plain_observation url' kind level media promptHit =
     \<lparr>ro_source = \<lparr>tsr_url = url', tsr_kind = kind, tsr_level = level, tsr_timestamp = None, tsr_receiptID = [], tsr_matchReason = []\<rparr>,
      ro_mediaSeen = media, ro_promptHit = promptHit, ro_maxSources = 0, ro_approvedUntil = None\<rparr>"

definition ClassifyHTTPResponseObservation ::
  "taint_libs \<Rightarrow> string \<Rightarrow> string \<Rightarrow> string list \<Rightarrow> bool \<Rightarrow> risk_observation" where
  "ClassifyHTTPResponseObservation lib rawURL contentType allowlistedDomains promptHit =
     (let level = ClassifyURLSource lib rawURL allowlistedDomains in
      plain_observation rawURL ''http_response'' level
        (IsMediaContentType lib contentType \<and> level \<ge> TaintAllowlistedReference) promptHit)"

definition ClassifyMCPResponseObservation :: "string \<Rightarrow> bool \<Rightarrow> bool \<Rightarrow> risk_observation" where
  "ClassifyMCPResponseObservation kind external promptHit =
     plain_observation [] kind (if external then TaintExternalUntrusted else TaintInternalGenerated) False promptHit"

section \<open>Paths\<close>

definition toSlash :: "string \<Rightarrow> string" where
  "toSlash s = map (\<lambda>c. if c = CHR 0x5C then CHR ''/'' else c) s"

definition TrimPrefix :: "string \<Rightarrow> string \<Rightarrow> string" where
  "TrimPrefix s t = (if has_prefix s t then drop (length t) s else s)"

definition path_candidates :: "string \<Rightarrow> string list" where
  "path_candidates target =
     target # filter (\<lambda>t. t \<noteq> [] \<and> t \<noteq> target)
       [TrimPrefix target ''/'', TrimPrefix target ''./'', TrimPrefix (TrimPrefix target ''/'') ''./'']"

definition matchPathPattern :: "string \<Rightarrow> string \<Rightarrow> bool" where
  "matchPathPattern target0 pattern0 =
     (if target0 = [] \<or> pattern0 = [] then False
      else
        let target = toSlash target0; pat = toSlash pattern0;
            candidates = path_candidates target;
            trimmedPattern = TrimPrefix pat ''*/'';
            patterns = pat # (if trimmedPattern \<noteq> pat then [trimmedPattern] else []);
            suffix = trimmedPattern in
        list_ex (\<lambda>c. list_ex (\<lambda>p. path_Match p c) patterns) candidates \<or>
        list_ex (\<lambda>c. path_Match pat (CHR ''/'' # TrimPrefix c ''/'')) candidates \<or>
        list_ex (\<lambda>c. has_suffix c (CHR ''/'' # suffix) \<or> c = suffix) candidates)"

record action_classification =
  ac_class :: action_class
  ac_sensitivity :: sensitivity
  ac_actionRef :: string
  ac_overrideRefs :: "string list"
  ac_confident :: bool

definition path_class :: "sensitivity \<Rightarrow> bool \<Rightarrow> action_classification" where
  "path_class sens confident =
     \<lparr>ac_class = ClassRead, ac_sensitivity = sens, ac_actionRef = [], ac_overrideRefs = [], ac_confident = confident\<rparr>"

definition ClassifyPathSensitivityWithConfidence ::
  "string \<Rightarrow> string list \<Rightarrow> string list \<Rightarrow> bool \<Rightarrow> action_classification" where
  "ClassifyPathSensitivityWithConfidence targetPath protectedPatterns elevatedPatterns failSafe =
     (let normalized = toSlash targetPath; confident = (TrimSpace normalized \<noteq> []) in
      if list_ex (matchPathPattern normalized) protectedPatterns then path_class SensitivityProtected True
      else if list_ex (matchPathPattern normalized) elevatedPatterns then path_class SensitivityElevated True
      else if failSafe \<and> \<not> confident then path_class SensitivityProtected False
      else path_class SensitivityNormal confident)"

definition ClassifyPathSensitivity :: "string \<Rightarrow> string list \<Rightarrow> string list \<Rightarrow> sensitivity" where
  "ClassifyPathSensitivity targetPath protectedPatterns elevatedPatterns =
     ac_sensitivity (ClassifyPathSensitivityWithConfidence targetPath protectedPatterns elevatedPatterns False)"

definition failSafeSensitivity :: "bool \<Rightarrow> bool \<Rightarrow> sensitivity" where
  "failSafeSensitivity failSafe confident =
     (if failSafe \<and> \<not> confident then SensitivityProtected else SensitivityNormal)"

definition ascii_upper :: "char \<Rightarrow> char" where
  "ascii_upper c = (if 97 \<le> (of_char c :: nat) \<and> (of_char c :: nat) \<le> 122 then char_of ((of_char c :: nat) - 32) else c)"

definition ToUpper :: "(string \<Rightarrow> string) \<Rightarrow> string \<Rightarrow> string" where
  "ToUpper u s = (if is_ascii s then map ascii_upper s else u s)"

definition ClassifyHTTPActionWithOptions ::
  "taint_libs \<Rightarrow> string \<Rightarrow> string \<Rightarrow> string list \<Rightarrow> string list \<Rightarrow> bool \<Rightarrow> action_classification" where
  "ClassifyHTTPActionWithOptions lib method targetPath protectedPatterns elevatedPatterns failSafe =
     (let pathClass = ClassifyPathSensitivityWithConfidence targetPath protectedPatterns elevatedPatterns failSafe;
          m = ToUpper (tl_upper lib) method in
      if m \<in> {''GET'', ''HEAD'', ''OPTIONS'', ''TRACE''}
      then (path_class (failSafeSensitivity failSafe (ac_confident pathClass)) (ac_confident pathClass))\<lparr>ac_class := ClassRead\<rparr>
      else if m \<in> {''POST'', ''PUT'', ''PATCH'', ''DELETE'', ''QUERY''}
      then (path_class (ac_sensitivity pathClass) (ac_confident pathClass))\<lparr>ac_class := ClassPublish\<rparr>
      else (path_class (ac_sensitivity pathClass) False)\<lparr>ac_class := ClassNetwork\<rparr>)"

definition ClassifyHTTPAction ::
  "taint_libs \<Rightarrow> string \<Rightarrow> string \<Rightarrow> string list \<Rightarrow> string list \<Rightarrow> action_class \<times> sensitivity" where
  "ClassifyHTTPAction lib method targetPath protectedPatterns elevatedPatterns =
     (let c = ClassifyHTTPActionWithOptions lib method targetPath protectedPatterns elevatedPatterns False in
      (ac_class c, ac_sensitivity c))"

section \<open>Words and intents\<close>

definition containsAny :: "string \<Rightarrow> string list \<Rightarrow> bool" where
  "containsAny s needles = list_ex (str_contains s) needles"

definition looksLikeURL :: "string \<Rightarrow> bool" where
  "looksLikeURL s \<longleftrightarrow> has_prefix s ''http://'' \<or> has_prefix s ''https://''"

definition looksLikePath :: "string \<Rightarrow> bool" where
  "looksLikePath s \<longleftrightarrow> has_prefix s ''/'' \<or> has_prefix s ''./'' \<or> has_prefix s ''../'' \<or>
     str_contains s ''/'' \<or> str_contains s [CHR 0x5C]"

definition looksLikeSecretPath :: "taint_libs \<Rightarrow> string \<Rightarrow> bool" where
  "looksLikeSecretPath lib s =
     containsAny (ToLower (tl_lower lib) (toSlash s))
       [''/.env'', ''/secrets'', ''/.ssh/'', ''/.aws/'', ''/id_rsa'', ''/id_ed25519'', ''/kubeconfig'', ''/etc/shadow'', ''/etc/passwd'']"

definition looksLikeShellTool :: "string \<Rightarrow> bool" where
  "looksLikeShellTool name = containsAny name [''bash'', ''shell'', ''exec'', ''command'', ''terminal'', ''run'']"

definition looksLikeWriteTool :: "string \<Rightarrow> bool" where
  "looksLikeWriteTool name =
     containsAny name [''write'', ''edit'', ''update'', ''create'', ''delete'', ''remove'', ''rename'', ''move'', ''patch'']"

definition looksLikeReadTool :: "string \<Rightarrow> bool" where
  "looksLikeReadTool name = containsAny name [''read'', ''cat'', ''open'', ''list'', ''search'', ''find'', ''get'']"

definition looksLikeBrowseTool :: "string \<Rightarrow> bool" where
  "looksLikeBrowseTool name = containsAny name [''browse'', ''fetch'', ''scrape'', ''crawl'']"

definition isMutatingShellCommand :: "taint_libs \<Rightarrow> string \<Rightarrow> bool" where
  "isMutatingShellCommand lib command =
     containsAny (ToLower (tl_lower lib) command)
       [''rm '', '' mv '', ''mv '', ''cp '', ''chmod '', ''chown '', ''git push'', ''git commit'',
        ''apply_patch'', ''sed -i'', ''tee '', ''cat >'', ''curl -x post'', ''curl -x put'', ''curl -x patch'',
        ''curl -d'', ''wget --post'', ''gh pr create'', ''gh pr merge'', ''npm publish'']"

definition normalizeIntentJSON :: "taint_libs \<Rightarrow> string \<Rightarrow> string" where
  "normalizeIntentJSON lib raw =
     filter (\<lambda>c. c \<noteq> CHR '' '' \<and> c \<noteq> CHR 0x0A \<and> c \<noteq> CHR 0x0D \<and> c \<noteq> CHR 0x09) (ToLower (tl_lower lib) raw)"

definition quoted :: "string \<Rightarrow> string" where
  "quoted s = CHR 0x22 # s @ [CHR 0x22]"

definition decodeJSONValue :: "taint_libs \<Rightarrow> string \<Rightarrow> jvalue option" where
  "decodeJSONValue lib raw = (if raw = [] then None else tl_unmarshal lib raw)"

fun jsonWalk :: "(string \<Rightarrow> jvalue \<Rightarrow> bool) \<Rightarrow> jvalue \<Rightarrow> bool" where
  "jsonWalk visit (VArray vs) = list_ex (jsonWalk visit) vs"
| "jsonWalk visit (VObject fs) = list_ex (\<lambda>(k, v). visit k v \<or> jsonWalk visit v) fs"
| "jsonWalk visit _ = False"

definition jsonHasAnyKey :: "taint_libs \<Rightarrow> jvalue \<Rightarrow> string list \<Rightarrow> bool" where
  "jsonHasAnyKey lib v keys =
     jsonWalk (\<lambda>key _. ToLower (tl_lower lib) key \<in> set (map (ToLower (tl_lower lib)) keys)) v"

definition mutating_methods :: "string list" where
  "mutating_methods = [''post'', ''put'', ''patch'', ''delete'', ''query'']"

definition method_texts :: "string list" where
  "method_texts = map (\<lambda>m. quoted ''method'' @ '':'' @ quoted m) mutating_methods"

text \<open>The fold of \<^verbatim>\<open>EqualFold(key, "method")\<close> is ASCII: no other rune folds to one of its letters.\<close>

definition hasMutatingNetworkMethod :: "taint_libs \<Rightarrow> string \<Rightarrow> bool" where
  "hasMutatingNetworkMethod lib argsJSON =
     (case decodeJSONValue lib argsJSON of
        None \<Rightarrow> containsAny (normalizeIntentJSON lib argsJSON) method_texts
      | Some decoded \<Rightarrow>
          jsonWalk (\<lambda>key v. to_lower key = ''method'' \<and>
            (case v of VString s \<Rightarrow>
               ToUpper (tl_upper lib) (TrimSpace s) \<in> {''POST'', ''PUT'', ''PATCH'', ''DELETE'', ''QUERY''} | _ \<Rightarrow> False)) decoded)"

definition network_keys :: "string list" where
  "network_keys = [''webhook'', ''endpoint'', ''payload'', ''request_body'', ''form_data'', ''upload'']"

definition hasMutatingNetworkIntent :: "taint_libs \<Rightarrow> string \<Rightarrow> bool" where
  "hasMutatingNetworkIntent lib argsJSON =
     (case decodeJSONValue lib argsJSON of
        Some decoded \<Rightarrow> hasMutatingNetworkMethod lib argsJSON \<or> jsonHasAnyKey lib decoded network_keys
      | None \<Rightarrow> containsAny (normalizeIntentJSON lib argsJSON) (method_texts @ map quoted network_keys))"

definition write_path_keys :: "string list" where
  "write_path_keys = [''path'', ''file_path'', ''filepath'', ''target_path'', ''destination_path'', ''new_path'', ''old_path'']"

definition write_content_keys :: "string list" where
  "write_content_keys = [''content'', ''contents'', ''text'', ''diff'', ''patch'', ''replacement'', ''edits'', ''changes'']"

definition hasWriteIntent :: "taint_libs \<Rightarrow> string \<Rightarrow> bool" where
  "hasWriteIntent lib argsJSON =
     (case decodeJSONValue lib argsJSON of
        Some decoded \<Rightarrow> jsonHasAnyKey lib decoded write_path_keys \<and> jsonHasAnyKey lib decoded write_content_keys
      | None \<Rightarrow> let lower = normalizeIntentJSON lib argsJSON in
          containsAny lower (map quoted write_path_keys) \<and> containsAny lower (map quoted write_content_keys))"

definition hasExecIntent :: "taint_libs \<Rightarrow> string \<Rightarrow> bool" where
  "hasExecIntent lib argsJSON =
     containsAny (normalizeIntentJSON lib argsJSON) (map quoted [''command'', ''cmd'', ''script'', ''shell'', ''program'', ''argv''])"

definition looksLikePublishTool :: "taint_libs \<Rightarrow> string \<Rightarrow> string \<Rightarrow> bool" where
  "looksLikePublishTool lib name argsJSON =
     (containsAny name [''http'', ''request'', ''post'', ''put'', ''patch'', ''publish'', ''send'', ''webhook''] \<or>
      hasMutatingNetworkMethod lib argsJSON)"

section \<open>Argument keys\<close>

definition rune_is :: "(char \<Rightarrow> bool) \<Rightarrow> (string \<Rightarrow> bool) \<Rightarrow> string \<Rightarrow> bool" where
  "rune_is ascii other r =
     (if is_ascii r then ascii (hd r) else length r \<noteq> 1 \<and> other r)"

definition IsUpper :: "taint_libs \<Rightarrow> string \<Rightarrow> bool" where
  "IsUpper lib = rune_is (\<lambda>c. 65 \<le> (of_char c :: nat) \<and> (of_char c :: nat) \<le> 90) (tl_isUpper lib)"

definition IsLower :: "taint_libs \<Rightarrow> string \<Rightarrow> bool" where
  "IsLower lib = rune_is (\<lambda>c. 97 \<le> (of_char c :: nat) \<and> (of_char c :: nat) \<le> 122) (tl_isLower lib)"

definition IsLetter :: "taint_libs \<Rightarrow> string \<Rightarrow> bool" where
  "IsLetter lib = rune_is (\<lambda>c. 65 \<le> (of_char c :: nat) \<and> (of_char c :: nat) \<le> 90 \<or>
     97 \<le> (of_char c :: nat) \<and> (of_char c :: nat) \<le> 122) (tl_letter lib)"

definition IsDigit :: "taint_libs \<Rightarrow> string \<Rightarrow> bool" where
  "IsDigit lib = rune_is (\<lambda>c. 48 \<le> (of_char c :: nat) \<and> (of_char c :: nat) \<le> 57) (tl_digit lib)"

text \<open>The loop of \<^verbatim>\<open>splitArgumentKey\<close> over runes: the finished words, the current word, the previous rune (empty for 0).\<close>

definition flush :: "taint_libs \<Rightarrow> string list \<times> string \<Rightarrow> string list" where
  "flush lib = (\<lambda>(words, word). if word = [] then words else words @ [ToLower (tl_lower lib) word])"

fun split_key :: "taint_libs \<Rightarrow> string list \<Rightarrow> string list \<Rightarrow> string \<Rightarrow> string \<Rightarrow> string list" where
  "split_key lib [] words word previous = flush lib (words, word)"
| "split_key lib (current # rest) words word previous =
     (if \<not> IsLetter lib current \<and> \<not> IsDigit lib current then split_key lib rest (flush lib (words, word)) [] []
      else if word \<noteq> [] \<and> IsUpper lib current \<and> (previous \<noteq> [] \<and> (IsLower lib previous \<or> IsDigit lib previous))
      then split_key lib rest (flush lib (words, word)) current current
      else split_key lib rest words (word @ current) current)"

definition splitArgumentKey :: "taint_libs \<Rightarrow> string \<Rightarrow> string list" where
  "splitArgumentKey lib key = split_key lib (runes key) [] [] []"

datatype command_role = CommandNone | CommandBase | CommandArgs

fun first_role :: "string list \<Rightarrow> command_role" where
  "first_role [] = CommandNone"
| "first_role (token # rest) =
     (if token \<in> {''command'', ''cmd'', ''script'', ''shell'', ''program''} then CommandBase
      else if token \<in> {''args'', ''argv''} then CommandArgs else first_role rest)"

definition mcpCommandFieldRole :: "taint_libs \<Rightarrow> string \<Rightarrow> command_role" where
  "mcpCommandFieldRole lib key = first_role (splitArgumentKey lib key)"

text \<open>\<^verbatim>\<open>mcpArgumentRoleForKey\<close>: true for the target role.\<close>

definition mcpArgumentRoleForKey :: "taint_libs \<Rightarrow> string \<Rightarrow> bool" where
  "mcpArgumentRoleForKey lib key =
     list_ex (\<lambda>token. token \<in>
       {''path'', ''paths'', ''file'', ''files'', ''filename'', ''filenames'', ''filepath'', ''filepaths'',
        ''target'', ''targets'', ''dest'', ''destination'', ''src'', ''source'', ''uri'', ''uris'', ''url'', ''urls''})
       (splitArgumentKey lib key)"

section \<open>Commands\<close>

fun join_spaces :: "string list \<Rightarrow> string" where
  "join_spaces [] = []"
| "join_spaces [s] = s"
| "join_spaces (s # rest) = s @ CHR '' '' # join_spaces rest"

fun command_strings :: "jvalue \<Rightarrow> string list" where
  "command_strings (VString s) = [s]"
| "command_strings (VArray vs) = concat (map command_strings vs)"
| "command_strings _ = []"

definition commandFieldVectors :: "jvalue \<Rightarrow> string list" where
  "commandFieldVectors v = (let vals = command_strings v in if vals = [] then [] else [join_spaces vals])"

fun command_walk :: "taint_libs \<Rightarrow> jvalue \<Rightarrow> string list" where
  "command_walk lib (VArray vs) = concat (map (command_walk lib) vs)"
| "command_walk lib (VObject fs) =
     (let bases = concat (map (\<lambda>(k, v). if mcpCommandFieldRole lib k = CommandBase then commandFieldVectors v else []) fs);
          vectors = concat (map (\<lambda>(k, v). if mcpCommandFieldRole lib k = CommandArgs then commandFieldVectors v else []) fs) in
      concat (map (\<lambda>(k, v). command_walk lib v) fs) @
      concat (map (\<lambda>base. base # map (\<lambda>vec. TrimSpace (base @ CHR '' '' # vec)) vectors) bases) @ vectors)"
| "command_walk lib _ = []"

definition extractMCPCommands :: "taint_libs \<Rightarrow> string \<Rightarrow> string list" where
  "extractMCPCommands lib raw = (case decodeJSONValue lib raw of None \<Rightarrow> [] | Some decoded \<Rightarrow> command_walk lib decoded)"

definition firstMutatingMCPCommand :: "taint_libs \<Rightarrow> string \<Rightarrow> string" where
  "firstMutatingMCPCommand lib raw =
     (case find (isMutatingShellCommand lib) (extractMCPCommands lib raw) of None \<Rightarrow> [] | Some c \<Rightarrow> c)"

section \<open>Targets\<close>

text \<open>\<^verbatim>\<open>rune(value[0])\<close>: a byte read as a code point, encoded.\<close>

definition byte_rune :: "char \<Rightarrow> string" where
  "byte_rune c =
     (let b = (of_char c :: nat) in if b < 128 then [c] else [char_of (192 + b div 64), char_of (128 + b mod 64)])"

definition isStandaloneArgumentValue :: "taint_libs \<Rightarrow> string \<Rightarrow> bool" where
  "isStandaloneArgumentValue lib s =
     (if TrimSpace s \<noteq> s then False
      else if s \<noteq> [] \<and> \<not> list_ex (str_contains s) space_runes then True
      else if has_prefix s ''/'' \<or> has_prefix s ''./'' \<or> has_prefix s ''../'' \<or> has_prefix s ''~/'' \<or>
        has_prefix s [CHR 0x5C, CHR 0x5C] then True
      else 3 \<le> length s \<and> IsLetter lib (byte_rune (s ! 0)) \<and>
        s ! 1 = CHR '':'' \<and> (s ! 2 = CHR ''/'' \<or> s ! 2 = CHR 0x5C))"

text \<open>The references of a call in the order of the walk, each with whether it is a URL.\<close>

fun target_walk :: "taint_libs \<Rightarrow> bool \<Rightarrow> jvalue \<Rightarrow> (bool \<times> string) list" where
  "target_walk lib inherited (VString s) =
     (if looksLikeURL s then
        if inherited \<or> isStandaloneArgumentValue lib s then [(True, s)] else []
      else if looksLikePath s \<and> (inherited \<or> isStandaloneArgumentValue lib s) then [(False, s)] else [])"
| "target_walk lib inherited (VArray vs) = concat (map (target_walk lib inherited) vs)"
| "target_walk lib inherited (VObject fs) =
     concat (map (\<lambda>(k, v). target_walk lib (mcpArgumentRoleForKey lib k \<or> inherited) v) fs)"
| "target_walk lib inherited _ = []"

record action_targets =
  at_refs :: "string list"
  at_paths :: "string list"
  at_urls :: "string list"

definition extractMCPActionTargets :: "taint_libs \<Rightarrow> string \<Rightarrow> action_targets option" where
  "extractMCPActionTargets lib raw =
     map_option (\<lambda>decoded. let ts = target_walk lib False decoded in
       \<lparr>at_refs = map snd ts, at_paths = map snd (filter (\<lambda>t. \<not> fst t) ts), at_urls = map snd (filter fst ts)\<rparr>)
       (decodeJSONValue lib raw)"

fun flatten_walk :: "jvalue \<Rightarrow> string list" where
  "flatten_walk (VString s) = [s]"
| "flatten_walk (VArray vs) = concat (map flatten_walk vs)"
| "flatten_walk (VObject fs) = concat (map (\<lambda>(k, v). k # flatten_walk v) fs)"
| "flatten_walk _ = []"

definition flattenJSONStrings :: "taint_libs \<Rightarrow> string \<Rightarrow> string list" where
  "flattenJSONStrings lib raw =
     (if raw = [] then [] else case tl_unmarshal lib raw of None \<Rightarrow> [raw] | Some v \<Rightarrow> flatten_walk v)"

definition first_such :: "(string \<Rightarrow> bool) \<Rightarrow> string list \<Rightarrow> string" where
  "first_such p ss = (case find p ss of None \<Rightarrow> [] | Some s \<Rightarrow> s)"

definition firstPathLikeValue :: "string list \<Rightarrow> string" where
  "firstPathLikeValue ss = first_such looksLikePath ss"

definition firstURLLikeValue :: "string list \<Rightarrow> string" where
  "firstURLLikeValue ss = first_such looksLikeURL ss"

definition firstSecretPath :: "taint_libs \<Rightarrow> string list \<Rightarrow> string" where
  "firstSecretPath lib ss = first_such (looksLikeSecretPath lib) ss"

definition compactNonEmpty :: "string \<Rightarrow> string list" where
  "compactNonEmpty s = (if s = [] then [] else [s])"

definition secretPaths :: "taint_libs \<Rightarrow> string list \<Rightarrow> string list" where
  "secretPaths lib paths = filter (looksLikeSecretPath lib) paths"

definition compatibleFirstTarget :: "string list \<Rightarrow> string \<Rightarrow> string" where
  "compatibleFirstTarget candidates legacy =
     (if legacy \<in> set candidates then legacy else case candidates of [] \<Rightarrow> [] | c # _ \<Rightarrow> c)"

definition targetsWithSensitivity :: "string list \<Rightarrow> sensitivity \<Rightarrow> string list \<Rightarrow> string list \<Rightarrow> string list" where
  "targetsWithSensitivity candidates sens prot elev = filter (\<lambda>c. ClassifyPathSensitivity c prot elev = sens) candidates"

definition mostSensitive :: "string list \<Rightarrow> string list \<Rightarrow> string list \<Rightarrow> sensitivity" where
  "mostSensitive candidates prot elev =
     fold (\<lambda>c m. let s = ClassifyPathSensitivity c prot elev in if s > m then s else m) candidates SensitivityNormal"

definition classifyMCPPathTargets ::
  "string list \<Rightarrow> string \<Rightarrow> string list \<Rightarrow> string list \<Rightarrow> bool \<Rightarrow> action_classification" where
  "classifyMCPPathTargets candidates legacy prot elev failSafe =
     (if candidates = [] then (ClassifyPathSensitivityWithConfidence [] prot elev failSafe)\<lparr>ac_actionRef := []\<rparr>
      else
        let most = mostSensitive candidates prot elev;
            found = (\<lambda>ref. (path_class most True)\<lparr>ac_actionRef := ref,
              ac_overrideRefs := targetsWithSensitivity candidates most prot elev\<rparr>) in
        if legacy \<noteq> [] \<and> ClassifyPathSensitivity legacy prot elev = most \<and> legacy \<in> set candidates then found legacy
        else case find (\<lambda>c. ClassifyPathSensitivity c prot elev = most) candidates of
          Some c \<Rightarrow> found c
        | None \<Rightarrow> path_class most True)"

definition classifyShellSensitivity :: "taint_libs \<Rightarrow> string \<Rightarrow> string \<Rightarrow> string list \<Rightarrow> string list \<Rightarrow> sensitivity" where
  "classifyShellSensitivity lib command targetPath prot elev =
     (if targetPath \<noteq> [] then ClassifyPathSensitivity targetPath prot elev
      else let lower = ToLower (tl_lower lib) command in
        if str_contains lower ''git push'' \<or> str_contains lower ''gh pr create'' then SensitivityElevated
        else SensitivityProtected)"

section \<open>Tool calls\<close>

definition classified :: "action_class \<Rightarrow> sensitivity \<Rightarrow> string \<Rightarrow> string list \<Rightarrow> bool \<Rightarrow> action_classification" where
  "classified c sens ref refs confident =
     \<lparr>ac_class = c, ac_sensitivity = sens, ac_actionRef = ref, ac_overrideRefs = refs, ac_confident = confident\<rparr>"

definition call_targets :: "taint_libs \<Rightarrow> string \<Rightarrow> action_targets" where
  "call_targets lib argsJSON =
     (case extractMCPActionTargets lib argsJSON of
        Some targets \<Rightarrow> targets
      | None \<Rightarrow>
          let args = flattenJSONStrings lib argsJSON; legacyPath = firstPathLikeValue args; legacyURL = firstURLLikeValue args in
          \<lparr>at_refs = compactNonEmpty legacyPath,
           at_paths = (if \<not> looksLikeURL legacyPath then compactNonEmpty legacyPath else []),
           at_urls = compactNonEmpty legacyURL\<rparr>)"

definition exec_class :: "taint_libs \<Rightarrow> string \<Rightarrow> string \<Rightarrow> string list \<Rightarrow> string list \<Rightarrow> string list \<Rightarrow> action_classification" where
  "exec_class lib argsJSON targetPath refs prot elev =
     (let command = firstMutatingMCPCommand lib argsJSON in
      if command \<noteq> [] then classified ClassExec (classifyShellSensitivity lib command targetPath prot elev) targetPath refs True
      else classified ClassExec SensitivityProtected targetPath refs True)"

definition ClassifyMCPToolCallWithOptions ::
  "taint_libs \<Rightarrow> string \<Rightarrow> string \<Rightarrow> string list \<Rightarrow> string list \<Rightarrow> bool \<Rightarrow> action_classification" where
  "ClassifyMCPToolCallWithOptions lib toolName argsJSON prot elev failSafe =
     (let name = ToLower (tl_lower lib) toolName;
          args = flattenJSONStrings lib argsJSON;
          targets = call_targets lib argsJSON;
          pathClass = classifyMCPPathTargets (at_refs targets) (firstPathLikeValue args) prot elev failSafe;
          targetPath = ac_actionRef pathClass;
          targetURL = compatibleFirstTarget (at_urls targets) (firstURLLikeValue args);
          category = ClassifyTool (tl_matchers lib) toolName argsJSON None;
          secretTargets = secretPaths lib (at_paths targets);
          secretPath = compatibleFirstTarget secretTargets (firstSecretPath lib args) in
      if secretPath \<noteq> [] then classified ClassSecret SensitivityProtected secretPath secretTargets True
      else if looksLikeShellTool name \<or> category = ''exec'' then exec_class lib argsJSON targetPath (at_refs targets) prot elev
      else if category = ''persist'' then classified ClassExec SensitivityProtected targetPath (at_refs targets) True
      else if looksLikeWriteTool name \<or> category = ''write'' \<or> hasWriteIntent lib argsJSON
      then classified ClassWrite (ac_sensitivity pathClass) targetPath (ac_overrideRefs pathClass) (ac_confident pathClass)
      else if looksLikePublishTool lib name argsJSON \<or> hasMutatingNetworkIntent lib argsJSON
      then classified ClassPublish SensitivityElevated targetURL (at_urls targets) True
      else if looksLikeBrowseTool name \<or> category = ''network'' then
        if hasMutatingNetworkIntent lib argsJSON then classified ClassPublish SensitivityElevated targetURL (at_urls targets) True
        else classified ClassBrowse SensitivityNormal targetURL (at_urls targets) True
      else if looksLikeReadTool name \<or> category = ''read'' \<or> category = ''list''
      then classified ClassRead (failSafeSensitivity failSafe (ac_confident pathClass)) targetPath (ac_overrideRefs pathClass)
             (ac_confident pathClass)
      else if hasExecIntent lib argsJSON then exec_class lib argsJSON targetPath (at_refs targets) prot elev
      else classified ClassRead (if failSafe then SensitivityProtected else SensitivityNormal) targetPath
             (ac_overrideRefs pathClass) False)"

definition ClassifyMCPToolCall ::
  "taint_libs \<Rightarrow> string \<Rightarrow> string \<Rightarrow> string list \<Rightarrow> string list \<Rightarrow> action_class \<times> sensitivity \<times> string" where
  "ClassifyMCPToolCall lib toolName argsJSON prot elev =
     (let c = ClassifyMCPToolCallWithOptions lib toolName argsJSON prot elev False in
      (ac_class c, ac_sensitivity c, ac_actionRef c))"

section \<open>A secret target cannot be hidden\<close>

text \<open>The string values of decoded arguments, whatever the keys above them.\<close>

fun leaves :: "jvalue \<Rightarrow> string list" where
  "leaves (VString s) = [s]"
| "leaves (VArray vs) = concat (map leaves vs)"
| "leaves (VObject fs) = concat (map (\<lambda>(k, v). leaves v) fs)"
| "leaves _ = []"

text \<open>Keys add references, they never remove one.\<close>

lemma standalone_leaf_target:
  "s \<in> set (leaves v) \<Longrightarrow> isStandaloneArgumentValue lib s \<Longrightarrow> looksLikePath s \<Longrightarrow> \<not> looksLikeURL s \<Longrightarrow>
   (False, s) \<in> set (target_walk lib inherited v)"
  by (induction lib inherited v rule: target_walk.induct) fastforce+

lemma leaf_in_paths:
  assumes "decodeJSONValue lib args = Some v" "s \<in> set (leaves v)"
    and "isStandaloneArgumentValue lib s" "looksLikePath s" "\<not> looksLikeURL s"
  shows "s \<in> set (at_paths (call_targets lib args))"
  using standalone_leaf_target [OF assms(2-5), of False] assms(1)
  by (force simp: call_targets_def extractMCPActionTargets_def Let_def)

lemma compatibleFirst_in: "cs \<noteq> [] \<Longrightarrow> compatibleFirstTarget cs legacy \<in> set cs"
  by (cases cs) (auto simp: compatibleFirstTarget_def)

lemma secret_nonempty: "looksLikeSecretPath lib s \<Longrightarrow> looksLikePath s \<Longrightarrow> s \<noteq> []"
  by (auto simp: looksLikePath_def)

lemma paths_look_like_paths:
  "s \<in> set (at_paths (call_targets lib args)) \<Longrightarrow> s \<noteq> []"
proof -
  have walk: "(b, t) \<in> set (target_walk lib inh v) \<Longrightarrow> t \<noteq> []" for b t inh v
    by (induction lib inh v rule: target_walk.induct)
      (auto simp: looksLikePath_def looksLikeURL_def split: if_splits)
  show "s \<in> set (at_paths (call_targets lib args)) \<Longrightarrow> s \<noteq> []"
    using walk by (auto simp: call_targets_def extractMCPActionTargets_def Let_def compactNonEmpty_def
        split: option.splits if_splits)
qed

lemma secret_leaf_classified:
  assumes dec: "decodeJSONValue lib args = Some v" and leaf: "s \<in> set (leaves v)"
    and alone: "isStandaloneArgumentValue lib s" and path: "looksLikePath s" "\<not> looksLikeURL s"
    and secret: "looksLikeSecretPath lib s"
  shows "ac_class (ClassifyMCPToolCallWithOptions lib tool args prot elev fs) = ClassSecret \<and>
    ac_sensitivity (ClassifyMCPToolCallWithOptions lib tool args prot elev fs) = SensitivityProtected \<and>
    ac_overrideRefs (ClassifyMCPToolCallWithOptions lib tool args prot elev fs) = secretPaths lib (at_paths (call_targets lib args)) \<and>
    s \<in> set (ac_overrideRefs (ClassifyMCPToolCallWithOptions lib tool args prot elev fs))"
proof -
  let ?secrets = "secretPaths lib (at_paths (call_targets lib args))"
  have s: "s \<in> set ?secrets" using leaf_in_paths [OF dec leaf alone path] secret by (simp add: secretPaths_def)
  then have "?secrets \<noteq> []" by auto
  then have "compatibleFirstTarget ?secrets (firstSecretPath lib (flattenJSONStrings lib args)) \<in> set ?secrets"
    by (rule compatibleFirst_in)
  then have "compatibleFirstTarget ?secrets (firstSecretPath lib (flattenJSONStrings lib args)) \<noteq> []"
    by (simp add: secretPaths_def) (blast dest: paths_look_like_paths)
  with s show ?thesis by (simp add: ClassifyMCPToolCallWithOptions_def classified_def Let_def)
qed

section \<open>The most sensitive target decides\<close>

lemma most_fold:
  "fold (\<lambda>c m. let s = f c in if s > m then s else m) cs m0 = Max (insert m0 (f ` set cs))" for f :: "string \<Rightarrow> sensitivity"
proof (induction cs arbitrary: m0)
  case (Cons c cs)
  have "(let s = f c in if s > m0 then s else m0) = max m0 (f c)" by (auto simp: Let_def max_def)
  then show ?case using Cons [of "max m0 (f c)"] by (cases "cs = []") (simp_all add: max.assoc)
qed simp

lemma target_sensitivity:
  assumes "c \<in> set candidates"
  shows "ClassifyPathSensitivity c prot elev \<le> ac_sensitivity (classifyMCPPathTargets candidates legacy prot elev fs)"
proof -
  have "ClassifyPathSensitivity c prot elev \<le> mostSensitive candidates prot elev"
    using assms unfolding mostSensitive_def most_fold by simp
  moreover have "candidates \<noteq> []" using assms by auto
  ultimately show ?thesis
    by (simp add: classifyMCPPathTargets_def path_class_def Let_def split: option.splits)
qed

end
