(* ===== verification/TaintPolicy.thy ===== *)
theory TaintPolicy
  imports TaintClassify
begin

text \<open>
  Taint enforcement on the two request paths (\<^verbatim>\<open>internal/proxy/taint.go\<close>, \<^verbatim>\<open>internal/mcp/taint.go\<close>): responses
  become observations, a request or tool call is classified and decided by the policy matrix, and
  trust overrides from the configuration or from the running task turn the decision into an allow. A
  parsed URL is the record of what the code reads of it. The recorder of a session is its risk, task
  and runtime overrides; \<open>None\<close> stands for a missing recorder. The clock readings of one evaluation are
  one argument.
\<close>

section \<open>Wildcards\<close>

fun str_index :: "string \<Rightarrow> string \<Rightarrow> nat option" where
  "str_index [] t = (if t = [] then Some 0 else None)"
| "str_index (x # xs) t = (if has_prefix (x # xs) t then Some 0 else map_option Suc (str_index xs t))"

text \<open>The loop over the parts of a pattern; only the first part may be anchored.\<close>

fun wild_loop :: "bool \<Rightarrow> string list \<Rightarrow> string \<Rightarrow> bool" where
  "wild_loop anchored [] rest = True"
| "wild_loop anchored (part # parts) rest =
     (if part = [] then wild_loop False parts rest
      else case str_index rest part of None \<Rightarrow> False
      | Some idx \<Rightarrow> if anchored \<and> idx \<noteq> 0 then False else wild_loop False parts (drop (idx + length part) rest))"

definition wildcardMatch :: "string \<Rightarrow> string \<Rightarrow> bool" where
  "wildcardMatch v pat =
     (if v = [] \<or> pat = [] then False
      else if path_Match pat v then True
      else if \<not> str_contains pat ''*'' then v = pat
      else
        let parts = split_on CHR ''*'' pat in
        if \<not> wild_loop (\<not> has_prefix pat ''*'') parts v then False
        else if \<not> has_suffix pat ''*'' \<and> last parts \<noteq> [] \<and> \<not> has_suffix v (last parts) then False
        else True)"

text \<open>\<^verbatim>\<open>mcp/taint.go\<close> repeats the body of \<^verbatim>\<open>wildcardMatch\<close> under another name.\<close>

definition taintWildcardMatch :: "string \<Rightarrow> string \<Rightarrow> bool" where
  "taintWildcardMatch v pat = wildcardMatch v pat"

section \<open>Overrides\<close>

record taint_trust_override =
  tto_scope :: string
  tto_sourceMatch :: string
  tto_actionMatch :: string
  tto_expiresAt :: "go_time option"
  tto_grantedBy :: string
  tto_reason :: string

record taint_config =
  tcf_enabled :: bool
  tcf_allowlistedDomains :: "string list"
  tcf_trustedMCPServers :: "string list"
  tcf_protectedPaths :: "string list"
  tcf_elevatedPaths :: "string list"
  tcf_trustOverrides :: "taint_trust_override list"
  tcf_policy :: string
  tcf_recentSources :: int
  tcf_failSafe :: bool

definition expired :: "go_time \<Rightarrow> go_time option \<Rightarrow> bool" where
  "expired now t = (case t of None \<Rightarrow> False | Some e \<Rightarrow> e < now)"

definition riskSourceMatches :: "session_risk \<Rightarrow> string \<Rightarrow> bool" where
  "riskSourceMatches risk pat = wildcardMatch (sr_lastExternalURL risk) pat"

definition overrideMatches :: "taint_trust_override \<Rightarrow> session_risk \<Rightarrow> string \<Rightarrow> bool" where
  "overrideMatches ov risk actionRef =
     (if tto_scope ov = ''action'' then
        if tto_actionMatch ov = [] \<or> \<not> wildcardMatch actionRef (tto_actionMatch ov) then False
        else if tto_sourceMatch ov \<noteq> [] \<and> \<not> riskSourceMatches risk (tto_sourceMatch ov) then False else True
      else if tto_scope ov = ''source'' then
        if tto_sourceMatch ov = [] \<or> \<not> riskSourceMatches risk (tto_sourceMatch ov) then False
        else if tto_actionMatch ov \<noteq> [] \<and> \<not> wildcardMatch actionRef (tto_actionMatch ov) then False else True
      else False)"

definition trustOverrideApplies :: "go_time \<Rightarrow> taint_trust_override list \<Rightarrow> session_risk \<Rightarrow> string \<Rightarrow> bool" where
  "trustOverrideApplies now overrides risk actionRef =
     list_ex (\<lambda>ov. \<not> expired now (tto_expiresAt ov) \<and> overrideMatches ov risk actionRef) overrides"

definition runtimeTrustOverrideApplies ::
  "go_time \<Rightarrow> trust_override list \<Rightarrow> task_context \<Rightarrow> session_risk \<Rightarrow> string \<Rightarrow> bool" where
  "runtimeTrustOverrideApplies now overrides task risk actionRef =
     list_ex (\<lambda>ov. to_scope ov = ''task'' \<and> to_taskID ov \<noteq> [] \<and> to_taskID ov = tk_currentTaskID task \<and>
       \<not> expired now (to_expiresAt ov) \<and>
       (to_actionMatch ov = [] \<or> wildcardMatch actionRef (to_actionMatch ov)) \<and>
       (to_sourceMatch ov = [] \<or> riskSourceMatches risk (to_sourceMatch ov))) overrides"

definition taintRiskSourceMatches :: "session_risk \<Rightarrow> string \<Rightarrow> bool" where
  "taintRiskSourceMatches risk pat = taintWildcardMatch (sr_lastExternalURL risk) pat"

definition allTaintActionRefsMatch :: "string list \<Rightarrow> string \<Rightarrow> bool" where
  "allTaintActionRefsMatch actionRefs pat =
     (if actionRefs = [] then False else list_all (\<lambda>ref. taintWildcardMatch ref pat) actionRefs)"

definition taintOverrideMatches :: "taint_trust_override \<Rightarrow> session_risk \<Rightarrow> string list \<Rightarrow> bool" where
  "taintOverrideMatches ov risk actionRefs =
     (if tto_scope ov = ''action'' then
        if tto_actionMatch ov = [] \<or> \<not> allTaintActionRefsMatch actionRefs (tto_actionMatch ov) then False
        else if tto_sourceMatch ov \<noteq> [] \<and> \<not> taintRiskSourceMatches risk (tto_sourceMatch ov) then False else True
      else if tto_scope ov = ''source'' then
        if tto_sourceMatch ov = [] \<or> \<not> taintRiskSourceMatches risk (tto_sourceMatch ov) then False
        else if tto_actionMatch ov \<noteq> [] \<and> \<not> allTaintActionRefsMatch actionRefs (tto_actionMatch ov) then False else True
      else False)"

definition taintTrustOverrideApplies :: "go_time \<Rightarrow> taint_trust_override list \<Rightarrow> session_risk \<Rightarrow> string list \<Rightarrow> bool" where
  "taintTrustOverrideApplies now overrides risk actionRefs =
     list_ex (\<lambda>ov. \<not> expired now (tto_expiresAt ov) \<and> taintOverrideMatches ov risk actionRefs) overrides"

definition taintRuntimeTrustOverrideApplies ::
  "go_time \<Rightarrow> trust_override list \<Rightarrow> task_context \<Rightarrow> session_risk \<Rightarrow> string list \<Rightarrow> bool" where
  "taintRuntimeTrustOverrideApplies now overrides task risk actionRefs =
     list_ex (\<lambda>ov. to_scope ov = ''task'' \<and> to_taskID ov \<noteq> [] \<and> to_taskID ov = tk_currentTaskID task \<and>
       \<not> expired now (to_expiresAt ov) \<and>
       (to_actionMatch ov = [] \<or> allTaintActionRefsMatch actionRefs (to_actionMatch ov)) \<and>
       (to_sourceMatch ov = [] \<or> taintRiskSourceMatches risk (to_sourceMatch ov))) overrides"

section \<open>Decisions\<close>

record taint_recorder =
  tr_risk :: session_risk
  tr_task :: task_context
  tr_overrides :: "trust_override list"

record taint_decision =
  td_risk :: session_risk
  td_task :: task_context
  td_class :: action_class
  td_sensitivity :: sensitivity
  td_authority :: authority
  td_result :: "policy_decision \<times> string"
  td_actionRef :: string
  td_overrideRefs :: "string list"
  td_requiresReauth :: bool
  td_taskOverrideApplied :: bool

definition initial_decision :: taint_decision where
  "initial_decision = \<lparr>td_risk = zero_risk, td_task = zero_task, td_class = ClassRead, td_sensitivity = SensitivityNormal,
     td_authority = AuthorityUserBroad, td_result = (PolicyAllow, ''taint_disabled''), td_actionRef = [], td_overrideRefs = [],
     td_requiresReauth = False, td_taskOverrideApplied = False\<rparr>"

definition observeHTTPResponseTaint ::
  "taint_libs \<Rightarrow> go_time \<Rightarrow> taint_config option \<Rightarrow> string \<Rightarrow> string \<Rightarrow> string \<Rightarrow> bool \<Rightarrow> taint_recorder option \<Rightarrow> taint_recorder option" where
  "observeHTTPResponseTaint lib now cfg rawURL contentType kind promptHit rec =
     (case (rec, cfg) of
        (Some r, Some c) \<Rightarrow>
          if \<not> tcf_enabled c then rec
          else
            let ob = ClassifyHTTPResponseObservation lib rawURL contentType (tcf_allowlistedDomains c) promptHit;
                ob1 = ob\<lparr>ro_source := (ro_source ob)\<lparr>tsr_kind := kind\<rparr>, ro_maxSources := tcf_recentSources c\<rparr> in
            Some (r\<lparr>tr_risk := Observe now ob1 (tr_risk r)\<rparr>)
      | _ \<Rightarrow> rec)"

record request_url =
  rq_path :: string
  rq_requestURI :: string
  rq_scheme :: string
  rq_host :: string

definition httpActionRef :: "taint_libs \<Rightarrow> action_class \<Rightarrow> string \<Rightarrow> request_url option \<Rightarrow> string" where
  "httpActionRef lib action method parsedURL =
     (let low = ToLower (tl_lower lib); actionName = low (ActionClass_String action); methodName = low method in
      case parsedURL of None \<Rightarrow> actionName @ '':'' @ methodName
      | Some u \<Rightarrow>
          let requestURI = (if rq_requestURI u = [] then ''/'' else rq_requestURI u) in
          actionName @ '':'' @ methodName @ '':'' @ low (rq_scheme u) @ ''://'' @ low (rq_host u) @ requestURI)"

definition policy_result :: "taint_config \<Rightarrow> taint_decision \<Rightarrow> bool \<Rightarrow> policy_decision \<times> string" where
  "policy_result c d confident =
     EvaluateWithOptions (tcf_policy c) (sr_level (td_risk d)) (td_class d) (td_sensitivity d) (td_authority d)
       \<lparr>po_failSafe = tcf_failSafe c, po_confident = confident\<rparr>"

definition evaluateHTTPTaint ::
  "taint_libs \<Rightarrow> go_time \<Rightarrow> taint_config option \<Rightarrow> taint_recorder option \<Rightarrow> string \<Rightarrow> request_url option \<Rightarrow> taint_decision" where
  "evaluateHTTPTaint lib now cfg rec method parsedURL =
     (case (cfg, parsedURL) of
        (Some c, Some u) \<Rightarrow>
          if \<not> tcf_enabled c then initial_decision
          else
            let risk = (case rec of Some r \<Rightarrow> tr_risk r | None \<Rightarrow> zero_risk);
                cl = ClassifyHTTPActionWithOptions lib method (rq_path u) (tcf_protectedPaths c) (tcf_elevatedPaths c) (tcf_failSafe c);
                d = initial_decision\<lparr>td_risk := risk, td_class := ac_class cl, td_sensitivity := ac_sensitivity cl,
                      td_actionRef := httpActionRef lib (ac_class cl) method (Some u)\<rparr>;
                d1 = (case rec of Some r \<Rightarrow> d\<lparr>td_task := tr_task r\<rparr> | None \<Rightarrow> d) in
            if (case rec of Some r \<Rightarrow> runtimeTrustOverrideApplies now (tr_overrides r) (tr_task r) risk (td_actionRef d) | None \<Rightarrow> False)
            then d1\<lparr>td_result := (PolicyAllow, ''taint_runtime_task_override''), td_taskOverrideApplied := True\<rparr>
            else if trustOverrideApplies now (tcf_trustOverrides c) risk (td_actionRef d)
            then d1\<lparr>td_result := (PolicyAllow, ''taint_trust_override'')\<rparr>
            else d1\<lparr>td_result := policy_result c d1 (ac_confident cl)\<rparr>
      | _ \<Rightarrow> initial_decision)"

section \<open>MCP\<close>

definition mcpResponseTaintExternal :: "bool \<Rightarrow> bool \<Rightarrow> bool option \<Rightarrow> bool" where
  "mcpResponseTaintExternal externalSource trustedSource trustedFn =
     (externalSource \<and> \<not> (case trustedFn of Some t \<Rightarrow> t | None \<Rightarrow> trustedSource))"

definition observeMCPResponseTaint ::
  "go_time \<Rightarrow> taint_config option \<Rightarrow> bool \<Rightarrow> bool \<Rightarrow> taint_recorder option \<Rightarrow> taint_recorder option" where
  "observeMCPResponseTaint now cfg external promptHit rec =
     (case (cfg, rec) of
        (Some c, Some r) \<Rightarrow>
          if \<not> tcf_enabled c then rec
          else Some (r\<lparr>tr_risk := Observe now
            ((ClassifyMCPResponseObservation ''mcp_response'' external promptHit)\<lparr>ro_maxSources := tcf_recentSources c\<rparr>) (tr_risk r)\<rparr>)
      | _ \<Rightarrow> rec)"

definition mcpActionRef :: "taint_libs \<Rightarrow> string \<Rightarrow> string \<Rightarrow> string" where
  "mcpActionRef lib toolName target =
     (let low = (\<lambda>s. ToLower (tl_lower lib) (TrimSpace s)) in
      ''mcp:'' @ low toolName @ (if TrimSpace target \<noteq> [] then '':'' @ low target else []))"

definition mcpOverrideRefs :: "taint_libs \<Rightarrow> string \<Rightarrow> string list \<Rightarrow> string \<Rightarrow> string list" where
  "mcpOverrideRefs lib toolName targets primary =
     (if targets = [] then [primary]
      else fold (\<lambda>target refs. let ref = mcpActionRef lib toolName target in
        if ref \<in> set refs then refs else refs @ [ref]) targets [])"

fun join_commas :: "string list \<Rightarrow> string" where
  "join_commas [] = []"
| "join_commas [s] = s"
| "join_commas (s # rest) = s @ '', '' @ join_commas rest"

definition mcpReportedActionRef :: "string list \<Rightarrow> string \<Rightarrow> string" where
  "mcpReportedActionRef refs primary = (if length refs \<le> 1 then primary else join_commas refs)"

definition evaluateMCPTaint ::
  "taint_libs \<Rightarrow> go_time \<Rightarrow> taint_config option \<Rightarrow> taint_recorder option \<Rightarrow> string \<Rightarrow> string \<Rightarrow> taint_decision" where
  "evaluateMCPTaint lib now cfg rec toolName argsJSON =
     (case cfg of None \<Rightarrow> initial_decision
      | Some c \<Rightarrow>
          if \<not> tcf_enabled c then initial_decision
          else
            let risk = (case rec of Some r \<Rightarrow> tr_risk r | None \<Rightarrow> zero_risk);
                cl = ClassifyMCPToolCallWithOptions lib toolName argsJSON (tcf_protectedPaths c) (tcf_elevatedPaths c) (tcf_failSafe c);
                primary = mcpActionRef lib toolName (ac_actionRef cl);
                refs = mcpOverrideRefs lib toolName (ac_overrideRefs cl) primary;
                d = initial_decision\<lparr>td_risk := risk, td_class := ac_class cl, td_sensitivity := ac_sensitivity cl,
                      td_overrideRefs := refs, td_actionRef := mcpReportedActionRef refs primary\<rparr>;
                d1 = (case rec of Some r \<Rightarrow> d\<lparr>td_task := tr_task r\<rparr> | None \<Rightarrow> d) in
            if (case rec of Some r \<Rightarrow> taintRuntimeTrustOverrideApplies now (tr_overrides r) (tr_task r) risk refs | None \<Rightarrow> False)
            then d1\<lparr>td_result := (PolicyAllow, ''taint_runtime_task_override''), td_taskOverrideApplied := True\<rparr>
            else if taintTrustOverrideApplies now (tcf_trustOverrides c) risk refs
            then d1\<lparr>td_result := (PolicyAllow, ''taint_trust_override'')\<rparr>
            else d1\<lparr>td_result := policy_result c d1 (ac_confident cl)\<rparr>)"

definition approveTaintDecision :: "taint_decision \<Rightarrow> taint_decision" where
  "approveTaintDecision d = d\<lparr>td_authority := AuthorityOperatorOverride, td_requiresReauth := True\<rparr>"

definition taintReceiptSeverity :: "taint_decision \<Rightarrow> string" where
  "taintReceiptSeverity d =
     (case fst (td_result d) of PolicyBlock \<Rightarrow> ''critical'' | PolicyAsk \<Rightarrow> ''high'' | _ \<Rightarrow> ''medium'')"

text \<open>The taint gate of both transports: \<open>answer\<close> is the operator's, \<open>None\<close> without an approver.\<close>

datatype taint_gate = TaintBlocked | TaintAskDenied | TaintPass taint_decision bool

definition mcp_taint_gate :: "taint_decision \<Rightarrow> bool option \<Rightarrow> taint_gate" where
  "mcp_taint_gate d answer =
     (case fst (td_result d) of
        PolicyBlock \<Rightarrow> TaintBlocked
      | PolicyAsk \<Rightarrow> (case answer of Some True \<Rightarrow> TaintPass (approveTaintDecision d) True | _ \<Rightarrow> TaintAskDenied)
      | _ \<Rightarrow> TaintPass d False)"

section \<open>Wildcards are globs\<close>

text \<open>The reference: a star stands for any string, every other byte for itself.\<close>

fun glob :: "string \<Rightarrow> string \<Rightarrow> bool" where
  "glob [] v = (v = [])"
| "glob (c # pat) v =
     (if c = CHR ''*'' then list_ex (\<lambda>k. glob pat (drop k v)) [0..<Suc (length v)]
      else v \<noteq> [] \<and> hd v = c \<and> glob pat (tl v))"

text \<open>The same over the parts between the stars: \<open>floating\<close> parts may start anywhere.\<close>

fun glob_parts :: "string list \<Rightarrow> string \<Rightarrow> bool" where
  "glob_parts [] v = False"
| "glob_parts [q] v = (v = q)"
| "glob_parts (q # qs) v = (\<exists>r k. v = q @ r \<and> glob_parts qs (drop k r))"

definition floating :: "string list \<Rightarrow> string \<Rightarrow> bool" where
  "floating qs v \<longleftrightarrow> (\<exists>k. glob_parts qs (drop k v))"

lemma glob_parts_Cons: "qs \<noteq> [] \<Longrightarrow> glob_parts (q # qs) v \<longleftrightarrow> (\<exists>r. v = q @ r \<and> floating qs r)"
  by (cases qs) (auto simp: floating_def)

lemma drop_beyond: "(\<exists>k. P (drop k v)) \<longleftrightarrow> (\<exists>k \<le> length v. P (drop k v))"
  by (metis drop_all le_refl nat_le_linear)

lemma glob_split: "glob pat v \<longleftrightarrow> glob_parts (split_on CHR ''*'' pat) v"
proof (induction pat arbitrary: v)
  case (Cons c pat)
  obtain f fs where f: "split_on CHR ''*'' pat = f # fs" by (cases "split_on CHR ''*'' pat") auto
  show ?case
  proof (cases "c = CHR ''*''")
    case True
    have "glob (c # pat) v \<longleftrightarrow> (\<exists>k \<le> length v. glob_parts (split_on CHR ''*'' pat) (drop k v))"
      using True Cons.IH by (simp add: list_ex_iff Bex_def del: upt_Suc) (metis atLeastLessThan_iff le0 less_Suc_eq_le)
    then show ?thesis using True drop_beyond [of "glob_parts (split_on CHR ''*'' pat)" v]
      by (simp add: glob_parts_Cons floating_def)
  next
    case False
    have eq: "glob (c # pat) v \<longleftrightarrow> v \<noteq> [] \<and> hd v = c \<and> glob_parts (f # fs) (tl v)" using False Cons.IH f by simp
    have "split_on CHR ''*'' (c # pat) = (c # f) # fs" using False f by simp
    moreover have "glob_parts ((c # f) # fs) v \<longleftrightarrow> v \<noteq> [] \<and> hd v = c \<and> glob_parts (f # fs) (tl v)"
      by (cases v; cases fs) auto
    ultimately show ?thesis using eq by simp
  qed
qed auto

lemma str_index_Some: "str_index s t = Some i \<Longrightarrow> has_prefix (drop i s) t \<and> (\<forall>j < i. \<not> has_prefix (drop j s) t)"
proof (induction s arbitrary: i)
  case (Cons x xs)
  show ?case
  proof (cases "has_prefix (x # xs) t")
    case True
    with Cons.prems show ?thesis by simp
  next
    case False
    with Cons.prems obtain k where k: "str_index xs t = Some k" "i = Suc k" by auto
    have "\<not> has_prefix (drop j (x # xs)) t" if "j < i" for j
      using that Cons.IH [OF k(1)] False k(2) by (cases j) auto
    then show ?thesis using Cons.IH [OF k(1)] k(2) by simp
  qed
qed (auto split: if_splits)

lemma str_index_None: "str_index s t = None \<Longrightarrow> \<not> has_prefix (drop k s) t"
proof (induction s arbitrary: k)
  case Nil
  then show ?case by (cases t) (auto split: if_splits)
next
  case (Cons x xs)
  then show ?case by (cases k) (auto split: if_splits)
qed

lemma floating_drop: "floating qs (drop m v) \<Longrightarrow> floating qs v"
  unfolding floating_def by (metis drop_drop)

lemma has_suffix_drop:
  "length q \<le> length (drop m v) \<Longrightarrow> has_suffix (drop m v) q \<longleftrightarrow> has_suffix v q"
proof -
  assume len: "length q \<le> length (drop m v)"
  have "has_suffix v q \<Longrightarrow> has_suffix (drop m v) q"
  proof -
    assume "has_suffix v q"
    then obtain r where r: "v = r @ q" by (auto simp: has_suffix_iff)
    have "m \<le> length r \<or> q = []"
    proof (rule ccontr)
      assume "\<not> (m \<le> length r \<or> q = [])"
      then have "length r < m" "0 < length q" by auto
      moreover have "length (drop m v) = length r + length q - m" using r by simp
      ultimately show False using len by linarith
    qed
    then show ?thesis using r by (auto simp: has_suffix_iff)
  qed
  moreover have "has_suffix (drop m v) q \<Longrightarrow> has_suffix v q"
    by (auto simp: has_suffix_iff) (metis append.assoc append_take_drop_id)
  ultimately show ?thesis by blast
qed

lemma wild_loop_length: "wild_loop a qs v \<Longrightarrow> q \<in> set qs \<Longrightarrow> length q \<le> length v"
proof (induction a qs v rule: wild_loop.induct)
  case (2 a part parts rest)
  show ?case
  proof (cases "part = []")
    case True
    with 2 show ?thesis by auto
  next
    case False
    with "2.prems" obtain i where i: "str_index rest part = Some i" "wild_loop False parts (drop (i + length part) rest)"
      by (auto split: option.splits if_splits)
    have "has_prefix (drop i rest) part" using str_index_Some [OF i(1)] by blast
    then have "length part \<le> length (drop i rest)" by (metis has_prefix_iff length_append le_add1)
    moreover have "q \<in> set parts \<Longrightarrow> length q \<le> length (drop (i + length part) rest)"
      using "2.IH"(2) [OF False i(1)] i "2.prems"(1) False by (auto split: if_splits)
    ultimately show ?thesis using "2.prems"(2) by auto
  qed
qed simp

text \<open>The first occurrence of a part leaves the most room for the parts after it.\<close>

lemma floating_greedy:
  assumes "qs \<noteq> []" "str_index v q = Some i"
  shows "floating (q # qs) v \<longleftrightarrow> floating qs (drop (i + length q) v)"
proof
  assume "floating (q # qs) v"
  then obtain k r where r: "drop k v = q @ r" "floating qs r" using assms(1) by (auto simp: floating_def [of "q # qs"] glob_parts_Cons)
  from r(1) have "has_prefix (drop k v) q" by (auto simp: has_prefix_iff)
  with str_index_Some [OF assms(2)] have "i \<le> k" by (metis not_less)
  have "r = drop (k + length q) v" using r(1) by (metis append_eq_conv_conj drop_drop add.commute)
  also have "\<dots> = drop (k - i) (drop (i + length q) v)" using \<open>i \<le> k\<close> by (simp add: algebra_simps)
  finally show "floating qs (drop (i + length q) v)" using r(2) floating_drop by simp
next
  assume f: "floating qs (drop (i + length q) v)"
  from str_index_Some [OF assms(2)] obtain r where r: "drop i v = q @ r" by (auto simp: has_prefix_iff)
  then have "r = drop (i + length q) v" by (metis append_eq_conv_conj drop_drop add.commute)
  with r f assms(1) show "floating (q # qs) v" by (auto simp: floating_def [of "q # qs"] glob_parts_Cons intro!: exI [of _ i])
qed

lemma floating_none: "str_index v q = None \<Longrightarrow> \<not> floating (q # qs) v"
proof (cases qs)
  case Nil
  assume "str_index v q = None"
  then show ?thesis using str_index_None [of v q] Nil by (auto simp: floating_def has_prefix_iff)
next
  case (Cons p ps)
  assume "str_index v q = None"
  then show ?thesis using str_index_None [of v q] Cons
    by (auto simp: floating_def [of "q # p # ps"] glob_parts_Cons has_prefix_iff simp del: glob_parts.simps)
qed

lemma loop_floating: "qs \<noteq> [] \<Longrightarrow> floating qs v \<longleftrightarrow> wild_loop False qs v \<and> has_suffix v (last qs)"
proof (induction qs arbitrary: v rule: list_nonempty_induct)
  case (single q)
  have "floating [q] v \<longleftrightarrow> has_suffix v q"
  proof
    assume "floating [q] v"
    then obtain k where "drop k v = q" by (auto simp: floating_def)
    then show "has_suffix v q" by (metis append_take_drop_id has_suffix_iff)
  next
    assume "has_suffix v q"
    then obtain r where "v = r @ q" by (auto simp: has_suffix_iff)
    then have "drop (length r) v = q" by simp
    then show "floating [q] v" by (auto simp: floating_def)
  qed
  moreover have "str_index v q \<noteq> None" if "has_suffix v q"
  proof
    assume "str_index v q = None"
    from that obtain r where "v = r @ q" by (auto simp: has_suffix_iff)
    then show False using str_index_None [OF \<open>str_index v q = None\<close>, of "length r"] by (simp add: has_prefix_iff)
  qed
  ultimately show ?case by (auto split: option.splits)
next
  case (cons q qs)
  show ?case
  proof (cases "str_index v q")
    case None
    then have "q \<noteq> []" by (cases v) auto
    with None floating_none [OF None, of qs] show ?thesis by simp
  next
    case (Some i)
    let ?v = "drop (i + length q) v"
    have step: "wild_loop False (q # qs) v \<longleftrightarrow> wild_loop False qs ?v"
    proof (cases "q = []")
      case True
      then have "i = 0" using Some by (cases v) auto
      then show ?thesis using True by simp
    qed (simp add: Some)
    have "floating (q # qs) v \<longleftrightarrow> wild_loop False qs ?v \<and> has_suffix ?v (last qs)"
      using floating_greedy [OF cons.hyps Some] cons.IH by simp
    also have "\<dots> \<longleftrightarrow> wild_loop False qs ?v \<and> has_suffix v (last qs)"
      using wild_loop_length [of False qs ?v "last qs"] has_suffix_drop [of "last qs" "i + length q" v] cons.hyps by auto
    finally show ?thesis using step cons.hyps by simp
  qed
qed

lemma split_on_contains: "str_contains pat [c] \<Longrightarrow> tl (split_on c pat) \<noteq> []"
proof -
  assume "str_contains pat [c]"
  then have "c \<in> set pat" by (auto simp: str_contains_iff)
  then show ?thesis by (induction pat) (auto split: list.splits)
qed

lemma split_on_last: "has_suffix pat [c] \<Longrightarrow> last (split_on c pat) = []"
proof -
  have "split_on c (p @ [c]) = split_on c p @ [[]]" for p by (induction p) (auto split: list.splits)
  then show "has_suffix pat [c] \<Longrightarrow> last (split_on c pat) = []" by (auto simp: has_suffix_iff)
qed

lemma split_on_first: "has_prefix pat [c] \<longleftrightarrow> (\<exists>fs. split_on c pat = [] # fs) \<and> pat \<noteq> []"
  by (cases pat) (auto split: list.splits)

lemma anchored_glob:
  assumes "qs \<noteq> []"
  shows "glob_parts (q # qs) v \<longleftrightarrow> wild_loop (q \<noteq> []) (q # qs) v \<and> has_suffix v (last qs)"
proof (cases "q = []")
  case True
  then show ?thesis using assms loop_floating [OF assms, of v] by (simp add: glob_parts_Cons)
next
  case False
  show ?thesis
  proof (cases "has_prefix v q")
    case True
    then obtain r where r: "v = q @ r" by (auto simp: has_prefix_iff)
    have i: "str_index v q = Some 0" using True False by (cases v; cases q) auto
    have "glob_parts (q # qs) v \<longleftrightarrow> floating qs r" using r assms by (simp add: glob_parts_Cons)
    also have "\<dots> \<longleftrightarrow> wild_loop False qs r \<and> has_suffix v (last qs)"
      using loop_floating [OF assms, of r] wild_loop_length [of False qs r "last qs"] has_suffix_drop [of "last qs" "length q" v] r assms by auto
    finally show ?thesis using i False r by simp
  next
    case np: False
    then have "\<not> glob_parts (q # qs) v" using assms by (auto simp: glob_parts_Cons has_prefix_iff)
    moreover have "str_index v q \<noteq> Some 0" using str_index_Some [of v q 0] np by auto
    ultimately show ?thesis using False by (auto split: option.splits)
  qed
qed

lemma glob_literal: "\<not> str_contains pat ''*'' \<Longrightarrow> glob pat v \<longleftrightarrow> v = pat"
proof -
  assume "\<not> str_contains pat ''*''"
  then have "CHR ''*'' \<notin> set pat" by (metis append_Cons append_Nil split_list str_contains_iff)
  then show ?thesis by (simp add: glob_split split_on_no_occ)
qed

lemma wildcard_glob: "wildcardMatch v pat \<longleftrightarrow> v \<noteq> [] \<and> pat \<noteq> [] \<and> (path_Match pat v \<or> glob pat v)"
proof (cases "v = [] \<or> pat = [] \<or> path_Match pat v \<or> \<not> str_contains pat ''*''")
  case True
  then show ?thesis by (auto simp: wildcardMatch_def glob_literal)
next
  case False
  let ?parts = "split_on CHR ''*'' pat"
  obtain q qs where parts: "?parts = q # qs" by (cases ?parts) auto
  have qs: "qs \<noteq> []" using split_on_contains [of pat "CHR ''*''"] False parts by simp
  have anch: "\<not> has_prefix pat ''*'' \<longleftrightarrow> q \<noteq> []" using split_on_first [of pat "CHR ''*''"] parts False by auto
  have "wildcardMatch v pat \<longleftrightarrow> wild_loop (q \<noteq> []) (q # qs) v \<and> (last qs = [] \<or> has_suffix pat ''*'' \<or> has_suffix v (last qs))"
    using False anch parts qs by (auto simp: wildcardMatch_def Let_def)
  also have "\<dots> \<longleftrightarrow> wild_loop (q \<noteq> []) (q # qs) v \<and> has_suffix v (last qs)"
    using split_on_last [of pat "CHR ''*''"] parts qs by (auto simp: has_suffix_iff)
  finally show ?thesis using anchored_glob [OF qs] False parts by (simp add: glob_split)
qed

text \<open>
  C18. The wildcard matcher of trust overrides accepts exactly the values that \<^verbatim>\<open>path.Match\<close> accepts or that
  the pattern denotes with every star standing for any string: its scan for the first occurrence of
  each part never misses a match and never accepts one that is not there.
\<close>

theorem wildcard_is_glob:
  "wildcardMatch v pat \<longleftrightarrow> v \<noteq> [] \<and> pat \<noteq> [] \<and> (path_Match pat v \<or> glob pat v)"
  by (rule wildcard_glob)

section \<open>After hostile content\<close>

lemma hostile_run:
  assumes "x \<in> set obs" "ro_promptHit (snd x)"
  shows "sr_level (fold observe_step obs sr) = TaintExternalHostile"
proof -
  have "observed_level (snd x) \<le> sr_level (fold observe_step obs sr)"
    using assms(1) unfolding run_level by (intro Max_ge) auto
  then show ?thesis using assms(2) by (simp add: observed_level_def antisym)
qed

lemma override_refs_set:
  "targets \<noteq> [] \<Longrightarrow> set (mcpOverrideRefs lib tool targets primary) = mcpActionRef lib tool ` set targets"
proof -
  have "set (fold (\<lambda>t refs. let ref = f t in if ref \<in> set refs then refs else refs @ [ref]) ts acc) = set acc \<union> f ` set ts"
    for f :: "string \<Rightarrow> string" and ts acc by (induction ts arbitrary: acc) (auto simp: Let_def)
  then show "targets \<noteq> [] \<Longrightarrow> set (mcpOverrideRefs lib tool targets primary) = mcpActionRef lib tool ` set targets"
    by (simp add: mcpOverrideRefs_def)
qed

lemma all_refs_match: "allTaintActionRefsMatch refs pat \<Longrightarrow> ref \<in> set refs \<Longrightarrow> taintWildcardMatch ref pat"
  by (auto simp: allTaintActionRefsMatch_def list_all_iff split: if_splits)

definition runtime_exempts :: "go_time \<Rightarrow> taint_recorder \<Rightarrow> string \<Rightarrow> bool" where
  "runtime_exempts now r ref \<longleftrightarrow> (\<exists>ov \<in> set (tr_overrides r). to_scope ov = ''task'' \<and> to_taskID ov \<noteq> [] \<and>
     to_taskID ov = tk_currentTaskID (tr_task r) \<and> \<not> expired now (to_expiresAt ov) \<and>
     (to_actionMatch ov = [] \<or> taintWildcardMatch ref (to_actionMatch ov)))"

definition config_exempts :: "go_time \<Rightarrow> taint_config \<Rightarrow> session_risk \<Rightarrow> string \<Rightarrow> bool" where
  "config_exempts now c risk ref \<longleftrightarrow> (\<exists>ov \<in> set (tcf_trustOverrides c). \<not> expired now (tto_expiresAt ov) \<and>
     (tto_scope ov = ''action'' \<and> tto_actionMatch ov \<noteq> [] \<or>
      tto_scope ov = ''source'' \<and> taintRiskSourceMatches risk (tto_sourceMatch ov)) \<and>
     (tto_actionMatch ov = [] \<or> taintWildcardMatch ref (tto_actionMatch ov)))"

lemma runtime_override_covers:
  assumes "taintRuntimeTrustOverrideApplies now (tr_overrides r) (tr_task r) risk refs" "ref \<in> set refs"
  shows "runtime_exempts now r ref"
  using assms by (auto simp: taintRuntimeTrustOverrideApplies_def runtime_exempts_def list_ex_iff dest!: all_refs_match intro!: bexI)

lemma config_override_covers:
  assumes "taintTrustOverrideApplies now (tcf_trustOverrides c) risk refs" "ref \<in> set refs"
  shows "config_exempts now c risk ref"
proof -
  obtain ov where ov: "ov \<in> set (tcf_trustOverrides c)" "\<not> expired now (tto_expiresAt ov)" "taintOverrideMatches ov risk refs"
    using assms(1) by (auto simp: taintTrustOverrideApplies_def list_ex_iff)
  then have "(tto_scope ov = ''action'' \<and> tto_actionMatch ov \<noteq> [] \<or>
      tto_scope ov = ''source'' \<and> taintRiskSourceMatches risk (tto_sourceMatch ov)) \<and>
     (tto_actionMatch ov = [] \<or> taintWildcardMatch ref (tto_actionMatch ov))"
    using all_refs_match [OF _ assms(2)] by (auto simp: taintOverrideMatches_def split: if_splits)
  with ov show ?thesis by (auto simp: config_exempts_def)
qed

lemma hostile_blocks:
  assumes "profileMode p \<noteq> ''permissive''" "isSensitiveAction c s" "\<not> isAlwaysAllowedAction c"
  shows "fst (EvaluateWithOptions p TaintExternalHostile c s a opts) = PolicyBlock"
  using assms by (simp add: decision_cases rank_profile enum_order)

text \<open>
  C8. With taint tracking on and a profile other than permissive, once the session has read content with a prompt injection
  since its risk was last cleared (a task boundary clears it), a tool call is blocked when one whole string value of its JSON
  arguments (under any key, at any depth, by any tool) is the path of a secret file: it looks like a path and not like a URL, names
  a secret, and stands alone, not a path within prose or after white space. Whatever else the session has read since does not matter; an
  unexpired override of the running task or of the configuration must exempt that very file, and one that matches
  another target of the same call is not enough.
\<close>

theorem hostile_secret_call_blocked:
  assumes "tcf_enabled c" "profileMode (tcf_policy c) \<noteq> ''permissive''"
    and "tr_risk r = fold observe_step obs zero_risk" "x \<in> set obs" "ro_promptHit (snd x)"
    and "decodeJSONValue lib args = Some v" "s \<in> set (leaves v)" "isStandaloneArgumentValue lib s"
    and "looksLikePath s" "\<not> looksLikeURL s" "looksLikeSecretPath lib s"
    and "\<not> runtime_exempts now r (mcpActionRef lib tool s)"
    and "\<not> config_exempts now c (tr_risk r) (mcpActionRef lib tool s)"
  shows "fst (td_result (evaluateMCPTaint lib now (Some c) (Some r) tool args)) = PolicyBlock"
proof -
  let ?cl = "ClassifyMCPToolCallWithOptions lib tool args (tcf_protectedPaths c) (tcf_elevatedPaths c) (tcf_failSafe c)"
  let ?refs = "mcpOverrideRefs lib tool (ac_overrideRefs ?cl) (mcpActionRef lib tool (ac_actionRef ?cl))"
  note cl = secret_leaf_classified [OF assms(6-11), of tool "tcf_protectedPaths c" "tcf_elevatedPaths c" "tcf_failSafe c"]
  have "mcpActionRef lib tool s \<in> set ?refs"
  proof -
    have "ac_overrideRefs ?cl \<noteq> []" "s \<in> set (ac_overrideRefs ?cl)" using cl by auto
    then show ?thesis by (subst override_refs_set) auto
  qed
  then have "\<not> taintRuntimeTrustOverrideApplies now (tr_overrides r) (tr_task r) (tr_risk r) ?refs"
    and "\<not> taintTrustOverrideApplies now (tcf_trustOverrides c) (tr_risk r) ?refs"
    using runtime_override_covers config_override_covers assms(12,13) by blast+
  moreover have "sr_level (tr_risk r) = TaintExternalHostile" using hostile_run [OF assms(4,5)] assms(3) by simp
  ultimately show ?thesis
    using assms(1) cl hostile_blocks [OF assms(2), of ClassSecret SensitivityProtected]
    by (simp add: evaluateMCPTaint_def Let_def policy_result_def isSensitiveAction_def isAlwaysAllowedAction_def)
qed

definition demo_taint_config :: taint_config where
  "demo_taint_config = \<lparr>tcf_enabled = True, tcf_allowlistedDomains = [], tcf_trustedMCPServers = [], tcf_protectedPaths = [],
     tcf_elevatedPaths = [], tcf_trustOverrides = [\<lparr>tto_scope = ''source'', tto_sourceMatch = ''http://vendor.test/*'', tto_actionMatch = [],
       tto_expiresAt = None, tto_grantedBy = [], tto_reason = []\<rparr>], tcf_policy = ''balanced'', tcf_recentSources = 10, tcf_failSafe = False\<rparr>"

definition demo_taint_libs :: taint_libs where
  "demo_taint_libs = \<lparr>tl_lower = (\<lambda>s. s), tl_upper = (\<lambda>s. s), tl_letter = (\<lambda>_. False), tl_digit = (\<lambda>_. False),
     tl_isUpper = (\<lambda>_. False), tl_isLower = (\<lambda>_. False),
     tl_hostname = (\<lambda>u. Some (takeWhile (\<lambda>c. c \<noteq> CHR ''/'') (drop 7 u))),
     tl_unmarshal = (\<lambda>_. Some (VObject [(''q'', VArray [VString ''/home/u/.ssh/id_rsa''])])),
     tl_matchers = \<lparr>filepath_Match = (\<lambda>p s. p = s), persistArgPattern = (\<lambda>_. False), persistWritePathPattern = (\<lambda>_. False)\<rparr>\<rparr>"

definition injected :: risk_observation where
  "injected = plain_observation ''http://evil.test/'' ''http_response'' TaintExternalUntrusted False True"

definition demo_recorder :: taint_recorder where
  "demo_recorder = \<lparr>tr_risk = fold observe_step [(5, injected)] zero_risk, tr_task = zero_task, tr_overrides = []\<rparr>"

lemma TrimSpace_ssh: "TrimSpace ''/home/u/.ssh/id_rsa'' = ''/home/u/.ssh/id_rsa''"
  by (rule TrimSpace_plain) (simp_all add: plain_char_def)

theorem hostile_secret_call_blocked_witness:
  "fst (td_result (evaluateMCPTaint demo_taint_libs 9 (Some demo_taint_config) (Some demo_recorder) ''lookup'' ''{}'')) = PolicyBlock"
proof (rule hostile_secret_call_blocked [where x = "(5, injected)" and obs = "[(5, injected)]" and s = "''/home/u/.ssh/id_rsa''"
        and v = "VObject [(''q'', VArray [VString ''/home/u/.ssh/id_rsa''])]"])
  show "isStandaloneArgumentValue demo_taint_libs ''/home/u/.ssh/id_rsa''"
    by (simp add: isStandaloneArgumentValue_def TrimSpace_ssh)
  show "looksLikeSecretPath demo_taint_libs ''/home/u/.ssh/id_rsa''" by code_simp
  show "\<not> config_exempts 9 demo_taint_config (tr_risk demo_recorder) (mcpActionRef demo_taint_libs ''lookup'' ''/home/u/.ssh/id_rsa'')"
  proof -
    have "\<not> taintRiskSourceMatches (tr_risk demo_recorder) ''http://vendor.test/*''" by code_simp
    then show ?thesis by (simp add: config_exempts_def demo_taint_config_def)
  qed
qed (simp_all add: demo_taint_config_def demo_recorder_def demo_taint_libs_def injected_def plain_observation_def profileMode_def
      decodeJSONValue_def looksLikePath_def looksLikeURL_def runtime_exempts_def)

definition demo_sources :: "taint_source_ref list" where
  "demo_sources = [\<lparr>tsr_url = ''http://evil.test/'', tsr_kind = ''http_response'', tsr_level = TaintExternalHostile, tsr_timestamp = Some 5,
     tsr_receiptID = [], tsr_matchReason = ''prompt_injection_pattern''\<rparr>]"

definition after_evil :: taint_recorder where
  "after_evil = \<lparr>tr_risk = \<lparr>sr_level = TaintExternalHostile, sr_contaminated = True, sr_lastExternalAt = Some 5,
     sr_lastExternalURL = ''http://evil.test/'', sr_lastExternalKind = ''http_response'', sr_promptHit = True, sr_mediaSeen = False,
     sr_approvedUntil = None, sr_sources = demo_sources\<rparr>, tr_task = zero_task, tr_overrides = []\<rparr>"

definition demo_post :: "taint_recorder option \<Rightarrow> taint_decision" where
  "demo_post rec = evaluateHTTPTaint demo_taint_libs 9 (Some demo_taint_config) rec ''POST''
     (Some \<lparr>rq_path = ''/'', rq_requestURI = ''/'', rq_scheme = ''http'', rq_host = ''evil.test''\<rparr>)"

definition after_vendor :: taint_recorder where
  "after_vendor = after_evil\<lparr>tr_risk := (tr_risk after_evil)\<lparr>sr_lastExternalAt := Some 6, sr_lastExternalURL := ''http://vendor.test/a'',
     sr_sources := demo_sources @ [\<lparr>tsr_url = ''http://vendor.test/a'', tsr_kind = ''http_response'', tsr_level = TaintExternalUntrusted,
       tsr_timestamp = Some 6, tsr_receiptID = [], tsr_matchReason = []\<rparr>]\<rparr>\<rparr>"

abbreviation demo_see :: "go_time \<Rightarrow> string \<Rightarrow> bool \<Rightarrow> taint_recorder option \<Rightarrow> taint_recorder option" where
  "demo_see t url' hit \<equiv> observeHTTPResponseTaint demo_taint_libs t (Some demo_taint_config) url' ''text/html'' ''http_response'' hit"

lemma demo_sites:
  "ClassifyURLSource demo_taint_libs ''http://evil.test/'' [] = TaintExternalUntrusted"
  "ClassifyURLSource demo_taint_libs ''http://vendor.test/a'' [] = TaintExternalUntrusted"
  "IsMediaContentType demo_taint_libs ''text/html'' = False"
  by code_simp+

lemmas demo_observe = observeHTTPResponseTaint_def demo_taint_config_def ClassifyHTTPResponseObservation_def demo_sites
  plain_observation_def Observe_def stamped_def zero_risk_def after_evil_def demo_sources_def maxTaintLevel_def appendBoundedSource_def

lemma demo_evil_seen: "demo_see 5 ''http://evil.test/'' True (Some \<lparr>tr_risk = zero_risk, tr_task = zero_task, tr_overrides = []\<rparr>) = Some after_evil"
  by (simp add: demo_observe Let_def enum_order)

lemma demo_vendor_seen: "demo_see 6 ''http://vendor.test/a'' False (Some after_evil) = Some after_vendor"
  by (simp add: demo_observe after_vendor_def Let_def enum_order)

lemma demo_post_evil: "fst (td_result (demo_post (Some after_evil))) = PolicyBlock"
  by code_simp

lemma demo_post_vendor: "td_result (demo_post (Some after_vendor)) = (PolicyAllow, ''taint_trust_override'')"
  by code_simp

text \<open>
  C39. A source override is matched against the last external URL alone, not against the sources that
  tainted the session. After hostile content from one site and then a harmless page of an exempted
  vendor, a POST back to the hostile site is allowed by the vendor's override; without the page it is
  blocked.
\<close>

theorem vendor_override_forgives_hostile_source:
  "let r1 = demo_see 5 ''http://evil.test/'' True (Some \<lparr>tr_risk = zero_risk, tr_task = zero_task, tr_overrides = []\<rparr>);
       r2 = demo_see 6 ''http://vendor.test/a'' False r1 in
   fst (td_result (demo_post r1)) = PolicyBlock \<and> td_result (demo_post r2) = (PolicyAllow, ''taint_trust_override'') \<and>
   map_option (sr_level \<circ> tr_risk) r2 = Some TaintExternalHostile"
proof -
  have "sr_level (tr_risk after_vendor) = TaintExternalHostile" by (simp add: after_vendor_def after_evil_def)
  then show ?thesis by (simp only: Let_def demo_evil_seen demo_vendor_seen demo_post_evil demo_post_vendor option.map comp_apply simp_thms)
qed

text \<open>A bare host name, as in the documented examples of \<^verbatim>\<open>source_match\<close>, matches no URL of that host.\<close>

lemma bare_host_never_matches:
  assumes "CHR ''*'' \<notin> set host" "\<not> path_Match host (''https://'' @ host @ rest)"
  shows "\<not> wildcardMatch (''https://'' @ host @ rest) host"
proof -
  have "glob host v \<longleftrightarrow> v = host" for v using assms(1) by (simp add: glob_split split_on_no_occ)
  moreover have "''https://'' @ host @ rest \<noteq> host"
  proof
    assume "''https://'' @ host @ rest = host"
    then have "length (''https://'' @ host @ rest) = length host" by simp
    then show False by simp
  qed
  ultimately show ?thesis using assms(2) wildcard_glob by blast
qed

end
