(* ===== verification/SessionState.thy ===== *)
theory SessionState
  imports AdaptiveLane Airlock TaintPolicy
begin

text \<open>
  The state of one agent session (\<^verbatim>\<open>SessionState\<close> of \<^verbatim>\<open>internal/proxy/session.go\<close>): domain windows and burst
  anomalies, the session-wide adaptive lane and the destination-scoped ones, airlocks, taint, tasks and
  runtime overrides, and the recent-event buffer. The session-wide fields \<^verbatim>\<open>threatScore\<close> to \<^verbatim>\<open>atBlockAll\<close>
  are one \<open>lane\<close>. The scopes are an association list with distinct keys, in the order in which the map is
  ranged over; the pointer \<^verbatim>\<open>AirlockForScope\<close> returns is the airlock an operation is applied to. A freshly
  generated task identifier is an argument. The score of an anomaly is 2 (3 for an IP) or 0, the flag
  \<open>an_scored\<close>; its detail text is made of the counted domains. Every method runs under the session's lock,
  so a schedule of calls is a sequence of steps.
\<close>

record 'f session_libs =
  sl_floats :: "'f float_ops"
  sl_lower :: "string \<Rightarrow> string"

record session_profiling =
  sp_enabled :: bool
  sp_anomalyAction :: string
  sp_domainBurst :: int
  sp_windowMinutes :: int
  sp_maxSessions :: int
  sp_sessionTTLMinutes :: int
  sp_cleanupIntervalSeconds :: int

record domain_entry =
  dme_domain :: string
  dme_at :: go_time

record anomaly =
  an_type :: string
  an_domains :: nat
  an_scored :: bool

record session_event =
  sev_at :: "go_time option"
  sev_kind :: string
  sev_type :: string
  sev_target :: string
  sev_detail :: string
  sev_severity :: string

record 'f scope_state =
  as_lane :: "'f lane"
  as_airlock :: airlock

record 'f session =
  ss_key :: string
  ss_kind :: string
  ss_created :: go_time
  ss_lastActivity :: go_time
  ss_domainWindows :: "domain_entry list"
  ss_lastBurstAt :: "go_time option"
  ss_lane :: "'f lane"
  ss_globalSignalsAuthoritative :: bool
  ss_scopes :: "(string \<times> 'f scope_state) list"
  ss_requestCount :: int
  ss_bytesTotal :: int
  ss_toolCalls :: int
  ss_uniqueTools :: "string set"
  ss_airlock :: airlock
  ss_risk :: session_risk
  ss_task :: task_context
  ss_runtimeOverrides :: "trust_override list"
  ss_recentEvents :: "session_event list"

section \<open>Scopes\<close>

definition maxRecentEvents :: nat where "maxRecentEvents = 20"
definition maxAdaptiveScopes :: nat where "maxAdaptiveScopes = 1024"

definition IsResettable :: "'f session \<Rightarrow> bool" where
  "IsResettable s \<longleftrightarrow> ss_kind s = ''identity''"

definition normalizeAdaptiveScope :: "'f session_libs \<Rightarrow> string \<Rightarrow> string" where
  "normalizeAdaptiveScope lib scope = ToLower (sl_lower lib) (TrimSpace scope)"

definition adaptiveScopeForHost :: "'f session_libs \<Rightarrow> string \<Rightarrow> string" where
  "adaptiveScopeForHost lib host0 =
     (let host = normalizeAdaptiveScope lib host0 in if host = [] then [] else ''destination:'' @ host)"

definition new_scope :: "'f session_libs \<Rightarrow> 'f scope_state" where
  "new_scope lib = \<lparr>as_lane = new_lane (sl_floats lib), as_airlock = NewAirlockState\<rparr>"

text \<open>The key of the scope, \<open>None\<close> where the source returns a nil pointer.\<close>

definition getOrCreateScopeLocked :: "'f session_libs \<Rightarrow> string \<Rightarrow> 'f session \<Rightarrow> string option \<times> 'f session" where
  "getOrCreateScopeLocked lib scope0 s =
     (let scope = normalizeAdaptiveScope lib scope0 in
      if scope = [] then (None, s)
      else if map_of (ss_scopes s) scope \<noteq> None then (Some scope, s)
      else if length (ss_scopes s) \<ge> maxAdaptiveScopes then (None, s)
      else (Some scope, s\<lparr>ss_scopes := ss_scopes s @ [(scope, new_scope lib)]\<rparr>))"

definition update_scope :: "string \<Rightarrow> ('f scope_state \<Rightarrow> 'f scope_state) \<Rightarrow> 'f session \<Rightarrow> 'f session" where
  "update_scope scope f s = s\<lparr>ss_scopes := map (\<lambda>(k, v). (k, if k = scope then f v else v)) (ss_scopes s)\<rparr>"

definition scope_lane :: "string \<Rightarrow> 'f session \<Rightarrow> 'f lane option" where
  "scope_lane scope s = map_option as_lane (map_of (ss_scopes s) scope)"

text \<open>An operation on the airlock that \<^verbatim>\<open>AirlockForScope\<close> returns.\<close>

definition AirlockForScope :: "'f session_libs \<Rightarrow> string \<Rightarrow> (airlock \<Rightarrow> airlock) \<Rightarrow> 'f session \<Rightarrow> 'f session" where
  "AirlockForScope lib scope0 f s =
     (let scope = normalizeAdaptiveScope lib scope0 in
      if scope = [] then s\<lparr>ss_airlock := f (ss_airlock s)\<rparr>
      else case getOrCreateScopeLocked lib scope s of
        (None, s1) \<Rightarrow> s1\<lparr>ss_airlock := f (ss_airlock s1)\<rparr>
      | (Some k, s1) \<Rightarrow> update_scope k (\<lambda>st. st\<lparr>as_airlock := f (as_airlock st)\<rparr>) s1)"

definition EscalateAirlock :: "go_time \<Rightarrow> string \<Rightarrow> string \<Rightarrow> 'f session \<Rightarrow> (bool \<times> string \<times> string) \<times> 'f session" where
  "EscalateAirlock now tier trigger s =
     (case SetTierWithProvenance now tier trigger ''airlock_triggers'' (ss_airlock s) of (r, a) \<Rightarrow> (r, s\<lparr>ss_airlock := a\<rparr>))"

section \<open>Requests and domain bursts\<close>

definition countUniqueDomains :: "domain_entry list \<Rightarrow> nat" where
  "countUniqueDomains entries = card (dme_domain ` set entries)"

definition pruneDomainWindow :: "domain_entry list \<Rightarrow> string \<Rightarrow> go_time \<Rightarrow> go_time \<Rightarrow> domain_entry list \<times> nat" where
  "pruneDomainWindow entries domain windowCutoff now =
     (let pruned = filter (\<lambda>de. windowCutoff < dme_at de) entries;
          pruned' = (if list_ex (\<lambda>de. dme_domain de = domain) pruned then pruned
                     else pruned @ [\<lparr>dme_domain = domain, dme_at = now\<rparr>]) in
      (pruned', countUniqueDomains pruned'))"

definition window_of :: "session_profiling \<Rightarrow> duration" where
  "window_of cfg = wrap64 (sp_windowMinutes cfg * minute_ns)"

definition burst_due :: "go_time \<Rightarrow> session_profiling \<Rightarrow> go_time option \<Rightarrow> bool" where
  "burst_due now cfg lastBurst = (case lastBurst of None \<Rightarrow> True | Some t \<Rightarrow> now - t \<ge> window_of cfg)"

definition RecordRequest :: "go_time \<Rightarrow> string \<Rightarrow> session_profiling \<Rightarrow> 'f session \<Rightarrow> anomaly list \<times> 'f session" where
  "RecordRequest now domain cfg s =
     (let s1 = (if \<not> ln_atBlockAll (ss_lane s) then s\<lparr>ss_lastActivity := now\<rparr> else s);
          s2 = s1\<lparr>ss_requestCount := ss_requestCount s1 + 1,
                  ss_domainWindows := fst (pruneDomainWindow (ss_domainWindows s1) domain (now - window_of cfg) now)\<rparr>;
          uniqueDomains = countUniqueDomains (ss_domainWindows s2) in
      if int uniqueDomains \<ge> sp_domainBurst cfg then
        let due = burst_due now cfg (ss_lastBurstAt s2) in
        ([\<lparr>an_type = ''domain_burst'', an_domains = uniqueDomains, an_scored = due\<rparr>],
         if due then s2\<lparr>ss_lastBurstAt := Some now\<rparr> else s2)
      else ([], s2))"

section \<open>Signals and clean requests\<close>

definition on_lane :: "('f lane \<Rightarrow> 'r \<times> 'f lane) \<Rightarrow> 'f session \<Rightarrow> 'r \<times> 'f session" where
  "on_lane f s = (case f (ss_lane s) of (r, l) \<Rightarrow> (r, s\<lparr>ss_lane := l\<rparr>))"

definition on_scope_lane :: "string \<Rightarrow> ('f lane \<Rightarrow> 'f lane) \<Rightarrow> 'f session \<Rightarrow> 'f session" where
  "on_scope_lane scope f s = update_scope scope (\<lambda>st. st\<lparr>as_lane := f (as_lane st)\<rparr>) s"

definition RecordSignal ::
  "'f session_libs \<Rightarrow> go_time \<Rightarrow> signal \<Rightarrow> 'f \<Rightarrow> 'f session \<Rightarrow> (bool \<times> string \<times> string) \<times> 'f session" where
  "RecordSignal lib now sig threshold s =
     on_lane (recordAdaptiveSignalFields (sl_floats lib) now sig threshold) (s\<lparr>ss_globalSignalsAuthoritative := True\<rparr>)"

definition RecordScopedSignal ::
  "'f session_libs \<Rightarrow> go_time \<Rightarrow> string \<Rightarrow> signal \<Rightarrow> 'f \<Rightarrow> 'f session \<Rightarrow> (bool \<times> string \<times> string) \<times> 'f session" where
  "RecordScopedSignal lib now scope0 sig threshold s =
     (let scope = normalizeAdaptiveScope lib scope0; rec = recordAdaptiveSignalFields (sl_floats lib) now sig threshold in
      if scope = [] then RecordSignal lib now sig threshold s
      else case getOrCreateScopeLocked lib scope s of
        (None, s1) \<Rightarrow> on_lane rec (s1\<lparr>ss_globalSignalsAuthoritative := True\<rparr>)
      | (Some k, s1) \<Rightarrow>
          let r = (case scope_lane k s1 of Some l \<Rightarrow> fst (rec l) | None \<Rightarrow> (False, [], [])) in
          (r, snd (on_lane rec (on_scope_lane k (\<lambda>l. snd (rec l)) s1))))"

definition RecordClean :: "'f session_libs \<Rightarrow> 'f \<Rightarrow> 'f session \<Rightarrow> 'f session" where
  "RecordClean lib decayRate s = s\<lparr>ss_lane := decayAdaptiveScore (sl_floats lib) decayRate (ss_lane s)\<rparr>"

definition RecordCleanWithRecovery ::
  "'f session_libs \<Rightarrow> go_time \<Rightarrow> 'f \<Rightarrow> int \<Rightarrow> (int \<Rightarrow> bool) option \<Rightarrow> 'f session \<Rightarrow> (bool \<times> int \<times> int) \<times> 'f session" where
  "RecordCleanWithRecovery lib now decayRate cleanToDrop check s =
     on_lane (lane_clean_recovery (sl_floats lib) now decayRate cleanToDrop check) s"

definition RecordScopedClean :: "'f session_libs \<Rightarrow> string \<Rightarrow> 'f \<Rightarrow> 'f session \<Rightarrow> 'f session" where
  "RecordScopedClean lib scope0 decayRate s =
     (let scope = normalizeAdaptiveScope lib scope0 in
      if scope = [] then RecordClean lib decayRate s
      else RecordClean lib decayRate (on_scope_lane scope (decayAdaptiveScore (sl_floats lib) decayRate) s))"

text \<open>A request that drops the level of its scope returns before the aggregate score decays.\<close>

definition RecordScopedCleanWithRecovery ::
  "'f session_libs \<Rightarrow> go_time \<Rightarrow> string \<Rightarrow> 'f \<Rightarrow> int \<Rightarrow> (int \<Rightarrow> bool) option \<Rightarrow> 'f session \<Rightarrow> (bool \<times> int \<times> int) \<times> 'f session" where
  "RecordScopedCleanWithRecovery lib now scope0 decayRate cleanToDrop check s =
     (let scope = normalizeAdaptiveScope lib scope0; clean = lane_clean_recovery (sl_floats lib) now decayRate cleanToDrop check in
      if scope = [] then RecordCleanWithRecovery lib now decayRate cleanToDrop check s
      else case scope_lane scope s of
        None \<Rightarrow> ((False, 0, 0), RecordClean lib decayRate s)
      | Some l \<Rightarrow>
          let s1 = on_scope_lane scope (\<lambda>l. snd (clean l)) s in
          if fst (fst (clean l)) then (fst (clean l), s1) else ((False, 0, 0), RecordClean lib decayRate s1))"

definition SetBlockAll :: "bool \<Rightarrow> 'f session \<Rightarrow> 'f session" where
  "SetBlockAll blocked s = s\<lparr>ss_lane := (ss_lane s)\<lparr>ln_atBlockAll := blocked\<rparr>\<rparr>"

definition SetScopedBlockAll :: "'f session_libs \<Rightarrow> string \<Rightarrow> bool \<Rightarrow> 'f session \<Rightarrow> 'f session" where
  "SetScopedBlockAll lib scope0 blocked s =
     (let scope = normalizeAdaptiveScope lib scope0 in
      if scope = [] then SetBlockAll blocked s
      else case getOrCreateScopeLocked lib scope s of
        (None, s1) \<Rightarrow> SetBlockAll blocked s1
      | (Some k, s1) \<Rightarrow> on_scope_lane k (\<lambda>l. l\<lparr>ln_atBlockAll := blocked\<rparr>) s1)"

definition ScopedEscalationLevel :: "'f session_libs \<Rightarrow> string \<Rightarrow> 'f session \<Rightarrow> int" where
  "ScopedEscalationLevel lib scope0 s =
     (let scope = normalizeAdaptiveScope lib scope0 in
      if scope = [] then ln_escalationLevel (ss_lane s)
      else case scope_lane scope s of Some l \<Rightarrow> ln_escalationLevel l | None \<Rightarrow> 0)"

definition EffectiveEscalationLevel :: "'f session_libs \<Rightarrow> string \<Rightarrow> 'f session \<Rightarrow> int" where
  "EffectiveEscalationLevel lib scope0 s =
     (let scope = normalizeAdaptiveScope lib scope0;
          level = (case scope_lane scope s of Some l \<Rightarrow> ln_escalationLevel l | None \<Rightarrow> 0) in
      if ss_globalSignalsAuthoritative s \<and> ln_escalationLevel (ss_lane s) > level then ln_escalationLevel (ss_lane s) else level)"

definition ScopedThreatScore :: "'f session_libs \<Rightarrow> string \<Rightarrow> 'f session \<Rightarrow> 'f" where
  "ScopedThreatScore lib scope0 s =
     (let scope = normalizeAdaptiveScope lib scope0 in
      if scope = [] then ln_threatScore (ss_lane s)
      else case scope_lane scope s of Some l \<Rightarrow> ln_threatScore l | None \<Rightarrow> fo_lit (sl_floats lib) 0)"

section \<open>Recovery\<close>

definition TryAutoRecover ::
  "'f session_libs \<Rightarrow> go_time \<Rightarrow> duration \<Rightarrow> (int \<Rightarrow> bool) option \<Rightarrow> 'f session \<Rightarrow> (bool \<times> int \<times> int) \<times> 'f session" where
  "TryAutoRecover lib now levelDuration check s = on_lane (lane_auto_recover (sl_floats lib) now levelDuration check) s"

definition TryAutoRecoverScopes ::
  "'f session_libs \<Rightarrow> go_time \<Rightarrow> duration \<Rightarrow> (int \<Rightarrow> bool) option \<Rightarrow> 'f session \<Rightarrow> (string \<times> int \<times> int) list \<times> 'f session" where
  "TryAutoRecoverScopes lib now levelDuration check s =
     (let rec = (\<lambda>st. lane_auto_recover (sl_floats lib) now levelDuration check (as_lane st)) in
      (map (\<lambda>(k, st). (k, snd (fst (rec st)))) (filter (\<lambda>(k, st). fst (fst (rec st))) (ss_scopes s)),
       s\<lparr>ss_scopes := map (\<lambda>(k, st). (k, st\<lparr>as_lane := snd (rec st)\<rparr>)) (ss_scopes s)\<rparr>))"

definition TryDeescalateScopedAirlocks ::
  "go_time \<Rightarrow> airlock_timers \<Rightarrow> 'f session \<Rightarrow> (string \<times> string \<times> string) list \<times> 'f session" where
  "TryDeescalateScopedAirlocks now timers s =
     (let rec = (\<lambda>st. TryDeescalate now timers (as_airlock st)) in
      (map (\<lambda>(k, st). (k, snd (fst (rec st)))) (filter (\<lambda>(k, st). fst (fst (rec st))) (ss_scopes s)),
       s\<lparr>ss_scopes := map (\<lambda>(k, st). (k, st\<lparr>as_airlock := snd (rec st)\<rparr>)) (ss_scopes s)\<rparr>))"

definition AdaptiveAutoRecoverAt :: "duration \<Rightarrow> 'f session \<Rightarrow> go_time option" where
  "AdaptiveAutoRecoverAt levelDuration s =
     adaptiveAutoRecoverAtLocked (ln_escalationLevel (ss_lane s)) (ln_lastEscalation (ss_lane s)) levelDuration"

definition ScopedAdaptiveAutoRecoverAt :: "'f session_libs \<Rightarrow> string \<Rightarrow> duration \<Rightarrow> 'f session \<Rightarrow> go_time option" where
  "ScopedAdaptiveAutoRecoverAt lib scope0 levelDuration s =
     (let scope = normalizeAdaptiveScope lib scope0 in
      if scope = [] then AdaptiveAutoRecoverAt levelDuration s
      else
        let globalETA = (if ss_globalSignalsAuthoritative s then AdaptiveAutoRecoverAt levelDuration s else None) in
        case scope_lane scope s of
          Some l \<Rightarrow>
            if ss_globalSignalsAuthoritative s \<and> ln_escalationLevel (ss_lane s) > ln_escalationLevel l then globalETA
            else adaptiveAutoRecoverAtLocked (ln_escalationLevel l) (ln_lastEscalation l) levelDuration
        | None \<Rightarrow> globalETA)"

section \<open>Events and resets\<close>

definition RecordEvent :: "go_time \<Rightarrow> session_event \<Rightarrow> 'f session \<Rightarrow> 'f session" where
  "RecordEvent now evt0 s =
     (let evt = (if sev_at evt0 = None then evt0\<lparr>sev_at := Some now\<rparr> else evt0);
          kept = (if length (ss_recentEvents s) \<ge> maxRecentEvents then take (maxRecentEvents - 1) (drop 1 (ss_recentEvents s))
                  else ss_recentEvents s) in
      s\<lparr>ss_recentEvents := kept @ [evt]\<rparr>)"

definition RecordAdaptiveRecoveryEvent :: "go_time \<Rightarrow> string \<Rightarrow> string \<Rightarrow> int \<Rightarrow> int \<Rightarrow> 'f session \<Rightarrow> 'f session" where
  "RecordAdaptiveRecoveryEvent now scope reason from' to s =
     RecordEvent now \<lparr>sev_at = None, sev_kind = ''adaptive_deescalate'', sev_type = reason, sev_target = scope,
       sev_detail = EscalationLabel from' @ ''->'' @ EscalationLabel to, sev_severity = ''info''\<rparr> s"

definition resetWhileLocked :: "'f session_libs \<Rightarrow> go_time \<Rightarrow> 'f session \<Rightarrow> ('f \<times> int) \<times> nat list \<times> 'f session" where
  "resetWhileLocked lib now s =
     (let zero = fo_lit (sl_floats lib) 0;
          cancelled = concat (map (\<lambda>(k, st). al_cancelFuncs (as_airlock st)) (ss_scopes s));
          airlock1 = callCancelFuncsLocked ((ss_airlock s)\<lparr>al_tier := ''none'', al_enteredAt := None, al_trigger := [], al_source := []\<rparr>) in
      ((ln_threatScore (ss_lane s), ln_escalationLevel (ss_lane s)), cancelled,
       s\<lparr>ss_lane := (ss_lane s)\<lparr>ln_threatScore := zero, ln_escalationLevel := 0, ln_currentThreshold := zero,
             ln_lastEscalation := None, ln_atBlockAll := False\<rparr>,
         ss_globalSignalsAuthoritative := False, ss_scopes := [], ss_domainWindows := [], ss_lastBurstAt := None,
         ss_lastActivity := now, ss_requestCount := 0, ss_bytesTotal := 0, ss_toolCalls := 0, ss_uniqueTools := {},
         ss_recentEvents := [], ss_airlock := airlock1\<lparr>al_cancelFuncs := []\<rparr>\<rparr>))"

section \<open>Taint and tasks\<close>

definition newTaskContext :: "string \<Rightarrow> string \<Rightarrow> go_time \<Rightarrow> task_context" where
  "newTaskContext taskID label now =
     \<lparr>tk_currentTaskID = taskID, tk_currentTaskLabel = label, tk_startedAt = Some now, tk_lastBoundaryAt = Some now\<rparr>"

definition ensure_task :: "string \<Rightarrow> go_time \<Rightarrow> 'f session \<Rightarrow> 'f session" where
  "ensure_task taskID now s = (if tk_currentTaskID (ss_task s) = [] then s\<lparr>ss_task := newTaskContext taskID [] now\<rparr> else s)"

definition TaskSnapshot :: "string \<Rightarrow> go_time \<Rightarrow> 'f session \<Rightarrow> task_context \<times> 'f session" where
  "TaskSnapshot taskID now s = (let s1 = ensure_task taskID now s in (ss_task s1, s1))"

definition ObserveRisk :: "go_time \<Rightarrow> risk_observation \<Rightarrow> 'f session \<Rightarrow> 'f session" where
  "ObserveRisk now ob s = s\<lparr>ss_risk := Observe now ob (ss_risk s)\<rparr>"

definition BeginNewTask ::
  "string \<Rightarrow> string \<Rightarrow> string \<Rightarrow> go_time \<Rightarrow> 'f session \<Rightarrow> (task_context \<times> task_context \<times> nat) \<times> 'f session" where
  "BeginNewTask taskID0 taskID label now s =
     (let s1 = ensure_task taskID0 now s; prev = ss_task s1; current = newTaskContext taskID label now;
          stale' = (\<lambda>ov. to_taskID ov \<noteq> [] \<and> to_taskID ov = tk_currentTaskID prev) in
      ((prev, current, length (filter stale' (ss_runtimeOverrides s1))),
       s1\<lparr>ss_task := current, ss_risk := zero_risk, ss_runtimeOverrides := filter (\<lambda>ov. \<not> stale' ov) (ss_runtimeOverrides s1),
          ss_lastActivity := now\<rparr>))"

definition AddRuntimeTrustOverride :: "string \<Rightarrow> go_time \<Rightarrow> trust_override \<Rightarrow> 'f session \<Rightarrow> trust_override \<times> 'f session" where
  "AddRuntimeTrustOverride taskID now ov s =
     (let s1 = ensure_task taskID now s;
          ov' = (if to_scope ov = ''task'' \<and> to_taskID ov = [] then ov\<lparr>to_taskID := tk_currentTaskID (ss_task s1)\<rparr> else ov) in
      (ov', s1\<lparr>ss_runtimeOverrides := ss_runtimeOverrides s1 @ [ov'], ss_lastActivity := now\<rparr>))"

definition RecordBytes :: "int \<Rightarrow> 'f session \<Rightarrow> 'f session" where
  "RecordBytes n s = s\<lparr>ss_bytesTotal := wrap64 (ss_bytesTotal s + n)\<rparr>"

definition RecordToolCall :: "string \<Rightarrow> 'f session \<Rightarrow> 'f session" where
  "RecordToolCall toolName s = s\<lparr>ss_toolCalls := ss_toolCalls s + 1, ss_uniqueTools := insert toolName (ss_uniqueTools s)\<rparr>"

definition signalForSessionAnomaly :: "string \<Rightarrow> bool \<Rightarrow> signal option" where
  "signalForSessionAnomaly anomalyType cooperative =
     (if anomalyType = ''domain_burst'' then Some (if cooperative then SignalDomainAnomalyCooperative else SignalDomainAnomaly)
      else if anomalyType = ''ip_domain_burst'' then Some (if cooperative then SignalIPDomainAnomalyCooperative else SignalIPDomainAnomaly)
      else None)"

text \<open>The session \<^verbatim>\<open>GetOrCreate\<close> allocates.\<close>

definition new_session :: "'f session_libs \<Rightarrow> string \<Rightarrow> string \<Rightarrow> go_time \<Rightarrow> string \<Rightarrow> 'f session" where
  "new_session lib key kind now taskID =
     \<lparr>ss_key = key, ss_kind = kind, ss_created = now, ss_lastActivity = now, ss_domainWindows = [], ss_lastBurstAt = None,
      ss_lane = new_lane (sl_floats lib), ss_globalSignalsAuthoritative = False, ss_scopes = [], ss_requestCount = 0,
      ss_bytesTotal = 0, ss_toolCalls = 0, ss_uniqueTools = {}, ss_airlock = NewAirlockState, ss_risk = zero_risk,
      ss_task = newTaskContext taskID [] now, ss_runtimeOverrides = [], ss_recentEvents = []\<rparr>"

section \<open>Runs\<close>

datatype 'f session_op =
    SRequest string session_profiling
  | SSignal signal 'f
  | SScopedSignal string signal 'f
  | SClean 'f
  | SCleanRecover 'f int "(int \<Rightarrow> bool) option"
  | SScopedClean string 'f
  | SScopedCleanRecover string 'f int "(int \<Rightarrow> bool) option"
  | SSetBlockAll bool
  | SSetScopedBlockAll string bool
  | SAutoRecover duration "(int \<Rightarrow> bool) option"
  | SAutoRecoverScopes duration "(int \<Rightarrow> bool) option"
  | SAirlock airlock_op
  | SScopedAirlock string airlock_op
  | SDeescalateAirlocks airlock_timers
  | SEvent session_event
  | SReset
  | SObserve risk_observation
  | STaskSnapshot string
  | SNewTask string string string
  | SOverride string trust_override
  | SBytes int
  | SToolCall string

fun session_step :: "'f session_libs \<Rightarrow> go_time \<times> 'f session_op \<Rightarrow> 'f session \<Rightarrow> 'f session" where
  "session_step lib (now, SRequest dm cfg) s = snd (RecordRequest now dm cfg s)"
| "session_step lib (now, SSignal sig th) s = snd (RecordSignal lib now sig th s)"
| "session_step lib (now, SScopedSignal sc sig th) s = snd (RecordScopedSignal lib now sc sig th s)"
| "session_step lib (now, SClean d) s = RecordClean lib d s"
| "session_step lib (now, SCleanRecover d n check) s = snd (RecordCleanWithRecovery lib now d n check s)"
| "session_step lib (now, SScopedClean sc d) s = RecordScopedClean lib sc d s"
| "session_step lib (now, SScopedCleanRecover sc d n check) s = snd (RecordScopedCleanWithRecovery lib now sc d n check s)"
| "session_step lib (now, SSetBlockAll b) s = SetBlockAll b s"
| "session_step lib (now, SSetScopedBlockAll sc b) s = SetScopedBlockAll lib sc b s"
| "session_step lib (now, SAutoRecover d check) s = snd (TryAutoRecover lib now d check s)"
| "session_step lib (now, SAutoRecoverScopes d check) s = snd (TryAutoRecoverScopes lib now d check s)"
| "session_step lib (now, SAirlock x) s = AirlockForScope lib [] (airlock_step (now, x)) s"
| "session_step lib (now, SScopedAirlock sc x) s = AirlockForScope lib sc (airlock_step (now, x)) s"
| "session_step lib (now, SDeescalateAirlocks tm) s = snd (TryDeescalateScopedAirlocks now tm s)"
| "session_step lib (now, SEvent e) s = RecordEvent now e s"
| "session_step lib (now, SReset) s = snd (snd (resetWhileLocked lib now s))"
| "session_step lib (now, SObserve ob) s = ObserveRisk now ob s"
| "session_step lib (now, STaskSnapshot i) s = snd (TaskSnapshot i now s)"
| "session_step lib (now, SNewTask i0 i l) s = snd (BeginNewTask i0 i l now s)"
| "session_step lib (now, SOverride i ov) s = snd (AddRuntimeTrustOverride i now ov s)"
| "session_step lib (now, SBytes n) s = RecordBytes n s"
| "session_step lib (now, SToolCall t) s = RecordToolCall t s"

section \<open>Bounded state\<close>

text \<open>What a session keeps: lanes that are well-formed, distinct scopes within the cap, a bounded event buffer.\<close>

definition session_ok :: "'f session \<Rightarrow> bool" where
  "session_ok s \<longleftrightarrow> lane_ok (ss_lane s) \<and> distinct (map fst (ss_scopes s)) \<and> length (ss_scopes s) \<le> maxAdaptiveScopes \<and>
     list_all (\<lambda>(k, st). k \<noteq> [] \<and> lane_ok (as_lane st)) (ss_scopes s) \<and> length (ss_recentEvents s) \<le> maxRecentEvents"

lemma map_scopes_ok:
  assumes "session_ok s" "\<And>k st. lane_ok (as_lane st) \<Longrightarrow> lane_ok (as_lane (f k st))"
  shows "session_ok (s\<lparr>ss_scopes := map (\<lambda>(k, st). (k, f k st)) (ss_scopes s)\<rparr>)"
proof -
  have "map fst (map (\<lambda>(k, st). (k, f k st)) xs) = map fst xs" for xs :: "(string \<times> 'a scope_state) list" by (induction xs) auto
  then show ?thesis using assms by (auto simp: session_ok_def list_all_iff simp del: map_map)
qed

lemma update_scope_ok:
  assumes "session_ok s" "\<And>st. lane_ok (as_lane st) \<Longrightarrow> lane_ok (as_lane (f st))"
  shows "session_ok (update_scope k f s)"
  unfolding update_scope_def using map_scopes_ok [OF assms(1), of "\<lambda>k' st. if k' = k then f st else st"] assms(2) by simp

lemma getOrCreate_ok: "session_ok s \<Longrightarrow> session_ok (snd (getOrCreateScopeLocked lib k s))"
  by (auto simp: getOrCreateScopeLocked_def session_ok_def new_scope_def map_of_eq_None_iff Let_def list_all_iff)

lemma getOrCreate_fields [simp]:
  "ss_lane (snd (getOrCreateScopeLocked lib k s)) = ss_lane s"
  "ss_globalSignalsAuthoritative (snd (getOrCreateScopeLocked lib k s)) = ss_globalSignalsAuthoritative s"
  by (simp_all add: getOrCreateScopeLocked_def Let_def)

text \<open>The lane operations as steps, so that their invariant is the one of \<open>lane_step\<close>.\<close>

lemma signal_ok: "lane_ok l \<Longrightarrow> lane_ok (snd (recordAdaptiveSignalFields fo now sig th l))"
  using lane_step_ok [of l fo "(now, LSignal sig th)"] by simp

lemma decay_ok: "lane_ok l \<Longrightarrow> lane_ok (decayAdaptiveScore fo d l)"
  using lane_step_ok [of l fo "(now, LClean d)"] by simp

lemma clean_recovery_ok: "lane_ok l \<Longrightarrow> lane_ok (snd (lane_clean_recovery fo now d n check l))"
  using lane_step_ok [of l fo "(now, LCleanRecover d n check)"] by simp

lemma auto_recover_ok: "lane_ok l \<Longrightarrow> lane_ok (snd (lane_auto_recover fo now d check l))"
  using lane_step_ok [of l fo "(now, LAutoRecover d check)"] by simp

lemma block_all_ok: "lane_ok l \<Longrightarrow> lane_ok (l\<lparr>ln_atBlockAll := b\<rparr>)"
  by (simp add: lane_ok_def)

lemmas lane_oks = signal_ok decay_ok clean_recovery_ok auto_recover_ok block_all_ok

lemma on_lane_ok: "session_ok s \<Longrightarrow> (\<And>l. lane_ok l \<Longrightarrow> lane_ok (snd (f l))) \<Longrightarrow> session_ok (snd (on_lane f s))"
  by (auto simp: on_lane_def session_ok_def split: prod.splits) (metis snd_conv)

lemma on_scope_lane_ok: "session_ok s \<Longrightarrow> (\<And>l. lane_ok l \<Longrightarrow> lane_ok (f l)) \<Longrightarrow> session_ok (on_scope_lane k f s)"
  by (simp add: on_scope_lane_def update_scope_ok)

lemma global_flag_ok: "session_ok s \<Longrightarrow> session_ok (s\<lparr>ss_globalSignalsAuthoritative := b\<rparr>)"
  by (simp add: session_ok_def)

lemma RecordClean_ok: "session_ok s \<Longrightarrow> session_ok (RecordClean lib d s)"
  by (simp add: RecordClean_def session_ok_def decay_ok)

lemma AirlockForScope_ok: "session_ok s \<Longrightarrow> session_ok (AirlockForScope lib sc f s)"
  using getOrCreate_ok [of s lib "normalizeAdaptiveScope lib sc"]
  by (auto simp: AirlockForScope_def Let_def intro!: update_scope_ok split: prod.splits option.splits) (auto simp: session_ok_def)

lemma RecordScopedSignal_ok: "session_ok s \<Longrightarrow> session_ok (snd (RecordScopedSignal lib now sc sig th s))"
  using getOrCreate_ok [of s lib "normalizeAdaptiveScope lib sc"]
  by (auto simp: RecordScopedSignal_def RecordSignal_def Let_def
      intro!: on_lane_ok on_scope_lane_ok global_flag_ok lane_oks split: prod.splits option.splits)

lemma session_step_ok: "session_ok s \<Longrightarrow> session_ok (session_step lib x s)"
proof -
  assume ok: "session_ok s"
  obtain now y where x: "x = (now, y)" by fastforce
  note new = getOrCreate_ok [OF ok, of lib]
  show ?thesis
  proof (cases y)
    case (SSetScopedBlockAll sc b)
    then show ?thesis using ok new [of "normalizeAdaptiveScope lib sc"] unfolding x
      by (auto simp: SetScopedBlockAll_def SetBlockAll_def Let_def intro!: on_scope_lane_ok block_all_ok split: prod.splits option.splits)
        (auto simp: session_ok_def block_all_ok)
  next
    case (SScopedCleanRecover sc d n check)
    then show ?thesis using ok unfolding x
      by (auto simp: RecordScopedCleanWithRecovery_def RecordCleanWithRecovery_def Let_def
          intro!: on_lane_ok on_scope_lane_ok RecordClean_ok lane_oks split: option.splits)
  next
    case (SAutoRecoverScopes d check)
    then show ?thesis using ok unfolding x
      by (simp add: TryAutoRecoverScopes_def Let_def map_scopes_ok [where f = "\<lambda>_ st. st\<lparr>as_lane := g st\<rparr>" for g] lane_oks)
  next
    case (SDeescalateAirlocks tm)
    then show ?thesis using ok unfolding x
      by (simp add: TryDeescalateScopedAirlocks_def Let_def map_scopes_ok [where f = "\<lambda>_ st. st\<lparr>as_airlock := g st\<rparr>" for g])
  next
    case (SEvent e)
    then show ?thesis using ok unfolding x by (auto simp: RecordEvent_def session_ok_def maxRecentEvents_def Let_def)
  next
    case SReset
    then show ?thesis using ok unfolding x by (simp add: resetWhileLocked_def session_ok_def lane_ok_def Let_def)
  next
    case (SRequest dm cfg)
    then show ?thesis using ok unfolding x by (auto simp: RecordRequest_def session_ok_def Let_def)
  next
    case (SSetBlockAll b)
    then show ?thesis using ok unfolding x by (simp add: SetBlockAll_def session_ok_def block_all_ok)
  next
    case (SNewTask i0 i l)
    then show ?thesis using ok unfolding x by (simp add: BeginNewTask_def ensure_task_def session_ok_def Let_def)
  next
    case (SOverride i ov)
    then show ?thesis using ok unfolding x by (simp add: AddRuntimeTrustOverride_def ensure_task_def session_ok_def Let_def)
  next
    case (STaskSnapshot i)
    then show ?thesis using ok unfolding x by (simp add: TaskSnapshot_def ensure_task_def session_ok_def Let_def)
  next
    case (SBytes n)
    then show ?thesis using ok unfolding x by (simp add: RecordBytes_def session_ok_def)
  next
    case (SToolCall t)
    then show ?thesis using ok unfolding x by (simp add: RecordToolCall_def session_ok_def)
  next
    case (SObserve ob)
    then show ?thesis using ok unfolding x by (simp add: ObserveRisk_def session_ok_def)
  qed (use ok in \<open>auto simp: x RecordSignal_def RecordCleanWithRecovery_def RecordScopedClean_def TryAutoRecover_def Let_def
      intro!: on_lane_ok on_scope_lane_ok global_flag_ok RecordClean_ok RecordScopedSignal_ok AirlockForScope_ok lane_oks\<close>)
qed

interpretation session_inv: kept_invariant "session_step lib" session_ok for lib
  by unfold_locales (rule session_step_ok)

text \<open>
  Whatever a client does, a session stays bounded: at most 1024 destination scopes, each with its
  own key, at most 20 remembered events, and escalation levels that are never negative.
\<close>

theorem session_state_bounded:
  "let s = fold (session_step lib) ops (new_session lib key kind now i) in
   length (ss_scopes s) \<le> 1024 \<and> distinct (map fst (ss_scopes s)) \<and> length (ss_recentEvents s) \<le> 20 \<and>
   0 \<le> ln_escalationLevel (ss_lane s)"
proof -
  have "session_ok (new_session lib key kind now i)" by (simp add: new_session_def session_ok_def)
  then have "session_ok (fold (session_step lib) ops (new_session lib key kind now i))" by (rule session_inv.run_keeps)
  then show ?thesis by (simp add: session_ok_def lane_ok_def maxAdaptiveScopes_def maxRecentEvents_def Let_def)
qed

section \<open>Signals stay in their scope\<close>

lemma map_of_map_if: "map_of (map (\<lambda>(k', v). (k', if k' = k then f v else v)) xs) k' = map_option (if k' = k then f else (\<lambda>x. x)) (map_of xs k')"
  by (induction xs) auto

lemma map_of_update_scope: "map_of (ss_scopes (update_scope k f s)) k' = map_option (if k' = k then f else (\<lambda>x. x)) (map_of (ss_scopes s) k')"
  using map_of_map_if [of k f "ss_scopes s" k'] by (simp add: update_scope_def)

lemma scope_lane_other: "k' \<noteq> k \<Longrightarrow> scope_lane k' (on_scope_lane k f s) = scope_lane k' s"
  by (simp add: scope_lane_def on_scope_lane_def map_of_update_scope option.map_id [unfolded id_def])

lemma scope_lane_getOrCreate:
  "k' \<noteq> normalizeAdaptiveScope lib k \<Longrightarrow> scope_lane k' (snd (getOrCreateScopeLocked lib k s)) = scope_lane k' s"
  by (simp add: getOrCreateScopeLocked_def scope_lane_def map_add_def Let_def split: option.splits)

lemma on_lane_fields [simp]:
  "ss_scopes (snd (on_lane f s)) = ss_scopes s" "ss_lane (snd (on_lane f s)) = snd (f (ss_lane s))"
  "ss_globalSignalsAuthoritative (snd (on_lane f s)) = ss_globalSignalsAuthoritative s"
  by (simp_all add: on_lane_def split: prod.splits)

lemma on_scope_lane_fields [simp]:
  "ss_lane (on_scope_lane k f s) = ss_lane s"
  "ss_globalSignalsAuthoritative (on_scope_lane k f s) = ss_globalSignalsAuthoritative s"
  by (simp_all add: on_scope_lane_def update_scope_def)

text \<open>
  A threat signal for one destination does not touch another: as long as the session has room for
  the destination's own lane and no session-wide signal has arrived, the escalation level that applies
  to any other destination is what it was.
\<close>

theorem scoped_signal_contained:
  assumes "normalizeAdaptiveScope lib a \<noteq> []" "fst (getOrCreateScopeLocked lib (normalizeAdaptiveScope lib a) s) = Some k"
    and "normalizeAdaptiveScope lib b \<noteq> k" "\<not> ss_globalSignalsAuthoritative s"
  shows "EffectiveEscalationLevel lib b (snd (RecordScopedSignal lib now a sig th s)) = EffectiveEscalationLevel lib b s"
proof -
  let ?get = "getOrCreateScopeLocked lib (normalizeAdaptiveScope lib a) s"
  have k: "k = normalizeAdaptiveScope lib (normalizeAdaptiveScope lib a)"
    using assms(2) by (auto simp: getOrCreateScopeLocked_def Let_def split: if_splits)
  obtain s1 where s1: "?get = (Some k, s1)" using assms(2) by (cases ?get) auto
  have "scope_lane (normalizeAdaptiveScope lib b) s1 = scope_lane (normalizeAdaptiveScope lib b) s"
    using scope_lane_getOrCreate [of "normalizeAdaptiveScope lib b" lib "normalizeAdaptiveScope lib a" s] assms(3) k s1 by simp
  moreover have "\<not> ss_globalSignalsAuthoritative s1" using getOrCreate_fields(2) [of lib "normalizeAdaptiveScope lib a" s] s1 assms(4) by simp
  moreover have "scope_lane (normalizeAdaptiveScope lib b) (snd (on_lane f (on_scope_lane k g s1))) = scope_lane (normalizeAdaptiveScope lib b) s1"
    for f :: "'a lane \<Rightarrow> (bool \<times> string \<times> string) \<times> 'a lane" and g
    using scope_lane_other [OF assms(3), of g s1] by (simp add: scope_lane_def)
  ultimately show ?thesis
    using assms s1 by (simp add: RecordScopedSignal_def EffectiveEscalationLevel_def Let_def)
qed

definition demo_session_libs :: "int session_libs" where
  "demo_session_libs = \<lparr>sl_floats = int_ops, sl_lower = (\<lambda>s. s)\<rparr>"

definition demo_session :: "int session" where
  "demo_session = new_session demo_session_libs ''agent|10.0.0.1'' ''identity'' 0 ''task-1''"

lemma demo_scopes [simp]:
  "normalizeAdaptiveScope demo_session_libs ''a.test'' = ''a.test''" "normalizeAdaptiveScope demo_session_libs ''b.test'' = ''b.test''"
  by (simp_all add: normalizeAdaptiveScope_def demo_session_libs_def ToLower_def is_ascii_def ascii_lower_def
      TrimSpace_plain plain_char_def)

theorem scoped_signal_contained_witness:
  "EffectiveEscalationLevel demo_session_libs ''b.test''
     (snd (RecordScopedSignal demo_session_libs 3 ''a.test'' SignalBlock 100 demo_session)) = 0"
proof -
  have "EffectiveEscalationLevel demo_session_libs ''b.test''
     (snd (RecordScopedSignal demo_session_libs 3 ''a.test'' SignalBlock 100 demo_session)) =
     EffectiveEscalationLevel demo_session_libs ''b.test'' demo_session"
    by (rule scoped_signal_contained [where k = "''a.test''"])
      (simp_all add: getOrCreateScopeLocked_def demo_session_def new_session_def maxAdaptiveScopes_def Let_def)
  then show ?thesis
    by (simp add: EffectiveEscalationLevel_def scope_lane_def demo_session_def new_session_def new_lane_def)
qed

text \<open>At the cap a signal counts against every destination instead.\<close>

lemma capped_signal_is_global:
  assumes "normalizeAdaptiveScope lib a \<noteq> []" "fst (getOrCreateScopeLocked lib (normalizeAdaptiveScope lib a) s) = None"
  shows "ln_escalationLevel (ss_lane (snd (RecordScopedSignal lib now a sig th s)))
    \<le> EffectiveEscalationLevel lib b (snd (RecordScopedSignal lib now a sig th s))"
proof -
  obtain s1 where "getOrCreateScopeLocked lib (normalizeAdaptiveScope lib a) s = (None, s1)"
    using assms(2) by (cases "getOrCreateScopeLocked lib (normalizeAdaptiveScope lib a) s") auto
  then show ?thesis using assms(1) by (simp add: RecordScopedSignal_def EffectiveEscalationLevel_def Let_def)
qed

section \<open>Task boundaries\<close>

definition recorder_of :: "'f session \<Rightarrow> taint_recorder" where
  "recorder_of s = \<lparr>tr_risk = ss_risk s, tr_task = ss_task s, tr_overrides = ss_runtimeOverrides s\<rparr>"

definition no_grant :: "'f session \<Rightarrow> bool" where
  "no_grant s \<longleftrightarrow> tk_currentTaskID (ss_task s) \<noteq> [] \<and>
     list_all (\<lambda>ov. to_taskID ov \<noteq> tk_currentTaskID (ss_task s)) (ss_runtimeOverrides s)"

fun grants :: "go_time \<times> 'f session_op \<Rightarrow> bool" where
  "grants (now, SOverride i ov) = True"
| "grants (now, SNewTask i0 i l) = True"
| "grants _ = False"

text \<open>The operations that leave the task and its overrides alone.\<close>

lemma task_kept:
  assumes "\<not> grants x" "tk_currentTaskID (ss_task s) \<noteq> []"
  shows "ss_task (session_step lib x s) = ss_task s \<and> ss_runtimeOverrides (session_step lib x s) = ss_runtimeOverrides s"
proof -
  obtain now y where x: "x = (now, y)" by fastforce
  have get: "ss_task (snd (getOrCreateScopeLocked lib k s)) = ss_task s"
    "ss_runtimeOverrides (snd (getOrCreateScopeLocked lib k s)) = ss_runtimeOverrides s" for k
    by (simp_all add: getOrCreateScopeLocked_def Let_def)
  have get': "ss_task s1 = ss_task s \<and> ss_runtimeOverrides s1 = ss_runtimeOverrides s" if "getOrCreateScopeLocked lib k s = (r, s1)" for k r s1
    using get [of k] that by simp
  show ?thesis
    using assms unfolding x
    by (cases y) (auto simp: RecordRequest_def RecordSignal_def RecordScopedSignal_def RecordClean_def RecordCleanWithRecovery_def
        RecordScopedClean_def RecordScopedCleanWithRecovery_def SetBlockAll_def SetScopedBlockAll_def TryAutoRecover_def
        TryAutoRecoverScopes_def AirlockForScope_def TryDeescalateScopedAirlocks_def RecordEvent_def resetWhileLocked_def
        ObserveRisk_def TaskSnapshot_def ensure_task_def RecordBytes_def RecordToolCall_def on_lane_def on_scope_lane_def update_scope_def
        Let_def dest!: get' split: prod.splits option.splits)
qed

interpretation ungranted: sticky_flag "session_step lib" no_grant grants for lib
  by unfold_locales (simp add: no_grant_def task_kept)

lemma no_grant_applies_nothing:
  assumes "no_grant s"
  shows "\<not> runtimeTrustOverrideApplies now (ss_runtimeOverrides s) (ss_task s) risk ref"
    and "\<not> taintRuntimeTrustOverrideApplies now (ss_runtimeOverrides s) (ss_task s) risk refs"
  using assms by (auto simp: no_grant_def runtimeTrustOverrideApplies_def taintRuntimeTrustOverrideApplies_def list_ex_iff list_all_iff)

text \<open>
  C17. A new task starts with a clean taint state and without trust: until something is granted to it, no
  runtime override of an earlier task exempts any of its requests, whatever else the session does
  (the new task identifier being one no override names).
\<close>

theorem new_task_has_no_overrides:
  assumes "i \<noteq> []" "list_all (\<lambda>ov. to_taskID ov \<noteq> i) (ss_runtimeOverrides s)"
    and "list_all (\<lambda>x. \<not> grants x) ops"
    and "s' = fold (session_step lib) ops (snd (BeginNewTask i0 i label t s))"
  shows "\<not> td_taskOverrideApplied (evaluateMCPTaint tlib now cfg (Some (recorder_of s')) tool args) \<and>
    \<not> td_taskOverrideApplied (evaluateHTTPTaint tlib now cfg (Some (recorder_of s')) method url') \<and>
    ss_risk (snd (BeginNewTask i0 i label t s)) = zero_risk"
proof -
  let ?s = "snd (BeginNewTask i0 i label t s)"
  have "no_grant ?s"
    using assms(1,2) by (auto simp: no_grant_def BeginNewTask_def ensure_task_def newTaskContext_def list_all_iff Let_def)
  then have "no_grant s'" using ungranted.run_sticks [of ?s ops lib] assms(3,4) by simp
  note none = no_grant_applies_nothing [OF this]
  have "\<not> td_taskOverrideApplied (evaluateMCPTaint tlib now cfg (Some (recorder_of s')) tool args)"
    by (simp add: evaluateMCPTaint_def initial_decision_def recorder_of_def none Let_def split: option.splits)
  moreover have "\<not> td_taskOverrideApplied (evaluateHTTPTaint tlib now cfg (Some (recorder_of s')) method url')"
    by (simp add: evaluateHTTPTaint_def initial_decision_def recorder_of_def none Let_def split: option.splits)
  moreover have "ss_risk ?s = zero_risk" by (simp add: BeginNewTask_def Let_def)
  ultimately show ?thesis by simp
qed

theorem new_task_has_no_overrides_witness:
  "\<not> td_taskOverrideApplied (evaluateMCPTaint demo_taint_libs 9 (Some demo_taint_config)
      (Some (recorder_of (snd (BeginNewTask [] ''task-2'' ''next'' 7
         (snd (AddRuntimeTrustOverride [] 5 \<lparr>to_scope = ''task'', to_taskID = [], to_sourceMatch = [], to_actionMatch = [], to_expiresAt = None,
            to_grantedBy = ''op'', to_reason = []\<rparr> demo_session)))))) ''lookup'' ''{}'')"
proof -
  let ?s = "snd (AddRuntimeTrustOverride [] 5 \<lparr>to_scope = ''task'', to_taskID = [], to_sourceMatch = [], to_actionMatch = [], to_expiresAt = None,
            to_grantedBy = ''op'', to_reason = []\<rparr> demo_session)"
  have "list_all (\<lambda>ov. to_taskID ov \<noteq> ''task-2'') (ss_runtimeOverrides ?s)"
    by (simp add: AddRuntimeTrustOverride_def ensure_task_def demo_session_def new_session_def newTaskContext_def Let_def)
  from new_task_has_no_overrides [OF _ this, where ops = "[]" and lib = demo_session_libs and ?i0.0 = "[]" and label = "''next''" and t = 7,
      OF _ _ refl, of demo_taint_libs 9 "Some demo_taint_config" "''lookup''" "''{}''" "[]" None]
  show ?thesis by simp
qed

end
