(* ===== verification/SessionManager.thy ===== *)
theory SessionManager
  imports SessionState
begin

text \<open>
  The session manager (\<^verbatim>\<open>SessionManager\<close> of \<^verbatim>\<open>internal/proxy/session.go\<close>): creation, eviction, idle cleanup, the
  recovery sweep, configuration reloads, per-IP domain bursts, resets and the operator's overrides. The
  session map is an association list with distinct keys, in the order in which the map is ranged over;
  the pointer the source hands out is the key, and an operation on it is a step of that entry. Metrics,
  audit logging, the behavioural baseline and the goroutine that fires \<^verbatim>\<open>cleanup\<close> and
  \<^verbatim>\<open>sweepDeescalation\<close> are left out; each firing is a step, with one clock reading.
\<close>

record airlock_config =
  ak_enabled :: bool
  ak_timers :: airlock_timers

record 'f session_manager =
  sm_sessions :: "(string \<times> 'f session) list"
  sm_ipDomains :: "string \<rightharpoonup> domain_entry list"
  sm_ipBurstCooldown :: "string \<rightharpoonup> go_time"
  sm_cfg :: session_profiling
  sm_adaptiveCfg :: "'f adaptive_config option"
  sm_airlockCfg :: "airlock_config option"

definition NewSessionManager ::
  "session_profiling \<Rightarrow> 'f adaptive_config option \<Rightarrow> airlock_config option \<Rightarrow> 'f session_manager" where
  "NewSessionManager cfg adaptiveCfg airlockCfg =
     \<lparr>sm_sessions = [], sm_ipDomains = Map.empty, sm_ipBurstCooldown = Map.empty, sm_cfg = cfg, sm_adaptiveCfg = adaptiveCfg,
      sm_airlockCfg = airlockCfg\<rparr>"

section \<open>Keys\<close>

definition invocationPrefixes :: "string list" where
  "invocationPrefixes = [''mcp-stdio-'', ''mcp-http-'', ''mcp-ws-'']"

definition classifySessionKey :: "string \<Rightarrow> string \<times> string \<times> string" where
  "classifySessionKey key =
     (if list_ex (has_prefix key) invocationPrefixes then (''invocation'', [], [])
      else case last_index_of CHR ''|'' key of
        Some idx \<Rightarrow> if idx > 0 then (''identity'', take idx key, drop (idx + 1) key) else (''identity'', [], key)
      | None \<Rightarrow> (''identity'', [], key))"

section \<open>Creation and eviction\<close>

definition in_airlock :: "'f session \<Rightarrow> bool" where
  "in_airlock s \<longleftrightarrow> al_tier (ss_airlock s) \<noteq> ''none'' \<and> al_tier (ss_airlock s) \<noteq> []"

text \<open>The scan of \<^verbatim>\<open>evictOldest\<close>: the key, its last activity and the session chosen so far.\<close>

definition oldest_step ::
  "string \<times> 'f session \<Rightarrow> string \<times> go_time \<times> 'f session option \<Rightarrow> string \<times> go_time \<times> 'f session option" where
  "oldest_step = (\<lambda>(key, s) (oldestKey, oldestTime, oldestSess).
     if in_airlock s then (oldestKey, oldestTime, oldestSess)
     else if oldestKey = [] \<or> ss_lastActivity s < oldestTime then (key, ss_lastActivity s, Some s)
     else (oldestKey, oldestTime, oldestSess))"

definition evictOldest :: "'f session_manager \<Rightarrow> 'f session option \<times> 'f session_manager" where
  "evictOldest m =
     (let (oldestKey, _, oldestSess) = fold oldest_step (sm_sessions m) ([], 0, None) in
      (oldestSess, if oldestKey \<noteq> [] then m\<lparr>sm_sessions := AList.delete oldestKey (sm_sessions m)\<rparr> else m))"

definition GetOrCreate ::
  "'f session_libs \<Rightarrow> go_time \<Rightarrow> string \<Rightarrow> string \<Rightarrow> 'f session_manager \<Rightarrow> 'f session option \<times> 'f session_manager" where
  "GetOrCreate lib now taskID key m =
     (if map_of (sm_sessions m) key \<noteq> None then (None, m)
      else
        let (evicted, m1) = (if int (length (sm_sessions m)) \<ge> sp_maxSessions (sm_cfg m) then evictOldest m else (None, m));
            kind = (if list_ex (has_prefix key) invocationPrefixes then ''invocation'' else ''identity'') in
        (evicted, m1\<lparr>sm_sessions := sm_sessions m1 @ [(key, new_session lib key kind now taskID)]\<rparr>))"

definition sm_Len :: "'f session_manager \<Rightarrow> nat" where
  "sm_Len m = length (sm_sessions m)"

definition sm_Delete :: "string \<Rightarrow> 'f session_manager \<Rightarrow> 'f session_manager" where
  "sm_Delete key m = (if key = [] then m else m\<lparr>sm_sessions := AList.delete key (sm_sessions m)\<rparr>)"

definition SessionByKey :: "string \<Rightarrow> 'f session_manager \<Rightarrow> 'f session option" where
  "SessionByKey key m = map_of (sm_sessions m) key"

text \<open>A step of the session behind a key.\<close>

definition with_session :: "string \<Rightarrow> ('f session \<Rightarrow> 'f session) \<Rightarrow> 'f session_manager \<Rightarrow> 'f session_manager" where
  "with_session key f m = m\<lparr>sm_sessions := map (\<lambda>(k, s). (k, if k = key then f s else s)) (sm_sessions m)\<rparr>"

definition all_sessions :: "('f session \<Rightarrow> 'f session) \<Rightarrow> 'f session_manager \<Rightarrow> 'f session_manager" where
  "all_sessions f m = m\<lparr>sm_sessions := map (\<lambda>(k, s). (k, f s)) (sm_sessions m)\<rparr>"

section \<open>Domains per IP\<close>

definition RecordIPDomain ::
  "go_time \<Rightarrow> string \<Rightarrow> string \<Rightarrow> session_profiling \<Rightarrow> 'f session_manager \<Rightarrow> anomaly list \<times> 'f session_manager" where
  "RecordIPDomain now clientIP domain cfg m =
     (let entries = (case sm_ipDomains m clientIP of None \<Rightarrow> [] | Some es \<Rightarrow> es);
          (pruned, uniqueDomains) = pruneDomainWindow entries domain (now - window_of cfg) now;
          m1 = m\<lparr>sm_ipDomains := (sm_ipDomains m)(clientIP \<mapsto> pruned)\<rparr> in
      if int uniqueDomains \<ge> sp_domainBurst cfg then
        let due = burst_due now cfg (sm_ipBurstCooldown m clientIP) in
        ([\<lparr>an_type = ''ip_domain_burst'', an_domains = uniqueDomains, an_scored = due\<rparr>],
         if due then m1\<lparr>sm_ipBurstCooldown := (sm_ipBurstCooldown m)(clientIP \<mapsto> now)\<rparr> else m1)
      else ([], m1))"

section \<open>Reloads\<close>

definition recomputeScopedBlockAll :: "'f adaptive_config option \<Rightarrow> 'f session \<Rightarrow> 'f session" where
  "recomputeScopedBlockAll adaptiveCfg s =
     s\<lparr>ss_scopes := map (\<lambda>(k, st). (k, st\<lparr>as_lane := (as_lane st)\<lparr>ln_atBlockAll :=
       (case adaptiveCfg of None \<Rightarrow> False
        | Some c \<Rightarrow> ae_enabled c \<and> UpgradeAction [] (ln_escalationLevel (as_lane st)) (Some c) = ''block'')\<rparr>\<rparr>)) (ss_scopes s)\<rparr>"

definition reload_session :: "'f adaptive_config option \<Rightarrow> 'f session \<Rightarrow> 'f session" where
  "reload_session adaptiveCfg s =
     (case adaptiveCfg of
        Some c \<Rightarrow>
          if ae_enabled c
          then recomputeScopedBlockAll adaptiveCfg (SetBlockAll (UpgradeAction [] (ln_escalationLevel (ss_lane s)) (Some c) = ''block'') s)
          else recomputeScopedBlockAll None (SetBlockAll False s)
      | None \<Rightarrow> recomputeScopedBlockAll None (SetBlockAll False s))"

definition UpdateConfig ::
  "session_profiling \<Rightarrow> 'f adaptive_config option \<Rightarrow> airlock_config option \<Rightarrow> 'f session_manager \<Rightarrow> 'f session_manager" where
  "UpdateConfig cfg adaptiveCfg airlockCfg m =
     all_sessions (reload_session adaptiveCfg) (m\<lparr>sm_cfg := cfg, sm_adaptiveCfg := adaptiveCfg, sm_airlockCfg := airlockCfg\<rparr>)"

section \<open>Cleanup\<close>

definition cleanup :: "go_time \<Rightarrow> 'f session_manager \<Rightarrow> 'f session_manager" where
  "cleanup now m =
     (let cfg = sm_cfg m; cutoff = now - wrap64 (sp_sessionTTLMinutes cfg * minute_ns); windowCutoff = now - window_of cfg;
          prune = (\<lambda>es. filter (\<lambda>de. windowCutoff < dme_at de) es) in
      m\<lparr>sm_sessions := filter (\<lambda>(k, s). in_airlock s \<or> \<not> ss_lastActivity s < cutoff) (sm_sessions m),
        sm_ipDomains := (\<lambda>ip. case sm_ipDomains m ip of None \<Rightarrow> None | Some es \<Rightarrow> if prune es = [] then None else Some (prune es)),
        sm_ipBurstCooldown := (\<lambda>ip. case sm_ipDomains m ip of
            Some es \<Rightarrow> if prune es = [] then None else sm_ipBurstCooldown m ip
          | None \<Rightarrow> sm_ipBurstCooldown m ip)\<rparr>)"

section \<open>The recovery sweep\<close>

definition recovery_event :: "go_time \<Rightarrow> string \<Rightarrow> int \<Rightarrow> int \<Rightarrow> 'f session \<Rightarrow> 'f session" where
  "recovery_event now scope from' to s =
     RecordEvent now \<lparr>sev_at = None, sev_kind = ''adaptive_deescalate'', sev_type = ''time_based_recovery'', sev_target = scope,
       sev_detail = EscalationLabel from' @ ''->'' @ EscalationLabel to, sev_severity = ''info''\<rparr> s"

definition airlock_event :: "go_time \<Rightarrow> string \<Rightarrow> string \<Rightarrow> string \<Rightarrow> string \<Rightarrow> string \<Rightarrow> 'f session \<Rightarrow> 'f session" where
  "airlock_event now kind target from' to severity s =
     RecordEvent now \<lparr>sev_at = None, sev_kind = kind, sev_type = [], sev_target = target,
       sev_detail = from' @ ''->'' @ to, sev_severity = severity\<rparr> s"

definition sweep_levels :: "'f session_libs \<Rightarrow> go_time \<Rightarrow> 'f adaptive_config \<Rightarrow> 'f session \<Rightarrow> 'f session" where
  "sweep_levels lib now c s =
     (let check = Some (adaptiveBlockAllCheck (Some c)); d = adaptiveLevelDuration (Some c);
          ((changed, from', to), s1) = TryAutoRecover lib now d check s;
          s2 = (if changed then recovery_event now [] from' to s1 else s1);
          (changes, s3) = TryAutoRecoverScopes lib now d check s2 in
      fold (\<lambda>(k, from', to). recovery_event now k from' to) changes s3)"

definition sweep_airlocks :: "go_time \<Rightarrow> airlock_timers \<Rightarrow> 'f session \<Rightarrow> 'f session" where
  "sweep_airlocks now timers s =
     (let ((changed, from', to), a) = TryDeescalate now timers (ss_airlock s);
          s1 = s\<lparr>ss_airlock := a\<rparr>;
          s2 = (if changed then airlock_event now ''airlock_deescalate'' to from' to ''info'' s1 else s1);
          (changes, s3) = TryDeescalateScopedAirlocks now timers s2 in
      fold (\<lambda>(k, from', to). airlock_event now ''airlock_deescalate'' k from' to ''info'') changes s3)"

definition sweep_session :: "'f session_libs \<Rightarrow> go_time \<Rightarrow> 'f adaptive_config \<Rightarrow> airlock_config option \<Rightarrow> 'f session \<Rightarrow> 'f session" where
  "sweep_session lib now c ak s =
     (let s1 = sweep_levels lib now c s in
      case ak of Some a \<Rightarrow> if ak_enabled a then sweep_airlocks now (ak_timers a) s1 else s1 | None \<Rightarrow> s1)"

definition sweepDeescalation :: "'f session_libs \<Rightarrow> go_time \<Rightarrow> 'f session_manager \<Rightarrow> 'f session_manager" where
  "sweepDeescalation lib now m =
     (case sm_adaptiveCfg m of
        Some c \<Rightarrow> if ae_enabled c then all_sessions (sweep_session lib now c (sm_airlockCfg m)) m else m
      | None \<Rightarrow> m)"

section \<open>The operator\<close>

definition clear_ip :: "string \<Rightarrow> 'f session_manager \<Rightarrow> 'f session_manager" where
  "clear_ip ip m =
     (if ip \<noteq> [] then m\<lparr>sm_ipDomains := (sm_ipDomains m)(ip := None), sm_ipBurstCooldown := (sm_ipBurstCooldown m)(ip := None)\<rparr> else m)"

definition reset_session :: "'f session_libs \<Rightarrow> go_time \<Rightarrow> 'f session \<Rightarrow> 'f session" where
  "reset_session lib now s = snd (snd (resetWhileLocked lib now s))"

text \<open>Whether the key was found; the returned snapshots are left out.\<close>

definition ResetSession :: "'f session_libs \<Rightarrow> go_time \<Rightarrow> string \<Rightarrow> 'f session_manager \<Rightarrow> bool \<times> 'f session_manager" where
  "ResetSession lib now key m =
     (case map_of (sm_sessions m) key of
        None \<Rightarrow> (False, m)
      | Some _ \<Rightarrow> (True, with_session key (reset_session lib now) (clear_ip (snd (snd (classifySessionKey key))) m)))"

datatype reset_result = ResetNotFound | ErrInvocationReset | ResetDone

definition ResetSessionIfResettable ::
  "'f session_libs \<Rightarrow> go_time \<Rightarrow> string \<Rightarrow> 'f session_manager \<Rightarrow> reset_result \<times> 'f session_manager" where
  "ResetSessionIfResettable lib now key m =
     (case map_of (sm_sessions m) key of
        None \<Rightarrow> (ResetNotFound, m)
      | Some s \<Rightarrow>
          if ss_kind s \<noteq> ''identity'' then (ErrInvocationReset, m)
          else (ResetDone, with_session key (reset_session lib now) (clear_ip (snd (snd (classifySessionKey key))) m)))"

definition ResetAllIdentitySessions :: "'f session_libs \<Rightarrow> go_time \<Rightarrow> 'f session_manager \<Rightarrow> (nat \<times> nat) \<times> 'f session_manager" where
  "ResetAllIdentitySessions lib now m =
     (let identity = (\<lambda>k. fst (classifySessionKey k) = ''identity'') in
      ((length (filter (\<lambda>(k, s). identity k) (sm_sessions m)), length (filter (\<lambda>(k, s). \<not> identity k) (sm_sessions m))),
       m\<lparr>sm_sessions := map (\<lambda>(k, s). (k, if identity k then reset_session lib now s else s)) (sm_sessions m),
         sm_ipDomains := Map.empty, sm_ipBurstCooldown := Map.empty\<rparr>))"

definition withMutableIdentitySession ::
  "string \<Rightarrow> ('f session \<Rightarrow> 'f session) \<Rightarrow> 'f session_manager \<Rightarrow> reset_result \<times> 'f session_manager" where
  "withMutableIdentitySession key mutate m =
     (case map_of (sm_sessions m) key of
        None \<Rightarrow> (ResetNotFound, m)
      | Some s \<Rightarrow> if \<not> IsResettable s then (ErrInvocationReset, m) else (ResetDone, with_session key mutate m))"

definition sm_BeginNewTask ::
  "string \<Rightarrow> string \<Rightarrow> go_time \<Rightarrow> string \<Rightarrow> string \<Rightarrow> 'f session_manager \<Rightarrow> reset_result \<times> 'f session_manager" where
  "sm_BeginNewTask taskID0 taskID now key label m =
     withMutableIdentitySession key (\<lambda>s. snd (BeginNewTask taskID0 taskID label now s)) m"

text \<open>\<open>None\<close> for a grant whose scope is not the task.\<close>

definition sm_AddRuntimeTrustOverride ::
  "string \<Rightarrow> go_time \<Rightarrow> string \<Rightarrow> trust_override \<Rightarrow> 'f session_manager \<Rightarrow> reset_result option \<times> 'f session_manager" where
  "sm_AddRuntimeTrustOverride taskID now key ov m =
     (if to_scope ov \<noteq> ''task'' then (None, m)
      else case withMutableIdentitySession key (\<lambda>s. snd (AddRuntimeTrustOverride taskID now ov s)) m of (r, m1) \<Rightarrow> (Some r, m1))"

definition force_tier :: "go_time \<Rightarrow> string \<Rightarrow> 'f session \<Rightarrow> 'f session" where
  "force_tier now tier s =
     (let ((changed, from', to), a) = ForceSetTierWithProvenance now tier ''manual'' ''admin_api'' (ss_airlock s);
          s1 = s\<lparr>ss_airlock := a\<rparr> in
      if changed then airlock_event now ''airlock_override'' to from' to ''warn'' s1 else s1)"

definition ForceSetAirlockTier ::
  "go_time \<Rightarrow> string \<Rightarrow> string \<Rightarrow> 'f session_manager \<Rightarrow> (bool \<times> bool \<times> string \<times> string) \<times> 'f session_manager" where
  "ForceSetAirlockTier now key tier m =
     (case map_of (sm_sessions m) key of
        None \<Rightarrow> ((False, False, [], []), m)
      | Some s \<Rightarrow>
          ((True, fst (ForceSetTierWithProvenance now tier ''manual'' ''admin_api'' (ss_airlock s))), with_session key (force_tier now tier) m))"

section \<open>Runs\<close>

datatype 'f manager_op =
    MGet string string
  | MTraffic string "'f session_op"
  | MIPDomain string string session_profiling
  | MUpdate session_profiling "'f adaptive_config option" "airlock_config option"
  | MCleanup
  | MSweep
  | MDelete string
  | MReset string
  | MResetIf string
  | MResetAll
  | MNewTask string string string string
  | MTrust string string trust_override
  | MForce string string

fun manager_step :: "'f session_libs \<Rightarrow> go_time \<times> 'f manager_op \<Rightarrow> 'f session_manager \<Rightarrow> 'f session_manager" where
  "manager_step lib (now, MGet i key) m = snd (GetOrCreate lib now i key m)"
| "manager_step lib (now, MTraffic key x) m = with_session key (session_step lib (now, x)) m"
| "manager_step lib (now, MIPDomain ip dm cfg) m = snd (RecordIPDomain now ip dm cfg m)"
| "manager_step lib (now, MUpdate cfg a ak) m = UpdateConfig cfg a ak m"
| "manager_step lib (now, MCleanup) m = cleanup now m"
| "manager_step lib (now, MSweep) m = sweepDeescalation lib now m"
| "manager_step lib (now, MDelete key) m = sm_Delete key m"
| "manager_step lib (now, MReset key) m = snd (ResetSession lib now key m)"
| "manager_step lib (now, MResetIf key) m = snd (ResetSessionIfResettable lib now key m)"
| "manager_step lib (now, MResetAll) m = snd (ResetAllIdentitySessions lib now m)"
| "manager_step lib (now, MNewTask i0 i key label) m = snd (sm_BeginNewTask i0 i now key label m)"
| "manager_step lib (now, MTrust i key ov) m = snd (sm_AddRuntimeTrustOverride i now key ov m)"
| "manager_step lib (now, MForce key tier) m = snd (ForceSetAirlockTier now key tier m)"

section \<open>Eviction\<close>

text \<open>The candidate of the scan is a session outside the airlock.\<close>

definition candidate_in :: "(string \<times> 'f session) list \<Rightarrow> string \<times> go_time \<times> 'f session option \<Rightarrow> bool" where
  "candidate_in xs = (\<lambda>(key, t, sess). key = [] \<or> (\<exists>s. (key, s) \<in> set xs \<and> \<not> in_airlock s))"

lemma oldest_candidate: "set xs \<subseteq> set ys \<Longrightarrow> candidate_in ys acc \<Longrightarrow> candidate_in ys (fold oldest_step xs acc)"
proof (induction xs arbitrary: acc)
  case (Cons x xs)
  have "candidate_in ys (oldest_step x acc)"
    using Cons.prems by (cases x; cases acc) (auto simp: candidate_in_def oldest_step_def)
  then show ?case using Cons by simp
qed simp

lemma evict_spares_airlock:
  assumes "distinct (map fst (sm_sessions m))" "map_of (sm_sessions m) k = Some s" "in_airlock s"
  shows "map_of (sm_sessions (snd (evictOldest m))) k = Some s"
proof -
  obtain key t sess where f: "fold oldest_step (sm_sessions m) ([], 0, None) = (key, t, sess)" by (metis prod_cases3)
  have "candidate_in (sm_sessions m) (key, t, sess)"
    using oldest_candidate [of "sm_sessions m" "sm_sessions m" "([], 0, None)"] f by (simp add: candidate_in_def)
  then have "key = [] \<or> key \<noteq> k" using assms eq_key_imp_eq_value [OF assms(1)] map_of_SomeD [OF assms(2)]
    by (auto simp: candidate_in_def)
  then show ?thesis using assms(2) f by (auto simp: evictOldest_def delete_conv')
qed

lemma oldest_found:
  "(\<exists>(k, s) \<in> set xs. \<not> in_airlock s) \<or> fst acc \<noteq> [] \<Longrightarrow> [] \<notin> fst ` set xs \<Longrightarrow> fst (fold oldest_step xs acc) \<noteq> []"
proof (induction xs arbitrary: acc)
  case (Cons x xs)
  obtain k s where x: "x = (k, s)" by fastforce
  obtain ok ot os where acc: "acc = (ok, ot, os)" by (metis prod_cases3)
  have "k \<noteq> []" using Cons.prems(2) x by auto
  show ?case
  proof (cases "in_airlock s")
    case True
    then have "oldest_step x acc = acc" by (simp add: oldest_step_def x acc)
    then show ?thesis using Cons x True by auto
  next
    case False
    then have "fst (oldest_step x acc) \<noteq> []" using \<open>k \<noteq> []\<close> by (auto simp: oldest_step_def x acc)
    then show ?thesis using Cons.IH [of "oldest_step x acc"] Cons.prems(2) by simp
  qed
qed auto

lemma delete_length: "distinct (map fst xs) \<Longrightarrow> k \<in> fst ` set xs \<Longrightarrow> length (AList.delete k xs) = length xs - 1"
proof -
  assume d: "distinct (map fst xs)" and k: "k \<in> fst ` set xs"
  have "length (AList.delete k xs) = length (removeAll k (map fst xs))" by (metis delete_keys length_map)
  then show ?thesis using d k by (simp add: distinct_remove1_removeAll [symmetric] length_remove1)
qed

definition manager_keys :: "'f session_manager \<Rightarrow> bool" where
  "manager_keys m \<longleftrightarrow> distinct (map fst (sm_sessions m)) \<and> [] \<notin> fst ` set (sm_sessions m)"

lemma map_fst_same: "map fst (map (\<lambda>(k, s). (k, f k s)) xs) = map fst xs"
  by (induction xs) auto

lemma with_session_fst [simp]: "map fst (sm_sessions (with_session key f m)) = map fst (sm_sessions m)"
  using map_fst_same [of "\<lambda>k s. if k = key then f s else s" "sm_sessions m"] by (simp add: with_session_def del: map_map)

lemma all_sessions_fst [simp]: "map fst (sm_sessions (all_sessions f m)) = map fst (sm_sessions m)"
  using map_fst_same [of "\<lambda>k s. f s" "sm_sessions m"] by (simp add: all_sessions_def del: map_map)

lemma evict_sessions:
  "sm_sessions (snd (evictOldest m)) = sm_sessions m \<or> (\<exists>key. sm_sessions (snd (evictOldest m)) = AList.delete key (sm_sessions m))"
  by (auto simp: evictOldest_def split: prod.splits)

lemma delete_keys_subset: "fst ` set (AList.delete key xs) \<subseteq> fst ` set xs"
  by (auto simp: AList.delete_eq)

lemma evict_keys:
  "fst ` set (sm_sessions (snd (evictOldest m))) \<subseteq> fst ` set (sm_sessions m)"
  "distinct (map fst (sm_sessions m)) \<Longrightarrow> distinct (map fst (sm_sessions (snd (evictOldest m))))"
  using evict_sessions [of m] by (elim disjE exE; simp add: delete_keys_subset distinct_delete)+

lemma evict_cfg [simp]:
  "sm_cfg (snd (evictOldest m)) = sm_cfg m" "sm_airlockCfg (snd (evictOldest m)) = sm_airlockCfg m"
  "sm_adaptiveCfg (snd (evictOldest m)) = sm_adaptiveCfg m"
  by (simp_all add: evictOldest_def split: prod.splits)

lemma create_sessions:
  assumes "map_of (sm_sessions m) key = None"
  shows "sm_sessions (snd (GetOrCreate lib now i key m)) =
    sm_sessions (if int (length (sm_sessions m)) \<ge> sp_maxSessions (sm_cfg m) then snd (evictOldest m) else m) @
      [(key, new_session lib key (if list_ex (has_prefix key) invocationPrefixes then ''invocation'' else ''identity'') now i)]"
  using assms by (simp add: GetOrCreate_def Let_def split: prod.splits)

lemma create_keys:
  assumes "manager_keys m" "key \<noteq> []"
  shows "manager_keys (snd (GetOrCreate lib now i key m))"
proof (cases "map_of (sm_sessions m) key")
  case None
  define xs where "xs = sm_sessions (if int (length (sm_sessions m)) \<ge> sp_maxSessions (sm_cfg m) then snd (evictOldest m) else m)"
  have "fst ` set xs \<subseteq> fst ` set (sm_sessions m)" using evict_keys(1) [of m] by (simp add: xs_def)
  moreover have "key \<notin> fst ` set (sm_sessions m)" using None by (simp add: map_of_eq_None_iff)
  moreover have "distinct (map fst xs)" "[] \<notin> fst ` set (sm_sessions m)"
    using evict_keys(2) [of m] assms(1) by (simp_all add: xs_def manager_keys_def)
  ultimately have "key \<notin> fst ` set xs" "[] \<notin> fst ` set xs" "distinct (map fst xs)" by blast+
  then show ?thesis using assms(2) by (simp add: manager_keys_def create_sessions [OF None, folded xs_def])
qed (use assms in \<open>simp add: GetOrCreate_def\<close>)

text \<open>
  Creating a session never takes the manager above its configured maximum, unless every session
  it holds is in quarantine and so may not be evicted.
\<close>

theorem session_cap_holds:
  assumes "manager_keys m" "1 \<le> sp_maxSessions (sm_cfg m)" "int (length (sm_sessions m)) \<le> sp_maxSessions (sm_cfg m)"
  shows "int (length (sm_sessions (snd (GetOrCreate lib now i key m)))) \<le> sp_maxSessions (sm_cfg m) \<or>
    list_all (\<lambda>(k, s). in_airlock s) (sm_sessions m)"
proof (cases "map_of (sm_sessions m) key = None \<and> \<not> list_all (\<lambda>(k, s). in_airlock s) (sm_sessions m)")
  case True
  show ?thesis
  proof (cases "int (length (sm_sessions m)) \<ge> sp_maxSessions (sm_cfg m)")
    case full: True
    obtain key' t sess where f: "fold oldest_step (sm_sessions m) ([], 0, None) = (key', t, sess)" by (metis prod_cases3)
    have "key' \<noteq> []"
      using oldest_found [of "sm_sessions m" "([], 0, None)"] True assms(1) f by (auto simp: list_all_iff manager_keys_def)
    moreover have "key' \<in> fst ` set (sm_sessions m)"
      using oldest_candidate [of "sm_sessions m" "sm_sessions m" "([], 0, None)"] f \<open>key' \<noteq> []\<close> by (force simp: candidate_in_def)
    ultimately have "length (sm_sessions (snd (evictOldest m))) = length (sm_sessions m) - 1"
      using assms(1) f delete_length [of "sm_sessions m" key'] by (simp add: evictOldest_def manager_keys_def)
    moreover have "0 < length (sm_sessions m)" using full assms(2) by linarith
    ultimately show ?thesis using True full assms(3) by (simp add: create_sessions)
  qed (use True in \<open>simp add: create_sessions\<close>)
qed (use assms(3) in \<open>auto simp: GetOrCreate_def\<close>)

theorem session_cap_holds_witness:
  "length (sm_sessions (snd (GetOrCreate demo_session_libs 5 ''task-9'' ''b|10.0.0.2''
     ((NewSessionManager \<lparr>sp_enabled = True, sp_anomalyAction = ''warn'', sp_domainBurst = 5, sp_windowMinutes = 5, sp_maxSessions = 1,
         sp_sessionTTLMinutes = 30, sp_cleanupIntervalSeconds = 60\<rparr> None None)\<lparr>sm_sessions := [(''agent|10.0.0.1'', demo_session)]\<rparr>)))) \<le> 1"
proof -
  let ?m = "(NewSessionManager \<lparr>sp_enabled = True, sp_anomalyAction = ''warn'', sp_domainBurst = 5, sp_windowMinutes = 5, sp_maxSessions = 1,
         sp_sessionTTLMinutes = 30, sp_cleanupIntervalSeconds = 60\<rparr> None None)\<lparr>sm_sessions := [(''agent|10.0.0.1'', demo_session)]\<rparr>"
  have "manager_keys ?m" "1 \<le> sp_maxSessions (sm_cfg ?m)" "int (length (sm_sessions ?m)) \<le> sp_maxSessions (sm_cfg ?m)"
    by (simp_all add: manager_keys_def NewSessionManager_def)
  from session_cap_holds [OF this, of demo_session_libs 5 "''task-9''" "''b|10.0.0.2''"] show ?thesis
    by (simp add: NewSessionManager_def in_airlock_def demo_session_def new_session_def NewAirlockState_def)
qed

section \<open>Quarantined sessions are not evicted\<close>

lemma map_of_with: "map_of (sm_sessions (with_session key f m)) k = map_option (if k = key then f else (\<lambda>s. s)) (map_of (sm_sessions m) k)"
  using map_of_map_if [of key f "sm_sessions m" k] by (simp add: with_session_def)

lemma map_of_all: "map_of (sm_sessions (all_sessions f m)) k = map_option f (map_of (sm_sessions m) k)"
  unfolding all_sessions_def by (simp add: map_of_map)

lemma RecordEvent_fields [simp]:
  "ss_airlock (RecordEvent now e s) = ss_airlock s" "ss_lane (RecordEvent now e s) = ss_lane s" "ss_scopes (RecordEvent now e s) = ss_scopes s"
  by (simp_all add: RecordEvent_def Let_def)

lemma fold_keeps: "(\<And>x s. f (g x s) = f s) \<Longrightarrow> f (fold g xs s) = f s"
  by (induction xs arbitrary: s) simp_all

lemma events_keep:
  "ss_airlock (fold (\<lambda>(k, a, b). recovery_event now k a b) cs s) = ss_airlock s"
  "ss_lane (fold (\<lambda>(k, a, b). recovery_event now k a b) cs s) = ss_lane s"
  "ss_scopes (fold (\<lambda>(k, a, b). recovery_event now k a b) cs s) = ss_scopes s"
  "ss_airlock (fold (\<lambda>(k, a, b). airlock_event now kind k a b sv) ds s) = ss_airlock s"
  "ss_lane (fold (\<lambda>(k, a, b). airlock_event now kind k a b sv) ds s) = ss_lane s"
  "ss_scopes (fold (\<lambda>(k, a, b). airlock_event now kind k a b sv) ds s) = ss_scopes s"
  by (auto intro!: fold_keeps simp: recovery_event_def airlock_event_def split: prod.splits)

lemma sweep_airlock:
  "ss_airlock (sweep_session lib now c ak s) =
     (case ak of Some a \<Rightarrow> if ak_enabled a then airlock_step (now, ATryDeescalate (ak_timers a)) (ss_airlock s) else ss_airlock s
      | None \<Rightarrow> ss_airlock s)"
proof -
  have levels: "ss_airlock (sweep_levels lib now c s) = ss_airlock s"
    by (auto simp: sweep_levels_def TryAutoRecover_def TryAutoRecoverScopes_def on_lane_def events_keep recovery_event_def Let_def
        split: prod.splits)
  have "ss_airlock (sweep_airlocks now tm s1) = snd (TryDeescalate now tm (ss_airlock s1))" for tm and s1 :: "'a session"
    by (auto simp: sweep_airlocks_def TryDeescalateScopedAirlocks_def events_keep airlock_event_def Let_def split: prod.splits)
  then show ?thesis by (simp add: sweep_session_def levels Let_def split: option.splits)
qed

definition timers_are :: "int \<Rightarrow> airlock_config option \<Rightarrow> bool" where
  "timers_are minutes ak \<longleftrightarrow> (case ak of None \<Rightarrow> True | Some a \<Rightarrow> \<not> ak_enabled a \<or> at_hardMinutes (ak_timers a) = minutes)"

definition quarantined_in :: "int \<Rightarrow> go_time \<Rightarrow> string \<Rightarrow> 'f session_manager \<Rightarrow> bool" where
  "quarantined_in minutes t0 key m \<longleftrightarrow> 0 < minutes \<and> minutes \<le> 153722867 \<and> distinct (map fst (sm_sessions m)) \<and>
     timers_are minutes (sm_airlockCfg m) \<and> (\<exists>s. map_of (sm_sessions m) key = Some s \<and> quarantined t0 (ss_airlock s))"

text \<open>
  The steps that may end the quarantine of a session: the sweep or request at which its time is over, an operator's change
  of its tier, a reset of it or of all, a reload that changes the timer of the hard tier, and \<^verbatim>\<open>SessionManager.Delete\<close>
  of its key, which the MCP HTTP listener calls for the sessions it owns when the client ends one with DELETE or when it
  makes room (\<^verbatim>\<open>mcp_http_listener_state.go\<close>).
\<close>

fun traffic_frees :: "int \<Rightarrow> go_time \<Rightarrow> go_time \<times> 'f session_op \<Rightarrow> bool" where
  "traffic_frees minutes t0 (now, SReset) = True"
| "traffic_frees minutes t0 (now, SAirlock x) = may_end t0 minutes (now, x)"
| "traffic_frees minutes t0 (now, SScopedAirlock sc x) = may_end t0 minutes (now, x)"
| "traffic_frees minutes t0 _ = False"

fun frees :: "int \<Rightarrow> go_time \<Rightarrow> string \<Rightarrow> go_time \<times> 'f manager_op \<Rightarrow> bool" where
  "frees minutes t0 key (now, MTraffic k x) = (k = key \<and> traffic_frees minutes t0 (now, x))"
| "frees minutes t0 key (now, MUpdate cfg a ak) = (\<not> timers_are minutes ak)"
| "frees minutes t0 key (now, MSweep) = (now < t0 \<or> t0 + minutes * minute_ns \<le> now)"
| "frees minutes t0 key (now, MDelete k) = (k = key)"
| "frees minutes t0 key (now, MReset k) = (k = key)"
| "frees minutes t0 key (now, MResetIf k) = (k = key)"
| "frees minutes t0 key (now, MResetAll) = True"
| "frees minutes t0 key (now, MForce k tier) = (k = key)"
| "frees minutes t0 key _ = False"

lemma getOrCreate_airlock [simp]: "ss_airlock (snd (getOrCreateScopeLocked lib k s)) = ss_airlock s"
  by (simp add: getOrCreateScopeLocked_def Let_def)

lemma traffic_keeps:
  assumes q: "quarantined t0 (ss_airlock s)" and m: "0 < minutes" "minutes \<le> 153722867" and no: "\<not> traffic_frees minutes t0 (now, x)"
  shows "quarantined t0 (ss_airlock (session_step lib (now, x) s))"
proof -
  have airlock: "quarantined t0 (airlock_step (now, y) a)" if "quarantined t0 a" "\<not> may_end t0 minutes (now, y)" for y a
    using quarantine.step_sticks [of minutes t0 a "(now, y)"] that m by blast
  have get: "ss_airlock s1 = ss_airlock s" if "getOrCreateScopeLocked lib k s = (r, s1)" for k r s1
    using getOrCreate_airlock [of lib k s] that by simp
  show ?thesis
    using q no
    by (cases x) (auto simp: RecordRequest_def RecordSignal_def RecordScopedSignal_def RecordClean_def RecordCleanWithRecovery_def
        RecordScopedClean_def RecordScopedCleanWithRecovery_def SetBlockAll_def SetScopedBlockAll_def TryAutoRecover_def
        TryAutoRecoverScopes_def AirlockForScope_def TryDeescalateScopedAirlocks_def BeginNewTask_def AddRuntimeTrustOverride_def
        ObserveRisk_def TaskSnapshot_def ensure_task_def RecordBytes_def RecordToolCall_def on_lane_def on_scope_lane_def update_scope_def
        Let_def airlock dest!: get split: prod.splits option.splits)
qed

lemma quarantined_in_airlock: "quarantined t0 (ss_airlock s) \<Longrightarrow> in_airlock s"
  by (auto simp: quarantined_def in_airlock_def)

lemma reload_airlock [simp]: "ss_airlock (reload_session a s) = ss_airlock s"
  by (simp add: reload_session_def recomputeScopedBlockAll_def SetBlockAll_def split: option.splits)

lemma airlock_cfg_kept:
  "(\<And>cfg a ak. snd x \<noteq> MUpdate cfg a ak) \<Longrightarrow> sm_airlockCfg (manager_step lib x m) = sm_airlockCfg m"
  by (cases x; cases "snd x")
    (auto simp: GetOrCreate_def with_session_def RecordIPDomain_def cleanup_def sweepDeescalation_def all_sessions_def sm_Delete_def
      ResetSession_def ResetSessionIfResettable_def ResetAllIdentitySessions_def clear_ip_def sm_BeginNewTask_def
      withMutableIdentitySession_def sm_AddRuntimeTrustOverride_def ForceSetAirlockTier_def Let_def split: prod.splits option.splits
      dest: arg_cong [where f = "\<lambda>p. sm_airlockCfg (snd p)"])

lemma create_spares:
  assumes "distinct (map fst (sm_sessions m))" "map_of (sm_sessions m) k = Some s" "in_airlock s"
  shows "distinct (map fst (sm_sessions (snd (GetOrCreate lib now i key m)))) \<and>
    map_of (sm_sessions (snd (GetOrCreate lib now i key m))) k = Some s"
proof (cases "map_of (sm_sessions m) key")
  case None
  define xs where "xs = sm_sessions (if int (length (sm_sessions m)) \<ge> sp_maxSessions (sm_cfg m) then snd (evictOldest m) else m)"
  have "fst ` set xs \<subseteq> fst ` set (sm_sessions m)" using evict_keys(1) [of m] by (simp add: xs_def)
  moreover have "key \<notin> fst ` set (sm_sessions m)" using None by (simp add: map_of_eq_None_iff)
  ultimately have "key \<notin> fst ` set xs" by blast
  moreover have "distinct (map fst xs)" using evict_keys(2) [OF assms(1)] assms(1) by (simp add: xs_def)
  moreover have "map_of xs k = Some s" using evict_spares_airlock [OF assms] assms(2) by (simp add: xs_def)
  ultimately show ?thesis by (simp add: create_sessions [OF None, folded xs_def] map_add_def)
qed (use assms in \<open>simp add: GetOrCreate_def\<close>)

lemma cleanup_spares:
  assumes "distinct (map fst (sm_sessions m))" "map_of (sm_sessions m) k = Some s" "in_airlock s"
  shows "distinct (map fst (sm_sessions (cleanup now m))) \<and> map_of (sm_sessions (cleanup now m)) k = Some s"
proof -
  have "(k, s) \<in> set (sm_sessions (cleanup now m))" using map_of_SomeD [OF assms(2)] assms(3) by (simp add: cleanup_def Let_def)
  moreover have "distinct (map fst (sm_sessions (cleanup now m)))" using assms(1) by (simp add: cleanup_def Let_def distinct_map_filter)
  ultimately show ?thesis by (auto intro: map_of_is_SomeI)
qed

text \<open>What the other operations do to a session: nothing, or a step of its own.\<close>

lemma operator_steps:
  "sm_sessions (snd (ResetSession lib now key m)) \<in> {sm_sessions m, sm_sessions (with_session key (reset_session lib now) m)}"
  "sm_sessions (snd (ResetSessionIfResettable lib now key m)) \<in> {sm_sessions m, sm_sessions (with_session key (reset_session lib now) m)}"
  "sm_sessions (snd (sm_BeginNewTask i0 i now key label m)) \<in> {sm_sessions m, sm_sessions (with_session key (session_step lib (now, SNewTask i0 i label)) m)}"
  "sm_sessions (snd (sm_AddRuntimeTrustOverride i now key ov m)) \<in> {sm_sessions m, sm_sessions (with_session key (session_step lib (now, SOverride i ov)) m)}"
  "sm_sessions (snd (ForceSetAirlockTier now key tier m)) \<in> {sm_sessions m, sm_sessions (with_session key (force_tier now tier) m)}"
  "sm_sessions (snd (RecordIPDomain now ip dm cfg m)) = sm_sessions m"
  by (auto simp: ResetSession_def ResetSessionIfResettable_def clear_ip_def with_session_def sm_BeginNewTask_def sm_AddRuntimeTrustOverride_def
      withMutableIdentitySession_def ForceSetAirlockTier_def RecordIPDomain_def Let_def split: option.splits prod.splits)

lemma with_session_keeps:
  assumes "sm_sessions m' \<in> {sm_sessions m, sm_sessions (with_session key f m)}"
    and "distinct (map fst (sm_sessions m))" "map_of (sm_sessions m) k = Some s" "quarantined t0 (ss_airlock s)"
    and "key = k \<Longrightarrow> quarantined t0 (ss_airlock (f s))"
  shows "distinct (map fst (sm_sessions m')) \<and> (\<exists>s'. map_of (sm_sessions m') k = Some s' \<and> quarantined t0 (ss_airlock s'))"
  using assms map_of_with [of key f m k] with_session_fst [of key f m] by (auto simp del: with_session_fst)

lemma quarantine_step:
  assumes "quarantined_in minutes t0 key m" "\<not> frees minutes t0 key x"
  shows "quarantined_in minutes t0 key (manager_step lib x m)"
proof -
  obtain now y where x: "x = (now, y)" by fastforce
  from assms(1) obtain s where m: "0 < minutes" "minutes \<le> 153722867" and d: "distinct (map fst (sm_sessions m))"
    and tm: "timers_are minutes (sm_airlockCfg m)" and s: "map_of (sm_sessions m) key = Some s" and q: "quarantined t0 (ss_airlock s)"
    by (auto simp: quarantined_in_def)
  note a = quarantined_in_airlock [OF q]
  note keep = with_session_keeps [OF _ d s q]
  have kept: "distinct (map fst (sm_sessions (manager_step lib x m))) \<and>
    (\<exists>s'. map_of (sm_sessions (manager_step lib x m)) key = Some s' \<and> quarantined t0 (ss_airlock s'))"
  proof (cases y)
    case (MGet i k)
    then show ?thesis using create_spares [OF d s a, of lib now i k] q by (simp add: x)
  next
    case (MTraffic k z)
    then have eq: "manager_step lib x m = with_session k (session_step lib (now, z)) m" by (simp add: x)
    show ?thesis
      unfolding eq by (rule keep [of _ k "session_step lib (now, z)"]) (use traffic_keeps [OF q m, of now z lib] assms(2) MTraffic x in auto)
  next
    case (MIPDomain ip dm cfg)
    then show ?thesis using d s q operator_steps(6) [of now ip dm cfg m] by (simp add: x)
  next
    case (MUpdate cfg a ak)
    then show ?thesis using d s q by (simp add: x UpdateConfig_def map_of_all)
  next
    case MCleanup
    then show ?thesis using cleanup_spares [OF d s a, of now] q by (simp add: x)
  next
    case MSweep
    have "quarantined t0 (airlock_step (now, ATryDeescalate (ak_timers ac)) (ss_airlock s))"
      if "sm_airlockCfg m = Some ac" "ak_enabled ac" for ac
      using quarantine.step_sticks [of minutes t0 "ss_airlock s" "(now, ATryDeescalate (ak_timers ac))"] m q tm that assms(2) MSweep
      by (auto simp: x may_end_def timers_are_def)
    then show ?thesis using MSweep d s q
      by (auto simp: x sweepDeescalation_def map_of_all sweep_airlock simp del: map_of_eq_Some_iff split: option.splits)
  next
    case (MDelete k)
    then show ?thesis using d s q assms(2) by (auto simp: x sm_Delete_def delete_conv' distinct_delete simp del: map_of_eq_Some_iff)
  next
    case (MReset k)
    then show ?thesis using keep [OF operator_steps(1)] assms(2) by (simp add: x del: map_of_eq_Some_iff)
  next
    case (MResetIf k)
    then show ?thesis using keep [OF operator_steps(2)] assms(2) by (simp add: x del: map_of_eq_Some_iff)
  next
    case MResetAll
    then show ?thesis using assms(2) by (simp add: x)
  next
    case (MNewTask i0 i k label)
    then show ?thesis using keep [OF operator_steps(3) [of i0 i now k label m lib]] traffic_keeps [OF q m, of now "SNewTask i0 i label" lib]
      by (simp add: x del: session_step.simps map_of_eq_Some_iff)
  next
    case (MTrust i k ov)
    then show ?thesis using keep [OF operator_steps(4) [of i now k ov m lib]] traffic_keeps [OF q m, of now "SOverride i ov" lib]
      by (simp add: x del: session_step.simps map_of_eq_Some_iff)
  next
    case (MForce k tier)
    then show ?thesis using keep [OF operator_steps(5)] assms(2) by (simp add: x del: map_of_eq_Some_iff)
  qed
  moreover have "timers_are minutes (sm_airlockCfg (manager_step lib x m))"
    using tm assms(2) airlock_cfg_kept [of x lib m] by (cases y) (simp_all add: x UpdateConfig_def all_sessions_def)
  ultimately show ?thesis using m by (simp add: quarantined_in_def del: map_of_eq_Some_iff)
qed

interpretation session_quarantine: sticky_flag "manager_step lib" "quarantined_in minutes t0 key" "frees minutes t0 key" for lib minutes t0 key
  by unfold_locales (rule quarantine_step)

text \<open>
  C10. A session that entered the hard tier at \<open>t0\<close> is not lost to the manager's own housekeeping: through evictions at
  capacity, idle cleanups, recovery sweeps before its time is over, reloads that keep the timer of the hard tier, new sessions,
  the deletion of other sessions and its own traffic, it stays in the map and in hard or drain. The steps excluded
  (\<open>frees\<close>) are those after which it may be free: its timer, an operator's change of its tier, a reset, a reload that
  changes the timer of the hard tier, and \<^verbatim>\<open>SessionManager.Delete\<close> of its key. That last one is no operator's: for a session of
  the MCP HTTP listener, the client's own DELETE and the listener's purges call it, and \<open>deleted_session_returns_free\<close> shows
  that the same key is then free.
\<close>

theorem quarantine_survives_eviction:
  assumes "distinct (map fst (sm_sessions m))" "map_of (sm_sessions m) key = Some s"
    and "al_tier (ss_airlock s) = ''hard''" "al_enteredAt (ss_airlock s) = Some t0"
    and "0 < minutes" "minutes \<le> 153722867" "timers_are minutes (sm_airlockCfg m)"
    and "list_all (\<lambda>x. \<not> frees minutes t0 key x) ops"
  shows "\<exists>s'. map_of (sm_sessions (fold (manager_step lib) ops m)) key = Some s' \<and> al_tier (ss_airlock s') \<in> {''hard'', ''drain''}"
proof -
  have "quarantined t0 (ss_airlock s)" using assms(3,4) by (simp add: quarantined_def)
  then have "quarantined_in minutes t0 key m" using assms by (auto simp: quarantined_in_def)
  then have "quarantined_in minutes t0 key (fold (manager_step lib) ops m)"
    using session_quarantine.run_sticks assms(8) by blast
  then show ?thesis by (auto simp: quarantined_in_def quarantined_def)
qed

definition demo_profile :: session_profiling where
  "demo_profile = \<lparr>sp_enabled = True, sp_anomalyAction = ''warn'', sp_domainBurst = 5, sp_windowMinutes = 5, sp_maxSessions = 1,
     sp_sessionTTLMinutes = 30, sp_cleanupIntervalSeconds = 60\<rparr>"

definition hard_session :: "int session" where
  "hard_session = demo_session\<lparr>ss_airlock := NewAirlockState\<lparr>al_tier := ''hard'', al_enteredAt := Some 0\<rparr>\<rparr>"

theorem quarantine_survives_eviction_witness:
  "\<exists>s'. map_of (sm_sessions (fold (manager_step demo_session_libs)
      [(1, MGet ''task-7'' ''b|10.0.0.2''), (2000000000000, MCleanup), (2000000000001, MSweep)]
      ((NewSessionManager demo_profile None (Some \<lparr>ak_enabled = True, ak_timers = demo_timers\<lparr>at_hardMinutes := 60\<rparr>\<rparr>))\<lparr>sm_sessions :=
         [(''agent|10.0.0.1'', hard_session)]\<rparr>))) ''agent|10.0.0.1'' = Some s' \<and>
    al_tier (ss_airlock s') \<in> {''hard'', ''drain''}"
  by (rule quarantine_survives_eviction [where s = hard_session and ?t0.0 = 0 and minutes = 60])
    (simp_all add: hard_session_def NewSessionManager_def timers_are_def demo_timers_def)

section \<open>Recovery\<close>

lemma sweep_lane:
  "ss_lane (sweep_session lib now c ak s) =
     snd (lane_auto_recover (sl_floats lib) now (adaptiveLevelDuration (Some c)) (Some (adaptiveBlockAllCheck (Some c))) (ss_lane s))"
proof -
  have "ss_lane (sweep_airlocks now tm s1) = ss_lane s1" for tm and s1 :: "'a session"
    by (auto simp: sweep_airlocks_def TryDeescalateScopedAirlocks_def events_keep airlock_event_def Let_def split: prod.splits)
  then show ?thesis
    by (auto simp: sweep_session_def sweep_levels_def TryAutoRecover_def TryAutoRecoverScopes_def on_lane_def events_keep recovery_event_def
        Let_def split: prod.splits option.splits)
qed

definition scope_lanes :: "'f session \<Rightarrow> 'f lane list" where
  "scope_lanes s = map (as_lane \<circ> snd) (ss_scopes s)"

lemma sweep_scope_lanes:
  "scope_lanes (sweep_session lib now c ak s) =
     map (\<lambda>l. snd (lane_auto_recover (sl_floats lib) now (adaptiveLevelDuration (Some c)) (Some (adaptiveBlockAllCheck (Some c))) l)) (scope_lanes s)"
proof -
  have airlocks: "scope_lanes (sweep_airlocks now tm s1) = scope_lanes s1" for tm and s1 :: "'a session"
    by (auto simp: sweep_airlocks_def TryDeescalateScopedAirlocks_def events_keep airlock_event_def scope_lanes_def Let_def comp_def
        split: prod.splits)
  have "scope_lanes (sweep_levels lib now c s) =
      map (\<lambda>l. snd (lane_auto_recover (sl_floats lib) now (adaptiveLevelDuration (Some c)) (Some (adaptiveBlockAllCheck (Some c))) l)) (scope_lanes s)"
    by (auto simp: sweep_levels_def TryAutoRecover_def TryAutoRecoverScopes_def on_lane_def events_keep recovery_event_def scope_lanes_def
        Let_def comp_def case_prod_beta split: prod.splits)
  then show ?thesis by (simp add: sweep_session_def airlocks Let_def split: option.splits)
qed

lemma sweeps_lane:
  "ss_lane (fold (\<lambda>u. sweep_session lib u c ak) us s) = fold (\<lambda>u l. snd (lane_auto_recover (sl_floats lib) u
     (adaptiveLevelDuration (Some c)) (Some (adaptiveBlockAllCheck (Some c))) l)) us (ss_lane s)"
  "scope_lanes (fold (\<lambda>u. sweep_session lib u c ak) us s) = map (\<lambda>l. fold (\<lambda>u l. snd (lane_auto_recover (sl_floats lib) u
     (adaptiveLevelDuration (Some c)) (Some (adaptiveBlockAllCheck (Some c))) l)) us l) (scope_lanes s)"
  by (induction us arbitrary: s) (simp_all add: sweep_lane sweep_scope_lanes comp_def)

lemma sweeps_all:
  assumes "sm_adaptiveCfg m = Some c" "ae_enabled c"
  shows "fold (sweepDeescalation lib) us m = all_sessions (fold (\<lambda>u. sweep_session lib u c (sm_airlockCfg m)) us) m"
  using assms
proof (induction us arbitrary: m)
  case Nil
  have "map (\<lambda>(k, s). (k, s)) xs = xs" for xs :: "(string \<times> 'a session) list" by (induction xs) auto
  then show ?case by (simp add: all_sessions_def id_def)
next
  case (Cons u us)
  let ?m = "all_sessions (sweep_session lib u c (sm_airlockCfg m)) m"
  have "sm_adaptiveCfg ?m = Some c" "sm_airlockCfg ?m = sm_airlockCfg m" using Cons.prems by (simp_all add: all_sessions_def)
  then show ?case using Cons.IH [of ?m] Cons.prems by (simp add: sweepDeescalation_def all_sessions_def comp_def case_prod_beta)
qed

text \<open>A lane that \<open>n\<close> sweeps after \<open>t\<close> bring to normal.\<close>

definition within_sweeps :: "go_time \<Rightarrow> nat \<Rightarrow> 'f lane \<Rightarrow> bool" where
  "within_sweeps t n l \<longleftrightarrow> lane_ok l \<and> ln_escalationLevel l \<le> int n \<and>
     (ln_escalationLevel l > 0 \<longrightarrow> (\<exists>t' \<le> t. ln_lastEscalation l = Some t'))"

lemma within_recovers:
  assumes "within_sweeps t (length us) l" "0 < d" "spaced d t us"
  shows "ln_escalationLevel (fold (\<lambda>u l. snd (lane_auto_recover fo u d check l)) us l) = 0"
  using assms lane_recovers [of d l t us fo check] by (simp add: within_sweeps_def)

text \<open>
  C11. A deny spiral ends: with adaptive enforcement on, as many recovery sweeps as the highest
  escalation level, each more than a level duration after the one before, bring every session and every
  destination of it back to the normal level, whether or not any request arrives.
\<close>

theorem sweeps_recover_sessions:
  assumes "sm_adaptiveCfg m = Some c" "ae_enabled c" "0 < adaptiveLevelDuration (Some c)"
    and "spaced (adaptiveLevelDuration (Some c)) t us"
    and "list_all (\<lambda>(k, s). within_sweeps t (length us) (ss_lane s) \<and> list_all (within_sweeps t (length us)) (scope_lanes s)) (sm_sessions m)"
  shows "list_all (\<lambda>(k, s). ln_escalationLevel (ss_lane s) = 0 \<and> list_all (\<lambda>l. ln_escalationLevel l = 0) (scope_lanes s))
    (sm_sessions (fold (sweepDeescalation lib) us m))"
proof -
  have "ln_escalationLevel (ss_lane (fold (\<lambda>u. sweep_session lib u c ak) us s)) = 0 \<and>
      list_all (\<lambda>l. ln_escalationLevel l = 0) (scope_lanes (fold (\<lambda>u. sweep_session lib u c ak) us s))"
    if "(k, s) \<in> set (sm_sessions m)" for k s ak
  proof -
    have "within_sweeps t (length us) (ss_lane s)" "list_all (within_sweeps t (length us)) (scope_lanes s)"
      using that assms(5) by (auto simp: list_all_iff)
    then show ?thesis by (simp add: sweeps_lane list_all_iff within_recovers [OF _ assms(3,4)])
  qed
  then show ?thesis by (auto simp: sweeps_all [OF assms(1,2)] all_sessions_def list_all_iff)
qed

definition demo_adaptive :: "int adaptive_config" where
  "demo_adaptive = \<lparr>ae_enabled = True, ae_escalationThreshold = 500, ae_decayPerCleanRequest = 50, ae_levelDurationSeconds = 0,
     ae_deescalationCheckSeconds = 0, ae_cleanRequestsToDeescalate = 0,
     ae_levels = (let none = \<lparr>ea_upgradeWarn = Some [], ea_upgradeAsk = Some [], ea_blockAll = Some False\<rparr> in
       \<lparr>el_elevated = none, el_high = none, el_critical = none\<lparr>ea_blockAll := Some True\<rparr>\<rparr>)\<rparr>"

definition hot_session :: "int session" where
  "hot_session = demo_session\<lparr>ss_lane := (new_lane int_ops)\<lparr>ln_escalationLevel := 2, ln_lastEscalation := Some 0\<rparr>\<rparr>"

theorem sweeps_recover_sessions_witness:
  "list_all (\<lambda>(k, s). ln_escalationLevel (ss_lane s) = 0 \<and> list_all (\<lambda>l. ln_escalationLevel l = 0) (scope_lanes s))
    (sm_sessions (fold (sweepDeescalation demo_session_libs) [300000000001, 600000000002]
       ((NewSessionManager demo_profile (Some demo_adaptive) None)\<lparr>sm_sessions := [(''agent|10.0.0.1'', hot_session)]\<rparr>)))"
  by (rule sweeps_recover_sessions [where c = demo_adaptive and t = 0])
    (simp_all add: NewSessionManager_def demo_adaptive_def adaptiveLevelDuration_def defaultMaxLevelDuration_def within_sweeps_def lane_ok_def
      hot_session_def demo_session_def new_session_def new_lane_def scope_lanes_def)

section \<open>Gaps\<close>

definition idle_manager :: "int session_manager" where
  "idle_manager = (NewSessionManager demo_profile (Some demo_adaptive) None)\<lparr>sm_sessions := [(''agent|10.0.0.1'', demo_session)]\<rparr>"

text \<open>
  C40. Eviction looks at the session-wide airlock only. A session whose destination was put into the hard
  tier (the way HTTP requests are quarantined) is removed once it is idle, and its next request finds a
  new session in which the destination is free.
\<close>

theorem scoped_quarantine_evicted:
  "let m1 = manager_step demo_session_libs (1, MTraffic ''agent|10.0.0.1'' (SScopedAirlock ''a.test'' (ASetTier ''hard'' [] []))) idle_manager;
       m2 = manager_step demo_session_libs (1800000000001, MCleanup) m1;
       m3 = manager_step demo_session_libs (1800000000002, MGet ''task-2'' ''agent|10.0.0.1'') m2 in
   map_option (\<lambda>s. map (\<lambda>(k, st). (k, al_tier (as_airlock st))) (ss_scopes s)) (SessionByKey ''agent|10.0.0.1'' m1) = Some [(''a.test'', ''hard'')] \<and>
   SessionByKey ''agent|10.0.0.1'' m2 = None \<and>
   map_option ss_scopes (SessionByKey ''agent|10.0.0.1'' m3) = Some []"
proof -
  have m1: "manager_step demo_session_libs (1, MTraffic ''agent|10.0.0.1'' (SScopedAirlock ''a.test'' (ASetTier ''hard'' [] []))) idle_manager =
      idle_manager\<lparr>sm_sessions := [(''agent|10.0.0.1'', demo_session\<lparr>ss_scopes := [(''a.test'', \<lparr>as_lane = new_lane int_ops,
        as_airlock = NewAirlockState\<lparr>al_tier := ''hard'', al_enteredAt := Some 1\<rparr>\<rparr>)]\<rparr>)]\<rparr>"
    by (simp add: with_session_def idle_manager_def AirlockForScope_def getOrCreateScopeLocked_def demo_session_def new_session_def
        update_scope_def maxAdaptiveScopes_def new_scope_def demo_session_libs_def [THEN arg_cong [where f = sl_floats]]
        airlock_defs NewAirlockState_def Let_def)
  show ?thesis
    unfolding m1 by (simp add: Let_def SessionByKey_def idle_manager_def NewSessionManager_def cleanup_def demo_profile_def in_airlock_def
        demo_session_def new_session_def NewAirlockState_def GetOrCreate_def)
qed

text \<open>
  Deleting a session asks no airlock: whatever tier the session was in, the next request with its key finds a new session that
  is in none and has no destination in quarantine.
\<close>

theorem deleted_session_returns_free:
  assumes "key \<noteq> []"
  shows "\<exists>s'. map_of (sm_sessions (fold (manager_step lib) [(now, MDelete key), (now', MGet i key)] m)) key = Some s' \<and>
    al_tier (ss_airlock s') = ''none'' \<and> ss_scopes s' = []"
proof -
  let ?m = "sm_Delete key m"
  have none: "map_of (sm_sessions ?m) key = None" using assms by (simp add: sm_Delete_def delete_conv')
  have "map_of (sm_sessions (snd (evictOldest ?m))) key = None"
    using none evict_keys(1) [of ?m] by (auto simp: map_of_eq_None_iff)
  then show ?thesis using none by (simp add: create_sessions [OF none] map_add_def new_session_def NewAirlockState_def)
qed

text \<open>
  The airlock timers run inside the adaptive sweep, which returns at once when adaptive enforcement is
  off: a session an operator put into the hard tier then stays there however long its timer has run
  out, while the same sweep with adaptive enforcement on releases it.
\<close>

theorem airlock_timers_need_adaptive:
  "let sweeps = (\<lambda>a. fold (manager_step demo_session_libs) [(3600000000000, MSweep), (7200000000000, MSweep), (10800000000000, MSweep)]
         ((NewSessionManager demo_profile a (Some \<lparr>ak_enabled = True, ak_timers = demo_timers\<rparr>))\<lparr>sm_sessions := [(''agent|10.0.0.1'', hard_session)]\<rparr>));
       tier = (\<lambda>m. map_option (\<lambda>s. al_tier (ss_airlock s)) (SessionByKey ''agent|10.0.0.1'' m)) in
   tier (sweeps None) = Some ''hard'' \<and> tier (sweeps (Some demo_adaptive)) = Some ''none''"
  by (simp add: Let_def SessionByKey_def NewSessionManager_def sweepDeescalation_def all_sessions_def demo_adaptive_def sweep_airlock
      hard_session_def airlock_defs demo_timers_def since_def)

end
