(* ===== verification/SessionActivity.thy ===== *)
theory SessionActivity
  imports SessionManager GoJson
begin

text \<open>
  What a request does to its session (\<^verbatim>\<open>recordSessionActivityWithUserAgent\<close> and its helpers in
  \<^verbatim>\<open>internal/proxy/proxy.go\<close>): the session of the agent and client is found or created, the request is counted,
  the scan result and the domain bursts become signals of the destination's lane, an escalation may put
  the destination into the airlock, and the request is blocked when an anomaly or the behavioural baseline
  says so. The baseline check and the user-agent pattern are arguments; logging and metrics are left out.
\<close>

section \<open>Scan results\<close>

datatype result_class =
    ClassThreat
  | ClassProtective
  | ClassConfigMismatch
  | ClassInfrastructureError
  | ClassStructuralExemption

record 'f scan_result =
  rs_allowed :: bool
  rs_reason :: string
  rs_scanner :: string
  rs_score :: 'f
  rs_class :: result_class

definition IsAdaptiveNeutral :: "'f scan_result \<Rightarrow> bool" where
  "IsAdaptiveNeutral r \<longleftrightarrow>
     rs_class r = ClassProtective \<or> rs_class r = ClassInfrastructureError \<or> rs_class r = ClassStructuralExemption"

definition IsConfigMismatch :: "'f scan_result \<Rightarrow> bool" where
  "IsConfigMismatch r \<longleftrightarrow> rs_class r = ClassConfigMismatch"

section \<open>Configuration and requests\<close>

text \<open>The parts of the configuration the function reads.\<close>

record airlock_triggers =
  at_onElevated :: string
  at_onHigh :: string
  at_onCritical :: string

record 'f activity_config =
  ac_profiling :: session_profiling
  ac_adaptive :: "'f adaptive_config"
  ac_severityWeighted :: bool
  ac_cooperativeDownweight :: bool
  ac_exemptDomains :: "string list"
  ac_airlockEnabled :: bool
  ac_triggers :: airlock_triggers
  ac_enforce :: "bool option"

definition EnforceEnabled :: "'f activity_config \<Rightarrow> bool" where
  "EnforceEnabled cfg \<longleftrightarrow> ac_enforce cfg = None \<or> ac_enforce cfg = Some True"

record 'f session_activity_options =
  so_clientIP :: string
  so_agent :: string
  so_hostname :: string
  so_scope :: string
  so_userAgent :: string
  so_result :: "'f scan_result"
  so_deferClean :: bool

text \<open>
  \<open>av_session\<close> holds the arguments of the session; \<open>av_baseline\<close> is \<^verbatim>\<open>CheckBaselineFailClosed\<close>, the action and
  detail of a deviation; \<open>av_cooperative\<close> is the user-agent pattern.
\<close>

record 'f activity_libs =
  av_session :: "'f session_libs"
  av_baseline :: "string \<Rightarrow> 'f session \<Rightarrow> (string \<times> string) option"
  av_cooperative :: "string \<Rightarrow> bool"

record session_result =
  sq_blocked :: bool
  sq_detail :: string
  sq_level :: int
  sq_autoRecoverAt :: "go_time option"
  sq_recoverHint :: bool




definition baselineAgentKeyForSessionKey :: "string \<Rightarrow> string" where
  "baselineAgentKeyForSessionKey key =
     (case classifySessionKey key of (kind, agent, _) \<Rightarrow> if kind = ''identity'' \<and> agent \<noteq> [] then agent else key)"

definition isAdaptiveExempt :: "'f session_libs \<Rightarrow> string \<Rightarrow> string list \<Rightarrow> bool" where
  "isAdaptiveExempt lib hostname exemptDomains = list_ex (MatchDomain (sl_lower lib) hostname) exemptDomains"

definition activity_scope :: "'f session_libs \<Rightarrow> 'f session_activity_options \<Rightarrow> string" where
  "activity_scope lib r =
     (let scope = normalizeAdaptiveScope lib (so_scope r) in
      if scope = [] then adaptiveScopeForHost lib (so_hostname r) else scope)"

section \<open>Signals\<close>

definition recordScopedAdaptiveSignal ::
  "'f session_libs \<Rightarrow> go_time \<Rightarrow> string \<Rightarrow> signal \<Rightarrow> 'f \<Rightarrow> 'f session \<Rightarrow> bool \<times> 'f session" where
  "recordScopedAdaptiveSignal lib now scope0 sig threshold s =
     (let scope = normalizeAdaptiveScope lib scope0;
          (r, s1) = (if scope = [] then RecordSignal lib now sig threshold s else RecordScopedSignal lib now scope sig threshold s) in
      (fst r, s1))"

text \<open>A signal and, when it escalates, the block-all flag of the scope.\<close>

definition signal_and_flag ::
  "'f session_libs \<Rightarrow> go_time \<Rightarrow> string \<Rightarrow> signal \<Rightarrow> 'f adaptive_config \<Rightarrow> 'f session \<Rightarrow> bool \<times> 'f session" where
  "signal_and_flag lib now scope sig c s =
     (let (escalated, s1) = recordScopedAdaptiveSignal lib now scope sig (ae_escalationThreshold c) s in
      (escalated,
       if escalated
       then SetScopedBlockAll lib scope (UpgradeAction [] (EffectiveEscalationLevel lib scope s1) (Some c) = ''block'') s1
       else s1))"

definition recordAdaptiveSignalForScope ::
  "'f session_libs \<Rightarrow> go_time \<Rightarrow> string \<Rightarrow> signal \<Rightarrow> 'f adaptive_config option \<Rightarrow> 'f \<Rightarrow> 'f session \<Rightarrow> 'f session" where
  "recordAdaptiveSignalForScope lib now scope0 sig adaptiveCfg threshold s =
     (let scope = normalizeAdaptiveScope lib scope0;
          (escalated, s1) = recordScopedAdaptiveSignal lib now scope sig threshold s in
      if escalated \<and> adaptiveCfg \<noteq> None
      then SetScopedBlockAll lib scope (UpgradeAction [] (EffectiveEscalationLevel lib scope s1) adaptiveCfg = ''block'') s1
      else s1)"

definition adaptiveBlockSignal :: "'f scan_result \<Rightarrow> bool \<Rightarrow> signal" where
  "adaptiveBlockSignal r severityWeighted =
     (if \<not> severityWeighted then SignalBlock
      else if rs_scanner r = ''entropy'' \<or> rs_scanner r = ''subdomain_entropy'' then SignalBlockLowSeverity
      else SignalBlock)"

definition emitAdaptiveRecovery :: "go_time \<Rightarrow> string \<Rightarrow> string \<Rightarrow> int \<Rightarrow> int \<Rightarrow> 'f session \<Rightarrow> 'f session" where
  "emitAdaptiveRecovery now scope reason from' to s =
     RecordEvent now \<lparr>sev_at = None, sev_kind = ''adaptive_deescalate'',
       sev_type = (if reason = [] then ''time_based_recovery'' else reason), sev_target = scope,
       sev_detail = EscalationLabel from' @ ''->'' @ EscalationLabel to, sev_severity = ''info''\<rparr> s"

definition trySessionRecovery :: "'f session_libs \<Rightarrow> go_time \<Rightarrow> 'f adaptive_config \<Rightarrow> 'f session \<Rightarrow> (bool \<times> string \<times> string) \<times> 'f session" where
  "trySessionRecovery lib now c s =
     (if \<not> ae_enabled c then ((False, [], []), s)
      else
        let ((changed, from', to), s1) = TryAutoRecover lib now (adaptiveLevelDuration (Some c)) (Some (adaptiveBlockAllCheck (Some c))) s in
        if changed then ((True, EscalationLabel from', EscalationLabel to), emitAdaptiveRecovery now [] ''time_based_recovery'' from' to s1)
        else ((False, [], []), s1))"

definition recordCleanForAdaptiveScope ::
  "'f session_libs \<Rightarrow> go_time \<Rightarrow> string \<Rightarrow> 'f adaptive_config \<Rightarrow> bool \<Rightarrow> string \<Rightarrow> string \<Rightarrow> 'f session \<Rightarrow> 'f session" where
  "recordCleanForAdaptiveScope lib now scope0 c eligibleForCleanRecovery ctxScope reason s =
     (if \<not> ae_enabled c then s
      else
        let scope = normalizeAdaptiveScope lib scope0 in
        if \<not> eligibleForCleanRecovery then RecordScopedClean lib scope (ae_decayPerCleanRequest c) s
        else
          let ((changed, from', to), s1) = RecordScopedCleanWithRecovery lib now scope (ae_decayPerCleanRequest c)
                (ae_cleanRequestsToDeescalate c) (Some (adaptiveBlockAllCheck (Some c))) s in
          if changed then emitAdaptiveRecovery now (if ctxScope = [] then scope else ctxScope) reason from' to s1 else s1)"

definition scope_airlock :: "'f session_libs \<Rightarrow> string \<Rightarrow> 'f session \<Rightarrow> airlock" where
  "scope_airlock lib scope0 s =
     (let scope = normalizeAdaptiveScope lib scope0 in
      if scope = [] then ss_airlock s
      else case getOrCreateScopeLocked lib scope s of
        (None, s1) \<Rightarrow> ss_airlock s1
      | (Some k, s1) \<Rightarrow> (case map_of (ss_scopes s1) k of Some st \<Rightarrow> as_airlock st | None \<Rightarrow> NewAirlockState))"

definition airlockTierForScope :: "'f session_libs \<Rightarrow> string \<Rightarrow> 'f session option \<Rightarrow> string \<times> 'f session option" where
  "airlockTierForScope lib scope so =
     (case so of None \<Rightarrow> (''none'', None)
      | Some s \<Rightarrow> (let tier = al_tier (scope_airlock lib scope s) in if tier = [] then ''none'' else tier,
                   Some (AirlockForScope lib scope (\<lambda>a. a) s)))"

section \<open>One request\<close>

text \<open>The signal a scan result gives; \<open>Inl\<close> says whether the request decays the score instead.\<close>

definition result_signal :: "'f session_libs \<Rightarrow> 'f activity_config \<Rightarrow> 'f session_activity_options \<Rightarrow> bool + signal" where
  "result_signal lib cfg r =
     (let res = so_result r in
      if IsAdaptiveNeutral res then Inl False
      else if IsConfigMismatch res then Inr SignalNearMiss
      else if \<not> rs_allowed res then Inr (adaptiveBlockSignal res (ac_severityWeighted cfg))
      else if fo_less (sl_floats lib) (fo_lit (sl_floats lib) 0) (rs_score res) then Inr SignalNearMiss
      else Inl (\<not> so_deferClean r))"

definition record_result ::
  "'f session_libs \<Rightarrow> go_time \<Rightarrow> 'f activity_config \<Rightarrow> 'f session_activity_options \<Rightarrow> 'f session \<Rightarrow> bool \<times> 'f session" where
  "record_result lib now cfg r s =
     (let c = ac_adaptive cfg; scope = activity_scope lib r in
      if \<not> ae_enabled c then (False, s)
      else case result_signal lib cfg r of
        Inr sig \<Rightarrow> signal_and_flag lib now scope sig c s
      | Inl clean \<Rightarrow> (False, if clean then recordCleanForAdaptiveScope lib now scope c False [] [] s else s))"

definition anomaly_step ::
  "'f session_libs \<Rightarrow> go_time \<Rightarrow> string \<Rightarrow> 'f adaptive_config \<Rightarrow> bool \<Rightarrow> anomaly \<Rightarrow> bool \<times> 'f session \<Rightarrow> bool \<times> 'f session" where
  "anomaly_step lib now scope c cooperative a = (\<lambda>(escalated, s).
     case signalForSessionAnomaly (an_type a) cooperative of
       None \<Rightarrow> (escalated, s)
     | Some sig \<Rightarrow>
         if \<not> an_scored a then (escalated, s)
         else let (e, s1) = signal_and_flag lib now scope sig c s in (escalated \<or> e, s1))"

definition record_anomalies ::
  "'f activity_libs \<Rightarrow> go_time \<Rightarrow> 'f activity_config \<Rightarrow> 'f session_activity_options \<Rightarrow> anomaly list \<Rightarrow> bool \<times> 'f session \<Rightarrow> bool \<times> 'f session" where
  "record_anomalies av now cfg r anomalies es =
     (let lib = av_session av; c = ac_adaptive cfg in
      if ae_enabled c \<and> \<not> IsAdaptiveNeutral (so_result r) \<and> \<not> isAdaptiveExempt lib (so_hostname r) (ac_exemptDomains cfg)
      then fold (anomaly_step lib now (activity_scope lib r) c (ac_cooperativeDownweight cfg \<and> av_cooperative av (so_userAgent r))) anomalies es
      else es)"

definition target_tier :: "airlock_triggers \<Rightarrow> int \<Rightarrow> string \<times> string" where
  "target_tier t level =
     (let label = EscalationLabel level in
      if label = ''elevated'' then (at_onElevated t, ''on_elevated'')
      else if label = ''high'' then (at_onHigh t, ''on_high'')
      else if label = ''critical'' then (at_onCritical t, ''on_critical'')
      else ([], []))"

definition airlock_trigger :: "'f session_libs \<Rightarrow> go_time \<Rightarrow> 'f activity_config \<Rightarrow> string \<Rightarrow> int \<Rightarrow> 'f session \<Rightarrow> 'f session" where
  "airlock_trigger lib now cfg scope level s =
     (let (tier, trigger) = target_tier (ac_triggers cfg) level in
      if tier = [] \<or> tier = ''none'' then s
      else
        let set_tier = SetTierWithProvenance now tier trigger ''airlock_triggers'';
            (changed, from', to) = fst (set_tier (scope_airlock lib scope s));
            s1 = AirlockForScope lib scope (\<lambda>a. snd (set_tier a)) s in
        if changed then airlock_event now ''airlock_enter'' scope from' to ''warn'' s1 else s1)"

definition anomaly_detail :: "session_profiling \<Rightarrow> anomaly \<Rightarrow> string" where
  "anomaly_detail p a =
     fmt_int (int (an_domains a)) @
     (if an_type a = ''domain_burst'' then '' new domains in '' else '' unique domains from IP in '') @
     fmt_int (sp_windowMinutes p) @ ''m window (threshold: '' @ fmt_int (sp_domainBurst p) @ '')''"

definition notable_event :: "string \<Rightarrow> string \<Rightarrow> string \<Rightarrow> string \<Rightarrow> string \<Rightarrow> session_event" where
  "notable_event kind typ target detail severity =
     \<lparr>sev_at = None, sev_kind = kind, sev_type = typ, sev_target = target, sev_detail = detail, sev_severity = severity\<rparr>"

text \<open>The loop over the anomalies: the events recorded and the anomaly that blocks.\<close>

fun anomaly_events ::
  "go_time \<Rightarrow> 'f activity_config \<Rightarrow> string \<Rightarrow> anomaly list \<Rightarrow> 'f session \<Rightarrow> anomaly option \<times> 'f session" where
  "anomaly_events now cfg hostname [] s = (None, s)"
| "anomaly_events now cfg hostname (a # as) s =
     (let s1 = RecordEvent now (notable_event ''anomaly'' (an_type a) hostname (anomaly_detail (ac_profiling cfg) a) ''warn'') s in
      if sp_anomalyAction (ac_profiling cfg) = ''block'' \<and> EnforceEnabled cfg then (Some a, s1)
      else anomaly_events now cfg hostname as s1)"

definition session_verdict :: "'f session_libs \<Rightarrow> 'f activity_config \<Rightarrow> string \<Rightarrow> 'f session \<Rightarrow> string option \<Rightarrow> session_result" where
  "session_verdict lib cfg scope s blocked =
     (let level = EffectiveEscalationLevel lib scope s in
      \<lparr>sq_blocked = (blocked \<noteq> None), sq_detail = (case blocked of Some d \<Rightarrow> d | None \<Rightarrow> []), sq_level = level,
       sq_autoRecoverAt = ScopedAdaptiveAutoRecoverAt lib scope (adaptiveLevelDuration (Some (ac_adaptive cfg))) s,
       sq_recoverHint = (level > 0)\<rparr>)"

text \<open>From the adaptive signals to the end.\<close>

definition activity_signals ::
  "'f activity_libs \<Rightarrow> go_time \<Rightarrow> 'f activity_config \<Rightarrow> 'f session_activity_options \<Rightarrow> anomaly list \<Rightarrow> 'f session \<Rightarrow> session_result \<times> 'f session" where
  "activity_signals av now cfg r anomalies s =
     (let lib = av_session av; scope = activity_scope lib r; hostname = so_hostname r;
          (escalated, s1) = record_anomalies av now cfg r anomalies (record_result lib now cfg r s);
          verdict = session_verdict lib cfg scope s1;
          s2 = (if ac_airlockEnabled cfg \<and> escalated then airlock_trigger lib now cfg scope (EffectiveEscalationLevel lib scope s1) s1 else s1);
          (blocking, s3) = anomaly_events now cfg hostname anomalies s2 in
      case blocking of
        Some a \<Rightarrow> (verdict (Some (''session anomaly: '' @ anomaly_detail (ac_profiling cfg) a)), s3)
      | None \<Rightarrow>
          (verdict None,
           if rs_allowed (so_result r) then s3
           else RecordEvent now (notable_event ''block'' [] hostname (rs_reason (so_result r)) ''critical'') s3))"

definition session_activity ::
  "'f activity_libs \<Rightarrow> go_time \<Rightarrow> 'f activity_config \<Rightarrow> 'f session_activity_options \<Rightarrow> string \<Rightarrow> anomaly list \<Rightarrow> 'f session \<Rightarrow> session_result \<times> 'f session" where
  "session_activity av now cfg r key anomalies s =
     (case av_baseline av (baselineAgentKeyForSessionKey key) s of
        None \<Rightarrow> activity_signals av now cfg r anomalies s
      | Some (action, detail) \<Rightarrow>
          let s1 = RecordEvent now (notable_event ''anomaly'' ''baseline_deviation'' (so_hostname r) detail ''warn'') s in
          if action = ''warn'' then activity_signals av now cfg r anomalies s1
          else (session_verdict (av_session av) cfg (activity_scope (av_session av) r) s (Some detail), s1))"


section \<open>Cross-request findings\<close>

text \<open>
  The signals of the cross-request checks (\<^verbatim>\<open>internal/proxy/cee.go\<close>), which go to the whole session. Their key is not the one
  of the request unless the agent's identity is bound or configured: a name the client declares itself does not count.
\<close>

record cee_result =
  cr_blocked :: bool
  cr_reason :: string
  cr_entropyHit :: bool
  cr_fragmentHit :: bool




definition cee_signals :: "'f session_libs \<Rightarrow> go_time \<Rightarrow> cee_result \<Rightarrow> 'f \<Rightarrow> 'f session \<Rightarrow> 'f session" where
  "cee_signals lib now result threshold s =
     (let s1 = (if cr_entropyHit result then snd (RecordSignal lib now SignalEntropyBudget threshold s) else s) in
      if cr_fragmentHit result then snd (RecordSignal lib now SignalFragmentDLP threshold s1) else s1)"



section \<open>Levels and tiers\<close>

definition level_at :: "string \<Rightarrow> 'f session \<Rightarrow> int" where
  "level_at k s = (case scope_lane k s of Some l \<Rightarrow> ln_escalationLevel l | None \<Rightarrow> 0)"

definition tier_at :: "string \<Rightarrow> 'f session \<Rightarrow> string" where
  "tier_at k s = (case map_of (ss_scopes s) k of Some st \<Rightarrow> al_tier (as_airlock st) | None \<Rightarrow> ''none'')"

text \<open>No level fell, no airlock moved.\<close>

definition levels_up :: "'f session \<Rightarrow> 'f session \<Rightarrow> bool" where
  "levels_up s s' \<longleftrightarrow> ln_escalationLevel (ss_lane s) \<le> ln_escalationLevel (ss_lane s') \<and> (\<forall>k. level_at k s \<le> level_at k s')"

definition same_tiers :: "'f session \<Rightarrow> 'f session \<Rightarrow> bool" where
  "same_tiers s s' \<longleftrightarrow> ss_airlock s' = ss_airlock s \<and> (\<forall>k. tier_at k s' = tier_at k s)"

definition rose :: "'f session \<Rightarrow> 'f session \<Rightarrow> bool" where
  "rose s s' \<longleftrightarrow> ln_escalationLevel (ss_lane s) < ln_escalationLevel (ss_lane s') \<or> (\<exists>k. level_at k s < level_at k s')"

lemma levels_up_refl [simp]: "levels_up s s" and same_tiers_refl [simp]: "same_tiers s s"
  by (simp_all add: levels_up_def same_tiers_def)

lemma levels_up_trans: "levels_up s t \<Longrightarrow> levels_up t u \<Longrightarrow> levels_up s u"
  unfolding levels_up_def by (meson order_trans)

lemma same_tiers_trans: "same_tiers s t \<Longrightarrow> same_tiers t u \<Longrightarrow> same_tiers s u"
  by (simp add: same_tiers_def)

lemma rose_up: "rose s t \<Longrightarrow> levels_up t u \<Longrightarrow> rose s u"
  unfolding rose_def levels_up_def by (meson less_le_trans)

lemma up_rose: "levels_up s t \<Longrightarrow> rose t u \<Longrightarrow> rose s u"
  unfolding rose_def levels_up_def by (meson le_less_trans)

lemma same_scopes:
  assumes "ss_scopes s' = ss_scopes s"
  shows "level_at k s' = level_at k s" "tier_at k s' = tier_at k s"
  using assms by (simp_all add: level_at_def tier_at_def scope_lane_def)

lemma RecordEvent_lanes [simp]:
  "ss_scopes (RecordEvent now e s) = ss_scopes s" "ss_lane (RecordEvent now e s) = ss_lane s" "ss_airlock (RecordEvent now e s) = ss_airlock s"
  "ss_globalSignalsAuthoritative (RecordEvent now e s) = ss_globalSignalsAuthoritative s"
  by (simp_all add: RecordEvent_def Let_def)

lemma airlock_event_fields [simp]:
  "ss_scopes (airlock_event now kd tg f t sv s) = ss_scopes s" "ss_lane (airlock_event now kd tg f t sv s) = ss_lane s"
  "ss_airlock (airlock_event now kd tg f t sv s) = ss_airlock s"
  "ss_globalSignalsAuthoritative (airlock_event now kd tg f t sv s) = ss_globalSignalsAuthoritative s"
  by (simp_all add: airlock_event_def)

lemma anomaly_events_fields [simp]:
  "ss_scopes (snd (anomaly_events now cfg h as s)) = ss_scopes s" "ss_lane (snd (anomaly_events now cfg h as s)) = ss_lane s"
  "ss_airlock (snd (anomaly_events now cfg h as s)) = ss_airlock s"
  "ss_globalSignalsAuthoritative (snd (anomaly_events now cfg h as s)) = ss_globalSignalsAuthoritative s"
  by (induction as arbitrary: s) (simp_all add: Let_def)

lemma same_view:
  assumes "ss_scopes s' = ss_scopes s" "ss_lane s' = ss_lane s" "ss_airlock s' = ss_airlock s"
  shows "levels_up s s'" "same_tiers s s'"
  using assms same_scopes [OF assms(1)] by (simp_all add: levels_up_def same_tiers_def)

lemma getOrCreate_view:
  "level_at k (snd (getOrCreateScopeLocked lib k' s)) = level_at k s" "tier_at k (snd (getOrCreateScopeLocked lib k' s)) = tier_at k s"
  "ss_airlock (snd (getOrCreateScopeLocked lib k' s)) = ss_airlock s"
  by (auto simp: getOrCreateScopeLocked_def level_at_def tier_at_def scope_lane_def map_add_def new_scope_def new_lane_def NewAirlockState_def
      Let_def split: option.splits)

lemma update_scope_view:
  "ss_airlock (update_scope k f s) = ss_airlock s" "ss_lane (update_scope k f s) = ss_lane s"
  "ss_globalSignalsAuthoritative (update_scope k f s) = ss_globalSignalsAuthoritative s"
  "k' \<noteq> k \<Longrightarrow> map_of (ss_scopes (update_scope k f s)) k' = map_of (ss_scopes s) k'"
  "length (ss_scopes (update_scope k f s)) = length (ss_scopes s)"
  by (simp_all add: map_of_update_scope option.map_id [unfolded id_def]) (simp_all add: update_scope_def)

lemma on_scope_lane_view:
  "level_at k' (on_scope_lane k f s) = (if k' = k then (case scope_lane k s of Some l \<Rightarrow> ln_escalationLevel (f l) | None \<Rightarrow> 0) else level_at k' s)"
  "tier_at k' (on_scope_lane k f s) = tier_at k' s" "ss_airlock (on_scope_lane k f s) = ss_airlock s"
  by (auto simp: level_at_def tier_at_def scope_lane_def on_scope_lane_def map_of_update_scope update_scope_view(1) split: option.splits)

lemma on_lane_view [simp]:
  "level_at k (snd (on_lane f s)) = level_at k s" "tier_at k (snd (on_lane f s)) = tier_at k s" "ss_airlock (snd (on_lane f s)) = ss_airlock s"
  by (rule same_scopes, simp)+ (simp add: on_lane_def split: prod.splits)

lemma signal_level:
  "ln_escalationLevel (snd (recordAdaptiveSignalFields fo now sig th l)) =
   ln_escalationLevel l + (if fst (fst (recordAdaptiveSignalFields fo now sig th l)) then 1 else 0)"
  by (simp add: recordAdaptiveSignalFields_def Let_def)

section \<open>The airlock is triggered by escalation only\<close>

lemma flag_view [simp]:
  "level_at k (s\<lparr>ss_globalSignalsAuthoritative := b\<rparr>) = level_at k s" "tier_at k (s\<lparr>ss_globalSignalsAuthoritative := b\<rparr>) = tier_at k s"
  "level_at k (s\<lparr>ss_lane := l\<rparr>) = level_at k s" "tier_at k (s\<lparr>ss_lane := l\<rparr>) = tier_at k s"
  "level_at k (s\<lparr>ss_airlock := a\<rparr>) = level_at k s" "tier_at k (s\<lparr>ss_airlock := a\<rparr>) = tier_at k s"
  by (simp_all add: level_at_def tier_at_def scope_lane_def)

text \<open>What a step did to levels and tiers, given whether it reported an escalation.\<close>

definition escalates :: "bool \<Rightarrow> 'f session \<Rightarrow> 'f session \<Rightarrow> bool" where
  "escalates e s s' \<longleftrightarrow> levels_up s s' \<and> same_tiers s s' \<and> (e \<longrightarrow> rose s s')"

lemma escalates_refl [simp]: "escalates False s s"
  by (simp add: escalates_def)

lemma escalates_trans: "escalates e s t \<Longrightarrow> escalates e' t u \<Longrightarrow> escalates (e \<or> e') s u"
  unfolding escalates_def by (blast intro: levels_up_trans same_tiers_trans rose_up up_rose)

lemma escalates_same: "escalates e s t \<Longrightarrow> levels_up t u \<Longrightarrow> same_tiers t u \<Longrightarrow> escalates e s u"
  unfolding escalates_def by (blast intro: levels_up_trans same_tiers_trans rose_up)

lemma global_signal:
  "escalates (fst (fst (on_lane (recordAdaptiveSignalFields fo now sig th) s))) s (snd (on_lane (recordAdaptiveSignalFields fo now sig th) s))"
  by (auto simp: escalates_def levels_up_def same_tiers_def rose_def signal_level) (auto simp: on_lane_def split: prod.splits)

lemma scope_lane_escalates:
  assumes "\<And>l. ln_escalationLevel l \<le> ln_escalationLevel (f l)"
  shows "escalates (case scope_lane k s of Some l \<Rightarrow> ln_escalationLevel l < ln_escalationLevel (f l) | None \<Rightarrow> False) s (on_scope_lane k f s)"
proof -
  have "level_at k' s \<le> level_at k' (on_scope_lane k f s)" for k'
    using assms by (cases "k' = k") (auto simp: on_scope_lane_view level_at_def [of k s] split: option.splits)
  moreover have "rose s (on_scope_lane k f s)" if "scope_lane k s = Some l" "ln_escalationLevel l < ln_escalationLevel (f l)" for l
    using that unfolding rose_def by (intro disjI2 exI [of _ k]) (simp add: on_scope_lane_view level_at_def [of k s])
  ultimately show ?thesis by (auto simp: escalates_def levels_up_def same_tiers_def on_scope_lane_view split: option.splits)
qed

lemma RecordScopedSignal_escalates:
  "escalates (fst (fst (RecordScopedSignal lib now sc sig th s))) s (snd (RecordScopedSignal lib now sc sig th s))"
proof -
  let ?rec = "recordAdaptiveSignalFields (sl_floats lib) now sig th"
  let ?flag = "\<lambda>s. s\<lparr>ss_globalSignalsAuthoritative := True\<rparr>"
  have flag: "escalates False s (?flag s)" for s :: "'a session" by (simp add: escalates_def levels_up_def same_tiers_def)
  let ?get = "getOrCreateScopeLocked lib (normalizeAdaptiveScope lib sc) s"
  have get: "escalates False s (snd ?get)" by (simp add: escalates_def levels_up_def same_tiers_def getOrCreate_view)
  have glob: "escalates (fst (fst (on_lane ?rec (?flag t)))) t (snd (on_lane ?rec (?flag t)))" for t :: "'a session"
    using escalates_trans [OF flag global_signal] by simp
  show ?thesis
  proof (cases "normalizeAdaptiveScope lib sc = []")
    case True
    then show ?thesis using glob [of s] by (simp add: RecordScopedSignal_def RecordSignal_def)
  next
    case scoped: False
    show ?thesis
    proof (cases ?get)
      case (Pair ko s1)
      show ?thesis
      proof (cases ko)
        case None
        then show ?thesis using escalates_trans [OF get glob] scoped Pair by (simp add: RecordScopedSignal_def)
      next
        case (Some k)
        let ?e = "case scope_lane k s1 of Some l \<Rightarrow> fst (fst (?rec l)) | None \<Rightarrow> False"
        have up: "ln_escalationLevel l \<le> ln_escalationLevel (snd (?rec l))"
          and lt: "ln_escalationLevel l < ln_escalationLevel (snd (?rec l)) \<longleftrightarrow> fst (fst (?rec l))" for l
          by (simp_all add: signal_level)
        have "escalates ?e s1 (on_scope_lane k (\<lambda>l. snd (?rec l)) s1)"
          using scope_lane_escalates [of "\<lambda>l. snd (?rec l)" k s1, OF up] by (simp only: lt)
        moreover have "escalates False t (snd (on_lane ?rec t))" for t :: "'a session"
          using global_signal [of "sl_floats lib" now sig th t] by (simp add: escalates_def)
        ultimately have "escalates ?e s1 (snd (on_lane ?rec (on_scope_lane k (\<lambda>l. snd (?rec l)) s1)))"
          using escalates_trans by fastforce
        then have "escalates ?e s (snd (on_lane ?rec (on_scope_lane k (\<lambda>l. snd (?rec l)) s1)))"
          using escalates_trans [OF get] Pair by fastforce
        then show ?thesis using scoped Pair Some by (simp add: RecordScopedSignal_def Let_def split: option.splits)
      qed
    qed
  qed
qed

lemma SetScopedBlockAll_view: "levels_up s (SetScopedBlockAll lib sc b s)" "same_tiers s (SetScopedBlockAll lib sc b s)"
proof -
  let ?get = "getOrCreateScopeLocked lib (normalizeAdaptiveScope lib sc) s"
  have get: "escalates False s (snd ?get)" by (simp add: escalates_def levels_up_def same_tiers_def getOrCreate_view)
  have flag: "escalates False t (SetBlockAll b t)" for t :: "'a session"
    by (simp add: escalates_def levels_up_def same_tiers_def SetBlockAll_def)
  have lane: "escalates False t (on_scope_lane k (\<lambda>l. l\<lparr>ln_atBlockAll := b\<rparr>) t)" for k and t :: "'a session"
    using scope_lane_escalates [of "\<lambda>l. l\<lparr>ln_atBlockAll := b\<rparr>" k t] by (simp split: option.splits)
  have "escalates False s (SetScopedBlockAll lib sc b s)"
    using flag [of s] escalates_trans [OF get flag] escalates_trans [OF get lane]
    by (auto simp: SetScopedBlockAll_def Let_def split: prod.splits option.splits)
  then show "levels_up s (SetScopedBlockAll lib sc b s)" "same_tiers s (SetScopedBlockAll lib sc b s)" by (simp_all add: escalates_def)
qed

lemma signal_and_flag_escalates: "escalates (fst (signal_and_flag lib now sc sig c s)) s (snd (signal_and_flag lib now sc sig c s))"
proof -
  let ?rec = "recordScopedAdaptiveSignal lib now sc sig (ae_escalationThreshold c) s"
  have "RecordScopedSignal lib now sc sig th s = RecordSignal lib now sig th s" if "normalizeAdaptiveScope lib sc = []" for th
    using that by (simp add: RecordScopedSignal_def)
  then have "escalates (fst ?rec) s (snd ?rec)"
    using RecordScopedSignal_escalates [of lib now sc sig "ae_escalationThreshold c" s]
      RecordScopedSignal_escalates [of lib now "normalizeAdaptiveScope lib sc" sig "ae_escalationThreshold c" s]
    by (auto simp: recordScopedAdaptiveSignal_def Let_def split: prod.splits)
  then show ?thesis using SetScopedBlockAll_view escalates_same by (fastforce simp: signal_and_flag_def Let_def split: prod.splits)
qed

lemma RecordScopedClean_view: "escalates False s (RecordScopedClean lib sc d s)"
proof -
  have clean: "escalates False t (RecordClean lib d t)" for t :: "'a session"
    by (simp add: escalates_def levels_up_def same_tiers_def RecordClean_def decayAdaptiveScore_def Let_def)
  have lane: "escalates False t (on_scope_lane k (decayAdaptiveScore (sl_floats lib) d) t)" for k and t :: "'a session"
    using scope_lane_escalates [of "decayAdaptiveScore (sl_floats lib) d" k t] by (simp add: decayAdaptiveScore_def Let_def split: option.splits)
  show ?thesis using clean escalates_trans [OF lane clean] by (auto simp: RecordScopedClean_def Let_def)
qed

lemma record_result_escalates: "escalates (fst (record_result lib now cfg r s)) s (snd (record_result lib now cfg r s))"
  using signal_and_flag_escalates RecordScopedClean_view
  by (auto simp: record_result_def recordCleanForAdaptiveScope_def Let_def split: sum.splits)

lemma anomaly_step_escalates:
  "escalates e s t \<Longrightarrow> escalates (fst (anomaly_step lib now sc c co a (e, t))) s (snd (anomaly_step lib now sc c co a (e, t)))"
  using escalates_trans [OF _ signal_and_flag_escalates [where lib = lib and now = now and sc = sc and c = c], of e s t]
  by (auto simp: anomaly_step_def case_prod_unfold Let_def split: option.splits)

lemma record_anomalies_escalates:
  assumes "escalates e s t"
  shows "escalates (fst (record_anomalies av now cfg r as (e, t))) s (snd (record_anomalies av now cfg r as (e, t)))"
proof -
  have "escalates (fst (fold (anomaly_step lib now sc c co) as (e, t))) s (snd (fold (anomaly_step lib now sc c co) as (e, t)))" for lib sc c co
    using assms
  proof (induction as arbitrary: e t)
    case (Cons a as)
    have "escalates (fst (anomaly_step lib now sc c co a (e, t))) s (snd (anomaly_step lib now sc c co a (e, t)))"
      using Cons.prems by (rule anomaly_step_escalates)
    then show ?case using Cons.IH by (cases "anomaly_step lib now sc c co a (e, t)") simp
  qed simp
  then show ?thesis using assms by (simp add: record_anomalies_def Let_def)
qed

lemma AirlockForScope_levels: "level_at k (AirlockForScope lib sc f s) = level_at k s" "ss_lane (AirlockForScope lib sc f s) = ss_lane s"
proof -
  have lane: "level_at k (update_scope k' (\<lambda>st. st\<lparr>as_airlock := f (as_airlock st)\<rparr>) t) = level_at k t" for k' and t :: "'a session"
    by (cases "map_of (ss_scopes t) k") (simp_all add: level_at_def scope_lane_def map_of_update_scope)
  obtain ko s1 where get: "getOrCreateScopeLocked lib (normalizeAdaptiveScope lib sc) s = (ko, s1)" by fastforce
  have v: "level_at k s1 = level_at k s" using getOrCreate_view(1) [of k lib "normalizeAdaptiveScope lib sc" s] get by simp
  have l: "ss_lane s1 = ss_lane s" using getOrCreate_fields(1) get by (metis snd_conv)
  show "level_at k (AirlockForScope lib sc f s) = level_at k s" "ss_lane (AirlockForScope lib sc f s) = ss_lane s"
    by (cases ko; simp add: AirlockForScope_def get v l lane update_scope_view(2) Let_def)+
qed

lemma airlock_trigger_levels: "levels_up s (airlock_trigger lib now cfg sc level s)"
  by (auto simp: airlock_trigger_def levels_up_def AirlockForScope_levels Let_def split: prod.splits)
    (simp add: same_scopes [OF airlock_event_fields(1)] AirlockForScope_levels)

text \<open>The escalation the request reported, and the session after its signals and the airlock.\<close>

definition signalled :: "'f activity_libs \<Rightarrow> go_time \<Rightarrow> 'f activity_config \<Rightarrow> 'f session_activity_options \<Rightarrow> anomaly list \<Rightarrow> 'f session \<Rightarrow> bool \<times> 'f session" where
  "signalled av now cfg r as s = record_anomalies av now cfg r as (record_result (av_session av) now cfg r s)"

definition quarantining :: "'f activity_libs \<Rightarrow> go_time \<Rightarrow> 'f activity_config \<Rightarrow> 'f session_activity_options \<Rightarrow> bool \<times> 'f session \<Rightarrow> 'f session" where
  "quarantining av now cfg r es =
     (let lib = av_session av; scope = activity_scope lib r in
      if ac_airlockEnabled cfg \<and> fst es then airlock_trigger lib now cfg scope (EffectiveEscalationLevel lib scope (snd es)) (snd es) else snd es)"

lemma signalled_escalates: "escalates (fst (signalled av now cfg r as s)) s (snd (signalled av now cfg r as s))"
  using record_anomalies_escalates [OF record_result_escalates, of av now cfg r as "av_session av" now cfg r s] by (simp add: signalled_def)

lemma activity_signals_end:
  "ss_scopes (snd (activity_signals av now cfg r as s)) = ss_scopes (quarantining av now cfg r (signalled av now cfg r as s)) \<and>
   ss_lane (snd (activity_signals av now cfg r as s)) = ss_lane (quarantining av now cfg r (signalled av now cfg r as s)) \<and>
   ss_airlock (snd (activity_signals av now cfg r as s)) = ss_airlock (quarantining av now cfg r (signalled av now cfg r as s)) \<and>
   ss_globalSignalsAuthoritative (snd (activity_signals av now cfg r as s)) =
     ss_globalSignalsAuthoritative (quarantining av now cfg r (signalled av now cfg r as s))"
  by (simp add: activity_signals_def signalled_def quarantining_def case_prod_unfold Let_def split: option.splits)

lemma activity_signals_edge: "same_tiers s (snd (activity_signals av now cfg r as s)) \<or> rose s (snd (activity_signals av now cfg r as s))"
proof (cases "ac_airlockEnabled cfg \<and> fst (signalled av now cfg r as s)")
  case True
  then have "rose s (quarantining av now cfg r (signalled av now cfg r as s))"
    using signalled_escalates [of av now cfg r as s] by (auto simp: quarantining_def escalates_def Let_def intro: rose_up airlock_trigger_levels)
  then show ?thesis using rose_up [OF _ same_view(1)] activity_signals_end by metis
next
  case False
  then have "same_tiers s (quarantining av now cfg r (signalled av now cfg r as s))"
    using signalled_escalates [of av now cfg r as s] by (auto simp: quarantining_def escalates_def Let_def)
  then show ?thesis using same_tiers_trans [OF _ same_view(2)] activity_signals_end by metis
qed

text \<open>
  C14. The airlock is entered on the edge of an escalation only. Whatever a request does, a destination or the
  session moves to another airlock tier only when the request raised an escalation level; a client that
  keeps retrying at an elevated level cannot re-arm the airlock, so its timers can release it.
\<close>

theorem airlock_edge_triggered:
  assumes "s' = snd (session_activity av now cfg r key as s)"
    and "al_tier (ss_airlock s') \<noteq> al_tier (ss_airlock s) \<or> tier_at k s' \<noteq> tier_at k s"
  shows "ln_escalationLevel (ss_lane s) < ln_escalationLevel (ss_lane s') \<or> (\<exists>k. level_at k s < level_at k s')"
proof -
  let ?e = "\<lambda>d. RecordEvent now (notable_event ''anomaly'' ''baseline_deviation'' (so_hostname r) d ''warn'') s"
  have ev: "tier_at k (?e d) = tier_at k s" "level_at j (?e d) = level_at j s" for d j by (rule same_scopes, simp)+
  show ?thesis
  proof (cases "av_baseline av (baselineAgentKeyForSessionKey key) s")
    case None
    then show ?thesis using activity_signals_edge [of s av now cfg r as] assms by (auto simp: session_activity_def rose_def same_tiers_def)
  next
    case (Some p)
    show ?thesis
      using activity_signals_edge [of "?e (snd p)" av now cfg r as] assms Some ev
      by (cases p) (auto simp: session_activity_def Let_def rose_def same_tiers_def split: if_splits)
  qed
qed

definition demo_activity_libs :: "int activity_libs" where
  "demo_activity_libs = \<lparr>av_session = demo_session_libs, av_baseline = (\<lambda>_ _. None), av_cooperative = (\<lambda>_. False)\<rparr>"

definition demo_activity_config :: "int activity_config" where
  "demo_activity_config = \<lparr>ac_profiling = demo_profile, ac_adaptive = demo_adaptive\<lparr>ae_escalationThreshold := 300\<rparr>, ac_severityWeighted = False, ac_cooperativeDownweight = False,
     ac_exemptDomains = [], ac_airlockEnabled = True, ac_triggers = \<lparr>at_onElevated = ''hard'', at_onHigh = ''hard'', at_onCritical = ''drain''\<rparr>,
     ac_enforce = None\<rparr>"

definition refused :: "string \<Rightarrow> int session_activity_options" where
  "refused host = \<lparr>so_clientIP = ''10.0.0.1'', so_agent = ''agent'', so_hostname = host, so_scope = [], so_userAgent = [],
     so_result = \<lparr>rs_allowed = False, rs_reason = ''dlp'', rs_scanner = ''dlp'', rs_score = 1, rs_class = ClassThreat\<rparr>, so_deferClean = False\<rparr>"

lemma demo_destinations [simp]:
  "normalizeAdaptiveScope demo_session_libs ''destination:a.test'' = ''destination:a.test''"
  "normalizeAdaptiveScope demo_session_libs ''destination:b.test'' = ''destination:b.test''"
  "normalizeAdaptiveScope demo_session_libs [] = []"
proof -
  have "TrimSpace [] = []" by code_simp
  then show "normalizeAdaptiveScope demo_session_libs [] = []" by (simp add: normalizeAdaptiveScope_def ToLower_def is_ascii_def)
qed (simp_all add: normalizeAdaptiveScope_def demo_session_libs_def ToLower_def is_ascii_def ascii_lower_def TrimSpace_plain plain_char_def)

lemma refused_scope [simp]: "activity_scope demo_session_libs (refused ''a.test'') = ''destination:a.test''"
  by (simp add: activity_scope_def refused_def adaptiveScopeForHost_def Let_def)

lemma demo_floats: "sl_floats demo_session_libs = int_ops" by (simp add: demo_session_libs_def)

lemma demo_signal:
  "signal_and_flag demo_session_libs 5 ''destination:a.test'' SignalBlock (ac_adaptive demo_activity_config) demo_session =
   (True, demo_session\<lparr>ss_lane := (new_lane int_ops)\<lparr>ln_threatScore := 300, ln_escalationLevel := 1, ln_currentThreshold := 600, ln_lastEscalation := Some 5\<rparr>,
      ss_scopes := [(''destination:a.test'', \<lparr>as_lane = (new_lane int_ops)\<lparr>ln_threatScore := 300, ln_escalationLevel := 1, ln_currentThreshold := 600,
         ln_lastEscalation := Some 5\<rparr>, as_airlock = NewAirlockState\<rparr>)]\<rparr>)"
  by (simp add: signal_and_flag_def recordScopedAdaptiveSignal_def RecordScopedSignal_def getOrCreateScopeLocked_def demo_session_def new_session_def
      maxAdaptiveScopes_def new_scope_def demo_floats on_lane_def on_scope_lane_def update_scope_def scope_lane_def recordAdaptiveSignalFields_def new_lane_def
      int_ops_def demo_activity_config_def demo_adaptive_def SetScopedBlockAll_def EffectiveEscalationLevel_def UpgradeAction_def Let_def)

lemma demo_signalled:
  "signalled demo_activity_libs 5 demo_activity_config (refused ''a.test'') [] demo_session =
   signal_and_flag demo_session_libs 5 ''destination:a.test'' SignalBlock (ac_adaptive demo_activity_config) demo_session"
  by (simp add: signalled_def record_result_def record_anomalies_def demo_activity_libs_def result_signal_def IsAdaptiveNeutral_def IsConfigMismatch_def
      refused_def [THEN arg_cong [where f = so_result]] adaptiveBlockSignal_def demo_activity_config_def demo_adaptive_def Let_def)

lemma demo_quarantine:
  "tier_at ''destination:a.test'' (snd (session_activity demo_activity_libs 5 demo_activity_config (refused ''a.test'') ''agent|10.0.0.1'' [] demo_session)) = ''hard''"
proof -
  let ?x = "signalled demo_activity_libs 5 demo_activity_config (refused ''a.test'') [] demo_session"
  have lib: "av_session demo_activity_libs = demo_session_libs" "av_baseline demo_activity_libs = (\<lambda>_ _. None)" by (simp_all add: demo_activity_libs_def)
  have "tier_at ''destination:a.test'' (quarantining demo_activity_libs 5 demo_activity_config (refused ''a.test'') ?x) = ''hard''"
    unfolding demo_signalled demo_signal
    by (simp add: quarantining_def lib demo_activity_config_def airlock_trigger_def target_tier_def EscalationLabel_def escalationLabels_def
        EffectiveEscalationLevel_def scope_lane_def scope_airlock_def AirlockForScope_def getOrCreateScopeLocked_def update_scope_def
        airlock_event_def RecordEvent_def tier_at_def demo_session_def new_session_def new_lane_def airlock_defs NewAirlockState_def Let_def)
  then show ?thesis
    using activity_signals_end [of demo_activity_libs 5 demo_activity_config "refused ''a.test''" "[]" demo_session]
    by (simp add: session_activity_def lib tier_at_def)
qed

theorem airlock_edge_triggered_witness:
  "let s' = snd (session_activity demo_activity_libs 5 demo_activity_config (refused ''a.test'') ''agent|10.0.0.1'' [] demo_session) in
   tier_at ''destination:a.test'' s' = ''hard'' \<and>
   (ln_escalationLevel (ss_lane demo_session) < ln_escalationLevel (ss_lane s') \<or> (\<exists>k. level_at k demo_session < level_at k s'))"
  using airlock_edge_triggered [OF refl, of demo_activity_libs 5 demo_activity_config "refused ''a.test''" "''agent|10.0.0.1''" "[]" demo_session "''destination:a.test''"]
    demo_quarantine by (simp add: Let_def tier_at_def demo_session_def new_session_def)

section \<open>One destination does not affect another\<close>
























lemma recovery_scopes [simp]:
  "ss_scopes (snd (trySessionRecovery lib now c s)) = ss_scopes s"
  "ss_globalSignalsAuthoritative (snd (trySessionRecovery lib now c s)) = ss_globalSignalsAuthoritative s"
  by (simp_all add: trySessionRecovery_def TryAutoRecover_def emitAdaptiveRecovery_def case_prod_unfold Let_def)

lemma RecordRequest_scopes [simp]:
  "ss_scopes (snd (RecordRequest now dm cfg s)) = ss_scopes s"
  "ss_globalSignalsAuthoritative (snd (RecordRequest now dm cfg s)) = ss_globalSignalsAuthoritative s"
  by (simp_all add: RecordRequest_def Let_def)


















text \<open>
  A cross-request finding ends the containment: once it is recorded, the level of the session applies to every destination, and a
  later signal of one destination, which is mirrored there, can raise the level of all the others.
\<close>

lemma mirrored_signal:
  "ss_globalSignalsAuthoritative s \<Longrightarrow> ss_globalSignalsAuthoritative (snd (RecordScopedSignal lib now a sig th s)) \<and>
   ss_lane (snd (RecordScopedSignal lib now a sig th s)) = snd (recordAdaptiveSignalFields (sl_floats lib) now sig th (ss_lane s))"
  by (auto simp: RecordScopedSignal_def RecordSignal_def on_lane_def on_scope_lane_def update_scope_view getOrCreateScopeLocked_def
      case_prod_unfold Let_def)

theorem cross_request_finding_spreads:
  assumes "cr_entropyHit res \<or> cr_fragmentHit res" "s1 = cee_signals lib now res th s"
    and "fst (fst (recordAdaptiveSignalFields (sl_floats lib) now' sig th (ss_lane s1)))"
  shows "EffectiveEscalationLevel lib b (snd (RecordScopedSignal lib now' a sig th s1)) > ln_escalationLevel (ss_lane s1)"
proof -
  have "ss_globalSignalsAuthoritative s1" using assms(1) by (auto simp: assms(2) cee_signals_def RecordSignal_def on_lane_def Let_def split: prod.splits)
  from mirrored_signal [OF this, of lib now' a sig th] show ?thesis
    using assms(3) signal_level [of "sl_floats lib" now' sig th "ss_lane s1"] by (simp add: EffectiveEscalationLevel_def Let_def)
qed

section \<open>Results that say nothing about the client\<close>

text \<open>A request that was rate limited, failed to resolve or carried an exempted token leaves scores, levels and airlocks alone.\<close>

lemma neutral_result_scores_nothing:
  assumes "IsAdaptiveNeutral (so_result r)" "s' = snd (session_activity av now cfg r key as s)"
  shows "ss_lane s' = ss_lane s \<and> ss_scopes s' = ss_scopes s \<and> ss_airlock s' = ss_airlock s"
proof -
  have "signalled av now cfg r as t = (False, t)" for t
    using assms(1) by (simp add: signalled_def record_result_def record_anomalies_def result_signal_def Let_def)
  then have "ss_lane (snd (activity_signals av now cfg r as t)) = ss_lane t \<and> ss_scopes (snd (activity_signals av now cfg r as t)) = ss_scopes t \<and>
      ss_airlock (snd (activity_signals av now cfg r as t)) = ss_airlock t" for t
    using activity_signals_end [of av now cfg r as t] by (simp add: quarantining_def Let_def)
  then show ?thesis using assms(2) by (auto simp: session_activity_def Let_def split: option.splits)
qed

text \<open>The other request handlers record a signal as this one does, and reading a tier moves none.\<close>

lemma signal_paths_agree:
  "recordAdaptiveSignalForScope lib now sc sig (Some c) (ae_escalationThreshold c) s =
   snd (signal_and_flag lib now (normalizeAdaptiveScope lib sc) sig c s)"
  by (simp add: recordAdaptiveSignalForScope_def signal_and_flag_def case_prod_unfold Let_def)

lemma reading_tier_moves_none: "airlockTierForScope lib sc (Some s) = (t, Some s') \<Longrightarrow> same_tiers s s'"
proof -
  assume "airlockTierForScope lib sc (Some s) = (t, Some s')"
  then have s': "s' = AirlockForScope lib sc (\<lambda>a. a) s" by (simp add: airlockTierForScope_def)
  have upd: "tier_at k (update_scope k' (\<lambda>st. st) u) = tier_at k u" for k k' and u :: "'a session"
    by (cases "map_of (ss_scopes u) k") (simp_all add: tier_at_def map_of_update_scope)
  obtain ko s1 where get: "getOrCreateScopeLocked lib (normalizeAdaptiveScope lib sc) s = (ko, s1)" by fastforce
  have "tier_at k s1 = tier_at k s" for k using getOrCreate_view(2) [of k lib "normalizeAdaptiveScope lib sc" s] get by simp
  moreover have "ss_airlock s1 = ss_airlock s" using getOrCreate_view(3) get by (metis snd_conv)
  ultimately show ?thesis by (cases ko) (auto simp: s' same_tiers_def AirlockForScope_def get upd update_scope_view(1) Let_def)
qed


end
