(* ===== verification/ToolDigest.thy ===== *)
theory ToolDigest
  imports Prelude "HOL-Library.Finite_Map"
begin

text \<open>
  A tool definition of a tools/list response and its two digests (\<^verbatim>\<open>ToolDef\<close> and \<^verbatim>\<open>hashTool\<close> of
  \<^verbatim>\<open>internal/mcp/tools/tools.go\<close>, \<^verbatim>\<open>structuralDigest\<close> of \<^verbatim>\<open>drift_cues.go\<close>, \<^verbatim>\<open>ToolDigestRaw\<close> and its helpers in
  \<^verbatim>\<open>internal/mcp/provenance/sign.go\<close>). A JSON value is what \<^verbatim>\<open>encoding/json\<close> decodes it to with \<^verbatim>\<open>UseNumber\<close>: objects are
  finite maps, so that neither the order of keys nor white space counts, and \<^verbatim>\<open>json.Marshal\<close>, which sorts keys, prints a
  function of it. The digest of a value (SHA-256, in hex, of the text \<^verbatim>\<open>json.Marshal\<close> gives) is an argument, and so is
  \<^verbatim>\<open>foldName\<close>, by which \<^verbatim>\<open>encoding/json\<close> matches a key with a field of a structure regardless of case.
\<close>

section \<open>Values\<close>

datatype jany =
    AnyNull
  | AnyBool bool
  | AnyNumber string
  | AnyString string
  | AnyList "jany list"
  | AnyMap "(string, jany) fmap"

text \<open>An object in the order of its text; of two members with one key a map keeps the last.\<close>

type_synonym members = "(string \<times> jany) list"

definition decoded :: "members \<Rightarrow> (string, jany) fmap" where
  "decoded ms = fmap_of_list (rev ms)"

record tool_def =
  tdf_name :: string
  tdf_desc :: string
  tdf_schema :: "jany option"
  tdf_raw :: members

text \<open>
  \<^verbatim>\<open>ToolDef.UnmarshalJSON\<close>. A field takes every member whose key folds to its name: \<^verbatim>\<open>null\<close> leaves a string field as it is and
  any other value than a string is an error, while \<^verbatim>\<open>json.RawMessage\<close> takes all values. Definitions that are scanned are decoded
  from a response, so their raw text is never empty.
\<close>

fun string_field :: "string \<Rightarrow> jany list \<Rightarrow> string option" where
  "string_field s [] = Some s"
| "string_field s (AnyNull # vs) = string_field s vs"
| "string_field s (AnyString t # vs) = string_field t vs"
| "string_field s (v # vs) = None"

definition field_values :: "(string \<Rightarrow> string) \<Rightarrow> string \<Rightarrow> members \<Rightarrow> jany list" where
  "field_values foldName name ms = map snd (filter (\<lambda>(k, v). foldName k = foldName name) ms)"

definition UnmarshalJSON :: "(string \<Rightarrow> string) \<Rightarrow> members \<Rightarrow> tool_def option" where
  "UnmarshalJSON foldName ms =
     (case (string_field [] (field_values foldName ''name'' ms), string_field [] (field_values foldName ''description'' ms)) of
        (Some name, Some desc) \<Rightarrow>
          let schemas = field_values foldName ''inputSchema'' ms in
          Some \<lparr>tdf_name = name, tdf_desc = desc, tdf_schema = (if schemas = [] then None else Some (last schemas)), tdf_raw = ms\<rparr>
      | _ \<Rightarrow> None)"

section \<open>Digests\<close>

definition metaKey :: string where
  "metaKey = ''com.pipelock/provenance''"

definition default_field :: "string \<Rightarrow> jany \<Rightarrow> (string, jany) fmap \<Rightarrow> (string, jany) fmap" where
  "default_field k v m = (case fmlookup m k of None \<Rightarrow> fmupd k v m | Some _ \<Rightarrow> m)"

definition toolFieldsRaw :: "members \<Rightarrow> (string, jany) fmap" where
  "toolFieldsRaw raw =
     default_field ''inputSchema'' AnyNull (default_field ''description'' (AnyString []) (default_field ''name'' (AnyString []) (decoded raw)))"

text \<open>\<open>None\<close> when nothing is left to keep; a JSON null decodes to an empty map.\<close>

definition stripProvenanceMeta :: "jany \<Rightarrow> jany option" where
  "stripProvenanceMeta v =
     (case v of
        AnyMap meta \<Rightarrow> let rest = fmdrop metaKey meta in if fmdom rest = {||} then None else Some (AnyMap rest)
      | AnyNull \<Rightarrow> None
      | _ \<Rightarrow> Some v)"

definition digestToolFields :: "(string, jany) fmap \<Rightarrow> (string, jany) fmap" where
  "digestToolFields fs =
     (case fmlookup fs ''_meta'' of
        None \<Rightarrow> fs
      | Some v \<Rightarrow> (case stripProvenanceMeta v of None \<Rightarrow> fmdrop ''_meta'' fs | Some w \<Rightarrow> fmupd ''_meta'' w fs))"

definition toolDigestRaw :: "(jany \<Rightarrow> string) \<Rightarrow> members \<Rightarrow> string" where
  "toolDigestRaw digest raw = digest (AnyMap (digestToolFields (toolFieldsRaw raw)))"

definition hashTool :: "(jany \<Rightarrow> string) \<Rightarrow> tool_def \<Rightarrow> string" where
  "hashTool digest t = toolDigestRaw digest (tdf_raw t)"

definition canonicalJSONWithout :: "members \<Rightarrow> string \<Rightarrow> jany" where
  "canonicalJSONWithout raw dropField = AnyMap (fmdrop dropField (decoded raw))"

definition structuralDigest :: "(jany \<Rightarrow> string) \<Rightarrow> tool_def \<Rightarrow> string" where
  "structuralDigest digest t = digest (canonicalJSONWithout (tdf_raw t) ''description'')"

section \<open>What the digests bind\<close>

text \<open>
  What a definition promises besides its description: every member but the description and the attestation of its provenance,
  with a missing name or schema read as empty. Both digests determine it.
\<close>

definition promised :: "tool_def \<Rightarrow> (string, jany) fmap" where
  "promised t = fmdrop ''description'' (digestToolFields (toolFieldsRaw (tdf_raw t)))"

text \<open>
  A definition as it was decoded, whose keys are unambiguous: none occurs twice, and none is another spelling of
  \<^verbatim>\<open>description\<close>. Otherwise the description that is read depends on the order of the members, which the digests ignore.
\<close>

definition unambiguous :: "(string \<Rightarrow> string) \<Rightarrow> tool_def \<Rightarrow> bool" where
  "unambiguous foldName t \<longleftrightarrow> UnmarshalJSON foldName (tdf_raw t) = Some t \<and> distinct (map fst (tdf_raw t)) \<and>
     list_all (\<lambda>(k, v). foldName k = foldName ''description'' \<longrightarrow> k = ''description'') (tdf_raw t)"

text \<open>The values that are digested for a definition, and that no two different ones of them share a digest.\<close>

definition digested :: "tool_def \<Rightarrow> jany list" where
  "digested t = [AnyMap (digestToolFields (toolFieldsRaw (tdf_raw t))), canonicalJSONWithout (tdf_raw t) ''description'']"

definition no_collision :: "(jany \<Rightarrow> string) \<Rightarrow> tool_def list \<Rightarrow> bool" where
  "no_collision digest ts \<longleftrightarrow>
     (let vs = concat (map digested ts) in list_all (\<lambda>v. list_all (\<lambda>w. digest v = digest w \<longrightarrow> v = w) vs) vs)"

lemma no_collisionD:
  assumes "no_collision digest ts" "t \<in> set ts" "t' \<in> set ts"
  shows "hashTool digest t = hashTool digest t' \<Longrightarrow> digestToolFields (toolFieldsRaw (tdf_raw t)) = digestToolFields (toolFieldsRaw (tdf_raw t'))"
    and "structuralDigest digest t = structuralDigest digest t' \<Longrightarrow>
      fmdrop ''description'' (decoded (tdf_raw t)) = fmdrop ''description'' (decoded (tdf_raw t'))"
proof -
  have "v = w" if "v \<in> set (digested t)" "w \<in> set (digested t')" "digest v = digest w" for v w
    using assms that unfolding no_collision_def Let_def list_all_iff by auto
  then show "hashTool digest t = hashTool digest t' \<Longrightarrow> digestToolFields (toolFieldsRaw (tdf_raw t)) = digestToolFields (toolFieldsRaw (tdf_raw t'))"
    and "structuralDigest digest t = structuralDigest digest t' \<Longrightarrow>
      fmdrop ''description'' (decoded (tdf_raw t)) = fmdrop ''description'' (decoded (tdf_raw t'))"
    unfolding digested_def hashTool_def toolDigestRaw_def structuralDigest_def canonicalJSONWithout_def
    by (metis jany.inject(5) list.set_intros)+
qed

text \<open>Dropping the description commutes with what the hash does to the other members.\<close>

lemma drop_default:
  "fmdrop d (default_field k v m) = (if k = d then fmdrop d m else default_field k v (fmdrop d m))"
  by (rule fmap_ext) (simp add: default_field_def split: option.splits)

lemma drop_strip: "d \<noteq> ''_meta'' \<Longrightarrow> fmdrop d (digestToolFields m) = digestToolFields (fmdrop d m)"
  by (rule fmap_ext) (simp add: digestToolFields_def split: option.splits)

lemma promised_structure:
  "promised t = digestToolFields (default_field ''inputSchema'' AnyNull (default_field ''name'' (AnyString []) (fmdrop ''description'' (decoded (tdf_raw t)))))"
  by (simp add: promised_def toolFieldsRaw_def drop_strip drop_default)

text \<open>The description is read from the member the hash covers.\<close>

lemma only_member:
  "distinct (map fst ms) \<Longrightarrow> map snd (filter (\<lambda>(k, v). k = d) ms) = (case map_of ms d of None \<Rightarrow> [] | Some v \<Rightarrow> [v])"
proof (induction ms)
  case (Cons m ms)
  have "filter (\<lambda>(k, v). k = d) ms = []" if "d \<notin> fst ` set ms" using that by (force simp: filter_empty_conv)
  then show ?case using Cons by (cases m) auto
qed simp

lemma description_values:
  assumes "unambiguous foldName t"
  shows "field_values foldName ''description'' (tdf_raw t) = (case fmlookup (decoded (tdf_raw t)) ''description'' of None \<Rightarrow> [] | Some v \<Rightarrow> [v])"
proof -
  have "filter (\<lambda>(k, v). foldName k = foldName ''description'') (tdf_raw t) = filter (\<lambda>(k, v). k = ''description'') (tdf_raw t)"
    using assms by (intro filter_cong) (auto simp: unambiguous_def list_all_iff)
  moreover have "fmlookup (decoded (tdf_raw t)) k = map_of (tdf_raw t) k" for k
    using assms map_of_inject_set [of "rev (tdf_raw t)" "tdf_raw t"] by (simp add: decoded_def fmlookup_of_list unambiguous_def rev_map [symmetric])
  moreover have "distinct (map fst (tdf_raw t))" using assms by (simp add: unambiguous_def)
  ultimately show ?thesis using only_member [of "tdf_raw t" "''description''"] by (simp add: field_values_def)
qed

lemma unmarshal_desc:
  "UnmarshalJSON foldName ms = Some t \<Longrightarrow> string_field [] (field_values foldName ''description'' ms) = Some (tdf_desc t)"
  by (auto simp: UnmarshalJSON_def Let_def split: option.splits)

lemma description_member:
  assumes "unambiguous foldName t"
  shows "tdf_desc t = (case fmlookup (digestToolFields (toolFieldsRaw (tdf_raw t))) ''description'' of Some (AnyString s) \<Rightarrow> s | _ \<Rightarrow> [])"
proof -
  have field: "string_field [] (field_values foldName ''description'' (tdf_raw t)) = Some (tdf_desc t)"
    using assms unmarshal_desc unfolding unambiguous_def by blast
  have "fmlookup (digestToolFields (toolFieldsRaw (tdf_raw t))) ''description'' =
      Some (case fmlookup (decoded (tdf_raw t)) ''description'' of None \<Rightarrow> AnyString [] | Some v \<Rightarrow> v)"
    by (simp add: digestToolFields_def toolFieldsRaw_def default_field_def split: option.splits)
  then show ?thesis
    using field unfolding description_values [OF assms] by (auto split: option.splits jany.splits)
qed

theorem digests_bind:
  assumes "no_collision digest ts" "t \<in> set ts" "t' \<in> set ts"
  shows "unambiguous foldName t \<Longrightarrow> unambiguous foldName t' \<Longrightarrow> hashTool digest t = hashTool digest t' \<Longrightarrow>
      tdf_desc t = tdf_desc t' \<and> promised t = promised t'"
    and "structuralDigest digest t = structuralDigest digest t' \<Longrightarrow> promised t = promised t'"
  using no_collisionD [OF assms] by (simp_all add: description_member promised_def) (simp add: promised_structure flip: promised_def)

text \<open>
  Why the keys must be unambiguous: with a second spelling of \<^verbatim>\<open>description\<close> the same members in another order have the same
  hash whatever the digest, and another description is read, so that the change is not even compared.
\<close>

theorem spelling_hides_change:
  assumes "foldName ''Description'' = foldName ''description''" "foldName ''name'' \<noteq> foldName ''description''"
  shows "\<exists>t t'. UnmarshalJSON foldName [(''name'', AnyString n), (''description'', AnyString a), (''Description'', AnyString b)] = Some t \<and>
    UnmarshalJSON foldName [(''name'', AnyString n), (''Description'', AnyString b), (''description'', AnyString a)] = Some t' \<and>
    tdf_desc t = b \<and> tdf_desc t' = a \<and> tdf_name t = tdf_name t' \<and> hashTool digest t = hashTool digest t'"
proof -
  have "decoded [(''name'', AnyString n), (''description'', AnyString a), (''Description'', AnyString b)] =
      decoded [(''name'', AnyString n), (''Description'', AnyString b), (''description'', AnyString a)]"
    by (rule fmap_ext) (auto simp: decoded_def fmlookup_of_list)
  then show ?thesis using assms assms(2) [symmetric]
    by (simp add: UnmarshalJSON_def field_values_def hashTool_def toolDigestRaw_def toolFieldsRaw_def Let_def)
qed

end
