(* ===== verification/ToolBaseline.thy ===== *)
theory ToolBaseline
  imports ToolDigest GoText Interfaces "HOL-Library.List_Lexorder" "HOL-Library.Char_ord"
begin

text \<open>
  The tool inventory of an MCP session (\<^verbatim>\<open>ToolBaseline\<close> of \<^verbatim>\<open>internal/mcp/tools/tools.go\<close>, with
  \<^verbatim>\<open>drift_cues.go\<close> and \<^verbatim>\<open>header_bindings.go\<close>): which tools the session has seen, and the definition each
  was approved with, so that a server cannot swap a definition later (a rug pull). The regular expressions behind the
  cues and the content scan of a definition are arguments; the diff texts are left out.
  A Go map is an association list with distinct keys, a set of names a list.
\<close>

section \<open>Definitions and cues\<close>

text \<open>
  \<open>dl_digest\<close> is the digest of a JSON value and \<open>dl_fold\<close> \<^verbatim>\<open>foldName\<close>, as in \<open>ToolDigest\<close>; \<open>dl_cues\<close> is \<^verbatim>\<open>definitionCues\<close> (class and value of every cue in a description), \<open>dl_finding\<close> the injection, poison
  and parameter patterns, \<open>dl_normal\<close> \<^verbatim>\<open>normalize.ForMatching\<close>, \<open>dl_bindings\<close> \<^verbatim>\<open>ExtractHeaderBindings\<close>.
\<close>

record 'b drift_libs =
  dl_digest :: "jany \<Rightarrow> string"
  dl_fold :: "string \<Rightarrow> string"
  dl_params :: "tool_def \<Rightarrow> string list"
  dl_cues :: "string \<Rightarrow> (string \<times> string) list"
  dl_finding :: "tool_def \<Rightarrow> bool"
  dl_normal :: "string \<Rightarrow> string"
  dl_bindings :: "tool_def \<Rightarrow> 'b option"

record 'b tool_baseline =
  tb_hashes :: "(string \<times> string) list"
  tb_structural :: "(string \<times> string) list"
  tb_descs :: "(string \<times> string) list"
  tb_params :: "(string \<times> string list) list"
  tb_knownTools :: "string list"
  tb_knownA2A :: "string list"
  tb_headerBindings :: "(string \<times> 'b) list"
  tb_pending :: "string list"
  tb_hasBaseline :: bool
  tb_hasA2A :: bool
  tb_driftEpoch :: "64 word"

definition NewToolBaseline :: "'b tool_baseline" where
  "NewToolBaseline = \<lparr>tb_hashes = [], tb_structural = [], tb_descs = [], tb_params = [], tb_knownTools = [], tb_knownA2A = [],
     tb_headerBindings = [], tb_pending = [], tb_hasBaseline = False, tb_hasA2A = False, tb_driftEpoch = 0\<rparr>"

definition maxBaselineTools :: nat where
  "maxBaselineTools = 10000"

datatype baseline_error = ErrBaselineCapacity

definition introducedDriftCues :: "'b drift_libs \<Rightarrow> string \<Rightarrow> string \<Rightarrow> bool \<Rightarrow> string list" where
  "introducedDriftCues lib prevDesc newDesc structuralChanged =
     (let introduced = map fst (filter (\<lambda>c. c \<notin> set (dl_cues lib prevDesc)) (dl_cues lib newDesc)) in
      sort (remdups (introduced @ (if structuralChanged then [''structural-change''] else []))))"

section \<open>Capacity\<close>

definition ShouldSkip :: "string \<Rightarrow> 'b tool_baseline \<Rightarrow> bool" where
  "ShouldSkip name tb \<longleftrightarrow> map_of (tb_hashes tb) name = None \<and> length (tb_hashes tb) \<ge> maxBaselineTools"

fun fit_loop :: "string list \<Rightarrow> string list \<Rightarrow> nat \<Rightarrow> string list \<Rightarrow> bool" where
  "fit_loop stored seen needed [] = True"
| "fit_loop stored seen needed (n # ns) =
     (if n \<in> set stored \<or> n \<in> set seen then fit_loop stored seen needed ns
      else if needed + 1 > maxBaselineTools then False
      else fit_loop stored (n # seen) (needed + 1) ns)"

definition namesFitCapacity :: "string list \<Rightarrow> string list \<Rightarrow> bool" where
  "namesFitCapacity stored names = fit_loop stored [] (length stored) names"

fun fit_pending_loop :: "string list \<Rightarrow> string list \<Rightarrow> string list \<Rightarrow> nat \<Rightarrow> string list \<Rightarrow> bool" where
  "fit_pending_loop stored pending seen needed [] = True"
| "fit_pending_loop stored pending seen needed (n # ns) =
     (if n \<in> set stored then fit_pending_loop stored pending seen needed ns
      else if n \<in> set pending then False
      else if n \<in> set seen then fit_pending_loop stored pending seen needed ns
      else if needed + 1 > maxBaselineTools then False
      else fit_pending_loop stored pending (n # seen) (needed + 1) ns)"

definition namesFitCapacityWithPending :: "string list \<Rightarrow> string list \<Rightarrow> string list \<Rightarrow> bool" where
  "namesFitCapacityWithPending stored pending names = fit_pending_loop stored pending [] (length stored + length pending) names"

definition CanTrackDefinitions :: "string list \<Rightarrow> 'b tool_baseline option \<Rightarrow> bool" where
  "CanTrackDefinitions names tbo = (case tbo of None \<Rightarrow> True | Some tb \<Rightarrow> namesFitCapacity (map fst (tb_hashes tb)) names)"

definition CanAdmitKnownTools :: "string list \<Rightarrow> 'b tool_baseline option \<Rightarrow> bool" where
  "CanAdmitKnownTools names tbo = (case tbo of None \<Rightarrow> True | Some tb \<Rightarrow> namesFitCapacity (tb_knownTools tb) names)"

section \<open>Drift\<close>

definition CheckAndUpdatePromote ::
  "string \<Rightarrow> string \<Rightarrow> bool \<Rightarrow> bool \<Rightarrow> 'b tool_baseline \<Rightarrow> (bool \<times> string \<times> bool) \<times> 'b tool_baseline" where
  "CheckAndUpdatePromote name hash promoteNew promoteChanged tb =
     (case map_of (tb_hashes tb) name of
        None \<Rightarrow>
          if length (tb_hashes tb) \<ge> maxBaselineTools then ((False, [], False), tb)
          else if \<not> promoteNew then ((False, [], False), tb)
          else ((False, [], True), tb\<lparr>tb_hashes := AList.update name hash (tb_hashes tb)\<rparr>)
      | Some prev \<Rightarrow>
          if prev \<noteq> hash then
            if promoteChanged then ((True, prev, True), tb\<lparr>tb_hashes := AList.update name hash (tb_hashes tb)\<rparr>)
            else ((True, prev, False), tb)
          else ((False, [], True), tb))"

definition CheckAndUpdate :: "string \<Rightarrow> string \<Rightarrow> 'b tool_baseline \<Rightarrow> (bool \<times> string) \<times> 'b tool_baseline" where
  "CheckAndUpdate name hash tb =
     (case CheckAndUpdatePromote name hash True True tb of ((drifted, prev, _), tb1) \<Rightarrow> ((drifted, prev), tb1))"

definition StoreDesc :: "string \<Rightarrow> string \<Rightarrow> 'b tool_baseline \<Rightarrow> baseline_error option \<times> 'b tool_baseline" where
  "StoreDesc name desc tb =
     (if map_of (tb_descs tb) name = None \<and> length (tb_descs tb) \<ge> maxBaselineTools then (Some ErrBaselineCapacity, tb)
      else (None, tb\<lparr>tb_descs := AList.update name desc (tb_descs tb)\<rparr>))"

definition StoreParams :: "string \<Rightarrow> string list \<Rightarrow> 'b tool_baseline \<Rightarrow> baseline_error option \<times> 'b tool_baseline" where
  "StoreParams name paramNames tb =
     (if map_of (tb_params tb) name = None \<and> length (tb_params tb) \<ge> maxBaselineTools then (Some ErrBaselineCapacity, tb)
      else (None, tb\<lparr>tb_params := AList.update name paramNames (tb_params tb)\<rparr>))"

record drift_evaluation =
  de_capacityExceeded :: bool
  de_epochChanged :: bool
  de_drifted :: bool
  de_cues :: "string list"
  de_previousHash :: string

definition no_drift :: drift_evaluation where
  "no_drift = \<lparr>de_capacityExceeded = False, de_epochChanged = False, de_drifted = False, de_cues = [], de_previousHash = []\<rparr>"

definition Accepted :: "drift_evaluation \<Rightarrow> bool" where
  "Accepted e \<longleftrightarrow> de_drifted e \<and> de_cues e = []"

record definition_evaluation =
  dv_name :: string
  dv_hash :: string
  dv_desc :: string
  dv_params :: "string list"
  dv_structural :: string
  dv_expectedEpoch :: "64 word option"
  dv_promoteNew :: bool
  dv_promoteChanged :: bool
  dv_promoteAccepted :: bool
  dv_classify :: "string \<Rightarrow> bool \<Rightarrow> string list"

definition promote :: "definition_evaluation \<Rightarrow> 'b tool_baseline \<Rightarrow> 'b tool_baseline" where
  "promote d tb =
     tb\<lparr>tb_hashes := AList.update (dv_name d) (dv_hash d) (tb_hashes tb), tb_descs := AList.update (dv_name d) (dv_desc d) (tb_descs tb),
        tb_params := AList.update (dv_name d) (dv_params d) (tb_params tb),
        tb_structural := AList.update (dv_name d) (dv_structural d) (tb_structural tb)\<rparr>"

definition EvaluateDefinition :: "definition_evaluation \<Rightarrow> 'b tool_baseline \<Rightarrow> drift_evaluation \<times> 'b tool_baseline" where
  "EvaluateDefinition d tb =
     (if dv_expectedEpoch d \<noteq> None \<and> dv_expectedEpoch d \<noteq> Some (tb_driftEpoch tb) then (no_drift\<lparr>de_epochChanged := True\<rparr>, tb)
      else case map_of (tb_hashes tb) (dv_name d) of
        None \<Rightarrow>
          if length (tb_hashes tb) \<ge> maxBaselineTools then (no_drift\<lparr>de_capacityExceeded := True\<rparr>, tb)
          else (no_drift, if dv_promoteNew d then promote d tb else tb)
      | Some prevHash \<Rightarrow>
          if prevHash = dv_hash d then (no_drift, promote d tb)
          else
            let prevDesc = (case map_of (tb_descs tb) (dv_name d) of Some x \<Rightarrow> x | None \<Rightarrow> []);
                cues = dv_classify d prevDesc (map_of (tb_structural tb) (dv_name d) \<noteq> Some (dv_structural d)) in
            (no_drift\<lparr>de_drifted := True, de_previousHash := prevHash, de_cues := cues\<rparr>,
             if (cues = [] \<and> dv_promoteAccepted d) \<or> dv_promoteChanged d then promote d tb else tb))"




definition DriftEpoch :: "'b tool_baseline option \<Rightarrow> 64 word" where
  "DriftEpoch tbo = (case tbo of None \<Rightarrow> 0 | Some tb \<Rightarrow> tb_driftEpoch tb)"

definition matchesDriftEpoch :: "64 word \<Rightarrow> 'b tool_baseline option \<Rightarrow> bool" where
  "matchesDriftEpoch expected tbo = (case tbo of None \<Rightarrow> True | Some tb \<Rightarrow> tb_driftEpoch tb = expected)"

text \<open>\<^verbatim>\<open>DetectDriftRisingEdge\<close>: the previous value, \<open>None\<close> before the first call; a call is one atomic swap.\<close>

definition Observe_edge :: "bool \<Rightarrow> bool option \<Rightarrow> bool \<times> bool option" where
  "Observe_edge current prev = (prev = Some False \<and> current, Some current)"
section \<open>Known tools\<close>

definition add_known :: "string \<Rightarrow> string list \<Rightarrow> string list" where
  "add_known n known = (if n \<in> set known then known else known @ [n])"


definition known_methods :: "string list" where
  "known_methods =
     [''SendMessage'', ''SendStreamingMessage'', ''GetTask'', ''ListTasks'', ''CancelTask'', ''SubscribeToTask'',
      ''CreateTaskPushNotificationConfig'', ''GetTaskPushNotificationConfig'', ''ListTaskPushNotificationConfigs'',
      ''DeleteTaskPushNotificationConfig'', ''GetExtendedAgentCard'', ''message/send'', ''message/stream'', ''tasks/get'',
      ''tasks/list'', ''tasks/cancel'', ''tasks/resubscribe'', ''tasks/pushNotificationConfig/set'',
      ''tasks/pushNotificationConfig/get'', ''tasks/pushNotificationConfig/list'', ''tasks/pushNotificationConfig/delete'',
      ''agent/getAuthenticatedExtendedCard'']"

text \<open>\<open>u\<close> is the Unicode part of \<^verbatim>\<open>strings.ToLower\<close>.\<close>

definition method_Is :: "(string \<Rightarrow> string) \<Rightarrow> string \<Rightarrow> bool" where
  "method_Is u m \<longleftrightarrow> m \<in> set known_methods \<or> ToLower u m \<in> set (map (ToLower u) known_methods)"

definition Canonical_method :: "(string \<Rightarrow> string) \<Rightarrow> string \<Rightarrow> string option" where
  "Canonical_method u m =
     (if m \<in> set known_methods then Some m
      else find (\<lambda>k. ToLower u k = ToLower u m) known_methods)"

definition a2aMethodIdentity :: "(string \<Rightarrow> string) \<Rightarrow> string \<Rightarrow> string" where
  "a2aMethodIdentity u method0 =
     (let m1 = TrimSpace method0 in
      if m1 = [] then []
      else
        let m2 = (if has_prefix m1 ''a2a:'' then TrimSpace (drop 4 m1) else m1) in
        if \<not> method_Is u m2 then [] else ''a2a:'' @ ToLower u m2)"




definition IsKnownTool :: "string \<Rightarrow> 'b tool_baseline \<Rightarrow> bool" where
  "IsKnownTool name tb \<longleftrightarrow> name \<in> set (tb_knownTools tb)"

definition IsKnownA2AMethod :: "(string \<Rightarrow> string) \<Rightarrow> string \<Rightarrow> 'b tool_baseline \<Rightarrow> bool" where
  "IsKnownA2AMethod u method tb \<longleftrightarrow> a2aMethodIdentity u method \<in> set (tb_knownA2A tb)"

section \<open>Header bindings\<close>

text \<open>The bindings of a later definition with the same name replace those of an earlier one.\<close>

definition headerBindingsForDefs :: "'b drift_libs \<Rightarrow> tool_def list \<Rightarrow> (string \<times> 'b) list" where
  "headerBindingsForDefs lib defs =
     fold (\<lambda>t acc. case dl_bindings lib t of None \<Rightarrow> acc | Some b \<Rightarrow> AList.update (tdf_name t) b acc) defs []"

definition CanAdmitHeaderBindings :: "'b drift_libs \<Rightarrow> tool_def list \<Rightarrow> 'b tool_baseline option \<Rightarrow> bool" where
  "CanAdmitHeaderBindings lib defs tbo =
     (case tbo of None \<Rightarrow> True
      | Some tb \<Rightarrow> namesFitCapacity (map fst (tb_headerBindings tb)) (map fst (headerBindingsForDefs lib defs)))"

definition bind_def :: "bool \<Rightarrow> (string \<times> 'b) list \<Rightarrow> tool_def \<Rightarrow> (string \<times> 'b) list \<Rightarrow> (string \<times> 'b) list" where
  "bind_def clean prepared t hb =
     (case map_of prepared (tdf_name t) of
        Some b \<Rightarrow> if clean then AList.update (tdf_name t) b hb else AList.delete (tdf_name t) hb
      | None \<Rightarrow> AList.delete (tdf_name t) hb)"



definition HeaderBindings :: "string \<Rightarrow> 'b tool_baseline option \<Rightarrow> 'b option" where
  "HeaderBindings toolName tbo = (case tbo of None \<Rightarrow> None | Some tb \<Rightarrow> map_of (tb_headerBindings tb) toolName)"

section \<open>Reservations\<close>

record 'b reservation =
  rv_names :: "string list"
  rv_defs :: "tool_def list"
  rv_bindings :: "(string \<times> 'b) list"
  rv_reserved :: "string list"

text \<open>The names a reservation claims, \<open>None\<close> when one is pending for another response.\<close>

fun claim :: "string list \<Rightarrow> string list \<Rightarrow> string list \<Rightarrow> string list \<Rightarrow> string list option" where
  "claim known pending claimed [] = Some claimed"
| "claim known pending claimed (n # ns) =
     (if n \<in> set known \<or> n \<in> set claimed then claim known pending claimed ns
      else if n \<in> set pending then None
      else claim known pending (claimed @ [n]) ns)"

definition ReserveToolInventory ::
  "'b drift_libs \<Rightarrow> string list \<Rightarrow> tool_def list \<Rightarrow> 'b tool_baseline \<Rightarrow> (baseline_error + 'b reservation) \<times> 'b tool_baseline" where
  "ReserveToolInventory lib names defs tb =
     (if length defs > maxBaselineTools then (Inl ErrBaselineCapacity, tb)
      else
        let bindings = headerBindingsForDefs lib defs in
        if \<not> namesFitCapacityWithPending (tb_knownTools tb) (tb_pending tb) names \<or>
           \<not> namesFitCapacityWithPending (map fst (tb_headerBindings tb)) (tb_pending tb) (map fst bindings)
        then (Inl ErrBaselineCapacity, tb)
        else case claim (tb_knownTools tb) (tb_pending tb) [] names of
          None \<Rightarrow> (Inl ErrBaselineCapacity, tb)
        | Some reserved \<Rightarrow>
            (Inr \<lparr>rv_names = names, rv_defs = defs, rv_bindings = bindings, rv_reserved = reserved\<rparr>,
             tb\<lparr>tb_pending := tb_pending tb @ reserved\<rparr>))"

text \<open>A reservation that was released or committed holds no names any more.\<close>

definition Release :: "'b reservation \<Rightarrow> 'b tool_baseline \<Rightarrow> 'b reservation \<times> 'b tool_baseline" where
  "Release r tb =
     (r\<lparr>rv_reserved := []\<rparr>, tb\<lparr>tb_pending := filter (\<lambda>n. n \<notin> set (rv_reserved r)) (tb_pending tb)\<rparr>)"

definition Commit :: "bool \<Rightarrow> 'b reservation \<Rightarrow> 'b tool_baseline \<Rightarrow> string list \<times> 'b reservation \<times> 'b tool_baseline" where
  "Commit clean r tb =
     (let known = fold add_known (rv_names r) (tb_knownTools tb);
          added = (if tb_hasBaseline tb then drop (length (tb_knownTools tb)) known else []) in
      (added, r\<lparr>rv_reserved := []\<rparr>,
       tb\<lparr>tb_knownTools := known, tb_hasBaseline := True,
          tb_headerBindings := fold (bind_def clean (rv_bindings r)) (rv_defs r) (tb_headerBindings tb),
          tb_pending := filter (\<lambda>n. n \<notin> set (rv_reserved r)) (tb_pending tb)\<rparr>))"

section \<open>Scanning a tools/list response\<close>

record tool_scan_config =
  sc_expectedEpoch :: "64 word option"
  sc_action :: string
  sc_detectDrift :: bool

record 'b scan_state =
  st_baseline :: "'b tool_baseline option"
  st_driftBaseline :: "'b tool_baseline option"

definition drift_baseline :: "'b scan_state \<Rightarrow> 'b tool_baseline option" where
  "drift_baseline st = (case st_driftBaseline st of None \<Rightarrow> st_baseline st | Some tb \<Rightarrow> Some tb)"

definition put_drift :: "'b tool_baseline \<Rightarrow> 'b scan_state \<Rightarrow> 'b scan_state" where
  "put_drift tb st = (case st_driftBaseline st of None \<Rightarrow> st\<lparr>st_baseline := Some tb\<rparr> | Some _ \<Rightarrow> st\<lparr>st_driftBaseline := Some tb\<rparr>)"

definition toolScanCapacityLimit :: "'b drift_libs \<Rightarrow> tool_def list \<Rightarrow> string list \<Rightarrow> tool_scan_config \<Rightarrow> 'b scan_state \<Rightarrow> string" where
  "toolScanCapacityLimit lib defs names cfg st =
     (if \<not> CanAdmitKnownTools names (st_baseline st) then ''tool_inventory_capacity''
      else if \<not> CanAdmitHeaderBindings lib defs (st_baseline st) then ''tool_header_binding_capacity''
      else if (case sc_expectedEpoch cfg of None \<Rightarrow> False | Some e \<Rightarrow> \<not> matchesDriftEpoch e (drift_baseline st)) then ''tool_definition_baseline_reset''
      else if sc_detectDrift cfg \<and> \<not> CanTrackDefinitions names (drift_baseline st) then ''tool_definition_baseline_capacity''
      else [])"

text \<open>A match: the tool, whether the drift introduced a cue, the cues, whether the content has a finding.\<close>

record tool_match =
  tm_name :: string
  tm_content :: bool
  tm_driftCues :: "string list"

fun collide_loop :: "'b drift_libs \<Rightarrow> (string \<times> string) list \<Rightarrow> string list \<Rightarrow> tool_def list \<Rightarrow> string list" where
  "collide_loop lib byNormalized collisions [] = collisions"
| "collide_loop lib byNormalized collisions (t # ts) =
     (let n = dl_normal lib (tdf_name t) in
      case map_of byNormalized n of
        Some prev \<Rightarrow> collide_loop lib byNormalized (if prev \<noteq> tdf_name t then prev # tdf_name t # collisions else collisions) ts
      | None \<Rightarrow> collide_loop lib (AList.update n (tdf_name t) byNormalized) collisions ts)"

definition confusableToolNameCollisions :: "'b drift_libs \<Rightarrow> tool_def list \<Rightarrow> string list" where
  "confusableToolNameCollisions lib tools = collide_loop lib [] [] tools"

definition evaluation_of :: "'b drift_libs \<Rightarrow> tool_scan_config \<Rightarrow> bool \<Rightarrow> tool_def \<Rightarrow> definition_evaluation" where
  "evaluation_of lib cfg hasFinding t =
     \<lparr>dv_name = tdf_name t, dv_hash = hashTool (dl_digest lib) t, dv_desc = tdf_desc t, dv_params = dl_params lib t, dv_structural = structuralDigest (dl_digest lib) t,
      dv_expectedEpoch = sc_expectedEpoch cfg, dv_promoteNew = (sc_action cfg \<noteq> ''block'' \<or> \<not> hasFinding),
      dv_promoteChanged = (sc_action cfg \<noteq> ''block''), dv_promoteAccepted = (sc_action cfg \<noteq> ''block'' \<or> \<not> hasFinding),
      dv_classify = (\<lambda>prevDesc structuralChanged. introducedDriftCues lib prevDesc (tdf_desc t) structuralChanged)\<rparr>"

record 'b scan_acc =
  sa_state :: "'b scan_state"
  sa_matches :: "tool_match list"
  sa_observations :: "string list"
  sa_capacityExceeded :: bool
  sa_epochChanged :: bool

definition scan_tool :: "'b drift_libs \<Rightarrow> tool_scan_config \<Rightarrow> string list \<Rightarrow> tool_def \<Rightarrow> 'b scan_acc \<Rightarrow> 'b scan_acc" where
  "scan_tool lib cfg confusable t a =
     (if sa_epochChanged a then a
      else
        let hasFinding = (tdf_name t \<in> set confusable \<or> dl_finding lib t);
            report = (\<lambda>cues. \<lparr>tm_name = tdf_name t, tm_content = hasFinding, tm_driftCues = cues\<rparr>);
            noted = (\<lambda>b. if hasFinding then b\<lparr>sa_matches := sa_matches b @ [report []]\<rparr> else b) in
        case drift_baseline (sa_state a) of
          None \<Rightarrow> noted a
        | Some tb \<Rightarrow>
            if \<not> sc_detectDrift cfg then noted a
            else if ShouldSkip (tdf_name t) tb then a\<lparr>sa_capacityExceeded := True\<rparr>
            else
              let (e, tb1) = EvaluateDefinition (evaluation_of lib cfg hasFinding t) tb;
                  a1 = a\<lparr>sa_state := put_drift tb1 (sa_state a)\<rparr> in
              if de_epochChanged e then a1\<lparr>sa_epochChanged := True, sa_capacityExceeded := False\<rparr>
              else if de_capacityExceeded e then a1\<lparr>sa_capacityExceeded := True\<rparr>
              else if de_drifted e then
                if de_cues e \<noteq> [] then a1\<lparr>sa_matches := sa_matches a1 @ [report (de_cues e)]\<rparr>
                else noted (a1\<lparr>sa_observations := sa_observations a1 @ [tdf_name t]\<rparr>)
              else noted a1)"

definition scanToolDefs :: "'b drift_libs \<Rightarrow> tool_scan_config \<Rightarrow> tool_def list \<Rightarrow> 'b scan_state \<Rightarrow> 'b scan_acc" where
  "scanToolDefs lib cfg tools st =
     fold (scan_tool lib cfg (confusableToolNameCollisions lib tools)) tools
       \<lparr>sa_state = st, sa_matches = [], sa_observations = [], sa_capacityExceeded = False, sa_epochChanged = False\<rparr>"

record tool_scan_result =
  ts_clean :: bool
  ts_resourceLimit :: string
  ts_matches :: "tool_match list"

text \<open>The scan of a parsed tools/list response with at least one named tool.\<close>

definition scanToolsSingle :: "'b drift_libs \<Rightarrow> tool_scan_config \<Rightarrow> tool_def list \<Rightarrow> 'b scan_state \<Rightarrow> tool_scan_result \<times> 'b scan_state" where
  "scanToolsSingle lib cfg tools st =
     (let limit = toolScanCapacityLimit lib tools (map tdf_name tools) cfg st in
      if limit \<noteq> [] then (\<lparr>ts_clean = False, ts_resourceLimit = limit, ts_matches = []\<rparr>, st)
      else
        let a = scanToolDefs lib cfg tools st in
        (if sa_epochChanged a then \<lparr>ts_clean = False, ts_resourceLimit = ''tool_definition_baseline_reset'', ts_matches = []\<rparr>
         else if sa_capacityExceeded a then \<lparr>ts_clean = False, ts_resourceLimit = ''tool_definition_baseline_capacity'', ts_matches = []\<rparr>
         else \<lparr>ts_clean = (sa_matches a = []), ts_resourceLimit = [], ts_matches = sa_matches a\<rparr>,
         sa_state a))"

section \<open>A definition never acquires what was not approved\<close>







lemma evaluation_sel [simp]:
  "dv_name (evaluation_of lib cfg f t) = tdf_name t" "dv_hash (evaluation_of lib cfg f t) = hashTool (dl_digest lib) t"
  "dv_desc (evaluation_of lib cfg f t) = tdf_desc t" "dv_structural (evaluation_of lib cfg f t) = structuralDigest (dl_digest lib) t"
  "dv_promoteChanged (evaluation_of lib cfg f t) = (sc_action cfg \<noteq> ''block'')"
  "dv_expectedEpoch (evaluation_of lib cfg f t) = sc_expectedEpoch cfg"
  "dv_classify (evaluation_of lib cfg f t) p b = introducedDriftCues lib p (tdf_desc t) b"
  by (simp_all add: evaluation_of_def)




section \<open>A whole response\<close>




lemma drift_put [simp]: "drift_baseline st = Some tb \<Longrightarrow> drift_baseline (put_drift tb1 st) = Some tb1"
  by (auto simp: drift_baseline_def put_drift_def split: option.splits)









lemma scan_state:
  "snd (scanToolsSingle lib cfg tools st) = st \<or> snd (scanToolsSingle lib cfg tools st) = sa_state (scanToolDefs lib cfg tools st)"
  by (simp add: scanToolsSingle_def Let_def)



section \<open>A clean response is the approval\<close>







section \<open>The operations of a session\<close>



















section \<open>Concurrent responses share the capacity\<close>

text \<open>
  The responses in flight (\<^verbatim>\<open>reserveToolInventory\<close>, \<^verbatim>\<open>commitToolInventory\<close> and \<^verbatim>\<open>releaseToolInventory\<close> of
  \<^verbatim>\<open>ForwardScanned\<close>): a response reserves the names of its definitions and is later committed or released, in any order.
\<close>

record 'b inventory =
  iv_baseline :: "'b tool_baseline"
  iv_live :: "'b reservation list"

datatype inventory_op = Response_arrives "tool_def list" | Response_forwarded bool nat | Response_lost nat

definition leave_flight :: "nat \<Rightarrow> 'b reservation list \<Rightarrow> 'b reservation list" where
  "leave_flight i live = take i live @ drop (Suc i) live"

fun inventory_step :: "'b drift_libs \<Rightarrow> inventory_op \<Rightarrow> 'b inventory \<Rightarrow> 'b inventory" where
  "inventory_step lib (Response_arrives defs) iv =
     (case ReserveToolInventory lib (map tdf_name defs) defs (iv_baseline iv) of
        (Inl _, tb) \<Rightarrow> iv\<lparr>iv_baseline := tb\<rparr>
      | (Inr r, tb) \<Rightarrow> iv\<lparr>iv_baseline := tb, iv_live := iv_live iv @ [r]\<rparr>)"
| "inventory_step lib (Response_forwarded clean i) iv =
     (if i < length (iv_live iv)
      then iv\<lparr>iv_baseline := snd (snd (Commit clean (iv_live iv ! i) (iv_baseline iv))), iv_live := leave_flight i (iv_live iv)\<rparr> else iv)"
| "inventory_step lib (Response_lost i) iv =
     (if i < length (iv_live iv)
      then iv\<lparr>iv_baseline := snd (Release (iv_live iv ! i) (iv_baseline iv)), iv_live := leave_flight i (iv_live iv)\<rparr> else iv)"

definition slots_ok :: "string list \<Rightarrow> string list \<Rightarrow> bool" where
  "slots_ok known pending \<longleftrightarrow> distinct (known @ pending) \<and> length known + length pending \<le> maxBaselineTools"

definition bound_ok :: "string list \<Rightarrow> (string \<times> 'b) list \<Rightarrow> bool" where
  "bound_ok known hb \<longleftrightarrow> distinct (map fst hb) \<and> set (map fst hb) \<subseteq> set known"

definition held_ok :: "string list \<Rightarrow> 'b reservation \<Rightarrow> bool" where
  "held_ok known r \<longleftrightarrow> set (rv_names r) \<subseteq> set known \<union> set (rv_reserved r) \<and> set (rv_reserved r) \<subseteq> set (rv_names r) \<and>
     set (map tdf_name (rv_defs r)) = set (rv_names r)"

definition inventory_ok :: "'b inventory \<Rightarrow> bool" where
  "inventory_ok iv \<longleftrightarrow> (let tb = iv_baseline iv; reserved = concat (map rv_reserved (iv_live iv)) in
     slots_ok (tb_knownTools tb) (tb_pending tb) \<and> bound_ok (tb_knownTools tb) (tb_headerBindings tb) \<and>
     distinct reserved \<and> set reserved \<subseteq> set (tb_pending tb) \<and> list_all (held_ok (tb_knownTools tb)) (iv_live iv))"

lemma fit_pending_bound:
  "fit_pending_loop stored pending seen needed ns \<Longrightarrow> needed \<le> maxBaselineTools \<Longrightarrow>
   needed + card (set ns - set stored - set seen) \<le> maxBaselineTools"
proof (induction stored pending seen needed ns rule: fit_pending_loop.induct)
  case (2 stored pending seen needed n ns)
  show ?case
  proof (cases "n \<in> set stored \<or> n \<in> set seen")
    case True
    then have "set (n # ns) - set stored - set seen = set ns - set stored - set seen" by auto
    moreover have "fit_pending_loop stored pending seen needed ns" using 2(4) True by (simp split: if_splits)
    ultimately show ?thesis using 2(1,2) 2(4,5) True by (metis fit_pending_loop.simps(2))
  next
    case False
    then have "set (n # ns) - set stored - set seen = insert n (set ns - set stored - set (n # seen))" by auto
    moreover have "card (insert n (set ns - set stored - set (n # seen))) = Suc (card (set ns - set stored - set (n # seen)))" by simp
    moreover have "n \<notin> set pending" "\<not> needed + 1 > maxBaselineTools" "fit_pending_loop stored pending (n # seen) (needed + 1) ns"
      using 2(4) False by (simp_all split: if_splits)
    ultimately show ?thesis using 2(3) False by simp
  qed
qed simp

lemma claim_names:
  "claim known pending claimed ns = Some res \<Longrightarrow> distinct claimed \<Longrightarrow> set claimed \<inter> (set known \<union> set pending) = {} \<Longrightarrow>
   distinct res \<and> set res = set claimed \<union> (set ns - set known) \<and> set res \<inter> (set known \<union> set pending) = {}"
proof (induction known pending claimed ns rule: claim.induct)
  case (2 known pending claimed n ns)
  then show ?case by (auto split: if_splits)
qed simp

lemma fold_add_known:
  "distinct known \<Longrightarrow> distinct (fold add_known ns known) \<and> set (fold add_known ns known) = set known \<union> set ns"
proof (induction ns arbitrary: known)
  case (Cons n ns)
  have "distinct (add_known n known)" "set (add_known n known) = insert n (set known)" using Cons.prems by (auto simp: add_known_def)
  then show ?case using Cons.IH [of "add_known n known"] by auto
qed simp

lemma slots_commit:
  assumes "slots_ok known pending" "set res \<subseteq> set pending" "set ns \<subseteq> set known \<union> set res" "set res \<subseteq> set ns"
  shows "slots_ok (fold add_known ns known) (filter (\<lambda>n. n \<notin> set res) pending)"
proof -
  define k where "k = fold add_known ns known"
  have k: "distinct k" "set k = set known \<union> set res"
    using fold_add_known [of known ns] assms by (auto simp: k_def slots_ok_def)
  have "distinct (k @ filter (\<lambda>n. n \<notin> set res) pending)" "set (k @ filter (\<lambda>n. n \<notin> set res) pending) = set (known @ pending)"
    using k assms(1,2) by (auto simp: slots_ok_def)
  then show ?thesis
    using assms(1) by (metis distinct_card k_def length_append slots_ok_def)
qed

lemma bind_def_keys:
  "distinct (map fst hb) \<Longrightarrow> distinct (map fst (bind_def clean prep t hb)) \<and> set (map fst (bind_def clean prep t hb)) \<subseteq> insert (tdf_name t) (set (map fst hb))"
  by (auto simp: bind_def_def update_keys delete_keys distinct_removeAll split: option.splits simp del: set_map)

lemma bound_commit:
  "bound_ok known hb \<Longrightarrow> bound_ok (known @ map tdf_name defs) (fold (bind_def clean prep) defs hb)"
proof (induction defs arbitrary: known hb)
  case (Cons t defs)
  have "bound_ok (known @ [tdf_name t]) (bind_def clean prep t hb)"
    using Cons.prems bind_def_keys [of hb clean prep t] unfolding bound_ok_def by (simp del: set_map) blast
  from Cons.IH [OF this] show ?case by simp
qed simp
lemma reserve_ok:
  assumes ok: "inventory_ok iv"
    and "ReserveToolInventory lib (map tdf_name defs) defs (iv_baseline iv) = (Inr r, tb)"
  shows "inventory_ok (iv\<lparr>iv_baseline := tb, iv_live := iv_live iv @ [r]\<rparr>)"
proof -
  define old where "old = iv_baseline iv"
  have fit: "namesFitCapacityWithPending (tb_knownTools old) (tb_pending old) (map tdf_name defs)"
    and cl: "claim (tb_knownTools old) (tb_pending old) [] (map tdf_name defs) = Some (rv_reserved r)"
    and r: "rv_names r = map tdf_name defs" "rv_defs r = defs" and tb: "tb = old\<lparr>tb_pending := tb_pending old @ rv_reserved r\<rparr>"
    using assms(2) by (auto simp: old_def ReserveToolInventory_def Let_def split: if_splits option.splits)
  have slots: "slots_ok (tb_knownTools old) (tb_pending old)" using ok by (simp add: inventory_ok_def Let_def old_def)
  have res: "distinct (rv_reserved r)" "set (rv_reserved r) = set (map tdf_name defs) - set (tb_knownTools old)"
      "set (rv_reserved r) \<inter> (set (tb_knownTools old) \<union> set (tb_pending old)) = {}"
    using claim_names [OF cl] by auto
  have "length (tb_knownTools old) + length (tb_pending old) + card (set (rv_reserved r)) \<le> maxBaselineTools"
    using fit_pending_bound [OF fit [unfolded namesFitCapacityWithPending_def]] slots by (simp add: res(2) slots_ok_def)
  then have "slots_ok (tb_knownTools old) (tb_pending old @ rv_reserved r)"
    using slots res(1,3) by (auto simp: slots_ok_def distinct_card)
  moreover have "held_ok (tb_knownTools old) r" using res(2) by (auto simp: held_ok_def r)
  ultimately show ?thesis using ok res(1,3) by (auto simp: inventory_ok_def Let_def tb old_def [symmetric])
qed

text \<open>What a response that leaves the flight does to the names of the others.\<close>

lemma leave_split:
  assumes "i < length live"
  shows "\<exists>xs ys. live = xs @ live ! i # ys \<and> leave_flight i live = xs @ ys"
  using id_take_nth_drop [OF assms] by (auto simp: leave_flight_def)

lemma held_mono: "held_ok known r \<Longrightarrow> set known \<subseteq> set known' \<Longrightarrow> held_ok known' r"
  by (auto simp: held_ok_def)

lemma settle_ok:
  assumes ok: "inventory_ok iv" and i: "i < length (iv_live iv)"
    and tb: "slots_ok (tb_knownTools tb) (tb_pending tb)" "bound_ok (tb_knownTools tb) (tb_headerBindings tb)"
    and known: "set (tb_knownTools (iv_baseline iv)) \<subseteq> set (tb_knownTools tb)"
    and pending: "tb_pending tb = filter (\<lambda>n. n \<notin> set (rv_reserved (iv_live iv ! i))) (tb_pending (iv_baseline iv))"
  shows "inventory_ok (iv\<lparr>iv_baseline := tb, iv_live := leave_flight i (iv_live iv)\<rparr>)"
proof -
  obtain xs ys where split: "iv_live iv = xs @ iv_live iv ! i # ys" "leave_flight i (iv_live iv) = xs @ ys" using leave_split [OF i] by blast
  define r where "r = iv_live iv ! i"
  have live: "iv_live iv = xs @ r # ys" "leave_flight i (iv_live iv) = xs @ ys" using split by (simp_all add: r_def)
  have pend: "tb_pending tb = filter (\<lambda>n. n \<notin> set (rv_reserved r)) (tb_pending (iv_baseline iv))" by (simp add: pending r_def)
  have "list_all (held_ok (tb_knownTools (iv_baseline iv))) (xs @ ys)" using ok by (simp add: inventory_ok_def Let_def live(1))
  then have others: "list_all (held_ok (tb_knownTools tb)) (xs @ ys)" by (rule list.pred_mono_strong) (rule held_mono [OF _ known])
  have "set (concat (map rv_reserved (xs @ ys))) \<subseteq> set (tb_pending tb)" "distinct (concat (map rv_reserved (xs @ ys)))"
    using ok unfolding pend inventory_ok_def Let_def live(1) by auto
  then show ?thesis using tb others by (simp add: inventory_ok_def Let_def live(2))
qed

lemma release_ok:
  assumes "inventory_ok iv" "i < length (iv_live iv)"
  shows "inventory_ok (iv\<lparr>iv_baseline := snd (Release (iv_live iv ! i) (iv_baseline iv)), iv_live := leave_flight i (iv_live iv)\<rparr>)"
proof (rule settle_ok [OF assms])
  let ?tb = "snd (Release (iv_live iv ! i) (iv_baseline iv))"
  show "slots_ok (tb_knownTools ?tb) (tb_pending ?tb)" using assms(1)
    by (auto simp: inventory_ok_def Let_def Release_def slots_ok_def intro: le_trans [OF add_left_mono [OF length_filter_le]])
  show "bound_ok (tb_knownTools ?tb) (tb_headerBindings ?tb)" using assms(1) by (simp add: inventory_ok_def Let_def Release_def)
qed (simp_all add: Release_def)

lemma commit_ok:
  assumes "inventory_ok iv" "i < length (iv_live iv)"
  shows "inventory_ok (iv\<lparr>iv_baseline := snd (snd (Commit clean (iv_live iv ! i) (iv_baseline iv))), iv_live := leave_flight i (iv_live iv)\<rparr>)"
proof (rule settle_ok [OF assms])
  let ?tb = "snd (snd (Commit clean (iv_live iv ! i) (iv_baseline iv)))" and ?r = "iv_live iv ! i" and ?old = "iv_baseline iv"
  have ok: "slots_ok (tb_knownTools ?old) (tb_pending ?old)" "bound_ok (tb_knownTools ?old) (tb_headerBindings ?old)"
    using assms(1) by (simp_all add: inventory_ok_def Let_def)
  have held: "held_ok (tb_knownTools ?old) ?r" "set (rv_reserved ?r) \<subseteq> set (tb_pending ?old)"
    using assms(1) nth_mem [OF assms(2)] unfolding inventory_ok_def Let_def list_all_iff set_concat set_map by blast+
  have known: "set (tb_knownTools ?tb) = set (tb_knownTools ?old) \<union> set (rv_names ?r)"
    using fold_add_known ok(1) by (simp add: Commit_def Let_def slots_ok_def)
  show "slots_ok (tb_knownTools ?tb) (tb_pending ?tb)"
    using slots_commit [OF ok(1) held(2)] held(1) by (simp add: Commit_def Let_def held_ok_def)
  show "bound_ok (tb_knownTools ?tb) (tb_headerBindings ?tb)"
    using bound_commit [OF ok(2), of "rv_defs ?r" clean "rv_bindings ?r"] held(1)
    unfolding bound_ok_def known by (simp add: Commit_def Let_def held_ok_def)
  show "set (tb_knownTools ?old) \<subseteq> set (tb_knownTools ?tb)" using known by simp
qed (simp add: Commit_def Let_def)

interpretation shared: kept_invariant "inventory_step lib" inventory_ok for lib
proof unfold_locales
  fix iv :: "'a inventory" and x
  assume ok: "inventory_ok iv"
  have refused: "tb = iv_baseline iv" if "ReserveToolInventory lib ns ds (iv_baseline iv) = (Inl e, tb)" for ns ds e tb
    using that by (auto simp: ReserveToolInventory_def Let_def split: if_splits option.splits)
  show "inventory_ok (inventory_step lib x iv)"
    using ok reserve_ok [OF ok] release_ok [OF ok] commit_ok [OF ok]
    by (cases x) (auto split: prod.splits sum.splits dest!: refused)
qed

lemma inventory_ok_slots:
  assumes "inventory_ok iv"
  shows "length (tb_knownTools (iv_baseline iv)) + length (tb_pending (iv_baseline iv)) \<le> 10000"
    and "fst ` set (tb_headerBindings (iv_baseline iv)) \<subseteq> set (tb_knownTools (iv_baseline iv))"
    and "(\<Union>r \<in> set (iv_live iv). set (rv_names r)) \<subseteq> set (tb_knownTools (iv_baseline iv)) \<union> set (tb_pending (iv_baseline iv))"
  using assms by (simp_all add: inventory_ok_def Let_def slots_ok_def bound_ok_def maxBaselineTools_def list_all_iff held_ok_def) blast

text \<open>
  C21. However the responses of a session overlap, the names known and the names reserved never exceed the capacity of
  10,000 together, header bindings exist for known tools only, and every response in flight still has a slot for each of
  its names, so that committing it after the write cannot fail.
\<close>

theorem inventory_within_capacity:
  "let iv = fold (inventory_step lib) ops \<lparr>iv_baseline = NewToolBaseline, iv_live = []\<rparr>; tb = iv_baseline iv in
   length (tb_knownTools tb) + length (tb_pending tb) \<le> 10000 \<and> set (map fst (tb_headerBindings tb)) \<subseteq> set (tb_knownTools tb) \<and>
   set (concat (map rv_names (iv_live iv))) \<subseteq> set (tb_knownTools tb @ tb_pending tb)"
proof -
  have "inventory_ok (fold (inventory_step lib) ops \<lparr>iv_baseline = NewToolBaseline, iv_live = []\<rparr>)"
    by (rule shared.run_keeps) (simp add: inventory_ok_def NewToolBaseline_def slots_ok_def bound_ok_def)
  from inventory_ok_slots [OF this] show ?thesis by (simp add: Let_def)
qed

end
