(* ===== verification/Spec2Isabelle.thy ===== *)
theory Spec2Isabelle
  imports KillSwitch RateLimit DataBudget FragmentBuffer ToolClassify ChainMatcher DeferredJournal Airlock DenialOfWallet Destination EnvelopeEmit RequestTracker WsMessages ReceiptWitness SessionActivity ToolBaseline
begin

text \<open>
  A verification library for pipelock, a proxy that sits between an AI agent and the network and
  between an MCP client and its servers. Pipelock decides, for each request, tool call and response,
  whether it may pass; this library models the parts that keep state for those decisions or make
  them by an algorithm of their own, and proves what the rest of the program relies on.

  \<^bold>\<open>The program.\<close> A request of the agent first meets the kill switch, which may stop everything. Its
  destination is normalised and compared with operator grants and with the floor of addresses no
  grant can open. Limits per domain count requests and bytes in sliding windows; fragments of
  outgoing payloads are kept per session so that a secret split over requests is still seen by the
  DLP scanner. The session manager keeps a session per agent and client: what it read taints it, and
  sensitive actions of a tainted session are asked about or blocked; findings raise its score and with it
  the escalation level, per destination, which turns warnings into blocks and decays again; a session
  that behaves badly is put into an airlock, which cuts its connections and restricts its tools. On the MCP side the tools a server lists are compared with the definitions approved
  before and become the inventory of the session; a tool call is classified, appended to the history of its
  session and matched against chains of calls; budgets per subject stop runaway loops; a call that
  needs a decision from outside is deferred, held with its descendants and journalled until it is
  resolved. Responses are correlated with the requests that were sent, and WebSocket fragments are
  put together before they are scanned. An allowed request leaves with a mediation envelope that
  states the decision, signed; a peer proxy verifies the envelope and refuses replays. Every decision
  leaves a signed receipt; the receipts of a proxy form a hash chain over restarts and key rotations
  that an auditor verifies offline.

  \<^bold>\<open>The theories\<close>, with the files under \<^verbatim>\<open>src/internal\<close> they model:

  \<^item> \<^verbatim>\<open>Prelude\<close>: time, byte strings, Go's \<^verbatim>\<open>strings\<close> functions, association lists and windows of sorted
    stamps. \<^verbatim>\<open>GoNet\<close>: \<^verbatim>\<open>net.ParseIP\<close>, \<^verbatim>\<open>ParseCIDR\<close>, \<^verbatim>\<open>SplitHostPort\<close>. \<^verbatim>\<open>GoText\<close>: trimming, case, runes,
    number parsing and printing, the printer and classes of \<^verbatim>\<open>net.IP\<close>.
  \<^item> \<^verbatim>\<open>Interfaces\<close>: the locales several components share. \<^verbatim>\<open>kept_invariant\<close> (operations that keep an
    invariant) is interpreted for the fragment buffer, the airlock, the matcher, the budgets, the
    deferred holds, the nonce cache, the request tracker, the taint of a session, lanes, sessions, the scan of a tool list and the tool inventory; \<^verbatim>\<open>sticky_flag\<close> (a flag only some operations clear)
    for both Conductor kills, the airlock, the frozen registry, a stored nonce, hostile taint, a task without
    grants, a quarantined session in its manager and the approved definition of a tool; \<^verbatim>\<open>windowed_log\<close>
    (a log with cleanup answers as the full history does) for the limiter and the data budget;
    \<^verbatim>\<open>strictest_choice\<close> for the verdict of the matcher. \<^verbatim>\<open>DeferredHolds\<close> adds \<^verbatim>\<open>resolution_relation\<close>, for
    relations every resolution respects.
  \<^item> \<^verbatim>\<open>KillSwitch\<close>: \<^verbatim>\<open>killswitch/killswitch.go\<close> and \<^verbatim>\<open>api.go\<close>. The record \<open>controller\<close> has the fields of
    \<^verbatim>\<open>Controller\<close>; \<open>computeDecision\<close> has its six sources in the order of the code.
  \<^item> \<^verbatim>\<open>RateLimit\<close>, \<^verbatim>\<open>DataBudget\<close>, \<^verbatim>\<open>FragmentBuffer\<close>: \<^verbatim>\<open>scanner/ratelimit.go\<close>, \<^verbatim>\<open>databudget.go\<close>, \<^verbatim>\<open>fragment_buffer.go\<close>.
  \<^item> \<^verbatim>\<open>SessionRisk\<close>, \<^verbatim>\<open>TaintClassify\<close>, \<^verbatim>\<open>TaintPolicy\<close>: \<^verbatim>\<open>session/risk.go\<close>, \<^verbatim>\<open>cross_agent.go\<close> and
    \<^verbatim>\<open>taint_classify.go\<close>, \<^verbatim>\<open>proxy/taint.go\<close>, \<^verbatim>\<open>mcp/taint.go\<close>: the taint of a session, what an action is, and the
    decision on it with trust overrides. \<^verbatim>\<open>GoGlob\<close>: \<^verbatim>\<open>path.Match\<close>.
  \<^item> \<^verbatim>\<open>AdaptiveLane\<close>, \<^verbatim>\<open>SessionState\<close>, \<^verbatim>\<open>SessionManager\<close>: \<^verbatim>\<open>proxy/session.go\<close> with \<^verbatim>\<open>session/session.go\<close>,
    \<^verbatim>\<open>decide/escalation.go\<close> and the validation of levels in \<^verbatim>\<open>config/validate.go\<close>. A lane is the score, level and
    threshold of one destination or of the whole session; \<^verbatim>\<open>float64\<close> is the argument \<open>float_ops\<close>.
    \<^verbatim>\<open>SessionActivity\<close>: \<^verbatim>\<open>recordSessionActivityWithUserAgent\<close> of \<^verbatim>\<open>proxy/proxy.go\<close>, what one request does to its session,
    and the session-wide signals of \<^verbatim>\<open>proxy/cee.go\<close>.
  \<^item> \<^verbatim>\<open>Destination\<close>: the package \<^verbatim>\<open>destination\<close>. \<^verbatim>\<open>Airlock\<close>: \<^verbatim>\<open>proxy/airlock.go\<close>.
  \<^item> \<^verbatim>\<open>ToolDigest\<close>, \<^verbatim>\<open>ToolBaseline\<close>: \<^verbatim>\<open>mcp/tools\<close> with the digests of \<^verbatim>\<open>mcp/provenance/sign.go\<close>: the two digests of a definition and what they bind, drift of tool definitions, the inventory and its reservations, the scan of a
    tools/list response.
  \<^item> \<^verbatim>\<open>ToolClassify\<close>, \<^verbatim>\<open>ChainMatcher\<close>: \<^verbatim>\<open>mcp/chains\<close>. \<^verbatim>\<open>DenialOfWallet\<close>: the budgets of MCP subjects.
  \<^item> \<^verbatim>\<open>DeferredHolds\<close>, \<^verbatim>\<open>DeferredCascade\<close>, \<^verbatim>\<open>DeferredJournal\<close>: \<^verbatim>\<open>deferred/manager.go\<close>: the manager and its
    operations with the invariants and bounds; what a cascade removes and that it ends; the journal
    and its replay after a restart.
  \<^item> \<^verbatim>\<open>EnvelopeActor\<close>, \<^verbatim>\<open>EnvelopeWire\<close>, \<^verbatim>\<open>EnvelopeReplay\<close>, \<^verbatim>\<open>EnvelopeSign\<close>, \<^verbatim>\<open>EnvelopeVerify\<close>, \<^verbatim>\<open>EnvelopeEmit\<close>: the
    package \<^verbatim>\<open>envelope\<close>, file by file: actors, the wire form, the nonce cache, the signer, the verifier, the emitter.
  \<^item> \<^verbatim>\<open>RequestTracker\<close>: \<^verbatim>\<open>mcp/request_tracker.go\<close> and the gate of \<^verbatim>\<open>ForwardScanned\<close>. \<^verbatim>\<open>WsMessages\<close>:
    \<^verbatim>\<open>wsutil\<close> and \<^verbatim>\<open>mcp/transport/wsclient.go\<close>.
  \<^item> \<^verbatim>\<open>GoJson\<close>: what \<^verbatim>\<open>json.Marshal\<close> prints, and that it is injective. \<^verbatim>\<open>ReceiptRecord\<close>, \<^verbatim>\<open>ReceiptChain\<close>,
    \<^verbatim>\<open>ReceiptSanitize\<close>, \<^verbatim>\<open>ReceiptEmitter\<close>, \<^verbatim>\<open>ReceiptEndorse\<close>: the package \<^verbatim>\<open>receipt\<close>: records, signatures
    and the canonical text; the walk of the verifier; classification and redaction; the emitter with its
    restarts; endorsed key rotations. \<^verbatim>\<open>ReceiptSpec\<close> states what a valid chain is without the walk and
    proves that the walk decides it; \<^verbatim>\<open>ReceiptTamper\<close> derives what a valid chain guarantees, through the
    locale \<^verbatim>\<open>hash_chain\<close> of \<^verbatim>\<open>Interfaces\<close>; \<^verbatim>\<open>ReceiptRoundtrip\<close> relates emitter and verifier by the inductive
    relation \<open>emitted\<close> over histories of processes; \<^verbatim>\<open>ReceiptWitness\<close> evaluates two small histories.

  \<^bold>\<open>How code becomes definitions.\<close> A struct is a record with the fields of the source, a closed set of
  strings stays strings where the code compares strings, and each function or method is a definition
  of the same name that takes the state and returns it updated. Errors are values. Go maps are
  association lists with distinct keys where the code ranges over them or takes their length,
  partial functions otherwise; the order of a range is an argument. Clock readings, random bytes,
  write failures (a failed journal write may leave a part of its line behind) and what the recorder
  redacts of a signed receipt are arguments, so a theorem holds for all of them or says which it needs. Mutexes
  make operations atomic and runs are lists of operations; where the code works on atomics
  without a mutex (the concurrency slots of \<^verbatim>\<open>DenialOfWallet\<close>) the steps are those of the atomics and
  the theorem quantifies over their interleavings. Third-party packages (structured fields, the
  WebSocket frame layer), cryptography, regular expressions, JSON and URL parsing are arguments, with what
  the code relies on as named predicates (\<open>sfv_ok\<close>, \<open>ws_ok\<close>, \<open>crypto_ok\<close>, \<open>keys_ok\<close>, \<open>unforgeable\<close>, \<open>parses_plain_urls\<close>, \<open>told_apart\<close>) that concrete
  instances in the theories satisfy.

  \<^bold>\<open>What is shown.\<close> Safety: kills and quarantines hold until lifted; no window admits more than its
  limit; hostile content blocks calls on secret files until the task ends (unless the profile is permissive), escalation lasts its period, never weakens and stays
  with its destination as long as no signal concerns the whole session, the airlock is entered on the edge of an escalation only, quarantine survives
  eviction and cleanup; in block mode a changed tool definition that is worse than the approved one is refused; budgets stay spent; grants authorise exactly what they name and never the floor; allows of
  deferred actions are journalled; accepted envelopes are authentic and not replayed; once a request is tracked no response
  passes that was not asked for; the root hash of a receipt chain commits to every receipt, each signed
  by a trusted key, a lost receipt breaks the chain, and an endorsed rotation was authorised by the
  retired key. Invariants and bounds: memory of buffers, holds, sessions,
  trackers, the tool inventory under overlapping responses. Equivalences: cleanup and trimming do not change answers; wildcards match as globs; the chain
  verifier accepts exactly the valid chains. Round trips: the journal, the envelope from emitter
  to verifier, receipts from emitter to verifier (for evidence of fewer than \<open>2 ^ 64\<close> receipts, the width
  of a sequence number, written as they were signed and none after the close of its session), fragmented messages, actors. Termination: resolving a hold, with a recursion budget of
  twice the number of holds plus one, enough because every level removes a hold. Liveness: sweeps bring every
  session back to normal. Some theorems
  state where the code does less than its documentation says: the greedy chain walk, the
  airlock's forgotten connections, the cap on signature lifetimes, envelopes no signature covers,
  overrides matched against the last page only, quarantined destinations lost to idle cleanup,
  airlock timers that need adaptive enforcement, quarantined sessions that a client deletes, session-wide findings that reach every
  destination, torn journal lines that stop the recovery, second spellings of a key that the hash of a definition does not
  order, actions after a session close, and receipt chains cut off at the end.

  \<^bold>\<open>Not modelled.\<close> The request handlers, transports and command line (sockets, processes and files around
  the modelled parts), the regular-expression tables of the scanner, configuration loading, audit,
  metrics and presentation, sandboxing (operating-system interfaces), licensing and key files.
  The behavioural baseline goes to a statistics package; admin snapshots and status are reports.
\<close>

end
